(* ===== verification/Prelude.thy ===== *)
theory Prelude
  imports Complex_Main
    "HOL-Library.Char_ord"
    "HOL-Library.List_Lexorder"
    "HOL-Library.Option_ord"
    "HOL-Library.Product_Lexorder"
begin

text \<open>
  Shared vocabulary of the development: the Python built-ins the modelled code uses
  (truthiness, \<open>int()\<close>, \<open>round()\<close>, \<open>min(key=...)\<close>, \<open>random.choices\<close>, \<open>str.strip\<close>,
  \<open>str.lower\<close>, number formatting), each as an executable definition, and the generic
  lemmas on them that the component theories use.

  Conventions. A Python \<open>float\<close> is a \<open>real\<close> (no rounding, no NaN; where the code uses an
  infinite sentinel, the sentinel is a value of its own). A Python \<open>int\<close> is an \<open>int\<close>. A
  \<open>str\<close> is a \<open>string\<close> whose characters are ASCII, so the lexicographic order of
  \<open>HOL-Library.List_Lexorder\<close> is Python's string order. \<open>T | None\<close> is \<open>T option\<close>. A tuple
  used as a sort key is a tuple under the order of \<open>HOL-Library.Product_Lexorder\<close>. A raised
  exception is \<open>Inl\<close>, a returned value \<open>Inr\<close>.
\<close>

section \<open>Errors and collections of facts\<close>

datatype py_error = ValueError | IndexError | KeyError | ZeroDivisionError

type_synonym 'a result = "py_error + 'a"

named_theorems select_simps \<open>facts that evaluate the selection pipeline\<close>
named_theorems frame_simps \<open>fields an operation leaves unchanged\<close>
named_theorems inv_intros \<open>operations that keep an invariant\<close>

section \<open>Truthiness, integer conversion, rounding\<close>

definition truthy :: "real option \<Rightarrow> bool" where
  "truthy x = (case x of None \<Rightarrow> False | Some r \<Rightarrow> r \<noteq> 0)"

definition or_default :: "'a option \<Rightarrow> 'a \<Rightarrow> 'a" where
  "or_default x d = (case x of None \<Rightarrow> d | Some v \<Rightarrow> v)"

definition py_int :: "real \<Rightarrow> int" where
  "py_int r = (if 0 \<le> r then \<lfloor>r\<rfloor> else \<lceil>r\<rceil>)"

definition py_round :: "real \<Rightarrow> int" where
  "py_round r =
     (let f = \<lfloor>r\<rfloor>; d = r - of_int f
      in if d < 1 / 2 then f else if d > 1 / 2 then f + 1 else if even f then f else f + 1)"

definition first_nonempty :: "'a list \<Rightarrow> 'a list \<Rightarrow> 'a list" where
  "first_nonempty xs ys = (if xs = [] then ys else xs)"

section \<open>Minimum and maximum by key\<close>

fun min_from :: "('a \<Rightarrow> 'k::linorder) \<Rightarrow> 'a \<Rightarrow> 'a list \<Rightarrow> 'a" where
  "min_from k x [] = x"
| "min_from k x (y # ys) = min_from k (if k y < k x then y else x) ys"

fun min_by :: "('a \<Rightarrow> 'k::linorder) \<Rightarrow> 'a list \<Rightarrow> 'a result" where
  "min_by k [] = Inl ValueError"
| "min_by k (x # xs) = Inr (min_from k x xs)"

fun max_from :: "('a \<Rightarrow> 'k::linorder) \<Rightarrow> 'a \<Rightarrow> 'a list \<Rightarrow> 'a" where
  "max_from k x [] = x"
| "max_from k x (y # ys) = max_from k (if k x < k y then y else x) ys"

fun max_by :: "('a \<Rightarrow> 'k::linorder) \<Rightarrow> 'a list \<Rightarrow> 'a result" where
  "max_by k [] = Inl ValueError"
| "max_by k (x # xs) = Inr (max_from k x xs)"

section \<open>random.choices\<close>

fun accumulate :: "real \<Rightarrow> real list \<Rightarrow> real list" where
  "accumulate s [] = []"
| "accumulate s (w # ws) = (s + w) # accumulate (s + w) ws"

function bisect_right :: "real list \<Rightarrow> real \<Rightarrow> nat \<Rightarrow> nat \<Rightarrow> nat" where
  "bisect_right a x lo hi =
     (if lo < hi
      then (let mid = (lo + hi) div 2
            in if x < a ! mid then bisect_right a x lo mid else bisect_right a x (Suc mid) hi)
      else lo)"
  by pat_completeness auto
termination
  by (relation "measure (\<lambda>(a, x, lo, hi). hi - lo)") auto

declare bisect_right.simps [simp del]

definition choices :: "real \<Rightarrow> 'a list \<Rightarrow> real list \<Rightarrow> 'a result" where
  "choices u xs ws =
     (let cum = accumulate 0 ws
      in if length cum \<noteq> length xs then Inl ValueError
         else if cum = [] then Inl IndexError
         else if last cum \<le> 0 then Inl ValueError
         else Inr (xs ! bisect_right cum (u * last cum) 0 (length xs - 1)))"

section \<open>Strings\<close>

definition is_py_space :: "char \<Rightarrow> bool" where
  "is_py_space c = (let n = of_char c :: nat in n \<in> {9, 10, 11, 12, 13, 28, 29, 30, 31, 32})"

definition py_strip :: "string \<Rightarrow> string" where
  "py_strip s = rev (dropWhile is_py_space (rev (dropWhile is_py_space s)))"

definition lower_char :: "char \<Rightarrow> char" where
  "lower_char c = (let n = of_char c :: nat in if 65 \<le> n \<and> n \<le> 90 then char_of (n + 32) else c)"

definition py_lower :: "string \<Rightarrow> string" where
  "py_lower s = map lower_char s"

definition starts_with :: "string \<Rightarrow> string \<Rightarrow> bool" where
  "starts_with s p = (take (length p) s = p)"

fun string_of_nat :: "nat \<Rightarrow> string" where
  "string_of_nat n =
     (if n < 10 then [char_of (48 + n)] else string_of_nat (n div 10) @ [char_of (48 + n mod 10)])"

declare string_of_nat.simps [simp del]

section \<open>Lemmas on the built-ins\<close>

lemma truthy_Some [simp]: "truthy (Some r) = (r \<noteq> 0)" and truthy_None [simp]: "\<not> truthy None"
  by (simp_all add: truthy_def)

lemma or_default_simps [simp]: "or_default None d = d" "or_default (Some v) d = v"
  by (simp_all add: or_default_def)

lemma py_int_nonneg: "0 \<le> r \<Longrightarrow> py_int r = \<lfloor>r\<rfloor>"
  by (simp add: py_int_def)

lemma py_int_of_int [simp]: "py_int (of_int i) = i"
  by (simp add: py_int_def)

lemma py_int_mono: "a \<le> b \<Longrightarrow> py_int a \<le> py_int b"
  by (auto simp: py_int_def floor_mono ceiling_mono intro: order_trans [of _ 0])

lemma py_int_pos_le: "0 \<le> r \<Longrightarrow> of_int (py_int r) \<le> r"
  by (simp add: py_int_def)

lemma py_round_bounds: "r - 1 / 2 \<le> of_int (py_round r) \<and> of_int (py_round r) \<le> r + 1 / 2"
  unfolding py_round_def Let_def by (auto; linarith)

lemma py_round_nonneg: "0 \<le> r \<Longrightarrow> 0 \<le> py_round r"
  unfolding py_round_def Let_def by (auto; linarith)

lemma py_round_mono_int: "r \<le> of_int n \<Longrightarrow> py_round r \<le> n"
  unfolding py_round_def Let_def by (auto; linarith)

lemma set_first_nonempty: "set (first_nonempty xs ys) \<subseteq> set xs \<union> set ys"
  by (simp add: first_nonempty_def)

lemma first_nonempty_eq_Nil [simp]: "first_nonempty xs ys = [] \<longleftrightarrow> xs = [] \<and> ys = []"
  by (simp add: first_nonempty_def)

lemma min_from_in: "min_from k x ys \<in> insert x (set ys)"
  by (induction ys arbitrary: x) (auto split: if_splits)

lemma min_from_le_start: "k (min_from k x ys) \<le> k x"
  by (induction ys arbitrary: x) (auto, metis le_less_trans less_imp_le)

lemma min_from_le: "y \<in> insert x (set ys) \<Longrightarrow> k (min_from k x ys) \<le> k y"
proof (induction ys arbitrary: x)
  case Nil
  then show ?case by simp
next
  case (Cons z zs)
  let ?w = "if k z < k x then z else x"
  have start: "k (min_from k ?w zs) \<le> k ?w" by (rule min_from_le_start)
  show ?case
  proof (cases "y \<in> set zs")
    case True
    then show ?thesis using Cons.IH [of ?w] by simp
  next
    case False
    then have "y = x \<or> y = z" using Cons.prems by auto
    then have "k ?w \<le> k y" by auto
    with start have "k (min_from k ?w zs) \<le> k y" by (rule order_trans)
    then show ?thesis by (simp only: min_from.simps)
  qed
qed

lemma min_by_Inl_iff [simp]: "min_by k xs = Inl e \<longleftrightarrow> xs = [] \<and> e = ValueError"
  by (cases xs) auto

lemma min_by_in: "min_by k xs = Inr m \<Longrightarrow> m \<in> set xs"
  using min_from_in [of k "hd xs" "tl xs"] by (cases xs) auto

lemma min_by_le: "min_by k xs = Inr m \<Longrightarrow> y \<in> set xs \<Longrightarrow> k m \<le> k y"
  using min_from_le [of y "hd xs" "tl xs" k] by (cases xs) auto

lemma min_by_total: "xs \<noteq> [] \<Longrightarrow> \<exists>m. min_by k xs = Inr m"
  by (cases xs) auto

lemma min_by_member: "xs \<noteq> [] \<Longrightarrow> \<exists>m \<in> set xs. min_by k xs = Inr m"
proof -
  assume "xs \<noteq> []"
  then obtain m where m: "min_by k xs = Inr m" using min_by_total by blast
  then have "m \<in> set xs" by (rule min_by_in)
  with m show ?thesis by blast
qed

lemma max_from_in: "max_from k x ys \<in> insert x (set ys)"
  by (induction ys arbitrary: x) (auto split: if_splits)

lemma max_from_ge_start: "k x \<le> k (max_from k x ys)"
  by (induction ys arbitrary: x) (auto, metis less_imp_le order_trans)

lemma max_from_ge: "y \<in> insert x (set ys) \<Longrightarrow> k y \<le> k (max_from k x ys)"
proof (induction ys arbitrary: x)
  case Nil
  then show ?case by simp
next
  case (Cons z zs)
  let ?w = "if k x < k z then z else x"
  have start: "k ?w \<le> k (max_from k ?w zs)" by (rule max_from_ge_start)
  show ?case
  proof (cases "y \<in> set zs")
    case True
    then show ?thesis using Cons.IH [of ?w] by simp
  next
    case False
    then have "y = x \<or> y = z" using Cons.prems by auto
    then have "k y \<le> k ?w" by auto
    then have "k y \<le> k (max_from k ?w zs)" using start by (rule order_trans)
    then show ?thesis by (simp only: max_from.simps)
  qed
qed

lemma max_by_Inl_iff [simp]: "max_by k xs = Inl e \<longleftrightarrow> xs = [] \<and> e = ValueError"
  by (cases xs) auto

lemma max_by_in: "max_by k xs = Inr m \<Longrightarrow> m \<in> set xs"
  using max_from_in [of k "hd xs" "tl xs"] by (cases xs) auto

lemma max_by_ge: "max_by k xs = Inr m \<Longrightarrow> y \<in> set xs \<Longrightarrow> k y \<le> k m"
  using max_from_ge [of y "hd xs" "tl xs" k] by (cases xs) auto

section \<open>Weighted draws\<close>

lemma sort_key_eq_Nil [simp]: "sort_key f xs = [] \<longleftrightarrow> xs = []"
  by (metis length_0_conv length_sort)

lemma sum_list_pos:
  fixes xs :: "real list"
  shows "xs \<noteq> [] \<Longrightarrow> (\<And>x. x \<in> set xs \<Longrightarrow> 0 < x) \<Longrightarrow> 0 < sum_list xs"
proof (induction xs)
  case (Cons a as)
  have "0 \<le> sum_list as" by (rule sum_list_nonneg) (use Cons.prems(2) in \<open>auto intro: less_imp_le\<close>)
  then show ?case using Cons.prems(2) [of a] by simp
qed simp

lemma length_accumulate [simp]: "length (accumulate s ws) = length ws"
  by (induction ws arbitrary: s) auto

lemma accumulate_eq_Nil [simp]: "accumulate s ws = [] \<longleftrightarrow> ws = []"
  by (cases ws) auto

lemma nth_accumulate: "i < length ws \<Longrightarrow> accumulate s ws ! i = s + sum_list (take (Suc i) ws)"
proof (induction ws arbitrary: s i)
  case (Cons w ws)
  then show ?case by (cases i) auto
qed simp

lemma last_accumulate: "ws \<noteq> [] \<Longrightarrow> last (accumulate s ws) = s + sum_list ws"
  by (simp add: last_conv_nth nth_accumulate)

lemma sum_list_take_mono:
  fixes ws :: "real list"
  assumes "\<forall>w \<in> set ws. 0 \<le> w" and "i \<le> j"
  shows "sum_list (take i ws) \<le> sum_list (take j ws)"
proof -
  have "take j ws = take i ws @ take (j - i) (drop i ws)"
    using assms(2) by (metis le_add_diff_inverse take_add)
  moreover have "0 \<le> sum_list (take (j - i) (drop i ws))"
    by (rule sum_list_nonneg) (use assms(1) in \<open>auto dest!: in_set_takeD in_set_dropD\<close>)
  ultimately show ?thesis by simp
qed

lemma bisect_right_spec:
  assumes "lo \<le> hi" and "\<And>i j. i \<le> j \<Longrightarrow> j < hi \<Longrightarrow> a ! i \<le> a ! j"
  shows "lo \<le> bisect_right a x lo hi \<and> bisect_right a x lo hi \<le> hi
    \<and> (\<forall>j. lo \<le> j \<and> j < bisect_right a x lo hi \<longrightarrow> a ! j \<le> x)
    \<and> (bisect_right a x lo hi < hi \<longrightarrow> x < a ! bisect_right a x lo hi)"
  using assms
proof (induction a x lo hi rule: bisect_right.induct)
  case (1 a x lo hi)
  let ?mid = "(lo + hi) div 2"
  consider (stop) "\<not> lo < hi" | (left) "lo < hi" "x < a ! ?mid" | (right) "lo < hi" "\<not> x < a ! ?mid"
    by blast
  then show ?case
  proof cases
    case stop
    then have "bisect_right a x lo hi = lo" by (simp add: bisect_right.simps [of a x lo hi])
    then show ?thesis using stop 1(3) by auto
  next
    case left
    have eq: "bisect_right a x lo hi = bisect_right a x lo ?mid"
      using left by (simp add: bisect_right.simps [of a x lo hi] Let_def)
    have bounds: "lo \<le> ?mid" "?mid < hi" using left(1) by auto
    have IH: "lo \<le> bisect_right a x lo ?mid \<and> bisect_right a x lo ?mid \<le> ?mid
      \<and> (\<forall>j. lo \<le> j \<and> j < bisect_right a x lo ?mid \<longrightarrow> a ! j \<le> x)
      \<and> (bisect_right a x lo ?mid < ?mid \<longrightarrow> x < a ! bisect_right a x lo ?mid)"
      by (rule 1(1)) (use left bounds 1(4) in auto)
    have "x < a ! bisect_right a x lo ?mid"
      using IH left(2) by (cases "bisect_right a x lo ?mid < ?mid") (simp_all add: le_less)
    then show ?thesis unfolding eq using IH bounds by simp
  next
    case right
    have eq: "bisect_right a x lo hi = bisect_right a x (Suc ?mid) hi"
      using right by (simp add: bisect_right.simps [of a x lo hi] Let_def)
    have bounds: "lo \<le> ?mid" "?mid < hi" using right(1) by auto
    have IH: "Suc ?mid \<le> bisect_right a x (Suc ?mid) hi \<and> bisect_right a x (Suc ?mid) hi \<le> hi
      \<and> (\<forall>j. Suc ?mid \<le> j \<and> j < bisect_right a x (Suc ?mid) hi \<longrightarrow> a ! j \<le> x)
      \<and> (bisect_right a x (Suc ?mid) hi < hi \<longrightarrow> x < a ! bisect_right a x (Suc ?mid) hi)"
      by (rule 1(2)) (use right bounds 1(4) in auto)
    have low: "a ! j \<le> x" if "lo \<le> j" "j \<le> ?mid" for j
      using 1(4) [of j ?mid] that bounds right(2) by auto
    have all: "a ! j \<le> x" if "lo \<le> j" "j < bisect_right a x (Suc ?mid) hi" for j
      using IH low [of j] that by (cases "j \<le> ?mid") (simp_all add: Suc_le_eq)
    show ?thesis unfolding eq using IH all bounds by simp
  qed
qed

lemma accumulate_sorted:
  assumes "\<forall>w \<in> set ws. 0 \<le> w" and "i \<le> j" and "j < length ws"
  shows "accumulate 0 ws ! i \<le> accumulate 0 ws ! j"
  using assms sum_list_take_mono [of ws "Suc i" "Suc j"] by (simp add: nth_accumulate)

text \<open>
  With non-negative weights of positive sum the draw returns an element, and one of
  positive weight: an element of weight zero is never drawn.
\<close>

lemma choices_positive:
  assumes nonneg: "\<forall>w \<in> set ws. 0 \<le> w" and len: "length ws = length xs"
    and pos: "0 < sum_list ws" and u: "0 \<le> u" "u < 1"
  shows "\<exists>i < length xs. choices u xs ws = Inr (xs ! i) \<and> 0 < ws ! i"
proof -
  define x where "x = u * sum_list ws"
  define i where "i = bisect_right (accumulate 0 ws) x 0 (length xs - 1)"
  have ne: "ws \<noteq> []" using pos by auto
  have x: "0 \<le> x" "x < sum_list ws" using u pos by (auto simp: x_def)
  have spec: "i \<le> length xs - 1" "\<And>j. j < i \<Longrightarrow> accumulate 0 ws ! j \<le> x"
    "i < length xs - 1 \<Longrightarrow> x < accumulate 0 ws ! i"
    using bisect_right_spec [of 0 "length xs - 1" "accumulate 0 ws" x]
      accumulate_sorted [OF nonneg] len by (auto simp: i_def)
  have il: "i < length xs" using spec(1) ne len by (cases xs) auto
  have above: "x < sum_list (take (Suc i) ws)"
  proof (cases "i < length xs - 1")
    case True
    then show ?thesis using spec(3) il len by (simp add: nth_accumulate)
  next
    case False
    then show ?thesis using x(2) len by simp
  qed
  have below: "sum_list (take i ws) \<le> x"
  proof (cases i)
    case (Suc j)
    then show ?thesis using spec(2) [of j] il len by (simp add: nth_accumulate)
  qed (simp add: x)
  have "sum_list (take (Suc i) ws) = sum_list (take i ws) + ws ! i"
    using il len by (simp add: take_Suc_conv_app_nth)
  then have "0 < ws ! i" using above below by linarith
  moreover have "choices u xs ws = Inr (xs ! i)"
    using ne len pos by (simp add: choices_def Let_def last_accumulate i_def x_def)
  ultimately show ?thesis using il by blast
qed

end
