(* ===== verification/Plans.thy ===== *)
theory Plans
  imports Prelude
begin

text \<open>
  Subscription plans: \<open>app/core/plan_types.py\<close> (normalisation of plan labels and the
  free-plan routing exclusion). The sets and dictionaries of the module are lists in
  the source's order.
\<close>

section \<open>Definitions\<close>

definition ACCOUNT_PLAN_TYPES :: "string list" where
  "ACCOUNT_PLAN_TYPES =
     [''free'', ''plus'', ''pro'', ''prolite'', ''team'', ''business'', ''enterprise'', ''edu'']"

definition RATE_LIMIT_PLAN_TYPES :: "string list" where
  "RATE_LIMIT_PLAN_TYPES =
     ACCOUNT_PLAN_TYPES @ [''guest'', ''go'', ''free_workspace'', ''education'', ''quorum'', ''k12'']"

definition ACCOUNT_PLAN_EQUIVALENTS :: "(string \<times> string list) list" where
  "ACCOUNT_PLAN_EQUIVALENTS = [(''prolite'', [''pro''])]"

definition FREE_ROUTING_BLOCKED_PLAN_TYPES :: "string list" where
  "FREE_ROUTING_BLOCKED_PLAN_TYPES = [''free'', ''guest'', ''go'', ''free_workspace'', ''quorum'']"

definition clean_plan_type :: "string option \<Rightarrow> string option" where
  "clean_plan_type raw =
     (case raw of None \<Rightarrow> None
      | Some v \<Rightarrow> (let cleaned = py_strip v in if cleaned = [] then None else Some cleaned))"

definition normalize_account_plan_type :: "string option \<Rightarrow> string option" where
  "normalize_account_plan_type raw =
     (case clean_plan_type raw of None \<Rightarrow> None
      | Some cleaned \<Rightarrow>
          (let normalized = py_lower cleaned
           in if normalized \<in> set ACCOUNT_PLAN_TYPES then Some normalized else None))"

definition canonicalize_account_plan_type :: "string option \<Rightarrow> string option" where
  "canonicalize_account_plan_type raw =
     (case clean_plan_type raw of None \<Rightarrow> None
      | Some cleaned \<Rightarrow>
          (let normalized = py_lower cleaned
           in if normalized \<in> set ACCOUNT_PLAN_TYPES then Some normalized else Some cleaned))"

definition coerce_account_plan_type :: "string option \<Rightarrow> string \<Rightarrow> string" where
  "coerce_account_plan_type raw dflt =
     (case clean_plan_type raw of None \<Rightarrow> dflt
      | Some cleaned \<Rightarrow> or_default (canonicalize_account_plan_type (Some cleaned)) dflt)"

definition is_free_account_plan :: "string option \<Rightarrow> bool" where
  "is_free_account_plan raw =
     (case clean_plan_type raw of None \<Rightarrow> False
      | Some cleaned \<Rightarrow> py_lower cleaned \<in> set FREE_ROUTING_BLOCKED_PLAN_TYPES)"

definition normalize_rate_limit_plan_type :: "string option \<Rightarrow> string option" where
  "normalize_rate_limit_plan_type raw =
     (case clean_plan_type raw of None \<Rightarrow> None
      | Some cleaned \<Rightarrow>
          (let normalized = py_lower cleaned
           in if normalized \<in> set RATE_LIMIT_PLAN_TYPES then Some normalized else None))"

definition account_plan_matches_allowed :: "string option \<Rightarrow> string list \<Rightarrow> bool" where
  "account_plan_matches_allowed raw allowed_plans =
     (case clean_plan_type raw of None \<Rightarrow> False
      | Some cleaned \<Rightarrow>
          (let normalized_allowed = map py_lower allowed_plans;
               normalized = normalize_account_plan_type (Some cleaned);
               candidate = or_default normalized (py_lower cleaned)
           in if candidate \<in> set normalized_allowed then True
              else case normalized of None \<Rightarrow> False
                   | Some n \<Rightarrow>
                       filter (\<lambda>p. p \<in> set normalized_allowed)
                         (or_default (map_of ACCOUNT_PLAN_EQUIVALENTS n) []) \<noteq> []))"

section \<open>Stripping and lower-casing\<close>

lemma lower_char_idem [simp]: "lower_char (lower_char c) = lower_char c"
  by (auto simp: lower_char_def Let_def)

lemma py_lower_idem [simp]: "py_lower (py_lower s) = py_lower s"
  by (simp add: py_lower_def)

lemma is_py_space_lower [simp]: "is_py_space (lower_char c) = is_py_space c"
  by (auto simp: lower_char_def is_py_space_def Let_def)

lemma dropWhile_space_lower: "dropWhile is_py_space (map lower_char s) = map lower_char (dropWhile is_py_space s)"
  by (induction s) auto

lemma py_strip_lower: "py_strip (py_lower s) = py_lower (py_strip s)"
  by (simp add: py_strip_def py_lower_def dropWhile_space_lower rev_map)

lemma dropWhile_idem_rev:
  "dropWhile P (rev (dropWhile P (rev (dropWhile P s)))) = rev (dropWhile P (rev (dropWhile P s)))"
proof (cases "dropWhile P s")
  case Nil
  then show ?thesis by (simp only: rev.simps dropWhile.simps)
next
  case (Cons c cs)
  then have c: "\<not> P c" by (metis hd_dropWhile list.distinct(1) list.sel(1))
  have "dropWhile P (rev cs @ [c]) = dropWhile P (rev cs) @ [c]"
    using c by (induction "rev cs") (auto simp: dropWhile_append3 dropWhile_append)
  then show ?thesis using Cons c by simp
qed

lemma py_strip_idem [simp]: "py_strip (py_strip s) = py_strip s"
  by (simp add: py_strip_def dropWhile_idem_rev)

end
