(* ===== verification/Balancer_State.thy ===== *)
theory Balancer_State
  imports Plans
begin

text \<open>
  The account data model of the load balancer and the sort keys its strategies rank
  accounts by: the first half of \<open>app/core/balancer/logic.py\<close>, with the capacity tables of
  \<open>app/core/usage/__init__.py\<close> it reads. Names keep the source's, without the leading
  underscore. SHA-256 is a parameter (\<open>hexdigest\<close>), as the host name is: the code only
  uses that they are functions.
\<close>

section \<open>Account state\<close>

datatype account_status =
  ACTIVE | RATE_LIMITED | QUOTA_EXCEEDED | PAUSED | REAUTH_REQUIRED | DEACTIVATED

definition HEALTH_TIER_HEALTHY :: int where "HEALTH_TIER_HEALTHY = 0"
definition HEALTH_TIER_DRAINING :: int where "HEALTH_TIER_DRAINING = 1"
definition HEALTH_TIER_PROBING :: int where "HEALTH_TIER_PROBING = 2"

definition ROUTING_POLICY_NORMAL :: string where "ROUTING_POLICY_NORMAL = ''normal''"
definition ROUTING_POLICY_BURN_FIRST :: string where "ROUTING_POLICY_BURN_FIRST = ''burn_first''"
definition ROUTING_POLICY_PRESERVE :: string where "ROUTING_POLICY_PRESERVE = ''preserve''"

definition SECONDS_PER_DAY :: int where "SECONDS_PER_DAY = 86400"
definition SECONDS_PER_HOUR :: int where "SECONDS_PER_HOUR = 3600"
definition SECONDS_PER_WEEK :: int where "SECONDS_PER_WEEK = 7 * SECONDS_PER_DAY"
definition UNKNOWN_RESET_BUCKET_DAYS :: int where "UNKNOWN_RESET_BUCKET_DAYS = 10000"
definition PROBE_QUIET_SECONDS :: real where "PROBE_QUIET_SECONDS = 60"

record account_state =
  account_id :: string
  status :: account_status
  used_percent :: "real option"
  reset_at :: "real option"
  primary_reset_at :: "int option"
  primary_window_minutes :: "int option"
  blocked_at :: "real option"
  cooldown_until :: "real option"
  secondary_used_percent :: "real option"
  secondary_reset_at :: "int option"
  last_error_at :: "real option"
  last_selected_at :: "real option"
  error_count :: int
  deactivation_reason :: "string option"
  plan_type :: "string option"
  capacity_credits :: "real option"
  health_tier :: int
  priority_used_percent :: "real option"
  priority_secondary_used_percent :: "real option"
  priority_reset_at :: "int option"
  priority_capacity_credits :: "real option"
  limit_scoped_usage :: bool
  inflight_response_creates :: int
  inflight_streams :: int
  leased_tokens :: real
  routing_policy :: string
  ignore_standard_quota :: bool

definition new_account_state :: "string \<Rightarrow> account_status \<Rightarrow> account_state" where
  "new_account_state i st =
     \<lparr>account_id = i, status = st, used_percent = None, reset_at = None,
      primary_reset_at = None, primary_window_minutes = None, blocked_at = None,
      cooldown_until = None, secondary_used_percent = None, secondary_reset_at = None,
      last_error_at = None, last_selected_at = None, error_count = 0,
      deactivation_reason = None, plan_type = None, capacity_credits = None,
      health_tier = 0, priority_used_percent = None, priority_secondary_used_percent = None,
      priority_reset_at = None, priority_capacity_credits = None, limit_scoped_usage = False,
      inflight_response_creates = 0, inflight_streams = 0, leased_tokens = 0,
      routing_policy = ROUTING_POLICY_NORMAL, ignore_standard_quota = False\<rparr>"

record routing_cost =
  total_cost :: real
  cost_reason :: "string option"

text \<open>
  \<open>RoutingCostsByAccount | None\<close>: an association list. The code tests only the truth of
  the dictionary, so None and the empty dictionary are both the empty list.
\<close>

type_synonym routing_costs = "(string \<times> routing_cost) list"

definition planner_cost :: "account_state \<Rightarrow> routing_costs \<Rightarrow> real" where
  "planner_cost state costs =
     (if costs = [] then 0
      else case map_of costs (account_id state) of None \<Rightarrow> 0 | Some c \<Rightarrow> total_cost c)"

section \<open>Usage as the priority pools see it\<close>

definition priority_primary_used :: "account_state \<Rightarrow> real" where
  "priority_primary_used state =
     (let v = (if priority_used_percent state \<noteq> None then priority_used_percent state
               else used_percent state)
      in or_default v 0)"

definition priority_secondary_used :: "account_state \<Rightarrow> real option \<Rightarrow> real" where
  "priority_secondary_used state primary_used =
     (let fallback = or_default primary_used (priority_primary_used state)
      in if limit_scoped_usage state \<and> priority_secondary_used_percent state = None then fallback
         else let v = (if priority_secondary_used_percent state \<noteq> None
                       then priority_secondary_used_percent state
                       else secondary_used_percent state)
              in or_default v fallback)"

type_synonym usage_key = "real \<times> real \<times> real \<times> string"

definition usage_sort_key :: "account_state \<Rightarrow> usage_key" where
  "usage_sort_key state =
     (let primary_used = priority_primary_used state;
          secondary_used = priority_secondary_used state (Some primary_used);
          last_selected = or_default (last_selected_at state) 0
      in (secondary_used, primary_used, last_selected, account_id state))"

definition primary_usage_sort_key :: "account_state \<Rightarrow> usage_key" where
  "primary_usage_sort_key state =
     (let primary_used = priority_primary_used state;
          secondary_used = priority_secondary_used state (Some primary_used);
          last_selected = or_default (last_selected_at state) 0
      in (primary_used, secondary_used, last_selected, account_id state))"

definition effective_routing_policy :: "account_state \<Rightarrow> string" where
  "effective_routing_policy state =
     (if routing_policy state \<in>
         {ROUTING_POLICY_BURN_FIRST, ROUTING_POLICY_NORMAL, ROUTING_POLICY_PRESERVE}
      then routing_policy state else ROUTING_POLICY_NORMAL)"

definition used_pct :: "account_state \<Rightarrow> bool \<Rightarrow> real option" where
  "used_pct state secondary =
     (if secondary
      then (if secondary_used_percent state \<noteq> None then secondary_used_percent state
            else used_percent state)
      else used_percent state)"

definition remaining_pct :: "account_state \<Rightarrow> bool \<Rightarrow> real option" where
  "remaining_pct state secondary =
     map_option (\<lambda>u. max 0 (100 - min 100 u)) (used_pct state secondary)"

definition seconds_until :: "real option \<Rightarrow> real \<Rightarrow> real option" where
  "seconds_until t current = map_option (\<lambda>r. max 0 (r - current)) t"

section \<open>Capacity\<close>

definition PLAN_CAPACITY_CREDITS_PRIMARY :: "(string \<times> real) list" where
  "PLAN_CAPACITY_CREDITS_PRIMARY =
     [(''free'', 0), (''plus'', 225), (''business'', 225), (''team'', 225), (''edu'', 225),
      (''pro'', 1500), (''prolite'', 1125), (''enterprise'', 1500)]"

definition PLAN_CAPACITY_CREDITS_SECONDARY :: "(string \<times> real) list" where
  "PLAN_CAPACITY_CREDITS_SECONDARY =
     [(''free'', 1134), (''plus'', 7560), (''business'', 7560), (''team'', 7560), (''edu'', 7560),
      (''pro'', 50400), (''prolite'', 37800), (''enterprise'', 50400)]"

definition PLAN_CAPACITY_CREDITS_MONTHLY :: "(string \<times> real) list" where
  "PLAN_CAPACITY_CREDITS_MONTHLY = [(''free'', 1134)]"

definition CAPACITY_PLAN_ALIASES :: "(string \<times> string) list" where
  "CAPACITY_PLAN_ALIASES =
     [(''education'', ''edu''), (''k12'', ''edu''), (''guest'', ''free''), (''go'', ''free''),
      (''free_workspace'', ''free''), (''quorum'', ''free''), (''unknown'', ''free'')]"

definition fallback_secondary_capacity_credits :: "string option \<Rightarrow> real" where
  "fallback_secondary_capacity_credits plan =
     (let normalized = py_lower (py_strip (or_default plan []));
          resolved = or_default (map_of CAPACITY_PLAN_ALIASES normalized)
                       (if normalized = [] then ''free'' else normalized)
      in or_default (map_of PLAN_CAPACITY_CREDITS_SECONDARY resolved) 1134)"

definition remaining_secondary_credits :: "account_state \<Rightarrow> real" where
  "remaining_secondary_credits state =
     (let capacity = (if priority_capacity_credits state \<noteq> None
                      then priority_capacity_credits state else capacity_credits state);
          used = priority_secondary_used state (Some (priority_primary_used state));
          left = (\<lambda>cap. max 0 (cap * (1 - min used 100 / 100)))
      in case capacity of
           None \<Rightarrow> left (fallback_secondary_capacity_credits (plan_type state))
         | Some cap \<Rightarrow> if cap \<le> 0 then 0 else left cap)"

definition configured_capacity_credits :: "account_state \<Rightarrow> real" where
  "configured_capacity_credits state =
     (case capacity_credits state of
        Some c \<Rightarrow> (if c > 0 then c else fallback_secondary_capacity_credits (plan_type state))
      | None \<Rightarrow> fallback_secondary_capacity_credits (plan_type state))"

section \<open>Reset times and the remaining sort keys\<close>

datatype reset_window = Primary_window | Secondary_window

definition reset_preference_bucket :: "account_state \<Rightarrow> real \<Rightarrow> reset_window \<Rightarrow> int" where
  "reset_preference_bucket state current window =
     (let weekly = (if priority_reset_at state \<noteq> None then priority_reset_at state
                    else secondary_reset_at state);
          short = primary_reset_at state;
          chosen = (case window of
                      Primary_window \<Rightarrow> (if short = None then weekly else short)
                    | Secondary_window \<Rightarrow> (if weekly = None then short else weekly))
      in case chosen of
           None \<Rightarrow> UNKNOWN_RESET_BUCKET_DAYS * SECONDS_PER_DAY
         | Some r \<Rightarrow>
             (let remaining_seconds = max 0 (py_int (of_int r - current))
              in if window = Secondary_window then remaining_seconds div SECONDS_PER_DAY
                 else remaining_seconds))"

definition prefer_earlier_reset_candidates ::
    "account_state list \<Rightarrow> real \<Rightarrow> reset_window \<Rightarrow> account_state list result" where
  "prefer_earlier_reset_candidates available current window =
     (case min_by (\<lambda>s. reset_preference_bucket s current window) available of
        Inl e \<Rightarrow> Inl e
      | Inr m \<Rightarrow>
          Inr (filter (\<lambda>s. reset_preference_bucket s current window
                           = reset_preference_bucket m current window) available))"

text \<open>A reset time or \<open>float("inf")\<close>; the infinite time is the greatest.\<close>

datatype reset_time = At real | Never

instantiation reset_time :: linorder
begin

fun less_eq_reset_time :: "reset_time \<Rightarrow> reset_time \<Rightarrow> bool" where
  "less_eq_reset_time (At a) (At b) = (a \<le> b)"
| "less_eq_reset_time (At a) Never = True"
| "less_eq_reset_time Never (At b) = False"
| "less_eq_reset_time Never Never = True"

definition less_reset_time :: "reset_time \<Rightarrow> reset_time \<Rightarrow> bool" where
  "less_reset_time a b = (a \<le> b \<and> \<not> b \<le> a)"

instance
proof
  fix a b c :: reset_time
  show "a < b \<longleftrightarrow> a \<le> b \<and> \<not> b \<le> a" by (rule less_reset_time_def)
  show "a \<le> a" by (cases a) auto
  show "a \<le> b \<Longrightarrow> b \<le> c \<Longrightarrow> a \<le> c" by (cases a; cases b; cases c) auto
  show "a \<le> b \<Longrightarrow> b \<le> a \<Longrightarrow> a = b" by (cases a; cases b) auto
  show "a \<le> b \<or> b \<le> a" by (cases a; cases b) auto
qed

end

definition weekly_reset_timestamp :: "account_state \<Rightarrow> real \<Rightarrow> reset_time" where
  "weekly_reset_timestamp state current =
     (case secondary_reset_at state of
        Some r \<Rightarrow>
          (if of_int r > current then At (of_int r)
           else case reset_at state of
                  Some t \<Rightarrow> (if t > current then At t else Never) | None \<Rightarrow> Never)
      | None \<Rightarrow>
          (case reset_at state of
             Some t \<Rightarrow> (if t > current then At t else Never) | None \<Rightarrow> Never))"

type_synonym reset_drain_key = "int \<times> real \<times> real \<times> reset_time \<times> string \<times> string"

definition reset_drain_sort_key ::
    "(string \<Rightarrow> string) \<Rightarrow> account_state \<Rightarrow> real \<Rightarrow> reset_drain_key" where
  "reset_drain_sort_key hexdigest state current =
     (let primary_remaining = 100 - or_default (used_percent state) 0;
          secondary_remaining = 100 - or_default (secondary_used_percent state)
                                        (or_default (used_percent state) 0);
          ts = weekly_reset_timestamp state current;
          reset_bucket_days =
            (case ts of Never \<Rightarrow> UNKNOWN_RESET_BUCKET_DAYS
             | At r \<Rightarrow> max 0 \<lfloor>(r - current) / of_int SECONDS_PER_DAY\<rfloor>)
      in (reset_bucket_days, - max 0 primary_remaining, - max 0 secondary_remaining, ts,
          hexdigest (account_id state), account_id state))"

definition sequential_drain_sort_key ::
    "(string \<Rightarrow> string) \<Rightarrow> account_state \<Rightarrow> real \<times> string \<times> string" where
  "sequential_drain_sort_key hexdigest state =
     (configured_capacity_credits state, hexdigest (account_id state), account_id state)"

definition capacity_probe_sort_key :: "account_state \<Rightarrow> real \<times> usage_key" where
  "capacity_probe_sort_key state = (- remaining_secondary_credits state, usage_sort_key state)"

definition capacity_probe_sort_key_with_cost ::
    "account_state \<Rightarrow> routing_costs \<Rightarrow> real \<times> real \<times> usage_key" where
  "capacity_probe_sort_key_with_cost state costs =
     (planner_cost state costs, - remaining_secondary_credits state, usage_sort_key state)"

definition fill_first_sort_key :: "account_state \<Rightarrow> real \<times> real \<times> string" where
  "fill_first_sort_key state =
     (- or_default (used_percent state) 0, - or_default (secondary_used_percent state) 0,
      account_id state)"

definition lowest_planner_cost_candidates ::
    "account_state list \<Rightarrow> routing_costs \<Rightarrow> account_state list result" where
  "lowest_planner_cost_candidates available costs =
     (if costs = [] then Inr available
      else case min_by (\<lambda>s. planner_cost s costs) available of
             Inl e \<Rightarrow> Inl e
           | Inr m \<Rightarrow> Inr (filter (\<lambda>s. planner_cost s costs = planner_cost m costs) available))"

section \<open>Replica salt\<close>

record salt_state =
  configured_replica_salt :: "string option"
  process_replica_salt :: "string option"

definition configure_replica_salt :: "string option \<Rightarrow> salt_state \<Rightarrow> salt_state" where
  "configure_replica_salt salt st =
     (let normalized = py_strip (or_default salt [])
      in st\<lparr>configured_replica_salt := (if normalized = [] then None else Some normalized)\<rparr>)"

definition default_replica_salt :: "string \<Rightarrow> salt_state \<Rightarrow> string \<times> salt_state" where
  "default_replica_salt gethostname st =
     (case process_replica_salt st of
        Some s \<Rightarrow> (s, st)
      | None \<Rightarrow>
          (let hostname = py_strip gethostname;
               s = (if hostname = [] then ''openhub'' else hostname)
           in (s, st\<lparr>process_replica_salt := Some s\<rparr>)))"

definition effective_replica_salt ::
    "string \<Rightarrow> string option \<Rightarrow> salt_state \<Rightarrow> string \<times> salt_state" where
  "effective_replica_salt gethostname explicit st =
     (if explicit \<noteq> None \<and> py_strip (or_default explicit []) \<noteq> []
      then (py_strip (or_default explicit []), st)
      else case configured_replica_salt st of
             Some s \<Rightarrow> (s, st)
           | None \<Rightarrow> default_replica_salt gethostname st)"

definition decorrelated_tie_breaker :: "(string \<Rightarrow> string) \<Rightarrow> string \<Rightarrow> string \<Rightarrow> string" where
  "decorrelated_tie_breaker hexdigest aid salt = hexdigest (salt @ [CHR 0x00] @ aid)"

section \<open>Lemmas\<close>

lemma fallback_capacity_pos: "0 < fallback_secondary_capacity_credits p"
proof -
  have "0 < v" if "map_of PLAN_CAPACITY_CREDITS_SECONDARY k = Some v" for k v
    using that by (auto simp: PLAN_CAPACITY_CREDITS_SECONDARY_def split: if_splits)
  then show ?thesis
    by (auto simp: fallback_secondary_capacity_credits_def Let_def or_default_def split: option.splits)
qed

lemma remaining_secondary_credits_nonneg: "0 \<le> remaining_secondary_credits s"
  by (auto simp: remaining_secondary_credits_def Let_def split: option.splits)

lemma effective_policy_cases:
  "effective_routing_policy s = ROUTING_POLICY_BURN_FIRST
   \<or> effective_routing_policy s = ROUTING_POLICY_NORMAL
   \<or> effective_routing_policy s = ROUTING_POLICY_PRESERVE"
  by (auto simp: effective_routing_policy_def)

lemma prefer_earlier_reset_in:
  "prefer_earlier_reset_candidates xs t w = Inr ys \<Longrightarrow> set ys \<subseteq> set xs \<and> ys \<noteq> []"
  by (auto simp: prefer_earlier_reset_candidates_def filter_empty_conv
      split: sum.splits) (blast dest: min_by_in)

lemma prefer_earlier_reset_total:
  "xs \<noteq> [] \<Longrightarrow> \<exists>ys. prefer_earlier_reset_candidates xs t w = Inr ys"
  by (auto simp: prefer_earlier_reset_candidates_def split: sum.splits)

lemma lowest_planner_cost_in:
  "lowest_planner_cost_candidates xs c = Inr ys \<Longrightarrow> xs \<noteq> [] \<Longrightarrow> set ys \<subseteq> set xs \<and> ys \<noteq> []"
  by (auto simp: lowest_planner_cost_candidates_def filter_empty_conv
      split: sum.splits if_splits) (blast dest: min_by_in)

lemma lowest_planner_cost_total:
  "xs \<noteq> [] \<Longrightarrow> \<exists>ys. lowest_planner_cost_candidates xs c = Inr ys"
  by (auto simp: lowest_planner_cost_candidates_def split: sum.splits)

end
