(* ===== verification/Balancer_Opportunistic.thy ===== *)
theory Balancer_Opportunistic
  imports Balancer_State
begin

text \<open>
  Opportunistic traffic (\<open>app/core/balancer/logic.py\<close>, \<open>_recent_foreground_activity\<close> to
  \<open>_filter_opportunistic_candidates\<close>): which accounts background traffic may burn, and
  the reserve floors that protect the others.
\<close>

section \<open>Definitions\<close>

definition PRESERVE_MIN_WEEKLY_FLOOR_PCT :: real where "PRESERVE_MIN_WEEKLY_FLOOR_PCT = 5"
definition PRESERVE_MIN_SHORT_WINDOW_FLOOR_PCT :: real where "PRESERVE_MIN_SHORT_WINDOW_FLOOR_PCT = 10"
definition NORMAL_LAST_ACCOUNT_EMERGENCY_FLOOR_PCT :: real where "NORMAL_LAST_ACCOUNT_EMERGENCY_FLOOR_PCT = 5"
definition RECENT_FOREGROUND_ACTIVITY_SECONDS :: real where "RECENT_FOREGROUND_ACTIVITY_SECONDS = 1800"

definition recent_foreground_activity :: "account_state \<Rightarrow> real \<Rightarrow> bool" where
  "recent_foreground_activity state current =
     (case last_selected_at state of None \<Rightarrow> False
      | Some t \<Rightarrow> current - t \<le> RECENT_FOREGROUND_ACTIVITY_SECONDS)"

definition weekly_pace_floor_pct :: "account_state \<Rightarrow> real \<Rightarrow> real" where
  "weekly_pace_floor_pct state current =
     (case (seconds_until (map_option of_int (secondary_reset_at state)) current, used_pct state True) of
        (Some remaining_seconds, Some used) \<Rightarrow>
          (let week = of_int SECONDS_PER_WEEK;
               elapsed_seconds = max 0 (week - remaining_seconds);
               expected_used_pct = min 100 (elapsed_seconds / week * 100);
               behind_pace = (used + 5 < expected_used_pct);
               pace_floor =
                 (if remaining_seconds \<le> 6 * of_int SECONDS_PER_HOUR \<and> behind_pace then 0
                  else if remaining_seconds \<le> of_int SECONDS_PER_DAY \<and> behind_pace then 2
                  else if behind_pace then 5
                  else 15);
               pace_floor' =
                 (if recent_foreground_activity state current then max pace_floor 25 else pace_floor)
           in max PRESERVE_MIN_WEEKLY_FLOOR_PCT pace_floor')
      | _ \<Rightarrow> 100)"

definition short_window_floor_pct :: "account_state \<Rightarrow> real \<Rightarrow> nat \<Rightarrow> real" where
  "short_window_floor_pct state current preserve_count =
     (case seconds_until (reset_at state) current of
        None \<Rightarrow> 100
      | Some remaining_seconds \<Rightarrow>
          (let f0 = PRESERVE_MIN_SHORT_WINDOW_FLOOR_PCT;
               f1 = (if remaining_seconds > of_int SECONDS_PER_HOUR then max f0 20 else f0);
               f2 = (if recent_foreground_activity state current then max f1 30 else f1)
           in if preserve_count \<le> 1 then max f2 25 else f2))"

definition preserve_allows_opportunistic_burn :: "account_state \<Rightarrow> real \<Rightarrow> nat \<Rightarrow> bool" where
  "preserve_allows_opportunistic_burn state current preserve_count =
     (if remaining_pct state True = None \<or> remaining_pct state False = None then False
      else if secondary_reset_at state = None \<or> reset_at state = None then False
      else or_default (remaining_pct state True) 0 > weekly_pace_floor_pct state current
           \<and> or_default (remaining_pct state False) 0
               > short_window_floor_pct state current preserve_count)"

definition count_preserve :: "account_state list \<Rightarrow> nat" where
  "count_preserve available =
     length (filter (\<lambda>s. effective_routing_policy s = ROUTING_POLICY_PRESERVE) available)"

fun other_capacity_loop :: "account_state \<Rightarrow> real \<Rightarrow> nat \<Rightarrow> account_state list \<Rightarrow> bool" where
  "other_capacity_loop candidate current preserve_count [] = False"
| "other_capacity_loop candidate current preserve_count (other # rest) =
     (if account_id other = account_id candidate
      then other_capacity_loop candidate current preserve_count rest
      else if status other \<noteq> ACTIVE
      then other_capacity_loop candidate current preserve_count rest
      else if effective_routing_policy other = ROUTING_POLICY_PRESERVE
      then (if preserve_allows_opportunistic_burn other current preserve_count then True
            else other_capacity_loop candidate current preserve_count rest)
      else True)"

definition has_other_usable_foreground_capacity ::
    "account_state \<Rightarrow> account_state list \<Rightarrow> real \<Rightarrow> bool" where
  "has_other_usable_foreground_capacity candidate available current =
     other_capacity_loop candidate current (count_preserve available) available"

definition above_emergency_floor :: "account_state \<Rightarrow> bool" where
  "above_emergency_floor state =
     (case (remaining_pct state False, remaining_pct state True) of
        (Some primary_remaining, Some secondary_remaining) \<Rightarrow>
          primary_remaining > NORMAL_LAST_ACCOUNT_EMERGENCY_FLOOR_PCT
          \<and> secondary_remaining > NORMAL_LAST_ACCOUNT_EMERGENCY_FLOOR_PCT
      | _ \<Rightarrow> False)"

definition opportunistic_candidate :: "account_state list \<Rightarrow> real \<Rightarrow> account_state \<Rightarrow> bool" where
  "opportunistic_candidate available current state =
     (if effective_routing_policy state = ROUTING_POLICY_PRESERVE
      then preserve_allows_opportunistic_burn state current (count_preserve available)
      else has_other_usable_foreground_capacity state available current
           \<or> above_emergency_floor state)"

datatype burn_closed = Preserve_floor_or_stale | No_emergency_reserve

definition filter_opportunistic_candidates ::
    "account_state list \<Rightarrow> real \<Rightarrow> account_state list \<times> burn_closed option" where
  "filter_opportunistic_candidates available current =
     (let ok = opportunistic_candidate available current;
          pick = (\<lambda>p. filter (\<lambda>s. effective_routing_policy s = p \<and> ok s) available);
          burn_first = pick ROUTING_POLICY_BURN_FIRST;
          preserve = pick ROUTING_POLICY_PRESERVE;
          normal = pick ROUTING_POLICY_NORMAL
      in if burn_first \<noteq> [] \<or> normal \<noteq> [] \<or> preserve \<noteq> []
         then (burn_first @ normal @ preserve, None)
         else if (\<exists>s \<in> set available. effective_routing_policy s = ROUTING_POLICY_PRESERVE)
         then ([], Some Preserve_floor_or_stale)
         else ([], Some No_emergency_reserve))"

section \<open>Floors\<close>

lemma weekly_pace_floor_bounds:
  "PRESERVE_MIN_WEEKLY_FLOOR_PCT \<le> weekly_pace_floor_pct s t \<and> weekly_pace_floor_pct s t \<le> 100"
  by (auto simp: weekly_pace_floor_pct_def PRESERVE_MIN_WEEKLY_FLOOR_PCT_def Let_def
      split: option.splits prod.splits)

lemma short_window_floor_bounds:
  "PRESERVE_MIN_SHORT_WINDOW_FLOOR_PCT \<le> short_window_floor_pct s t n
   \<and> short_window_floor_pct s t n \<le> 100"
  by (auto simp: short_window_floor_pct_def PRESERVE_MIN_SHORT_WINDOW_FLOOR_PCT_def Let_def
      split: option.splits)

lemma preserve_burn_keeps_reserve:
  assumes "preserve_allows_opportunistic_burn s t n"
  obtains weekly short where "remaining_pct s True = Some weekly"
    and "remaining_pct s False = Some short"
    and "PRESERVE_MIN_WEEKLY_FLOOR_PCT < weekly" and "PRESERVE_MIN_SHORT_WINDOW_FLOOR_PCT < short"
    and "secondary_reset_at s \<noteq> None" and "reset_at s \<noteq> None"
  using assms weekly_pace_floor_bounds [of s t] short_window_floor_bounds [of s t n]
  by (fastforce simp: preserve_allows_opportunistic_burn_def split: if_splits)

lemma filter_opportunistic_set:
  "set (fst (filter_opportunistic_candidates xs t)) = {s \<in> set xs. opportunistic_candidate xs t s}"
  by (auto simp: filter_opportunistic_candidates_def Let_def filter_empty_conv)
    (metis effective_policy_cases)+

lemma filter_opportunistic_reason:
  "snd (filter_opportunistic_candidates xs t) = None
   \<longleftrightarrow> fst (filter_opportunistic_candidates xs t) \<noteq> []"
  by (auto simp: filter_opportunistic_candidates_def Let_def)

lemma other_capacity_loop_iff:
  "other_capacity_loop c t n xs \<longleftrightarrow>
     (\<exists>s \<in> set xs. account_id s \<noteq> account_id c \<and> status s = ACTIVE
        \<and> (effective_routing_policy s = ROUTING_POLICY_PRESERVE
           \<longrightarrow> preserve_allows_opportunistic_burn s t n))"
  by (induction xs) auto

end
