(* ===== verification/Balancer_Strategies.thy ===== *)
theory Balancer_Strategies
  imports Balancer_State
begin

text \<open>
  The weighted strategies of \<open>app/core/balancer/logic.py\<close> and the choice of a probing
  account: \<open>_oldest_due_probing_account\<close>, \<open>_relative_availability_*\<close>,
  \<open>_select_relative_availability\<close>, \<open>_select_capacity_weighted\<close>, \<open>_select_fill_first\<close>. The
  random draw \<open>random.random()\<close> is the argument \<open>u\<close>. The debug and info log lines of the
  relative-availability strategy have no effect on the choice and are left out.
\<close>

section \<open>Definitions\<close>

definition UNKNOWN_RESET_FALLBACK_SECONDS :: int where "UNKNOWN_RESET_FALLBACK_SECONDS = 7 * SECONDS_PER_DAY"
definition RELATIVE_AVAILABILITY_MIN_DIVISOR_SECONDS :: int where "RELATIVE_AVAILABILITY_MIN_DIVISOR_SECONDS = 300"
definition RELATIVE_AVAILABILITY_MIN_WEIGHT_FRACTION :: real where "RELATIVE_AVAILABILITY_MIN_WEIGHT_FRACTION = 1 / 10"
definition DEFAULT_RELATIVE_AVAILABILITY_POWER :: real where "DEFAULT_RELATIVE_AVAILABILITY_POWER = 2"
definition DEFAULT_RELATIVE_AVAILABILITY_TOP_K :: int where "DEFAULT_RELATIVE_AVAILABILITY_TOP_K = 5"

definition oldest_due_probing_account ::
    "account_state list \<Rightarrow> real \<Rightarrow> account_state option" where
  "oldest_due_probing_account probing current =
     (let due = filter (\<lambda>s. case last_selected_at s of None \<Rightarrow> True
                             | Some t \<Rightarrow> current - t \<ge> PROBE_QUIET_SECONDS) probing
      in case min_by (\<lambda>s. (last_selected_at s, account_id s)) due of
           Inl e \<Rightarrow> None | Inr s \<Rightarrow> Some s)"

definition relative_availability_remaining_seconds :: "account_state \<Rightarrow> real \<Rightarrow> real" where
  "relative_availability_remaining_seconds state current =
     (case (if priority_reset_at state \<noteq> None then priority_reset_at state
            else secondary_reset_at state) of
        None \<Rightarrow> of_int UNKNOWN_RESET_FALLBACK_SECONDS
      | Some r \<Rightarrow> max 0 (of_int r - current))"

definition relative_availability_divisor_seconds :: "account_state \<Rightarrow> real \<Rightarrow> real" where
  "relative_availability_divisor_seconds state current =
     (let remaining_seconds =
            (case (if priority_reset_at state \<noteq> None then priority_reset_at state
                   else secondary_reset_at state) of
               None \<Rightarrow> of_int UNKNOWN_RESET_FALLBACK_SECONDS
             | Some r \<Rightarrow> max 0 (of_int r - current))
      in max remaining_seconds (of_int RELATIVE_AVAILABILITY_MIN_DIVISOR_SECONDS))"

definition relative_availability_raw_score :: "account_state \<Rightarrow> real \<Rightarrow> real" where
  "relative_availability_raw_score state current =
     (let remaining_credits = remaining_secondary_credits state
      in if remaining_credits \<le> 0 then 0
         else remaining_credits / relative_availability_divisor_seconds state current)"

definition weight_of_score :: "real \<Rightarrow> real \<Rightarrow> real \<Rightarrow> real" where
  "weight_of_score best pow raw =
     (raw / best) powr (if pow > 0 then pow else DEFAULT_RELATIVE_AVAILABILITY_POWER)"

definition relative_availability_weighted_candidates ::
    "account_state list \<Rightarrow> real \<Rightarrow> real \<Rightarrow> int \<Rightarrow> (account_state \<times> real \<times> real) list" where
  "relative_availability_weighted_candidates available current pow top_k =
     (let raw_scores = map (\<lambda>s. (s, relative_availability_raw_score s current)) available;
          best_raw_score = (case max_by snd raw_scores of Inl e \<Rightarrow> 0 | Inr p \<Rightarrow> snd p)
      in if best_raw_score \<le> 0 then []
         else let weighted =
                    filter (\<lambda>(s, w, r). \<not> w < RELATIVE_AVAILABILITY_MIN_WEIGHT_FRACTION)
                      (map (\<lambda>(s, r). (s, weight_of_score best_raw_score pow r, r)) raw_scores)
              in take (nat (max 1 top_k))
                   (sort_key (\<lambda>(s, w, r). (- w, - r, usage_sort_key s)) weighted))"

definition select_relative_availability ::
    "real \<Rightarrow> account_state list \<Rightarrow> real \<Rightarrow> real \<Rightarrow> int \<Rightarrow> bool \<Rightarrow> account_state result" where
  "select_relative_availability u available current pow top_k deterministic_probe =
     (let weighted_candidates =
            relative_availability_weighted_candidates available current pow top_k
      in case weighted_candidates of
           [] \<Rightarrow> min_by usage_sort_key available
         | (winner, _, _) # _ \<Rightarrow>
             (if deterministic_probe then Inr winner
              else let states = map fst weighted_candidates;
                       weights = map (\<lambda>(s, w, r). w) weighted_candidates
                   in if sum_list weights \<le> 0 then min_by usage_sort_key available
                      else choices u states weights))"

definition select_capacity_weighted :: "real \<Rightarrow> account_state list \<Rightarrow> account_state result" where
  "select_capacity_weighted u available =
     (let weights = map remaining_secondary_credits available
      in if sum_list weights \<le> 0 then min_by usage_sort_key available
         else choices u available weights)"

definition select_fill_first :: "account_state list \<Rightarrow> account_state result" where
  "select_fill_first available = min_by fill_first_sort_key available"

section \<open>The draws return a member of the pool\<close>

lemma oldest_due_probing_in:
  "oldest_due_probing_account xs t = Some s \<Longrightarrow> s \<in> set xs"
  by (auto simp: oldest_due_probing_account_def Let_def split: sum.splits dest!: min_by_in)

lemma oldest_due_probing_due:
  "oldest_due_probing_account xs t = Some s \<Longrightarrow>
     last_selected_at s = None \<or> (\<exists>l. last_selected_at s = Some l \<and> t - l \<ge> PROBE_QUIET_SECONDS)"
  by (auto simp: oldest_due_probing_account_def Let_def split: sum.splits option.splits dest!: min_by_in)

lemma divisor_pos: "0 < relative_availability_divisor_seconds s t"
  by (simp add: relative_availability_divisor_seconds_def Let_def
      RELATIVE_AVAILABILITY_MIN_DIVISOR_SECONDS_def less_max_iff_disj)

lemma raw_score_nonneg: "0 \<le> relative_availability_raw_score s t"
  using divisor_pos [of s t] by (auto simp: relative_availability_raw_score_def Let_def)

lemma raw_score_pos_iff:
  "0 < relative_availability_raw_score s t \<longleftrightarrow> 0 < remaining_secondary_credits s"
  using divisor_pos [of s t] by (auto simp: relative_availability_raw_score_def Let_def)

lemma weighted_candidates_in:
  assumes "(s, w, r) \<in> set (relative_availability_weighted_candidates xs t p k)"
  shows "s \<in> set xs \<and> w \<ge> RELATIVE_AVAILABILITY_MIN_WEIGHT_FRACTION
    \<and> r = relative_availability_raw_score s t"
  using assms
  by (auto simp: relative_availability_weighted_candidates_def Let_def
      split: if_splits dest!: in_set_takeD)

lemma weighted_candidate_has_credits:
  assumes "(s, w, r) \<in> set (relative_availability_weighted_candidates xs t p k)"
  shows "0 < remaining_secondary_credits s"
proof -
  obtain best where w: "w = weight_of_score best p r" and best: "0 < best"
    using assms
    by (auto simp: relative_availability_weighted_candidates_def Let_def
        split: if_splits sum.splits dest!: in_set_takeD)
  have r: "r = relative_availability_raw_score s t" "w \<ge> 1 / 10"
    using weighted_candidates_in [OF assms] by (auto simp: RELATIVE_AVAILABILITY_MIN_WEIGHT_FRACTION_def)
  have "r \<noteq> 0" using w r(2) by (auto simp: weight_of_score_def)
  then show ?thesis using r(1) raw_score_nonneg [of s t] raw_score_pos_iff [of s t] by simp
qed

lemma capacity_weighted_total:
  assumes "xs \<noteq> []" and "0 \<le> u" "u < 1"
  shows "\<exists>s \<in> set xs. select_capacity_weighted u xs = Inr s
    \<and> ((\<exists>y \<in> set xs. 0 < remaining_secondary_credits y) \<longrightarrow> 0 < remaining_secondary_credits s)"
proof (cases "sum_list (map remaining_secondary_credits xs) \<le> 0")
  case True
  have "\<not> 0 < remaining_secondary_credits y" if "y \<in> set xs" for y
    using True that member_le_sum_list [of "remaining_secondary_credits y" "map remaining_secondary_credits xs"]
      remaining_secondary_credits_nonneg by fastforce
  moreover obtain s where "min_by usage_sort_key xs = Inr s" using min_by_total [OF assms(1)] by blast
  ultimately show ?thesis using True by (auto simp: select_capacity_weighted_def Let_def dest: min_by_in)
next
  case False
  then obtain i where "i < length xs" "choices u xs (map remaining_secondary_credits xs) = Inr (xs ! i)"
      "0 < remaining_secondary_credits (xs ! i)"
    using choices_positive [of "map remaining_secondary_credits xs" xs u] assms
      remaining_secondary_credits_nonneg by fastforce
  then show ?thesis using False by (auto simp: select_capacity_weighted_def Let_def)
qed

lemma weighted_candidates_nonempty:
  assumes "y \<in> set xs" and "0 < remaining_secondary_credits y"
  shows "relative_availability_weighted_candidates xs t p k \<noteq> []"
proof -
  let ?raw = "map (\<lambda>s. (s, relative_availability_raw_score s t)) xs"
  obtain m where m: "max_by snd ?raw = Inr m" using assms(1) by (cases xs) auto
  have "relative_availability_raw_score y t \<le> snd m"
    using max_by_ge [OF m, of "(y, relative_availability_raw_score y t)"] assms(1) by auto
  then have best: "0 < snd m" using assms(2) raw_score_pos_iff [of y t] by linarith
  have "m \<in> set ?raw" using m by (rule max_by_in)
  moreover have "\<not> weight_of_score (snd m) p (snd m) < RELATIVE_AVAILABILITY_MIN_WEIGHT_FRACTION"
    using best by (simp add: weight_of_score_def RELATIVE_AVAILABILITY_MIN_WEIGHT_FRACTION_def)
  ultimately have "filter (\<lambda>(s, w, r). \<not> w < RELATIVE_AVAILABILITY_MIN_WEIGHT_FRACTION)
      (map (\<lambda>(s, r). (s, weight_of_score (snd m) p r, r)) ?raw) \<noteq> []"
    by (fastforce simp: filter_empty_conv image_iff)
  then show ?thesis using m best
    by (simp add: relative_availability_weighted_candidates_def Let_def)
qed

lemma relative_availability_total:
  assumes "xs \<noteq> []" and u: "0 \<le> u" "u < 1"
  shows "\<exists>s \<in> set xs. select_relative_availability u xs t p k d = Inr s
    \<and> ((\<exists>y \<in> set xs. 0 < remaining_secondary_credits y) \<longrightarrow> 0 < remaining_secondary_credits s)"
proof -
  let ?c = "relative_availability_weighted_candidates xs t p k"
  let ?w = "map (\<lambda>(s, w, r). w) ?c"
  consider (empty) "?c = []" | (cons) s w r rest where "?c = (s, w, r) # rest"
    by (cases ?c) auto
  then show ?thesis
  proof cases
    case empty
    then have "\<not> (\<exists>y \<in> set xs. 0 < remaining_secondary_credits y)"
      using weighted_candidates_nonempty by blast
    moreover obtain m where "min_by usage_sort_key xs = Inr m" using min_by_total [OF assms(1)] by blast
    ultimately show ?thesis using empty
      by (auto simp: select_relative_availability_def Let_def dest: min_by_in)
  next
    case cons
    have pos: "x \<ge> 1 / 10" if "x \<in> set ?w" for x
      using that weighted_candidates_in by (fastforce simp: RELATIVE_AVAILABILITY_MIN_WEIGHT_FRACTION_def)
    have member: "a \<in> set xs \<and> 0 < remaining_secondary_credits a" if "a \<in> set (map fst ?c)" for a
      using that weighted_candidates_in weighted_candidate_has_credits by fastforce
    show ?thesis
    proof (cases d)
      case True
      then show ?thesis using cons member [of s] by (auto simp: select_relative_availability_def Let_def)
    next
      case False
      have total: "0 < sum_list ?w"
      proof (rule sum_list_pos)
        show "?w \<noteq> []" using cons by simp
        show "0 < x" if "x \<in> set ?w" for x using pos [OF that] by linarith
      qed
      obtain i where i: "i < length (map fst ?c)" "choices u (map fst ?c) ?w = Inr (map fst ?c ! i)"
        using choices_positive [of ?w "map fst ?c" u] pos total u by fastforce
      then have "select_relative_availability u xs t p k d = Inr (map fst ?c ! i)"
        using False cons total by (simp add: select_relative_availability_def Let_def)
      then show ?thesis using member [of "map fst ?c ! i"] i(1) by (metis nth_mem)
    qed
  qed
qed

lemma fill_first_in: "select_fill_first xs = Inr s \<Longrightarrow> s \<in> set xs"
  by (simp add: select_fill_first_def min_by_in)

end
