(* ===== verification/Balancer_Select.thy ===== *)
theory Balancer_Select
  imports Balancer_Opportunistic Balancer_Strategies
begin

text \<open>
  \<open>select_account\<close> of \<open>app/core/balancer/logic.py\<close>: the admission loop, the
  opportunistic filter, the backoff fallback and its error messages, the health-tier and
  routing-policy ladder, and the eight strategies. The function updates the account
  states it is given; the model returns the updated list beside the result. The
  accounts of one call are distinct objects, as the callers build them.
\<close>

section \<open>Requests, environment, results\<close>

datatype routing_strategy =
  Usage_weighted | Round_robin | Capacity_weighted | Relative_availability
| Fill_first | Sequential_drain | Reset_drain | Single_account

datatype traffic_class = Foreground | Opportunistic

datatype usage_order = Secondary_first | Primary_first

record selection_request =
  prefer_earlier_reset :: bool
  prefer_earlier_reset_window :: reset_window
  routing_strategy :: routing_strategy
  allow_backoff_fallback :: bool
  deterministic_probe :: bool
  recovery_probe_only :: bool
  relative_availability_power :: real
  relative_availability_top_k :: int
  usage_weighted_order :: usage_order
  traffic_class :: traffic_class
  request_ignore_standard_quota :: bool
  bypass_quota_exceeded :: bool
  bypass_quota_exceeded_account_ids :: "string list option"
  primary_first_usage_weighted :: bool
  routing_costs :: routing_costs
  replica_salt :: "string option"

definition default_request :: selection_request where
  "default_request =
     \<lparr>prefer_earlier_reset = False, prefer_earlier_reset_window = Secondary_window,
      routing_strategy = Capacity_weighted, allow_backoff_fallback = True,
      deterministic_probe = False, recovery_probe_only = False,
      relative_availability_power = DEFAULT_RELATIVE_AVAILABILITY_POWER,
      relative_availability_top_k = DEFAULT_RELATIVE_AVAILABILITY_TOP_K,
      usage_weighted_order = Secondary_first, traffic_class = Foreground,
      request_ignore_standard_quota = False, bypass_quota_exceeded = False,
      bypass_quota_exceeded_account_ids = None, primary_first_usage_weighted = False,
      routing_costs = [], replica_salt = None\<rparr>"

record selection_env =
  wall_clock :: real
  gethostname :: string
  hexdigest :: "string \<Rightarrow> string"
  random_draw :: real

datatype selection_error =
  Burn_window_closed burn_closed
| All_paused_deactivated_or_reauth
| All_paused_or_reauth
| All_paused_or_deactivated
| All_deactivated_or_reauth
| All_paused
| All_reauth
| All_deactivated
| Retry_hint int
| No_available_accounts

definition burn_closed_text :: "burn_closed \<Rightarrow> string" where
  "burn_closed_text r =
     (case r of
        Preserve_floor_or_stale \<Rightarrow> ''preserve floor or stale usage data blocks opportunistic burn''
      | No_emergency_reserve \<Rightarrow> ''no expendable account has emergency foreground reserve'')"

definition selection_error_text :: "selection_error \<Rightarrow> string" where
  "selection_error_text e =
     (case e of
        Burn_window_closed r \<Rightarrow> ''opportunistic burn window closed: '' @ burn_closed_text r
      | All_paused_deactivated_or_reauth \<Rightarrow>
          ''All accounts are paused, deactivated, or require re-authentication''
      | All_paused_or_reauth \<Rightarrow> ''All accounts are paused or require re-authentication''
      | All_paused_or_deactivated \<Rightarrow> ''All accounts are paused or deactivated''
      | All_deactivated_or_reauth \<Rightarrow> ''All accounts are deactivated or require re-authentication''
      | All_paused \<Rightarrow> ''All accounts are paused''
      | All_reauth \<Rightarrow> ''All accounts require re-authentication''
      | All_deactivated \<Rightarrow> ''All accounts are deactivated''
      | Retry_hint n \<Rightarrow> ''Rate limit exceeded. Try again in '' @ string_of_nat (nat n) @ ''s''
      | No_available_accounts \<Rightarrow> ''No available accounts'')"

record selection_result =
  account :: "account_state option"
  error_message :: "selection_error option"

record selection_outcome =
  out_states :: "account_state list"
  out_salts :: salt_state
  out_result :: "selection_result result"

section \<open>Admission of one account\<close>

definition current_time :: "selection_env \<Rightarrow> real option \<Rightarrow> real" where
  "current_time env now = (if truthy now then or_default now (wall_clock env) else wall_clock env)"

definition deadline_passed :: "real option \<Rightarrow> real \<Rightarrow> bool" where
  "deadline_passed deadline current = (truthy deadline \<and> current \<ge> or_default deadline 0)"

definition bypass_standard_quota :: "selection_request \<Rightarrow> account_state \<Rightarrow> bool" where
  "bypass_standard_quota req state =
     (request_ignore_standard_quota req \<or> ignore_standard_quota state
      \<or> bypass_quota_exceeded req
      \<or> (case bypass_quota_exceeded_account_ids req of None \<Rightarrow> False
          | Some ids \<Rightarrow> account_id state \<in> set ids))"

definition error_backoff :: "int \<Rightarrow> int" where
  "error_backoff n = min 300 (30 * 2 ^ nat (n - 3))"

definition recover_rate_limited :: "real \<Rightarrow> account_state \<Rightarrow> account_state" where
  "recover_rate_limited current state =
     (if status state = RATE_LIMITED \<and> deadline_passed (reset_at state) current
      then state\<lparr>status := ACTIVE, used_percent := Some 0, error_count := 0, reset_at := None\<rparr>
      else state)"

definition recover_quota_exceeded :: "real \<Rightarrow> account_state \<Rightarrow> account_state" where
  "recover_quota_exceeded current state =
     (if status state = QUOTA_EXCEEDED \<and> deadline_passed (reset_at state) current
      then state\<lparr>status := ACTIVE, used_percent := Some 0, secondary_used_percent := Some 0,
                 reset_at := None\<rparr>
      else state)"

definition clear_elapsed_cooldown :: "real \<Rightarrow> account_state \<Rightarrow> account_state" where
  "clear_elapsed_cooldown current state =
     (if deadline_passed (cooldown_until state) current
      then state\<lparr>cooldown_until := None, last_error_at := None, error_count := 0\<rparr>
      else state)"

datatype verdict = Skipped | In_error_backoff | Available

definition admit_state :: "selection_request \<Rightarrow> real \<Rightarrow> account_state \<Rightarrow> account_state \<times> verdict" where
  "admit_state req current state =
     (if is_free_account_plan (plan_type state) then (state, Skipped)
      else if status state \<in> {REAUTH_REQUIRED, DEACTIVATED} then (state, Skipped)
      else if status state = PAUSED then (state, Skipped)
      else
        let bypass = bypass_standard_quota req state;
            s1 = recover_rate_limited current state
        in if status s1 = RATE_LIMITED \<and> \<not> bypass then (s1, Skipped)
           else let s2 = recover_quota_exceeded current s1
           in if status s2 = QUOTA_EXCEEDED \<and> \<not> bypass then (s2, Skipped)
           else let s3 = clear_elapsed_cooldown current s2
           in if truthy (cooldown_until s3) \<and> current < or_default (cooldown_until s3) 0
              then (s3, Skipped)
           else if error_count s3 \<ge> 3
           then (if truthy (last_error_at s3)
                    \<and> current - or_default (last_error_at s3) 0 < of_int (error_backoff (error_count s3))
                 then (s3, In_error_backoff)
                 else (s3\<lparr>error_count := 0, last_error_at := None\<rparr>, Available))
           else (s3, Available))"

definition admitted :: "verdict \<Rightarrow> (account_state \<times> verdict) list \<Rightarrow> account_state list" where
  "admitted v xs = map fst (filter (\<lambda>p. snd p = v) xs)"

section \<open>No account is available\<close>

definition SELECTOR_RETRY_HINT_MAX_SECONDS :: int where
  "SELECTOR_RETRY_HINT_MAX_SECONDS = 300"

definition format_retry_hint :: "real \<Rightarrow> selection_error" where
  "format_retry_hint wait_seconds =
     Retry_hint (py_round (min (max 0 wait_seconds) (of_int SELECTOR_RETRY_HINT_MAX_SECONDS)))"

definition with_status :: "account_status \<Rightarrow> account_state list \<Rightarrow> account_state list" where
  "with_status st = filter (\<lambda>s. status s = st)"

definition minimum :: "real list \<Rightarrow> real option" where
  "minimum xs = (case min_by (\<lambda>x. x) xs of Inl e \<Rightarrow> None | Inr m \<Rightarrow> Some m)"

definition all_blocked_error :: "account_state list \<Rightarrow> selection_error option" where
  "all_blocked_error all_states =
     (let reauth_required = with_status REAUTH_REQUIRED all_states \<noteq> [];
          deactivated = with_status DEACTIVATED all_states \<noteq> [];
          paused = with_status PAUSED all_states \<noteq> []
      in if with_status RATE_LIMITED all_states \<noteq> [] \<or> with_status QUOTA_EXCEEDED all_states \<noteq> []
         then None
         else if paused \<and> reauth_required \<and> deactivated then Some All_paused_deactivated_or_reauth
         else if paused \<and> reauth_required then Some All_paused_or_reauth
         else if paused \<and> deactivated then Some All_paused_or_deactivated
         else if reauth_required \<and> deactivated then Some All_deactivated_or_reauth
         else if paused then Some All_paused
         else if reauth_required then Some All_reauth
         else if deactivated then Some All_deactivated
         else None)"

definition no_account_error :: "account_state list \<Rightarrow> real \<Rightarrow> selection_error" where
  "no_account_error all_states current =
     (case all_blocked_error all_states of
        Some e \<Rightarrow> e
      | None \<Rightarrow>
          (let reset_candidates =
                 map (\<lambda>s. or_default (reset_at s) 0)
                   (filter (\<lambda>s. truthy (reset_at s)) (with_status QUOTA_EXCEEDED all_states));
               cooldowns =
                 map (\<lambda>s. or_default (cooldown_until s) 0)
                   (filter (\<lambda>s. truthy (cooldown_until s) \<and> or_default (cooldown_until s) 0 > current)
                      all_states)
           in case minimum reset_candidates of
                Some r \<Rightarrow> format_retry_hint (max 0 (r - of_int (py_int current)))
              | None \<Rightarrow>
                  (case minimum cooldowns of
                     Some c \<Rightarrow> format_retry_hint (max 0 (c - current))
                   | None \<Rightarrow> No_available_accounts)))"

definition hard_blocked_exists :: "account_state list \<Rightarrow> account_state list \<Rightarrow> bool" where
  "hard_blocked_exists all_states in_error_backoff =
     (\<exists>s \<in> set all_states.
        status s \<in> {PAUSED, REAUTH_REQUIRED, DEACTIVATED, RATE_LIMITED, QUOTA_EXCEEDED}
        \<and> account_id s \<notin> set (map account_id in_error_backoff))"

definition backoff_expires_at :: "account_state \<Rightarrow> real" where
  "backoff_expires_at s = or_default (last_error_at s) 0 + of_int (error_backoff (error_count s))"

section \<open>The candidate pool\<close>

datatype pool = Raised py_error | Refused selection_error | Pool "account_state list"

definition opportunistic_gate :: "selection_request \<Rightarrow> real \<Rightarrow> account_state list \<Rightarrow> pool" where
  "opportunistic_gate req current available =
     (if traffic_class req = Opportunistic \<and> available \<noteq> []
      then (case filter_opportunistic_candidates available current of
              (kept, reason) \<Rightarrow>
                (if kept = [] then Refused (Burn_window_closed (or_default reason No_emergency_reserve))
                 else Pool kept))
      else Pool available)"

definition candidate_pool ::
    "selection_request \<Rightarrow> real \<Rightarrow> account_state list \<Rightarrow> account_state list \<Rightarrow> account_state list \<Rightarrow> pool"
  where
  "candidate_pool req current all_states available in_error_backoff =
     (case opportunistic_gate req current available of
        Pool [] \<Rightarrow>
          (if allow_backoff_fallback req
              \<and> (length in_error_backoff > 1
                 \<or> (in_error_backoff \<noteq> [] \<and> hard_blocked_exists all_states in_error_backoff))
           then (case min_by backoff_expires_at in_error_backoff of
                   Inl e \<Rightarrow> Raised e
                 | Inr s \<Rightarrow> opportunistic_gate req current [s])
           else Refused (no_account_error all_states current))
      | outcome \<Rightarrow> outcome)"

section \<open>Ranking inside the pool\<close>

definition tier_of :: "int \<Rightarrow> account_state list \<Rightarrow> account_state list" where
  "tier_of tier = filter (\<lambda>s. health_tier s = tier)"

definition policy_of :: "string \<Rightarrow> account_state list \<Rightarrow> account_state list" where
  "policy_of p = filter (\<lambda>s. effective_routing_policy s = p)"

definition due_probe :: "selection_request \<Rightarrow> real \<Rightarrow> account_state list \<Rightarrow> account_state option" where
  "due_probe req current available =
     (if tier_of HEALTH_TIER_HEALTHY available \<noteq> [] \<or> recovery_probe_only req
      then oldest_due_probing_account (tier_of HEALTH_TIER_PROBING available) current
      else None)"

definition health_pool :: "selection_request \<Rightarrow> real \<Rightarrow> account_state list \<Rightarrow> account_state list" where
  "health_pool req current available =
     (case due_probe req current available of
        Some probe \<Rightarrow> [probe]
      | None \<Rightarrow>
          first_nonempty (tier_of HEALTH_TIER_HEALTHY available)
            (first_nonempty (tier_of HEALTH_TIER_PROBING available)
               (first_nonempty (tier_of HEALTH_TIER_DRAINING available) available)))"

definition effective_pool :: "account_state list \<Rightarrow> account_state list" where
  "effective_pool hp =
     first_nonempty (policy_of ROUTING_POLICY_BURN_FIRST hp)
       (first_nonempty (policy_of ROUTING_POLICY_NORMAL hp)
          (first_nonempty (policy_of ROUTING_POLICY_PRESERVE hp) hp))"

definition round_robin_sort_key ::
    "selection_env \<Rightarrow> string \<Rightarrow> routing_costs \<Rightarrow> account_state \<Rightarrow> real \<times> real \<times> string" where
  "round_robin_sort_key env salt costs state =
     (planner_cost state costs, or_default (last_selected_at state) 0,
      decorrelated_tie_breaker (hexdigest env) (account_id state) salt)"

definition reset_first_sort_key ::
    "selection_request \<Rightarrow> real \<Rightarrow> account_state \<Rightarrow> int \<times> real \<times> usage_key" where
  "reset_first_sort_key req current state =
     (reset_preference_bucket state current (prefer_earlier_reset_window req),
      planner_cost state (routing_costs req), usage_sort_key state)"

definition primary_reset_first_sort_key ::
    "selection_request \<Rightarrow> real \<Rightarrow> account_state \<Rightarrow> int \<times> real \<times> usage_key" where
  "primary_reset_first_sort_key req current state =
     (reset_preference_bucket state current (prefer_earlier_reset_window req),
      planner_cost state (routing_costs req), primary_usage_sort_key state)"

definition usage_sort_key_with_cost :: "selection_request \<Rightarrow> account_state \<Rightarrow> real \<times> usage_key" where
  "usage_sort_key_with_cost req state =
     (planner_cost state (routing_costs req), usage_sort_key state)"

definition primary_usage_sort_key_with_cost ::
    "selection_request \<Rightarrow> account_state \<Rightarrow> real \<times> usage_key" where
  "primary_usage_sort_key_with_cost req state =
     (planner_cost state (routing_costs req), primary_usage_sort_key state)"

definition select_usage_weighted ::
    "selection_request \<Rightarrow> real \<Rightarrow> account_state list \<Rightarrow> account_state result" where
  "select_usage_weighted req current xs =
     (if (if primary_first_usage_weighted req then Primary_first else usage_weighted_order req)
           = Primary_first
      then (if prefer_earlier_reset req then min_by (primary_reset_first_sort_key req current) xs
            else min_by (primary_usage_sort_key_with_cost req) xs)
      else (if prefer_earlier_reset req then min_by (reset_first_sort_key req current) xs
            else min_by (usage_sort_key_with_cost req) xs))"

definition bind :: "'a result \<Rightarrow> ('a \<Rightarrow> 'b result) \<Rightarrow> 'b result" where
  "bind r f = (case r of Inl e \<Rightarrow> Inl e | Inr x \<Rightarrow> f x)"

definition reset_filtered :: "selection_request \<Rightarrow> real \<Rightarrow> account_state list \<Rightarrow> account_state list result" where
  "reset_filtered req current xs =
     (if prefer_earlier_reset req
      then prefer_earlier_reset_candidates xs current (prefer_earlier_reset_window req)
      else Inr xs)"

definition rank_pool ::
    "selection_env \<Rightarrow> selection_request \<Rightarrow> real \<Rightarrow> string \<Rightarrow> account_state list \<Rightarrow> account_state result"
  where
  "rank_pool env req current salt xs =
     (case routing_strategy req of
        Round_robin \<Rightarrow> min_by (round_robin_sort_key env salt (routing_costs req)) xs
      | Capacity_weighted \<Rightarrow>
          bind (reset_filtered req current xs) (\<lambda>ys.
            if deterministic_probe req
            then min_by (\<lambda>s. capacity_probe_sort_key_with_cost s (routing_costs req)) ys
            else bind (lowest_planner_cost_candidates ys (routing_costs req))
                   (select_capacity_weighted (random_draw env)))
      | Relative_availability \<Rightarrow>
          bind (lowest_planner_cost_candidates xs (routing_costs req)) (\<lambda>ys.
            select_relative_availability (random_draw env) ys current
              (relative_availability_power req) (relative_availability_top_k req)
              (deterministic_probe req))
      | Fill_first \<Rightarrow> bind (reset_filtered req current xs) select_fill_first
      | _ \<Rightarrow> select_usage_weighted req current xs)"

definition pick_account ::
    "selection_env \<Rightarrow> selection_request \<Rightarrow> real \<Rightarrow> string \<Rightarrow> account_state list \<Rightarrow> selection_result result"
  where
  "pick_account env req current salt available =
     (let found = (\<lambda>r. bind r (\<lambda>s. Inr \<lparr>account = Some s, error_message = None\<rparr>))
      in case routing_strategy req of
           Single_account \<Rightarrow> found (min_by account_id available)
         | Sequential_drain \<Rightarrow> found (min_by (sequential_drain_sort_key (hexdigest env)) available)
         | Reset_drain \<Rightarrow> found (min_by (\<lambda>s. reset_drain_sort_key (hexdigest env) s current) available)
         | _ \<Rightarrow>
             (if recovery_probe_only req \<and> due_probe req current available = None
              then Inr \<lparr>account = None, error_message = None\<rparr>
              else found (rank_pool env req current salt
                            (effective_pool (health_pool req current available)))))"

definition select_account ::
    "selection_env \<Rightarrow> selection_request \<Rightarrow> real option \<Rightarrow> account_state list \<Rightarrow> salt_state
     \<Rightarrow> selection_outcome" where
  "select_account env req now states salts =
     (let current = current_time env now;
          verdicts = map (admit_state req current) states;
          all_states = map fst verdicts;
          available = admitted Available verdicts;
          in_error_backoff = admitted In_error_backoff verdicts
      in case candidate_pool req current all_states available in_error_backoff of
           Raised e \<Rightarrow> \<lparr>out_states = all_states, out_salts = salts, out_result = Inl e\<rparr>
         | Refused e \<Rightarrow>
             \<lparr>out_states = all_states, out_salts = salts,
              out_result = Inr \<lparr>account = None, error_message = Some e\<rparr>\<rparr>
         | Pool pool \<Rightarrow>
             (case effective_replica_salt (gethostname env) (replica_salt req) salts of
                (salt, salts') \<Rightarrow>
                  \<lparr>out_states = all_states, out_salts = salts',
                   out_result = pick_account env req current salt pool\<rparr>))"

end
