(* ===== verification/Balancer_Select_Props.thy ===== *)
theory Balancer_Select_Props
  imports Balancer_Select
begin

text \<open>
  Correctness of \<open>select_account\<close>: what an admitted account satisfies, which accounts a
  call may return, that a call never raises, that an eligible account is enough for a
  call to return one, and how the health tiers, policies and strategies rank.
\<close>

section \<open>Admission\<close>

definition routable :: "selection_request \<Rightarrow> account_state \<Rightarrow> bool" where
  "routable req s =
     (\<not> is_free_account_plan (plan_type s)
      \<and> status s \<notin> {REAUTH_REQUIRED, DEACTIVATED, PAUSED}
      \<and> (status s \<in> {RATE_LIMITED, QUOTA_EXCEEDED} \<longrightarrow> bypass_standard_quota req s)
      \<and> \<not> truthy (cooldown_until s))"

definition usable :: "account_state \<Rightarrow> bool" where
  "usable s =
     (status s = ACTIVE \<and> \<not> is_free_account_plan (plan_type s) \<and> cooldown_until s = None
      \<and> error_count s < 3)"

lemma recover_rate_limited_frame [simp, frame_simps]:
  "account_id (recover_rate_limited t s) = account_id s"
  "plan_type (recover_rate_limited t s) = plan_type s"
  "ignore_standard_quota (recover_rate_limited t s) = ignore_standard_quota s"
  "cooldown_until (recover_rate_limited t s) = cooldown_until s"
  "routing_policy (recover_rate_limited t s) = routing_policy s"
  "health_tier (recover_rate_limited t s) = health_tier s"
  by (simp_all add: recover_rate_limited_def)

lemma recover_quota_exceeded_frame [simp, frame_simps]:
  "account_id (recover_quota_exceeded t s) = account_id s"
  "plan_type (recover_quota_exceeded t s) = plan_type s"
  "ignore_standard_quota (recover_quota_exceeded t s) = ignore_standard_quota s"
  "cooldown_until (recover_quota_exceeded t s) = cooldown_until s"
  "routing_policy (recover_quota_exceeded t s) = routing_policy s"
  "health_tier (recover_quota_exceeded t s) = health_tier s"
  by (simp_all add: recover_quota_exceeded_def)

lemma clear_elapsed_cooldown_frame [simp, frame_simps]:
  "account_id (clear_elapsed_cooldown t s) = account_id s"
  "plan_type (clear_elapsed_cooldown t s) = plan_type s"
  "ignore_standard_quota (clear_elapsed_cooldown t s) = ignore_standard_quota s"
  "status (clear_elapsed_cooldown t s) = status s"
  "routing_policy (clear_elapsed_cooldown t s) = routing_policy s"
  "health_tier (clear_elapsed_cooldown t s) = health_tier s"
  by (simp_all add: clear_elapsed_cooldown_def)

lemma recovered_status:
  "status (recover_rate_limited t s) \<in> {status s, ACTIVE}"
  "status (recover_quota_exceeded t s) \<in> {status s, ACTIVE}"
  by (auto simp: recover_rate_limited_def recover_quota_exceeded_def)

lemma admit_state_frame [simp, frame_simps]:
  "account_id (fst (admit_state req t s)) = account_id s"
  "plan_type (fst (admit_state req t s)) = plan_type s"
  "ignore_standard_quota (fst (admit_state req t s)) = ignore_standard_quota s"
  "routing_policy (fst (admit_state req t s)) = routing_policy s"
  "health_tier (fst (admit_state req t s)) = health_tier s"
  by (simp_all add: admit_state_def Let_def)

lemma bypass_admit_state [simp, frame_simps]:
  "bypass_standard_quota req (fst (admit_state req t s)) = bypass_standard_quota req s"
  by (simp add: bypass_standard_quota_def split: option.splits)

lemma cooldown_of_admitted:
  "\<not> (truthy (cooldown_until (clear_elapsed_cooldown t s))
      \<and> t < or_default (cooldown_until (clear_elapsed_cooldown t s)) 0)
   \<Longrightarrow> \<not> truthy (cooldown_until (clear_elapsed_cooldown t s))"
  by (auto simp: clear_elapsed_cooldown_def deadline_passed_def not_less split: if_splits)

abbreviation recovered :: "real \<Rightarrow> account_state \<Rightarrow> account_state" where
  "recovered t s \<equiv> clear_elapsed_cooldown t (recover_quota_exceeded t (recover_rate_limited t s))"

lemma admit_not_skipped:
  assumes "snd (admit_state req t s) \<noteq> Skipped"
  shows "\<not> is_free_account_plan (plan_type s)"
    and "status s \<noteq> REAUTH_REQUIRED" and "status s \<noteq> DEACTIVATED" and "status s \<noteq> PAUSED"
    and "status (recover_rate_limited t s) = RATE_LIMITED \<longrightarrow> bypass_standard_quota req s"
    and "status (recovered t s) = QUOTA_EXCEEDED \<longrightarrow> bypass_standard_quota req s"
    and "\<not> truthy (cooldown_until (recovered t s))"
    and "fst (admit_state req t s) \<in>
      {recovered t s, recovered t s\<lparr>error_count := 0, last_error_at := None\<rparr>}"
  using assms cooldown_of_admitted [of t "recover_quota_exceeded t (recover_rate_limited t s)"]
  by (simp_all add: admit_state_def Let_def split: if_splits) blast+

lemma recovered_status_cases:
  "status (recovered t s) = status s \<or> status (recovered t s) = ACTIVE"
  "status (recovered t s) = RATE_LIMITED \<Longrightarrow> status (recover_rate_limited t s) = RATE_LIMITED"
  by (auto simp: recover_rate_limited_def recover_quota_exceeded_def split: if_splits)

lemma admit_state_routable:
  assumes "snd (admit_state req t s) \<noteq> Skipped"
  shows "routable req (fst (admit_state req t s))"
proof -
  note facts = admit_not_skipped [OF assms]
  have same: "status (fst (admit_state req t s)) = status (recovered t s)"
    "cooldown_until (fst (admit_state req t s)) = cooldown_until (recovered t s)"
    using facts(8) by auto
  show ?thesis unfolding routable_def same bypass_admit_state admit_state_frame
    using facts(1-7) recovered_status_cases [of t s] by auto
qed

lemma admit_state_error_count:
  "snd (admit_state req t s) = Available \<Longrightarrow> error_count (fst (admit_state req t s)) < 3"
  by (auto simp: admit_state_def Let_def split: if_splits)

section \<open>The pool\<close>

lemma gate_not_raised [simp]: "opportunistic_gate req t xs \<noteq> Raised e"
  by (auto simp: opportunistic_gate_def split: prod.splits)

lemma gate_foreground [simp]: "traffic_class req = Foreground \<Longrightarrow> opportunistic_gate req t xs = Pool xs"
  by (simp add: opportunistic_gate_def)

lemma gate_Pool:
  assumes "opportunistic_gate req t xs = Pool ys"
  shows "set ys \<subseteq> set xs" and "ys = [] \<Longrightarrow> xs = []"
    and "traffic_class req = Opportunistic \<Longrightarrow> \<forall>s \<in> set ys. opportunistic_candidate xs t s"
  using assms filter_opportunistic_set [of xs t]
  by (auto simp: opportunistic_gate_def split: if_splits prod.splits)

lemma candidate_pool_not_raised [simp]: "candidate_pool req t all av bo \<noteq> Raised e"
  by (auto simp: candidate_pool_def split: pool.splits list.splits sum.splits)

lemma candidate_pool_Pool:
  assumes "candidate_pool req t all av bo = Pool ys"
  shows "ys \<noteq> []" and "set ys \<subseteq> set av \<union> set bo"
    and "traffic_class req = Opportunistic \<Longrightarrow>
      \<forall>s \<in> set ys. opportunistic_candidate av t s \<or> opportunistic_candidate [s] t s"
proof -
  consider (direct) "opportunistic_gate req t av = Pool ys" "ys \<noteq> []"
    | (fallback) b where "b \<in> set bo" "opportunistic_gate req t [b] = Pool ys"
    using assms
    by (auto simp: candidate_pool_def split: pool.splits list.splits sum.splits if_splits dest: min_by_in)
  then show "ys \<noteq> []" and "set ys \<subseteq> set av \<union> set bo"
    and "traffic_class req = Opportunistic \<Longrightarrow>
      \<forall>s \<in> set ys. opportunistic_candidate av t s \<or> opportunistic_candidate [s] t s"
    using gate_Pool by (cases; fastforce)+
qed

lemma candidate_pool_available:
  "traffic_class req = Foreground \<Longrightarrow> av \<noteq> [] \<Longrightarrow> candidate_pool req t all av bo = Pool av"
  by (cases av) (simp_all add: candidate_pool_def)

lemma set_admitted: "set (admitted v (map (admit_state req t) xs))
    = {fst (admit_state req t s) | s. s \<in> set xs \<and> snd (admit_state req t s) = v}"
  by (auto simp: admitted_def)

section \<open>Ranking\<close>

lemma tier_of_set [simp]: "set (tier_of k xs) = {s \<in> set xs. health_tier s = k}"
  by (simp add: tier_of_def)

lemma due_probe_in:
  "due_probe req t xs = Some s \<Longrightarrow> s \<in> set xs \<and> health_tier s = HEALTH_TIER_PROBING"
  by (auto simp: due_probe_def split: if_splits dest: oldest_due_probing_in)

lemma health_pool_in: "xs \<noteq> [] \<Longrightarrow> set (health_pool req t xs) \<subseteq> set xs \<and> health_pool req t xs \<noteq> []"
  by (auto simp: health_pool_def first_nonempty_def split: option.splits if_splits dest: due_probe_in)

lemma effective_pool_in: "xs \<noteq> [] \<Longrightarrow> set (effective_pool xs) \<subseteq> set xs \<and> effective_pool xs \<noteq> []"
  by (auto simp: effective_pool_def policy_of_def first_nonempty_def)

lemma bind_simps [simp]: "bind (Inl e) f = Inl e" "bind (Inr x) f = f x"
  by (simp_all add: bind_def)

lemma reset_filtered_total:
  "xs \<noteq> [] \<Longrightarrow> \<exists>ys. reset_filtered req t xs = Inr ys \<and> set ys \<subseteq> set xs \<and> ys \<noteq> []"
  using prefer_earlier_reset_in prefer_earlier_reset_total
  by (fastforce simp: reset_filtered_def)

lemma lowest_cost_total:
  "xs \<noteq> [] \<Longrightarrow> \<exists>ys. lowest_planner_cost_candidates xs c = Inr ys \<and> set ys \<subseteq> set xs \<and> ys \<noteq> []"
  using lowest_planner_cost_in lowest_planner_cost_total by blast

lemma usage_weighted_member:
  "xs \<noteq> [] \<Longrightarrow> \<exists>s \<in> set xs. select_usage_weighted req t xs = Inr s"
  by (auto simp: select_usage_weighted_def intro: min_by_member)

lemma rank_capacity_weighted:
  assumes "routing_strategy req = Capacity_weighted" and "xs \<noteq> []"
    and "0 \<le> random_draw env" "random_draw env < 1"
  shows "\<exists>s \<in> set xs. rank_pool env req t salt xs = Inr s"
proof -
  obtain ys where ys: "reset_filtered req t xs = Inr ys" "set ys \<subseteq> set xs" "ys \<noteq> []"
    using reset_filtered_total [OF assms(2)] by blast
  obtain zs where zs: "lowest_planner_cost_candidates ys (routing_costs req) = Inr zs"
      "set zs \<subseteq> set ys" "zs \<noteq> []"
    using lowest_cost_total [OF ys(3)] by blast
  obtain s where "s \<in> set zs" "select_capacity_weighted (random_draw env) zs = Inr s"
    using capacity_weighted_total [OF zs(3) assms(3,4)] by blast
  moreover obtain m where "m \<in> set ys"
      "min_by (\<lambda>s. capacity_probe_sort_key_with_cost s (routing_costs req)) ys = Inr m"
    using min_by_member [OF ys(3)] by blast
  ultimately show ?thesis using assms(1) ys zs by (auto simp: rank_pool_def)
qed

lemma rank_pool_total:
  assumes "xs \<noteq> []" and "0 \<le> random_draw env" "random_draw env < 1"
  shows "\<exists>s \<in> set xs. rank_pool env req t salt xs = Inr s"
proof (cases "routing_strategy req")
  case Round_robin
  then show ?thesis using min_by_member [OF assms(1)] by (simp add: rank_pool_def)
next
  case Capacity_weighted
  then show ?thesis using rank_capacity_weighted assms by blast
next
  case Relative_availability
  obtain ys where "lowest_planner_cost_candidates xs (routing_costs req) = Inr ys"
      "set ys \<subseteq> set xs" "ys \<noteq> []"
    using lowest_cost_total [OF assms(1)] by blast
  then show ?thesis using Relative_availability relative_availability_total [of ys "random_draw env"] assms
    by (fastforce simp: rank_pool_def)
next
  case Fill_first
  obtain ys where ys: "reset_filtered req t xs = Inr ys" "set ys \<subseteq> set xs" "ys \<noteq> []"
    using reset_filtered_total [OF assms(1)] by blast
  then show ?thesis using Fill_first min_by_member [OF ys(3), of fill_first_sort_key]
    by (auto simp: rank_pool_def select_fill_first_def)
qed (use usage_weighted_member [OF assms(1)] in \<open>simp_all add: rank_pool_def\<close>)

lemma pick_account_total:
  assumes "xs \<noteq> []" and "0 \<le> random_draw env" "random_draw env < 1"
  shows "\<exists>r. pick_account env req t salt xs = Inr r \<and> error_message r = None
    \<and> (case account r of Some s \<Rightarrow> s \<in> set xs | None \<Rightarrow> recovery_probe_only req)"
proof -
  let ?pool = "effective_pool (health_pool req t xs)"
  have "?pool \<noteq> []" "set ?pool \<subseteq> set xs"
    using health_pool_in [OF assms(1)] effective_pool_in by (blast, blast)
  then obtain s where s: "s \<in> set xs" "rank_pool env req t salt ?pool = Inr s"
    using rank_pool_total [OF _ assms(2,3)] by blast
  obtain a where a: "a \<in> set xs" "min_by account_id xs = Inr a"
    using min_by_member [OF assms(1), of account_id] by blast
  obtain b where b: "b \<in> set xs" "min_by (sequential_drain_sort_key (hexdigest env)) xs = Inr b"
    using min_by_member [OF assms(1), of "sequential_drain_sort_key (hexdigest env)"] by blast
  obtain c where c: "c \<in> set xs" "min_by (\<lambda>s. reset_drain_sort_key (hexdigest env) s t) xs = Inr c"
    using min_by_member [OF assms(1), of "\<lambda>s. reset_drain_sort_key (hexdigest env) s t"] by blast
  show ?thesis using s a b c by (simp add: pick_account_def Let_def split: routing_strategy.splits)
qed

section \<open>Example inputs\<close>

definition w_env :: selection_env where
  "w_env = \<lparr>wall_clock = 1000, gethostname = ''host'', hexdigest = (\<lambda>s. s), random_draw = 1 / 2\<rparr>"

definition w_salts :: salt_state where
  "w_salts = \<lparr>configured_replica_salt = None, process_replica_salt = None\<rparr>"

definition w_single :: selection_request where
  "w_single = default_request\<lparr>routing_strategy := Single_account\<rparr>"

definition w_round_robin :: selection_request where
  "w_round_robin = default_request\<lparr>routing_strategy := Round_robin\<rparr>"

definition w_a :: account_state where
  "w_a = (new_account_state ''a'' ACTIVE)\<lparr>last_selected_at := Some 900\<rparr>"

definition w_b :: account_state where
  "w_b = (new_account_state ''b'' ACTIVE)\<lparr>last_selected_at := Some 950\<rparr>"

section \<open>The whole call\<close>

lemma out_states_select:
  "out_states (select_account env req now xs salts)
   = map (fst \<circ> admit_state req (current_time env now)) xs"
  by (simp add: select_account_def Let_def split: pool.split prod.split)

definition selection_pool :: "selection_request \<Rightarrow> real \<Rightarrow> account_state list \<Rightarrow> pool" where
  "selection_pool req t xs =
     (let v = map (admit_state req t) xs
      in candidate_pool req t (map fst v) (admitted Available v) (admitted In_error_backoff v))"

lemma selection_pool_nonempty: "selection_pool req t xs = Pool ys \<Longrightarrow> ys \<noteq> []"
  using candidate_pool_Pool(1) by (simp add: selection_pool_def Let_def)

lemma selection_pool_member:
  assumes "selection_pool req t xs = Pool ys" and "s \<in> set ys"
  obtains x where "x \<in> set xs" "s = fst (admit_state req t x)" "snd (admit_state req t x) \<noteq> Skipped"
proof -
  have "s \<in> set (admitted Available (map (admit_state req t) xs))
      \<union> set (admitted In_error_backoff (map (admit_state req t) xs))"
    using candidate_pool_Pool(2) [OF assms(1) [unfolded selection_pool_def Let_def]] assms(2) by blast
  then show ?thesis unfolding set_admitted using that by (elim UnE CollectE exE conjE) simp_all
qed

lemma selection_pool_routable:
  "selection_pool req t xs = Pool ys \<Longrightarrow> s \<in> set ys \<Longrightarrow> routable req s"
  by (metis selection_pool_member admit_state_routable)

lemma select_account_outcome:
  assumes "0 \<le> random_draw env" "random_draw env < 1"
  obtains (refused) e where "selection_pool req (current_time env now) xs = Refused e"
      "out_result (select_account env req now xs salts) = Inr \<lparr>account = None, error_message = Some e\<rparr>"
    | (picked) ys salt r where "selection_pool req (current_time env now) xs = Pool ys"
      "out_result (select_account env req now xs salts) = Inr r"
      "pick_account env req (current_time env now) salt ys = Inr r" "error_message r = None"
      "case account r of Some s \<Rightarrow> s \<in> set ys | None \<Rightarrow> recovery_probe_only req"
proof (cases "selection_pool req (current_time env now) xs")
  case (Raised e)
  then show ?thesis by (simp add: selection_pool_def Let_def)
next
  case (Refused e)
  then show ?thesis using refused by (simp add: select_account_def Let_def selection_pool_def)
next
  case (Pool ys)
  obtain salt salts' where salt: "effective_replica_salt (gethostname env) (replica_salt req) salts = (salt, salts')"
    by fastforce
  have out: "out_result (select_account env req now xs salts)
      = pick_account env req (current_time env now) salt ys"
    using Pool salt by (simp add: select_account_def Let_def selection_pool_def)
  obtain r where r: "pick_account env req (current_time env now) salt ys = Inr r" "error_message r = None"
      "case account r of Some s \<Rightarrow> s \<in> set ys | None \<Rightarrow> recovery_probe_only req"
    using pick_account_total [OF selection_pool_nonempty [OF Pool] assms] by blast
  show ?thesis by (rule picked [OF Pool _ r]) (simp add: out r(1))
qed

lemma selected_in_pool:
  assumes "0 \<le> random_draw env" "random_draw env < 1"
    and "out_result (select_account env req now xs salts) = Inr r" and "account r = Some s"
  obtains ys salt where "selection_pool req (current_time env now) xs = Pool ys" "s \<in> set ys"
      "pick_account env req (current_time env now) salt ys = Inr r"
  using assms(3,4)
  by (cases rule: select_account_outcome [OF assms(1,2), of req now xs salts]) auto

lemma admit_usable: "usable s \<Longrightarrow> admit_state req t s = (s, Available)"
  by (simp add: usable_def admit_state_def recover_rate_limited_def recover_quota_exceeded_def
      clear_elapsed_cooldown_def deadline_passed_def)

lemma selection_pool_usable:
  assumes "s \<in> set xs" and "usable s" and "traffic_class req = Foreground"
  shows "\<exists>ys. selection_pool req t xs = Pool ys \<and> s \<in> set ys"
proof -
  let ?av = "admitted Available (map (admit_state req t) xs)"
  have "s \<in> set ?av"
    using assms(1) admit_usable [OF assms(2), of req t] by (force simp: set_admitted)
  moreover from this have "selection_pool req t xs = Pool ?av"
    unfolding selection_pool_def Let_def by (intro candidate_pool_available assms(3)) auto
  ultimately show ?thesis by blast
qed

text \<open>
  C1. An account that \<open>select_account\<close> returns is one of the states it was given (as
  updated), is not on a free plan, is not paused, deactivated or waiting for
  re-authentication, has no running cooldown, and is rate limited or over quota only
  when the request bypasses the standard quota for it. \<open>random.random()\<close> lies in [0, 1).
\<close>

theorem select_account_eligible:
  assumes "0 \<le> random_draw env" "random_draw env < 1"
    and "out_result (select_account env req now states salts) = Inr r" and "account r = Some s"
  shows "s \<in> set (out_states (select_account env req now states salts)) \<and> routable req s"
proof -
  let ?t = "current_time env now"
  obtain ys where pool: "selection_pool req ?t states = Pool ys" "s \<in> set ys"
    using selected_in_pool [OF assms] by metis
  then obtain x where "x \<in> set states" "s = fst (admit_state req ?t x)"
    by (elim selection_pool_member)
  then show ?thesis using selection_pool_routable [OF pool] by (simp add: out_states_select)
qed

theorem select_account_eligible_witness:
  "w_a \<in> set (out_states (select_account w_env w_single (Some 1000) [w_b, w_a] w_salts))
   \<and> routable w_single w_a"
  by (rule select_account_eligible [where r = "\<lparr>account = Some w_a, error_message = None\<rparr>"]) code_simp+

text \<open>
  C29. \<open>select_account\<close> never raises: for every request and every list of accounts (the
  empty list included) it returns an account and no message, or no account and a
  message; a result with neither is returned only to a recovery-probe-only request.
\<close>

theorem select_account_never_raises:
  assumes "0 \<le> random_draw env" "random_draw env < 1"
  shows "\<exists>r. out_result (select_account env req now states salts) = Inr r
    \<and> (account r \<noteq> None \<longrightarrow> error_message r = None)
    \<and> (account r = None \<and> error_message r = None \<longrightarrow> recovery_probe_only req)"
  by (cases rule: select_account_outcome [OF assms, of req now states salts]) auto


theorem select_account_never_raises_witness:
  "\<exists>r. out_result (select_account w_env default_request None [] w_salts) = Inr r
    \<and> (account r \<noteq> None \<longrightarrow> error_message r = None)
    \<and> (account r = None \<and> error_message r = None \<longrightarrow> recovery_probe_only default_request)"
  by (rule select_account_never_raises) code_simp+



text \<open>
  A call changes an account only towards recovery: it keeps every account, its place
  and its identity, and the status of an account changes only from RATE_LIMITED or
  QUOTA_EXCEEDED to ACTIVE, and only when its reset deadline has passed.
\<close>

theorem select_account_only_recovers:
  "list_all2
     (\<lambda>s s'. account_id s' = account_id s
        \<and> (status s' = status s
           \<or> status s \<in> {RATE_LIMITED, QUOTA_EXCEEDED} \<and> status s' = ACTIVE
             \<and> deadline_passed (reset_at s) (current_time env now)))
     states (out_states (select_account env req now states salts))"
proof -
  let ?t = "current_time env now"
  have "status (fst (admit_state req ?t s)) = status s
       \<or> status s \<in> {RATE_LIMITED, QUOTA_EXCEEDED} \<and> status (fst (admit_state req ?t s)) = ACTIVE
         \<and> deadline_passed (reset_at s) ?t" for s
    by (simp add: admit_state_def Let_def recover_rate_limited_def recover_quota_exceeded_def)
  then show ?thesis by (simp add: out_states_select list.rel_map list_all2_same)
qed

section \<open>Health tiers and policies\<close>

abbreviation tiered :: "selection_request \<Rightarrow> bool" where
  "tiered req \<equiv> routing_strategy req \<notin> {Single_account, Sequential_drain, Reset_drain}"

lemma pick_tiered:
  assumes "tiered req" and "xs \<noteq> []" and "0 \<le> random_draw env" "random_draw env < 1"
    and "pick_account env req t salt xs = Inr r" and "account r = Some s"
  shows "s \<in> set (effective_pool (health_pool req t xs))"
    and "rank_pool env req t salt (effective_pool (health_pool req t xs)) = Inr s"
proof -
  let ?pool = "effective_pool (health_pool req t xs)"
  have "?pool \<noteq> []" using effective_pool_in health_pool_in [OF assms(2)] by blast
  then obtain a where a: "a \<in> set ?pool" "rank_pool env req t salt ?pool = Inr a"
    using rank_pool_total [OF _ assms(3,4)] by blast
  have "r = \<lparr>account = Some a, error_message = None\<rparr>"
    using assms(1,5,6) a(2)
    by (auto simp: pick_account_def Let_def split: routing_strategy.splits if_splits)
  then show "s \<in> set ?pool" "rank_pool env req t salt ?pool = Inr s" using a assms(6) by simp_all
qed

lemma selected_tiered:
  assumes "tiered req" and "0 \<le> random_draw env" "random_draw env < 1"
    and "out_result (select_account env req now xs salts) = Inr r" and "account r = Some s"
  obtains ys salt where "selection_pool req (current_time env now) xs = Pool ys" "ys \<noteq> []"
      "s \<in> set (effective_pool (health_pool req (current_time env now) ys))"
      "rank_pool env req (current_time env now) salt
         (effective_pool (health_pool req (current_time env now) ys)) = Inr s"
proof -
  obtain ys salt where ys: "selection_pool req (current_time env now) xs = Pool ys" "s \<in> set ys"
      "pick_account env req (current_time env now) salt ys = Inr r"
    by (rule selected_in_pool [OF assms(2-5)])
  then have ne: "ys \<noteq> []" by auto
  show ?thesis by (rule that [OF ys(1) ne]) (use pick_tiered [OF assms(1) ne assms(2,3) ys(3) assms(5)] in auto)
qed

lemma health_pool_healthy:
  assumes "h \<in> set xs" and "health_tier h = HEALTH_TIER_HEALTHY" and "s \<in> set (health_pool req t xs)"
  shows "health_tier s = HEALTH_TIER_HEALTHY \<or> due_probe req t xs = Some s"
  using assms by (auto simp: health_pool_def first_nonempty_def tier_of_def filter_empty_conv
      split: option.splits if_splits)

lemma health_pool_all_healthy:
  assumes "h \<in> set xs" and "health_tier h = HEALTH_TIER_HEALTHY"
    and "s \<in> set (health_pool req t xs)" and "health_tier s = HEALTH_TIER_HEALTHY"
  shows "h \<in> set (health_pool req t xs)"
proof -
  have "due_probe req t xs \<noteq> Some s"
    using assms(4) due_probe_in [of req t xs s] by (auto simp: HEALTH_TIER_HEALTHY_def HEALTH_TIER_PROBING_def)
  then show ?thesis using assms
    by (auto simp: health_pool_def first_nonempty_def tier_of_def filter_empty_conv split: option.splits if_splits)
qed

lemma due_probe_due:
  "due_probe req t xs = Some s \<Longrightarrow> health_tier s = HEALTH_TIER_PROBING
     \<and> (\<forall>l. last_selected_at s = Some l \<longrightarrow> t - l \<ge> PROBE_QUIET_SECONDS)"
  using due_probe_in [of req t xs s]
  by (auto simp: due_probe_def split: if_splits dest!: oldest_due_probing_due)

lemma effective_pool_policy:
  assumes "s \<in> set (effective_pool xs)" and "y \<in> set xs"
  shows "effective_routing_policy y = effective_routing_policy s \<Longrightarrow> y \<in> set (effective_pool xs)"
    and "effective_routing_policy s = ROUTING_POLICY_PRESERVE \<Longrightarrow>
      effective_routing_policy y = ROUTING_POLICY_PRESERVE"
  using assms effective_policy_cases [of y]
  by (auto simp: effective_pool_def policy_of_def first_nonempty_def filter_empty_conv
      ROUTING_POLICY_PRESERVE_def ROUTING_POLICY_NORMAL_def ROUTING_POLICY_BURN_FIRST_def split: if_splits)

text \<open>
  C25. With a tiered strategy, as long as one usable HEALTHY account exists a foreground
  request is served by a HEALTHY account, or by a PROBING account that has not been
  selected for at least the probe quiet interval; never by a DRAINING one.
\<close>

theorem select_account_prefers_healthy:
  assumes "0 \<le> random_draw env" "random_draw env < 1"
    and "out_result (select_account env req now states salts) = Inr r" and "account r = Some s"
    and "tiered req" and "traffic_class req = Foreground"
    and "h \<in> set states" and "usable h" and "health_tier h = HEALTH_TIER_HEALTHY"
  shows "health_tier s = HEALTH_TIER_HEALTHY
    \<or> health_tier s = HEALTH_TIER_PROBING
      \<and> (\<forall>l. last_selected_at s = Some l \<longrightarrow> current_time env now - l \<ge> PROBE_QUIET_SECONDS)"
proof -
  let ?t = "current_time env now"
  obtain ys salt where ys: "selection_pool req ?t states = Pool ys" "ys \<noteq> []"
      "s \<in> set (effective_pool (health_pool req ?t ys))"
    by (rule selected_tiered [OF assms(5,1-4)])
  have "s \<in> set (health_pool req ?t ys)"
    using ys(3) effective_pool_in health_pool_in [OF ys(2), of req ?t] by blast
  moreover have "h \<in> set ys" using selection_pool_usable [OF assms(7,8,6), of ?t] ys(1) by auto
  ultimately show ?thesis using health_pool_healthy [OF _ assms(9)] due_probe_due by blast
qed

definition w_draining :: account_state where
  "w_draining = (new_account_state ''c'' ACTIVE)\<lparr>health_tier := 1\<rparr>"

theorem select_account_prefers_healthy_witness:
  "health_tier w_a = HEALTH_TIER_HEALTHY
    \<or> health_tier w_a = HEALTH_TIER_PROBING
      \<and> (\<forall>l. last_selected_at w_a = Some l \<longrightarrow> current_time w_env (Some 1000) - l \<ge> PROBE_QUIET_SECONDS)"
  by (rule select_account_prefers_healthy
        [where req = w_round_robin and states = "[w_draining, w_b, w_a]" and salts = w_salts and h = w_b
          and r = "\<lparr>account = Some w_a, error_message = None\<rparr>"]) code_simp+

text \<open>
  Preserve is the last resort: when a usable HEALTHY account whose policy is not
  preserve exists, a tiered strategy never answers a foreground request with a HEALTHY
  account whose policy is preserve.
\<close>

theorem select_account_preserve_last:
  assumes "0 \<le> random_draw env" "random_draw env < 1"
    and "out_result (select_account env req now states salts) = Inr r" and "account r = Some s"
    and "tiered req" and "traffic_class req = Foreground"
    and "h \<in> set states" and "usable h" and "health_tier h = HEALTH_TIER_HEALTHY"
    and "effective_routing_policy h \<noteq> ROUTING_POLICY_PRESERVE" and "health_tier s = HEALTH_TIER_HEALTHY"
  shows "effective_routing_policy s \<noteq> ROUTING_POLICY_PRESERVE"
proof -
  let ?t = "current_time env now"
  obtain ys salt where ys: "selection_pool req ?t states = Pool ys" "ys \<noteq> []"
      "s \<in> set (effective_pool (health_pool req ?t ys))"
    by (rule selected_tiered [OF assms(5,1-4)])
  have "s \<in> set (health_pool req ?t ys)"
    using ys(3) effective_pool_in health_pool_in [OF ys(2), of req ?t] by blast
  moreover have "h \<in> set ys" using selection_pool_usable [OF assms(7,8,6), of ?t] ys(1) by auto
  ultimately have "h \<in> set (health_pool req ?t ys)"
    using health_pool_all_healthy assms(9,11) by blast
  then show ?thesis using effective_pool_policy(2) [OF ys(3)] assms(10) by blast
qed

theorem select_account_preserve_last_witness:
  "effective_routing_policy w_a \<noteq> ROUTING_POLICY_PRESERVE"
  by (rule select_account_preserve_last
        [where env = w_env and req = w_round_robin and now = "Some 1000" and salts = w_salts
          and states = "[(new_account_state ''p'' ACTIVE)\<lparr>routing_policy := ''preserve''\<rparr>, w_b, w_a]"
          and h = w_b and r = "\<lparr>account = Some w_a, error_message = None\<rparr>"]) code_simp+

text \<open>
  Round robin is least-recently-selected: without planner costs, the account a
  foreground request gets was last selected no later than every usable account of the
  same tier (HEALTHY) and policy.
\<close>

theorem round_robin_least_recent:
  assumes "0 \<le> random_draw env" "random_draw env < 1"
    and "out_result (select_account env req now states salts) = Inr r" and "account r = Some s"
    and "routing_strategy req = Round_robin" and "routing_costs req = []"
    and "traffic_class req = Foreground" and "health_tier s = HEALTH_TIER_HEALTHY"
    and "h \<in> set states" and "usable h" and "health_tier h = HEALTH_TIER_HEALTHY"
    and "effective_routing_policy h = effective_routing_policy s"
  shows "or_default (last_selected_at s) 0 \<le> or_default (last_selected_at h) 0"
proof -
  let ?t = "current_time env now"
  have tiered: "tiered req" by (simp add: assms(5))
  obtain ys salt where ys: "selection_pool req ?t states = Pool ys" "ys \<noteq> []"
      "s \<in> set (effective_pool (health_pool req ?t ys))"
      "rank_pool env req ?t salt (effective_pool (health_pool req ?t ys)) = Inr s"
    by (rule selected_tiered [OF tiered assms(1-4)])
  have "s \<in> set (health_pool req ?t ys)"
    using ys(3) effective_pool_in health_pool_in [OF ys(2), of req ?t] by blast
  moreover have "h \<in> set ys" using selection_pool_usable [OF assms(9,10,7), of ?t] ys(1) by auto
  ultimately have "h \<in> set (health_pool req ?t ys)"
    using health_pool_all_healthy assms(8,11) by blast
  then have "h \<in> set (effective_pool (health_pool req ?t ys))"
    using effective_pool_policy(1) [OF ys(3)] assms(12) by blast
  then have "round_robin_sort_key env salt [] s \<le> round_robin_sort_key env salt [] h"
    using ys(4) assms(5,6) min_by_le by (fastforce simp: rank_pool_def)
  then show ?thesis
    by (auto simp: round_robin_sort_key_def planner_cost_def less_eq_prod_def split: if_splits)
qed

theorem round_robin_least_recent_witness:
  "or_default (last_selected_at w_a) 0 \<le> or_default (last_selected_at w_b) 0"
  by (rule round_robin_least_recent
        [where env = w_env and req = w_round_robin and now = "Some 1000" and salts = w_salts
          and states = "[w_b, w_a]" and r = "\<lparr>account = Some w_a, error_message = None\<rparr>"]) code_simp+

end
