(* ===== verification/Balancer_Select_More.thy ===== *)
theory Balancer_Select_More
  imports Balancer_Select_Props
begin

text \<open>
  Further properties of \<open>select_account\<close>: the reserve kept from opportunistic traffic,
  that repeating a call changes nothing, the bounds of the retry hint, and the
  evaluated examples that show the hypotheses of the properties can hold.
\<close>

section \<open>Opportunistic traffic\<close>

text \<open>
  An opportunistic request is served by an account whose policy is preserve only if
  that account's usage and both of its reset times are known and more than 5 percent of
  its weekly window and more than 10 percent of its short window are left.
\<close>

theorem opportunistic_keeps_reserve:
  assumes "0 \<le> random_draw env" "random_draw env < 1"
    and "out_result (select_account env req now states salts) = Inr r" and "account r = Some s"
    and "traffic_class req = Opportunistic"
    and "effective_routing_policy s = ROUTING_POLICY_PRESERVE"
  shows "\<exists>weekly short. remaining_pct s True = Some weekly \<and> remaining_pct s False = Some short
    \<and> 5 < weekly \<and> 10 < short \<and> secondary_reset_at s \<noteq> None \<and> reset_at s \<noteq> None"
proof -
  let ?t = "current_time env now"
  obtain ys where ys: "selection_pool req ?t states = Pool ys" "s \<in> set ys"
    using selected_in_pool [OF assms(1-4)] by metis
  then obtain xs where "opportunistic_candidate xs ?t s"
    using candidate_pool_Pool(3) [OF ys(1) [unfolded selection_pool_def Let_def] assms(5)] by blast
  then have "preserve_allows_opportunistic_burn s ?t (count_preserve xs)"
    using assms(6) by (simp add: opportunistic_candidate_def)
  then show ?thesis
    by (rule preserve_burn_keeps_reserve)
      (simp add: PRESERVE_MIN_WEEKLY_FLOOR_PCT_def PRESERVE_MIN_SHORT_WINDOW_FLOOR_PCT_def)
qed

lemmas selection_eval =
  select_account_def current_time_def admitted_def admit_state_def recover_rate_limited_def
  recover_quota_exceeded_def clear_elapsed_cooldown_def deadline_passed_def new_account_state_def
  candidate_pool_def opportunistic_gate_def filter_opportunistic_candidates_def
  opportunistic_candidate_def preserve_allows_opportunistic_burn_def remaining_pct_def used_pct_def
  weekly_pace_floor_pct_def short_window_floor_pct_def seconds_until_def count_preserve_def
  recent_foreground_activity_def effective_routing_policy_def PRESERVE_MIN_WEEKLY_FLOOR_PCT_def
  PRESERVE_MIN_SHORT_WINDOW_FLOOR_PCT_def SECONDS_PER_WEEK_def SECONDS_PER_DAY_def
  SECONDS_PER_HOUR_def ROUTING_POLICY_NORMAL_def ROUTING_POLICY_BURN_FIRST_def
  ROUTING_POLICY_PRESERVE_def pick_account_def effective_replica_salt_def default_replica_salt_def
  is_free_account_plan_def clean_plan_type_def Let_def

definition w_preserve :: account_state where
  "w_preserve = (new_account_state ''p'' ACTIVE)
     \<lparr>used_percent := Some 10, secondary_used_percent := Some 10, reset_at := Some 2000,
      secondary_reset_at := Some 300000, routing_policy := ''preserve''\<rparr>"

theorem opportunistic_keeps_reserve_witness:
  "\<exists>weekly short. remaining_pct w_preserve True = Some weekly \<and> remaining_pct w_preserve False = Some short
    \<and> 5 < weekly \<and> 10 < short \<and> secondary_reset_at w_preserve \<noteq> None \<and> reset_at w_preserve \<noteq> None"
  by (rule opportunistic_keeps_reserve
        [where env = w_env and req = "w_single\<lparr>traffic_class := Opportunistic\<rparr>" and now = "Some 1000"
          and states = "[w_preserve]" and salts = w_salts
          and r = "\<lparr>account = Some w_preserve, error_message = None\<rparr>"])
    (simp_all add: selection_eval w_env_def w_single_def w_preserve_def w_salts_def default_request_def)

section \<open>Repeating a call\<close>

definition settled :: "real \<Rightarrow> account_state \<Rightarrow> bool" where
  "settled t s =
     (status s \<in> {RATE_LIMITED, QUOTA_EXCEEDED} \<longrightarrow> \<not> deadline_passed (reset_at s) t)"

lemma settled_fixed:
  assumes "settled t s"
  shows "recover_rate_limited t s = s" and "recover_quota_exceeded t s = s"
  using assms by (auto simp: settled_def recover_rate_limited_def recover_quota_exceeded_def)

lemma recovered_settled:
  "settled t (recover_quota_exceeded t (recover_rate_limited t s))"
  by (auto simp: settled_def recover_rate_limited_def recover_quota_exceeded_def)

lemma clear_cooldown_settled: "settled t s \<Longrightarrow> settled t (clear_elapsed_cooldown t s)"
  by (simp add: settled_def clear_elapsed_cooldown_def)

lemma clear_cooldown_idem:
  "clear_elapsed_cooldown t (clear_elapsed_cooldown t s) = clear_elapsed_cooldown t s"
  by (simp add: clear_elapsed_cooldown_def deadline_passed_def)

lemma rate_limited_settled:
  "status (recover_rate_limited t s) = RATE_LIMITED \<Longrightarrow> settled t (recover_rate_limited t s)"
  by (auto simp: settled_def recover_rate_limited_def split: if_splits)

lemma bypass_cong:
  "account_id a = account_id b \<Longrightarrow> ignore_standard_quota a = ignore_standard_quota b \<Longrightarrow>
   bypass_standard_quota req a = bypass_standard_quota req b"
  by (simp add: bypass_standard_quota_def split: option.split)

text \<open>The last stage of admission, on a state whose deadlines are settled.\<close>

definition admit_settled :: "real \<Rightarrow> account_state \<Rightarrow> account_state \<times> verdict" where
  "admit_settled t s =
     (if truthy (cooldown_until s) \<and> t < or_default (cooldown_until s) 0 then (s, Skipped)
      else if error_count s \<ge> 3
      then (if truthy (last_error_at s)
               \<and> t - or_default (last_error_at s) 0 < of_int (error_backoff (error_count s))
            then (s, In_error_backoff)
            else (s\<lparr>error_count := 0, last_error_at := None\<rparr>, Available))
      else (s, Available))"

lemma admit_state_alt:
  "admit_state req t s =
     (if is_free_account_plan (plan_type s) \<or> status s \<in> {REAUTH_REQUIRED, DEACTIVATED, PAUSED}
      then (s, Skipped)
      else if status (recover_rate_limited t s) = RATE_LIMITED \<and> \<not> bypass_standard_quota req s
      then (recover_rate_limited t s, Skipped)
      else let s2 = recover_quota_exceeded t (recover_rate_limited t s)
      in if status s2 = QUOTA_EXCEEDED \<and> \<not> bypass_standard_quota req s then (s2, Skipped)
      else admit_settled t (clear_elapsed_cooldown t s2))"
  by (simp add: admit_state_def admit_settled_def Let_def)

lemma admit_settled_fixed:
  assumes "settled t s" and "clear_elapsed_cooldown t s = s"
    and "\<not> is_free_account_plan (plan_type s)" and "status s \<notin> {REAUTH_REQUIRED, DEACTIVATED, PAUSED}"
    and "status s \<in> {RATE_LIMITED, QUOTA_EXCEEDED} \<longrightarrow> bypass_standard_quota req s"
  shows "admit_state req t s = admit_settled t s"
  using assms settled_fixed [OF assms(1)] by (auto simp: admit_state_alt Let_def)

lemma admit_settled_idem:
  "admit_settled t (fst (admit_settled t s)) = admit_settled t s"
  by (simp add: admit_settled_def)

lemma admit_settled_frame:
  "account_id (fst (admit_settled t s)) = account_id s"
  "ignore_standard_quota (fst (admit_settled t s)) = ignore_standard_quota s"
  "plan_type (fst (admit_settled t s)) = plan_type s" "status (fst (admit_settled t s)) = status s"
  "reset_at (fst (admit_settled t s)) = reset_at s"
  "cooldown_until (fst (admit_settled t s)) = cooldown_until s"
  by (simp_all add: admit_settled_def)

lemma clear_cooldown_noop:
  "\<not> deadline_passed (cooldown_until s) t \<Longrightarrow> clear_elapsed_cooldown t s = s"
  by (simp add: clear_elapsed_cooldown_def)

lemma cooldown_cleared: "\<not> deadline_passed (cooldown_until (clear_elapsed_cooldown t s)) t"
  by (simp add: clear_elapsed_cooldown_def deadline_passed_def)

lemma admit_settled_again:
  fixes t :: real and s :: account_state
  defines "s1 \<equiv> recover_rate_limited t s"
  defines "s2 \<equiv> recover_quota_exceeded t s1"
  defines "x \<equiv> fst (admit_settled t (clear_elapsed_cooldown t s2))"
  assumes "\<not> is_free_account_plan (plan_type s)" "status s \<notin> {REAUTH_REQUIRED, DEACTIVATED, PAUSED}"
    and "status s1 = RATE_LIMITED \<longrightarrow> bypass_standard_quota req s"
    and "status s2 = QUOTA_EXCEEDED \<longrightarrow> bypass_standard_quota req s"
  shows "admit_state req t x = admit_settled t x"
proof (rule admit_settled_fixed)
  have st: "status x = status s2" by (simp add: x_def admit_settled_frame)
  have bypass: "bypass_standard_quota req x = bypass_standard_quota req s"
    by (rule bypass_cong) (simp_all add: x_def s2_def s1_def admit_settled_frame)
  show "settled t x" using clear_cooldown_settled [OF recovered_settled [of t s]]
    by (simp add: x_def s2_def s1_def settled_def admit_settled_frame)
  show "clear_elapsed_cooldown t x = x"
    by (rule clear_cooldown_noop) (simp add: x_def admit_settled_frame cooldown_cleared)
  show "\<not> is_free_account_plan (plan_type x)"
    using assms(4) by (simp add: x_def s2_def s1_def admit_settled_frame)
  show "status x \<notin> {REAUTH_REQUIRED, DEACTIVATED, PAUSED}"
    using assms(5) recovered_status_cases(1) [of t s] by (auto simp: st s2_def s1_def)
  show "status x \<in> {RATE_LIMITED, QUOTA_EXCEEDED} \<longrightarrow> bypass_standard_quota req x"
    using assms(6,7) recovered_status_cases(2) [of t s] bypass by (auto simp: st s2_def s1_def)
qed

lemma admit_state_idem: "admit_state req t (fst (admit_state req t s)) = admit_state req t s"
proof -
  let ?s1 = "recover_rate_limited t s"
  let ?s2 = "recover_quota_exceeded t ?s1"
  let ?x = "fst (admit_settled t (clear_elapsed_cooldown t ?s2))"
  let ?open = "\<not> is_free_account_plan (plan_type s) \<and> status s \<notin> {REAUTH_REQUIRED, DEACTIVATED, PAUSED}"
  have by1: "bypass_standard_quota req ?s1 = bypass_standard_quota req s"
    "bypass_standard_quota req ?s2 = bypass_standard_quota req s"
    by (rule bypass_cong; simp)+
  consider (blocked) "\<not> ?open"
    | (limited) ?open "status ?s1 = RATE_LIMITED" "\<not> bypass_standard_quota req s"
    | (quota) ?open "status ?s1 \<noteq> RATE_LIMITED" "status ?s2 = QUOTA_EXCEEDED" "\<not> bypass_standard_quota req s"
    | (rest) ?open "status ?s1 = RATE_LIMITED \<longrightarrow> bypass_standard_quota req s"
        "status ?s2 = QUOTA_EXCEEDED \<longrightarrow> bypass_standard_quota req s"
    by blast
  then show ?thesis
  proof cases
    case blocked
    then have "admit_state req t s = (s, Skipped)" by (auto simp: admit_state_alt)
    then show ?thesis by simp
  next
    case limited
    then have "admit_state req t s = (?s1, Skipped)" by (simp add: admit_state_alt)
    moreover have "admit_state req t ?s1 = (?s1, Skipped)"
      using limited by1(1) settled_fixed [OF rate_limited_settled [OF limited(2)]]
      by (simp add: admit_state_alt [of req t ?s1])
    ultimately show ?thesis by simp
  next
    case quota
    then have "admit_state req t s = (?s2, Skipped)" by (auto simp: admit_state_alt Let_def)
    moreover have "admit_state req t ?s2 = (?s2, Skipped)"
      using quota by1(2) settled_fixed [OF recovered_settled [of t s]]
      by (simp add: admit_state_alt [of req t ?s2] Let_def)
    ultimately show ?thesis by simp
  next
    case rest
    then have "admit_state req t s = admit_settled t (clear_elapsed_cooldown t ?s2)"
      by (auto simp: admit_state_alt Let_def)
    then show ?thesis using admit_settled_again [of s t req] rest by (simp add: admit_settled_idem)
  qed
qed

lemma effective_replica_salt_idem:
  "effective_replica_salt host explicit st = (salt, st') \<Longrightarrow>
   effective_replica_salt host explicit st' = (salt, st')"
  by (auto simp: effective_replica_salt_def default_replica_salt_def Let_def
      split: if_splits option.splits)

lemma select_account_verdicts:
  "map (admit_state req (current_time env now)) xs = map (admit_state req (current_time env now)) ys
   \<Longrightarrow> select_account env req now xs salts = select_account env req now ys salts"
  by (simp only: select_account_def Let_def)

lemma select_account_salt_settled:
  "select_account env req now xs (out_salts (select_account env req now xs salts))
   = select_account env req now xs salts"
proof (cases "selection_pool req (current_time env now) xs")
  case (Pool ys)
  obtain salt salts' where salt: "effective_replica_salt (gethostname env) (replica_salt req) salts = (salt, salts')"
    by fastforce
  then have "effective_replica_salt (gethostname env) (replica_salt req) salts' = (salt, salts')"
    by (rule effective_replica_salt_idem)
  then show ?thesis using Pool salt by (simp add: select_account_def Let_def selection_pool_def)
qed (simp_all add: select_account_def Let_def selection_pool_def)

text \<open>
  Selection is repeatable: calling \<open>select_account\<close> again at the same time, with the
  same draw, on the states and the salt the first call left gives the same outcome, so
  the recovery it performs on the states is complete after one call.
\<close>

theorem select_account_repeatable:
  "select_account env req now (out_states (select_account env req now states salts))
     (out_salts (select_account env req now states salts))
   = select_account env req now states salts"
proof -
  let ?t = "current_time env now"
  let ?o = "select_account env req now states salts"
  have "map (admit_state req ?t) (out_states ?o) = map (admit_state req ?t) states"
    by (simp add: out_states_select admit_state_idem)
  then have "select_account env req now (out_states ?o) (out_salts ?o)
      = select_account env req now states (out_salts ?o)"
    by (rule select_account_verdicts)
  also have "\<dots> = ?o"
    by (rule select_account_salt_settled)
  finally show ?thesis .
qed

section \<open>Retry hints\<close>

lemma format_retry_hint_bounds:
  "format_retry_hint w = Retry_hint n \<Longrightarrow> 0 \<le> n \<and> n \<le> SELECTOR_RETRY_HINT_MAX_SECONDS"
  using py_round_nonneg [of "min (max 0 w) (real_of_int SELECTOR_RETRY_HINT_MAX_SECONDS)"]
    py_round_mono_int [of "min (max 0 w) (real_of_int SELECTOR_RETRY_HINT_MAX_SECONDS)"
      SELECTOR_RETRY_HINT_MAX_SECONDS]
  by (auto simp: format_retry_hint_def SELECTOR_RETRY_HINT_MAX_SECONDS_def)

lemma all_blocked_error_no_hint: "all_blocked_error xs \<noteq> Some (Retry_hint n)"
  by (simp add: all_blocked_error_def Let_def)

lemma no_account_error_hint:
  assumes "no_account_error xs t = Retry_hint n"
  shows "0 \<le> n \<and> n \<le> SELECTOR_RETRY_HINT_MAX_SECONDS"
proof -
  have "\<exists>w. format_retry_hint w = Retry_hint n"
    using assms all_blocked_error_no_hint [of xs n]
    by (auto simp: no_account_error_def Let_def split: option.splits)
  then show ?thesis using format_retry_hint_bounds by blast
qed

lemma candidate_pool_hint:
  "candidate_pool req t all av bo = Refused (Retry_hint n) \<Longrightarrow>
   no_account_error all t = Retry_hint n"
  by (auto simp: candidate_pool_def opportunistic_gate_def
      split: pool.splits list.splits sum.splits if_splits prod.splits)

text \<open>
  When a call refuses with "Try again in Ns", N lies between 0 and 300 seconds,
  whatever the persisted deadlines are.
\<close>

theorem retry_hint_bounded:
  assumes "0 \<le> random_draw env" "random_draw env < 1"
    and "out_result (select_account env req now states salts) = Inr r"
    and "error_message r = Some (Retry_hint n)"
  shows "0 \<le> n \<and> n \<le> 300"
proof -
  have "selection_pool req (current_time env now) states = Refused (Retry_hint n)"
    using assms(3,4)
    by (cases rule: select_account_outcome [OF assms(1,2), of req now states salts]) auto
  then show ?thesis
    using candidate_pool_hint no_account_error_hint
    by (fastforce simp: selection_pool_def Let_def SELECTOR_RETRY_HINT_MAX_SECONDS_def)
qed

definition w_exhausted :: account_state where
  "w_exhausted = (new_account_state ''q'' QUOTA_EXCEEDED)\<lparr>reset_at := Some 1100\<rparr>"

theorem retry_hint_bounded_witness: "0 \<le> (100 :: int) \<and> (100 :: int) \<le> 300"
  by (rule retry_hint_bounded
        [where env = w_env and req = default_request and now = "Some 1000"
          and states = "[w_exhausted]" and salts = w_salts
          and r = "\<lparr>account = None, error_message = Some (Retry_hint 100)\<rparr>"]) code_simp+

end
