(* ===== verification/Retry.thy ===== *)
theory Retry
  imports Balancer_Select
begin

text \<open>
  Retry hints and backoff: \<open>app/core/utils/retry.py\<close>. The two regular expressions are
  read as the parser they describe: "try again in", then a run of number-and-unit
  components. The look-ahead \<open>(?![A-Za-z])\<close> makes a unit the whole run of letters after
  the number, so each component is parsed in one way. The module's compiled patterns
  match case-insensitively; letters and digits are ASCII here.
\<close>

section \<open>Definitions\<close>

definition is_digit :: "char \<Rightarrow> bool" where
  "is_digit c = (let n = of_char c :: nat in 48 \<le> n \<and> n \<le> 57)"

definition is_letter :: "char \<Rightarrow> bool" where
  "is_letter c = (let n = of_char c :: nat in 65 \<le> n \<and> n \<le> 90 \<or> 97 \<le> n \<and> n \<le> 122)"

definition UNIT_SECONDS :: "(string \<times> real) list" where
  "UNIT_SECONDS =
     [(''ms'', 1 / 1000), (''millisecond'', 1 / 1000), (''milliseconds'', 1 / 1000),
      (''h'', 3600), (''hr'', 3600), (''hrs'', 3600), (''hour'', 3600), (''hours'', 3600),
      (''m'', 60), (''min'', 60), (''mins'', 60), (''minute'', 60), (''minutes'', 60),
      (''s'', 1), (''sec'', 1), (''secs'', 1), (''second'', 1), (''seconds'', 1)]"

definition digits_value :: "string \<Rightarrow> nat" where
  "digits_value ds = foldl (\<lambda>a c. a * 10 + (of_char c - 48)) 0 ds"

definition parse_number :: "string \<Rightarrow> (real \<times> string) option" where
  "parse_number s =
     (let ds = takeWhile is_digit s; r = dropWhile is_digit s
      in if ds = [] then None
         else case r of
                [] \<Rightarrow> Some (real (digits_value ds), r)
              | c # r' \<Rightarrow>
                  (let fs = takeWhile is_digit r'
                   in if c = CHR ''.'' \<and> fs \<noteq> []
                      then Some (real (digits_value ds) + real (digits_value fs) / 10 ^ length fs,
                                 dropWhile is_digit r')
                      else Some (real (digits_value ds), r)))"

definition duration_token :: "string \<Rightarrow> ((real \<times> string) \<times> string) option" where
  "duration_token s =
     (case parse_number s of None \<Rightarrow> None
      | Some (v, r) \<Rightarrow>
          (let r' = dropWhile is_py_space r;
               unit = py_lower (takeWhile is_letter r')
           in if unit \<in> fst ` set UNIT_SECONDS then Some ((v, unit), dropWhile is_letter r')
              else None))"

lemma dropWhile_length: "length (dropWhile P xs) \<le> length xs"
  by (metis length_dropWhile_le)

lemma parse_number_rest:
  "parse_number s = Some (v, r) \<Longrightarrow>
   takeWhile is_digit s \<noteq> []
   \<and> (r = dropWhile is_digit s \<or> r = dropWhile is_digit (tl (dropWhile is_digit s)))"
  by (auto simp: parse_number_def Let_def split: if_splits list.splits)

lemma parse_number_shorter: "parse_number s = Some (v, r) \<Longrightarrow> length r < length s"
proof -
  assume "parse_number s = Some (v, r)"
  note rest = parse_number_rest [OF this]
  have "length (dropWhile is_digit (tl (dropWhile is_digit s))) \<le> length (dropWhile is_digit s)"
    using dropWhile_length [of is_digit "tl (dropWhile is_digit s)"] by simp
  then have le: "length r \<le> length (dropWhile is_digit s)" using rest by auto
  have "length (takeWhile is_digit s) + length (dropWhile is_digit s) = length s"
    by (metis length_append takeWhile_dropWhile_id)
  then show ?thesis using rest le by (cases "takeWhile is_digit s") auto
qed

lemma duration_token_shorter: "duration_token s = Some (p, r) \<Longrightarrow> length r < length s"
proof -
  assume "duration_token s = Some (p, r)"
  then obtain v q where q: "parse_number s = Some (v, q)"
      "r = dropWhile is_letter (dropWhile is_py_space q)"
    by (auto simp: duration_token_def Let_def split: option.splits if_splits)
  have "length r \<le> length q" unfolding q(2) by (meson dropWhile_length order_trans)
  then show ?thesis using parse_number_shorter [OF q(1)] by simp
qed

function duration_tokens :: "string \<Rightarrow> (real \<times> string) list" where
  "duration_tokens s =
     (case duration_token s of None \<Rightarrow> []
      | Some (p, r) \<Rightarrow> p # duration_tokens (dropWhile is_py_space r))"
  by pat_completeness auto
termination
proof (relation "measure length")
  fix s x p r
  assume "duration_token s = Some x" "(p, r) = x"
  then have "length r < length s" using duration_token_shorter by metis
  then show "(dropWhile is_py_space r, s) \<in> measure length"
    using dropWhile_length [of is_py_space r] by simp
qed simp

declare duration_tokens.simps [simp del]

definition match_retry_pattern :: "string \<Rightarrow> (real \<times> string) list option" where
  "match_retry_pattern s =
     (if py_lower (take 12 s) = ''try again in''
      then (let toks = duration_tokens (dropWhile is_py_space (drop 12 s))
            in if toks = [] then None else Some toks)
      else None)"

fun search_retry_pattern :: "string \<Rightarrow> (real \<times> string) list option" where
  "search_retry_pattern [] = None"
| "search_retry_pattern (c # s) =
     (case match_retry_pattern (c # s) of Some toks \<Rightarrow> Some toks | None \<Rightarrow> search_retry_pattern s)"

fun sum_durations :: "(real \<times> string) list \<Rightarrow> real \<Rightarrow> bool \<Rightarrow> real \<times> bool" where
  "sum_durations [] tot matched = (tot, matched)"
| "sum_durations ((v, unit) # toks) tot matched =
     (case map_of UNIT_SECONDS unit of
        None \<Rightarrow> sum_durations toks tot matched
      | Some multiplier \<Rightarrow>
          sum_durations toks
            (if unit = ''ms'' then tot + v / 1000 else tot + v * multiplier) True)"

definition parse_retry_after :: "string \<Rightarrow> real option" where
  "parse_retry_after message =
     (case search_retry_pattern message of None \<Rightarrow> None
      | Some toks \<Rightarrow>
          (case sum_durations toks 0 False of (tot, matched) \<Rightarrow>
             if matched then Some tot else None))"

definition BACKOFF_INITIAL_DELAY_MS :: real where "BACKOFF_INITIAL_DELAY_MS = 200"
definition BACKOFF_FACTOR :: real where "BACKOFF_FACTOR = 2"
definition BACKOFF_JITTER_MIN :: real where "BACKOFF_JITTER_MIN = 9 / 10"
definition BACKOFF_JITTER_MAX :: real where "BACKOFF_JITTER_MAX = 11 / 10"

definition backoff_seconds :: "real \<Rightarrow> int \<Rightarrow> real" where
  "backoff_seconds u attempt =
     (let attempt' = (if attempt < 1 then 1 else attempt);
          exponent = BACKOFF_FACTOR ^ nat (attempt' - 1);
          base_ms = BACKOFF_INITIAL_DELAY_MS * exponent;
          jitter = BACKOFF_JITTER_MIN + (BACKOFF_JITTER_MAX - BACKOFF_JITTER_MIN) * u
      in base_ms * jitter / 1000)"

section \<open>Reading a retry hint back\<close>

lemma of_char_digit: "d < 10 \<Longrightarrow> of_char (char_of (48 + d :: nat) :: char) = (48 + d :: nat)"
  by (simp add: of_char_of)

lemma string_of_nat_digits: "\<forall>c \<in> set (string_of_nat n). is_digit c"
  by (induction n rule: string_of_nat.induct)
    (subst string_of_nat.simps, auto simp: is_digit_def of_char_digit of_char_of Let_def)

lemma string_of_nat_nonempty [simp]: "string_of_nat n \<noteq> []"
  by (subst string_of_nat.simps) simp

lemma digits_value_snoc: "digits_value (ds @ [c]) = digits_value ds * 10 + (of_char c - 48)"
  by (simp add: digits_value_def)

lemma digits_value_string_of_nat [simp]: "digits_value (string_of_nat n) = n"
proof (induction n rule: string_of_nat.induct)
  case (1 n)
  show ?case
  proof (cases "n < 10")
    case True
    then show ?thesis
      by (subst string_of_nat.simps) (simp add: digits_value_def of_char_digit)
  next
    case False
    have "string_of_nat n = string_of_nat (n div 10) @ [char_of (48 + n mod 10)]"
      using False by (subst string_of_nat.simps) simp
    then have "digits_value (string_of_nat n) = n div 10 * 10 + n mod 10"
      using 1 [OF False] by (simp add: digits_value_snoc of_char_digit)
    then show ?thesis by (simp only: div_mult_mod_eq)
  qed
qed

lemma seconds_token:
  "duration_token (string_of_nat n @ ''s'') = Some ((real n, ''s''), [])"
proof -
  have "\<not> is_digit (CHR ''s'')" by code_simp
  then have d: "takeWhile is_digit (string_of_nat n @ ''s'') = string_of_nat n"
      "dropWhile is_digit (string_of_nat n @ ''s'') = ''s''"
    using string_of_nat_digits [of n] by (simp_all add: takeWhile_append2 dropWhile_append2)
  have "parse_number (string_of_nat n @ ''s'') = Some (real n, ''s'')"
    by (simp add: parse_number_def Let_def d)
  moreover have "dropWhile is_py_space ''s'' = ''s''" "py_lower (takeWhile is_letter ''s'') = ''s''"
      "dropWhile is_letter ''s'' = []" "''s'' \<in> fst ` set UNIT_SECONDS"
    by code_simp+
  ultimately show ?thesis by (simp add: duration_token_def Let_def)
qed

lemma duration_tokens_seconds: "duration_tokens (string_of_nat n @ ''s'') = [(real n, ''s'')]"
proof -
  have "duration_token [] = None" by code_simp
  then show ?thesis
    by (simp add: seconds_token duration_tokens.simps [of "string_of_nat n @ ''s''"]
        duration_tokens.simps [of "[]"])
qed

lemma string_of_nat_no_space:
  "dropWhile is_py_space (string_of_nat n @ t) = string_of_nat n @ t"
proof -
  obtain c cs where c: "string_of_nat n = c # cs" by (cases "string_of_nat n") auto
  then have "is_digit c" using string_of_nat_digits [of n] by simp
  then have "\<not> is_py_space c" by (auto simp: is_digit_def is_py_space_def Let_def)
  then show ?thesis using c by simp
qed

lemma hint_prefix_search:
  "search_retry_pattern (''Rate limit exceeded. Try again in '' @ t)
   = search_retry_pattern (''Try again in '' @ t)"
  by (simp add: match_retry_pattern_def py_lower_def lower_char_def)

text \<open>
  The refusal of the selector and the parser of upstream messages agree: reading the
  text "Rate limit exceeded. Try again in Ns" back yields exactly N seconds, for every N.
\<close>

theorem retry_hint_roundtrip:
  "parse_retry_after (selection_error_text (Retry_hint (int n))) = Some (real n)"
proof -
  have lowered: "py_lower ''Try again in'' = ''try again in''" by code_simp
  have "match_retry_pattern (''Try again in '' @ string_of_nat n @ ''s'') = Some [(real n, ''s'')]"
    using duration_tokens_seconds [of n] string_of_nat_no_space [of n "''s''"]
      lowered
    by (simp add: match_retry_pattern_def is_py_space_def)
  then have "search_retry_pattern (''Try again in '' @ string_of_nat n @ ''s'')
      = Some [(real n, ''s'')]"
    by simp
  then have "search_retry_pattern (selection_error_text (Retry_hint (int n))) = Some [(real n, ''s'')]"
    using hint_prefix_search [of "string_of_nat n @ ''s''"] by (simp add: selection_error_text_def)
  then show ?thesis by (simp add: parse_retry_after_def UNIT_SECONDS_def)
qed

section \<open>Bounds\<close>

lemma duration_tokens_nonneg: "(v, u) \<in> set (duration_tokens s) \<Longrightarrow> 0 \<le> v"
proof (induction s rule: duration_tokens.induct)
  case (1 s)
  have tok: "0 \<le> w" if "duration_token s = Some ((w, x), r)" for w x r
    using that by (auto simp: duration_token_def parse_number_def Let_def
        split: option.splits if_splits list.splits)
  show ?case
  proof (cases "duration_token s")
    case None
    then show ?thesis using 1 by (simp add: duration_tokens.simps [of s])
  next
    case (Some pr)
    then show ?thesis using 1(1) [OF Some] 1(2) tok
      by (cases pr) (auto simp: duration_tokens.simps [of s])
  qed
qed

lemma sum_durations_nonneg:
  "(\<And>v u. (v, u) \<in> set toks \<Longrightarrow> 0 \<le> v) \<Longrightarrow> 0 \<le> tot \<Longrightarrow> sum_durations toks tot m = (r, b) \<Longrightarrow> 0 \<le> r"
proof (induction toks tot m rule: sum_durations.induct)
  case (2 v unit toks tot matched)
  have v: "0 \<le> v" using 2(3) by auto
  have mult: "0 \<le> k" if "map_of UNIT_SECONDS unit = Some k" for k
    using map_of_SomeD [OF that] by (auto simp: UNIT_SECONDS_def)
  show ?case
  proof (cases "map_of UNIT_SECONDS unit")
    case None
    then show ?thesis using 2(1) [OF None] 2(3-5) by auto
  next
    case (Some k)
    have "0 \<le> (if unit = ''ms'' then tot + v / 1000 else tot + v * k)" using v mult [OF Some] 2(4) by simp
    then show ?thesis using 2(2) [OF Some] 2(3,5) Some by auto
  qed
qed auto

lemma search_retry_tokens:
  "search_retry_pattern s = Some toks \<Longrightarrow> \<exists>t. toks = duration_tokens t"
  by (induction s) (auto simp: match_retry_pattern_def Let_def split: option.splits if_splits)

lemma parse_retry_after_nonneg: "parse_retry_after msg = Some d \<Longrightarrow> 0 \<le> d"
proof -
  assume "parse_retry_after msg = Some d"
  then obtain toks b where t: "search_retry_pattern msg = Some toks" "sum_durations toks 0 False = (d, b)"
    by (auto simp: parse_retry_after_def split: option.splits prod.splits if_splits)
  then obtain s where "toks = duration_tokens s" using search_retry_tokens by blast
  then show ?thesis using sum_durations_nonneg [OF _ _ t(2)] duration_tokens_nonneg by auto
qed

lemma backoff_seconds_closed:
  "backoff_seconds u attempt = (18 / 100 + 4 / 100 * u) * 2 ^ nat (max 1 attempt - 1)"
  by (simp add: backoff_seconds_def Let_def BACKOFF_FACTOR_def BACKOFF_INITIAL_DELAY_MS_def
      BACKOFF_JITTER_MIN_def BACKOFF_JITTER_MAX_def max_def field_simps)

lemma backoff_seconds_pos: "0 \<le> u \<Longrightarrow> 0 < backoff_seconds u attempt"
  by (simp add: backoff_seconds_closed add_pos_nonneg)

text \<open>
  Exponential backoff dominates its jitter: whatever two draws are made, attempt
  n + 1 waits longer than attempt n, and the wait of attempt n lies between 0.18 and
  0.22 seconds times \<open>2 ^ (n - 1)\<close>.
\<close>

theorem backoff_seconds_grows:
  assumes "0 \<le> u" "u \<le> 1" "0 \<le> u'" "u' \<le> 1" "1 \<le> attempt"
  shows "backoff_seconds u attempt < backoff_seconds u' (attempt + 1)
    \<and> 18 / 100 * 2 ^ nat (attempt - 1) \<le> backoff_seconds u attempt
    \<and> backoff_seconds u attempt \<le> 22 / 100 * 2 ^ nat (attempt - 1)"
proof -
  let ?p = "2 ^ nat (attempt - 1) :: real"
  have p: "0 < ?p" by simp
  have eq: "backoff_seconds u attempt = (18 / 100 + 4 / 100 * u) * ?p"
    using assms(5) by (simp add: backoff_seconds_closed max_def)
  have "nat (max 1 (attempt + 1) - 1) = Suc (nat (attempt - 1))" using assms(5) by simp
  then have eq': "backoff_seconds u' (attempt + 1) = (36 / 100 + 8 / 100 * u') * ?p"
    by (simp only: backoff_seconds_closed) (simp add: algebra_simps)
  have "18 / 100 + 4 / 100 * u < 36 / 100 + 8 / 100 * u'" using assms by simp
  then have "backoff_seconds u attempt < backoff_seconds u' (attempt + 1)"
    unfolding eq eq' using p by (rule mult_strict_right_mono)
  moreover have "18 / 100 * ?p \<le> backoff_seconds u attempt" "backoff_seconds u attempt \<le> 22 / 100 * ?p"
    unfolding eq by (rule mult_right_mono; use assms in simp)+
  ultimately show ?thesis by blast
qed

theorem backoff_seconds_grows_witness:
  "backoff_seconds 1 3 < backoff_seconds 0 (3 + 1)
   \<and> 18 / 100 * 2 ^ nat (3 - 1) \<le> backoff_seconds 1 3
   \<and> backoff_seconds 1 3 \<le> 22 / 100 * 2 ^ nat (3 - 1)"
  by (rule backoff_seconds_grows) simp_all

end
