(* ===== verification/Balancer_Failures.thy ===== *)
theory Balancer_Failures
  imports Balancer_Select_More Retry
begin

text \<open>
  The failure half of \<open>app/core/balancer/logic.py\<close>: what a rate limit, an exhausted quota
  or a permanent failure does to an account, which upstream reset times are believed, the
  failover decision and the health tier of an account. \<open>time.time()\<close> and the jitter draw of
  \<open>backoff_seconds\<close> are arguments.
\<close>

section \<open>Definitions\<close>

definition PERMANENT_FAILURE_CODES :: "(string \<times> string) list" where
  "PERMANENT_FAILURE_CODES =
     [(''refresh_token_expired'', ''Refresh token expired - re-login required''),
      (''refresh_token_reused'', ''Refresh token was reused - re-login required''),
      (''refresh_token_invalidated'', ''Refresh token was revoked - re-login required''),
      (''invalid_grant'', ''Refresh token grant invalid - re-login required''),
      (''token_invalidated'', ''Authentication token invalidated - re-login required''),
      (''token_expired'', ''Authentication token expired - re-login required''),
      (''app_session_terminated'', ''ChatGPT session ended - re-login required''),
      (''account_session_expired'', ''ChatGPT session ended - re-login required''),
      (''account_auth_invalidated'', ''Authentication failed after token refresh - re-login required''),
      (''account_deactivated'', ''Account has been deactivated''),
      (''account_suspended'', ''Account has been suspended''),
      (''account_deleted'', ''Account has been deleted'')]"

definition REAUTH_REQUIRED_FAILURE_CODES :: "string list" where
  "REAUTH_REQUIRED_FAILURE_CODES =
     [''refresh_token_expired'', ''refresh_token_reused'', ''refresh_token_invalidated'',
      ''invalid_grant'', ''token_invalidated'', ''token_expired'', ''app_session_terminated'',
      ''account_session_expired'', ''account_auth_invalidated'']"

definition RATE_LIMIT_RESET_MAX_HORIZON_SECONDS :: real where "RATE_LIMIT_RESET_MAX_HORIZON_SECONDS = 366 * real_of_int SECONDS_PER_DAY"
definition RATE_LIMIT_RESET_ROUNDING_TOLERANCE_SECONDS :: real where "RATE_LIMIT_RESET_ROUNDING_TOLERANCE_SECONDS = 1"
definition RATE_LIMITED_MIN_COOLDOWN_SECONDS :: real where "RATE_LIMITED_MIN_COOLDOWN_SECONDS = 30"
definition QUOTA_EXCEEDED_COOLDOWN_SECONDS :: real where "QUOTA_EXCEEDED_COOLDOWN_SECONDS = 120"

text \<open>A JSON number as upstream sends it: Python's bool is an int, and a float may be infinite or NaN.\<close>

datatype py_number = Py_int int | Py_float real | Py_nonfinite | Py_bool bool

record upstream_error =
  message :: "string option"
  resets_at :: "py_number option"
  resets_in_seconds :: "py_number option"

definition finite_number :: "py_number option \<Rightarrow> real option" where
  "finite_number x =
     (case x of Some (Py_int i) \<Rightarrow> Some (of_int i) | Some (Py_float r) \<Rightarrow> Some r | _ \<Rightarrow> None)"

definition plausible_rate_limit_reset_at ::
    "real \<Rightarrow> py_number option \<Rightarrow> real option \<Rightarrow> bool \<Rightarrow> real option" where
  "plausible_rate_limit_reset_at wall reset now allow_rounding_slack =
     (case finite_number reset of None \<Rightarrow> None
      | Some r \<Rightarrow>
          (let current = or_default now wall;
               horizon = RATE_LIMIT_RESET_MAX_HORIZON_SECONDS
                 + (if allow_rounding_slack then RATE_LIMIT_RESET_ROUNDING_TOLERANCE_SECONDS else 0)
           in if r \<le> current \<or> r > current + horizon then None else Some r))"

definition extract_reset_at :: "upstream_error \<Rightarrow> real \<Rightarrow> int option" where
  "extract_reset_at error now =
     (let rounded = (\<lambda>r. if plausible_rate_limit_reset_at now (Some (Py_int \<lceil>r\<rceil>)) (Some now) True \<noteq> None
                         then Some \<lceil>r\<rceil> else None)
      in case plausible_rate_limit_reset_at now (resets_at error) (Some now) False of
           Some r \<Rightarrow> rounded r
         | None \<Rightarrow>
             (case finite_number (resets_in_seconds error) of None \<Rightarrow> None
              | Some reset_in \<Rightarrow>
                  (if reset_in \<le> 0 \<or> reset_in > RATE_LIMIT_RESET_MAX_HORIZON_SECONDS then None
                   else rounded (now + reset_in))))"

definition message_delay :: "upstream_error \<Rightarrow> real option" where
  "message_delay error =
     (case message error of None \<Rightarrow> None | Some m \<Rightarrow> if m = [] then None else parse_retry_after m)"

definition handle_rate_limit :: "real \<Rightarrow> real \<Rightarrow> account_state \<Rightarrow> upstream_error \<Rightarrow> account_state" where
  "handle_rate_limit now u state error =
     (let s = state\<lparr>status := RATE_LIMITED, error_count := error_count state + 1,
                    last_error_at := Some now, blocked_at := Some now\<rparr>;
          delay = or_default (message_delay error) (backoff_seconds u (error_count s));
          persisted_delay = (if message_delay error = None
                             then max delay RATE_LIMITED_MIN_COOLDOWN_SECONDS else delay);
          s' = s\<lparr>cooldown_until := Some (now + delay)\<rparr>
      in case extract_reset_at error now of
           Some r \<Rightarrow> s'\<lparr>reset_at := Some (of_int r)\<rparr>
         | None \<Rightarrow> s'\<lparr>reset_at := Some (of_int \<lceil>now + persisted_delay\<rceil>)\<rparr>)"

definition handle_quota_exceeded :: "real \<Rightarrow> account_state \<Rightarrow> upstream_error \<Rightarrow> account_state" where
  "handle_quota_exceeded now state error =
     (let s = state\<lparr>status := QUOTA_EXCEEDED, used_percent := Some 100, blocked_at := Some now,
                    cooldown_until := Some (now + QUOTA_EXCEEDED_COOLDOWN_SECONDS)\<rparr>
      in case extract_reset_at error now of
           Some r \<Rightarrow> s\<lparr>reset_at := Some (of_int r)\<rparr>
         | None \<Rightarrow> s\<lparr>reset_at := Some (of_int (py_int (now + 3600)))\<rparr>)"

definition account_status_for_permanent_failure :: "string \<Rightarrow> account_status" where
  "account_status_for_permanent_failure error_code =
     (if error_code \<in> set REAUTH_REQUIRED_FAILURE_CODES then REAUTH_REQUIRED else DEACTIVATED)"

definition handle_permanent_failure :: "account_state \<Rightarrow> string \<Rightarrow> account_state" where
  "handle_permanent_failure state error_code =
     state\<lparr>status := account_status_for_permanent_failure error_code,
           deactivation_reason :=
             Some (or_default (map_of PERMANENT_FAILURE_CODES error_code)
                     (''Authentication failed: '' @ error_code)),
           blocked_at := None\<rparr>"

datatype failure_class = Rate_limit | Quota | Retryable_transient | Non_retryable

datatype failover_action = Failover_next | Surface

definition failover_decision :: "failure_class \<Rightarrow> bool \<Rightarrow> int \<Rightarrow> failover_action" where
  "failover_decision failure_class downstream_visible candidates_remaining =
     (if downstream_visible then Surface
      else if candidates_remaining \<le> 0 then Surface
      else if failure_class \<in> {Rate_limit, Quota, Retryable_transient} then Failover_next
      else Surface)"

record health_thresholds =
  drain_primary_threshold_pct :: real
  drain_secondary_threshold_pct :: real
  drain_error_window_seconds :: real
  drain_error_count_threshold :: int
  probe_quiet_seconds :: real
  probe_success_streak_required :: int

definition default_thresholds :: health_thresholds where
  "default_thresholds =
     \<lparr>drain_primary_threshold_pct = 85, drain_secondary_threshold_pct = 90,
      drain_error_window_seconds = 60, drain_error_count_threshold = 2,
      probe_quiet_seconds = PROBE_QUIET_SECONDS, probe_success_streak_required = 3\<rparr>"

definition should_drain :: "health_thresholds \<Rightarrow> real \<Rightarrow> account_state \<Rightarrow> bool" where
  "should_drain th current state =
     ((case used_percent state of None \<Rightarrow> False | Some u \<Rightarrow> u \<ge> drain_primary_threshold_pct th)
      \<or> (case secondary_used_percent state of None \<Rightarrow> False
          | Some u \<Rightarrow> u \<ge> drain_secondary_threshold_pct th)
      \<or> (error_count state \<ge> drain_error_count_threshold th
          \<and> (case last_error_at state of None \<Rightarrow> False
              | Some e \<Rightarrow> current - e < drain_error_window_seconds th)))"

definition evaluate_health_tier ::
    "health_thresholds \<Rightarrow> real \<Rightarrow> account_state \<Rightarrow> real option \<Rightarrow> real option \<Rightarrow> int \<Rightarrow> int" where
  "evaluate_health_tier th wall state now drain_entered_at probe_success_streak =
     (let current = (if truthy now then or_default now wall else wall)
      in if status state \<in> {RATE_LIMITED, QUOTA_EXCEEDED, PAUSED, REAUTH_REQUIRED, DEACTIVATED}
         then health_tier state
         else if health_tier state = HEALTH_TIER_HEALTHY
         then (if should_drain th current state then HEALTH_TIER_DRAINING else HEALTH_TIER_HEALTHY)
         else if health_tier state = HEALTH_TIER_DRAINING
         then (if should_drain th current state then HEALTH_TIER_DRAINING
               else case drain_entered_at of
                      Some d \<Rightarrow> (if current - d \<ge> probe_quiet_seconds th then HEALTH_TIER_PROBING
                                 else HEALTH_TIER_DRAINING)
                    | None \<Rightarrow> HEALTH_TIER_DRAINING)
         else if health_tier state = HEALTH_TIER_PROBING
         then (if should_drain th current state then HEALTH_TIER_DRAINING
               else if probe_success_streak \<ge> probe_success_streak_required th
               then HEALTH_TIER_HEALTHY else HEALTH_TIER_PROBING)
         else HEALTH_TIER_HEALTHY)"

section \<open>Which reset times are believed\<close>

lemma plausible_window:
  "plausible_rate_limit_reset_at w x (Some now) slack = Some r \<Longrightarrow>
   now < r \<and> r \<le> now + RATE_LIMIT_RESET_MAX_HORIZON_SECONDS + (if slack then 1 else 0)"
  by (auto simp: plausible_rate_limit_reset_at_def Let_def RATE_LIMIT_RESET_ROUNDING_TOLERANCE_SECONDS_def
      split: option.splits if_splits)

lemma rounded_plausible:
  assumes "now < r" "r \<le> now + RATE_LIMIT_RESET_MAX_HORIZON_SECONDS"
  shows "plausible_rate_limit_reset_at w (Some (Py_int \<lceil>r\<rceil>)) (Some now) True = Some (of_int \<lceil>r\<rceil>)"
proof -
  have "now < of_int \<lceil>r\<rceil>" "of_int \<lceil>r\<rceil> \<le> now + RATE_LIMIT_RESET_MAX_HORIZON_SECONDS + 1"
    using assms by linarith+
  then show ?thesis
    by (simp add: plausible_rate_limit_reset_at_def finite_number_def Let_def
        RATE_LIMIT_RESET_ROUNDING_TOLERANCE_SECONDS_def)
qed

lemma extract_reset_at_cases:
  "extract_reset_at e now =
     (case plausible_rate_limit_reset_at now (resets_at e) (Some now) False of
        Some r \<Rightarrow> Some \<lceil>r\<rceil>
      | None \<Rightarrow>
          (case finite_number (resets_in_seconds e) of
             Some d \<Rightarrow> (if 0 < d \<and> d \<le> RATE_LIMIT_RESET_MAX_HORIZON_SECONDS then Some \<lceil>now + d\<rceil> else None)
           | None \<Rightarrow> None))"
  by (auto simp: extract_reset_at_def Let_def rounded_plausible dest: plausible_window
      split: option.splits)

text \<open>
  A reset time taken from upstream metadata is a whole second strictly after now and at
  most 366 days and one second ahead; in particular infinite, NaN, boolean, past and absurdly
  distant values never become a deadline.
\<close>

theorem extract_reset_at_window:
  assumes "extract_reset_at e now = Some r"
  shows "now < of_int r \<and> of_int r \<le> now + 366 * 86400 + 1"
proof -
  obtain x where "r = \<lceil>x\<rceil>" "now < x" "x \<le> now + RATE_LIMIT_RESET_MAX_HORIZON_SECONDS"
    using assms plausible_window [of now "resets_at e" now False]
    by (force simp: extract_reset_at_cases split: option.splits if_splits)
  then show ?thesis
    by (simp add: RATE_LIMIT_RESET_MAX_HORIZON_SECONDS_def SECONDS_PER_DAY_def) linarith
qed

theorem extract_reset_at_window_witness:
  "extract_reset_at \<lparr>message = None, resets_at = Some Py_nonfinite, resets_in_seconds = Some (Py_float (5 / 2))\<rparr> 1000
     = Some 1003
   \<and> (1000 :: real) < of_int 1003 \<and> real_of_int 1003 \<le> 1000 + 366 * 86400 + 1"
proof -
  have "extract_reset_at \<lparr>message = None, resets_at = Some Py_nonfinite,
      resets_in_seconds = Some (Py_float (5 / 2))\<rparr> 1000 = Some 1003"
    by code_simp
  with extract_reset_at_window [OF this] show ?thesis by blast
qed

section \<open>A blocked account is not selected\<close>

lemma skipped_not_selected:
  assumes "0 \<le> random_draw env" "random_draw env < 1"
    and "distinct (map account_id states)" "x \<in> set states"
    and "snd (admit_state req (current_time env now) x) = Skipped"
    and "out_result (select_account env req now states salts) = Inr r" "account r = Some s"
  shows "account_id s \<noteq> account_id x"
proof -
  obtain ys where ys: "selection_pool req (current_time env now) states = Pool ys" "s \<in> set ys"
    using selected_in_pool [OF assms(1,2,6,7)] by blast
  obtain y where y: "y \<in> set states" "s = fst (admit_state req (current_time env now) y)"
      "snd (admit_state req (current_time env now) y) \<noteq> Skipped"
    using selection_pool_member [OF ys] by blast
  have "x \<noteq> y" using assms(5) y(3) by blast
  then have "account_id x \<noteq> account_id y" using assms(3,4) y(1) by (metis distinct_map inj_on_def)
  then show ?thesis using y(2) by simp
qed

lemma rate_limited_skipped:
  assumes "status s = RATE_LIMITED" "reset_at s = Some d" "t < d" "\<not> bypass_standard_quota req s"
  shows "snd (admit_state req t s) = Skipped"
  using assms by (simp add: admit_state_alt recover_rate_limited_def deadline_passed_def)

lemma quota_exceeded_skipped:
  assumes "status s = QUOTA_EXCEEDED" "reset_at s = Some d" "t < d" "\<not> bypass_standard_quota req s"
  shows "snd (admit_state req t s) = Skipped"
  using assms
  by (simp add: admit_state_alt recover_rate_limited_def recover_quota_exceeded_def deadline_passed_def)

lemma cooling_skipped:
  assumes "cooldown_until s = Some d" "d \<noteq> 0" "t < d"
  shows "snd (admit_state req t s) = Skipped"
proof -
  let ?s = "recover_quota_exceeded t (recover_rate_limited t s)"
  have "\<not> deadline_passed (cooldown_until ?s) t" using assms by (simp add: deadline_passed_def)
  then have "clear_elapsed_cooldown t ?s = ?s" by (rule clear_cooldown_noop)
  then have "snd (admit_settled t (clear_elapsed_cooldown t ?s)) = Skipped"
    using assms by (simp add: admit_settled_def)
  then show ?thesis by (simp add: admit_state_alt Let_def)
qed

lemma handle_rate_limit_fields [frame_simps]:
  "account_id (handle_rate_limit now u s e) = account_id s"
  "status (handle_rate_limit now u s e) = RATE_LIMITED"
  "error_count (handle_rate_limit now u s e) = error_count s + 1"
  "ignore_standard_quota (handle_rate_limit now u s e) = ignore_standard_quota s"
  "cooldown_until (handle_rate_limit now u s e)
     = Some (now + or_default (message_delay e) (backoff_seconds u (error_count s + 1)))"
  by (simp_all add: handle_rate_limit_def Let_def split: option.split)

lemma handle_rate_limit_reset:
  "reset_at (handle_rate_limit now u s e) =
     Some (of_int (case extract_reset_at e now of Some r \<Rightarrow> r
       | None \<Rightarrow> (case message_delay e of Some d \<Rightarrow> \<lceil>now + d\<rceil>
           | None \<Rightarrow> \<lceil>now + max (backoff_seconds u (error_count s + 1)) 30\<rceil>)))"
  by (simp add: handle_rate_limit_def Let_def RATE_LIMITED_MIN_COOLDOWN_SECONDS_def split: option.split)

lemma persisted_delay_ceiling:
  "now + or_default (message_delay e) 30
   \<le> of_int (case message_delay e of Some d \<Rightarrow> \<lceil>now + d\<rceil> | None \<Rightarrow> \<lceil>now + max b 30\<rceil>)"
  using le_of_int_ceiling [of "now + max b 30"]
  by (cases "message_delay e") (simp_all only: option.case or_default_simps le_of_int_ceiling, linarith)

lemma handle_quota_exceeded_fields [frame_simps]:
  "account_id (handle_quota_exceeded now s e) = account_id s"
  "status (handle_quota_exceeded now s e) = QUOTA_EXCEEDED"
  "ignore_standard_quota (handle_quota_exceeded now s e) = ignore_standard_quota s"
  "cooldown_until (handle_quota_exceeded now s e) = Some (now + 120)"
  "reset_at (handle_quota_exceeded now s e) =
     Some (of_int (case extract_reset_at e now of Some r \<Rightarrow> r | None \<Rightarrow> py_int (now + 3600)))"
  by (simp_all add: handle_quota_exceeded_def Let_def QUOTA_EXCEEDED_COOLDOWN_SECONDS_def split: option.split)


definition w_error :: upstream_error where
  "w_error = \<lparr>message = Some ''Rate limit. Try again in 1m30s'', resets_at = None, resets_in_seconds = None\<rparr>"


text \<open>
  An exhausted quota cools the account down unconditionally: for 120 seconds no call
  returns it, even one that bypasses quotas, and a call that does not bypass them returns it
  only after the reset time as well.
\<close>

theorem quota_exceeded_cools_down:
  assumes "0 \<le> random_draw env" "random_draw env < 1" "0 \<le> now"
    and "distinct (map account_id states)" "handle_quota_exceeded now s e \<in> set states"
    and "current_time env clock < now + 120
      \<or> (\<not> bypass_standard_quota req s
         \<and> current_time env clock < or_default (reset_at (handle_quota_exceeded now s e)) 0)"
    and "out_result (select_account env req clock states salts) = Inr r" "account r = Some a"
  shows "account_id a \<noteq> account_id s"
proof -
  let ?x = "handle_quota_exceeded now s e"
  have "bypass_standard_quota req ?x = bypass_standard_quota req s"
    by (rule bypass_cong) (simp_all add: frame_simps)
  then have "snd (admit_state req (current_time env clock) ?x) = Skipped"
    using assms(3,6) cooling_skipped [of ?x "now + 120"] quota_exceeded_skipped [of ?x]
    by (auto simp: handle_quota_exceeded_fields)
  from skipped_not_selected [OF assms(1,2,4,5) this assms(7,8)]
  show ?thesis by (simp add: handle_quota_exceeded_fields)
qed

theorem quota_exceeded_cools_down_witness: "account_id w_b \<noteq> account_id w_a"
  by (rule quota_exceeded_cools_down
        [where env = w_env and req = "w_single\<lparr>bypass_quota_exceeded := True\<rparr>" and clock = "Some 1119"
          and now = 1000 and e = w_error and states = "[handle_quota_exceeded 1000 w_a w_error, w_b]"
          and salts = w_salts and r = "\<lparr>account = Some w_b, error_message = None\<rparr>"])
    code_simp+

text \<open>
  A permanent failure removes the account for good: whatever the time and the request,
  no call returns it, its state is not recovered by the selector, and it asks for
  re-authentication exactly for the codes a new login can repair.
\<close>

theorem permanent_failure_blocks:
  assumes "0 \<le> random_draw env" "random_draw env < 1"
    and "distinct (map account_id states)" "handle_permanent_failure s code \<in> set states"
    and "out_result (select_account env req clock states salts) = Inr r"
  shows "(\<forall>a. account r = Some a \<longrightarrow> account_id a \<noteq> account_id s)
    \<and> handle_permanent_failure s code \<in> set (out_states (select_account env req clock states salts))
    \<and> (status (handle_permanent_failure s code) = REAUTH_REQUIRED
         \<longleftrightarrow> code \<in> set REAUTH_REQUIRED_FAILURE_CODES)"
proof -
  let ?x = "handle_permanent_failure s code"
  have st: "status ?x = account_status_for_permanent_failure code" "account_id ?x = account_id s"
    by (simp_all add: handle_permanent_failure_def)
  have skip: "admit_state req (current_time env clock) ?x = (?x, Skipped)"
    by (simp add: admit_state_alt st account_status_for_permanent_failure_def)
  have "account_id a \<noteq> account_id s" if "account r = Some a" for a
    using skipped_not_selected [OF assms(1-4) _ assms(5) that] skip st(2) by simp
  moreover have "?x \<in> set (out_states (select_account env req clock states salts))"
    unfolding out_states_select using assms(4) skip by (force simp: image_iff)
  moreover have "status ?x = REAUTH_REQUIRED \<longleftrightarrow> code \<in> set REAUTH_REQUIRED_FAILURE_CODES"
    by (simp add: st account_status_for_permanent_failure_def)
  ultimately show ?thesis by blast
qed

theorem permanent_failure_blocks_witness:
  "account_id w_b \<noteq> account_id w_a
   \<and> status (handle_permanent_failure w_a ''invalid_grant'') = REAUTH_REQUIRED"
proof -
  have r: "out_result (select_account w_env w_single (Some 9000)
      [handle_permanent_failure w_a ''invalid_grant'', w_b] w_salts)
      = Inr \<lparr>account = Some w_b, error_message = None\<rparr>"
    by code_simp
  have "0 \<le> random_draw w_env" "random_draw w_env < 1" by code_simp+
  moreover have "distinct (map account_id [handle_permanent_failure w_a ''invalid_grant'', w_b])"
    by code_simp
  moreover have "handle_permanent_failure w_a ''invalid_grant''
      \<in> set [handle_permanent_failure w_a ''invalid_grant'', w_b]"
    by simp
  ultimately have "(\<forall>a. Some w_b = Some a \<longrightarrow> account_id a \<noteq> account_id w_a)
      \<and> (status (handle_permanent_failure w_a ''invalid_grant'') = REAUTH_REQUIRED
         \<longleftrightarrow> ''invalid_grant'' \<in> set REAUTH_REQUIRED_FAILURE_CODES)"
    using permanent_failure_blocks [OF _ _ _ _ r, of w_a "''invalid_grant''"] by simp
  moreover have "''invalid_grant'' \<in> set REAUTH_REQUIRED_FAILURE_CODES" by code_simp
  ultimately show ?thesis by simp
qed

lemma reauth_codes_permanent:
  "set REAUTH_REQUIRED_FAILURE_CODES \<subseteq> fst ` set PERMANENT_FAILURE_CODES"
  by code_simp

section \<open>Health tiers\<close>

text \<open>
  The tier of an active account as a state machine: healthy accounts drain, draining
  accounts are probed after a quiet time, probed accounts drain again or become healthy.
\<close>

inductive tier_step :: "bool \<Rightarrow> int \<Rightarrow> int \<Rightarrow> bool" for drain :: bool where
  stay: "\<not> drain \<Longrightarrow> tier_step drain t t"
| drain: "drain \<Longrightarrow> tier_step drain t HEALTH_TIER_DRAINING"
| probe: "\<not> drain \<Longrightarrow> tier_step drain HEALTH_TIER_DRAINING HEALTH_TIER_PROBING"
| heal: "\<not> drain \<Longrightarrow> tier_step drain HEALTH_TIER_PROBING HEALTH_TIER_HEALTHY"

inductive_cases tier_step_to_healthy: "tier_step d t HEALTH_TIER_HEALTHY"

lemmas tier_values = HEALTH_TIER_HEALTHY_def HEALTH_TIER_DRAINING_def HEALTH_TIER_PROBING_def

definition valid_tier :: "int \<Rightarrow> bool" where
  "valid_tier t = (t \<in> {HEALTH_TIER_HEALTHY, HEALTH_TIER_DRAINING, HEALTH_TIER_PROBING})"



end
