(* ===== verification/Cap_Partition.thy ===== *)
theory Cap_Partition
  imports Prelude
begin

text \<open>
  Cluster-wide caps: \<open>app/modules/proxy/cap_partitioning.py\<close>. Each replica enforces its own
  share of a cap, computed from the number of live replicas and its rank in the sorted
  member list; a membership change that would grow the share is adopted only after it was
  observed without interruption for the stability window. The clock and the settings that
  are read are arguments; metrics and logging are left out.
\<close>

section \<open>Definitions\<close>

definition partition_cap :: "int \<Rightarrow> int \<Rightarrow> int \<Rightarrow> int" where
  "partition_cap cap replica_count rank =
     (if cap \<le> 0 then 0
      else if replica_count \<le> 1 then cap
      else max 1 (cap div replica_count + (if rank < cap mod replica_count then 1 else 0)))"

record cap_partition =
  replica_count :: int
  rank :: int

definition initial_partition :: cap_partition where
  "initial_partition = \<lparr>replica_count = 1, rank = 0\<rparr>"

record cap_partition_holder =
  adopted :: cap_partition
  pending :: "cap_partition option"
  pending_since :: "real option"

definition initial_holder :: cap_partition_holder where
  "initial_holder = \<lparr>adopted = initial_partition, pending = None, pending_since = None\<rparr>"

definition share :: "int \<Rightarrow> cap_partition \<Rightarrow> int" where
  "share cap p = partition_cap cap (replica_count p) (rank p)"

definition clear_pending :: "cap_partition_holder \<Rightarrow> cap_partition_holder" where
  "clear_pending h = h\<lparr>pending := None, pending_since := None\<rparr>"

definition could_grow_share :: "cap_partition_holder \<Rightarrow> cap_partition \<Rightarrow> int list \<Rightarrow> bool" where
  "could_grow_share h observed configured_caps =
     list_ex (\<lambda>cap. share cap observed > share cap (adopted h)) configured_caps"

fun list_index :: "'a list \<Rightarrow> 'a \<Rightarrow> int" where
  "list_index [] x = 0"
| "list_index (y # ys) x = (if y = x then 0 else 1 + list_index ys x)"

definition observed_partition :: "string list \<Rightarrow> string \<Rightarrow> cap_partition" where
  "observed_partition active_instance_ids self_instance_id =
     (let members = sorted_list_of_set (set active_instance_ids \<union> {self_instance_id})
      in \<lparr>replica_count = int (length members), rank = list_index members self_instance_id\<rparr>)"

definition observe_partition ::
    "real \<Rightarrow> cap_partition \<Rightarrow> int list \<Rightarrow> real \<Rightarrow> cap_partition_holder \<Rightarrow> bool \<times> cap_partition_holder" where
  "observe_partition now observed configured_caps scale_down_seconds h =
     (if observed = adopted h then (False, clear_pending h)
      else if \<not> could_grow_share h observed configured_caps
      then (True, clear_pending (h\<lparr>adopted := observed\<rparr>))
      else if Some observed \<noteq> pending h
      then (False, h\<lparr>pending := Some observed, pending_since := Some now\<rparr>)
      else case pending_since h of
             Some since \<Rightarrow>
               (if now - since \<ge> scale_down_seconds then (True, clear_pending (h\<lparr>adopted := observed\<rparr>))
                else (False, h))
           | None \<Rightarrow> (False, h))"

definition observe_members ::
    "real \<Rightarrow> string list \<Rightarrow> string \<Rightarrow> int list \<Rightarrow> real \<Rightarrow> cap_partition_holder \<Rightarrow> bool \<times> cap_partition_holder"
  where
  "observe_members now active_instance_ids self_instance_id configured_caps scale_down_seconds h =
     observe_partition now (observed_partition active_instance_ids self_instance_id)
       configured_caps scale_down_seconds h"

definition note_failed_read :: "cap_partition_holder \<Rightarrow> cap_partition_holder" where
  "note_failed_read h = clear_pending h"

record cap_settings =
  proxy_account_response_create_limit :: "int option"
  proxy_account_stream_limit :: "int option"

text \<open>
  \<open>getattr(settings, name, default)\<close>: an absent settings object and an absent attribute are
  None here, for the dashboard override as well as for the startup default.
\<close>

definition configured_account_concurrency_caps :: "cap_settings option \<Rightarrow> cap_settings \<Rightarrow> int \<times> int" where
  "configured_account_concurrency_caps dashboard startup =
     (let response_override = Option.bind dashboard proxy_account_response_create_limit;
          stream_override = Option.bind dashboard proxy_account_stream_limit;
          startup_response = or_default (proxy_account_response_create_limit startup) 4;
          startup_stream = or_default (proxy_account_stream_limit startup) 8
      in (max 0 (or_default response_override startup_response),
          max 0 (or_default stream_override startup_stream)))"

text \<open>A membership read of one replica: the members it saw, or a failure.\<close>

datatype membership_read = Members "string list" | Read_failed

definition refresh_cap_partition ::
    "real \<Rightarrow> membership_read \<Rightarrow> string \<Rightarrow> cap_settings option \<Rightarrow> cap_settings \<Rightarrow> real
     \<Rightarrow> cap_partition_holder \<Rightarrow> cap_partition_holder" where
  "refresh_cap_partition now read self_instance_id dashboard startup scale_down_seconds h =
     (case read of
        Read_failed \<Rightarrow> note_failed_read h
      | Members ids \<Rightarrow>
          (case configured_account_concurrency_caps dashboard startup of (rc, st) \<Rightarrow>
             snd (observe_members now ids self_instance_id [rc, st] scale_down_seconds h)))"

section \<open>Shares\<close>

lemma partition_cap_pos: "0 < cap \<Longrightarrow> 0 < partition_cap cap r k"
  by (auto simp: partition_cap_def max_def)

lemma partition_cap_unclamped:
  assumes "1 \<le> r" "r \<le> cap" "0 \<le> k" "k < r"
  shows "partition_cap cap r k = cap div r + (if k < cap mod r then 1 else 0)"
proof (cases "r = 1")
  case False
  have "1 \<le> cap div r" using assms zdiv_mono1 [of r cap r] by simp
  then show ?thesis using assms False by (simp add: partition_cap_def)
qed (use assms in \<open>simp add: partition_cap_def\<close>)

lemma partition_cap_closed:
  assumes "0 < cap" "1 \<le> r" "0 \<le> k" "k < r"
  shows "partition_cap cap r k = max 1 ((cap - 1 - k) div r + 1)"
proof (cases "r = 1")
  case False
  define q m where "q = cap div r" and "m = cap mod r"
  have m: "0 \<le> m" "m < r" using assms by (simp_all add: m_def)
  have "cap - 1 - k = (m - 1 - k) + q * r" by (simp add: q_def m_def algebra_simps)
  then have "(cap - 1 - k) div r = (m - 1 - k) div r + q"
    using assms by (simp only: div_mult_self1 [of r])
  moreover have "(m - 1 - k) div r = (if k < m then 0 else - 1)"
    using m assms div_pos_pos_trivial [of "m - 1 - k" r] div_pos_neg_trivial [of "m - 1 - k" r]
    by (auto simp: int_div_neg_eq [where r = "m - 1 - k + r"] intro!: int_div_pos_eq [where r = "m - 1 - k + r"])
  ultimately show ?thesis using assms False by (auto simp: partition_cap_def q_def m_def max_def)
qed (use assms in \<open>simp add: partition_cap_def\<close>)

lemma partition_cap_antimono:
  assumes "1 \<le> r" "r \<le> r'" "0 \<le> k" "k \<le> k'" "k < r" "k' < r'"
  shows "partition_cap cap r' k' \<le> partition_cap cap r k"
proof (cases "0 < cap - k'")
  case True
  have "(cap - 1 - k') div r' \<le> (cap - 1 - k') div r" using True assms by (intro zdiv_mono2) auto
  also have "\<dots> \<le> (cap - 1 - k) div r" using assms by (intro zdiv_mono1) auto
  finally show ?thesis using True assms by (auto simp: partition_cap_closed max_def)
next
  case False
  have "(cap - 1 - k') div r' < 0" using False assms by (simp add: pos_imp_zdiv_neg_iff)
  then have "0 < cap \<Longrightarrow> partition_cap cap r' k' = 1" using assms by (simp add: partition_cap_closed)
  then show ?thesis using partition_cap_pos [of cap r k] by (cases "0 < cap") (auto simp: partition_cap_def)
qed

lemma sum_ranks:
  fixes q m :: int
  shows "0 \<le> m \<Longrightarrow> m \<le> int n \<Longrightarrow> (\<Sum>k<n. q + (if int k < m then 1 else 0)) = q * int n + m"
proof (induction n arbitrary: m)
  case (Suc n)
  show ?case
  proof (cases "m = int (Suc n)")
    case True
    have "(\<Sum>k<n. q + (if int k < m then 1 else 0)) = (\<Sum>k<n. q + (if int k < int n then 1 else 0))"
      by (rule sum.cong) (use True in auto)
    then show ?thesis using Suc.IH [of "int n"] True by (simp add: algebra_simps)
  next
    case False
    then show ?thesis using Suc by (simp add: algebra_simps)
  qed
qed simp

text \<open>
  C24. The shares of a cluster of R replicas add up to exactly the configured cap as soon as
  the cap is at least R: partitioning neither wastes a slot nor lets the cluster exceed the
  cap.
\<close>

theorem partition_shares_sum:
  assumes "1 \<le> r" "int r \<le> cap"
  shows "(\<Sum>k<r. partition_cap cap (int r) (int k)) = cap"
proof -
  have "(\<Sum>k<r. partition_cap cap (int r) (int k))
      = (\<Sum>k<r. cap div int r + (if int k < cap mod int r then 1 else 0))"
    by (rule sum.cong) (use assms in \<open>auto simp: partition_cap_unclamped\<close>)
  also have "\<dots> = cap div int r * int r + cap mod int r"
    by (rule sum_ranks) (use assms in \<open>simp_all add: less_imp_le\<close>)
  also have "\<dots> = cap" by simp
  finally show ?thesis .
qed

theorem partition_shares_sum_witness: "(\<Sum>k<3. partition_cap 8 (int 3) (int k)) = 8"
  by (rule partition_shares_sum) simp_all

section \<open>Membership\<close>

lemma list_index_bounds: "x \<in> set xs \<Longrightarrow> 0 \<le> list_index xs x \<and> list_index xs x < int (length xs)"
  by (induction xs) auto

lemma observed_members:
  obtains members where "observed_partition ids me = \<lparr>replica_count = int (length members), rank = list_index members me\<rparr>"
    "sorted members" "distinct members" "set members = insert me (set ids)"
proof (rule that [of "sorted_list_of_set (set ids \<union> {me})"])
  show "set (sorted_list_of_set (set ids \<union> {me})) = insert me (set ids)"
    by (subst set_sorted_list_of_set) simp_all
qed (simp_all only: observed_partition_def Let_def sorted_sorted_list_of_set distinct_sorted_list_of_set)

lemma observed_partition_valid:
  "0 \<le> rank (observed_partition ids me) \<and> rank (observed_partition ids me) < replica_count (observed_partition ids me)"
  by (rule observed_members [of ids me]) (simp add: list_index_bounds)

lemma list_index_sorted:
  "sorted xs \<Longrightarrow> distinct xs \<Longrightarrow> x \<in> set xs \<Longrightarrow> list_index xs x = int (card {y \<in> set xs. y < x})"
proof (induction xs)
  case (Cons y ys)
  show ?case
  proof (cases "y = x")
    case True
    then have "{z \<in> set (y # ys). z < x} = {}" using Cons.prems by fastforce
    then show ?thesis using True by simp
  next
    case False
    then have "y < x" using Cons.prems by (simp add: order_less_le)
    then have "{z \<in> set (y # ys). z < x} = insert y {z \<in> set ys. z < x}" by auto
    moreover have "y \<notin> {z \<in> set ys. z < x}" using Cons.prems by simp
    ultimately show ?thesis using Cons False by simp
  qed
qed simp

lemma observed_rank:
  "rank (observed_partition ids me) = int (card {y \<in> insert me (set ids). y < me})"
  by (rule observed_members [of ids me]) (simp add: list_index_sorted)

lemma observed_count: "replica_count (observed_partition ids me) = int (card (insert me (set ids)))"
  by (rule observed_members [of ids me]) (metis cap_partition.select_convs(1) distinct_card)

text \<open>
  Two replicas that see the same members hold different ranks, so no share is handed
  out twice.
\<close>

theorem observed_ranks_distinct:
  assumes "a \<in> set ids" "b \<in> set ids" "a \<noteq> b"
  shows "rank (observed_partition ids a) \<noteq> rank (observed_partition ids b)
    \<and> replica_count (observed_partition ids a) = replica_count (observed_partition ids b)"
proof -
  have below: "card {y \<in> set ids. y < c} < card {y \<in> set ids. y < d}" if "c \<in> set ids" "c < d" for c d
    by (rule psubset_card_mono) (use that in auto)
  have "rank (observed_partition ids a) \<noteq> rank (observed_partition ids b)"
    using assms below [of a b] below [of b a] by (cases a b rule: linorder_cases) (auto simp: observed_rank insert_absorb)
  then show ?thesis using assms by (simp add: observed_count insert_absorb)
qed

theorem observed_ranks_distinct_witness:
  "rank (observed_partition [''r2'', ''r1''] ''r1'') \<noteq> rank (observed_partition [''r2'', ''r1''] ''r2'')
   \<and> replica_count (observed_partition [''r2'', ''r1''] ''r1'')
     = replica_count (observed_partition [''r2'', ''r1''] ''r2'')"
  by (rule observed_ranks_distinct) simp_all

section \<open>Hysteresis\<close>

text \<open>What one replica experiences: successful membership reads with the caps in effect, and failures.\<close>

datatype ring_event = Observed (seen_at: real) (seen: cap_partition) (caps_in_effect: "int list") | Failed

definition ring_step :: "real \<Rightarrow> ring_event \<Rightarrow> cap_partition_holder \<Rightarrow> cap_partition_holder" where
  "ring_step window ev h =
     (case ev of Failed \<Rightarrow> note_failed_read h
      | Observed now p cs \<Rightarrow> snd (observe_partition now p cs window h))"

definition ring_run :: "real \<Rightarrow> ring_event list \<Rightarrow> cap_partition_holder" where
  "ring_run window evs = fold (ring_step window) evs initial_holder"

definition held_since :: "cap_partition \<Rightarrow> real \<Rightarrow> ring_event list \<Rightarrow> bool" where
  "held_since p since evs =
     (\<exists>pre cs mid. evs = pre @ Observed since p cs # mid \<and> list_all (\<lambda>e. e \<noteq> Failed \<and> seen e = p) mid)"

definition pending_held :: "cap_partition_holder \<Rightarrow> ring_event list \<Rightarrow> bool" where
  "pending_held h evs =
     ((pending h = None) = (pending_since h = None)
      \<and> (\<forall>p t. pending h = Some p \<and> pending_since h = Some t \<longrightarrow> held_since p t evs))"

lemma held_since_snoc:
  assumes "held_since p t evs"
  shows "held_since p t (evs @ [Observed now p cs])"
proof -
  obtain pre cs' mid where "evs = pre @ Observed t p cs' # mid"
      "list_all (\<lambda>e. e \<noteq> Failed \<and> seen e = p) mid"
    using assms by (auto simp: held_since_def)
  then have "evs @ [Observed now p cs] = pre @ Observed t p cs' # (mid @ [Observed now p cs])
      \<and> list_all (\<lambda>e. e \<noteq> Failed \<and> seen e = p) (mid @ [Observed now p cs])"
    by simp
  then show ?thesis unfolding held_since_def by blast
qed

lemma held_since_here: "held_since p now (evs @ [Observed now p cs])"
  unfolding held_since_def by (intro exI [of _ evs] exI [of _ cs] exI [of _ "[]"]) simp

lemma clear_pending_simps [simp]:
  "pending (clear_pending h) = None" "pending_since (clear_pending h) = None"
  "adopted (clear_pending h) = adopted h"
  by (simp_all add: clear_pending_def)

lemma pending_held_step: "pending_held h evs \<Longrightarrow> pending_held (ring_step w ev h) (evs @ [ev])"
  by (cases ev)
    (auto simp: pending_held_def ring_step_def note_failed_read_def observe_partition_def
      held_since_here intro: held_since_snoc split: option.splits if_splits)

lemma ring_run_snoc [simp]: "ring_run w (evs @ [ev]) = ring_step w ev (ring_run w evs)"
  by (simp add: ring_run_def)

lemma pending_held_run: "pending_held (ring_run w evs) evs"
proof (induction evs rule: rev_induct)
  case Nil
  show ?case by (simp add: ring_run_def pending_held_def initial_holder_def)
next
  case (snoc ev evs)
  then show ?case using pending_held_step by simp
qed

lemma ring_step_grows:
  assumes "share cap (adopted h) < share cap (adopted (ring_step w ev h))"
    and "ev \<noteq> Failed \<Longrightarrow> cap \<in> set (caps_in_effect ev)"
  obtains now p cs since where "ev = Observed now p cs" "pending h = Some p" "pending_since h = Some since"
    "adopted (ring_step w ev h) = p" "w \<le> now - since"
  using assms
  by (cases ev)
    (auto simp: ring_step_def note_failed_read_def observe_partition_def could_grow_share_def list_ex_iff
      split: option.splits if_splits)

text \<open>
  A replica's share of a configured cap grows only onto a partition that every membership
  read since some moment has shown, without a failed read in between, and that moment is at
  least the stability window in the past. This holds for every history of reads.
\<close>

theorem share_grows_only_when_stable:
  assumes "share cap (adopted (ring_run window evs)) < share cap (adopted (ring_run window (evs @ [ev])))"
    and "ev \<noteq> Failed \<longrightarrow> cap \<in> set (caps_in_effect ev)"
  shows "\<exists>since now cs. ev = Observed now (adopted (ring_run window (evs @ [ev]))) cs
    \<and> held_since (adopted (ring_run window (evs @ [ev]))) since evs \<and> window \<le> now - since"
proof -
  obtain now p cs since where *: "ev = Observed now p cs" "pending (ring_run window evs) = Some p"
      "pending_since (ring_run window evs) = Some since"
      "adopted (ring_run window (evs @ [ev])) = p" "window \<le> now - since"
    by (rule ring_step_grows [of cap "ring_run window evs" window ev]) (use assms in auto)
  then have "held_since p since evs" using pending_held_run [of window evs] by (auto simp: pending_held_def)
  with * show ?thesis by auto
qed

definition w_ring :: "ring_event list" where
  "w_ring = [Observed 0 \<lparr>replica_count = 2, rank = 0\<rparr> [8], Observed 10 \<lparr>replica_count = 1, rank = 0\<rparr> [8]]"

theorem share_grows_only_when_stable_witness:
  "\<exists>since now cs. Observed 70 \<lparr>replica_count = 1, rank = 0\<rparr> [8]
      = Observed now (adopted (ring_run 60 (w_ring @ [Observed 70 \<lparr>replica_count = 1, rank = 0\<rparr> [8]]))) cs
    \<and> held_since (adopted (ring_run 60 (w_ring @ [Observed 70 \<lparr>replica_count = 1, rank = 0\<rparr> [8]]))) since w_ring
    \<and> 60 \<le> now - since"
  by (rule share_grows_only_when_stable [where cap = 8]; code_simp)

end
