(* ===== verification/Runs.thy ===== *)
theory Runs
  imports Prelude
begin

text \<open>
  Interfaces the stateful components share. A component is a state with guarded steps; a run
  is a list of events each of whose guards holds when it is taken. The locales state the
  contract a component gives (its steps keep an invariant, its steps keep a resource within a
  limit, its steps never move a measure back) and prove the consequence for whole runs once;
  every component interprets the ones it satisfies on its own operations.
\<close>

fun valid_run :: "('e \<Rightarrow> 's \<Rightarrow> bool) \<Rightarrow> ('e \<Rightarrow> 's \<Rightarrow> 's) \<Rightarrow> 'e list \<Rightarrow> 's \<Rightarrow> bool" where
  "valid_run ok step [] s = True"
| "valid_run ok step (e # es) s = (ok e s \<and> valid_run ok step es (step e s))"

lemma valid_run_append:
  "valid_run ok step (xs @ ys) s \<longleftrightarrow> valid_run ok step xs s \<and> valid_run ok step ys (fold step xs s)"
  by (induction xs arbitrary: s) auto

locale event_system =
  fixes inv :: "'s \<Rightarrow> bool" and ok :: "'e \<Rightarrow> 's \<Rightarrow> bool" and step :: "'e \<Rightarrow> 's \<Rightarrow> 's"
  assumes step_inv: "inv s \<Longrightarrow> ok e s \<Longrightarrow> inv (step e s)"
begin

lemma run_inv: "inv s \<Longrightarrow> valid_run ok step es s \<Longrightarrow> inv (fold step es s)"
  by (induction es arbitrary: s) (auto intro: step_inv)

end

locale bounded_resource = event_system +
  fixes in_use :: "'a \<Rightarrow> int" and limit :: int
  assumes step_bound: "inv s \<Longrightarrow> ok e s \<Longrightarrow> in_use s \<le> limit \<Longrightarrow> in_use (step e s) \<le> limit"
begin

lemma run_bound:
  "inv s \<Longrightarrow> in_use s \<le> limit \<Longrightarrow> valid_run ok step es s \<Longrightarrow> in_use (fold step es s) \<le> limit"
  by (induction es arbitrary: s) (auto intro: step_inv step_bound)

lemma run_bound_everywhere:
  assumes "inv s" "in_use s \<le> limit" "valid_run ok step (xs @ ys) s"
  shows "in_use (fold step xs s) \<le> limit"
  using assms by (intro run_bound) (simp_all add: valid_run_append)

end

text \<open>A component whose invariant alone gives the bound.\<close>

locale invariant_bound = event_system +
  fixes in_use :: "'a \<Rightarrow> int" and limit :: int
  assumes inv_bound: "inv s \<Longrightarrow> in_use s \<le> limit"

sublocale invariant_bound \<subseteq> bounded_resource
  by unfold_locales (blast intro: inv_bound step_inv)

locale monotone_measure = event_system +
  fixes measured :: "'a \<Rightarrow> int"
  assumes step_mono: "inv s \<Longrightarrow> ok e s \<Longrightarrow> measured s \<le> measured (step e s)"
begin

lemma run_mono: "inv s \<Longrightarrow> valid_run ok step es s \<Longrightarrow> measured s \<le> measured (fold step es s)"
proof (induction es arbitrary: s)
  case (Cons e es)
  then have "measured s \<le> measured (step e s)" by (intro step_mono) auto
  also have "\<dots> \<le> measured (fold step es (step e s))" using Cons by (intro Cons.IH) (auto intro: step_inv)
  finally show ?case by simp
qed simp

end

text \<open>
  An optimistic-concurrency token: a measure that grows whenever the view it protects changes,
  so that an unchanged token proves an unchanged view.
\<close>

locale change_token = monotone_measure +
  fixes view :: "'a \<Rightarrow> 'v"
  assumes step_view: "inv s \<Longrightarrow> ok e s \<Longrightarrow> measured (step e s) = measured s \<Longrightarrow> view (step e s) = view s"
begin

lemma run_view:
  "inv s \<Longrightarrow> valid_run ok step es s \<Longrightarrow> measured (fold step es s) = measured s \<Longrightarrow> view (fold step es s) = view s"
proof (induction es arbitrary: s)
  case (Cons e es)
  have s1: "inv (step e s)" "valid_run ok step es (step e s)" using Cons.prems by (auto intro: step_inv)
  have "measured s \<le> measured (step e s)" using Cons.prems by (intro step_mono) auto
  moreover have "measured (step e s) \<le> measured (fold step es (step e s))" by (rule run_mono [OF s1])
  ultimately have "measured (step e s) = measured s"
      "measured (fold step es (step e s)) = measured (step e s)"
    using Cons.prems(3) by auto
  then show ?case using Cons.IH [OF s1] step_view [of s e] Cons.prems by simp
qed simp

end

end
