(* ===== verification/Leases.thy ===== *)
theory Leases
  imports Cap_Partition Runs "HOL-Library.AList"
begin

text \<open>
  Account leases of the load balancer: \<open>app/modules/proxy/_load_balancer/types.py\<close> and the
  lease operations of \<open>app/modules/proxy/load_balancer.py\<close>. The runtime table is a Python
  dictionary, an association list here: \<open>AList.update\<close> keeps the position of a key as a
  dictionary assignment does. Every operation runs under \<open>_runtime_lock\<close>, so each is one
  step. Clocks and the fresh \<open>uuid4\<close> identifier are arguments; metrics and logging are left
  out. The fields of \<open>RuntimeState\<close> carry the prefix \<open>rt_\<close>.
\<close>

section \<open>Data\<close>

datatype lease_kind = Response_create | Stream

record account_lease =
  lease_id :: string
  lease_account :: string
  lease_kind :: lease_kind
  acquired_at :: real
  estimated_tokens :: real

type_synonym lease_table = "(string \<times> account_lease) list"

record runtime_state =
  rt_reset_at :: "real option"
  rt_cooldown_until :: "real option"
  rt_last_error_at :: "real option"
  rt_last_selected_at :: "real option"
  rt_error_count :: int
  rt_version :: int
  rt_health_version :: int
  rt_blocked_at :: "real option"
  rt_health_tier :: int
  rt_drain_entered_at :: "real option"
  rt_probe_success_streak :: int
  rt_inflight_response_creates :: int
  rt_inflight_streams :: int
  rt_leased_tokens :: real
  rt_leases :: "lease_table option"

definition new_runtime :: runtime_state where
  "new_runtime =
     \<lparr>rt_reset_at = None, rt_cooldown_until = None, rt_last_error_at = None,
      rt_last_selected_at = None, rt_error_count = 0, rt_version = 0, rt_health_version = 0,
      rt_blocked_at = None, rt_health_tier = 0, rt_drain_entered_at = None,
      rt_probe_success_streak = 0, rt_inflight_response_creates = 0, rt_inflight_streams = 0,
      rt_leased_tokens = 0, rt_leases = None\<rparr>"

type_synonym runtime_table = "(string \<times> runtime_state) list"

record account_concurrency_caps =
  response_create_limit :: int
  stream_limit :: int
  configured_response_create_limit :: "int option"
  configured_stream_limit :: "int option"
  caps_replica_count :: int

record lease_settings =
  proxy_account_lease_ttl_seconds :: "real option"
  proxy_request_budget_seconds :: "real option"
  http_responses_stream_request_budget_seconds :: "real option"
  http_responses_session_bridge_request_budget_seconds :: "real option"

section \<open>Caps and time to live\<close>

definition effective_account_concurrency_caps ::
    "cap_settings option \<Rightarrow> cap_settings \<Rightarrow> string \<Rightarrow> cap_partition \<Rightarrow> account_concurrency_caps" where
  "effective_account_concurrency_caps dashboard startup scope part =
     (case configured_account_concurrency_caps dashboard startup of (rc, st) \<Rightarrow>
        if scope = ''replica'' \<or> replica_count part \<le> 1
        then \<lparr>response_create_limit = rc, stream_limit = st, configured_response_create_limit = None,
              configured_stream_limit = None, caps_replica_count = 1\<rparr>
        else \<lparr>response_create_limit = partition_cap rc (replica_count part) (rank part),
              stream_limit = partition_cap st (replica_count part) (rank part),
              configured_response_create_limit = Some rc, configured_stream_limit = Some st,
              caps_replica_count = replica_count part\<rparr>)"

definition ACCOUNT_STREAM_LEASE_STALE_GRACE_SECONDS :: real where "ACCOUNT_STREAM_LEASE_STALE_GRACE_SECONDS = 60"

definition account_lease_stale_ttl_seconds :: "lease_kind \<Rightarrow> lease_settings \<Rightarrow> real" where
  "account_lease_stale_ttl_seconds kind settings =
     (let ttl_seconds = or_default (proxy_account_lease_ttl_seconds settings) 900
      in if kind \<noteq> Stream then ttl_seconds
         else let valid_stream_budget_seconds =
                    max (max (max ttl_seconds
                          (or_default (proxy_request_budget_seconds settings) ttl_seconds))
                          (or_default (http_responses_stream_request_budget_seconds settings) ttl_seconds))
                        (or_default (http_responses_session_bridge_request_budget_seconds settings) ttl_seconds)
              in max ttl_seconds (valid_stream_budget_seconds + ACCOUNT_STREAM_LEASE_STALE_GRACE_SECONDS))"

section \<open>Operations\<close>

definition leases_of :: "runtime_state \<Rightarrow> lease_table" where
  "leases_of rt = or_default (rt_leases rt) []"

definition runtime_setdefault :: "string \<Rightarrow> runtime_table \<Rightarrow> runtime_state \<times> runtime_table" where
  "runtime_setdefault aid m =
     (case map_of m aid of Some rt \<Rightarrow> (rt, m) | None \<Rightarrow> (new_runtime, AList.update aid new_runtime m))"

definition inflight :: "lease_kind \<Rightarrow> runtime_state \<Rightarrow> int" where
  "inflight kind rt =
     (case kind of Response_create \<Rightarrow> rt_inflight_response_creates rt | Stream \<Rightarrow> rt_inflight_streams rt)"

definition add_inflight :: "lease_kind \<Rightarrow> runtime_state \<Rightarrow> runtime_state" where
  "add_inflight kind rt =
     (case kind of
        Response_create \<Rightarrow> rt\<lparr>rt_inflight_response_creates := rt_inflight_response_creates rt + 1\<rparr>
      | Stream \<Rightarrow> rt\<lparr>rt_inflight_streams := rt_inflight_streams rt + 1\<rparr>)"

definition sub_inflight :: "lease_kind \<Rightarrow> runtime_state \<Rightarrow> runtime_state" where
  "sub_inflight kind rt =
     (case kind of
        Response_create \<Rightarrow> rt\<lparr>rt_inflight_response_creates := max 0 (rt_inflight_response_creates rt - 1)\<rparr>
      | Stream \<Rightarrow> rt\<lparr>rt_inflight_streams := max 0 (rt_inflight_streams rt - 1)\<rparr>)"

definition record_lease :: "real \<Rightarrow> bool \<Rightarrow> account_lease \<Rightarrow> runtime_state \<Rightarrow> runtime_state" where
  "record_lease wall record_selection lease rt =
     (let rt1 = rt\<lparr>rt_leases := Some (AList.update (lease_id lease) lease (leases_of rt))\<rparr>;
          rt2 = add_inflight (lease_kind lease) rt1;
          rt3 = rt2\<lparr>rt_leased_tokens := rt_leased_tokens rt2 + estimated_tokens lease\<rparr>
      in if record_selection
         then rt3\<lparr>rt_last_selected_at := Some wall, rt_version := rt_version rt3 + 1\<rparr> else rt3)"

definition acquire_account_lease_locked ::
    "real \<Rightarrow> real \<Rightarrow> string \<Rightarrow> string \<Rightarrow> lease_kind \<Rightarrow> real \<Rightarrow> bool \<Rightarrow> runtime_table
     \<Rightarrow> account_lease \<times> runtime_table" where
  "acquire_account_lease_locked monotonic wall uid aid kind tokens record_selection m =
     (case runtime_setdefault aid m of (rt, m') \<Rightarrow>
        let lease = \<lparr>lease_id = uid, lease_account = aid, lease_kind = kind, acquired_at = monotonic,
                     estimated_tokens = max 0 tokens\<rparr>
        in (lease, AList.update aid (record_lease wall record_selection lease rt) m'))"

definition account_lease_allowed_locked ::
    "string \<Rightarrow> lease_kind \<Rightarrow> account_concurrency_caps \<Rightarrow> int \<Rightarrow> runtime_table \<Rightarrow> bool \<times> runtime_table" where
  "account_lease_allowed_locked aid kind caps stream_reserve_slots m =
     (case runtime_setdefault aid m of (rt, m') \<Rightarrow>
        (case kind of
           Response_create \<Rightarrow>
             (let cap = response_create_limit caps
              in (cap \<le> 0 \<or> rt_inflight_response_creates rt < cap, m'))
         | Stream \<Rightarrow>
             (let cap = stream_limit caps;
                  effective_cap = max 1 (cap - max 0 stream_reserve_slots)
              in (cap \<le> 0 \<or> rt_inflight_streams rt < effective_cap, m'))))"

definition forget_lease :: "string \<Rightarrow> account_lease \<Rightarrow> runtime_state \<Rightarrow> runtime_state" where
  "forget_lease lid current rt =
     (let rt1 = rt\<lparr>rt_leases := Some (AList.delete lid (leases_of rt))\<rparr>;
          rt2 = sub_inflight (lease_kind current) rt1
      in rt2\<lparr>rt_leased_tokens := max 0 (rt_leased_tokens rt2 - estimated_tokens current),
             rt_version := rt_version rt2 + 1\<rparr>)"

definition release_account_lease_locked :: "account_lease \<Rightarrow> runtime_table \<Rightarrow> bool \<times> runtime_table" where
  "release_account_lease_locked lease m =
     (case map_of m (lease_account lease) of None \<Rightarrow> (False, m)
      | Some rt \<Rightarrow>
          (case rt_leases rt of None \<Rightarrow> (False, m)
           | Some leases \<Rightarrow>
               (case map_of leases (lease_id lease) of None \<Rightarrow> (False, m)
                | Some current \<Rightarrow>
                    (True, AList.update (lease_account lease) (forget_lease (lease_id lease) current rt) m))))"

definition release_account_lease :: "account_lease option \<Rightarrow> runtime_table \<Rightarrow> runtime_table" where
  "release_account_lease lease m =
     (case lease of None \<Rightarrow> m | Some l \<Rightarrow> snd (release_account_lease_locked l m))"

definition lease_stale :: "real \<Rightarrow> lease_settings \<Rightarrow> account_lease \<Rightarrow> bool" where
  "lease_stale now settings lease =
     (now - acquired_at lease \<ge> account_lease_stale_ttl_seconds (lease_kind lease) settings)"

definition reclaim_runtime :: "real \<Rightarrow> lease_settings \<Rightarrow> string \<Rightarrow> runtime_table \<Rightarrow> runtime_table" where
  "reclaim_runtime now settings aid m =
     (case map_of m aid of None \<Rightarrow> m
      | Some rt \<Rightarrow>
          fold (\<lambda>l m'. snd (release_account_lease_locked l m'))
            (filter (lease_stale now settings) (map snd (leases_of rt))) m)"

definition reclaim_stale_account_leases_locked ::
    "real \<Rightarrow> lease_settings \<Rightarrow> runtime_table \<Rightarrow> runtime_table" where
  "reclaim_stale_account_leases_locked now settings m =
     fold (reclaim_runtime now settings) (map fst m) m"

definition acquire_account_lease ::
    "lease_settings \<Rightarrow> account_concurrency_caps \<Rightarrow> real \<Rightarrow> real \<Rightarrow> string \<Rightarrow> string \<Rightarrow> lease_kind \<Rightarrow> real
     \<Rightarrow> runtime_table \<Rightarrow> account_lease option \<times> runtime_table" where
  "acquire_account_lease settings caps monotonic wall uid aid kind tokens m =
     (let m1 = reclaim_stale_account_leases_locked monotonic settings m
      in case runtime_setdefault aid m1 of (rt, m2) \<Rightarrow>
           let cap = (case kind of Response_create \<Rightarrow> response_create_limit caps | Stream \<Rightarrow> stream_limit caps)
           in if cap > 0 \<and> inflight kind rt \<ge> cap then (None, m2)
              else case acquire_account_lease_locked monotonic wall uid aid kind tokens True m2 of
                     (lease, m3) \<Rightarrow> (Some lease, m3))"

definition account_pressure_snapshot :: "string \<Rightarrow> runtime_table \<Rightarrow> int \<times> int \<times> real" where
  "account_pressure_snapshot aid m =
     (case map_of m aid of None \<Rightarrow> (0, 0, 0)
      | Some rt \<Rightarrow> (rt_inflight_response_creates rt, rt_inflight_streams rt, rt_leased_tokens rt))"

definition prune_runtime :: "string list \<Rightarrow> runtime_table \<Rightarrow> runtime_table" where
  "prune_runtime account_ids m =
     (let stale_ids = map fst (filter (\<lambda>(aid, rt). aid \<notin> set account_ids \<and> leases_of rt = []) m)
      in fold AList.delete stale_ids m)"

section \<open>Invariant\<close>

definition lease_count :: "lease_kind \<Rightarrow> lease_table \<Rightarrow> int" where
  "lease_count kind ls = int (length (filter (\<lambda>p. lease_kind (snd p) = kind) ls))"

definition token_sum :: "lease_table \<Rightarrow> real" where
  "token_sum ls = sum_list (map (estimated_tokens \<circ> snd) ls)"

definition wf_leases :: "string \<Rightarrow> lease_table \<Rightarrow> bool" where
  "wf_leases aid ls =
     (distinct (map fst ls)
      \<and> list_all (\<lambda>(lid, l). lease_id l = lid \<and> lease_account l = aid \<and> 0 \<le> estimated_tokens l) ls)"

definition wf_runtime :: "string \<Rightarrow> runtime_state \<Rightarrow> bool" where
  "wf_runtime aid rt =
     (wf_leases aid (leases_of rt)
      \<and> rt_inflight_response_creates rt = lease_count Response_create (leases_of rt)
      \<and> rt_inflight_streams rt = lease_count Stream (leases_of rt)
      \<and> rt_leased_tokens rt = token_sum (leases_of rt))"

definition wf_table :: "runtime_table \<Rightarrow> bool" where
  "wf_table m = (distinct (map fst m) \<and> list_all (\<lambda>(aid, rt). wf_runtime aid rt) m)"

lemma lease_count_simps [simp]:
  "lease_count k [] = 0"
  "lease_count k (p # ls) = (if lease_kind (snd p) = k then 1 else 0) + lease_count k ls"
  by (simp_all add: lease_count_def)

lemma lease_count_nonneg [simp]: "0 \<le> lease_count k ls"
  by (simp add: lease_count_def)

lemma token_sum_simps [simp]: "token_sum [] = 0" "token_sum (p # ls) = estimated_tokens (snd p) + token_sum ls"
  by (simp_all add: token_sum_def)

lemma token_sum_nonneg: "wf_leases aid ls \<Longrightarrow> 0 \<le> token_sum ls"
  by (induction ls) (auto simp: wf_leases_def)

lemma lease_table_update:
  "lid \<notin> fst ` set ls \<Longrightarrow> lease_count k (AList.update lid l ls) = lease_count k ls + (if lease_kind l = k then 1 else 0)"
  "lid \<notin> fst ` set ls \<Longrightarrow> token_sum (AList.update lid l ls) = token_sum ls + estimated_tokens l"
  by (induction ls) auto

lemma lease_table_delete:
  assumes "distinct (map fst ls)" "map_of ls lid = Some l"
  shows "lease_count k (AList.delete lid ls) = lease_count k ls - (if lease_kind l = k then 1 else 0)"
    and "token_sum (AList.delete lid ls) = token_sum ls - estimated_tokens l"
  using assms by (induction ls) (auto simp: image_iff split: if_splits)

lemma wf_leases_update:
  assumes "wf_leases aid ls" "lease_account l = aid" "0 \<le> estimated_tokens l"
  shows "wf_leases aid (AList.update (lease_id l) l ls)"
proof -
  have "list_all (\<lambda>(lid, l). lease_id l = lid \<and> lease_account l = aid \<and> 0 \<le> estimated_tokens l)
      (AList.update (lease_id l) l ls)"
    using assms by (induction ls) (auto simp: wf_leases_def)
  then show ?thesis using assms(1) by (simp add: wf_leases_def distinct_update)
qed

lemma wf_leases_delete: "wf_leases aid ls \<Longrightarrow> wf_leases aid (AList.delete lid ls)"
  by (auto simp: wf_leases_def list_all_iff AList.delete_eq distinct_map_filter)

lemma wf_leases_lookup:
  "wf_leases aid ls \<Longrightarrow> map_of ls lid = Some l \<Longrightarrow>
   lease_id l = lid \<and> lease_account l = aid \<and> 0 \<le> estimated_tokens l"
  by (auto simp: wf_leases_def list_all_iff dest!: map_of_SomeD)

lemma leases_of_record [simp]:
  "leases_of (record_lease w b l rt) = AList.update (lease_id l) l (leases_of rt)"
  by (cases "lease_kind l") (simp_all add: record_lease_def leases_of_def add_inflight_def Let_def)

lemma leases_of_forget [simp]: "leases_of (forget_lease lid l rt) = AList.delete lid (leases_of rt)"
  by (cases "lease_kind l") (simp_all add: forget_lease_def leases_of_def sub_inflight_def Let_def)

lemma record_lease_wf:
  assumes "wf_runtime aid rt" "lease_account l = aid" "0 \<le> estimated_tokens l"
    and "lease_id l \<notin> fst ` set (leases_of rt)"
  shows "wf_runtime aid (record_lease w b l rt)"
  using assms
  by (cases "lease_kind l")
    (simp_all add: wf_runtime_def wf_leases_update lease_table_update record_lease_def add_inflight_def Let_def leases_of_def)

lemma lease_count_pos:
  "map_of ls lid = Some l \<Longrightarrow> lease_kind l = k \<Longrightarrow> 0 < lease_count k ls"
  by (induction ls) (auto split: if_splits intro: add_pos_nonneg)

lemma token_sum_ge: "wf_leases aid ls \<Longrightarrow> map_of ls lid = Some l \<Longrightarrow> estimated_tokens l \<le> token_sum ls"
  using token_sum_nonneg [OF wf_leases_delete, of aid ls lid] lease_table_delete(2) [of ls lid l]
  by (simp add: wf_leases_def)

lemma forget_lease_wf:
  assumes "wf_runtime aid rt" "map_of (leases_of rt) lid = Some l"
  shows "wf_runtime aid (forget_lease lid l rt)"
proof -
  have ls: "wf_leases aid (leases_of rt)" and d: "distinct (map fst (leases_of rt))"
    using assms(1) by (simp_all add: wf_runtime_def wf_leases_def)
  have "0 < lease_count (lease_kind l) (leases_of rt)" using lease_count_pos assms(2) by blast
  moreover have "estimated_tokens l \<le> token_sum (leases_of rt)" by (rule token_sum_ge [OF ls assms(2)])
  ultimately show ?thesis
    using assms ls lease_table_delete [OF d assms(2)] wf_leases_delete [OF ls]
    by (cases "lease_kind l") (simp_all add: wf_runtime_def forget_lease_def sub_inflight_def Let_def leases_of_def)
qed

lemma new_runtime_wf [simp]: "wf_runtime aid new_runtime" "leases_of new_runtime = []"
  by (simp_all add: wf_runtime_def new_runtime_def leases_of_def wf_leases_def)

section \<open>The table\<close>

lemma wf_table_lookup: "wf_table m \<Longrightarrow> map_of m aid = Some rt \<Longrightarrow> wf_runtime aid rt"
  by (auto simp: wf_table_def list_all_iff dest!: map_of_SomeD)

lemma wf_table_update: "wf_table m \<Longrightarrow> wf_runtime aid rt \<Longrightarrow> wf_table (AList.update aid rt m)"
proof -
  assume wf: "wf_table m" "wf_runtime aid rt"
  then have "list_all (\<lambda>(aid, rt). wf_runtime aid rt) (AList.update aid rt m)"
    by (induction m) (auto simp: wf_table_def)
  then show ?thesis using wf(1) by (simp add: wf_table_def distinct_update)
qed

lemma wf_table_delete: "wf_table m \<Longrightarrow> wf_table (AList.delete aid m)"
  by (auto simp: wf_table_def list_all_iff AList.delete_eq distinct_map_filter)

definition table_leases :: "runtime_table \<Rightarrow> string \<Rightarrow> lease_table" where
  "table_leases m aid = (case map_of m aid of None \<Rightarrow> [] | Some rt \<Rightarrow> leases_of rt)"

lemma setdefault_wf:
  assumes "wf_table m" "runtime_setdefault aid m = (rt, m')"
  shows "wf_table m'" and "map_of m' aid = Some rt" and "wf_runtime aid rt"
    and "table_leases m' = table_leases m" and "leases_of rt = table_leases m aid"
  using assms wf_table_lookup [of m aid] wf_table_update [of m aid new_runtime]
  by (auto simp: runtime_setdefault_def table_leases_def update_conv' split: option.splits)

lemma table_leases_update [simp]:
  "table_leases (AList.update aid rt m) = (table_leases m)(aid := leases_of rt)"
  by (auto simp: table_leases_def update_conv' split: option.splits)

lemma wf_table_leases: "wf_table m \<Longrightarrow> wf_leases aid (table_leases m aid)"
  by (auto simp: table_leases_def wf_leases_def wf_runtime_def dest: wf_table_lookup split: option.splits)

lemma acquire_locked_wf:
  assumes "wf_table m" "uid \<notin> fst ` set (table_leases m aid)"
    and "acquire_account_lease_locked t w uid aid k tok b m = (l, m')"
  shows "wf_table m'"
    and "table_leases m' = (table_leases m)(aid := AList.update uid l (table_leases m aid))"
    and "lease_id l = uid" "lease_account l = aid" "lease_kind l = k" "acquired_at l = t"
proof -
  obtain rt m1 where s: "runtime_setdefault aid m = (rt, m1)" by fastforce
  note d = setdefault_wf [OF assms(1) s]
  have l: "l = \<lparr>lease_id = uid, lease_account = aid, lease_kind = k, acquired_at = t, estimated_tokens = max 0 tok\<rparr>"
    and m': "m' = AList.update aid (record_lease w b l rt) m1"
    using assms(3) by (auto simp: acquire_account_lease_locked_def s Let_def)
  have "wf_runtime aid (record_lease w b l rt)"
    by (rule record_lease_wf [OF d(3)]) (use assms(2) d(5) in \<open>simp_all add: l\<close>)
  then show "wf_table m'" unfolding m' by (rule wf_table_update [OF d(1)])
  show "table_leases m' = (table_leases m)(aid := AList.update uid l (table_leases m aid))"
    using d by (simp add: m' l)
  show "lease_id l = uid" "lease_account l = aid" "lease_kind l = k" "acquired_at l = t" by (simp_all add: l)
qed

lemma pressure_exact:
  assumes "wf_table m"
  shows "account_pressure_snapshot a m = (lease_count Response_create (table_leases m a),
    lease_count Stream (table_leases m a), token_sum (table_leases m a))"
  using wf_table_lookup [OF assms, of a]
  by (cases "map_of m a") (simp_all add: account_pressure_snapshot_def table_leases_def wf_runtime_def)

lemma release_locked_cases:
  "release_account_lease_locked l m =
     (case map_of (table_leases m (lease_account l)) (lease_id l) of None \<Rightarrow> (False, m)
      | Some c \<Rightarrow> (True, AList.update (lease_account l)
          (forget_lease (lease_id l) c (the (map_of m (lease_account l)))) m))"
  by (auto simp: release_account_lease_locked_def table_leases_def leases_of_def split: option.splits)

lemma release_locked_wf:
  assumes "wf_table m"
  shows "wf_table (snd (release_account_lease_locked l m))"
    and "table_leases (snd (release_account_lease_locked l m))
      = (table_leases m)(lease_account l := AList.delete (lease_id l) (table_leases m (lease_account l)))"
proof -
  have none: "AList.delete (lease_id l) (table_leases m (lease_account l)) = table_leases m (lease_account l)"
    if "map_of (table_leases m (lease_account l)) (lease_id l) = None"
    using that by (simp add: map_of_eq_None_iff)
  have some: "\<exists>rt. map_of m (lease_account l) = Some rt \<and> leases_of rt = table_leases m (lease_account l)"
    if "map_of (table_leases m (lease_account l)) (lease_id l) = Some c" for c
    using that by (auto simp: table_leases_def split: option.splits)
  show "wf_table (snd (release_account_lease_locked l m))"
    using assms some wf_table_lookup forget_lease_wf
    by (fastforce simp: release_locked_cases split: option.splits intro: wf_table_update)
  show "table_leases (snd (release_account_lease_locked l m))
      = (table_leases m)(lease_account l := AList.delete (lease_id l) (table_leases m (lease_account l)))"
    using none some by (fastforce simp: release_locked_cases split: option.splits)
qed

section \<open>Reclaiming and pruning\<close>

lemma delete_as_filter: "AList.delete k xs = filter (\<lambda>p. fst p \<noteq> k) xs"
  by (induction xs) auto

lemma fold_release:
  assumes "wf_table m" "\<forall>l \<in> set ls. lease_account l = aid"
  shows "wf_table (fold (\<lambda>l m. snd (release_account_lease_locked l m)) ls m)
    \<and> table_leases (fold (\<lambda>l m. snd (release_account_lease_locked l m)) ls m)
      = (table_leases m)(aid := filter (\<lambda>p. fst p \<notin> lease_id ` set ls) (table_leases m aid))"
  using assms
proof (induction ls arbitrary: m)
  case (Cons l ls)
  let ?m = "snd (release_account_lease_locked l m)"
  have "(table_leases ?m)(aid := filter (\<lambda>p. fst p \<notin> lease_id ` set ls) (table_leases ?m aid))
      = (table_leases m)(aid := filter (\<lambda>p. fst p \<notin> lease_id ` set (l # ls)) (table_leases m aid))"
    using Cons.prems release_locked_wf(2) [OF Cons.prems(1), of l]
    by (simp add: delete_as_filter conj_commute)
  then show ?case using Cons.IH [of ?m] Cons.prems release_locked_wf(1) by simp
qed simp

lemma filter_stale_ids:
  assumes "wf_leases aid ls"
  shows "filter (\<lambda>p. fst p \<notin> lease_id ` set (filter P (map snd ls))) ls = filter (\<lambda>p. \<not> P (snd p)) ls"
proof (rule filter_cong [OF refl])
  fix p assume p: "p \<in> set ls"
  have key: "lease_id (snd q) = fst q" if "q \<in> set ls" for q
    using assms that by (auto simp: wf_leases_def list_all_iff)
  have uniq: "q = p" if "q \<in> set ls" "fst q = fst p" for q
    using assms p that by (auto simp: wf_leases_def distinct_map dest: inj_onD)
  have "fst p \<in> lease_id ` set (filter P (map snd ls)) \<longleftrightarrow> (\<exists>q \<in> set ls. P (snd q) \<and> fst q = fst p)"
    using key by (auto simp: image_iff)
  also have "\<dots> \<longleftrightarrow> P (snd p)" using uniq p by blast
  finally show "(fst p \<notin> lease_id ` set (filter P (map snd ls))) = (\<not> P (snd p))" by simp
qed

lemma reclaim_runtime_spec:
  assumes "wf_table m"
  shows "wf_table (reclaim_runtime now st aid m)"
    and "table_leases (reclaim_runtime now st aid m)
      = (table_leases m)(aid := filter (\<lambda>p. \<not> lease_stale now st (snd p)) (table_leases m aid))"
proof -
  let ?ls = "filter (lease_stale now st) (map snd (table_leases m aid))"
  have wf: "wf_leases aid (table_leases m aid)" by (rule wf_table_leases [OF assms])
  have acc: "\<forall>l \<in> set ?ls. lease_account l = aid" using wf by (auto simp: wf_leases_def list_all_iff)
  have "reclaim_runtime now st aid m = fold (\<lambda>l m. snd (release_account_lease_locked l m)) ?ls m"
    by (simp add: reclaim_runtime_def table_leases_def split: option.split)
  then show "wf_table (reclaim_runtime now st aid m)"
    and "table_leases (reclaim_runtime now st aid m)
      = (table_leases m)(aid := filter (\<lambda>p. \<not> lease_stale now st (snd p)) (table_leases m aid))"
    using fold_release [OF assms acc] filter_stale_ids [OF wf, of "lease_stale now st"] by simp_all
qed

lemma reclaim_fold_spec:
  assumes "wf_table m"
  shows "wf_table (fold (reclaim_runtime now st) ks m)
    \<and> table_leases (fold (reclaim_runtime now st) ks m)
      = (\<lambda>a. if a \<in> set ks then filter (\<lambda>p. \<not> lease_stale now st (snd p)) (table_leases m a)
             else table_leases m a)"
  using assms
proof (induction ks arbitrary: m)
  case (Cons k ks)
  show ?case
    using Cons.IH [OF reclaim_runtime_spec(1) [OF Cons.prems]] reclaim_runtime_spec(2) [OF Cons.prems]
    by (auto simp: fun_eq_iff)
qed simp

lemma reclaim_spec:
  assumes "wf_table m"
  shows "wf_table (reclaim_stale_account_leases_locked now st m)"
    and "table_leases (reclaim_stale_account_leases_locked now st m)
      = (\<lambda>a. filter (\<lambda>p. \<not> lease_stale now st (snd p)) (table_leases m a))"
proof -
  have "table_leases m a = []" if "a \<notin> set (map fst m)" for a
    using that by (simp add: table_leases_def map_of_eq_None_iff [THEN iffD2])
  then show "wf_table (reclaim_stale_account_leases_locked now st m)"
    and "table_leases (reclaim_stale_account_leases_locked now st m)
      = (\<lambda>a. filter (\<lambda>p. \<not> lease_stale now st (snd p)) (table_leases m a))"
    using reclaim_fold_spec [OF assms, of now st "map fst m"]
    unfolding reclaim_stale_account_leases_locked_def by (simp_all add: fun_eq_iff)
qed

lemma fold_delete_spec:
  assumes "wf_table m" "\<forall>k \<in> set ks. table_leases m k = []"
  shows "wf_table (fold AList.delete ks m) \<and> table_leases (fold AList.delete ks m) = table_leases m"
  using assms
proof (induction ks arbitrary: m)
  case (Cons k ks)
  have same: "table_leases (AList.delete k m) = table_leases m"
    using Cons.prems(2) by (auto simp: fun_eq_iff table_leases_def delete_conv')
  show ?case using Cons.IH [of "AList.delete k m"] Cons.prems wf_table_delete same by simp
qed simp

lemma prune_spec:
  assumes "wf_table m"
  shows "wf_table (prune_runtime ids m)" and "table_leases (prune_runtime ids m) = table_leases m"
proof -
  have "table_leases m k = []" if "(k, rt) \<in> set m" "leases_of rt = []" for k rt
    using assms that by (simp add: table_leases_def wf_table_def)
  then show "wf_table (prune_runtime ids m)" and "table_leases (prune_runtime ids m) = table_leases m"
    using fold_delete_spec [OF assms, of "map fst (filter (\<lambda>(aid, rt). aid \<notin> set ids \<and> leases_of rt = []) m)"]
    by (auto simp: prune_runtime_def Let_def)
qed

section \<open>Runs of lease operations\<close>

text \<open>
  The operations as one event system. \<open>Select_lease\<close> is the end of a selection: the check of
  \<open>_account_lease_allowed_locked\<close>, then the acquisition, under the same lock. The identifier of
  a new lease is fresh, as \<open>uuid4\<close> promises.
\<close>

datatype lease_event =
  Acquire real real string string lease_kind real
| Select_lease real real string string lease_kind real bool int
| Release "account_lease option"
| Reclaim real
| Prune "string list"

definition select_lease ::
    "account_concurrency_caps \<Rightarrow> real \<Rightarrow> real \<Rightarrow> string \<Rightarrow> string \<Rightarrow> lease_kind \<Rightarrow> real \<Rightarrow> bool \<Rightarrow> int
     \<Rightarrow> runtime_table \<Rightarrow> account_lease option \<times> runtime_table" where
  "select_lease caps monotonic wall uid aid kind tokens record_selection reserve m =
     (case account_lease_allowed_locked aid kind caps reserve m of (allowed, m1) \<Rightarrow>
        if \<not> allowed then (None, m1)
        else case acquire_account_lease_locked monotonic wall uid aid kind tokens record_selection m1 of
               (lease, m2) \<Rightarrow> (Some lease, m2))"

definition lease_step ::
    "lease_settings \<Rightarrow> account_concurrency_caps \<Rightarrow> lease_event \<Rightarrow> runtime_table \<Rightarrow> runtime_table" where
  "lease_step settings caps ev m =
     (case ev of
        Acquire t w uid aid kind tokens \<Rightarrow> snd (acquire_account_lease settings caps t w uid aid kind tokens m)
      | Select_lease t w uid aid kind tokens b reserve \<Rightarrow> snd (select_lease caps t w uid aid kind tokens b reserve m)
      | Release lease \<Rightarrow> release_account_lease lease m
      | Reclaim t \<Rightarrow> reclaim_stale_account_leases_locked t settings m
      | Prune ids \<Rightarrow> prune_runtime ids m)"

definition lease_ok :: "lease_event \<Rightarrow> runtime_table \<Rightarrow> bool" where
  "lease_ok ev m =
     (case ev of
        Acquire t w uid aid kind tokens \<Rightarrow> uid \<notin> fst ` set (table_leases m aid)
      | Select_lease t w uid aid kind tokens b reserve \<Rightarrow> uid \<notin> fst ` set (table_leases m aid)
      | _ \<Rightarrow> True)"

definition cap_of :: "account_concurrency_caps \<Rightarrow> lease_kind \<Rightarrow> int" where
  "cap_of caps kind = (case kind of Response_create \<Rightarrow> response_create_limit caps | Stream \<Rightarrow> stream_limit caps)"

definition capped_use :: "account_concurrency_caps \<Rightarrow> lease_kind \<Rightarrow> string \<Rightarrow> runtime_table \<Rightarrow> int" where
  "capped_use caps kind aid m =
     (if cap_of caps kind \<le> 0 then 0 else lease_count kind (table_leases m aid))"

lemma inflight_count: "wf_runtime aid rt \<Longrightarrow> inflight k rt = lease_count k (leases_of rt)"
  by (cases k) (simp_all add: inflight_def wf_runtime_def)

lemma lease_count_filter_le: "lease_count k (filter P ls) \<le> lease_count k ls"
  by (induction ls) auto

lemma count_after_acquire:
  assumes "uid \<notin> fst ` set ls"
  shows "lease_count k (AList.update uid l ls) = lease_count k ls + (if lease_kind l = k then 1 else 0)"
  using lease_table_update(1) [OF assms] .

lemma capped_use_le:
  "capped_use caps k a m \<le> max 0 (cap_of caps k)
   \<longleftrightarrow> (0 < cap_of caps k \<longrightarrow> lease_count k (table_leases m a) \<le> cap_of caps k)"
  by (auto simp: capped_use_def)

lemma acquire_account_lease_spec:
  assumes "wf_table m" "uid \<notin> fst ` set (table_leases m aid)"
  shows "wf_table (snd (acquire_account_lease st caps t w uid aid k tok m))"
    and "capped_use caps k' a m \<le> max 0 (cap_of caps k') \<Longrightarrow>
      capped_use caps k' a (snd (acquire_account_lease st caps t w uid aid k tok m)) \<le> max 0 (cap_of caps k')"
proof -
  let ?m1 = "reclaim_stale_account_leases_locked t st m"
  note r = reclaim_spec [OF assms(1), of t st]
  obtain rt m2 where s: "runtime_setdefault aid ?m1 = (rt, m2)" by fastforce
  note d = setdefault_wf [OF r(1) s]
  obtain l m3 where a: "acquire_account_lease_locked t w uid aid k tok True m2 = (l, m3)" by fastforce
  have fresh: "uid \<notin> fst ` set (table_leases m2 aid)" using assms(2) d(4) r(2) by auto
  note q = acquire_locked_wf [OF d(1) fresh a]
  have rt: "inflight k rt = lease_count k (table_leases m2 aid)"
    using inflight_count [OF d(3)] d(4,5) by simp
  have out: "snd (acquire_account_lease st caps t w uid aid k tok m)
      = (if cap_of caps k > 0 \<and> inflight k rt \<ge> cap_of caps k then m2 else m3)"
    by (simp add: acquire_account_lease_def Let_def s a cap_of_def split: lease_kind.split)
  show "wf_table (snd (acquire_account_lease st caps t w uid aid k tok m))"
    unfolding out using d(1) q(1) by simp
  have le: "lease_count k' (table_leases m2 a) \<le> lease_count k' (table_leases m a)"
    using d(4) r(2) lease_count_filter_le by simp
  assume "capped_use caps k' a m \<le> max 0 (cap_of caps k')"
  then show "capped_use caps k' a (snd (acquire_account_lease st caps t w uid aid k tok m))
      \<le> max 0 (cap_of caps k')"
    unfolding out capped_use_le using le q(2,5) rt count_after_acquire [OF fresh, of k' l] by auto
qed

lemma lease_allowed_below_cap:
  assumes "runtime_setdefault aid m = (rt, m1)"
  obtains ok where "account_lease_allowed_locked aid k caps res m = (ok, m1)"
    "ok \<Longrightarrow> cap_of caps k \<le> 0 \<or> inflight k rt < cap_of caps k"
proof -
  have "fst (account_lease_allowed_locked aid k caps res m) \<Longrightarrow> cap_of caps k \<le> 0 \<or> inflight k rt < cap_of caps k"
    and "snd (account_lease_allowed_locked aid k caps res m) = m1"
    using assms
    by (cases k; auto simp: account_lease_allowed_locked_def Let_def cap_of_def inflight_def max_def split: if_splits)+
  then show ?thesis using that by (metis prod.collapse)
qed

lemma select_lease_spec:
  assumes "wf_table m" "uid \<notin> fst ` set (table_leases m aid)"
  shows "wf_table (snd (select_lease caps t w uid aid k tok b res m))"
    and "capped_use caps k' a m \<le> max 0 (cap_of caps k') \<Longrightarrow>
      capped_use caps k' a (snd (select_lease caps t w uid aid k tok b res m)) \<le> max 0 (cap_of caps k')"
proof -
  obtain rt m1 where s: "runtime_setdefault aid m = (rt, m1)" by fastforce
  note d = setdefault_wf [OF assms(1) s]
  obtain ok where al: "account_lease_allowed_locked aid k caps res m = (ok, m1)"
      "ok \<Longrightarrow> cap_of caps k \<le> 0 \<or> inflight k rt < cap_of caps k"
    by (rule lease_allowed_below_cap [OF s, where k = k and caps = caps and res = res]) blast
  obtain l m2 where a: "acquire_account_lease_locked t w uid aid k tok b m1 = (l, m2)" by fastforce
  have fresh: "uid \<notin> fst ` set (table_leases m1 aid)" using assms(2) d(4) by simp
  note q = acquire_locked_wf [OF d(1) fresh a]
  have out: "snd (select_lease caps t w uid aid k tok b res m) = (if ok then m2 else m1)"
    by (simp add: select_lease_def al(1) a)
  have rt: "inflight k rt = lease_count k (table_leases m aid)" using inflight_count [OF d(3)] d(5) by simp
  show "wf_table (snd (select_lease caps t w uid aid k tok b res m))"
    unfolding out using d(1) q(1) by simp
  assume "capped_use caps k' a m \<le> max 0 (cap_of caps k')"
  then show "capped_use caps k' a (snd (select_lease caps t w uid aid k tok b res m)) \<le> max 0 (cap_of caps k')"
    unfolding out capped_use_le using al(2) q(2,5) rt d(4) count_after_acquire [OF fresh, of k' l] by auto
qed

lemma release_spec:
  assumes "wf_table m"
  shows "wf_table (release_account_lease l m)"
    and "lease_count k (table_leases (release_account_lease l m) a) \<le> lease_count k (table_leases m a)"
  using assms release_locked_wf [OF assms] lease_count_filter_le
  by (auto simp: release_account_lease_def delete_as_filter split: option.split)

lemma lease_step_wf: "wf_table m \<Longrightarrow> lease_ok ev m \<Longrightarrow> wf_table (lease_step st caps ev m)"
  by (cases ev) (simp_all add: lease_step_def lease_ok_def acquire_account_lease_spec select_lease_spec
      release_spec reclaim_spec prune_spec)

lemma lease_step_capped:
  assumes "wf_table m" "lease_ok ev m" "capped_use caps k a m \<le> max 0 (cap_of caps k)"
  shows "capped_use caps k a (lease_step st caps ev m) \<le> max 0 (cap_of caps k)"
proof (cases ev)
  case (Release l)
  then show ?thesis using assms(3) release_spec(2) [OF assms(1), of k l a]
    unfolding capped_use_le by (auto simp: lease_step_def)
next
  case (Reclaim t)
  then show ?thesis using assms(3) unfolding capped_use_le
    by (auto simp: lease_step_def reclaim_spec(2) [OF assms(1)] intro: order_trans [OF lease_count_filter_le])
next
  case (Prune ids)
  then show ?thesis using assms(3) unfolding capped_use_le
    by (simp add: lease_step_def prune_spec(2) [OF assms(1)])
qed (use assms in \<open>simp_all add: lease_step_def lease_ok_def acquire_account_lease_spec select_lease_spec\<close>)

interpretation leases: bounded_resource wf_table lease_ok "lease_step st caps" "capped_use caps kind aid"
    "max 0 (cap_of caps kind)"
  for st caps kind aid
  by unfold_locales (fact lease_step_wf, fact lease_step_capped)

lemma wf_empty [simp]: "wf_table []" "table_leases [] a = []"
  by (simp_all add: wf_table_def table_leases_def)

text \<open>
  C3. In every history of acquisitions, releases, reclaims and prunes the pressure counters
  of an account are exact: the in-flight numbers are the numbers of its live leases of each
  kind and the leased tokens are their sum, so no slot leaks and none is freed twice.
\<close>

theorem lease_counters_exact:
  assumes "valid_run lease_ok (lease_step st caps) evs []"
  shows "account_pressure_snapshot aid (fold (lease_step st caps) evs [])
    = (let ls = table_leases (fold (lease_step st caps) evs []) aid
       in (lease_count Response_create ls, lease_count Stream ls, token_sum ls))"
proof -
  have "wf_table (fold (lease_step st caps) evs [])" by (rule leases.run_inv [OF wf_empty(1) assms])
  then show ?thesis by (simp add: pressure_exact Let_def)
qed

definition w_caps :: account_concurrency_caps where
  "w_caps = \<lparr>response_create_limit = 1, stream_limit = 2, configured_response_create_limit = None,
     configured_stream_limit = None, caps_replica_count = 1\<rparr>"

definition w_lease_settings :: lease_settings where
  "w_lease_settings = \<lparr>proxy_account_lease_ttl_seconds = None, proxy_request_budget_seconds = None,
     http_responses_stream_request_budget_seconds = None,
     http_responses_session_bridge_request_budget_seconds = None\<rparr>"

definition w_leases :: "lease_event list" where
  "w_leases = [Acquire 0 0 ''l1'' ''a'' Stream 10, Select_lease 1 1 ''l2'' ''a'' Stream 5 True 0,
     Acquire 2 2 ''l3'' ''a'' Stream 7, Acquire 3 3 ''l4'' ''a'' Response_create 1]"

theorem lease_counters_exact_witness:
  "account_pressure_snapshot ''a'' (fold (lease_step w_lease_settings w_caps) w_leases []) = (1, 2, 16)
   \<and> account_pressure_snapshot ''a'' (fold (lease_step w_lease_settings w_caps) w_leases [])
    = (let ls = table_leases (fold (lease_step w_lease_settings w_caps) w_leases []) ''a''
       in (lease_count Response_create ls, lease_count Stream ls, token_sum ls))"
  by (rule conjI, code_simp) (rule lease_counters_exact, code_simp)

text \<open>
  C5. A positive cap is never exceeded: at every moment of every history the number of live
  leases of a kind on an account is at most the cap of that kind.
\<close>

theorem lease_caps_hold:
  assumes "valid_run lease_ok (lease_step st caps) (xs @ ys) []" "0 < cap_of caps kind"
  shows "lease_count kind (table_leases (fold (lease_step st caps) xs []) aid) \<le> cap_of caps kind"
  using leases.run_bound_everywhere [OF wf_empty(1) _ assms(1), of kind aid] assms(2)
  by (simp add: capped_use_def)

theorem lease_caps_hold_witness:
  "lease_count Stream (table_leases (fold (lease_step w_lease_settings w_caps) w_leases []) ''a'') \<le> 2"
proof -
  have "valid_run lease_ok (lease_step w_lease_settings w_caps) (w_leases @ []) []" by code_simp
  moreover have "0 < cap_of w_caps Stream" "cap_of w_caps Stream = 2" by code_simp+
  ultimately show ?thesis using lease_caps_hold by metis
qed

text \<open>
  A lease is released exactly once: after an acquisition the release succeeds and
  restores the pressure of every account, and a second release of the same lease changes
  nothing.
\<close>

theorem lease_release_once:
  assumes "wf_table m" "uid \<notin> fst ` set (table_leases m aid)"
    and "acquire_account_lease_locked t w uid aid k tok b m = (l, m1)"
  shows "fst (release_account_lease_locked l m1)
    \<and> account_pressure_snapshot a (snd (release_account_lease_locked l m1)) = account_pressure_snapshot a m
    \<and> release_account_lease_locked l (snd (release_account_lease_locked l m1))
      = (False, snd (release_account_lease_locked l m1))"
proof -
  note q = acquire_locked_wf [OF assms]
  note r = release_locked_wf [OF q(1), of l]
  have del: "AList.delete uid (AList.update uid l (table_leases m aid)) = table_leases m aid"
    using assms(2) by (simp add: delete_update_same)
  have "table_leases (snd (release_account_lease_locked l m1)) = table_leases m"
    using r(2) q(2-4) del by auto
  then have "account_pressure_snapshot a (snd (release_account_lease_locked l m1)) = account_pressure_snapshot a m"
      "map_of (table_leases (snd (release_account_lease_locked l m1)) aid) uid = None"
    using assms(1,2) r(1) by (simp_all add: pressure_exact map_of_eq_None_iff)
  moreover have "fst (release_account_lease_locked l m1)"
    using q by (simp add: release_locked_cases update_conv' split: option.split)
  ultimately show ?thesis
    by (simp add: release_locked_cases [of l "snd (release_account_lease_locked l m1)"] q(3,4))
qed

definition w_lease :: account_lease where
  "w_lease = \<lparr>lease_id = ''l1'', lease_account = ''a'', lease_kind = Stream, acquired_at = 0, estimated_tokens = 10\<rparr>"

theorem lease_release_once_witness:
  "\<exists>m1. acquire_account_lease_locked 0 0 ''l1'' ''a'' Stream 10 True [] = (w_lease, m1)
    \<and> fst (release_account_lease_locked w_lease m1)
    \<and> account_pressure_snapshot ''a'' (snd (release_account_lease_locked w_lease m1)) = (0, 0, 0)"
proof -
  obtain m1 where a: "acquire_account_lease_locked 0 0 ''l1'' ''a'' Stream 10 True [] = (w_lease, m1)"
    by (simp add: acquire_account_lease_locked_def runtime_setdefault_def w_lease_def Let_def)
  from lease_release_once [OF _ _ a, of "''a''"]
  show ?thesis using a by (auto simp: account_pressure_snapshot_def)
qed

text \<open>
  Reclaiming is exact: it removes the leases whose age has reached the time to live of
  their kind and no other lease, on every account.
\<close>

theorem reclaim_exact:
  assumes "wf_table m"
  shows "table_leases (reclaim_stale_account_leases_locked now st m) aid
    = filter (\<lambda>p. now - acquired_at (snd p) < account_lease_stale_ttl_seconds (lease_kind (snd p)) st)
        (table_leases m aid)"
  using reclaim_spec(2) [OF assms] by (simp add: lease_stale_def not_le)

theorem reclaim_exact_witness:
  "table_leases (reclaim_stale_account_leases_locked 960 w_lease_settings
      (fold (lease_step w_lease_settings w_caps) w_leases [])) ''a''
   = filter (\<lambda>p. 960 - acquired_at (snd p)
        < account_lease_stale_ttl_seconds (lease_kind (snd p)) w_lease_settings)
      (table_leases (fold (lease_step w_lease_settings w_caps) w_leases []) ''a'')"
  by (rule reclaim_exact) code_simp

end
