(* ===== verification/Circuit_Breaker.thy ===== *)
theory Circuit_Breaker
  imports Runs "HOL-Library.AList"
begin

text \<open>
  The circuit breaker of \<open>app/core/resilience/circuit_breaker.py\<close>. Every method body that
  holds the breaker's lock is one step; the steps of concurrent calls interleave freely.
  \<open>time.monotonic()\<close> is an argument. A call is admitted by \<open>pre_call_check\<close>, runs, records
  its outcome and, if it was the half-open probe, releases the probe.
\<close>

section \<open>Definitions\<close>

datatype circuit_state = CLOSED | OPEN | HALF_OPEN

record circuit_breaker =
  cb_state :: circuit_state
  failure_count :: int
  success_count :: int
  last_failure_time :: "real option"
  half_open_probe_in_flight :: bool
  failure_threshold :: int
  recovery_timeout_seconds :: int
  success_threshold :: int

definition new_breaker :: "int \<Rightarrow> int \<Rightarrow> int \<Rightarrow> circuit_breaker" where
  "new_breaker failures timeout successes =
     \<lparr>cb_state = CLOSED, failure_count = 0, success_count = 0, last_failure_time = None,
      half_open_probe_in_flight = False, failure_threshold = failures,
      recovery_timeout_seconds = timeout, success_threshold = successes\<rparr>"

definition state_at :: "real \<Rightarrow> circuit_breaker \<Rightarrow> circuit_state" where
  "state_at now cb =
     (if cb_state cb = OPEN
         \<and> (case last_failure_time cb of None \<Rightarrow> False
             | Some t \<Rightarrow> now - t \<ge> of_int (recovery_timeout_seconds cb))
      then HALF_OPEN else cb_state cb)"

datatype admission = Open_error | Half_open_error | Admitted_probe | Admitted

definition pre_call_check :: "real \<Rightarrow> circuit_breaker \<Rightarrow> admission \<times> circuit_breaker" where
  "pre_call_check now cb =
     (case state_at now cb of
        OPEN \<Rightarrow> (Open_error, cb)
      | HALF_OPEN \<Rightarrow>
          (if half_open_probe_in_flight cb then (Half_open_error, cb)
           else (Admitted_probe, cb\<lparr>half_open_probe_in_flight := True\<rparr>))
      | CLOSED \<Rightarrow> (Admitted, cb))"

definition release_half_open_probe :: "circuit_breaker \<Rightarrow> circuit_breaker" where
  "release_half_open_probe cb = cb\<lparr>half_open_probe_in_flight := False\<rparr>"

definition record_success :: "real \<Rightarrow> circuit_breaker \<Rightarrow> circuit_breaker" where
  "record_success now cb =
     (if state_at now cb = HALF_OPEN
      then let cb' = cb\<lparr>success_count := success_count cb + 1\<rparr>
           in if success_count cb' \<ge> success_threshold cb'
              then cb'\<lparr>cb_state := CLOSED, failure_count := 0, success_count := 0\<rparr> else cb'
      else if state_at now cb = CLOSED
      then (if failure_count cb > 0 then cb\<lparr>failure_count := 0\<rparr> else cb)
      else cb)"

text \<open>
  The exceptions \<open>_is_server_error\<close> tells apart: aiohttp's response error with its status, a
  timeout, and any other exception with its \<open>status_code\<close> attribute, if it has one.
\<close>

datatype call_exception = Client_response_error int | Timeout_error | Other_exception "int option"

definition is_server_error :: "call_exception \<Rightarrow> bool" where
  "is_server_error exc =
     (case exc of Client_response_error status \<Rightarrow> status \<ge> 500
      | Timeout_error \<Rightarrow> True
      | Other_exception (Some status_code) \<Rightarrow> status_code \<ge> 500
      | Other_exception None \<Rightarrow> True)"

definition record_failure :: "real \<Rightarrow> call_exception \<Rightarrow> circuit_breaker \<Rightarrow> circuit_breaker" where
  "record_failure now exc cb =
     (if \<not> is_server_error exc then cb
      else let cb' = cb\<lparr>failure_count := failure_count cb + 1, last_failure_time := Some now,
                        success_count := 0\<rparr>
           in if failure_count cb' \<ge> failure_threshold cb' then cb'\<lparr>cb_state := OPEN\<rparr> else cb')"

datatype 'a call_result = Refused_call admission | Result 'a | Failed_call call_exception

text \<open>One whole call, with nothing interleaved: it starts at \<open>now\<close> and its awaitable ends at \<open>later\<close>.\<close>

definition call :: "real \<Rightarrow> real \<Rightarrow> call_exception + 'a \<Rightarrow> circuit_breaker \<Rightarrow> 'a call_result \<times> circuit_breaker"
  where
  "call now later outcome cb =
     (case pre_call_check now cb of (adm, cb1) \<Rightarrow>
        if adm \<in> {Open_error, Half_open_error} then (Refused_call adm, cb1)
        else let recorded = (case outcome of
                   Inr r \<Rightarrow> (Result r, record_success later cb1)
                 | Inl exc \<Rightarrow> (Failed_call exc, record_failure later exc cb1))
             in if adm = Admitted_probe then (fst recorded, release_half_open_probe (snd recorded))
                else recorded)"

definition FAILURE_THRESHOLD :: int where "FAILURE_THRESHOLD = 5"
definition RECOVERY_TIMEOUT_SECONDS :: int where "RECOVERY_TIMEOUT_SECONDS = 60"

type_synonym breaker_table = "(string \<times> circuit_breaker) list"

definition get_circuit_breaker_for_account ::
    "string \<Rightarrow> bool \<Rightarrow> breaker_table \<Rightarrow> circuit_breaker option \<times> breaker_table" where
  "get_circuit_breaker_for_account aid enabled tab =
     (if \<not> enabled then (None, tab)
      else case map_of tab aid of
             Some cb \<Rightarrow> (Some cb, tab)
           | None \<Rightarrow>
               (let cb = new_breaker FAILURE_THRESHOLD RECOVERY_TIMEOUT_SECONDS 2
                in (Some cb, AList.update aid cb tab)))"

definition get_circuit_breaker ::
    "bool option \<Rightarrow> circuit_breaker option \<Rightarrow> circuit_breaker option \<times> circuit_breaker option" where
  "get_circuit_breaker settings_enabled breaker =
     (case settings_enabled of
        None \<Rightarrow> (breaker, breaker)
      | Some enabled \<Rightarrow>
          (let b = (if enabled \<and> breaker = None
                    then Some (new_breaker FAILURE_THRESHOLD RECOVERY_TIMEOUT_SECONDS 2) else breaker)
           in (if enabled then b else None, b)))"

definition are_all_account_circuit_breakers_open :: "real \<Rightarrow> breaker_table \<Rightarrow> bool" where
  "are_all_account_circuit_breakers_open now tab =
     (tab \<noteq> [] \<and> list_all (\<lambda>(aid, cb). state_at now cb = OPEN) tab)"

section \<open>Interleaved calls\<close>

text \<open>
  The breaker with the number of probe calls that were admitted and have not yet released.
  A release is only made by such a call (the \<open>finally\<close> of \<open>call\<close>).
\<close>

record breaker_system =
  breaker :: circuit_breaker
  probes :: int

datatype breaker_event = Check real | Success real | Failure real call_exception | Release_probe

definition breaker_step :: "breaker_event \<Rightarrow> breaker_system \<Rightarrow> breaker_system" where
  "breaker_step ev s =
     (case ev of
        Check now \<Rightarrow>
          (case pre_call_check now (breaker s) of (adm, cb) \<Rightarrow>
             s\<lparr>breaker := cb, probes := probes s + (if adm = Admitted_probe then 1 else 0)\<rparr>)
      | Success now \<Rightarrow> s\<lparr>breaker := record_success now (breaker s)\<rparr>
      | Failure now exc \<Rightarrow> s\<lparr>breaker := record_failure now exc (breaker s)\<rparr>
      | Release_probe \<Rightarrow> s\<lparr>breaker := release_half_open_probe (breaker s), probes := probes s - 1\<rparr>)"

definition breaker_ok :: "breaker_event \<Rightarrow> breaker_system \<Rightarrow> bool" where
  "breaker_ok ev s = (ev = Release_probe \<longrightarrow> 0 < probes s)"

definition breaker_inv :: "breaker_system \<Rightarrow> bool" where
  "breaker_inv s =
     (let cb = breaker s
      in probes s = (if half_open_probe_in_flight cb then 1 else 0)
         \<and> 0 \<le> failure_count cb \<and> cb_state cb \<noteq> HALF_OPEN
         \<and> (cb_state cb = OPEN \<longrightarrow> failure_count cb \<ge> failure_threshold cb \<and> last_failure_time cb \<noteq> None)
         \<and> (cb_state cb = CLOSED \<longrightarrow> success_count cb = 0))"

lemma record_failure_fields [simp]:
  "half_open_probe_in_flight (record_failure t e cb) = half_open_probe_in_flight cb"
  "failure_threshold (record_failure t e cb) = failure_threshold cb"
  "recovery_timeout_seconds (record_failure t e cb) = recovery_timeout_seconds cb"
  "success_threshold (record_failure t e cb) = success_threshold cb"
  by (simp_all add: record_failure_def Let_def)

lemma record_success_fields [simp]:
  "half_open_probe_in_flight (record_success t cb) = half_open_probe_in_flight cb"
  "failure_threshold (record_success t cb) = failure_threshold cb"
  "recovery_timeout_seconds (record_success t cb) = recovery_timeout_seconds cb"
  "success_threshold (record_success t cb) = success_threshold cb"
  by (simp_all add: record_success_def Let_def)

lemma breaker_step_inv: "breaker_inv s \<Longrightarrow> breaker_ok ev s \<Longrightarrow> breaker_inv (breaker_step ev s)"
  by (cases ev)
    (auto simp: breaker_inv_def breaker_step_def breaker_ok_def pre_call_check_def state_at_def
      record_success_def record_failure_def release_half_open_probe_def Let_def
      split: circuit_state.splits option.splits if_splits)

interpretation breaker: invariant_bound breaker_inv breaker_ok breaker_step probes 1
  by unfold_locales (fact breaker_step_inv, simp add: breaker_inv_def Let_def)

definition new_system :: "int \<Rightarrow> int \<Rightarrow> int \<Rightarrow> breaker_system" where
  "new_system failures timeout successes = \<lparr>breaker = new_breaker failures timeout successes, probes = 0\<rparr>"

lemma new_system_inv [simp]: "breaker_inv (new_system f t s)" "probes (new_system f t s) = 0"
  by (simp_all add: new_system_def new_breaker_def breaker_inv_def)

text \<open>
  C23. However concurrent calls interleave, at most one half-open probe is in flight.
\<close>

theorem single_probe:
  assumes "valid_run breaker_ok breaker_step (xs @ ys) (new_system f t n)"
  shows "probes (fold breaker_step xs (new_system f t n)) \<le> 1"
  by (rule breaker.run_bound_everywhere [OF _ _ assms]) simp_all

definition w_breaker :: "breaker_event list" where
  "w_breaker = [Check 0, Failure 1 Timeout_error, Check 100, Check 101]"

theorem single_probe_witness: "probes (fold breaker_step w_breaker (new_system 1 60 2)) \<le> 1
    \<and> probes (fold breaker_step w_breaker (new_system 1 60 2)) = 1"
proof -
  have "valid_run breaker_ok breaker_step (w_breaker @ [Release_probe]) (new_system 1 60 2)" by code_simp
  then have "probes (fold breaker_step w_breaker (new_system 1 60 2)) \<le> 1" by (rule single_probe)
  moreover have "probes (fold breaker_step w_breaker (new_system 1 60 2)) = 1" by code_simp
  ultimately show ?thesis by simp
qed

section \<open>Opening and closing\<close>

lemma breaker_config:
  "failure_threshold (breaker (fold breaker_step evs s)) = failure_threshold (breaker s)
   \<and> recovery_timeout_seconds (breaker (fold breaker_step evs s)) = recovery_timeout_seconds (breaker s)"
proof (induction evs arbitrary: s)
  case (Cons ev evs)
  have "failure_threshold (breaker (breaker_step ev s)) = failure_threshold (breaker s)
      \<and> recovery_timeout_seconds (breaker (breaker_step ev s)) = recovery_timeout_seconds (breaker s)"
    by (cases ev) (auto simp: breaker_step_def pre_call_check_def release_half_open_probe_def
        split: circuit_state.splits)
  then show ?case using Cons by simp
qed simp

lemma server_failure_trips:
  assumes "is_server_error exc" "failure_threshold cb \<le> failure_count cb + 1"
  shows "cb_state (record_failure t exc cb) = OPEN" "last_failure_time (record_failure t exc cb) = Some t"
  using assms by (simp_all add: record_failure_def Let_def)

text \<open>
  Once tripped, a breaker stays shut for the whole recovery timeout after the latest
  server failure, and a server failure while it is half open shuts it again at once: in every
  state a run reaches with the breaker tripped, a server failure at time t makes every check
  before t plus the timeout raise, with the state unchanged.
\<close>

theorem tripped_breaker_rejects:
  assumes "valid_run breaker_ok breaker_step evs (new_system f timeout n)"
    and "cb = breaker (fold breaker_step evs (new_system f timeout n))" "cb_state cb = OPEN"
    and "is_server_error exc" "now - t < of_int timeout"
  shows "pre_call_check now (record_failure t exc cb) = (Open_error, record_failure t exc cb)"
proof -
  have "breaker_inv (fold breaker_step evs (new_system f timeout n))"
    by (rule breaker.run_inv [OF _ assms(1)]) simp
  then have "failure_threshold cb \<le> failure_count cb" using assms(2,3) by (simp add: breaker_inv_def Let_def)
  then have "cb_state (record_failure t exc cb) = OPEN" "last_failure_time (record_failure t exc cb) = Some t"
    using server_failure_trips [OF assms(4)] by simp_all
  moreover have "recovery_timeout_seconds cb = timeout"
    using breaker_config [of evs "new_system f timeout n"] assms(2) by (simp add: new_system_def new_breaker_def)
  ultimately have "state_at now (record_failure t exc cb) = OPEN"
    using assms(5) by (simp add: state_at_def)
  then show ?thesis by (simp add: pre_call_check_def)
qed

theorem tripped_breaker_rejects_witness:
  "fst (pre_call_check 150 (record_failure 102 Timeout_error
      (breaker (fold breaker_step w_breaker (new_system 1 60 2))))) = Open_error"
proof -
  have "valid_run breaker_ok breaker_step w_breaker (new_system 1 60 2)"
      "cb_state (breaker (fold breaker_step w_breaker (new_system 1 60 2))) = OPEN"
      "is_server_error Timeout_error" "(150 :: real) - 102 < of_int 60"
    by code_simp+
  from tripped_breaker_rejects [OF this(1) refl this(2-4)] show ?thesis by simp
qed

definition server_errors :: "(real \<times> call_exception) list \<Rightarrow> int" where
  "server_errors fs = int (length (filter (\<lambda>(t, e). is_server_error e) fs))"

lemma failures_counted:
  assumes "cb_state cb = (if failure_threshold cb \<le> failure_count cb then OPEN else CLOSED)"
  shows "let cb' = fold (\<lambda>(t, e). record_failure t e) fs cb
    in failure_count cb' = failure_count cb + server_errors fs \<and> failure_threshold cb' = failure_threshold cb
       \<and> cb_state cb' = (if failure_threshold cb \<le> failure_count cb' then OPEN else CLOSED)"
  using assms
proof (induction fs arbitrary: cb)
  case (Cons p fs)
  obtain t e where p: "p = (t, e)" by fastforce
  let ?cb = "record_failure t e cb"
  have "cb_state ?cb = (if failure_threshold ?cb \<le> failure_count ?cb then OPEN else CLOSED)"
      "failure_count ?cb = failure_count cb + server_errors [p]"
    using Cons.prems by (auto simp: record_failure_def Let_def server_errors_def p)
  then show ?case using Cons.IH [of ?cb] by (simp add: p Let_def server_errors_def)
qed (simp add: server_errors_def)

text \<open>
  A fresh breaker trips after exactly its threshold of consecutive server errors:
  client errors (a 4xx status) never count.
\<close>

theorem trips_at_threshold:
  assumes "1 \<le> failures"
  shows "cb_state (fold (\<lambda>(t, e). record_failure t e) fs (new_breaker failures timeout n)) = OPEN
    \<longleftrightarrow> failures \<le> server_errors fs"
  using failures_counted [of "new_breaker failures timeout n" fs] assms
  by (simp add: new_breaker_def Let_def)

theorem trips_at_threshold_witness:
  "cb_state (fold (\<lambda>(t, e). record_failure t e) [(0, Timeout_error), (1, Other_exception (Some 503))]
     (new_breaker 2 60 2)) = OPEN
   \<longleftrightarrow> 2 \<le> server_errors [(0, Timeout_error), (1, Other_exception (Some 503))]"
  by (rule trips_at_threshold) simp

lemma successes_counted:
  assumes "cb_state cb = OPEN" "last_failure_time cb = Some t0" "success_count cb < success_threshold cb"
    and "\<forall>t \<in> set ts. of_int (recovery_timeout_seconds cb) \<le> t - t0"
  shows "cb_state (fold record_success ts cb) = (if success_count cb + int (length ts) \<ge> success_threshold cb
      then CLOSED else OPEN)"
  using assms
proof (induction ts arbitrary: cb)
  case (Cons t ts)
  have half: "state_at t cb = HALF_OPEN" using Cons.prems by (simp add: state_at_def)
  have closed: "cb_state (fold record_success us c) = CLOSED" if "cb_state c = CLOSED" for us c
    using that by (induction us arbitrary: c) (auto simp: record_success_def state_at_def Let_def)
  show ?case
  proof (cases "success_count cb + 1 \<ge> success_threshold cb")
    case True
    then have "cb_state (record_success t cb) = CLOSED" using half by (simp add: record_success_def)
    then show ?thesis using closed True by simp
  next
    case False
    then have "record_success t cb = cb\<lparr>success_count := success_count cb + 1\<rparr>"
      using half by (simp add: record_success_def)
    then show ?thesis using Cons.IH [of "cb\<lparr>success_count := success_count cb + 1\<rparr>"] Cons.prems False
      by (simp add: algebra_simps)
  qed
qed (simp add: state_at_def)

text \<open>
  A tripped breaker recovers: after the timeout, its threshold of successes without a
  server failure in between closes it, and fewer do not.
\<close>

theorem recovers_after_successes:
  assumes "cb = record_failure t0 exc (new_breaker 1 timeout n)" "is_server_error exc" "1 \<le> n"
    and "\<forall>t \<in> set ts. t0 + of_int timeout \<le> t"
  shows "cb_state (fold record_success ts cb) = CLOSED \<longleftrightarrow> n \<le> int (length ts)"
proof -
  have cb: "cb_state cb = OPEN" "last_failure_time cb = Some t0" "success_count cb = 0"
      "success_threshold cb = n" "recovery_timeout_seconds cb = timeout"
    using assms(1,2) by (simp_all add: record_failure_def new_breaker_def Let_def)
  have "cb_state (fold record_success ts cb) = (if success_count cb + int (length ts) \<ge> success_threshold cb
      then CLOSED else OPEN)"
    by (rule successes_counted [OF cb(1,2)]) (use assms(3,4) in \<open>auto simp: cb algebra_simps\<close>)
  then show ?thesis by (simp add: cb)
qed

theorem recovers_after_successes_witness:
  "cb_state (fold record_success [60, 61] (record_failure 0 Timeout_error (new_breaker 1 60 2))) = CLOSED
   \<longleftrightarrow> 2 \<le> int (length [60, 61 :: real])"
  by (rule recovers_after_successes [OF refl]) (simp_all add: is_server_error_def)

end
