(* ===== verification/TTL_Caches.thy ===== *)
theory TTL_Caches
  imports Prelude "HOL-Library.AList"
begin

text \<open>
  The three in-process caches that must not serve a value read before an invalidation:
  \<open>app/core/auth/api_key_cache.py\<close>, \<open>app/core/middleware/firewall_cache.py\<close> and
  \<open>app/core/upstream_proxy/cache.py\<close>. Each keeps a version (a generation) that an
  invalidation advances; a reader captures the version before it reads the database and hands
  it back with the value. The contract the three share is the locale \<open>versioned_cache\<close>, whose
  lemma on whole histories each cache inherits by interpretation. \<open>time.monotonic()\<close> is an
  argument, as the time to live that \<open>UpstreamRouteCache\<close> reads from the settings is.
\<close>

section \<open>The contract\<close>

datatype ('k, 'v, 'i) cache_event =
  Store (store_at: real) (store_key: 'k) (store_value: 'v) (store_version: int)
| Invalidate 'i
| Touch real 'k

fun cache_step ::
    "(real \<Rightarrow> 'k \<Rightarrow> 'v \<Rightarrow> int \<Rightarrow> 'c \<Rightarrow> 'c) \<Rightarrow> ('i \<Rightarrow> 'c \<Rightarrow> 'c) \<Rightarrow> (real \<Rightarrow> 'k \<Rightarrow> 'c \<Rightarrow> 'c)
     \<Rightarrow> ('k, 'v, 'i) cache_event \<Rightarrow> 'c \<Rightarrow> 'c" where
  "cache_step store invalidate touch (Store t k x v) c = store t k x v c"
| "cache_step store invalidate touch (Invalidate i) c = invalidate i c"
| "cache_step store invalidate touch (Touch t k) c = touch t k c"

definition is_invalidate :: "('k, 'v, 'i) cache_event \<Rightarrow> bool" where
  "is_invalidate e = (case e of Invalidate i \<Rightarrow> True | _ \<Rightarrow> False)"

definition invalidations :: "('k, 'v, 'i) cache_event list \<Rightarrow> int" where
  "invalidations evs = int (length (filter is_invalidate evs))"

definition quiet :: "('i \<Rightarrow> 'k \<Rightarrow> bool) \<Rightarrow> 'k \<Rightarrow> ('k, 'v, 'i) cache_event list \<Rightarrow> bool" where
  "quiet hits k evs = list_all (\<lambda>e. case e of Invalidate i \<Rightarrow> \<not> hits i k | _ \<Rightarrow> True) evs"

locale versioned_cache =
  fixes empty :: "'c"
    and lookup :: "real \<Rightarrow> 'k \<Rightarrow> 'c \<Rightarrow> 'v option"
    and store :: "real \<Rightarrow> 'k \<Rightarrow> 'v \<Rightarrow> int \<Rightarrow> 'c \<Rightarrow> 'c"
    and invalidate :: "'i \<Rightarrow> 'c \<Rightarrow> 'c"
    and touch :: "real \<Rightarrow> 'k \<Rightarrow> 'c \<Rightarrow> 'c"
    and hits :: "'i \<Rightarrow> 'k \<Rightarrow> bool"
    and version :: "'c \<Rightarrow> int"
    and ttl :: "'c \<Rightarrow> real"
  assumes lookup_empty: "lookup now k empty = None"
    and version_empty: "version empty = 0"
    and lookup_store: "lookup now k' (store t k x v c) = Some y \<Longrightarrow>
      (k' = k \<and> y = x \<and> v = version c \<and> now < t + ttl c) \<or> lookup now k' c = Some y"
    and version_store: "version (store t k x v c) = version c"
    and ttl_store: "ttl (store t k x v c) = ttl c"
    and lookup_invalidate: "lookup now k (invalidate i c) = Some y \<Longrightarrow> \<not> hits i k \<and> lookup now k c = Some y"
    and version_invalidate: "version (invalidate i c) = version c + 1"
    and ttl_invalidate: "ttl (invalidate i c) = ttl c"
    and lookup_touch: "lookup now k (touch t k' c) = Some y \<Longrightarrow> lookup now k c = Some y"
    and version_touch: "version (touch t k c) = version c"
    and ttl_touch: "ttl (touch t k c) = ttl c"
begin

lemma version_run: "version (fold (cache_step store invalidate touch) evs empty) = invalidations evs"
proof (induction evs rule: rev_induct)
  case (snoc e evs)
  then show ?case
    by (cases e) (simp_all add: invalidations_def is_invalidate_def version_store version_invalidate version_touch)
qed (simp add: invalidations_def version_empty)

lemma ttl_run: "ttl (fold (cache_step store invalidate touch) evs empty) = ttl empty"
proof (induction evs rule: rev_induct)
  case (snoc e evs)
  then show ?case by (cases e) (simp_all add: ttl_store ttl_invalidate ttl_touch)
qed simp

text \<open>
  Whatever the history, a value a lookup returns was stored less than the time to live ago by
  a reader that had captured the current version, and no invalidation of its key came later.
\<close>

lemma lookup_fresh:
  assumes "lookup now k (fold (cache_step store invalidate touch) evs empty) = Some x"
  shows "\<exists>pre t post. evs = pre @ Store t k x (invalidations pre) # post \<and> now < t + ttl empty \<and> quiet hits k post"
  using assms
proof (induction evs rule: rev_induct)
  case Nil
  then show ?case by (simp add: lookup_empty)
next
  case (snoc e evs)
  let ?c = "fold (cache_step store invalidate touch) evs empty"
  have later: ?case if old: "lookup now k ?c = Some x" and miss: "\<And>i. e = Invalidate i \<Longrightarrow> \<not> hits i k"
  proof -
    obtain pre t post where h: "evs = pre @ Store t k x (invalidations pre) # post" "now < t + ttl empty" "quiet hits k post"
      using snoc.IH [OF old] by blast
    have "quiet hits k (post @ [e])" using h(3) miss by (auto simp: quiet_def split: cache_event.split)
    then show ?thesis using h(1,2)
      by (intro exI [of _ pre] exI [of _ t] exI [of _ "post @ [e]"]) simp
  qed
  show ?case
  proof (cases e)
    case (Store t k' y v)
    then consider "lookup now k ?c = Some x"
      | "k = k'" "x = y" "v = version ?c" "now < t + ttl empty"
      using lookup_store [of now k t k' y v ?c x] snoc.prems ttl_run [of evs] by auto
    then show ?thesis
    proof cases
      case 2
      then show ?thesis using Store version_run [of evs]
        by (intro exI [of _ evs] exI [of _ t] exI [of _ "[]"]) (simp add: quiet_def)
    qed (use later Store in simp)
  next
    case (Invalidate i)
    then show ?thesis using later lookup_invalidate [of now k i ?c x] snoc.prems by simp
  next
    case (Touch t k')
    then show ?thesis using later lookup_touch [of now k t k' ?c x] snoc.prems by simp
  qed
qed

end

section \<open>API keys\<close>

record 'v cached_api_key =
  key_data :: 'v
  key_expires_at :: real

record 'v api_key_cache =
  key_entries :: "(string \<times> 'v cached_api_key) list"
  key_ttl :: int
  key_max_entries :: int
  key_version :: int

definition new_api_key_cache :: "int \<Rightarrow> int \<Rightarrow> 'v api_key_cache" where
  "new_api_key_cache ttl_seconds max_entries =
     \<lparr>key_entries = [], key_ttl = ttl_seconds, key_max_entries = max_entries, key_version = 0\<rparr>"

definition api_key_get :: "real \<Rightarrow> string \<Rightarrow> 'v api_key_cache \<Rightarrow> 'v option" where
  "api_key_get now key_hash c =
     (case map_of (key_entries c) key_hash of
        Some entry \<Rightarrow> (if now < key_expires_at entry then Some (key_data entry) else None)
      | None \<Rightarrow> None)"

text \<open>With \<open>max_entries = 0\<close> the \<open>min\<close> over the empty dictionary raises; the model returns the error.\<close>

definition api_key_set ::
    "real \<Rightarrow> string \<Rightarrow> 'v \<Rightarrow> int option \<Rightarrow> 'v api_key_cache \<Rightarrow> 'v api_key_cache result" where
  "api_key_set now key_hash data if_version c =
     (if if_version \<noteq> None \<and> if_version \<noteq> Some (key_version c) then Inr c
      else let insert = (\<lambda>es. Inr (c\<lparr>key_entries :=
                 AList.update key_hash \<lparr>key_data = data, key_expires_at = now + of_int (key_ttl c)\<rparr> es\<rparr>))
           in if int (length (key_entries c)) \<ge> key_max_entries c
              then (case min_by (key_expires_at \<circ> snd) (key_entries c) of
                      Inl e \<Rightarrow> Inl e
                    | Inr oldest \<Rightarrow> insert (AList.delete (fst oldest) (key_entries c)))
              else insert (key_entries c))"

definition api_key_invalidate :: "string \<Rightarrow> 'v api_key_cache \<Rightarrow> 'v api_key_cache" where
  "api_key_invalidate key_hash c =
     c\<lparr>key_entries := AList.delete key_hash (key_entries c), key_version := key_version c + 1\<rparr>"

definition api_key_clear :: "'v api_key_cache \<Rightarrow> 'v api_key_cache" where
  "api_key_clear c = c\<lparr>key_entries := [], key_version := key_version c + 1\<rparr>"

section \<open>Firewall decisions\<close>

record firewall_decision =
  decision_allowed :: bool
  decision_expires_at :: real

record firewall_cache =
  firewall_ttl_seconds :: int
  firewall_entries :: "(string \<times> firewall_decision) list"
  firewall_version :: int

definition new_firewall_cache :: "int \<Rightarrow> firewall_cache result" where
  "new_firewall_cache ttl_seconds =
     (if ttl_seconds \<le> 0 then Inl ValueError
      else Inr \<lparr>firewall_ttl_seconds = ttl_seconds, firewall_entries = [], firewall_version = 0\<rparr>)"

definition firewall_is_allowed :: "real \<Rightarrow> string \<Rightarrow> firewall_cache \<Rightarrow> bool option" where
  "firewall_is_allowed now ip c =
     (case map_of (firewall_entries c) ip of None \<Rightarrow> None
      | Some entry \<Rightarrow> if now \<ge> decision_expires_at entry then None else Some (decision_allowed entry))"

definition firewall_set :: "real \<Rightarrow> string \<Rightarrow> bool \<Rightarrow> int option \<Rightarrow> firewall_cache \<Rightarrow> firewall_cache" where
  "firewall_set now ip allowed if_version c =
     (if if_version \<noteq> None \<and> if_version \<noteq> Some (firewall_version c) then c
      else c\<lparr>firewall_entries :=
               AList.update ip
                 \<lparr>decision_allowed = allowed, decision_expires_at = now + of_int (firewall_ttl_seconds c)\<rparr>
                 (firewall_entries c)\<rparr>)"

definition firewall_invalidate_all :: "firewall_cache \<Rightarrow> firewall_cache" where
  "firewall_invalidate_all c = c\<lparr>firewall_entries := [], firewall_version := firewall_version c + 1\<rparr>"

section \<open>Upstream routes\<close>

text \<open>
  The outcome of a route resolution: a route, permitted direct egress (no route, no error) or
  an error with its reason and pool. The route itself is opaque to the cache.
\<close>

record 'r route_outcome =
  outcome_route :: "'r option"
  outcome_error_reason :: "string option"
  outcome_error_pool_id :: "string option"

record 'r cached_route =
  cached_outcome :: "'r route_outcome"
  route_expires_at :: real

record 'r route_cache =
  route_entries :: "(string \<times> 'r cached_route) list"
  route_generation :: int

definition new_route_cache :: "'r route_cache" where
  "new_route_cache = \<lparr>route_entries = [], route_generation = 0\<rparr>"

record route_error =
  route_error_reason :: string
  route_error_account :: "string option"
  route_error_pool :: "string option"

definition route_unwrap :: "string option \<Rightarrow> 'r route_outcome \<Rightarrow> route_error + 'r option" where
  "route_unwrap account_id oc =
     (case outcome_error_reason oc of
        Some reason \<Rightarrow> Inl \<lparr>route_error_reason = reason, route_error_account = account_id,
                           route_error_pool = outcome_error_pool_id oc\<rparr>
      | None \<Rightarrow> Inr (outcome_route oc))"

definition route_get ::
    "real \<Rightarrow> real \<Rightarrow> string \<Rightarrow> 'r route_cache \<Rightarrow> 'r route_outcome option \<times> 'r route_cache" where
  "route_get ttl now account_id c =
     (if ttl \<le> 0 then (None, c)
      else case map_of (route_entries c) account_id of None \<Rightarrow> (None, c)
           | Some entry \<Rightarrow>
               (if now \<ge> route_expires_at entry
                then (None, c\<lparr>route_entries := AList.delete account_id (route_entries c)\<rparr>)
                else (Some (cached_outcome entry), c)))"

definition route_store ::
    "real \<Rightarrow> real \<Rightarrow> string \<Rightarrow> 'r route_outcome \<Rightarrow> int \<Rightarrow> 'r route_cache \<Rightarrow> 'r route_cache" where
  "route_store ttl now account_id oc generation c =
     (if ttl \<le> 0 then c
      else if generation \<noteq> route_generation c then c
      else c\<lparr>route_entries :=
               AList.update account_id \<lparr>cached_outcome = oc, route_expires_at = now + ttl\<rparr> (route_entries c)\<rparr>)"

definition store_route ::
    "real \<Rightarrow> real \<Rightarrow> string \<Rightarrow> 'r option \<Rightarrow> int \<Rightarrow> 'r route_cache \<Rightarrow> 'r route_cache" where
  "store_route ttl now account_id route generation =
     route_store ttl now account_id
       \<lparr>outcome_route = route, outcome_error_reason = None, outcome_error_pool_id = None\<rparr> generation"

definition store_error ::
    "real \<Rightarrow> real \<Rightarrow> string \<Rightarrow> route_error \<Rightarrow> int \<Rightarrow> 'r route_cache \<Rightarrow> 'r route_cache" where
  "store_error ttl now account_id err generation =
     route_store ttl now account_id
       \<lparr>outcome_route = None, outcome_error_reason = Some (route_error_reason err),
        outcome_error_pool_id = route_error_pool err\<rparr> generation"

definition route_clear :: "'r route_cache \<Rightarrow> 'r route_cache" where
  "route_clear c = c\<lparr>route_generation := route_generation c + 1, route_entries := []\<rparr>"

section \<open>The caches keep the contract\<close>

datatype key_scope = One_key string | All_keys

definition key_store :: "real \<Rightarrow> string \<Rightarrow> 'v \<Rightarrow> int \<Rightarrow> 'v api_key_cache \<Rightarrow> 'v api_key_cache" where
  "key_store now k x v c = (case api_key_set now k x (Some v) c of Inl e \<Rightarrow> c | Inr c' \<Rightarrow> c')"

definition key_drop :: "key_scope \<Rightarrow> 'v api_key_cache \<Rightarrow> 'v api_key_cache" where
  "key_drop s c = (case s of One_key k \<Rightarrow> api_key_invalidate k c | All_keys \<Rightarrow> api_key_clear c)"

definition key_hit :: "key_scope \<Rightarrow> string \<Rightarrow> bool" where
  "key_hit s k = (case s of One_key k' \<Rightarrow> k' = k | All_keys \<Rightarrow> True)"

lemma map_of_delete_eq: "map_of (AList.delete k xs) k' = (if k = k' then None else map_of xs k')"
  by (simp add: delete_conv')

lemma key_store_cases:
  "key_store t k x v c = c
   \<or> v = key_version c \<and> (\<exists>es. (es = key_entries c \<or> (\<exists>k'. es = AList.delete k' (key_entries c)))
       \<and> key_store t k x v c = c\<lparr>key_entries :=
            AList.update k \<lparr>key_data = x, key_expires_at = t + of_int (key_ttl c)\<rparr> es\<rparr>)"
  by (auto simp: key_store_def api_key_set_def Let_def split: sum.split)

lemma key_get_delete: "api_key_get now k (c\<lparr>key_entries := AList.delete k' es\<rparr>) = Some y \<Longrightarrow>
    k \<noteq> k' \<and> api_key_get now k (c\<lparr>key_entries := es\<rparr>) = Some y"
  by (auto simp: api_key_get_def map_of_delete_eq split: option.splits if_splits)

lemma key_lookup_store:
  assumes "api_key_get now k' (key_store t k x v c) = Some y"
  shows "(k' = k \<and> y = x \<and> v = key_version c \<and> now < t + of_int (key_ttl c)) \<or> api_key_get now k' c = Some y"
  using key_store_cases [of t k x v c]
proof (elim disjE conjE exE)
  assume "key_store t k x v c = c"
  then show ?thesis using assms by simp
qed (use assms in \<open>auto simp: api_key_get_def update_conv' map_of_delete_eq split: option.splits if_splits\<close>)

lemma key_store_frame: "key_version (key_store t k x v c) = key_version c" "key_ttl (key_store t k x v c) = key_ttl c"
  using key_store_cases [of t k x v c] by auto

interpretation api_keys: versioned_cache "new_api_key_cache ttl n" api_key_get key_store key_drop "\<lambda>t k c. c"
    key_hit key_version "\<lambda>c. of_int (key_ttl c)"
  for ttl n
  by unfold_locales
    (erule key_lookup_store
      | simp add: key_store_frame new_api_key_cache_def api_key_get_def key_drop_def
          key_hit_def api_key_invalidate_def api_key_clear_def map_of_delete_eq
          split: key_scope.splits if_splits)+

definition firewall_new :: "int \<Rightarrow> firewall_cache" where
  "firewall_new ttl = \<lparr>firewall_ttl_seconds = ttl, firewall_entries = [], firewall_version = 0\<rparr>"

interpretation firewall: versioned_cache "firewall_new ttl" firewall_is_allowed
    "\<lambda>t ip x v. firewall_set t ip x (Some v)" "\<lambda>_ :: unit. firewall_invalidate_all" "\<lambda>t k c. c" "\<lambda>_ _. True"
    firewall_version "\<lambda>c. of_int (firewall_ttl_seconds c)"
  for ttl
  by unfold_locales
    (auto simp: firewall_new_def firewall_is_allowed_def firewall_set_def firewall_invalidate_all_def update_conv'
      split: option.splits if_splits)

interpretation routes: versioned_cache new_route_cache "\<lambda>now k c. fst (route_get ttl now k c)" "route_store ttl"
    "\<lambda>_ :: unit. route_clear" "\<lambda>t k c. snd (route_get ttl t k c)" "\<lambda>_ _. True" route_generation "\<lambda>c. ttl"
  for ttl
  by unfold_locales
    (auto simp: new_route_cache_def route_get_def route_store_def route_clear_def update_conv' map_of_delete_eq
      split: option.splits if_splits)

text \<open>
  C38. The API key cache never serves a key record read before an invalidation of that key:
  whatever the history of stores, invalidations and clears, a hit is a record stored less than
  the time to live ago, by a reader that captured the version after every earlier
  invalidation, and no invalidation of the key came later.
\<close>

theorem api_key_hit_fresh:
  assumes "api_key_get now k (fold (cache_step key_store key_drop (\<lambda>t k c. c)) evs (new_api_key_cache ttl n)) = Some x"
  shows "\<exists>pre t post. evs = pre @ Store t k x (invalidations pre) # post
    \<and> now < t + of_int ttl \<and> quiet key_hit k post"
  using api_keys.lookup_fresh [OF assms] by (simp add: new_api_key_cache_def)

definition w_key_events :: "(string, nat, key_scope) cache_event list" where
  "w_key_events = [Store 0 ''h'' 1 0, Invalidate (One_key ''h''), Store 1 ''h'' 1 0, Store 2 ''h'' 2 1]"

theorem api_key_hit_fresh_witness:
  "\<exists>pre t post. w_key_events = pre @ Store t ''h'' 2 (invalidations pre) # post
    \<and> 5 < t + of_int 60 \<and> quiet key_hit ''h'' post"
  by (rule api_key_hit_fresh [where n = 10]) code_simp

text \<open>
  The same holds for upstream routes, whose staleness would be a security fault: a cached
  route, direct-egress permission or error was resolved after the last change of bindings,
  pools or settings.
\<close>

theorem route_hit_fresh:
  assumes "fst (route_get ttl now a (fold (cache_step (route_store ttl) (\<lambda>_ :: unit. route_clear)
      (\<lambda>t k c. snd (route_get ttl t k c))) evs new_route_cache)) = Some x"
  shows "\<exists>pre t post. evs = pre @ Store t a x (invalidations pre) # post
    \<and> now < t + ttl \<and> quiet (\<lambda>_ _. True) a post"
  using routes.lookup_fresh [OF assms] .

definition w_route :: "nat route_outcome" where
  "w_route = \<lparr>outcome_route = Some 7, outcome_error_reason = None, outcome_error_pool_id = None\<rparr>"

theorem route_hit_fresh_witness:
  "\<exists>pre t post. [Store 0 ''a'' w_route 0, Invalidate (), Store 1 ''a'' w_route 1, Touch 2 ''a'']
      = pre @ Store t ''a'' w_route (invalidations pre) # post
    \<and> 5 < t + 30 \<and> quiet (\<lambda>_ _. True) ''a'' post"
  by (rule route_hit_fresh) code_simp

lemma firewall_hit_fresh:
  assumes "firewall_is_allowed now ip (fold (cache_step (\<lambda>t ip x v. firewall_set t ip x (Some v))
      (\<lambda>_ :: unit. firewall_invalidate_all) (\<lambda>t k c. c)) evs (firewall_new ttl)) = Some x"
  shows "\<exists>pre t post. evs = pre @ Store t ip x (invalidations pre) # post
    \<and> now < t + of_int ttl \<and> quiet (\<lambda>_ _. True) ip post"
  using firewall.lookup_fresh [OF assms] by (simp add: firewall_new_def)

section \<open>Size of the API key cache\<close>

definition key_cache_inv :: "'v api_key_cache \<Rightarrow> bool" where
  "key_cache_inv c =
     (distinct (map fst (key_entries c)) \<and> int (length (key_entries c)) \<le> key_max_entries c)"

lemma length_update: "length (AList.update k v xs) \<le> Suc (length xs)"
  by (induction xs) auto

lemma length_delete_present:
  "distinct (map fst xs) \<Longrightarrow> k \<in> fst ` set xs \<Longrightarrow> Suc (length (AList.delete k xs)) = length xs"
  by (induction xs) auto

text \<open>
  With room for at least one entry, storing a key never raises and never lets the cache
  grow beyond its configured number of entries.
\<close>

theorem api_key_cache_bounded:
  assumes "key_cache_inv c" "1 \<le> key_max_entries c"
  shows "\<exists>c'. api_key_set now k x v c = Inr c' \<and> key_cache_inv c' \<and> key_max_entries c' = key_max_entries c"
proof (cases "v \<noteq> None \<and> v \<noteq> Some (key_version c)")
  case True
  then show ?thesis using assms(1) by (simp add: api_key_set_def)
next
  case False
  note d = assms(1) [unfolded key_cache_inv_def]
  show ?thesis
  proof (cases "int (length (key_entries c)) \<ge> key_max_entries c")
    case True
    then have "key_entries c \<noteq> []" using assms(2) by auto
    then obtain m where m: "min_by (key_expires_at \<circ> snd) (key_entries c) = Inr m" "m \<in> set (key_entries c)"
      using min_by_member by blast
    then have "Suc (length (AList.delete (fst m) (key_entries c))) = length (key_entries c)"
      using length_delete_present d by (metis image_eqI)
    then show ?thesis
      using True False d m length_update [of k "\<lparr>key_data = x, key_expires_at = now + of_int (key_ttl c)\<rparr>"
          "AList.delete (fst m) (key_entries c)"]
      by (simp add: api_key_set_def key_cache_inv_def distinct_update distinct_delete)
  next
    case False': False
    then show ?thesis
      using False d length_update [of k "\<lparr>key_data = x, key_expires_at = now + of_int (key_ttl c)\<rparr>" "key_entries c"]
      by (simp add: api_key_set_def key_cache_inv_def distinct_update)
  qed
qed

theorem api_key_cache_bounded_witness:
  "\<exists>c'. api_key_set 3 ''b'' (1 :: nat) None (key_store 0 ''a'' 0 0 (new_api_key_cache 60 1)) = Inr c'
    \<and> key_cache_inv c' \<and> key_max_entries c' = key_max_entries (key_store 0 ''a'' (0 :: nat) 0 (new_api_key_cache 60 1))"
  by (rule api_key_cache_bounded; code_simp)

lemma route_error_reproduced:
  assumes "0 < ttl" "now < t + ttl"
  shows "map_option (route_unwrap (Some a))
      (fst (route_get ttl now a (store_error ttl t a err (route_generation c) c)))
    = Some (Inl \<lparr>route_error_reason = route_error_reason err, route_error_account = Some a,
                 route_error_pool = route_error_pool err\<rparr>)"
  using assms by (simp add: store_error_def route_store_def route_get_def route_unwrap_def update_conv')

end
