(* ===== verification/Admission.thy ===== *)
theory Admission
  imports Runs "HOL-Library.AList" "HOL-Library.Sublist"
begin

text \<open>
  Local admission control: \<open>app/core/resilience/overload.py\<close>, \<open>bulkhead.py\<close>,
  \<open>backpressure.py\<close>, \<open>retry_budget.py\<close> and \<open>app/modules/proxy/work_admission.py\<close>. An
  \<open>asyncio.Semaphore\<close> is its number of free permits. The two middlewares acquire only after
  \<open>locked()\<close> said no, with no suspension in between, so they never wait; the work gates wait up
  to a timeout, and the outcome of that wait (a permit or the timeout) is an argument, where a
  permit needs a free one. Response bodies, logging and the ASGI plumbing are left out: a
  request is its scope type and its path.
\<close>

section \<open>Overload helpers\<close>

definition ends_with :: "string \<Rightarrow> string \<Rightarrow> bool" where
  "ends_with s p = (length p \<le> length s \<and> drop (length s - length p) s = p)"

definition is_proxy_path :: "string \<Rightarrow> bool" where
  "is_proxy_path path = (starts_with path ''/v1/'' \<or> starts_with path ''/backend-api/'')"

definition is_compact_path :: "string \<Rightarrow> bool" where
  "is_compact_path path = ends_with path ''/responses/compact''"

definition LOCAL_OVERLOAD_CODES :: "string list" where
  "LOCAL_OVERLOAD_CODES =
     [''proxy_overloaded'', ''account_response_create_cap'', ''account_stream_cap'', ''bridge_queue_full'',
      ''response_create_gate_timeout'', ''global_admission_timeout'', ''capacity_exhausted_active_sessions'']"

definition is_local_overload_error_code :: "string option \<Rightarrow> bool" where
  "is_local_overload_error_code code = (case code of None \<Rightarrow> False | Some c \<Rightarrow> c \<in> set LOCAL_OVERLOAD_CODES)"

definition merge_retry_after_headers ::
    "(string \<times> string) list option \<Rightarrow> string \<Rightarrow> (string \<times> string) list" where
  "merge_retry_after_headers headers retry_after =
     (let merged = or_default headers []
      in case map_of merged ''Retry-After'' of
           Some _ \<Rightarrow> merged | None \<Rightarrow> AList.update ''Retry-After'' retry_after merged)"

section \<open>Bulkhead\<close>

datatype lane = Proxy_http | Proxy_websocket | Proxy_compact | Dashboard

datatype scope_type = Http | Websocket | Lifespan

text \<open>The limits a bulkhead is built with; a limit of zero or less means no semaphore.\<close>

record bulkhead_config =
  cfg_proxy_limit :: "int option"
  cfg_dashboard_limit :: int
  cfg_proxy_http_limit :: "int option"
  cfg_proxy_websocket_limit :: "int option"
  cfg_proxy_compact_limit :: "int option"

definition lane_limit :: "bulkhead_config \<Rightarrow> lane \<Rightarrow> int" where
  "lane_limit cfg l =
     (let resolved_proxy_limit = or_default (cfg_proxy_limit cfg) 200;
          http = or_default (cfg_proxy_http_limit cfg) resolved_proxy_limit;
          websocket = or_default (cfg_proxy_websocket_limit cfg) resolved_proxy_limit;
          compact = or_default (cfg_proxy_compact_limit cfg) (if http \<le> 0 then 0 else min http 16)
      in case l of Proxy_http \<Rightarrow> http | Proxy_websocket \<Rightarrow> websocket | Proxy_compact \<Rightarrow> compact
         | Dashboard \<Rightarrow> cfg_dashboard_limit cfg)"

type_synonym bulkhead = "lane \<Rightarrow> int option"

definition new_bulkhead :: "bulkhead_config \<Rightarrow> bulkhead" where
  "new_bulkhead cfg l = (if lane_limit cfg l > 0 then Some (lane_limit cfg l) else None)"

definition get_semaphore :: "scope_type \<Rightarrow> string \<Rightarrow> lane" where
  "get_semaphore scope path =
     (if scope = Websocket \<and> is_proxy_path path then Proxy_websocket
      else if scope = Http \<and> is_compact_path path then Proxy_compact
      else if scope = Http \<and> is_proxy_path path then Proxy_http
      else Dashboard)"

datatype bulkhead_decision =
  Forward
| Reject int "lane option"
| Enter lane

definition bulkhead_call :: "scope_type \<Rightarrow> string \<Rightarrow> bool \<Rightarrow> bulkhead \<Rightarrow> bulkhead_decision \<times> bulkhead" where
  "bulkhead_call scope path memory_pressure b =
     (if scope \<notin> {Http, Websocket} then (Forward, b)
      else if starts_with path ''/health'' then (Forward, b)
      else if memory_pressure then (Reject 503 None, b)
      else let l = get_semaphore scope path
           in case b l of
                None \<Rightarrow> (Forward, b)
              | Some free \<Rightarrow>
                  (if free = 0 then (Reject 429 (Some l), b) else (Enter l, b(l := Some (free - 1)))))"

definition bulkhead_exit :: "lane \<Rightarrow> bulkhead \<Rightarrow> bulkhead" where
  "bulkhead_exit l b = b(l := map_option (\<lambda>free. free + 1) (b l))"

text \<open>The bulkhead with the number of requests inside each lane.\<close>

record bulkhead_system =
  lanes :: bulkhead
  inside :: "lane \<Rightarrow> int"

datatype bulkhead_event = Arrive scope_type string bool | Depart lane

definition bulkhead_step :: "bulkhead_event \<Rightarrow> bulkhead_system \<Rightarrow> bulkhead_system" where
  "bulkhead_step ev s =
     (case ev of
        Arrive scope path memory_pressure \<Rightarrow>
          (case bulkhead_call scope path memory_pressure (lanes s) of
             (Enter l, b) \<Rightarrow> s\<lparr>lanes := b, inside := (inside s)(l := inside s l + 1)\<rparr>
           | (_, b) \<Rightarrow> s\<lparr>lanes := b\<rparr>)
      | Depart l \<Rightarrow> s\<lparr>lanes := bulkhead_exit l (lanes s), inside := (inside s)(l := inside s l - 1)\<rparr>)"

definition bulkhead_ok :: "bulkhead_event \<Rightarrow> bulkhead_system \<Rightarrow> bool" where
  "bulkhead_ok ev s = (case ev of Depart l \<Rightarrow> 0 < inside s l | _ \<Rightarrow> True)"

definition bulkhead_inv :: "bulkhead_config \<Rightarrow> bulkhead_system \<Rightarrow> bool" where
  "bulkhead_inv cfg s =
     (\<forall>l. 0 \<le> inside s l \<and>
       (if lane_limit cfg l > 0 then lanes s l = Some (lane_limit cfg l - inside s l) \<and> inside s l \<le> lane_limit cfg l
        else lanes s l = None \<and> inside s l = 0))"

lemma bulkhead_call_disj:
  "(\<exists>d. bulkhead_call scope path mem b = (d, b) \<and> (\<forall>l. d \<noteq> Enter l))
   \<or> (\<exists>l free. b l = Some free \<and> free \<noteq> 0 \<and> bulkhead_call scope path mem b = (Enter l, b(l := Some (free - 1))))"
  by (simp add: bulkhead_call_def Let_def split: option.split)

lemma bulkhead_call_cases:
  obtains (same) d where "bulkhead_call scope path mem b = (d, b)" "\<And>l. d \<noteq> Enter l"
    | (enter) l free where "b l = Some free" "free \<noteq> 0" "bulkhead_call scope path mem b = (Enter l, b(l := Some (free - 1)))"
  using bulkhead_call_disj [of scope path mem b] by blast

lemma bulkhead_inv_enter:
  assumes "bulkhead_inv cfg s" "lanes s l = Some free" "free \<noteq> 0"
  shows "bulkhead_inv cfg (s\<lparr>lanes := (lanes s)(l := Some (free - 1)), inside := (inside s)(l := inside s l + 1)\<rparr>)"
proof -
  have "0 < lane_limit cfg l" "free = lane_limit cfg l - inside s l" "inside s l + 1 \<le> lane_limit cfg l"
    using assms by (auto simp: bulkhead_inv_def split: if_splits dest!: spec [of _ l])
  then show ?thesis using assms by (auto simp: bulkhead_inv_def)
qed

lemma bulkhead_inv_exit:
  assumes "bulkhead_inv cfg s" "0 < inside s l"
  shows "bulkhead_inv cfg (s\<lparr>lanes := bulkhead_exit l (lanes s), inside := (inside s)(l := inside s l - 1)\<rparr>)"
proof -
  have "0 < lane_limit cfg l" "lanes s l = Some (lane_limit cfg l - inside s l)" "inside s l \<le> lane_limit cfg l"
    using assms by (auto simp: bulkhead_inv_def split: if_splits dest!: spec [of _ l])
  then show ?thesis using assms by (auto simp: bulkhead_inv_def bulkhead_exit_def)
qed

lemma bulkhead_step_inv: "bulkhead_inv cfg s \<Longrightarrow> bulkhead_ok ev s \<Longrightarrow> bulkhead_inv cfg (bulkhead_step ev s)"
proof (cases ev)
  case (Arrive scope path mem)
  assume inv: "bulkhead_inv cfg s"
  show ?thesis
  proof (cases rule: bulkhead_call_cases [of scope path mem "lanes s"])
    case (same d)
    then show ?thesis using inv Arrive by (cases d) (auto simp: bulkhead_step_def)
  next
    case (enter l free)
    then show ?thesis using bulkhead_inv_enter [OF inv enter(1,2)] Arrive by (simp add: bulkhead_step_def)
  qed
qed (simp add: bulkhead_step_def bulkhead_ok_def bulkhead_inv_exit)

definition new_bulkhead_system :: "bulkhead_config \<Rightarrow> bulkhead_system" where
  "new_bulkhead_system cfg = \<lparr>lanes = new_bulkhead cfg, inside = (\<lambda>l. 0)\<rparr>"

lemma new_bulkhead_inv: "bulkhead_inv cfg (new_bulkhead_system cfg)"
  by (simp add: bulkhead_inv_def new_bulkhead_system_def new_bulkhead_def)

interpretation bulkhead: invariant_bound "bulkhead_inv cfg" bulkhead_ok bulkhead_step "\<lambda>s. inside s l"
    "max 0 (lane_limit cfg l)"
  for cfg l
  by unfold_locales (fact bulkhead_step_inv, auto simp: bulkhead_inv_def split: if_splits dest!: spec [of _ l])

text \<open>
  The bulkhead keeps every lane within its limit at every moment of every interleaving of
  arrivals and departures, and a health check is forwarded whatever the state.
\<close>

theorem bulkhead_lane_bounded:
  assumes "valid_run bulkhead_ok bulkhead_step (xs @ ys) (new_bulkhead_system cfg)" "0 < lane_limit cfg l"
  shows "inside (fold bulkhead_step xs (new_bulkhead_system cfg)) l \<le> lane_limit cfg l
    \<and> bulkhead_call scope (''/health'' @ path) mem b = (Forward, b)"
proof -
  have "inside (fold bulkhead_step xs (new_bulkhead_system cfg)) l \<le> max 0 (lane_limit cfg l)"
    by (rule bulkhead.run_bound_everywhere [OF new_bulkhead_inv _ assms(1)]) (simp add: new_bulkhead_system_def)
  then show ?thesis using assms(2) by (simp add: bulkhead_call_def starts_with_def)
qed

definition w_bulkhead :: bulkhead_config where
  "w_bulkhead = \<lparr>cfg_proxy_limit = Some 1, cfg_dashboard_limit = 50, cfg_proxy_http_limit = None,
     cfg_proxy_websocket_limit = None, cfg_proxy_compact_limit = None\<rparr>"

theorem bulkhead_lane_bounded_witness:
  "inside (fold bulkhead_step [Arrive Http ''/v1/responses'' False, Arrive Http ''/v1/models'' False]
      (new_bulkhead_system w_bulkhead)) Proxy_http \<le> 1
   \<and> bulkhead_call Http (''/health'' @ ''/live'') True (new_bulkhead w_bulkhead)
      = (Forward, new_bulkhead w_bulkhead)"
proof -
  have run: "valid_run bulkhead_ok bulkhead_step
      ([Arrive Http ''/v1/responses'' False, Arrive Http ''/v1/models'' False] @ []) (new_bulkhead_system w_bulkhead)"
    by (simp add: bulkhead_ok_def)
  have limit: "lane_limit w_bulkhead Proxy_http = 1" by code_simp
  show ?thesis
    using bulkhead_lane_bounded [OF run, of Proxy_http Http "''/live''" True "new_bulkhead w_bulkhead"]
    unfolding limit by linarith
qed

section \<open>Backpressure\<close>

definition backpressure_call :: "scope_type \<Rightarrow> string \<Rightarrow> int \<Rightarrow> bulkhead_decision \<times> int" where
  "backpressure_call scope path free =
     (if scope \<notin> {Http, Websocket} then (Forward, free)
      else if starts_with path ''/health'' then (Forward, free)
      else if free = 0 then (Reject 429 None, free)
      else (Enter Dashboard, free - 1))"

definition backpressure_exit :: "int \<Rightarrow> int" where
  "backpressure_exit free = free + 1"

datatype backpressure_event = Bp_arrive scope_type string | Bp_depart

text \<open>Free permits and requests inside.\<close>

definition backpressure_step :: "backpressure_event \<Rightarrow> int \<times> int \<Rightarrow> int \<times> int" where
  "backpressure_step ev s =
     (case ev of
        Bp_arrive scope path \<Rightarrow>
          (case backpressure_call scope path (fst s) of
             (Enter l, free) \<Rightarrow> (free, snd s + 1) | (_, free) \<Rightarrow> (free, snd s))
      | Bp_depart \<Rightarrow> (backpressure_exit (fst s), snd s - 1))"

definition backpressure_ok :: "backpressure_event \<Rightarrow> int \<times> int \<Rightarrow> bool" where
  "backpressure_ok ev s = (ev = Bp_depart \<longrightarrow> 0 < snd s)"

definition backpressure_inv :: "int \<Rightarrow> int \<times> int \<Rightarrow> bool" where
  "backpressure_inv n s = (0 \<le> fst s \<and> 0 \<le> snd s \<and> fst s + snd s = n)"

lemma backpressure_step_inv:
  "backpressure_inv n s \<Longrightarrow> backpressure_ok ev s \<Longrightarrow> backpressure_inv n (backpressure_step ev s)"
  by (cases ev) (auto simp: backpressure_inv_def backpressure_step_def backpressure_ok_def
      backpressure_call_def backpressure_exit_def)

interpretation backpressure: invariant_bound "backpressure_inv n" backpressure_ok backpressure_step snd n
  for n
  by unfold_locales (fact backpressure_step_inv, simp add: backpressure_inv_def)

section \<open>Work admission\<close>

record admission_lease =
  lease_semaphore :: bool
  lease_stage :: string
  lease_released :: bool

text \<open>The gate of a stage: the free permits, or None when the limit disables the gate.\<close>

type_synonym gate = "int option"

definition make_gate :: "int \<Rightarrow> gate" where
  "make_gate limit = (if limit \<le> 0 then None else Some limit)"

datatype wait_outcome = Granted | Timed_out

datatype gate_error = Global_admission_timeout string

definition gate_acquire :: "string \<Rightarrow> wait_outcome \<Rightarrow> gate \<Rightarrow> (gate_error + admission_lease) \<times> gate" where
  "gate_acquire stage outcome g =
     (case g of
        None \<Rightarrow> (Inr \<lparr>lease_semaphore = False, lease_stage = stage, lease_released = False\<rparr>, g)
      | Some free \<Rightarrow>
          (case outcome of
             Timed_out \<Rightarrow> (Inl (Global_admission_timeout stage), g)
           | Granted \<Rightarrow> (Inr \<lparr>lease_semaphore = True, lease_stage = stage, lease_released = False\<rparr>,
                          Some (free - 1))))"

definition gate_release :: "admission_lease \<Rightarrow> gate \<Rightarrow> admission_lease \<times> gate" where
  "gate_release lease g =
     (if lease_released lease \<or> \<not> lease_semaphore lease then (lease, g)
      else (lease\<lparr>lease_released := True\<rparr>, map_option (\<lambda>free. free + 1) g))"

text \<open>The gate with the leases it handed out, in order; releasing is by position and may be repeated.\<close>

record gate_system =
  gate_free :: int
  handed_out :: "admission_lease list"

datatype gate_event = Wait_ends string wait_outcome | Release_lease nat

definition gate_step :: "gate_event \<Rightarrow> gate_system \<Rightarrow> gate_system" where
  "gate_step ev s =
     (case ev of
        Wait_ends stage outcome \<Rightarrow>
          (case gate_acquire stage outcome (Some (gate_free s)) of
             (Inl e, g) \<Rightarrow> s
           | (Inr l, g) \<Rightarrow> s\<lparr>gate_free := or_default g 0, handed_out := handed_out s @ [l]\<rparr>)
      | Release_lease i \<Rightarrow>
          (if i < length (handed_out s)
           then (case gate_release (handed_out s ! i) (Some (gate_free s)) of
                   (l, g) \<Rightarrow> s\<lparr>gate_free := or_default g 0, handed_out := (handed_out s)[i := l]\<rparr>)
           else s))"

definition gate_ok :: "gate_event \<Rightarrow> gate_system \<Rightarrow> bool" where
  "gate_ok ev s = (case ev of Wait_ends stage Granted \<Rightarrow> 0 < gate_free s | _ \<Rightarrow> True)"

definition live_leases :: "gate_system \<Rightarrow> int" where
  "live_leases s = int (length (filter (\<lambda>l. \<not> lease_released l) (handed_out s)))"

definition gate_inv :: "int \<Rightarrow> gate_system \<Rightarrow> bool" where
  "gate_inv n s =
     (0 \<le> gate_free s \<and> gate_free s + live_leases s = n \<and> list_all lease_semaphore (handed_out s))"

lemma length_filter_list_update:
  "i < length xs \<Longrightarrow> int (length (filter P (xs[i := x])))
   = int (length (filter P xs)) - (if P (xs ! i) then 1 else 0) + (if P x then 1 else 0)"
proof (induction xs arbitrary: i)
  case (Cons y ys)
  show ?case
  proof (cases i)
    case (Suc j)
    then show ?thesis using Cons.IH [of j] Cons.prems by (auto split: if_splits)
  qed simp
qed simp

lemma gate_step_inv: "gate_inv n s \<Longrightarrow> gate_ok ev s \<Longrightarrow> gate_inv n (gate_step ev s)"
proof (cases ev)
  case (Wait_ends stage outcome)
  assume "gate_inv n s" "gate_ok ev s"
  then show ?thesis using Wait_ends
    by (cases outcome) (auto simp: gate_inv_def gate_step_def gate_acquire_def gate_ok_def live_leases_def)
next
  case (Release_lease i)
  assume inv: "gate_inv n s"
  show ?thesis
  proof (cases "i < length (handed_out s)")
    case True
    have "lease_semaphore (handed_out s ! i)" using inv True by (simp add: gate_inv_def list_all_length)
    then show ?thesis using inv Release_lease True
      by (auto simp: gate_inv_def gate_step_def gate_release_def live_leases_def length_filter_list_update
          list_all_length nth_list_update)
  qed (use inv Release_lease in \<open>simp add: gate_step_def\<close>)
qed

interpretation gate: invariant_bound "gate_inv n" gate_ok gate_step live_leases n
  for n
  by unfold_locales (fact gate_step_inv, simp add: gate_inv_def)

text \<open>
  A work gate of limit n never has more than n unreleased leases, however waits end and
  however often leases are released: releasing a lease again frees nothing. When every lease
  has been released, every permit is free again.
\<close>

theorem work_gate_conserves:
  assumes "0 < n" "valid_run gate_ok gate_step (xs @ ys) \<lparr>gate_free = n, handed_out = []\<rparr>"
    and "s = fold gate_step xs \<lparr>gate_free = n, handed_out = []\<rparr>"
  shows "live_leases s \<le> n \<and> gate_free s + live_leases s = n"
proof -
  have start: "gate_inv n \<lparr>gate_free = n, handed_out = []\<rparr>"
    using assms(1) by (simp add: gate_inv_def live_leases_def)
  have "valid_run gate_ok gate_step xs \<lparr>gate_free = n, handed_out = []\<rparr>"
    using assms(2) by (simp add: valid_run_append)
  then have "gate_inv n s" unfolding assms(3) by (rule gate.run_inv [OF start])
  then show ?thesis using gate.inv_bound [of n s] by (simp add: gate_inv_def)
qed

theorem work_gate_conserves_witness:
  "live_leases (fold gate_step [Wait_ends ''s'' Granted, Release_lease 0, Release_lease 0]
     \<lparr>gate_free = 2, handed_out = []\<rparr>) \<le> 2
   \<and> gate_free (fold gate_step [Wait_ends ''s'' Granted, Release_lease 0, Release_lease 0]
     \<lparr>gate_free = 2, handed_out = []\<rparr>) + live_leases (fold gate_step
       [Wait_ends ''s'' Granted, Release_lease 0, Release_lease 0] \<lparr>gate_free = 2, handed_out = []\<rparr>) = 2"
  by (rule work_gate_conserves [where ys = "[]", OF _ _ refl]; code_simp)

section \<open>Retry budget\<close>

record retry_budget =
  max_retries :: int
  window_seconds :: int
  retry_timestamps :: "real list"

definition new_retry_budget :: "int \<Rightarrow> int \<Rightarrow> retry_budget" where
  "new_retry_budget n w = \<lparr>max_retries = n, window_seconds = w, retry_timestamps = []\<rparr>"

definition try_acquire :: "real \<Rightarrow> retry_budget \<Rightarrow> bool \<times> retry_budget" where
  "try_acquire now b =
     (let cutoff = now - of_int (window_seconds b);
          recent = dropWhile (\<lambda>t. t < cutoff) (retry_timestamps b)
      in if int (length recent) \<ge> max_retries b then (False, b\<lparr>retry_timestamps := recent\<rparr>)
         else (True, b\<lparr>retry_timestamps := recent @ [now]\<rparr>))"

definition remaining_retries :: "real \<Rightarrow> retry_budget \<Rightarrow> int" where
  "remaining_retries now b =
     (let cutoff = now - of_int (window_seconds b)
      in max 0 (max_retries b - int (length (filter (\<lambda>t. t \<ge> cutoff) (retry_timestamps b)))))"

text \<open>A run of attempts at the given times, with the times of the granted ones.\<close>

fun retry_run :: "real list \<Rightarrow> retry_budget \<times> real list \<Rightarrow> retry_budget \<times> real list" where
  "retry_run [] s = s"
| "retry_run (t # ts) s =
     (case try_acquire t (fst s) of (ok, b) \<Rightarrow> retry_run ts (b, if ok then snd s @ [t] else snd s))"

definition sends_in_window :: "real \<Rightarrow> real \<Rightarrow> real list \<Rightarrow> int" where
  "sends_in_window a w xs = int (length (filter (\<lambda>t. a \<le> t \<and> t \<le> a + w) xs))"

definition budget_inv :: "real \<Rightarrow> retry_budget \<times> real list \<Rightarrow> bool" where
  "budget_inv last_time s =
     (let b = fst s; granted = snd s; w = of_int (window_seconds b)
      in sorted granted \<and> list_all (\<lambda>t. t \<le> last_time) granted
         \<and> retry_timestamps b = filter (\<lambda>t. last_time - w \<le> t) granted
         \<and> (\<forall>a. sends_in_window a w granted \<le> max 0 (max_retries b)))"

lemma dropWhile_sorted: "sorted xs \<Longrightarrow> dropWhile (\<lambda>t. t < c) xs = filter (\<lambda>t. c \<le> t) xs"
  for c :: real
proof (induction xs)
  case (Cons x xs)
  show ?case
  proof (cases "c \<le> x")
    case True
    then have "filter (\<lambda>t. c \<le> t) xs = xs" using Cons.prems by (intro filter_True) auto
    then show ?thesis using True by simp
  qed (use Cons in simp)
qed simp

lemma recent_filter:
  fixes granted :: "real list"
  assumes "sorted granted" "c \<le> c'"
  shows "dropWhile (\<lambda>t. t < c') (filter (\<lambda>t. c \<le> t) granted) = filter (\<lambda>t. c' \<le> t) granted"
proof -
  have "dropWhile (\<lambda>t. t < c') (filter (\<lambda>t. c \<le> t) granted) = filter (\<lambda>t. c' \<le> t) (filter (\<lambda>t. c \<le> t) granted)"
    by (rule dropWhile_sorted) (use assms(1) in \<open>simp add: sorted_wrt_filter\<close>)
  also have "\<dots> = filter (\<lambda>t. c' \<le> t) granted"
    using assms(2) by (simp add: conj_absorb) (rule filter_cong, auto)
  finally show ?thesis .
qed

lemma sends_in_window_snoc:
  assumes "list_all (\<lambda>t. t \<le> now) granted" "0 \<le> w"
    and "sends_in_window a w granted \<le> m" "int (length (filter (\<lambda>t. now - w \<le> t) granted)) < m"
  shows "sends_in_window a w (granted @ [now]) \<le> m"
proof (cases "a \<le> now \<and> now \<le> a + w")
  case True
  have "length (filter (\<lambda>t. a \<le> t \<and> t \<le> a + w) granted) \<le> length (filter (\<lambda>t. now - w \<le> t) granted)"
    unfolding length_filter_conv_card by (rule card_mono) (use True in \<open>auto simp: conj_commute\<close>)
  then show ?thesis using assms(4) by (simp add: sends_in_window_def)
qed (use assms(3) in \<open>auto simp: sends_in_window_def\<close>)

lemma budget_step:
  assumes "budget_inv last_time s" "last_time \<le> now" "0 \<le> window_seconds (fst s)"
    and "try_acquire now (fst s) = (ok, b)"
  shows "budget_inv now (b, if ok then snd s @ [now] else snd s)
    \<and> window_seconds b = window_seconds (fst s) \<and> max_retries b = max_retries (fst s)"
proof -
  let ?w = "real_of_int (window_seconds (fst s))"
  let ?recent = "filter (\<lambda>t. now - ?w \<le> t) (snd s)"
  have inv: "sorted (snd s)" "list_all (\<lambda>t. t \<le> last_time) (snd s)"
      "retry_timestamps (fst s) = filter (\<lambda>t. last_time - ?w \<le> t) (snd s)"
      "\<And>a. sends_in_window a ?w (snd s) \<le> max 0 (max_retries (fst s))"
    using assms(1) by (simp_all add: budget_inv_def Let_def)
  have le: "list_all (\<lambda>t. t \<le> now) (snd s)" using inv(2) assms(2) by (auto simp: list_all_iff)
  have recent: "dropWhile (\<lambda>t. t < now - ?w) (retry_timestamps (fst s)) = ?recent"
    unfolding inv(3) by (rule recent_filter [OF inv(1)]) (use assms(2) in simp)
  have grant: "sends_in_window a ?w (snd s @ [now]) \<le> max 0 (max_retries (fst s))"
    if "int (length ?recent) < max_retries (fst s)" for a
    by (rule sends_in_window_snoc [OF le]) (use assms(3) inv(4) that in auto)
  have "sorted (snd s @ [now])" using inv(1) le by (auto simp: sorted_append list_all_iff)
  then show ?thesis using assms(3,4) recent inv(1,4) le grant
    by (auto simp: try_acquire_def Let_def budget_inv_def not_le split: if_splits)
qed

lemma budget_run:
  "budget_inv t0 s \<Longrightarrow> 0 \<le> window_seconds (fst s) \<Longrightarrow> sorted (t0 # ts) \<Longrightarrow>
   \<exists>t. budget_inv t (retry_run ts s) \<and> window_seconds (fst (retry_run ts s)) = window_seconds (fst s)
     \<and> max_retries (fst (retry_run ts s)) = max_retries (fst s)"
proof (induction ts arbitrary: t0 s)
  case (Cons t ts)
  obtain ok b where t: "try_acquire t (fst s) = (ok, b)" by fastforce
  have st: "budget_inv t (b, if ok then snd s @ [t] else snd s)"
      "window_seconds b = window_seconds (fst s)" "max_retries b = max_retries (fst s)"
    using budget_step [OF Cons.prems(1) _ Cons.prems(2) t] Cons.prems(3) by auto
  show ?case using Cons.IH [OF st(1)] st(2,3) Cons.prems t by auto
qed auto

text \<open>
  The retry budget is a true sliding window: over any run of attempts at non-decreasing
  times, every interval of the window's length contains at most the configured number of
  granted retries, wherever the interval begins.
\<close>

theorem retry_budget_window:
  assumes "sorted ts" "0 \<le> w"
  shows "sends_in_window a (of_int w) (snd (retry_run ts (new_retry_budget n w, []))) \<le> max 0 n"
proof (cases ts)
  case Nil
  then show ?thesis by (simp add: sends_in_window_def)
next
  case (Cons t us)
  have "budget_inv t (new_retry_budget n w, [])"
    by (simp add: budget_inv_def new_retry_budget_def sends_in_window_def)
  from budget_run [OF this, of ts] Cons assms show ?thesis
    by (auto simp: budget_inv_def new_retry_budget_def Let_def)
qed

theorem retry_budget_window_witness:
  "sends_in_window 5 (of_int 60) (snd (retry_run [0, 10, 20, 61, 71] (new_retry_budget 2 60, []))) \<le> max 0 2
   \<and> snd (retry_run [0, 10, 20, 61, 71] (new_retry_budget 2 60, [])) = [0, 10, 61, 71]"
  by (rule conjI, rule retry_budget_window) code_simp+

end
