(* ===== verification/Usage_Windows.thy ===== *)
theory Usage_Windows
  imports Balancer_State "HOL-Library.AList"
begin

text \<open>
  Usage windows: \<open>app/core/usage/__init__.py\<close> with the row types of
  \<open>app/core/usage/types.py\<close>. A \<open>datetime\<close> is a number of seconds, either naive or with its UTC
  offset. The dictionaries keyed by account are association lists in insertion order. The
  empty placeholders \<open>usage_summary()\<close> and \<open>usage_history()\<close> are left out: they return
  constants.
\<close>

section \<open>Rows and summaries\<close>

datatype datetime = Naive real | Aware real real

record usage_window_row =
  row_account_id :: string
  row_used_percent :: "real option"
  row_reset_at :: "int option"
  row_window_minutes :: "int option"
  row_recorded_at :: "datetime option"

record usage_window_summary =
  sum_used_percent :: "real option"
  sum_capacity_credits :: real
  sum_used_credits :: real
  sum_reset_at :: "int option"
  sum_window_minutes :: "int option"

record usage_window_snapshot =
  snap_used_percent :: real
  snap_capacity_credits :: real
  snap_used_credits :: real
  snap_reset_at :: "int option"
  snap_window_minutes :: "int option"

record usage_window =
  window_used_percent :: "real option"
  window_reset_at :: "int option"
  limit_window_seconds :: "int option"
  reset_after_seconds :: "int option"

record normalized_rate_limit_windows =
  norm_primary :: "usage_window option"
  norm_secondary :: "usage_window option"
  norm_monthly :: "usage_window option"

definition SIBLING_FETCH_MARGIN_SECONDS :: real where "SIBLING_FETCH_MARGIN_SECONDS = 5"
definition DEFAULT_WINDOW_MINUTES_PRIMARY :: int where "DEFAULT_WINDOW_MINUTES_PRIMARY = 300"
definition DEFAULT_WINDOW_MINUTES_SECONDARY :: int where "DEFAULT_WINDOW_MINUTES_SECONDARY = 10080"
definition DEFAULT_WINDOW_MINUTES_MONTHLY :: int where "DEFAULT_WINDOW_MINUTES_MONTHLY = 43200"

section \<open>Windows and capacity\<close>

definition normalize_window_key :: "string option \<Rightarrow> string" where
  "normalize_window_key window =
     (let normalized = py_lower (or_default window [])
      in if normalized \<in> {''primary'', ''5h''} then ''primary''
         else if normalized \<in> {''secondary'', ''7d''} then ''secondary''
         else if normalized \<in> {''monthly'', ''30d''} then ''monthly''
         else normalized)"

definition normalize_rate_limit_windows ::
    "usage_window option \<Rightarrow> usage_window option \<Rightarrow> normalized_rate_limit_windows" where
  "normalize_rate_limit_windows primary secondary =
     (case primary of
        Some w \<Rightarrow>
          (if limit_window_seconds w = Some (DEFAULT_WINDOW_MINUTES_MONTHLY * 60) \<and> secondary = None
           then \<lparr>norm_primary = None, norm_secondary = None, norm_monthly = Some w\<rparr>
           else \<lparr>norm_primary = primary, norm_secondary = secondary, norm_monthly = None\<rparr>)
      | None \<Rightarrow> \<lparr>norm_primary = primary, norm_secondary = secondary, norm_monthly = None\<rparr>)"

definition capacity_for_plan :: "string option \<Rightarrow> string \<Rightarrow> real option" where
  "capacity_for_plan plan window =
     (case normalize_account_plan_type plan of
        None \<Rightarrow> None
      | Some normalized \<Rightarrow>
          (if normalized = [] then None
           else let window_key = normalize_window_key (Some window)
           in if window_key = ''primary'' then map_of PLAN_CAPACITY_CREDITS_PRIMARY normalized
              else if window_key = ''secondary'' then map_of PLAN_CAPACITY_CREDITS_SECONDARY normalized
              else if window_key = ''monthly'' then map_of PLAN_CAPACITY_CREDITS_MONTHLY normalized
              else None))"

definition default_window_minutes :: "string \<Rightarrow> int option" where
  "default_window_minutes window =
     (let window_key = normalize_window_key (Some window)
      in if window_key = ''primary'' then Some DEFAULT_WINDOW_MINUTES_PRIMARY
         else if window_key = ''secondary'' then Some DEFAULT_WINDOW_MINUTES_SECONDARY
         else if window_key = ''monthly'' then Some DEFAULT_WINDOW_MINUTES_MONTHLY
         else None)"

definition resolve_window_values :: "string \<Rightarrow> int set \<Rightarrow> int option" where
  "resolve_window_values window values =
     (if values = {} then default_window_minutes window
      else if card values = 1 then Some (Min values)
      else case default_window_minutes window of Some d \<Rightarrow> Some d | None \<Rightarrow> Some (Min values))"

definition positive_minutes :: "usage_window_row list \<Rightarrow> int set" where
  "positive_minutes rows = {m \<in> set (List.map_filter row_window_minutes rows). m > 0}"

definition resolve_window_minutes :: "string \<Rightarrow> usage_window_row list \<Rightarrow> int option" where
  "resolve_window_minutes window rows = resolve_window_values window (positive_minutes rows)"

definition is_weekly_window_minutes :: "int option \<Rightarrow> bool" where
  "is_weekly_window_minutes window_minutes =
     (window_minutes \<noteq> None \<and> window_minutes = default_window_minutes ''secondary'')"

definition is_monthly_window_minutes :: "int option \<Rightarrow> bool" where
  "is_monthly_window_minutes window_minutes =
     (window_minutes \<noteq> None \<and> window_minutes = default_window_minutes ''monthly'')"

definition is_primary_window_minutes :: "int option \<Rightarrow> bool" where
  "is_primary_window_minutes window_minutes =
     (window_minutes \<noteq> None \<and> window_minutes = default_window_minutes ''primary'')"

section \<open>Credits\<close>

definition used_credits_from_percent :: "real option \<Rightarrow> real option \<Rightarrow> real option" where
  "used_credits_from_percent used cap =
     (case (used, cap) of (Some u, Some c) \<Rightarrow> Some (c * u / 100) | _ \<Rightarrow> None)"

definition remaining_percent_from_used :: "real option \<Rightarrow> real option" where
  "remaining_percent_from_used used = map_option (\<lambda>u. max 0 (100 - u)) used"

definition remaining_credits_from_used :: "real option \<Rightarrow> real option \<Rightarrow> real option" where
  "remaining_credits_from_used used cap =
     (case (used, cap) of (Some u, Some c) \<Rightarrow> Some (max 0 (c - u)) | _ \<Rightarrow> None)"

definition remaining_credits_from_percent :: "real option \<Rightarrow> real option \<Rightarrow> real option" where
  "remaining_credits_from_percent used cap =
     remaining_credits_from_used (used_credits_from_percent used cap) cap"

definition normalize_usage_window :: "usage_window_summary \<Rightarrow> usage_window_snapshot" where
  "normalize_usage_window s =
     \<lparr>snap_used_percent = or_default (sum_used_percent s) 0, snap_capacity_credits = sum_capacity_credits s,
      snap_used_credits = sum_used_credits s, snap_reset_at = sum_reset_at s,
      snap_window_minutes = sum_window_minutes s\<rparr>"

section \<open>Pooled summary\<close>

text \<open>The plan of an account that the map does not hold is None, as \<open>account.plan_type if account else None\<close>.\<close>

definition row_capacity :: "(string \<times> string option) list \<Rightarrow> string \<Rightarrow> usage_window_row \<Rightarrow> real option" where
  "row_capacity plans window row = capacity_for_plan (or_default (map_of plans (row_account_id row)) None) window"

fun summarize_rows ::
    "(string \<times> string option) list \<Rightarrow> string \<Rightarrow> usage_window_row list \<Rightarrow> real \<times> real \<Rightarrow> real \<times> real" where
  "summarize_rows plans window [] totals = totals"
| "summarize_rows plans window (row # rows) totals =
     (case (row_used_percent row, row_capacity plans window row) of
        (Some used, Some cap) \<Rightarrow>
          summarize_rows plans window rows (fst totals + cap, snd totals + cap * used / 100)
      | _ \<Rightarrow> summarize_rows plans window rows totals)"

definition summarize_usage_window ::
    "usage_window_row list \<Rightarrow> (string \<times> string option) list \<Rightarrow> string \<Rightarrow> usage_window_summary" where
  "summarize_usage_window rows plans window =
     (case summarize_rows plans window rows (0, 0) of (total_capacity, total_used) \<Rightarrow>
        let resets = List.map_filter row_reset_at rows
        in \<lparr>sum_used_percent = (if total_capacity > 0 then Some (total_used / total_capacity * 100) else None),
            sum_capacity_credits = total_capacity, sum_used_credits = total_used,
            sum_reset_at = (if resets = [] then None else Some (Min (set resets))),
            sum_window_minutes = resolve_window_minutes window rows\<rparr>)"

section \<open>Expired and weekly-only rows\<close>

definition expire_elapsed_window_rows :: "usage_window_row list \<Rightarrow> int \<Rightarrow> usage_window_row list" where
  "expire_elapsed_window_rows rows now_epoch =
     map (\<lambda>row. case row_reset_at row of
                  Some r \<Rightarrow> (if r \<le> now_epoch then row\<lparr>row_used_percent := Some 0, row_reset_at := None\<rparr> else row)
                | None \<Rightarrow> row) rows"

definition positive_window :: "usage_window_row \<Rightarrow> bool" where
  "positive_window row = (case row_window_minutes row of None \<Rightarrow> False | Some m \<Rightarrow> m > 0)"

definition has_real_quota_metadata :: "usage_window_row \<Rightarrow> bool" where
  "has_real_quota_metadata row = (positive_window row \<and> row_reset_at row \<noteq> None)"

definition is_no_data_placeholder :: "usage_window_row \<Rightarrow> bool" where
  "is_no_data_placeholder row = (\<not> positive_window row \<and> row_reset_at row = None)"

definition normalize_recorded_at :: "datetime option \<Rightarrow> real option" where
  "normalize_recorded_at v =
     map_option (\<lambda>d. case d of Naive t \<Rightarrow> t | Aware local utcoffset \<Rightarrow> local - utcoffset) v"

definition reset_precedence :: "usage_window_row \<Rightarrow> usage_window_row \<Rightarrow> bool" where
  "reset_precedence primary secondary =
     (case (row_reset_at primary, row_reset_at secondary) of
        (Some p, Some s) \<Rightarrow> (if p \<noteq> s then p > s else True)
      | (Some p, None) \<Rightarrow> True
      | (None, Some s) \<Rightarrow> False
      | (None, None) \<Rightarrow> True)"

definition should_prefer_primary_row :: "usage_window_row \<Rightarrow> usage_window_row \<Rightarrow> bool" where
  "should_prefer_primary_row primary secondary =
     (let tiebreak =
            (if has_real_quota_metadata primary \<and> is_no_data_placeholder secondary then True
             else if has_real_quota_metadata secondary \<and> is_no_data_placeholder primary then False
             else reset_precedence primary secondary)
      in case (normalize_recorded_at (row_recorded_at primary), normalize_recorded_at (row_recorded_at secondary)) of
           (Some p, Some s) \<Rightarrow>
             (if p \<noteq> s \<and> \<bar>p - s\<bar> > SIBLING_FETCH_MARGIN_SECONDS then p > s else tiebreak)
         | _ \<Rightarrow> tiebreak)"

definition should_use_weekly_primary :: "usage_window_row \<Rightarrow> usage_window_row option \<Rightarrow> bool" where
  "should_use_weekly_primary primary_row secondary_row =
     (if \<not> is_weekly_window_minutes (row_window_minutes primary_row) then False
      else case secondary_row of None \<Rightarrow> True | Some s \<Rightarrow> should_prefer_primary_row primary_row s)"

type_synonym account_rows = "(string \<times> usage_window_row) list"

definition rows_by_account :: "usage_window_row list \<Rightarrow> account_rows" where
  "rows_by_account rows = fold (\<lambda>row d. AList.update (row_account_id row) row d) rows []"

fun remap_weekly :: "account_rows \<Rightarrow> usage_window_row list \<Rightarrow> account_rows \<Rightarrow> usage_window_row list \<times> account_rows"
  where
  "remap_weekly [] kept secondary = (kept, secondary)"
| "remap_weekly ((aid, row) # rest) kept secondary =
     (if is_weekly_window_minutes (row_window_minutes row)
      then remap_weekly rest kept
             (if should_use_weekly_primary row (map_of secondary aid)
              then AList.update aid row secondary else secondary)
      else remap_weekly rest (kept @ [row]) secondary)"

definition normalize_weekly_only_rows ::
    "usage_window_row list \<Rightarrow> usage_window_row list \<Rightarrow> usage_window_row list \<times> usage_window_row list" where
  "normalize_weekly_only_rows primary_rows secondary_rows =
     (case remap_weekly (rows_by_account primary_rows) [] (rows_by_account secondary_rows) of
        (kept, secondary) \<Rightarrow> (kept, map snd secondary))"

section \<open>Remapping weekly rows\<close>

definition keyed :: "account_rows \<Rightarrow> bool" where
  "keyed d = (distinct (map fst d) \<and> list_all (\<lambda>(aid, row). row_account_id row = aid) d)"

lemma update_members: "set (AList.update k v xs) \<subseteq> insert (k, v) (set xs)"
  by (induction xs) auto

lemma keyed_update: "keyed d \<Longrightarrow> keyed (AList.update (row_account_id row) row d)"
  using update_members [of "row_account_id row" row d]
  by (auto simp: keyed_def list_all_iff distinct_update)

lemma keyed_rows: "keyed d \<Longrightarrow> map row_account_id (map snd d) = map fst d"
  by (induction d) (auto simp: keyed_def)

lemma subset_insert_trans: "A \<subseteq> B \<union> R \<Longrightarrow> B \<subseteq> insert r D \<Longrightarrow> A \<subseteq> D \<union> insert r R"
  by blast

lemma fold_rows_by_account:
  "keyed d \<Longrightarrow> let d' = fold (\<lambda>row d. AList.update (row_account_id row) row d) rows d
    in keyed d' \<and> fst ` set d' = fst ` set d \<union> row_account_id ` set rows \<and> set (map snd d') \<subseteq> set (map snd d) \<union> set rows"
proof (induction rows arbitrary: d)
  case (Cons row rows)
  let ?d = "AList.update (row_account_id row) row d"
  have d: "keyed ?d" "fst ` set ?d = insert (row_account_id row) (fst ` set d)"
      "set (map snd ?d) \<subseteq> insert row (set (map snd d))"
    using keyed_update [OF Cons.prems] update_members [of "row_account_id row" row d]
    by (auto simp: dom_update)
  note IH = Cons.IH [OF d(1), unfolded Let_def]
  show ?case unfolding Let_def fold_simps list.set(2)
    using IH d(2) subset_insert_trans [OF conjunct2 [OF conjunct2 [OF IH]] d(3)] by (simp add: insert_commute)
qed simp

lemma rows_by_account_spec:
  "keyed (rows_by_account rows)" "fst ` set (rows_by_account rows) = row_account_id ` set rows"
  "set (map snd (rows_by_account rows)) \<subseteq> set rows"
  using fold_rows_by_account [of "[]" rows] by (simp_all add: rows_by_account_def keyed_def Let_def)

lemma remap_weekly_spec:
  assumes "keyed ps" "keyed sec" "distinct (map row_account_id kept)"
    and "set (map fst ps) \<inter> row_account_id ` set kept = {}"
    and "remap_weekly ps kept sec = (kept', sec')"
  shows "keyed sec' \<and> distinct (map row_account_id kept')
    \<and> kept' = kept @ filter (\<lambda>r. \<not> is_weekly_window_minutes (row_window_minutes r)) (map snd ps)
    \<and> fst ` set sec' = fst ` set sec \<union> {aid. \<exists>r. (aid, r) \<in> set ps \<and> is_weekly_window_minutes (row_window_minutes r)}
    \<and> set (map snd sec') \<subseteq> set (map snd sec) \<union> set (map snd ps)"
  using assms
proof (induction ps kept sec rule: remap_weekly.induct)
  case (2 aid row rest kept secondary)
  have key: "row_account_id row = aid" "keyed rest" "aid \<notin> fst ` set rest"
    using "2.prems"(1) by (auto simp: keyed_def)
  show ?case
  proof (cases "is_weekly_window_minutes (row_window_minutes row)")
    case True
    let ?use = "should_use_weekly_primary row (map_of secondary aid)"
    let ?sec = "if ?use then AList.update aid row secondary else secondary"
    have keyed: "keyed ?sec" using keyed_update [of secondary row] "2.prems"(2) key(1) by simp
    have dom: "fst ` set ?sec = insert aid (fst ` set secondary)"
    proof (cases ?use)
      case False
      then have "map_of secondary aid \<noteq> None" using True
        by (cases "map_of secondary aid") (auto simp: should_use_weekly_primary_def)
      then have "aid \<in> fst ` set secondary" by (simp add: map_of_eq_None_iff)
      then show ?thesis using False by auto
    qed (simp add: dom_update)
    have mem: "set (map snd ?sec) \<subseteq> insert row (set (map snd secondary))"
      using update_members [of aid row secondary] by auto
    have run: "remap_weekly rest kept ?sec = (kept', sec')" using "2.prems"(5) True by simp
    have disj: "set (map fst rest) \<inter> row_account_id ` set kept = {}" using "2.prems"(4) by auto
    note IH = "2.IH"(1) [OF True key(2) keyed "2.prems"(3) disj run]
    have "fst ` set sec' = fst ` set secondary
        \<union> {a. \<exists>r. (a, r) \<in> set ((aid, row) # rest) \<and> is_weekly_window_minutes (row_window_minutes r)}"
      using IH dom True by auto
    moreover have "set (map snd sec') \<subseteq> set (map snd secondary) \<union> set (map snd ((aid, row) # rest))"
      using subset_insert_trans [OF _ mem] IH by simp
    moreover have "kept' = kept @ filter (\<lambda>r. \<not> is_weekly_window_minutes (row_window_minutes r))
        (map snd ((aid, row) # rest))"
      using IH True by simp
    ultimately show ?thesis using IH by blast
  next
    case False
    have disj: "distinct (map row_account_id (kept @ [row]))" "set (map fst rest) \<inter> row_account_id ` set (kept @ [row]) = {}"
      using "2.prems"(3,4) key by auto
    have run: "remap_weekly rest (kept @ [row]) secondary = (kept', sec')" using "2.prems"(5) False by simp
    note IH = "2.IH"(2) [OF False key(2) "2.prems"(2) disj run]
    have "kept' = kept @ filter (\<lambda>r. \<not> is_weekly_window_minutes (row_window_minutes r))
        (map snd ((aid, row) # rest))"
      using IH False by simp
    moreover have "{a. \<exists>r. (a, r) \<in> set ((aid, row) # rest) \<and> is_weekly_window_minutes (row_window_minutes r)}
        = {a. \<exists>r. (a, r) \<in> set rest \<and> is_weekly_window_minutes (row_window_minutes r)}"
      using False by auto
    moreover have "set (map snd sec') \<subseteq> set (map snd secondary) \<union> set (map snd ((aid, row) # rest))"
      using IH by auto
    ultimately show ?thesis using IH by metis
  qed
qed auto

text \<open>
  Remapping weekly-only accounts is sound: no weekly row stays in the primary list, no
  account is lost or duplicated in a list, and every resulting row is one that was reported.
\<close>

theorem normalize_weekly_sound:
  assumes "normalize_weekly_only_rows ps ss = (p, s)"
  shows "(\<forall>r \<in> set p. \<not> is_weekly_window_minutes (row_window_minutes r))
    \<and> row_account_id ` (set p \<union> set s) = row_account_id ` (set ps \<union> set ss)
    \<and> distinct (map row_account_id p) \<and> distinct (map row_account_id s)
    \<and> set p \<union> set s \<subseteq> set ps \<union> set ss"
proof -
  let ?ps = "rows_by_account ps" and ?ss = "rows_by_account ss"
  obtain sec where sec: "remap_weekly ?ps [] ?ss = (p, sec)" "s = map snd sec"
    using assms by (auto simp: normalize_weekly_only_rows_def split: prod.splits)
  have spec: "keyed sec" "distinct (map row_account_id p)"
      "p = filter (\<lambda>r. \<not> is_weekly_window_minutes (row_window_minutes r)) (map snd ?ps)"
      "fst ` set sec = fst ` set ?ss \<union> {aid. \<exists>r. (aid, r) \<in> set ?ps \<and> is_weekly_window_minutes (row_window_minutes r)}"
      "set (map snd sec) \<subseteq> set (map snd ?ss) \<union> set (map snd ?ps)"
    using remap_weekly_spec [OF rows_by_account_spec(1) rows_by_account_spec(1) _ _ sec(1)] by auto
  have ids: "row_account_id ` set s = fst ` set sec" "row_account_id ` set (map snd ?ps) = fst ` set ?ps"
    unfolding sec(2) using keyed_rows [OF spec(1)] keyed_rows [OF rows_by_account_spec(1) [of ps]]
    by (metis list.set_map)+
  have key: "row_account_id r = aid" if "(aid, r) \<in> set ?ps" for aid r
    using rows_by_account_spec(1) [of ps] that by (auto simp: keyed_def list_all_iff)
  have "row_account_id ` set p \<union> fst ` set sec = fst ` set ?ps \<union> fst ` set ?ss"
    unfolding spec(3,4) using key by force
  then have "row_account_id ` (set p \<union> set s) = row_account_id ` (set ps \<union> set ss)"
    using ids(1) rows_by_account_spec(2) by (auto simp: image_Un)
  moreover have "distinct (map row_account_id s)"
    using keyed_rows [OF spec(1)] spec(1) unfolding sec(2) keyed_def by metis
  moreover have "set p \<union> set s \<subseteq> set ps \<union> set ss"
  proof -
    have "set p \<subseteq> set (map snd ?ps)" unfolding spec(3) by (rule filter_is_subset)
    moreover have "set s \<subseteq> set (map snd ?ss) \<union> set (map snd ?ps)" using spec(5) sec(2) by simp
    ultimately show ?thesis using rows_by_account_spec(3) [of ps] rows_by_account_spec(3) [of ss] by blast
  qed
  ultimately show ?thesis using spec(2,3) by auto
qed

definition w_row :: "string \<Rightarrow> int \<Rightarrow> int option \<Rightarrow> usage_window_row" where
  "w_row aid minutes reset =
     \<lparr>row_account_id = aid, row_used_percent = Some 40, row_reset_at = reset,
      row_window_minutes = Some minutes, row_recorded_at = Some (Naive 100)\<rparr>"

theorem normalize_weekly_sound_witness:
  "let ps = [w_row ''a'' 10080 (Some 500), w_row ''b'' 300 (Some 900)]; ss = [w_row ''a'' 0 None];
       (p, s) = normalize_weekly_only_rows ps ss
   in \<not> is_weekly_window_minutes (row_window_minutes (hd p)) \<and> distinct (map row_account_id s)
      \<and> row_account_id ` (set p \<union> set s) = {''a'', ''b''}"
proof -
  let ?ps = "[w_row ''a'' 10080 (Some 500), w_row ''b'' 300 (Some 900)]" and ?ss = "[w_row ''a'' 0 None]"
  let ?n = "normalize_weekly_only_rows ?ps ?ss"
  have "fst ?n \<noteq> []" by code_simp
  moreover have "row_account_id ` (set ?ps \<union> set ?ss) = {''a'', ''b''}" by code_simp
  ultimately show ?thesis
    using normalize_weekly_sound [of ?ps ?ss "fst ?n" "snd ?n"] by (simp add: Let_def case_prod_beta)
qed

text \<open>
  A placeholder never displaces a measurement of the same fetch: within the margin, or when an
  ordering is not known, the row with real quota metadata wins, on either side.
\<close>

lemma placeholder_never_wins:
  assumes "has_real_quota_metadata a" "is_no_data_placeholder b"
    and "\<forall>p s. normalize_recorded_at (row_recorded_at a) = Some p \<and> normalize_recorded_at (row_recorded_at b) = Some s
      \<longrightarrow> \<bar>p - s\<bar> \<le> SIBLING_FETCH_MARGIN_SECONDS"
  shows "should_prefer_primary_row a b \<and> \<not> should_prefer_primary_row b a"
  using assms
  by (auto simp: should_prefer_primary_row_def Let_def abs_minus_commute has_real_quota_metadata_def
      is_no_data_placeholder_def not_less split: option.splits)

lemma expire_idem: "expire_elapsed_window_rows (expire_elapsed_window_rows rows t) t = expire_elapsed_window_rows rows t"
  by (simp add: expire_elapsed_window_rows_def split: option.split)

section \<open>Bounds of the pooled summary\<close>

lemma capacity_nonneg: "capacity_for_plan p w = Some c \<Longrightarrow> 0 \<le> c"
proof -
  have "0 \<le> v" if "map_of tab k = Some v" "\<forall>(a, b) \<in> set tab. 0 \<le> b" for tab :: "(string \<times> real) list" and k v
    using map_of_SomeD [OF that(1)] that(2) by auto
  moreover have "\<forall>(a, b) \<in> set PLAN_CAPACITY_CREDITS_PRIMARY. 0 \<le> b"
      "\<forall>(a, b) \<in> set PLAN_CAPACITY_CREDITS_SECONDARY. 0 \<le> b" "\<forall>(a, b) \<in> set PLAN_CAPACITY_CREDITS_MONTHLY. 0 \<le> b"
    by (simp_all add: PLAN_CAPACITY_CREDITS_PRIMARY_def PLAN_CAPACITY_CREDITS_SECONDARY_def
        PLAN_CAPACITY_CREDITS_MONTHLY_def)
  ultimately show "capacity_for_plan p w = Some c \<Longrightarrow> 0 \<le> c"
    by (auto simp: capacity_for_plan_def Let_def split: option.splits if_splits)
qed

lemma summarize_rows_bounds:
  assumes "\<forall>r \<in> set rows. \<forall>u. row_used_percent r = Some u \<longrightarrow> 0 \<le> u \<and> u \<le> 100"
    and "0 \<le> snd t" "snd t \<le> fst t" "summarize_rows plans w rows t = (cap, used)"
  shows "0 \<le> used \<and> used \<le> cap"
  using assms
proof (induction rows arbitrary: t)
  case (Cons row rows)
  show ?case
  proof (cases "\<exists>u c. row_used_percent row = Some u \<and> row_capacity plans w row = Some c")
    case True
    then obtain u c where uc: "row_used_percent row = Some u" "row_capacity plans w row = Some c" by blast
    have u: "0 \<le> u" "u \<le> 100" using Cons.prems(1) uc(1) by auto
    have c: "0 \<le> c" using capacity_nonneg uc(2) by (auto simp: row_capacity_def)
    have "0 \<le> c * u / 100" "c * u / 100 \<le> c" using u c mult_left_mono [of u 100 c] by simp_all
    then show ?thesis
      using Cons.IH [of "(fst t + c, snd t + c * u / 100)"] Cons.prems uc by (auto simp: add_mono)
  next
    case False
    then have "summarize_rows plans w (row # rows) t = summarize_rows plans w rows t"
      by (cases "row_used_percent row"; cases "row_capacity plans w row") auto
    then show ?thesis using Cons.IH [of t] Cons.prems by simp
  qed
qed auto

lemma summary_bounds:
  assumes "\<forall>r \<in> set rows. \<forall>u. row_used_percent r = Some u \<longrightarrow> 0 \<le> u \<and> u \<le> 100"
  shows "0 \<le> sum_used_credits (summarize_usage_window rows plans w)
    \<and> sum_used_credits (summarize_usage_window rows plans w) \<le> sum_capacity_credits (summarize_usage_window rows plans w)
    \<and> (\<forall>p. sum_used_percent (summarize_usage_window rows plans w) = Some p \<longrightarrow> 0 \<le> p \<and> p \<le> 100)"
proof -
  obtain cap used where t: "summarize_rows plans w rows (0, 0) = (cap, used)" by fastforce
  have "0 \<le> used \<and> used \<le> cap" by (rule summarize_rows_bounds [OF assms _ _ t]) simp_all
  then show ?thesis by (auto simp: summarize_usage_window_def t Let_def divide_le_eq)
qed

end
