(* ===== verification/Usage_Quota.thy ===== *)
theory Usage_Quota
  imports Usage_Windows
begin

text \<open>
  From usage to account status: \<open>apply_usage_quota\<close> of \<open>app/core/usage/quota.py\<close>, and the
  depletion forecast of \<open>app/core/usage/depletion.py\<close>. \<open>time.time()\<close> is an argument.
\<close>

section \<open>Status from usage\<close>

record usage_inputs =
  primary_used :: "real option"
  primary_reset :: "int option"
  usage_window_minutes :: "int option"
  runtime_reset :: "real option"
  secondary_used :: "real option"
  secondary_reset :: "int option"
  credits_has :: "bool option"
  credits_unlimited :: "bool option"
  credits_balance :: "real option"
  infer_status_from_usage :: bool

definition has_usable_credits :: "bool option \<Rightarrow> bool option \<Rightarrow> real option \<Rightarrow> bool" where
  "has_usable_credits has unlimited balance =
     (if unlimited = Some True then True
      else if has = Some True then True
      else case balance of None \<Rightarrow> False | Some b \<Rightarrow> b > 0)"

definition has_credit_override :: "usage_inputs \<Rightarrow> bool" where
  "has_credit_override u = has_usable_credits (credits_has u) (credits_unlimited u) (credits_balance u)"

definition fallback_primary_reset :: "real \<Rightarrow> int option \<Rightarrow> real option" where
  "fallback_primary_reset now window_minutes =
     (let m = (case window_minutes of Some m \<Rightarrow> (if m \<noteq> 0 then Some m else default_window_minutes ''primary'')
               | None \<Rightarrow> default_window_minutes ''primary'')
      in case m of None \<Rightarrow> None | Some m \<Rightarrow> if m = 0 then None else Some (now + of_int m * 60))"

type_synonym quota_state = "account_status \<times> real option \<times> real option"

text \<open>A block lasts while its runtime reset lies in the future; then the account is active again.\<close>

definition held_until_reset ::
    "real \<Rightarrow> usage_inputs \<Rightarrow> account_status \<Rightarrow> real option \<Rightarrow> account_status \<times> real option" where
  "held_until_reset now u st reset =
     (case runtime_reset u of
        Some r \<Rightarrow> (if r \<noteq> 0 \<and> r > now then (st, Some r) else (ACTIVE, None))
      | None \<Rightarrow> (ACTIVE, None))"

definition weekly_exhausted :: "usage_inputs \<Rightarrow> bool" where
  "weekly_exhausted u = (case secondary_used u of None \<Rightarrow> False | Some v \<Rightarrow> v \<ge> 100)"

definition primary_exhausted :: "usage_inputs \<Rightarrow> bool" where
  "primary_exhausted u = (case primary_used u of None \<Rightarrow> False | Some v \<Rightarrow> v \<ge> 100)"

text \<open>The part of \<open>apply_usage_quota\<close> on the long window; Inl is its early return.\<close>

definition apply_secondary ::
    "real \<Rightarrow> usage_inputs \<Rightarrow> account_status \<Rightarrow> quota_state + quota_state" where
  "apply_secondary now u st =
     (let used = primary_used u; reset = runtime_reset u
      in if secondary_used u = None
         then Inr (st, used,
                   if st = QUOTA_EXCEEDED \<and> secondary_reset u \<noteq> None \<and> infer_status_from_usage u
                   then map_option of_int (secondary_reset u) else reset)
         else
           let over = weekly_exhausted u;
               credit = has_credit_override u
           in if over \<and> \<not> credit \<and> infer_status_from_usage u
              then Inl (QUOTA_EXCEEDED, Some 100,
                        if secondary_reset u \<noteq> None then map_option of_int (secondary_reset u) else reset)
              else
                let (st1, reset1) = (if over \<and> credit \<and> st = QUOTA_EXCEEDED then (ACTIVE, None) else (st, reset));
                    used1 = (if over \<and> \<not> credit then Some 100 else used);
                    (st2, reset2) = (if st1 = QUOTA_EXCEEDED then held_until_reset now u st1 reset1 else (st1, reset1))
                in Inr (st2, used1, reset2))"

definition apply_credit_override :: "usage_inputs \<Rightarrow> quota_state \<Rightarrow> quota_state" where
  "apply_credit_override u s =
     (case s of (st, used, reset) \<Rightarrow>
        if has_credit_override u \<and> st = QUOTA_EXCEEDED \<and> \<not> primary_exhausted u then (ACTIVE, used, None) else s)"

definition apply_primary :: "real \<Rightarrow> usage_inputs \<Rightarrow> quota_state \<Rightarrow> quota_state" where
  "apply_primary now u s =
     (case s of (st, used, reset) \<Rightarrow>
        if primary_used u \<noteq> None
        then (if primary_exhausted u \<and> infer_status_from_usage u
              then (RATE_LIMITED, Some 100,
                    if primary_reset u \<noteq> None then map_option of_int (primary_reset u)
                    else (let fb = fallback_primary_reset now (usage_window_minutes u)
                          in if truthy fb then fb else reset))
              else let used' = (if primary_exhausted u then Some 100 else used)
                   in if st = RATE_LIMITED
                      then (case held_until_reset now u st reset of (st', reset') \<Rightarrow> (st', used', reset'))
                      else (st, used', reset))
        else if st = RATE_LIMITED \<and> secondary_used u \<noteq> None \<and> \<not> weekly_exhausted u
        then (case held_until_reset now u st reset of (st', reset') \<Rightarrow> (st', used, reset'))
        else s)"

definition apply_usage_quota :: "real \<Rightarrow> usage_inputs \<Rightarrow> account_status \<Rightarrow> quota_state" where
  "apply_usage_quota now u st =
     (if st \<in> {REAUTH_REQUIRED, DEACTIVATED, PAUSED} then (st, primary_used u, runtime_reset u)
      else case apply_secondary now u st of
             Inl early \<Rightarrow> early
           | Inr s \<Rightarrow> apply_primary now u (apply_credit_override u s))"

section \<open>Properties\<close>

lemma held_status: "fst (held_until_reset now u st r) = st \<or> fst (held_until_reset now u st r) = ACTIVE"
  by (simp add: held_until_reset_def split: option.split)

lemma held_future: "runtime_reset u = Some d \<Longrightarrow> d > now \<Longrightarrow> d \<noteq> 0 \<Longrightarrow> held_until_reset now u st r = (st, Some d)"
  by (simp add: held_until_reset_def)

lemma apply_secondary_observed:
  assumes "\<not> infer_status_from_usage u"
  shows "\<exists>s. apply_secondary now u st = Inr s \<and> (fst s = st \<or> fst s = ACTIVE)"
  using assms held_status [of now u st] held_status [of now u QUOTA_EXCEEDED]
  by (simp add: apply_secondary_def Let_def case_prod_beta)

lemma apply_primary_observed:
  assumes "\<not> infer_status_from_usage u"
  shows "fst (apply_primary now u s) = fst s \<or> fst (apply_primary now u s) = ACTIVE"
  using assms held_status [of now u RATE_LIMITED "snd (snd s)"]
  by (simp add: apply_primary_def Let_def case_prod_beta)

lemma apply_credit_observed: "fst (apply_credit_override u s) = fst s \<or> fst (apply_credit_override u s) = ACTIVE"
  by (cases s) (simp add: apply_credit_override_def)

text \<open>
  When usage only informs the status (the router's mode), it never blocks an account: the
  status is unchanged or becomes active. A rate limit or quota block whose deadline lies in the
  future stays in force with exactly that deadline, unless credits override an exhausted quota.
\<close>

theorem usage_never_blocks:
  assumes "\<not> infer_status_from_usage u" "apply_usage_quota now u st = (st', used, reset)"
  shows "st' \<in> {st, ACTIVE}
    \<and> (\<forall>d. runtime_reset u = Some d \<and> now < d \<and> d \<noteq> 0 \<and> \<not> has_credit_override u \<longrightarrow> st' = st \<and> reset = Some d)"
proof -
  obtain s where s: "apply_secondary now u st = Inr s" "fst s = st \<or> fst s = ACTIVE"
    using apply_secondary_observed [OF assms(1)] by blast
  have "st' \<in> {st, ACTIVE}"
  proof (cases "st \<in> {REAUTH_REQUIRED, DEACTIVATED, PAUSED}")
    case True
    then show ?thesis using assms(2) by (auto simp: apply_usage_quota_def)
  next
    case False
    then have "st' = fst (apply_primary now u (apply_credit_override u s))"
      using assms(2) s(1) by (simp add: apply_usage_quota_def)
    then show ?thesis
      using apply_primary_observed [OF assms(1), of now "apply_credit_override u s"] apply_credit_observed [of u s] s(2)
      by auto
  qed
  moreover have "st' = st \<and> reset = Some d"
    if "runtime_reset u = Some d" "now < d" "d \<noteq> 0" "\<not> has_credit_override u" for d
    using assms that
    by (cases "secondary_used u")
      (auto simp: apply_usage_quota_def apply_secondary_def apply_credit_override_def apply_primary_def
        held_future Let_def split: if_splits)
  ultimately show ?thesis by blast
qed

definition w_usage :: usage_inputs where
  "w_usage = \<lparr>primary_used = Some 100, primary_reset = None, usage_window_minutes = Some 300,
     runtime_reset = Some 2000, secondary_used = Some 20, secondary_reset = None, credits_has = None,
     credits_unlimited = None, credits_balance = None, infer_status_from_usage = False\<rparr>"

theorem usage_never_blocks_witness:
  "fst (apply_usage_quota 1000 w_usage RATE_LIMITED) = RATE_LIMITED
   \<and> snd (snd (apply_usage_quota 1000 w_usage RATE_LIMITED)) = Some 2000"
proof -
  let ?q = "apply_usage_quota 1000 w_usage RATE_LIMITED"
  have "\<not> infer_status_from_usage w_usage" "runtime_reset w_usage = Some 2000" "\<not> has_credit_override w_usage"
    by code_simp+
  then show ?thesis
    using usage_never_blocks [of w_usage 1000 RATE_LIMITED "fst ?q" "fst (snd ?q)" "snd (snd ?q)"] by simp
qed

lemma weekly_exhausted_inferred:
  assumes "infer_status_from_usage u" "st \<notin> {REAUTH_REQUIRED, DEACTIVATED, PAUSED}" "weekly_exhausted u"
    and "\<not> has_credit_override u"
  shows "\<exists>r. apply_usage_quota now u st = (QUOTA_EXCEEDED, Some 100, r)"
proof -
  have "secondary_used u \<noteq> None" using assms(3) by (auto simp: weekly_exhausted_def split: option.splits)
  then show ?thesis using assms by (auto simp: apply_usage_quota_def apply_secondary_def)
qed

lemma primary_exhausted_inferred:
  assumes "infer_status_from_usage u" "st \<notin> {REAUTH_REQUIRED, DEACTIVATED, PAUSED}" "primary_exhausted u"
    and "\<not> (weekly_exhausted u \<and> \<not> has_credit_override u)"
  shows "\<exists>r. apply_usage_quota now u st = (RATE_LIMITED, Some 100, r)"
proof -
  have "\<exists>s. apply_secondary now u st = Inr s"
    using assms(4) by (auto simp: apply_secondary_def Let_def case_prod_beta)
  then obtain s where s: "apply_secondary now u st = Inr s" by blast
  have "\<exists>r. apply_primary now u q = (RATE_LIMITED, Some 100, r)" for q
    using assms(1,3) by (cases q) (auto simp: apply_primary_def primary_exhausted_def split: option.splits)
  from this [of "apply_credit_override u s"] show ?thesis using assms(2) s by (simp add: apply_usage_quota_def)
qed

text \<open>
  When usage decides the status (the refresh jobs' mode), an exhausted long window without
  credits gives a quota block and an exhausted short window gives a rate limit, each reported
  as 100% used, and the long window takes precedence; accounts that are paused, deactivated or
  await re-authentication are left alone.
\<close>

theorem usage_infers_status:
  assumes "infer_status_from_usage u"
  shows "(st \<in> {REAUTH_REQUIRED, DEACTIVATED, PAUSED} \<longrightarrow>
      apply_usage_quota now u st = (st, primary_used u, runtime_reset u))
    \<and> (st \<notin> {REAUTH_REQUIRED, DEACTIVATED, PAUSED} \<and> weekly_exhausted u \<and> \<not> has_credit_override u \<longrightarrow>
      (\<exists>r. apply_usage_quota now u st = (QUOTA_EXCEEDED, Some 100, r)))
    \<and> (st \<notin> {REAUTH_REQUIRED, DEACTIVATED, PAUSED} \<and> primary_exhausted u
        \<and> \<not> (weekly_exhausted u \<and> \<not> has_credit_override u) \<longrightarrow>
      (\<exists>r. apply_usage_quota now u st = (RATE_LIMITED, Some 100, r)))"
  using weekly_exhausted_inferred [OF assms, of st now] primary_exhausted_inferred [OF assms, of st now]
  by (auto simp: apply_usage_quota_def)

theorem usage_infers_status_witness:
  "\<exists>r. apply_usage_quota 1000 (w_usage\<lparr>infer_status_from_usage := True\<rparr>) ACTIVE = (RATE_LIMITED, Some 100, r)"
proof -
  let ?u = "w_usage\<lparr>infer_status_from_usage := True\<rparr>"
  have "infer_status_from_usage ?u" "primary_exhausted ?u" "\<not> weekly_exhausted ?u" by code_simp+
  with usage_infers_status [of ?u ACTIVE 1000] show ?thesis by simp
qed

section \<open>Depletion forecast\<close>

definition RISK_WARNING :: real where "RISK_WARNING = 60 / 100"
definition RISK_DANGER :: real where "RISK_DANGER = 80 / 100"
definition RISK_CRITICAL :: real where "RISK_CRITICAL = 95 / 100"
definition DEFAULT_ALPHA :: real where "DEFAULT_ALPHA = 4 / 10"

record ewma_state =
  ewma_rate :: "real option"
  last_used_percent :: real
  last_timestamp :: real
  last_reset_at :: "int option"

definition ewma_update :: "ewma_state option \<Rightarrow> real \<Rightarrow> real \<Rightarrow> real \<Rightarrow> int option \<Rightarrow> ewma_state" where
  "ewma_update state used timestamp alpha reset =
     (let fresh = \<lparr>ewma_rate = None, last_used_percent = used, last_timestamp = timestamp, last_reset_at = reset\<rparr>
      in case state of None \<Rightarrow> fresh
         | Some s \<Rightarrow>
             (let dt = timestamp - last_timestamp s
              in if dt = 0 then s
                 else
                   let window_changed = (reset \<noteq> None \<and> last_reset_at s \<noteq> None \<and> reset \<noteq> last_reset_at s);
                       drop_pct = last_used_percent s - used
                   in if drop_pct > 0 \<or> window_changed then fresh
                      else
                        let raw_rate = max ((used - last_used_percent s) / dt) 0;
                            rate = (case ewma_rate s of None \<Rightarrow> raw_rate
                                    | Some r \<Rightarrow> alpha * raw_rate + (1 - alpha) * r)
                        in fresh\<lparr>ewma_rate := Some rate\<rparr>))"

definition compute_burn_rate :: "real \<Rightarrow> real \<Rightarrow> real \<Rightarrow> real" where
  "compute_burn_rate current_rate remaining_percent secs =
     (if current_rate = 0 \<or> secs = 0 then 0
      else let sustainable_rate = remaining_percent / secs
           in if sustainable_rate = 0 then 0 else current_rate / sustainable_rate)"

definition compute_depletion_risk :: "real \<Rightarrow> real \<Rightarrow> real \<Rightarrow> real" where
  "compute_depletion_risk used rate_per_second secs =
     (let projected = used + max 0 rate_per_second * secs in min (projected / 100) 1)"

definition compute_safe_usage_percent :: "real \<Rightarrow> real \<Rightarrow> real" where
  "compute_safe_usage_percent seconds_elapsed total_window_seconds =
     (if total_window_seconds = 0 then 0
      else min (max (seconds_elapsed / total_window_seconds) 0) 1 * 100)"

datatype risk_level = Safe | Warning | Danger | Critical

definition classify_risk :: "real \<Rightarrow> risk_level" where
  "classify_risk risk =
     (if risk \<ge> RISK_CRITICAL then Critical else if risk \<ge> RISK_DANGER then Danger
      else if risk \<ge> RISK_WARNING then Warning else Safe)"

definition aggregate_risks :: "real list \<Rightarrow> real" where
  "aggregate_risks risks = (case max_by (\<lambda>r. r) risks of Inl e \<Rightarrow> 0 | Inr m \<Rightarrow> m)"

fun risk_rank :: "risk_level \<Rightarrow> nat" where
  "risk_rank Safe = 0" | "risk_rank Warning = 1" | "risk_rank Danger = 2" | "risk_rank Critical = 3"

lemma depletion_risk_mono:
  "used \<le> used' \<Longrightarrow> rate \<le> rate' \<Longrightarrow> 0 \<le> secs \<Longrightarrow>
   compute_depletion_risk used rate secs \<le> compute_depletion_risk used' rate' secs"
proof -
  assume a: "used \<le> used'" "rate \<le> rate'" "0 \<le> secs"
  have "max 0 rate * secs \<le> max 0 rate' * secs" by (rule mult_right_mono) (use a in auto)
  then have "(used + max 0 rate * secs) / 100 \<le> (used' + max 0 rate' * secs) / 100" using a by simp
  then show ?thesis by (simp only: compute_depletion_risk_def Let_def min.mono order_refl)
qed

lemma classify_risk_mono: "a \<le> b \<Longrightarrow> risk_rank (classify_risk a) \<le> risk_rank (classify_risk b)"
  by (simp add: classify_risk_def RISK_CRITICAL_def RISK_DANGER_def RISK_WARNING_def)

lemma ewma_rate_nonneg:
  assumes "0 \<le> alpha" "alpha \<le> 1" "\<forall>s r. st = Some s \<and> ewma_rate s = Some r \<longrightarrow> 0 \<le> r"
  shows "ewma_rate (ewma_update st used t alpha reset) = Some r \<Longrightarrow> 0 \<le> r"
  using assms by (auto simp: ewma_update_def Let_def split: option.splits if_splits intro!: add_nonneg_nonneg mult_nonneg_nonneg)

lemma aggregate_risks_ge: "r \<in> set risks \<Longrightarrow> r \<le> aggregate_risks risks"
  using max_by_ge [of "\<lambda>r. r" risks] by (auto simp: aggregate_risks_def split: sum.splits)

end
