(* ===== verification/Account_Cache.thy ===== *)
theory Account_Cache
  imports TTL_Caches Balancer_State
begin

text \<open>
  \<open>app/modules/proxy/account_cache.py\<close>: the cache of selection inputs, a fourth instance of
  the versioned-cache contract, and the replica's view of which accounts are unavailable for
  routing. A refresh of that view awaits the database, so it is two steps: the marks present
  when it starts are remembered, then the rows read are merged. The cross-replica bump that
  each operation requests is left out. Sets are lists here.
\<close>

section \<open>Selection inputs\<close>

record ('k, 'v) selection_cache =
  sel_ttl_seconds :: int
  sel_entries :: "('k \<times> 'v \<times> real) list"
  sel_generation :: int

definition new_selection_cache :: "int \<Rightarrow> ('k, 'v) selection_cache result" where
  "new_selection_cache ttl =
     (if ttl < 0 then Inl ValueError else Inr \<lparr>sel_ttl_seconds = ttl, sel_entries = [], sel_generation = 0\<rparr>)"

definition selection_cache_get :: "real \<Rightarrow> 'k \<Rightarrow> ('k, 'v) selection_cache \<Rightarrow> 'v option" where
  "selection_cache_get now key c =
     (if sel_ttl_seconds c = 0 then None
      else case map_of (sel_entries c) key of None \<Rightarrow> None
           | Some (data, expires_at) \<Rightarrow> if now \<ge> expires_at then None else Some data)"

definition selection_cache_set ::
    "real \<Rightarrow> 'k \<Rightarrow> 'v \<Rightarrow> int option \<Rightarrow> ('k, 'v) selection_cache \<Rightarrow> ('k, 'v) selection_cache" where
  "selection_cache_set now key data gen c =
     (if gen \<noteq> None \<and> gen \<noteq> Some (sel_generation c) then c
      else c\<lparr>sel_entries := AList.update key (data, now + of_int (sel_ttl_seconds c)) (sel_entries c)\<rparr>)"

definition selection_cache_invalidate :: "('k, 'v) selection_cache \<Rightarrow> ('k, 'v) selection_cache" where
  "selection_cache_invalidate c = c\<lparr>sel_generation := sel_generation c + 1, sel_entries := []\<rparr>"

definition selection_empty :: "int \<Rightarrow> ('k, 'v) selection_cache" where
  "selection_empty ttl = \<lparr>sel_ttl_seconds = ttl, sel_entries = [], sel_generation = 0\<rparr>"

interpretation selection_inputs: versioned_cache "selection_empty ttl" selection_cache_get
    "\<lambda>t k x v. selection_cache_set t k x (Some v)" "\<lambda>_ :: unit. selection_cache_invalidate" "\<lambda>t k c. c"
    "\<lambda>_ _. True" sel_generation "\<lambda>c. of_int (sel_ttl_seconds c)"
  for ttl
  by unfold_locales
    (auto simp: selection_empty_def selection_cache_get_def selection_cache_set_def selection_cache_invalidate_def
      update_conv' split: option.splits if_splits)

lemma selection_hit_fresh:
  assumes "selection_cache_get now k (fold (cache_step (\<lambda>t k x v. selection_cache_set t k x (Some v))
      (\<lambda>_ :: unit. selection_cache_invalidate) (\<lambda>t k c. c)) evs (selection_empty ttl)) = Some x"
  shows "\<exists>pre t post. evs = pre @ Store t k x (invalidations pre) # post
    \<and> now < t + of_int ttl \<and> quiet (\<lambda>_ _. True) k post"
  using selection_inputs.lookup_fresh [OF assms] by (simp add: selection_empty_def)

section \<open>Routing availability\<close>

record availability =
  snapshot :: "(string \<times> account_status) list option"
  local_marks :: "string list"

definition new_availability :: availability where
  "new_availability = \<lparr>snapshot = None, local_marks = []\<rparr>"

definition routing_unavailable_status :: "account_status \<Rightarrow> bool" where
  "routing_unavailable_status st = (st \<in> {PAUSED, REAUTH_REQUIRED, DEACTIVATED})"

definition mark_unavailable :: "string \<Rightarrow> availability \<Rightarrow> availability" where
  "mark_unavailable aid c = c\<lparr>local_marks := List.insert aid (local_marks c)\<rparr>"

definition clear_unavailable :: "string \<Rightarrow> availability \<Rightarrow> availability" where
  "clear_unavailable aid c =
     c\<lparr>local_marks := removeAll aid (local_marks c),
       snapshot := map_option (AList.update aid ACTIVE) (snapshot c)\<rparr>"

definition is_unavailable :: "string \<Rightarrow> availability \<Rightarrow> bool" where
  "is_unavailable aid c =
     (if aid \<in> set (local_marks c) then True
      else case snapshot c of None \<Rightarrow> False
           | Some rows \<Rightarrow>
               (case map_of rows aid of None \<Rightarrow> True | Some st \<Rightarrow> routing_unavailable_status st))"

definition begin_refresh :: "availability \<Rightarrow> string list" where
  "begin_refresh c = local_marks c"

definition finish_refresh ::
    "string list \<Rightarrow> (string \<times> account_status) list \<Rightarrow> availability \<Rightarrow> availability" where
  "finish_refresh marks_before rows c =
     c\<lparr>snapshot := Some rows,
       local_marks :=
         filter (\<lambda>aid. aid \<notin> set marks_before
                  \<or> (case map_of rows aid of None \<Rightarrow> True | Some st \<Rightarrow> routing_unavailable_status st))
           (local_marks c)\<rparr>"

definition reset_availability :: "availability \<Rightarrow> availability" where
  "reset_availability c = new_availability"

lemma is_unavailable_seeded:
  "snapshot c = Some rows \<Longrightarrow> is_unavailable aid c \<longleftrightarrow>
     aid \<in> set (local_marks c) \<or> (case map_of rows aid of None \<Rightarrow> True | Some st \<Rightarrow> routing_unavailable_status st)"
  by (simp add: is_unavailable_def)

text \<open>
  No mark is lost to a refresh: an account marked while the refresh is reading the database
  is unavailable after it, whatever rows were read; a mark older than the refresh survives
  exactly when the committed status still forbids routing; and an unmarked account is
  unavailable afterwards exactly when its committed status says so or it is gone.
\<close>

theorem refresh_keeps_new_marks:
  assumes "before = begin_refresh c" "after = finish_refresh before rows (mark_unavailable aid c)"
  shows "(aid \<notin> set before \<longrightarrow> is_unavailable aid after)
    \<and> (\<forall>other. other \<noteq> aid \<or> aid \<in> set before \<longrightarrow>
        (is_unavailable other after \<longleftrightarrow>
          (case map_of rows other of None \<Rightarrow> True | Some st \<Rightarrow> routing_unavailable_status st)))"
  using assms
  by (auto simp: begin_refresh_def finish_refresh_def mark_unavailable_def is_unavailable_def split: option.split)

theorem refresh_keeps_new_marks_witness:
  "is_unavailable ''a'' (finish_refresh (begin_refresh new_availability) [(''a'', ACTIVE)]
     (mark_unavailable ''a'' new_availability))"
proof -
  have "''a'' \<notin> set (begin_refresh new_availability)" by code_simp
  with refresh_keeps_new_marks [OF refl refl, of "''a''" new_availability "[(''a'', ACTIVE)]"] show ?thesis by blast
qed

end
