(* ===== verification/Sticky_Sessions.thy ===== *)
theory Sticky_Sessions
  imports Plans
begin

text \<open>
  The table of sticky sessions: \<open>app/modules/proxy/sticky_repository.py\<close> and the operations of
  \<open>app/modules/sticky_sessions/service.py\<close> on it. A row binds a key of one kind to an account;
  the pair of key and kind is the primary key. Every statement commits on its own and is one
  step; times are microseconds. The lookup that finds an expired row deletes it in a second
  statement, so other sessions run between the two. The account table is given by the e-mail
  addresses, which the dashboard filters read.
\<close>

section \<open>Rows\<close>

datatype sticky_kind = CODEX_SESSION | STICKY_THREAD | PROMPT_CACHE

record sticky_row =
  sk_key :: string
  sk_kind :: sticky_kind
  sk_account :: string
  sk_created :: int
  sk_updated :: int

type_synonym sticky_table = "sticky_row list"

definition at_key :: "string \<Rightarrow> sticky_kind \<Rightarrow> sticky_row \<Rightarrow> bool" where
  "at_key key kind r = (sk_key r = key \<and> sk_kind r = kind)"

definition row_ident :: "sticky_row \<Rightarrow> string \<times> sticky_kind" where
  "row_ident r = (sk_key r, sk_kind r)"

definition wf_sticky :: "sticky_table \<Rightarrow> bool" where
  "wf_sticky t = distinct (map row_ident t)"

section \<open>Statements\<close>

definition get_entry :: "string \<Rightarrow> sticky_kind \<Rightarrow> sticky_table \<Rightarrow> sticky_row option" where
  "get_entry key kind t = (if key = [] then None else find (at_key key kind) t)"

definition delete_entry :: "string \<Rightarrow> sticky_kind \<Rightarrow> sticky_table \<Rightarrow> bool \<times> sticky_table" where
  "delete_entry key kind t =
     (if key = [] then (False, t)
      else (list_ex (at_key key kind) t, filter (\<lambda>r. \<not> at_key key kind r) t))"

definition upsert_entry :: "int \<Rightarrow> string \<Rightarrow> string \<Rightarrow> sticky_kind \<Rightarrow> sticky_table \<Rightarrow> sticky_table" where
  "upsert_entry now key account kind t =
     (if list_ex (at_key key kind) t
      then map (\<lambda>r. if at_key key kind r then r\<lparr>sk_account := account, sk_updated := now\<rparr> else r) t
      else t @ [\<lparr>sk_key = key, sk_kind = kind, sk_account = account, sk_created = now, sk_updated = now\<rparr>])"

definition insert_do_nothing :: "int \<Rightarrow> string \<Rightarrow> string \<Rightarrow> sticky_kind \<Rightarrow> sticky_table \<Rightarrow> bool \<times> sticky_table" where
  "insert_do_nothing now key account kind t =
     (if list_ex (at_key key kind) t then (False, t)
      else (True, t @ [\<lparr>sk_key = key, sk_kind = kind, sk_account = account, sk_created = now, sk_updated = now\<rparr>]))"

definition restore_if_current ::
    "int \<Rightarrow> string \<Rightarrow> sticky_kind \<Rightarrow> string option \<Rightarrow> string option \<Rightarrow> sticky_table \<Rightarrow> bool \<times> sticky_table" where
  "restore_if_current now key kind expected restore t =
     (if key = [] then (False, t)
      else case expected of
        None \<Rightarrow> (case restore of None \<Rightarrow> (True, t) | Some a \<Rightarrow> insert_do_nothing now key a kind t)
      | Some e \<Rightarrow>
          (let current = (\<lambda>r. at_key key kind r \<and> sk_account r = e)
           in case restore of
                None \<Rightarrow> (list_ex current t, filter (\<lambda>r. \<not> current r) t)
              | Some a \<Rightarrow>
                  (list_ex current t,
                   map (\<lambda>r. if current r then r\<lparr>sk_account := a, sk_updated := now\<rparr> else r) t)))"

text \<open>\<open>others\<close> is what other sessions do between the two statements.\<close>

definition get_account_id ::
    "(sticky_table \<Rightarrow> sticky_table) \<Rightarrow> int \<Rightarrow> string \<Rightarrow> sticky_kind \<Rightarrow> int option \<Rightarrow> sticky_table
     \<Rightarrow> string option \<times> sticky_table" where
  "get_account_id others now key kind max_age_seconds t =
     (case get_entry key kind t of
        None \<Rightarrow> (None, t)
      | Some row \<Rightarrow>
          (case max_age_seconds of
             None \<Rightarrow> (Some (sk_account row), t)
           | Some age \<Rightarrow>
               (if sk_updated row < now - age * 1000000
                then (None, snd (delete_entry key kind (others t)))
                else (Some (sk_account row), t))))"

definition purge_before :: "int \<Rightarrow> sticky_kind option \<Rightarrow> sticky_table \<Rightarrow> nat \<times> sticky_table" where
  "purge_before cutoff kind t =
     (let doomed = (\<lambda>r. sk_updated r < cutoff \<and> (case kind of None \<Rightarrow> True | Some k \<Rightarrow> sk_kind r = k))
      in (length (filter doomed t), filter (\<lambda>r. \<not> doomed r) t))"

definition purge_prompt_cache_before :: "int \<Rightarrow> sticky_table \<Rightarrow> nat \<times> sticky_table" where
  "purge_prompt_cache_before cutoff t = purge_before cutoff (Some PROMPT_CACHE) t"

section \<open>Deleting many entries\<close>

definition DELETE_ENTRIES_CHUNK_SIZE :: nat where "DELETE_ENTRIES_CHUNK_SIZE = 250"

definition delete_chunk ::
    "(string \<times> sticky_kind) list \<Rightarrow> sticky_table \<Rightarrow> (string \<times> sticky_kind) list \<times> sticky_table" where
  "delete_chunk chunk t =
     (map row_ident (filter (\<lambda>r. row_ident r \<in> set chunk) t), filter (\<lambda>r. row_ident r \<notin> set chunk) t)"

fun delete_chunks ::
    "nat \<Rightarrow> (string \<times> sticky_kind) list \<Rightarrow> sticky_table \<Rightarrow> (string \<times> sticky_kind) list \<times> sticky_table" where
  "delete_chunks n [] t = ([], t)"
| "delete_chunks n (x # xs) t =
     (let (deleted, t1) = delete_chunk (x # take n xs) t;
          (more, t2) = delete_chunks n (drop n xs) t1
      in (deleted @ more, t2))"

text \<open>The targets pass through a Python set; its order is the argument's, duplicates removed.\<close>

definition delete_entries ::
    "(string \<times> sticky_kind) list \<Rightarrow> sticky_table \<Rightarrow> (string \<times> sticky_kind) list \<times> sticky_table" where
  "delete_entries entries t =
     (let targets = remdups (filter (\<lambda>(key, kind). key \<noteq> []) entries)
      in if targets = [] then ([], t) else delete_chunks (DELETE_ENTRIES_CHUNK_SIZE - 1) targets t)"

fun first_occurrences :: "'a list \<Rightarrow> 'a list \<Rightarrow> 'a list" where
  "first_occurrences seen [] = []"
| "first_occurrences seen (x # xs) =
     (if x \<in> set seen then first_occurrences seen xs else x # first_occurrences (x # seen) xs)"

definition service_delete_entries ::
    "(string \<times> sticky_kind) list \<Rightarrow> sticky_table
     \<Rightarrow> (string \<times> sticky_kind) list \<times> (string \<times> sticky_kind \<times> string) list \<times> sticky_table" where
  "service_delete_entries entries t =
     (let targets = first_occurrences [] (filter (\<lambda>(key, kind). key \<noteq> []) entries);
          (deleted, t') = delete_entries targets t
      in (deleted,
          map (\<lambda>(key, kind). (key, kind, ''not_found'')) (filter (\<lambda>x. x \<notin> set deleted) targets), t'))"

section \<open>Listing\<close>

text \<open>SQL's \<open>LIKE\<close> with its two wildcards: the query text is not escaped.\<close>

fun like_match :: "string \<Rightarrow> string \<Rightarrow> bool" where
  "like_match [] s = (s = [])"
| "like_match (p # ps) [] = (p = CHR ''%'' \<and> like_match ps [])"
| "like_match (p # ps) (c # s) =
     (if p = CHR ''%'' then like_match ps (c # s) \<or> like_match (p # ps) s
      else (p = CHR ''_'' \<or> p = c) \<and> like_match ps s)"

definition sql_contains :: "string \<Rightarrow> string \<Rightarrow> bool" where
  "sql_contains value query = like_match (CHR ''%'' # query @ ''%'') value"

record sticky_filter =
  f_kind :: "sticky_kind option"
  f_updated_before :: "int option"
  f_account_query :: "string option"
  f_key_query :: "string option"

definition query_matches :: "string option \<Rightarrow> string \<Rightarrow> bool" where
  "query_matches query value =
     (case query of None \<Rightarrow> True | Some q \<Rightarrow> q = [] \<or> sql_contains (py_lower value) (py_lower q))"

definition apply_filters :: "(string \<Rightarrow> string option) \<Rightarrow> sticky_filter \<Rightarrow> sticky_table \<Rightarrow> (sticky_row \<times> string) list" where
  "apply_filters email f t =
     List.map_filter (\<lambda>r. case email (sk_account r) of None \<Rightarrow> None
        | Some e \<Rightarrow>
            (if (case f_kind f of None \<Rightarrow> True | Some k \<Rightarrow> sk_kind r = k)
                \<and> (case f_updated_before f of None \<Rightarrow> True | Some u \<Rightarrow> sk_updated r < u)
                \<and> query_matches (f_account_query f) e \<and> query_matches (f_key_query f) (sk_key r)
             then Some (r, e) else None)) t"

datatype sticky_sort = By_updated | By_created | By_account | By_key

text \<open>A stable descending sort, and the order of the secondary keys.\<close>

definition sort_desc :: "('a \<Rightarrow> 'k :: linorder) \<Rightarrow> 'a list \<Rightarrow> 'a list" where
  "sort_desc k xs = rev (sort_key k (rev xs))"

definition sort_dir :: "bool \<Rightarrow> ('a \<Rightarrow> 'k :: linorder) \<Rightarrow> 'a list \<Rightarrow> 'a list" where
  "sort_dir asc k xs = (if asc then sort_key k xs else sort_desc k xs)"

definition order_entries :: "sticky_sort \<Rightarrow> bool \<Rightarrow> (sticky_row \<times> string) list \<Rightarrow> (sticky_row \<times> string) list" where
  "order_entries by asc xs =
     (case by of
        By_updated \<Rightarrow>
          sort_dir asc (\<lambda>p. sk_updated (fst p)) (sort_desc (\<lambda>p. sk_created (fst p)) (sort_key (\<lambda>p. sk_key (fst p)) xs))
      | By_created \<Rightarrow>
          sort_dir asc (\<lambda>p. sk_created (fst p)) (sort_desc (\<lambda>p. sk_updated (fst p)) (sort_key (\<lambda>p. sk_key (fst p)) xs))
      | By_account \<Rightarrow>
          sort_dir asc snd (sort_desc (\<lambda>p. sk_updated (fst p)) (sort_key (\<lambda>p. sk_key (fst p)) xs))
      | By_key \<Rightarrow>
          sort_dir asc (\<lambda>p. sk_key (fst p)) (sort_desc (\<lambda>p. sk_updated (fst p)) (sort_desc (\<lambda>p. sk_created (fst p)) xs)))"

definition list_entry_identifiers ::
    "(string \<Rightarrow> string option) \<Rightarrow> sticky_filter \<Rightarrow> sticky_table \<Rightarrow> (string \<times> sticky_kind) list" where
  "list_entry_identifiers email f t =
     map (row_ident \<circ> fst) (order_entries By_updated False (apply_filters email f t))"

definition count_entries :: "(string \<Rightarrow> string option) \<Rightarrow> sticky_filter \<Rightarrow> sticky_table \<Rightarrow> nat" where
  "count_entries email f t = length (apply_filters email f t)"

definition list_entries ::
    "(string \<Rightarrow> string option) \<Rightarrow> sticky_filter \<Rightarrow> sticky_sort \<Rightarrow> bool \<Rightarrow> nat \<Rightarrow> nat option \<Rightarrow> sticky_table
     \<Rightarrow> (sticky_row \<times> string) list" where
  "list_entries email f by asc offset limit t =
     (let rows = drop offset (order_entries by asc (apply_filters email f t))
      in case limit of None \<Rightarrow> rows | Some n \<Rightarrow> take n rows)"

record sticky_page =
  pg_entries :: "(sticky_row \<times> string \<times> int option \<times> bool) list"
  pg_stale_count :: nat
  pg_total :: nat
  pg_has_more :: bool

definition to_entry :: "int \<Rightarrow> int \<Rightarrow> sticky_row \<times> string \<Rightarrow> sticky_row \<times> string \<times> int option \<times> bool" where
  "to_entry now ttl_seconds p =
     (case p of (r, name) \<Rightarrow>
        if sk_kind r = PROMPT_CACHE
        then let expires = sk_updated r + ttl_seconds * 1000000 in (r, name, Some expires, expires \<le> now)
        else (r, name, None, False))"

definition normalized_query :: "string option \<Rightarrow> string option" where
  "normalized_query q = (case q of None \<Rightarrow> None | Some s \<Rightarrow> if s = [] then None else Some (py_strip s))"

definition stale_scope :: "bool \<Rightarrow> sticky_kind option \<Rightarrow> bool" where
  "stale_scope stale_only kind = (stale_only \<longrightarrow> kind = None \<or> kind = Some PROMPT_CACHE)"

definition service_filter ::
    "int \<Rightarrow> sticky_kind option \<Rightarrow> bool \<Rightarrow> string option \<Rightarrow> string option \<Rightarrow> sticky_filter" where
  "service_filter stale_cutoff kind stale_only account_query key_query =
     \<lparr>f_kind = (if stale_only then Some PROMPT_CACHE else kind),
      f_updated_before = (if stale_only then Some stale_cutoff else None),
      f_account_query = normalized_query account_query, f_key_query = normalized_query key_query\<rparr>"

definition count_stale_prompt_cache_entries ::
    "(string \<Rightarrow> string option) \<Rightarrow> sticky_kind option \<Rightarrow> int \<Rightarrow> sticky_table \<Rightarrow> nat" where
  "count_stale_prompt_cache_entries email kind stale_cutoff t =
     (if kind \<noteq> None \<and> kind \<noteq> Some PROMPT_CACHE then 0
      else count_entries email \<lparr>f_kind = Some PROMPT_CACHE, f_updated_before = Some stale_cutoff,
             f_account_query = None, f_key_query = None\<rparr> t)"

definition service_list_entries ::
    "(string \<Rightarrow> string option) \<Rightarrow> int \<Rightarrow> int \<Rightarrow> sticky_kind option \<Rightarrow> bool \<Rightarrow> string option \<Rightarrow> string option
     \<Rightarrow> sticky_sort \<Rightarrow> bool \<Rightarrow> nat \<Rightarrow> nat \<Rightarrow> sticky_table \<Rightarrow> sticky_page" where
  "service_list_entries email now ttl_seconds kind stale_only account_query key_query by asc offset limit t =
     (let stale_cutoff = now - ttl_seconds * 1000000;
          stale = count_stale_prompt_cache_entries email kind stale_cutoff t
      in if \<not> stale_scope stale_only kind
         then \<lparr>pg_entries = [], pg_stale_count = stale, pg_total = 0, pg_has_more = False\<rparr>
         else
           let f = service_filter stale_cutoff kind stale_only account_query key_query;
               total = count_entries email f t;
               entries = map (to_entry now ttl_seconds) (list_entries email f by asc offset (Some limit) t)
           in \<lparr>pg_entries = entries, pg_stale_count = stale, pg_total = total,
               pg_has_more = offset + length entries < total\<rparr>)"

definition delete_filtered_entries ::
    "(string \<Rightarrow> string option) \<Rightarrow> int \<Rightarrow> int \<Rightarrow> sticky_kind option \<Rightarrow> bool \<Rightarrow> string option \<Rightarrow> string option
     \<Rightarrow> sticky_table \<Rightarrow> nat \<times> sticky_table" where
  "delete_filtered_entries email now ttl_seconds kind stale_only account_query key_query t =
     (if \<not> stale_scope stale_only kind then (0, t)
      else
        let targets = list_entry_identifiers email
              (service_filter (now - ttl_seconds * 1000000) kind stale_only account_query key_query) t;
            (deleted, t') = delete_entries targets t
        in (length deleted, t'))"

definition purge_entries :: "int \<Rightarrow> int \<Rightarrow> sticky_table \<Rightarrow> nat \<times> sticky_table" where
  "purge_entries now ttl_seconds t = purge_prompt_cache_before (now - ttl_seconds * 1000000) t"


section \<open>The table as a finite map\<close>

definition sticky_owner :: "sticky_table \<Rightarrow> string \<Rightarrow> sticky_kind \<Rightarrow> string option" where
  "sticky_owner t key kind = map_option sk_account (find (at_key key kind) t)"

lemma find_at_key_None: "find (at_key k d) t = None \<longleftrightarrow> (k, d) \<notin> row_ident ` set t"
  by (induction t) (auto simp: at_key_def row_ident_def)

lemma list_ex_at_key: "list_ex (at_key k d) t \<longleftrightarrow> (k, d) \<in> row_ident ` set t"
  by (induction t) (auto simp: at_key_def row_ident_def)

lemma sticky_owner_None: "sticky_owner t k d = None \<longleftrightarrow> (k, d) \<notin> row_ident ` set t"
  by (simp add: sticky_owner_def find_at_key_None)

lemma find_append_fresh: "find P (xs @ ys) = (case find P xs of None \<Rightarrow> find P ys | Some x \<Rightarrow> Some x)"
  by (induction xs) auto

lemma sticky_owner_simps [simp]:
  "sticky_owner [] k d = None"
  "sticky_owner (r # t) k d = (if at_key k d r then Some (sk_account r) else sticky_owner t k d)"
  by (simp_all add: sticky_owner_def)

lemma sticky_owner_append [simp]:
  "sticky_owner (t @ u) k d = (case sticky_owner t k d of None \<Rightarrow> sticky_owner u k d | Some a \<Rightarrow> Some a)"
  by (induction t) auto

lemma owner_map_update:
  assumes "\<And>r. sk_key (f r) = sk_key r" "\<And>r. sk_kind (f r) = sk_kind r"
  shows "sticky_owner (map f t) k d = map_option (\<lambda>r. sk_account (f r)) (find (at_key k d) t)"
  by (induction t) (auto simp: at_key_def assms)

lemma owner_filter_other:
  assumes "\<And>r. at_key k d r \<Longrightarrow> P r"
  shows "sticky_owner (filter P t) k d = sticky_owner t k d"
  using assms by (induction t) auto

lemma owner_filter_none:
  assumes "\<And>r. r \<in> set t \<Longrightarrow> at_key k d r \<Longrightarrow> \<not> P r"
  shows "sticky_owner (filter P t) k d = None"
  using assms by (induction t) auto

lemma find_at_key_same: "find (at_key k d) t = Some r \<Longrightarrow> at_key k d r \<and> r \<in> set t"
  by (induction t) (auto split: if_splits)

lemma owner_unique:
  assumes "wf_sticky t" "r \<in> set t" "at_key k d r"
  shows "sticky_owner t k d = Some (sk_account r)"
  using assms by (induction t) (auto simp: wf_sticky_def at_key_def row_ident_def image_iff)

lemma owner_upsert:
  "sticky_owner (upsert_entry now k a d t) k' d' = (if k' = k \<and> d' = d then Some a else sticky_owner t k' d')"
proof (cases "list_ex (at_key k d) t")
  case True
  then obtain r where r: "find (at_key k d) t = Some r"
    using find_at_key_None list_ex_at_key by (metis not_Some_eq)
  have "sticky_owner (upsert_entry now k a d t) k' d' =
      map_option (\<lambda>r. sk_account (if at_key k d r then r\<lparr>sk_account := a, sk_updated := now\<rparr> else r)) (find (at_key k' d') t)"
    using True unfolding upsert_entry_def by (subst if_P) (auto intro!: owner_map_update)
  also have "\<dots> = (if k' = k \<and> d' = d then Some a else sticky_owner t k' d')"
    using r by (auto simp: sticky_owner_def at_key_def dest: find_at_key_same split: option.splits intro!: map_option_cong)
  finally show ?thesis .
next
  case False
  then have "sticky_owner t k d = None" by (simp add: sticky_owner_None list_ex_at_key)
  with False show ?thesis by (auto simp: upsert_entry_def at_key_def split: option.split)
qed

lemma owner_delete:
  assumes "k \<noteq> []"
  shows "sticky_owner (snd (delete_entry k d t)) k' d' = (if k' = k \<and> d' = d then None else sticky_owner t k' d')"
  using assms by (auto simp: delete_entry_def at_key_def intro: owner_filter_none owner_filter_other)

lemma upsert_wf: "wf_sticky t \<Longrightarrow> wf_sticky (upsert_entry now k a d t)"
  by (auto simp: wf_sticky_def upsert_entry_def list_ex_at_key row_ident_def comp_def cong: if_cong
      intro: arg_cong [where f = distinct, THEN iffD1, rotated])

lemma filter_wf: "wf_sticky t \<Longrightarrow> wf_sticky (filter P t)"
  by (auto simp: wf_sticky_def distinct_map intro: inj_on_subset)

lemma map_account_wf:
  assumes "wf_sticky t" "\<And>r. row_ident (f r) = row_ident r"
  shows "wf_sticky (map f t)"
  using assms by (simp add: wf_sticky_def comp_def)

lemma restore_wf: "wf_sticky t \<Longrightarrow> wf_sticky (snd (restore_if_current now k d e p t))"
  by (auto simp: restore_if_current_def insert_do_nothing_def filter_wf Let_def list_ex_at_key
      intro!: map_account_wf split: option.split)
    (auto simp: wf_sticky_def row_ident_def)

lemma get_account_id_wf:
  "wf_sticky t \<Longrightarrow> wf_sticky (others t) \<Longrightarrow> wf_sticky (snd (get_account_id others now k d age t))"
  by (auto simp: get_account_id_def delete_entry_def filter_wf split: option.split)

lemma owner_restore_delete:
  assumes "wf_sticky t"
  shows "sticky_owner (filter (\<lambda>r. at_key k d r \<longrightarrow> sk_account r \<noteq> e) t) k' d' =
    (if k' = k \<and> d' = d \<and> sticky_owner t k d = Some e then None else sticky_owner t k' d')"
proof (cases "k' = k \<and> d' = d")
  case True
  show ?thesis
  proof (cases "sticky_owner t k d = Some e")
    case own: True
    have "r \<in> set t \<Longrightarrow> at_key k d r \<Longrightarrow> sk_account r = e" for r
      using owner_unique [OF assms, of r k d] own by simp
    then show ?thesis using True own by (auto intro!: owner_filter_none)
  next
    case other: False
    have "filter (\<lambda>r. at_key k d r \<longrightarrow> sk_account r \<noteq> e) t = t"
      using owner_unique [OF assms, of _ k d] other by (intro filter_True) auto
    then show ?thesis using True other by simp
  qed
next
  case False
  then show ?thesis by (auto intro!: owner_filter_other simp: at_key_def)
qed

lemma owner_restore_update:
  assumes "wf_sticky t"
  shows "sticky_owner (map (\<lambda>r. if at_key k d r \<and> sk_account r = e then r\<lparr>sk_account := a, sk_updated := now\<rparr> else r) t) k' d' =
    (if k' = k \<and> d' = d \<and> sticky_owner t k d = Some e then Some a else sticky_owner t k' d')"
proof -
  have "sticky_owner (map (\<lambda>r. if at_key k d r \<and> sk_account r = e then r\<lparr>sk_account := a, sk_updated := now\<rparr> else r) t) k' d'
      = map_option (\<lambda>r. if at_key k d r \<and> sk_account r = e then a else sk_account r) (find (at_key k' d') t)"
    by (subst owner_map_update) (auto intro!: map_option_cong)
  also have "\<dots> = (if k' = k \<and> d' = d \<and> sticky_owner t k d = Some e then Some a else sticky_owner t k' d')"
    using find_at_key_same [of k' d' t]
    by (cases "find (at_key k' d') t"; cases "k' = k \<and> d' = d") (auto simp: sticky_owner_def at_key_def)
  finally show ?thesis .
qed

text \<open>Restoring is a compare-and-set on the owner of the key.\<close>

lemma owner_restore:
  assumes "wf_sticky t" "k \<noteq> []"
  shows "sticky_owner (snd (restore_if_current now k d e p t)) k' d' =
    (if k' = k \<and> d' = d \<and> sticky_owner t k d = e then p else sticky_owner t k' d')"
proof (cases e)
  case None
  have "list_ex (at_key k d) t \<longleftrightarrow> sticky_owner t k d \<noteq> None" by (simp add: list_ex_at_key sticky_owner_None)
  then show ?thesis using assms None
    by (auto simp: restore_if_current_def insert_do_nothing_def at_key_def split: option.split)
next
  case (Some o')
  then show ?thesis
    by (cases p) (simp_all add: restore_if_current_def assms(2) Let_def owner_restore_delete [OF assms(1)]
        owner_restore_update [OF assms(1)])
qed

section \<open>Deleting in chunks\<close>

lemma delete_chunks_spec:
  "set (fst (delete_chunks n xs t)) = set xs \<inter> row_ident ` set t
   \<and> snd (delete_chunks n xs t) = filter (\<lambda>r. row_ident r \<notin> set xs) t"
proof (induction n xs t rule: delete_chunks.induct)
  case (2 n x xs t)
  let ?c = "x # take n xs"
  have split: "set (x # xs) = set ?c \<union> set (drop n xs)" by (simp add: set_append [symmetric] del: set_append)
  obtain d1 t1 where c: "delete_chunk ?c t = (d1, t1)" by fastforce
  obtain d2 t2 where m: "delete_chunks n (drop n xs) t1 = (d2, t2)" by fastforce
  have "set d2 = set (drop n xs) \<inter> row_ident ` set t1" and "t2 = filter (\<lambda>r. row_ident r \<notin> set (drop n xs)) t1"
    using 2 [OF c [symmetric] refl] m by simp_all
  moreover have "d1 = map row_ident (filter (\<lambda>r. row_ident r \<in> set ?c) t)" and "t1 = filter (\<lambda>r. row_ident r \<notin> set ?c) t"
    using c by (simp_all add: delete_chunk_def)
  moreover have "delete_chunks n (x # xs) t = (d1 @ d2, t2)" by (simp add: c m)
  ultimately show ?case unfolding split by auto
qed simp

lemma delete_entries_spec:
  "set (fst (delete_entries es t)) = {x \<in> set es. fst x \<noteq> []} \<inter> row_ident ` set t"
  "snd (delete_entries es t) = filter (\<lambda>r. sk_key r = [] \<or> row_ident r \<notin> set es) t"
proof -
  let ?xs = "remdups (filter (\<lambda>(key, kind). key \<noteq> []) es)"
  have "delete_entries es t = delete_chunks (DELETE_ENTRIES_CHUNK_SIZE - 1) ?xs t"
    unfolding delete_entries_def Let_def by (cases ?xs) (simp_all only: delete_chunks.simps if_True if_False list.distinct simp_thms)
  moreover have "set ?xs = {x \<in> set es. fst x \<noteq> []}" by auto
  moreover have "filter (\<lambda>r. row_ident r \<notin> {x \<in> set es. fst x \<noteq> []}) t = filter (\<lambda>r. sk_key r = [] \<or> row_ident r \<notin> set es) t"
    by (rule filter_cong) (auto simp: row_ident_def)
  ultimately show "set (fst (delete_entries es t)) = {x \<in> set es. fst x \<noteq> []} \<inter> row_ident ` set t"
    and "snd (delete_entries es t) = filter (\<lambda>r. sk_key r = [] \<or> row_ident r \<notin> set es) t"
    using delete_chunks_spec [of "DELETE_ENTRIES_CHUNK_SIZE - 1" ?xs t] by simp_all
qed

lemma delete_chunks_distinct:
  "wf_sticky t \<Longrightarrow> distinct (fst (delete_chunks n xs t))"
proof (induction n xs t rule: delete_chunks.induct)
  case (2 n x xs t)
  let ?c = "x # take n xs"
  obtain d1 t1 where c: "delete_chunk ?c t = (d1, t1)" by fastforce
  obtain d2 t2 where m: "delete_chunks n (drop n xs) t1 = (d2, t2)" by fastforce
  have t1: "t1 = filter (\<lambda>r. row_ident r \<notin> set ?c) t" and d1: "d1 = map row_ident (filter (\<lambda>r. row_ident r \<in> set ?c) t)"
    using c by (simp_all add: delete_chunk_def)
  have "distinct d2" using 2(1) [OF c [symmetric] refl] 2(2) m t1 filter_wf by auto
  moreover have "distinct d1" using filter_wf [OF 2(2)] d1 by (simp add: wf_sticky_def)
  moreover have "set d2 \<subseteq> row_ident ` set t1" using delete_chunks_spec [of n "drop n xs" t1] m by auto
  moreover have "delete_chunks n (x # xs) t = (d1 @ d2, t2)" by (simp add: c m)
  ultimately show ?case using t1 d1 by auto
qed simp

lemma first_occurrences_spec:
  "set (first_occurrences seen xs) = set xs - set seen \<and> distinct (first_occurrences seen xs)"
  by (induction seen xs rule: first_occurrences.induct) auto


lemma deleted_count:
  assumes "wf_sticky t"
  shows "length (fst (delete_entries es t)) + length (snd (delete_entries es t)) = length t"
proof -
  let ?P = "\<lambda>r. sk_key r = [] \<or> row_ident r \<notin> set es"
  have "distinct (fst (delete_entries es t))"
    using delete_chunks_distinct [OF assms] by (auto simp: delete_entries_def Let_def)
  then have "length (fst (delete_entries es t)) = card ({x \<in> set es. fst x \<noteq> []} \<inter> row_ident ` set t)"
    by (simp add: distinct_card [symmetric] delete_entries_spec)
  also have "{x \<in> set es. fst x \<noteq> []} \<inter> row_ident ` set t = set (map row_ident (filter (\<lambda>r. \<not> ?P r) t))"
    by (auto simp: row_ident_def)
  also have "card \<dots> = length (filter (\<lambda>r. \<not> ?P r) t)"
    using filter_wf [OF assms, of "\<lambda>r. \<not> ?P r"] by (subst distinct_card) (simp_all add: wf_sticky_def)
  finally show ?thesis using sum_length_filter_compl [of ?P t] by (simp add: delete_entries_spec)
qed

section \<open>Listing and filtered deletion agree\<close>

lemma set_sort_dir [simp]: "set (sort_dir asc k xs) = set xs" "set (sort_desc k xs) = set xs"
  by (simp_all add: sort_dir_def sort_desc_def)

lemma length_sort_dir [simp]: "length (sort_dir asc k xs) = length xs" "length (sort_desc k xs) = length xs"
  by (simp_all add: sort_dir_def sort_desc_def)

lemma order_entries_same [simp]:
  "set (order_entries by asc xs) = set xs" "length (order_entries by asc xs) = length xs"
  by (simp_all add: order_entries_def split: sticky_sort.split)

lemma page_next:
  assumes "stale_scope stale_only kind" "0 < limit"
  shows "pg_has_more (service_list_entries email now ttl kind stale_only aq kq by asc offset limit t)
    \<longleftrightarrow> pg_entries (service_list_entries email now ttl kind stale_only aq kq by asc (offset + limit) limit t) \<noteq> []"
  using assms by (auto simp: service_list_entries_def Let_def list_entries_def count_entries_def min_def)

lemma filtered_deletion:
  fixes now ttl :: int and aq kq :: "string option"
  assumes "wf_sticky t" "stale_scope stale_only kind"
  defines "f \<equiv> service_filter (now - ttl * 1000000) kind stale_only aq kq"
  shows "snd (delete_filtered_entries email now ttl kind stale_only aq kq t) =
      filter (\<lambda>r. sk_key r = [] \<or> r \<notin> fst ` set (apply_filters email f t)) t"
    and "fst (delete_filtered_entries email now ttl kind stale_only aq kq t)
      + length (snd (delete_filtered_entries email now ttl kind stale_only aq kq t)) = length t"
proof -
  let ?ids = "list_entry_identifiers email f t"
  have e: "delete_filtered_entries email now ttl kind stale_only aq kq t
      = (length (fst (delete_entries ?ids t)), snd (delete_entries ?ids t))"
    using assms(2) by (simp add: delete_filtered_entries_def f_def Let_def split: prod.split)
  have sub: "fst ` set (apply_filters email f t) \<subseteq> set t"
    by (auto simp: apply_filters_def List.map_filter_def split: option.splits if_splits)
  have "row_ident r \<in> set ?ids \<longleftrightarrow> r \<in> fst ` set (apply_filters email f t)" if "r \<in> set t" for r
    using assms(1) sub that
    by (auto simp: list_entry_identifiers_def wf_sticky_def distinct_map image_image image_iff dest!: inj_onD)
  then show "snd (delete_filtered_entries email now ttl kind stale_only aq kq t) =
      filter (\<lambda>r. sk_key r = [] \<or> r \<notin> fst ` set (apply_filters email f t)) t"
    unfolding e by (auto simp: delete_entries_spec intro!: filter_cong)
  show "fst (delete_filtered_entries email now ttl kind stale_only aq kq t)
      + length (snd (delete_filtered_entries email now ttl kind stale_only aq kq t)) = length t"
    unfolding e using deleted_count [OF assms(1)] by simp
qed

text \<open>
  The expiry check and the deletion are two statements, and the deletion does not repeat the
  check: a binding renewed in between is lost, and the caller is told there is none.
\<close>

lemma expiry_drops_renewed_binding:
  "get_account_id (upsert_entry 5000000 ''k'' ''b'' PROMPT_CACHE) 4000000 ''k'' PROMPT_CACHE (Some 1)
     [\<lparr>sk_key = ''k'', sk_kind = PROMPT_CACHE, sk_account = ''a'', sk_created = 0, sk_updated = 0\<rparr>] = (None, [])"
  by code_simp

end
