(* ===== verification/Runtime_Sync.thy ===== *)
theory Runtime_Sync
  imports Balancer_Failures Leases Usage_Windows Account_Cache Sticky_Sessions
begin

text \<open>
  The load balancer's runtime and persisted account state:
  \<open>app/modules/proxy/load_balancer.py\<close> (\<open>_state_for\<close>, \<open>_sync_runtime_state\<close>, the persistence
  methods, the \<open>mark_\<close> and \<open>record_\<close> methods, the probe reservations and
  \<open>_sync_runtime_health_tier\<close>) with the two status writes of
  \<open>app/modules/accounts/repository.py\<close>. Each method holds the account's lock, so it is one
  step. The database is the account rows, the sticky sessions and the bridge sessions the
  writes touch; of a bridge session only its account and whether it is open. Clocks, jitter and settings are arguments.
\<close>

section \<open>Rows and database\<close>

record account_row =
  row_id :: string
  row_status :: account_status
  row_deactivation_reason :: "string option"
  row_plan_type :: "string option"
  row_reset :: "int option"
  row_blocked_at :: "int option"
  row_routing_policy :: "string option"
  row_refresh_token :: string
  row_security_authorized :: bool

record bridge_session =
  bridge_id :: string
  bridge_account :: "string option"
  bridge_open :: bool

record database =
  db_accounts :: "account_row list"
  db_sticky :: sticky_table
  db_bridge :: "bridge_session list"
  db_bridge_aliases :: "(string \<times> string) list"

definition find_row :: "string \<Rightarrow> database \<Rightarrow> account_row option" where
  "find_row aid db = find (\<lambda>r. row_id r = aid) (db_accounts db)"

definition write_status ::
    "account_status \<Rightarrow> string option \<Rightarrow> int option \<Rightarrow> int option \<Rightarrow> account_row \<Rightarrow> account_row" where
  "write_status st reason reset blocked r =
     r\<lparr>row_status := st, row_deactivation_reason := reason, row_reset := reset, row_blocked_at := blocked\<rparr>"

definition close_http_bridge_sessions_for_account :: "string \<Rightarrow> database \<Rightarrow> database" where
  "close_http_bridge_sessions_for_account aid db =
     (let ids = map bridge_id (filter (\<lambda>b. bridge_account b = Some aid) (db_bridge db))
      in db\<lparr>db_bridge_aliases := filter (\<lambda>(alias, sid). sid \<notin> set ids) (db_bridge_aliases db),
            db_bridge := map (\<lambda>b. if bridge_account b = Some aid then b\<lparr>bridge_account := None, bridge_open := False\<rparr> else b) (db_bridge db)\<rparr>)"

definition drop_sessions :: "string \<Rightarrow> account_status \<Rightarrow> database \<Rightarrow> database" where
  "drop_sessions aid st db =
     (if st \<in> {REAUTH_REQUIRED, DEACTIVATED}
      then close_http_bridge_sessions_for_account aid
             (db\<lparr>db_sticky := filter (\<lambda>r. sk_account r \<noteq> aid) (db_sticky db)\<rparr>)
      else db)"

definition update_rows :: "(account_row \<Rightarrow> bool) \<Rightarrow> (account_row \<Rightarrow> account_row) \<Rightarrow> database \<Rightarrow> bool \<times> database" where
  "update_rows P f db =
     (list_ex P (db_accounts db), db\<lparr>db_accounts := map (\<lambda>r. if P r then f r else r) (db_accounts db)\<rparr>)"

definition update_status ::
    "string \<Rightarrow> account_status \<Rightarrow> string option \<Rightarrow> int option \<Rightarrow> int option \<Rightarrow> database \<Rightarrow> bool \<times> database" where
  "update_status aid st reason reset blocked db =
     (case update_rows (\<lambda>r. row_id r = aid) (write_status st reason reset blocked) db of
        (found, db1) \<Rightarrow> (found, drop_sessions aid st db1))"

definition row_current :: "account_row \<Rightarrow> string option \<Rightarrow> account_row \<Rightarrow> bool" where
  "row_current expected token r =
     (row_id r = row_id expected \<and> row_status r = row_status expected
      \<and> row_deactivation_reason r = row_deactivation_reason expected
      \<and> row_reset r = row_reset expected \<and> row_blocked_at r = row_blocked_at expected
      \<and> (case token of None \<Rightarrow> True | Some t \<Rightarrow> row_refresh_token r = t))"

definition update_status_if_current ::
    "account_row \<Rightarrow> string option \<Rightarrow> account_status \<Rightarrow> string option \<Rightarrow> int option \<Rightarrow> int option \<Rightarrow> database
     \<Rightarrow> bool \<times> database" where
  "update_status_if_current expected token st reason reset blocked db =
     (case update_rows (row_current expected token) (write_status st reason reset blocked) db of
        (updated, db1) \<Rightarrow> (updated, if updated then drop_sessions (row_id expected) st db1 else db1))"

section \<open>Runtime state\<close>

definition normalize_account_routing_policy :: "string option \<Rightarrow> string" where
  "normalize_account_routing_policy v =
     (case v of
        Some p \<Rightarrow> (if p \<in> {ROUTING_POLICY_NORMAL, ROUTING_POLICY_BURN_FIRST, ROUTING_POLICY_PRESERVE}
                   then p else ROUTING_POLICY_NORMAL)
      | None \<Rightarrow> ROUTING_POLICY_NORMAL)"

definition state_of :: "account_row \<Rightarrow> runtime_state \<Rightarrow> account_state" where
  "state_of acct rt =
     (new_account_state (row_id acct) (row_status acct))
       \<lparr>reset_at := rt_reset_at rt,
        blocked_at := (case row_blocked_at acct of Some b \<Rightarrow> Some (of_int b) | None \<Rightarrow> rt_blocked_at rt),
        cooldown_until := rt_cooldown_until rt, last_error_at := rt_last_error_at rt,
        last_selected_at := rt_last_selected_at rt, error_count := rt_error_count rt,
        deactivation_reason := row_deactivation_reason acct, plan_type := row_plan_type acct,
        capacity_credits := capacity_for_plan (row_plan_type acct) ''secondary'',
        routing_policy := normalize_account_routing_policy (row_routing_policy acct)\<rparr>"

definition state_for :: "account_row \<Rightarrow> runtime_table \<Rightarrow> account_state \<times> runtime_table" where
  "state_for acct m = (case runtime_setdefault (row_id acct) m of (rt, m') \<Rightarrow> (state_of acct rt, m'))"

definition mirror_state :: "account_state \<Rightarrow> runtime_state \<Rightarrow> runtime_state" where
  "mirror_state state rt =
     rt\<lparr>rt_reset_at := reset_at state, rt_cooldown_until := cooldown_until state,
        rt_blocked_at := blocked_at state, rt_last_error_at := last_error_at state,
        rt_error_count := error_count state\<rparr>"

definition state_dirty :: "account_row \<Rightarrow> account_state \<Rightarrow> runtime_state \<Rightarrow> bool" where
  "state_dirty acct state rt =
     (rt_reset_at rt \<noteq> reset_at state \<or> rt_cooldown_until rt \<noteq> cooldown_until state
      \<or> rt_blocked_at rt \<noteq> blocked_at state \<or> rt_last_error_at rt \<noteq> last_error_at state
      \<or> rt_error_count rt \<noteq> error_count state \<or> row_status acct \<noteq> status state
      \<or> row_deactivation_reason acct \<noteq> deactivation_reason state)"

definition sync_runtime ::
    "real \<Rightarrow> bool \<Rightarrow> int option \<Rightarrow> account_row \<Rightarrow> account_state \<Rightarrow> runtime_state \<Rightarrow> bool \<times> runtime_state" where
  "sync_runtime wall selected expected_version acct state rt =
     (if expected_version \<noteq> None \<and> expected_version \<noteq> Some (rt_version rt)
      then (False, if selected then rt\<lparr>rt_last_selected_at := Some wall, rt_version := rt_version rt + 1\<rparr> else rt)
      else
        let health_dirty = state_dirty acct state rt;
            rt1 = mirror_state state rt;
            rt2 = (if selected then rt1\<lparr>rt_last_selected_at := Some wall\<rparr> else rt1);
            rt3 = (if health_dirty \<or> selected then rt2\<lparr>rt_version := rt_version rt2 + 1\<rparr> else rt2);
            rt4 = (if health_dirty then rt3\<lparr>rt_health_version := rt_health_version rt3 + 1\<rparr> else rt3)
        in (True, rt4))"

definition sync_runtime_state ::
    "real \<Rightarrow> bool \<Rightarrow> int option \<Rightarrow> account_row \<Rightarrow> account_state \<Rightarrow> runtime_table \<Rightarrow> bool \<times> runtime_table" where
  "sync_runtime_state wall selected expected_version acct state m =
     (case runtime_setdefault (row_id acct) m of (rt, m') \<Rightarrow>
        case sync_runtime wall selected expected_version acct state rt of
          (ok, rt') \<Rightarrow> (ok, AList.update (row_id acct) rt' m'))"

section \<open>Persistence\<close>

definition int_of_deadline :: "real option \<Rightarrow> int option" where
  "int_of_deadline d = (if truthy d then map_option py_int d else None)"

definition needs_write :: "account_row \<Rightarrow> account_state \<Rightarrow> bool" where
  "needs_write acct state =
     (row_status acct \<noteq> status state \<or> row_deactivation_reason acct \<noteq> deactivation_reason state
      \<or> row_reset acct \<noteq> int_of_deadline (reset_at state)
      \<or> row_blocked_at acct \<noteq> int_of_deadline (blocked_at state))"

definition written :: "account_state \<Rightarrow> account_row \<Rightarrow> account_row" where
  "written state =
     write_status (status state) (deactivation_reason state) (int_of_deadline (reset_at state))
       (int_of_deadline (blocked_at state))"

definition persist_state :: "account_row \<Rightarrow> account_state \<Rightarrow> database \<Rightarrow> account_row \<times> database" where
  "persist_state acct state db =
     (if needs_write acct state
      then (written state acct,
            snd (update_status (row_id acct) (status state) (deactivation_reason state)
                   (int_of_deadline (reset_at state)) (int_of_deadline (blocked_at state)) db))
      else (acct, db))"

definition persist_state_if_current ::
    "string option \<Rightarrow> account_row \<Rightarrow> account_state \<Rightarrow> database \<Rightarrow> bool \<times> account_row \<times> database" where
  "persist_state_if_current token acct state db =
     (if needs_write acct state
      then (case update_status_if_current acct token (status state) (deactivation_reason state)
                   (int_of_deadline (reset_at state)) (int_of_deadline (blocked_at state)) db of
              (updated, db') \<Rightarrow> (updated, if updated then written state acct else acct, db'))
      else (True, acct, db))"

section \<open>Marking and recording\<close>

record balancer =
  runtime :: runtime_table
  availability :: availability

definition mark_rate_limit ::
    "real \<Rightarrow> real \<Rightarrow> account_row \<Rightarrow> upstream_error \<Rightarrow> balancer \<Rightarrow> database \<Rightarrow> account_row \<times> balancer \<times> database"
  where
  "mark_rate_limit now u acct error lb db =
     (case state_for acct (runtime lb) of (s, m) \<Rightarrow>
        let s' = handle_rate_limit now u s error;
            m' = snd (sync_runtime_state now False None acct s' m)
        in case persist_state acct s' db of (acct', db') \<Rightarrow> (acct', lb\<lparr>runtime := m'\<rparr>, db'))"

definition mark_quota_exceeded ::
    "real \<Rightarrow> account_row \<Rightarrow> upstream_error \<Rightarrow> balancer \<Rightarrow> database \<Rightarrow> account_row \<times> balancer \<times> database" where
  "mark_quota_exceeded now acct error lb db =
     (case state_for acct (runtime lb) of (s, m) \<Rightarrow>
        let s' = handle_quota_exceeded now s error;
            m' = snd (sync_runtime_state now False None acct s' m)
        in case persist_state acct s' db of (acct', db') \<Rightarrow> (acct', lb\<lparr>runtime := m'\<rparr>, db'))"

definition mark_permanent_failure ::
    "real \<Rightarrow> account_row \<Rightarrow> string \<Rightarrow> balancer \<Rightarrow> database \<Rightarrow> bool \<times> account_row \<times> balancer \<times> database" where
  "mark_permanent_failure now acct error_code lb db =
     (case state_for acct (runtime lb) of (s, m) \<Rightarrow>
        let s' = handle_permanent_failure s error_code;
            m' = snd (sync_runtime_state now False None acct s' m)
        in case persist_state_if_current (Some (row_refresh_token acct)) acct s' db of
             (downgraded, acct', db') \<Rightarrow>
               (downgraded, acct',
                lb\<lparr>runtime := m',
                   availability := (if downgraded then mark_unavailable (row_id acct) (availability lb)
                                    else availability lb)\<rparr>, db'))"

definition errors_runtime :: "real \<Rightarrow> account_row \<Rightarrow> int \<Rightarrow> runtime_state \<Rightarrow> runtime_state" where
  "errors_runtime now acct count rt =
     (let s = state_of acct rt;
          s' = s\<lparr>error_count := error_count s + count, last_error_at := Some now\<rparr>;
          rt' = snd (sync_runtime now False None acct s' rt)
      in if rt_health_tier rt' = HEALTH_TIER_PROBING then rt'\<lparr>rt_probe_success_streak := 0\<rparr> else rt')"

definition record_errors ::
    "real \<Rightarrow> account_row \<Rightarrow> int \<Rightarrow> balancer \<Rightarrow> database \<Rightarrow> balancer \<times> database" where
  "record_errors now acct count lb db =
     (if count < 1 then (lb, db)
      else case runtime_setdefault (row_id acct) (runtime lb) of (rt, m) \<Rightarrow>
        let s = state_of acct rt;
            s' = s\<lparr>error_count := error_count s + count, last_error_at := Some now\<rparr>
        in case persist_state_if_current None acct s' db of
             (ok, acct', db') \<Rightarrow>
               (lb\<lparr>runtime := AList.update (row_id acct) (errors_runtime now acct count rt) m\<rparr>, db'))"

definition bump_health :: "runtime_state \<Rightarrow> runtime_state" where
  "bump_health rt = rt\<lparr>rt_version := rt_version rt + 1, rt_health_version := rt_health_version rt + 1\<rparr>"

definition success_runtime :: "runtime_state \<Rightarrow> runtime_state" where
  "success_runtime rt =
     (let rt1 = (if rt_error_count rt > 0
                 then bump_health (rt\<lparr>rt_error_count := 0, rt_last_error_at := None\<rparr>) else rt)
      in if rt_health_tier rt1 = HEALTH_TIER_PROBING
         then bump_health (rt1\<lparr>rt_probe_success_streak := rt_probe_success_streak rt1 + 1\<rparr>) else rt1)"

definition record_runtime_success :: "string \<Rightarrow> runtime_table \<Rightarrow> runtime_table" where
  "record_runtime_success aid m =
     (case map_of m aid of None \<Rightarrow> m | Some rt \<Rightarrow> AList.update aid (success_runtime rt) m)"

section \<open>Health tier of the runtime\<close>

definition health_tuple :: "runtime_state \<Rightarrow> int \<times> real option \<times> int" where
  "health_tuple rt = (rt_health_tier rt, rt_drain_entered_at rt, rt_probe_success_streak rt)"

definition apply_health_tier :: "int \<Rightarrow> real \<Rightarrow> runtime_state \<Rightarrow> runtime_state" where
  "apply_health_tier new_tier now rt =
     (let a = (if new_tier = HEALTH_TIER_DRAINING \<and> rt_health_tier rt \<noteq> HEALTH_TIER_DRAINING
               then rt\<lparr>rt_drain_entered_at := Some now, rt_probe_success_streak := 0\<rparr> else rt);
          b = (if new_tier = HEALTH_TIER_HEALTHY
               then a\<lparr>rt_drain_entered_at := None, rt_probe_success_streak := 0\<rparr> else a)
      in b\<lparr>rt_health_tier := new_tier\<rparr>)"

definition sync_runtime_health_tier ::
    "string \<Rightarrow> account_status \<Rightarrow> real option \<Rightarrow> real option \<Rightarrow> string \<Rightarrow> real \<Rightarrow> real \<Rightarrow> bool
     \<Rightarrow> runtime_state \<Rightarrow> int \<times> runtime_state" where
  "sync_runtime_health_tier aid st used secondary_used policy wall now soft_drain_enabled rt =
     (let s = (new_account_state aid st)
                \<lparr>used_percent := used, secondary_used_percent := secondary_used,
                 last_error_at := rt_last_error_at rt, error_count := rt_error_count rt,
                 health_tier := rt_health_tier rt, routing_policy := policy\<rparr>;
          rt1 = (if soft_drain_enabled
                 then apply_health_tier
                        (evaluate_health_tier default_thresholds wall s (Some now)
                           (rt_drain_entered_at rt) (rt_probe_success_streak rt)) now rt
                 else rt\<lparr>rt_health_tier := HEALTH_TIER_HEALTHY, rt_drain_entered_at := None,
                         rt_probe_success_streak := 0\<rparr>);
          rt2 = (if health_tuple rt1 \<noteq> health_tuple rt then bump_health rt1 else rt1)
      in (rt_health_tier rt2, rt2))"

section \<open>Probe reservations\<close>

record probe_reservation =
  reserved_account :: string
  previous_last_selected_at :: "real option"
  reserved_at :: real
  expected_runtime_version :: int

definition reserve_for ::
    "real \<Rightarrow> account_state \<Rightarrow> runtime_table \<Rightarrow> probe_reservation option \<times> runtime_table" where
  "reserve_for wall s m =
     (case map_of m (account_id s) of None \<Rightarrow> (None, m)
      | Some rt \<Rightarrow>
          (if rt_health_tier rt \<noteq> health_tier s then (None, m)
           else if rt_last_selected_at rt \<noteq> last_selected_at s then (None, m)
           else (Some \<lparr>reserved_account = account_id s, previous_last_selected_at = rt_last_selected_at rt,
                       reserved_at = wall, expected_runtime_version = rt_version rt\<rparr>,
                 AList.update (account_id s) (rt\<lparr>rt_last_selected_at := Some wall\<rparr>) m)))"

text \<open>The selection normalises the states in place; they and the salt are returned with the outcome.\<close>

definition reserve_due_probe ::
    "selection_env \<Rightarrow> real \<Rightarrow> selection_request \<Rightarrow> account_state list \<Rightarrow> salt_state \<Rightarrow> runtime_table
     \<Rightarrow> probe_reservation option result \<times> account_state list \<times> salt_state \<times> runtime_table" where
  "reserve_due_probe env wall req states salts m =
     (if routing_strategy req \<in> {Sequential_drain, Reset_drain, Single_account}
      then (Inr None, states, salts, m)
      else
        let out = select_account env (req\<lparr>recovery_probe_only := True\<rparr>) None states salts
        in case out_result out of
             Inl e \<Rightarrow> (Inl e, out_states out, out_salts out, m)
           | Inr r \<Rightarrow>
               (case account r of None \<Rightarrow> (Inr None, out_states out, out_salts out, m)
                | Some s \<Rightarrow>
                    (case reserve_for wall s m of (p, m') \<Rightarrow> (Inr p, out_states out, out_salts out, m'))))"

definition probe_reservation_current :: "probe_reservation option \<Rightarrow> runtime_table \<Rightarrow> bool" where
  "probe_reservation_current reservation m =
     (case reservation of None \<Rightarrow> False
      | Some p \<Rightarrow>
          (case map_of m (reserved_account p) of None \<Rightarrow> False
           | Some rt \<Rightarrow> rt_last_selected_at rt = Some (reserved_at p)
                        \<and> rt_version rt = expected_runtime_version p))"

definition release_due_probe_reservation :: "probe_reservation option \<Rightarrow> runtime_table \<Rightarrow> runtime_table" where
  "release_due_probe_reservation reservation m =
     (case reservation of None \<Rightarrow> m
      | Some p \<Rightarrow>
          (case map_of m (reserved_account p) of None \<Rightarrow> m
           | Some rt \<Rightarrow>
               (if rt_last_selected_at rt \<noteq> Some (reserved_at p) then m
                else AList.update (reserved_account p)
                       (rt\<lparr>rt_last_selected_at := previous_last_selected_at p\<rparr>) m)))"

definition commit_due_probe_reservation :: "real \<Rightarrow> probe_reservation option \<Rightarrow> runtime_table \<Rightarrow> bool \<times> runtime_table"
  where
  "commit_due_probe_reservation wall reservation m =
     (case reservation of None \<Rightarrow> (False, m)
      | Some p \<Rightarrow>
          (case map_of m (reserved_account p) of None \<Rightarrow> (False, m)
           | Some rt \<Rightarrow>
               (if \<not> probe_reservation_current reservation m then (False, m)
                else (True, AList.update (reserved_account p)
                              (bump_health (rt\<lparr>rt_last_selected_at := Some wall\<rparr>)) m))))"

section \<open>The version is a change token\<close>

text \<open>
  Everything that happens to the runtime entry of one account: synchronisations, recorded
  errors and successes, health evaluations, leases, and probe reservations, which set only the
  time of last selection until they are committed.
\<close>

datatype runtime_event =
  Sync real bool "int option" account_row account_state
| Errors real account_row int
| Succeed
| Commit real
| Health account_status "real option" "real option" string real real bool
| Lease_add real bool account_lease
| Lease_drop string account_lease
| Set_last_selected "real option"

definition runtime_step :: "runtime_event \<Rightarrow> runtime_state \<Rightarrow> runtime_state" where
  "runtime_step ev rt =
     (case ev of
        Sync wall selected expected acct s \<Rightarrow> snd (sync_runtime wall selected expected acct s rt)
      | Errors now acct count \<Rightarrow> (if count < 1 then rt else errors_runtime now acct count rt)
      | Succeed \<Rightarrow> success_runtime rt
      | Commit wall \<Rightarrow> bump_health (rt\<lparr>rt_last_selected_at := Some wall\<rparr>)
      | Health st used sec policy wall now soft \<Rightarrow>
          snd (sync_runtime_health_tier [] st used sec policy wall now soft rt)
      | Lease_add wall b l \<Rightarrow> record_lease wall b l rt
      | Lease_drop lid l \<Rightarrow> forget_lease lid l rt
      | Set_last_selected t \<Rightarrow> rt\<lparr>rt_last_selected_at := t\<rparr>)"

definition health_view ::
    "runtime_state \<Rightarrow> (real option \<times> real option \<times> real option \<times> real option \<times> int) \<times> int \<times> real option \<times> int" where
  "health_view rt =
     ((rt_reset_at rt, rt_cooldown_until rt, rt_blocked_at rt, rt_last_error_at rt, rt_error_count rt),
      health_tuple rt)"

lemma bump_health_simps [simp]:
  "rt_version (bump_health rt) = rt_version rt + 1" "rt_health_version (bump_health rt) = rt_health_version rt + 1"
  "rt_health_tier (bump_health rt) = rt_health_tier rt" "health_view (bump_health rt) = health_view rt"
  "health_tuple (bump_health rt) = health_tuple rt" "rt_drain_entered_at (bump_health rt) = rt_drain_entered_at rt"
  by (simp_all add: bump_health_def health_view_def health_tuple_def)

lemma sync_runtime_token:
  "rt_health_version rt \<le> rt_health_version (snd (sync_runtime w sel ev acct s rt))
   \<and> (rt_health_version (snd (sync_runtime w sel ev acct s rt)) = rt_health_version rt \<longrightarrow>
      health_view (snd (sync_runtime w sel ev acct s rt)) = health_view rt)"
  by (simp add: sync_runtime_def Let_def mirror_state_def state_dirty_def health_view_def health_tuple_def)

lemma apply_health_tier_simps [simp]:
  "rt_reset_at (apply_health_tier t now rt) = rt_reset_at rt"
  "rt_cooldown_until (apply_health_tier t now rt) = rt_cooldown_until rt"
  "rt_blocked_at (apply_health_tier t now rt) = rt_blocked_at rt"
  "rt_last_error_at (apply_health_tier t now rt) = rt_last_error_at rt"
  "rt_error_count (apply_health_tier t now rt) = rt_error_count rt"
  "rt_health_version (apply_health_tier t now rt) = rt_health_version rt"
  "rt_health_tier (apply_health_tier t now rt) = t"
  by (simp_all add: apply_health_tier_def Let_def)

lemma health_sync_token:
  "rt_health_version rt \<le> rt_health_version (snd (sync_runtime_health_tier aid st u v p w n soft rt))
   \<and> (rt_health_version (snd (sync_runtime_health_tier aid st u v p w n soft rt)) = rt_health_version rt \<longrightarrow>
      health_view (snd (sync_runtime_health_tier aid st u v p w n soft rt)) = health_view rt)"
  by (simp add: sync_runtime_health_tier_def Let_def health_view_def)

lemma errors_token:
  assumes "1 \<le> count"
  shows "rt_health_version (errors_runtime now acct count rt) = rt_health_version rt + 1"
  using assms by (simp add: errors_runtime_def sync_runtime_def Let_def mirror_state_def state_dirty_def state_of_def)

lemma success_token:
  "rt_health_version rt \<le> rt_health_version (success_runtime rt)
   \<and> (rt_health_version (success_runtime rt) = rt_health_version rt \<longrightarrow> success_runtime rt = rt)"
  by (simp add: success_runtime_def Let_def bump_health_def)

lemma record_lease_token:
  "rt_health_version (record_lease w b l rt) = rt_health_version rt \<and> health_view (record_lease w b l rt) = health_view rt"
  by (cases "lease_kind l")
     (simp_all add: record_lease_def add_inflight_def Let_def health_view_def health_tuple_def)

lemma forget_lease_token:
  "rt_health_version (forget_lease lid l rt) = rt_health_version rt \<and> health_view (forget_lease lid l rt) = health_view rt"
  by (cases "lease_kind l")
     (simp_all add: forget_lease_def sub_inflight_def Let_def health_view_def health_tuple_def)

lemma runtime_step_token:
  "rt_health_version rt \<le> rt_health_version (runtime_step ev rt)
   \<and> (rt_health_version (runtime_step ev rt) = rt_health_version rt \<longrightarrow> health_view (runtime_step ev rt) = health_view rt)"
proof (cases ev)
  case (Sync w sel e acct s)
  then show ?thesis using sync_runtime_token [of rt w sel e acct s] by (simp add: runtime_step_def)
next
  case (Health st u v p w n soft)
  then show ?thesis using health_sync_token [of rt "[]" st u v p w n soft] by (simp add: runtime_step_def)
next
  case Succeed
  then show ?thesis using success_token [of rt] by (auto simp: runtime_step_def)
next
  case (Set_last_selected t)
  then show ?thesis by (simp add: runtime_step_def health_view_def health_tuple_def)
qed (simp_all add: runtime_step_def errors_token record_lease_token forget_lease_token)

interpretation runtime_token: change_token "\<lambda>rt :: runtime_state. True" "\<lambda>ev rt. True" runtime_step
    rt_health_version health_view
  by unfold_locales (use runtime_step_token in simp_all)

lemma unchanged_token_view:
  assumes "rt_health_version (fold runtime_step evs rt) = rt_health_version rt"
  shows "health_view (fold runtime_step evs rt) = health_view rt"
proof -
  have "valid_run (\<lambda>ev rt. True) runtime_step evs rt" by (induction evs arbitrary: rt) auto
  then show ?thesis by (rule runtime_token.run_view [OF TrueI _ assms])
qed



section \<open>Draining always has a start\<close>

definition drain_wf :: "runtime_state \<Rightarrow> bool" where
  "drain_wf rt = (rt_health_tier rt = HEALTH_TIER_DRAINING \<longrightarrow> rt_drain_entered_at rt \<noteq> None)"

lemma apply_tier_drain_wf: "drain_wf rt \<Longrightarrow> drain_wf (apply_health_tier t now rt)"
  by (simp add: drain_wf_def apply_health_tier_def Let_def tier_values)

lemma health_sync_drain_wf:
  "drain_wf rt \<Longrightarrow> drain_wf (snd (sync_runtime_health_tier aid st u v p w n soft rt))"
  using apply_tier_drain_wf [of rt]
  by (simp add: sync_runtime_health_tier_def Let_def drain_wf_def tier_values)

section \<open>Compare and set on the row\<close>

lemma update_rows_accounts:
  "\<not> list_ex P (xs :: account_row list) \<Longrightarrow> map (\<lambda>r. if P r then f r else r) xs = xs"
  by (auto simp: list_ex_iff intro: map_idI)

lemma update_rows_none: "\<not> list_ex P (db_accounts db) \<Longrightarrow> update_rows P f db = (False, db)"
  by (simp add: update_rows_def update_rows_accounts)

lemma drop_sessions_accounts [simp]: "db_accounts (drop_sessions aid st db) = db_accounts db"
  by (simp add: drop_sessions_def close_http_bridge_sessions_for_account_def Let_def)

lemma persist_if_current_rows:
  assumes "persist_state_if_current token acct s db = (ok, acct', db')"
  shows "db_accounts db' = map (\<lambda>r. if needs_write acct s \<and> row_current acct token r then written s r else r) (db_accounts db)"
    and "ok \<longleftrightarrow> \<not> needs_write acct s \<or> list_ex (row_current acct token) (db_accounts db)"
    and "\<not> ok \<Longrightarrow> db' = db \<and> acct' = acct"
  using assms update_rows_none [of "row_current acct token" db]
    update_rows_accounts [of "row_current acct token" "db_accounts db" "written s"]
  by (auto simp: persist_state_if_current_def update_status_if_current_def update_rows_def written_def
      split: prod.splits if_splits)

lemma permanent_status_differs:
  "status (handle_permanent_failure (state_of acct rt) code) = account_status_for_permanent_failure code"
  by (simp add: handle_permanent_failure_def)

text \<open>
  A permanent failure never undoes a repair: when another replica has rotated the account's
  refresh token since this replica read the row, the downgrade misses. The database is
  unchanged, with its sticky and bridge sessions, and the account stays available for routing
  here.
\<close>

theorem permanent_failure_respects_rotation:
  assumes "\<forall>r \<in> set (db_accounts db). row_id r = row_id acct \<longrightarrow> row_refresh_token r \<noteq> row_refresh_token acct"
    and "row_status acct \<noteq> account_status_for_permanent_failure code"
    and "mark_permanent_failure now acct code lb db = (downgraded, acct', lb', db')"
  shows "\<not> downgraded \<and> db' = db \<and> acct' = acct \<and> availability lb' = availability lb"
proof -
  obtain rt m where m: "runtime_setdefault (row_id acct) (runtime lb) = (rt, m)" by fastforce
  let ?s = "handle_permanent_failure (state_of acct rt) code"
  obtain ok a d where p: "persist_state_if_current (Some (row_refresh_token acct)) acct ?s db = (ok, a, d)"
    by (metis prod_cases3)
  have "needs_write acct ?s" using assms(2) by (simp add: needs_write_def permanent_status_differs)
  moreover have "\<not> list_ex (row_current acct (Some (row_refresh_token acct))) (db_accounts db)"
    using assms(1) by (auto simp: list_ex_iff row_current_def)
  ultimately have "\<not> ok" using persist_if_current_rows(2) [OF p] by simp
  moreover have "d = db \<and> a = acct" using persist_if_current_rows(3) [OF p] \<open>\<not> ok\<close> by simp
  ultimately show ?thesis
    using assms(3) m p by (auto simp: mark_permanent_failure_def state_for_def Let_def)
qed

definition w_sticky :: sticky_table where
  "w_sticky = [\<lparr>sk_key = ''k'', sk_kind = CODEX_SESSION, sk_account = ''a'', sk_created = 0, sk_updated = 0\<rparr>]"

definition w_acct :: account_row where
  "w_acct = \<lparr>row_id = ''a'', row_status = ACTIVE, row_deactivation_reason = None, row_plan_type = Some ''plus'',
     row_reset = None, row_blocked_at = None, row_routing_policy = None, row_refresh_token = ''old'', row_security_authorized = False\<rparr>"

definition w_db :: database where
  "w_db = \<lparr>db_accounts = [w_acct\<lparr>row_refresh_token := ''new''\<rparr>], db_sticky = w_sticky, db_bridge = [],
     db_bridge_aliases = []\<rparr>"

definition w_balancer :: balancer where
  "w_balancer = \<lparr>runtime = [], availability = new_availability\<rparr>"

theorem permanent_failure_respects_rotation_witness:
  "\<exists>d acct' lb' db'. mark_permanent_failure 1000 w_acct ''invalid_grant'' w_balancer w_db = (d, acct', lb', db')
    \<and> \<not> d \<and> db' = w_db \<and> acct' = w_acct \<and> availability lb' = new_availability"
proof -
  obtain d acct' lb' db' where m: "mark_permanent_failure 1000 w_acct ''invalid_grant'' w_balancer w_db = (d, acct', lb', db')"
    by (metis prod_cases4)
  have "\<forall>r \<in> set (db_accounts w_db). row_id r = row_id w_acct \<longrightarrow> row_refresh_token r \<noteq> row_refresh_token w_acct"
      "row_status w_acct \<noteq> account_status_for_permanent_failure ''invalid_grant''"
    by code_simp+
  from permanent_failure_respects_rotation [OF this m]
  have "\<not> d \<and> db' = w_db \<and> acct' = w_acct \<and> availability lb' = new_availability" by (simp add: w_balancer_def)
  with m show ?thesis by blast
qed

lemma message_delay_nonneg: "0 \<le> or_default (message_delay e) 30"
  using parse_retry_after_nonneg
  by (cases "message_delay e") (auto simp: message_delay_def split: option.splits if_splits)

lemma handle_rate_limit_blocked: "blocked_at (handle_rate_limit now u s e) = Some now"
  by (simp add: handle_rate_limit_def Let_def split: option.split)

lemma persist_state_rows:
  assumes "persist_state acct s db = (acct', db')"
    and "r \<in> set (db_accounts db')" "row_id r = row_id acct"
    and "needs_write acct s \<or> (\<forall>q \<in> set (db_accounts db). row_id q = row_id acct \<longrightarrow> q = acct)"
  shows "row_status r = status s \<and> row_reset r = int_of_deadline (reset_at s)
    \<and> row_blocked_at r = int_of_deadline (blocked_at s)"
proof (cases "needs_write acct s")
  case True
  then have "db_accounts db' = map (\<lambda>r. if row_id r = row_id acct then written s r else r) (db_accounts db)"
    using assms(1) by (auto simp: persist_state_def update_status_def update_rows_def written_def)
  then show ?thesis using assms(2,3) by (auto simp: written_def write_status_def split: if_splits)
next
  case False
  then show ?thesis using assms by (auto simp: persist_state_def needs_write_def)
qed

text \<open>
  A rate limit is shared with the other replicas and never truncated away: after
  mark_rate_limit without reset metadata, the account's row is RATE_LIMITED with a whole-second
  deadline no earlier than the delay upstream asked for (30 seconds when it named none), even for
  hints below one second, and carries the block time as evidence.
\<close>

theorem rate_limit_deadline_persisted:
  assumes "1 \<le> now" "extract_reset_at e now = None"
    and "mark_rate_limit now u acct e lb db = (acct', lb', db')"
    and "row_status acct \<noteq> RATE_LIMITED \<or> (\<forall>q \<in> set (db_accounts db). row_id q = row_id acct \<longrightarrow> q = acct)"
    and "r \<in> set (db_accounts db')" "row_id r = row_id acct"
  shows "row_status r = RATE_LIMITED \<and> row_blocked_at r = Some (py_int now)
    \<and> (\<exists>d. row_reset r = Some d \<and> now + or_default (message_delay e) 30 \<le> of_int d)"
proof -
  obtain rt m where m: "runtime_setdefault (row_id acct) (runtime lb) = (rt, m)" by fastforce
  let ?s = "handle_rate_limit now u (state_of acct rt) e"
  obtain d where d: "reset_at ?s = Some (of_int d)" "now + or_default (message_delay e) 30 \<le> of_int d"
    using assms(2) persisted_delay_ceiling [of now e "backoff_seconds u (error_count (state_of acct rt) + 1)"]
    by (simp add: handle_rate_limit_reset)
  have "persist_state acct ?s db = (acct', db')"
    using assms(3) m by (auto simp: mark_rate_limit_def state_for_def Let_def split: prod.splits)
  moreover have "row_status acct \<noteq> RATE_LIMITED \<Longrightarrow> needs_write acct ?s"
    by (simp add: needs_write_def handle_rate_limit_fields)
  ultimately have r: "row_status r = status ?s \<and> row_reset r = int_of_deadline (reset_at ?s)
      \<and> row_blocked_at r = int_of_deadline (blocked_at ?s)"
    using assms(4-6) by (intro persist_state_rows) auto
  have "0 \<le> or_default (message_delay e) 30" by (rule message_delay_nonneg)
  then have "d \<noteq> 0" using d(2) assms(1) by auto
  then show ?thesis using r d assms(1) by (auto simp: int_of_deadline_def truthy_def handle_rate_limit_fields handle_rate_limit_blocked)
qed

definition w_active_db :: database where
  "w_active_db = \<lparr>db_accounts = [w_acct], db_sticky = w_sticky, db_bridge = [], db_bridge_aliases = []\<rparr>"

theorem rate_limit_deadline_persisted_witness:
  "\<exists>d. row_reset (hd (db_accounts (snd (snd (mark_rate_limit 1000 0 w_acct w_error w_balancer w_active_db))))) = Some d
     \<and> 1090 \<le> real_of_int d"
proof -
  let ?out = "mark_rate_limit 1000 0 w_acct w_error w_balancer w_active_db"
  let ?rows = "db_accounts (snd (snd ?out))"
  have rows: "?rows \<noteq> []" "row_id (hd ?rows) = row_id w_acct" by code_simp+
  have delay: "or_default (message_delay w_error) 30 = 90" by code_simp
  have side: "extract_reset_at w_error 1000 = None" "row_status w_acct \<noteq> RATE_LIMITED" by code_simp+
  have "\<exists>d. row_reset (hd ?rows) = Some d \<and> 1000 + or_default (message_delay w_error) 30 \<le> real_of_int d"
    using rate_limit_deadline_persisted [of 1000 w_error 0 w_acct w_balancer w_active_db "fst ?out"
        "fst (snd ?out)" "snd (snd ?out)" "hd ?rows"] rows side by simp
  then show ?thesis by (simp add: delay)
qed

text \<open>
  The rate-limit write is not guarded by the row it read, unlike the permanent-failure write: a
  pause an operator stored meanwhile is overwritten, and the account returns to the pool when
  the rate limit ends.
\<close>

lemma rate_limit_overwrites_pause:
  "let db = w_active_db\<lparr>db_accounts := [w_acct\<lparr>row_status := PAUSED\<rparr>]\<rparr>;
       db' = snd (snd (mark_rate_limit 1000 0 w_acct w_error w_balancer db))
   in map row_status (db_accounts db) = [PAUSED] \<and> map row_status (db_accounts db') = [RATE_LIMITED]"
  by code_simp

section \<open>Probe reservations\<close>

lemma map_of_AList_update_same [simp]: "map_of (AList.update k v m) k = Some v"
  by (simp add: update_conv')

text \<open>
  A due probe is taken by one caller: once a reservation is committed, it is not current any
  more and neither it nor any other reservation taken before the commit can be committed, so two
  callers that reserved the same account cannot both probe it.
\<close>

theorem probe_committed_once:
  assumes "commit_due_probe_reservation wall (Some p) m = (True, m')"
    and "reserved_account q = reserved_account p" "expected_runtime_version q \<le> expected_runtime_version p"
  shows "commit_due_probe_reservation wall' (Some q) m' = (False, m')"
  using assms by (auto simp: commit_due_probe_reservation_def probe_reservation_current_def bump_health_def
      split: option.splits if_splits)

theorem probe_committed_once_witness:
  "let m = [(''a'', new_runtime\<lparr>rt_health_tier := HEALTH_TIER_PROBING\<rparr>)];
       p = \<lparr>reserved_account = ''a'', previous_last_selected_at = None, reserved_at = 5, expected_runtime_version = 0\<rparr>;
       m1 = AList.update ''a'' (new_runtime\<lparr>rt_health_tier := HEALTH_TIER_PROBING, rt_last_selected_at := Some 5\<rparr>) m;
       m2 = snd (commit_due_probe_reservation 6 (Some p) m1)
   in fst (commit_due_probe_reservation 7 (Some p) m2) = False"
proof -
  let ?p = "\<lparr>reserved_account = ''a'', previous_last_selected_at = None, reserved_at = 5, expected_runtime_version = 0\<rparr>"
  let ?m = "[(''a'', new_runtime\<lparr>rt_health_tier := HEALTH_TIER_PROBING, rt_last_selected_at := Some 5\<rparr>)]"
  have c: "commit_due_probe_reservation 6 (Some ?p) ?m = (True, snd (commit_due_probe_reservation 6 (Some ?p) ?m))"
    by code_simp
  have "commit_due_probe_reservation 7 (Some ?p) (snd (commit_due_probe_reservation 6 (Some ?p) ?m))
     = (False, snd (commit_due_probe_reservation 6 (Some ?p) ?m))"
    by (rule probe_committed_once [OF c]) simp_all
  then show ?thesis by (simp add: Let_def)
qed

lemma reserve_release:
  assumes "distinct (map fst m)" "reserve_for wall s m = (Some p, m')"
  shows "map_of (release_due_probe_reservation (Some p) m') = map_of m"
proof -
  obtain rt where "map_of m (account_id s) = Some rt" using assms(2) by (auto simp: reserve_for_def split: option.splits)
  then show ?thesis using assms(2)
    by (auto simp: reserve_for_def release_due_probe_reservation_def update_conv' fun_eq_iff split: if_splits)
qed

end
