(* ===== verification/Account_Recovery.thy ===== *)
theory Account_Recovery
  imports Runtime_Sync Usage_Quota
begin

text \<open>
  From a persisted row, its usage history and the runtime entry to the state the selector sees:
  \<open>_state_from_account\<close>, \<open>_normalize_usage_inputs\<close>, \<open>background_recovery_state_from_account\<close>,
  \<open>record_probe_result\<close> and their helpers, of \<open>app/modules/proxy/load_balancer.py\<close>. All readings
  of the clock within one evaluation are one argument \<open>now\<close>; the probe settlement, which awaits
  between its steps, has one reading per step. The columns \<open>used_percent\<close> and \<open>recorded_at\<close> are
  not nullable and \<open>recorded_at\<close> is naive UTC, so they are a number and an epoch. Comparing an
  entry with another by identity is subsumed by the comparison of their times.
\<close>

section \<open>Usage entries\<close>

text \<open>The credits are \<open>None\<close> for an \<open>AdditionalUsageHistory\<close> row, which has no such columns.\<close>

record usage_entry =
  entry_account :: string
  entry_window :: "string option"
  entry_used :: real
  entry_reset :: "int option"
  entry_minutes :: "int option"
  entry_recorded :: real
  entry_credits :: "(bool option \<times> bool option \<times> real option) option"

record recovery_settings =
  usage_refresh_interval_seconds :: int
  soft_drain_enabled :: bool
  inflight_penalty_pct :: real
  lease_token_weight :: real

definition usage_history_to_window_row :: "usage_entry \<Rightarrow> usage_window_row" where
  "usage_history_to_window_row e =
     \<lparr>row_account_id = entry_account e, row_used_percent = Some (entry_used e), row_reset_at = entry_reset e,
      row_window_minutes = entry_minutes e, row_recorded_at = Some (Naive (entry_recorded e))\<rparr>"

definition usage_entry_is_recent_enough :: "recovery_settings \<Rightarrow> real \<Rightarrow> real \<Rightarrow> bool" where
  "usage_entry_is_recent_enough cfg now recorded =
     (recorded \<ge> now - of_int (max (usage_refresh_interval_seconds cfg * 2) 180))"

definition usage_entry_is_recent_available :: "recovery_settings \<Rightarrow> real \<Rightarrow> usage_entry option \<Rightarrow> bool" where
  "usage_entry_is_recent_available cfg now e =
     (case e of None \<Rightarrow> False
      | Some x \<Rightarrow> usage_entry_is_recent_enough cfg now (entry_recorded x) \<and> entry_used x < 100)"

definition usage_entry_recorded_after_block :: "usage_entry option \<Rightarrow> real \<Rightarrow> bool" where
  "usage_entry_recorded_after_block e blocked =
     (case e of None \<Rightarrow> False | Some x \<Rightarrow> entry_recorded x > blocked)"

definition credit_entries :: "usage_entry option list \<Rightarrow> usage_entry list" where
  "credit_entries es =
     filter (\<lambda>e. entry_credits e \<noteq> None \<and> entry_credits e \<noteq> Some (None, None, None)) (List.map_filter id es)"

definition extract_credit_status :: "usage_entry option list \<Rightarrow> bool option \<times> bool option \<times> real option" where
  "extract_credit_status es =
     (case max_by entry_recorded (credit_entries es) of
        Inl _ \<Rightarrow> (None, None, None)
      | Inr e \<Rightarrow> or_default (entry_credits e) (None, None, None))"

definition select_long_window_entry ::
    "account_row \<Rightarrow> usage_entry option \<Rightarrow> usage_entry option \<Rightarrow> usage_entry option" where
  "select_long_window_entry acct monthly_entry secondary_entry =
     (if monthly_entry \<noteq> None \<and> capacity_for_plan (row_plan_type acct) ''monthly'' \<noteq> None
      then monthly_entry else secondary_entry)"

definition is_monthly :: "usage_entry \<Rightarrow> bool" where
  "is_monthly e = (entry_window e = Some ''monthly'')"

definition rate_limited_freshness_entry ::
    "real \<Rightarrow> account_row \<Rightarrow> usage_entry option \<Rightarrow> usage_entry option \<Rightarrow> usage_entry option" where
  "rate_limited_freshness_entry now acct primary_entry long_entry =
     (case long_entry of
        None \<Rightarrow> primary_entry
      | Some l \<Rightarrow>
          (if is_monthly l \<and> capacity_for_plan (row_plan_type acct) ''monthly'' \<noteq> None then Some l
           else case primary_entry of
             None \<Rightarrow> Some l
           | Some p \<Rightarrow>
               (let primary_window_expired = (case entry_reset p of None \<Rightarrow> False | Some r \<Rightarrow> of_int r \<le> now);
                    long_window_available = (entry_used l < 100)
                in if primary_window_expired \<and> long_window_available \<and> entry_recorded l > entry_recorded p
                   then Some l else Some p)))"

section \<open>Normalised usage\<close>

record normalized_usage =
  n_primary_used :: "real option"
  n_primary_reset :: "int option"
  n_window_minutes :: "int option"
  n_secondary_entry :: "usage_entry option"
  n_secondary_used :: "real option"
  n_secondary_reset :: "int option"

definition expire_window :: "int \<Rightarrow> real option \<times> int option \<Rightarrow> real option \<times> int option" where
  "expire_window now_epoch w =
     (case w of (Some used, Some reset) \<Rightarrow> (if reset \<le> now_epoch then (Some 0, None) else w) | _ \<Rightarrow> w)"

definition current_minutes :: "usage_entry option \<Rightarrow> usage_entry option \<Rightarrow> int option \<Rightarrow> int option" where
  "current_minutes primary_entry secondary_entry minutes =
     (case (primary_entry, secondary_entry) of
        (Some p, Some s) \<Rightarrow>
          (if entry_recorded s - entry_recorded p > SIBLING_FETCH_MARGIN_SECONDS then None else minutes)
      | _ \<Rightarrow> minutes)"

definition weekly_primary :: "usage_entry option \<Rightarrow> usage_entry option \<Rightarrow> bool" where
  "weekly_primary primary_entry secondary_entry =
     (case primary_entry of None \<Rightarrow> False
      | Some p \<Rightarrow> should_use_weekly_primary (usage_history_to_window_row p)
                    (map_option usage_history_to_window_row secondary_entry))"

definition effective_secondary ::
    "account_row \<Rightarrow> usage_entry option \<Rightarrow> usage_entry option \<Rightarrow> usage_entry option" where
  "effective_secondary acct primary_entry secondary_entry =
     (if weekly_primary primary_entry secondary_entry then primary_entry
      else case secondary_entry of
        Some s \<Rightarrow> (if is_monthly s \<and> capacity_for_plan (row_plan_type acct) ''monthly'' = None then None else Some s)
      | None \<Rightarrow> None)"

definition normalize_usage_inputs ::
    "account_row \<Rightarrow> usage_entry option \<Rightarrow> usage_entry option \<Rightarrow> int \<Rightarrow> normalized_usage" where
  "normalize_usage_inputs acct primary_entry secondary_entry now_epoch =
     (let weekly = weekly_primary primary_entry secondary_entry;
          eff = effective_secondary acct primary_entry secondary_entry;
          (p_used, p_reset) = expire_window now_epoch
             (if weekly then (None, None)
              else (map_option entry_used primary_entry, Option.bind primary_entry entry_reset));
          minutes = (if weekly then None else Option.bind primary_entry entry_minutes);
          (s_used, s_reset) = expire_window now_epoch (map_option entry_used eff, Option.bind eff entry_reset)
      in \<lparr>n_primary_used = p_used, n_primary_reset = p_reset,
          n_window_minutes = current_minutes primary_entry eff minutes,
          n_secondary_entry = eff, n_secondary_used = s_used, n_secondary_reset = s_reset\<rparr>)"

definition health_tier_primary_used :: "string option \<Rightarrow> real option \<Rightarrow> real option" where
  "health_tier_primary_used plan primary = (if capacity_for_plan plan ''primary'' = Some 0 then None else primary)"

section \<open>Evidence and holds\<close>

text \<open>
  \<open>block_observed\<close>: this replica's runtime entry saw the block that starts at \<open>b\<close>, and its
  cooldown has run out.
\<close>

definition block_observed :: "real \<Rightarrow> real \<Rightarrow> runtime_state \<Rightarrow> bool" where
  "block_observed now b rt =
     ((case rt_cooldown_until rt of None \<Rightarrow> False | Some c \<Rightarrow> c \<le> now)
      \<and> (case rt_blocked_at rt of None \<Rightarrow> False | Some rb \<Rightarrow> rb \<ge> b))"

definition plausible :: "real \<Rightarrow> real option \<Rightarrow> real option" where
  "plausible now r = plausible_rate_limit_reset_at now (map_option Py_float r) (Some now) False"

definition row_reset_at_float :: "account_row \<Rightarrow> real option" where
  "row_reset_at_float acct = map_option of_int (row_reset acct)"

definition effective_blocked_at :: "account_row \<Rightarrow> runtime_state \<Rightarrow> real option" where
  "effective_blocked_at acct rt = (case row_blocked_at acct of Some b \<Rightarrow> Some (of_int b) | None \<Rightarrow> rt_blocked_at rt)"

definition rate_limited_cooldown_deadline ::
    "real \<Rightarrow> account_row \<Rightarrow> usage_entry option \<Rightarrow> usage_entry option \<Rightarrow> runtime_state \<Rightarrow> real option" where
  "rate_limited_cooldown_deadline now acct primary_entry eff rt =
     (case effective_blocked_at acct rt of None \<Rightarrow> None
      | Some b \<Rightarrow>
          (if row_status acct \<noteq> RATE_LIMITED then None
           else
             let valid = plausible now (row_reset_at_float acct);
                 persisted_deadline = (if truthy valid then or_default valid 0 else b + RATE_LIMITED_MIN_COOLDOWN_SECONDS)
             in if persisted_deadline \<le> now then None
                else if block_observed now b rt
                        \<and> usage_entry_recorded_after_block (rate_limited_freshness_entry now acct primary_entry eff) b
                then None else Some persisted_deadline))"

definition long_window_quota_available :: "recovery_settings \<Rightarrow> real \<Rightarrow> usage_entry option \<Rightarrow> bool" where
  "long_window_quota_available cfg now eff = usage_entry_is_recent_available cfg now eff"

definition ignores_primary_window ::
    "recovery_settings \<Rightarrow> real \<Rightarrow> account_row \<Rightarrow> usage_entry option \<Rightarrow> normalized_usage \<Rightarrow> real option \<Rightarrow> bool" where
  "ignores_primary_window cfg now acct primary_entry n deadline =
     (capacity_for_plan (row_plan_type acct) ''primary'' = Some 0
      \<and> (row_status acct \<noteq> RATE_LIMITED
         \<or> deadline = None
           \<and> (n_window_minutes n \<noteq> None \<and> \<not> is_primary_window_minutes (n_window_minutes n)
                \<and> long_window_quota_available cfg now (n_secondary_entry n)
              \<or> primary_entry = None \<and> long_window_quota_available cfg now (n_secondary_entry n))))"

definition validated_reset :: "real \<Rightarrow> account_row \<Rightarrow> real option \<Rightarrow> real option" where
  "validated_reset now acct r =
     (case r of None \<Rightarrow> None
      | Some d \<Rightarrow> (if row_status acct = RATE_LIMITED \<and> d > now then plausible now (Some d) else Some d))"

definition rejected_persisted_rate_limit_reset :: "real \<Rightarrow> account_row \<Rightarrow> bool" where
  "rejected_persisted_rate_limit_reset now acct =
     (row_status acct = RATE_LIMITED
      \<and> (case row_reset_at_float acct of None \<Rightarrow> False
         | Some d \<Rightarrow> validated_reset now acct (Some d) = None \<and> d > now))"

definition seed_runtime_reset :: "real \<Rightarrow> account_row \<Rightarrow> bool \<Rightarrow> account_status \<Rightarrow> runtime_state \<Rightarrow> real option" where
  "seed_runtime_reset now acct ignored seed rt =
     (let db_reset = (if ignored then None else validated_reset now acct (row_reset_at_float acct))
      in if seed \<in> {RATE_LIMITED, QUOTA_EXCEEDED} \<or> rt_blocked_at rt \<noteq> None
         then (if truthy db_reset then db_reset else validated_reset now acct (rt_reset_at rt))
         else None)"

definition floor_runtime_reset ::
    "real \<Rightarrow> account_status \<Rightarrow> real option \<Rightarrow> real option \<Rightarrow> real option" where
  "floor_runtime_reset now seed blocked reset =
     (case blocked of None \<Rightarrow> reset
      | Some b \<Rightarrow>
          (if seed = RATE_LIMITED \<and> reset = None \<and> now < b + RATE_LIMITED_MIN_COOLDOWN_SECONDS
           then Some (b + RATE_LIMITED_MIN_COOLDOWN_SECONDS) else reset))"

definition stale_quota_reset ::
    "recovery_settings \<Rightarrow> real \<Rightarrow> account_row \<Rightarrow> real option \<Rightarrow> usage_entry option \<Rightarrow> real option \<Rightarrow> bool" where
  "stale_quota_reset cfg now acct blocked eff reset =
     (row_status acct = QUOTA_EXCEEDED \<and> blocked = None
      \<and> (case (reset, eff) of
           (Some d, Some e) \<Rightarrow>
             d > now \<and> usage_entry_is_recent_enough cfg now (entry_recorded e) \<and> entry_used e < 100
             \<and> (case entry_reset e of None \<Rightarrow> False | Some r \<Rightarrow> of_int r > d)
         | _ \<Rightarrow> False))"

definition cooldown_ready :: "real \<Rightarrow> account_row \<Rightarrow> real option \<Rightarrow> runtime_state \<Rightarrow> bool" where
  "cooldown_ready now acct blocked rt =
     (case blocked of None \<Rightarrow> False
      | Some b \<Rightarrow>
          (if row_status acct = QUOTA_EXCEEDED then now \<ge> b + QUOTA_EXCEEDED_COOLDOWN_SECONDS
           else block_observed now b rt))"

definition freshness_entry ::
    "real \<Rightarrow> account_row \<Rightarrow> usage_entry option \<Rightarrow> usage_entry option \<Rightarrow> usage_entry option" where
  "freshness_entry now acct primary_entry eff =
     (if row_status acct = QUOTA_EXCEEDED then eff
      else if row_status acct = RATE_LIMITED then rate_limited_freshness_entry now acct primary_entry eff
      else None)"

definition evidence_clears ::
    "real \<Rightarrow> account_row \<Rightarrow> usage_entry option \<Rightarrow> usage_entry option \<Rightarrow> runtime_state \<Rightarrow> bool" where
  "evidence_clears now acct primary_entry eff rt =
     (case effective_blocked_at acct rt of None \<Rightarrow> False
      | Some b \<Rightarrow>
          cooldown_ready now acct (Some b) rt
          \<and> usage_entry_recorded_after_block (freshness_entry now acct primary_entry eff) b)"

definition effective_runtime_reset ::
    "recovery_settings \<Rightarrow> real \<Rightarrow> account_row \<Rightarrow> bool \<Rightarrow> account_status \<Rightarrow> usage_entry option \<Rightarrow> usage_entry option
     \<Rightarrow> runtime_state \<Rightarrow> real option" where
  "effective_runtime_reset cfg now acct ignored seed primary_entry eff rt =
     (let blocked = effective_blocked_at acct rt;
          r1 = floor_runtime_reset now seed blocked (seed_runtime_reset now acct ignored seed rt);
          r2 = (if stale_quota_reset cfg now acct blocked eff r1 then None else r1)
      in if evidence_clears now acct primary_entry eff rt then None else r2)"

definition below_limit :: "real option \<Rightarrow> bool" where
  "below_limit used = (case used of None \<Rightarrow> True | Some v \<Rightarrow> v < 100)"

definition rejected_reset_recovery_evidence ::
    "recovery_settings \<Rightarrow> real \<Rightarrow> account_row \<Rightarrow> usage_entry option \<Rightarrow> usage_entry option \<Rightarrow> real option \<Rightarrow> real option
     \<Rightarrow> runtime_state \<Rightarrow> bool" where
  "rejected_reset_recovery_evidence cfg now acct primary_entry eff primary secondary rt =
     (let e = rate_limited_freshness_entry now acct primary_entry eff
      in below_limit primary \<and> below_limit secondary \<and> (primary \<noteq> None \<or> secondary \<noteq> None)
         \<and> usage_entry_is_recent_available cfg now e
         \<and> (case effective_blocked_at acct rt of None \<Rightarrow> True
            | Some b \<Rightarrow> now \<ge> b + RATE_LIMITED_MIN_COOLDOWN_SECONDS \<and> usage_entry_recorded_after_block e b))"

section \<open>The state the selector sees\<close>

record recovered =
  rec_status :: account_status
  rec_used :: "real option"
  rec_reset :: "real option"
  rec_usage :: normalized_usage

text \<open>
  The windows the status is derived from, and whether the primary window of a rate-limited
  account is ignored because its plan has none.
\<close>

definition recovery_windows ::
    "recovery_settings \<Rightarrow> real \<Rightarrow> account_row \<Rightarrow> usage_entry option \<Rightarrow> usage_entry option \<Rightarrow> runtime_state
     \<Rightarrow> normalized_usage \<times> bool" where
  "recovery_windows cfg now acct primary_entry secondary_entry rt =
     (let n0 = normalize_usage_inputs acct primary_entry secondary_entry (py_int now);
          eff = n_secondary_entry n0;
          (p_used, p_reset) = expire_window (py_int now) (n_primary_used n0, n_primary_reset n0);
          minutes = current_minutes primary_entry eff (n_window_minutes n0);
          (s_used, s_reset) = expire_window (py_int now) (n_secondary_used n0, n_secondary_reset n0);
          n1 = n0\<lparr>n_primary_used := p_used, n_primary_reset := p_reset, n_window_minutes := minutes,
                  n_secondary_used := s_used, n_secondary_reset := s_reset\<rparr>;
          deadline = rate_limited_cooldown_deadline now acct primary_entry eff rt;
          ignores = ignores_primary_window cfg now acct primary_entry n1 deadline
      in (if ignores
          then n1\<lparr>n_primary_used := health_tier_primary_used (row_plan_type acct) p_used,
                  n_primary_reset := None, n_window_minutes := None\<rparr> else n1,
          ignores \<and> row_status acct = RATE_LIMITED))"

definition recovery_inputs ::
    "normalized_usage \<Rightarrow> bool option \<times> bool option \<times> real option \<Rightarrow> real option \<Rightarrow> usage_inputs" where
  "recovery_inputs n credits reset =
     (case credits of (c_has, c_unlimited, c_balance) \<Rightarrow>
        \<lparr>primary_used = n_primary_used n, primary_reset = n_primary_reset n,
         usage_window_minutes = n_window_minutes n, runtime_reset = reset,
         secondary_used = n_secondary_used n, secondary_reset = n_secondary_reset n,
         credits_has = c_has, credits_unlimited = c_unlimited, credits_balance = c_balance,
         infer_status_from_usage = False\<rparr>)"

definition settle_status ::
    "real \<Rightarrow> account_row \<Rightarrow> account_status \<Rightarrow> runtime_state \<Rightarrow> real option \<Rightarrow> bool \<Rightarrow> account_status \<times> real option
     \<Rightarrow> account_status \<times> real option" where
  "settle_status now acct seed rt primary evidence sr =
     (case sr of (st, r) \<Rightarrow>
        let resetless = (seed = RATE_LIMITED \<and> row_reset acct = None \<and> rt_reset_at rt = None);
            st1 = (if resetless \<and> primary = None \<and> st = ACTIVE then RATE_LIMITED else st)
        in if rejected_persisted_rate_limit_reset now acct \<and> \<not> evidence
           then (RATE_LIMITED, row_reset_at_float acct) else (st1, r))"

definition recover_account ::
    "recovery_settings \<Rightarrow> real \<Rightarrow> account_row \<Rightarrow> usage_entry option \<Rightarrow> usage_entry option \<Rightarrow> runtime_state \<Rightarrow> recovered"
  where
  "recover_account cfg now acct primary_entry secondary_entry rt =
     (let (n, ignored) = recovery_windows cfg now acct primary_entry secondary_entry rt;
          eff = n_secondary_entry n;
          seed = (if ignored then ACTIVE else row_status acct);
          u = recovery_inputs n (extract_credit_status [primary_entry, eff, secondary_entry])
                (effective_runtime_reset cfg now acct ignored seed primary_entry eff rt);
          (st, used, r) = apply_usage_quota now u seed;
          evidence = rejected_reset_recovery_evidence cfg now acct primary_entry eff
                       (n_primary_used n) (n_secondary_used n) rt;
          (st', r') = settle_status now acct seed rt (n_primary_used n) evidence (st, r)
      in \<lparr>rec_status = st', rec_used = used, rec_reset = r', rec_usage = n\<rparr>)"

definition next_blocked_at :: "account_row \<Rightarrow> account_status \<Rightarrow> runtime_state \<Rightarrow> real option" where
  "next_blocked_at acct st rt =
     (if st = QUOTA_EXCEEDED then effective_blocked_at acct rt
      else if st = RATE_LIMITED \<and> row_status acct \<noteq> QUOTA_EXCEEDED then effective_blocked_at acct rt
      else None)"

definition pressure_pct :: "recovery_settings \<Rightarrow> real \<Rightarrow> runtime_state \<Rightarrow> real" where
  "pressure_pct cfg capacity rt =
     of_int (rt_inflight_response_creates rt + rt_inflight_streams rt) * inflight_penalty_pct cfg
     + (if capacity > 0 \<and> rt_leased_tokens rt > 0
        then rt_leased_tokens rt * lease_token_weight cfg / capacity * 100 else 0)"

definition state_from_account ::
    "recovery_settings \<Rightarrow> real \<Rightarrow> account_row \<Rightarrow> usage_entry option \<Rightarrow> usage_entry option \<Rightarrow> runtime_state
     \<Rightarrow> account_state \<times> runtime_state" where
  "state_from_account cfg now acct primary_entry secondary_entry rt =
     (let policy = normalize_account_routing_policy (row_routing_policy acct);
          q = recover_account cfg now acct primary_entry secondary_entry rt;
          n = rec_usage q;
          (tier, rt') = sync_runtime_health_tier (row_id acct) (rec_status q) (rec_used q) (n_secondary_used n)
                          policy now now (soft_drain_enabled cfg) rt;
          long_window_key = (case n_secondary_entry n of
             Some e \<Rightarrow> (if is_monthly e then ''monthly'' else ''secondary'') | None \<Rightarrow> ''secondary'');
          capacity = or_default (capacity_for_plan (row_plan_type acct) long_window_key) 0;
          pressed = map_option (\<lambda>v. min 100 (v + pressure_pct cfg capacity rt'))
      in ((new_account_state (row_id acct) (rec_status q))
            \<lparr>used_percent := pressed (rec_used q), reset_at := rec_reset q,
             primary_reset_at := n_primary_reset n, primary_window_minutes := n_window_minutes n,
             blocked_at := next_blocked_at acct (rec_status q) rt,
             cooldown_until := rt_cooldown_until rt', secondary_used_percent := pressed (n_secondary_used n),
             secondary_reset_at := n_secondary_reset n, last_error_at := rt_last_error_at rt',
             last_selected_at := rt_last_selected_at rt', error_count := rt_error_count rt',
             deactivation_reason := row_deactivation_reason acct, plan_type := row_plan_type acct,
             capacity_credits := Some capacity, health_tier := tier,
             inflight_response_creates := rt_inflight_response_creates rt',
             inflight_streams := rt_inflight_streams rt', leased_tokens := rt_leased_tokens rt',
             routing_policy := policy\<rparr>, rt'))"

definition hold_rate_limited ::
    "real option \<Rightarrow> real option \<Rightarrow> real option \<Rightarrow> account_state \<Rightarrow> account_state" where
  "hold_rate_limited reset blocked cooldown s =
     s\<lparr>status := RATE_LIMITED, reset_at := reset, blocked_at := blocked, cooldown_until := cooldown\<rparr>"

definition background_runtime :: "real \<Rightarrow> account_row \<Rightarrow> runtime_state" where
  "background_runtime now acct =
     (let blocked = map_option of_int (row_blocked_at acct);
          valid = plausible now (row_reset_at_float acct);
          rt = new_runtime\<lparr>rt_blocked_at := blocked\<rparr>
      in if row_status acct = RATE_LIMITED \<and> blocked \<noteq> None \<and> valid \<noteq> None
         then rt\<lparr>rt_cooldown_until := valid\<rparr> else rt)"

definition background_recovery_state_from_account ::
    "recovery_settings \<Rightarrow> real \<Rightarrow> account_row \<Rightarrow> usage_entry option \<Rightarrow> usage_entry option \<Rightarrow> account_state" where
  "background_recovery_state_from_account cfg now acct primary_entry secondary_entry =
     (let blocked = map_option of_int (row_blocked_at acct);
          reset = row_reset_at_float acct;
          s = fst (state_from_account cfg now acct primary_entry secondary_entry (background_runtime now acct));
          e = rate_limited_freshness_entry now acct primary_entry secondary_entry
      in if row_status acct \<noteq> RATE_LIMITED then s
         else case reset of None \<Rightarrow> hold_rate_limited None blocked None s
         | Some r \<Rightarrow>
             (case blocked of
                Some b \<Rightarrow>
                  (let minimum_floor_deadline = b + RATE_LIMITED_MIN_COOLDOWN_SECONDS
                   in if r \<le> now \<and> (now < minimum_floor_deadline \<or> \<not> usage_entry_recorded_after_block e b)
                      then hold_rate_limited (Some r) (Some b) (Some (max r minimum_floor_deadline)) s else s)
              | None \<Rightarrow>
                  (if r \<le> now \<and> \<not> usage_entry_is_recent_available cfg now e
                   then hold_rate_limited (Some r) None None s else s)))"

section \<open>Settling an operator probe\<close>

definition probe_failed :: "runtime_state \<Rightarrow> runtime_state" where
  "probe_failed rt =
     bump_health (if rt_probe_success_streak rt > 0 then rt\<lparr>rt_probe_success_streak := 0\<rparr> else rt)"

definition clear_probe_errors :: "runtime_state \<Rightarrow> runtime_state" where
  "clear_probe_errors rt =
     (if rt_error_count rt > 0 \<or> rt_last_error_at rt \<noteq> None
      then bump_health (rt\<lparr>rt_error_count := 0, rt_last_error_at := None\<rparr>) else rt)"

text \<open>
  The settlement of a successful probe under the lock, \<open>expected\<close> being the health version read
  before the rows were loaded at time \<open>read_at\<close>. \<open>_state_from_account\<close> works on a copy of the runtime entry.
\<close>

definition settle_probe ::
    "recovery_settings \<Rightarrow> real \<Rightarrow> real \<Rightarrow> account_row \<Rightarrow> usage_entry option \<Rightarrow> usage_entry option \<Rightarrow> int
     \<Rightarrow> runtime_state \<Rightarrow> runtime_state" where
  "settle_probe cfg read_at now acct primary_entry secondary_entry expected rt =
     (if rt_health_version rt \<noteq> expected then rt
      else
        let n = normalize_usage_inputs acct primary_entry secondary_entry (py_int read_at);
            used = health_tier_primary_used (row_plan_type acct) (n_primary_used n);
            policy = normalize_account_routing_policy (row_routing_policy acct);
            st = status (fst (state_from_account cfg now acct primary_entry secondary_entry rt));
            sync = (\<lambda>r. snd (sync_runtime_health_tier (row_id acct) st used (n_secondary_used n) policy now now
                              (soft_drain_enabled cfg) r))
        in if st \<noteq> ACTIVE then rt
           else
             let eligible = (rt_health_tier rt = HEALTH_TIER_PROBING);
                 rt1 = sync (if eligible then clear_probe_errors rt else rt)
             in if rt_health_tier rt1 \<noteq> HEALTH_TIER_PROBING then rt1
                else let rt2 = (if eligible then rt1 else clear_probe_errors rt1);
                         rt3 = bump_health (rt2\<lparr>rt_probe_success_streak := rt_probe_success_streak rt2 + 1\<rparr>)
                     in sync rt3)"

definition record_probe_result ::
    "recovery_settings \<Rightarrow> real \<Rightarrow> real \<Rightarrow> int \<Rightarrow> (account_row \<times> usage_entry option \<times> usage_entry option \<times> usage_entry option) option
     \<Rightarrow> runtime_event list \<Rightarrow> runtime_state \<Rightarrow> runtime_state" where
  "record_probe_result cfg read_at now http_status loaded between rt =
     (if \<not> (200 \<le> http_status \<and> http_status < 300) then probe_failed rt
      else case loaded of
        None \<Rightarrow> fold runtime_step between rt
      | Some (acct, primary_entry, secondary_entry, monthly_entry) \<Rightarrow>
          settle_probe cfg read_at now acct primary_entry
            (select_long_window_entry acct monthly_entry secondary_entry)
            (rt_health_version rt) (fold runtime_step between rt))"

section \<open>Properties\<close>

lemma apply_usage_quota_held:
  assumes "\<not> infer_status_from_usage u" "runtime_reset u = Some d" "now < d" "d \<noteq> 0"
  shows "fst (apply_usage_quota now u RATE_LIMITED) = RATE_LIMITED
    \<and> snd (snd (apply_usage_quota now u RATE_LIMITED)) = Some d"
  using assms
  by (cases "secondary_used u")
    (simp_all add: apply_usage_quota_def apply_secondary_def apply_credit_override_def apply_primary_def
      held_future Let_def)

lemma apply_usage_quota_status:
  assumes "\<not> infer_status_from_usage u"
  shows "fst (apply_usage_quota now u st) \<in> {st, ACTIVE}
    \<and> (st \<in> {REAUTH_REQUIRED, DEACTIVATED, PAUSED} \<longrightarrow> fst (apply_usage_quota now u st) = st)"
proof -
  obtain s where s: "apply_secondary now u st = Inr s" "fst s = st \<or> fst s = ACTIVE"
    using apply_secondary_observed [OF assms] by blast
  then show ?thesis
    using apply_primary_observed [OF assms, of now "apply_credit_override u s"] apply_credit_observed [of u s]
    by (auto simp: apply_usage_quota_def)
qed

lemma freshness_in:
  "rate_limited_freshness_entry now acct p l = Some e \<Longrightarrow> p = Some e \<or> l = Some e"
  by (auto simp: rate_limited_freshness_entry_def Let_def split: option.splits if_splits)

lemma effective_secondary_in: "effective_secondary acct p s = Some e \<Longrightarrow> p = Some e \<or> s = Some e"
  by (auto simp: effective_secondary_def split: option.splits if_splits)

lemma n_secondary_entry_eq [simp]:
  "n_secondary_entry (normalize_usage_inputs acct p s t) = effective_secondary acct p s"
  by (simp add: normalize_usage_inputs_def Let_def case_prod_beta)

lemma recovery_inputs_simps [simp]:
  "runtime_reset (recovery_inputs n c r) = r" "\<not> infer_status_from_usage (recovery_inputs n c r)"
  by (simp_all add: recovery_inputs_def split: prod.split)

lemma recovery_windows_spec:
  "n_secondary_entry (fst (recovery_windows cfg now acct p s rt)) = effective_secondary acct p s"
  "snd (recovery_windows cfg now acct p s rt) \<Longrightarrow>
     row_status acct = RATE_LIMITED \<and> rate_limited_cooldown_deadline now acct p (effective_secondary acct p s) rt = None"
  by (auto simp: recovery_windows_def Let_def case_prod_beta ignores_primary_window_def)

text \<open>
  The account the selector would see, with its windows abstracted: \<open>ignored\<close> tells whether the
  rate limit is read as a limit of a window the plan does not have.
\<close>

lemma recover_account_cases:
  fixes cfg now acct p s rt
  defines "eff \<equiv> effective_secondary acct p s"
    and "ignored \<equiv> snd (recovery_windows cfg now acct p s rt)"
    and "q \<equiv> recover_account cfg now acct p s rt"
  obtains u pu su where "\<not> infer_status_from_usage u"
    and "runtime_reset u = effective_runtime_reset cfg now acct ignored (if ignored then ACTIVE else row_status acct) p eff rt"
    and "(rec_status q, rec_reset q) = settle_status now acct (if ignored then ACTIVE else row_status acct) rt pu
          (rejected_reset_recovery_evidence cfg now acct p eff pu su rt)
          (fst (apply_usage_quota now u (if ignored then ACTIVE else row_status acct)),
           snd (snd (apply_usage_quota now u (if ignored then ACTIVE else row_status acct))))"
proof -
  let ?n = "fst (recovery_windows cfg now acct p s rt)"
  let ?u = "recovery_inputs ?n (extract_credit_status [p, eff, s])
      (effective_runtime_reset cfg now acct ignored (if ignored then ACTIVE else row_status acct) p eff rt)"
  show thesis
    by (rule that [of ?u "n_primary_used ?n" "n_secondary_used ?n"])
       (simp_all add: q_def recover_account_def Let_def case_prod_beta recovery_windows_spec eff_def ignored_def)
qed

lemma settle_status_cases:
  assumes "(st', r') = settle_status now acct seed rt pu evidence (st, r)"
  shows "st' = st \<or> st' = RATE_LIMITED \<and> (seed = RATE_LIMITED \<or> row_status acct = RATE_LIMITED)"
  using assms by (auto simp: settle_status_def rejected_persisted_rate_limit_reset_def Let_def split: if_splits)

lemma state_from_account_simps [simp]:
  "status (fst (state_from_account cfg now acct p s rt)) = rec_status (recover_account cfg now acct p s rt)"
  "reset_at (fst (state_from_account cfg now acct p s rt)) = rec_reset (recover_account cfg now acct p s rt)"
  "blocked_at (fst (state_from_account cfg now acct p s rt))
     = next_blocked_at acct (rec_status (recover_account cfg now acct p s rt)) rt"
  by (simp_all add: state_from_account_def Let_def case_prod_beta new_account_state_def)

text \<open>
  Usage never invents a block: the status the selector sees is the persisted status or
  active, and an account that is paused, deactivated or waiting for re-authentication keeps its
  status whatever its usage, credits and runtime entry say.
\<close>

theorem recovery_only_lifts:
  "status (fst (state_from_account cfg now acct p s rt)) \<in> {row_status acct, ACTIVE}
   \<and> (row_status acct \<in> {REAUTH_REQUIRED, DEACTIVATED, PAUSED} \<longrightarrow>
      status (fst (state_from_account cfg now acct p s rt)) = row_status acct)"
proof -
  let ?q = "recover_account cfg now acct p s rt" and ?ig = "snd (recovery_windows cfg now acct p s rt)"
  obtain u pu su where u: "\<not> infer_status_from_usage u"
    "(rec_status ?q, rec_reset ?q) = settle_status now acct (if ?ig then ACTIVE else row_status acct) rt pu
        (rejected_reset_recovery_evidence cfg now acct p (effective_secondary acct p s) pu su rt)
        (fst (apply_usage_quota now u (if ?ig then ACTIVE else row_status acct)),
         snd (snd (apply_usage_quota now u (if ?ig then ACTIVE else row_status acct))))"
    by (rule recover_account_cases [of cfg now acct p s rt])
  show ?thesis
    using settle_status_cases [OF u(2)] apply_usage_quota_status [OF u(1), of now "row_status acct"]
      apply_usage_quota_status [OF u(1), of now ACTIVE] recovery_windows_spec(2) [of cfg now acct p s rt]
    by (auto split: if_splits)
qed

definition w_settings :: recovery_settings where
  "w_settings = \<lparr>usage_refresh_interval_seconds = 60, soft_drain_enabled = True, inflight_penalty_pct = 5 / 2,
     lease_token_weight = 1\<rparr>"

definition w_entry :: "real \<Rightarrow> real \<Rightarrow> usage_entry" where
  "w_entry used recorded = \<lparr>entry_account = ''a'', entry_window = Some ''primary'', entry_used = used, entry_reset = None,
     entry_minutes = Some 300, entry_recorded = recorded, entry_credits = None\<rparr>"

theorem recovery_only_lifts_witness:
  "status (fst (state_from_account w_settings 1500 (w_acct\<lparr>row_status := PAUSED\<rparr>) (Some (w_entry 10 1400)) None new_runtime))
   = PAUSED"
  using recovery_only_lifts [of w_settings 1500 "w_acct\<lparr>row_status := PAUSED\<rparr>" "Some (w_entry 10 1400)" None new_runtime]
  by simp

lemma recorded_after_entry:
  assumes "usage_entry_recorded_after_block (rate_limited_freshness_entry now acct p (effective_secondary acct p s)) b"
  shows "\<exists>e. (p = Some e \<or> s = Some e) \<and> b < entry_recorded e"
proof -
  obtain e where e: "rate_limited_freshness_entry now acct p (effective_secondary acct p s) = Some e" "b < entry_recorded e"
    using assms by (auto simp: usage_entry_recorded_after_block_def split: option.splits)
  then show ?thesis using freshness_in [OF e(1)] effective_secondary_in by metis
qed

lemma plausible_Some:
  "now < d \<Longrightarrow> d \<le> now + RATE_LIMIT_RESET_MAX_HORIZON_SECONDS \<Longrightarrow> plausible now (Some d) = Some d"
  by (simp add: plausible_def plausible_rate_limit_reset_at_def finite_number_def)

lemma held_recovery:
  assumes row: "row_status acct = RATE_LIMITED" "row_blocked_at acct = Some b" "row_reset acct = Some r"
    and r: "0 \<le> now" "now < of_int r" "of_int r \<le> now + RATE_LIMIT_RESET_MAX_HORIZON_SECONDS"
    and no: "\<not> (block_observed now (of_int b) rt
      \<and> usage_entry_recorded_after_block (rate_limited_freshness_entry now acct p (effective_secondary acct p s)) (of_int b))"
  shows "rec_status (recover_account cfg now acct p s rt) = RATE_LIMITED
    \<and> rec_reset (recover_account cfg now acct p s rt) = Some (of_int r)"
proof -
  let ?ig = "snd (recovery_windows cfg now acct p s rt)" and ?eff = "effective_secondary acct p s"
  have float: "row_reset_at_float acct = Some (of_int r)" "effective_blocked_at acct rt = Some (of_int b)"
    using row by (simp_all add: row_reset_at_float_def effective_blocked_at_def)
  have valid: "plausible now (Some (of_int r)) = Some (of_int r)" using r by (intro plausible_Some)
  then have "validated_reset now acct (Some (of_int r)) = Some (of_int r)" by (simp add: validated_reset_def)
  moreover have "r \<noteq> 0" using r by auto
  moreover have "rate_limited_cooldown_deadline now acct p ?eff rt \<noteq> None"
    using row r no valid float \<open>r \<noteq> 0\<close> by (auto simp: rate_limited_cooldown_deadline_def Let_def truthy_def)
  then have ig: "\<not> ?ig" using recovery_windows_spec(2) [of cfg now acct p s rt] by auto
  ultimately have reset: "effective_runtime_reset cfg now acct False RATE_LIMITED p ?eff rt = Some (of_int r)"
      "\<not> rejected_persisted_rate_limit_reset now acct"
    using row no float by (auto simp: effective_runtime_reset_def seed_runtime_reset_def floor_runtime_reset_def
        stale_quota_reset_def evidence_clears_def cooldown_ready_def freshness_entry_def truthy_def Let_def
        rejected_persisted_rate_limit_reset_def)
  obtain u pu su where u: "\<not> infer_status_from_usage u"
    "runtime_reset u = effective_runtime_reset cfg now acct ?ig (if ?ig then ACTIVE else row_status acct) p ?eff rt"
    "(rec_status (recover_account cfg now acct p s rt), rec_reset (recover_account cfg now acct p s rt))
       = settle_status now acct (if ?ig then ACTIVE else row_status acct) rt pu
        (rejected_reset_recovery_evidence cfg now acct p ?eff pu su rt)
        (fst (apply_usage_quota now u (if ?ig then ACTIVE else row_status acct)),
         snd (snd (apply_usage_quota now u (if ?ig then ACTIVE else row_status acct))))"
    by (rule recover_account_cases [of cfg now acct p s rt])
  have "runtime_reset u = Some (of_int r)" using u(2) ig row(1) reset(1) by simp
  from apply_usage_quota_held [OF u(1) this] r \<open>r \<noteq> 0\<close>
  show ?thesis using u(3) ig row(1) reset(2) by (simp add: settle_status_def Let_def)
qed

text \<open>
  A running rate limit is lifted only on evidence: while the persisted deadline lies ahead
  (within the plausible horizon), the account stays rate limited with exactly that deadline and
  block time, unless this replica itself observed the block, its own cooldown is over, and a
  usage row recorded after the block is at hand. A replica that only reads the row waits.
\<close>

theorem rate_limit_lifted_on_evidence:
  assumes "row_status acct = RATE_LIMITED" "row_blocked_at acct = Some b" "row_reset acct = Some r"
    and "0 \<le> now" "now < of_int r" "of_int r \<le> now + RATE_LIMIT_RESET_MAX_HORIZON_SECONDS"
    and "S = fst (state_from_account cfg now acct p s rt)"
  shows "status S = RATE_LIMITED \<and> reset_at S = Some (of_int r) \<and> blocked_at S = Some (of_int b)
    \<or> block_observed now (of_int b) rt \<and> (\<exists>e. (p = Some e \<or> s = Some e) \<and> of_int b < entry_recorded e)"
  using held_recovery [OF assms(1-6), of rt p s] recorded_after_entry [of now acct p s "of_int b"] assms(1,2,7)
  by (cases "block_observed now (of_int b) rt
      \<and> usage_entry_recorded_after_block (rate_limited_freshness_entry now acct p (effective_secondary acct p s)) (of_int b)")
    (auto simp: next_blocked_at_def effective_blocked_at_def)

definition w_limited :: account_row where
  "w_limited = w_acct\<lparr>row_status := RATE_LIMITED, row_reset := Some 2000, row_blocked_at := Some 1000\<rparr>"

theorem rate_limit_lifted_on_evidence_witness:
  "status (fst (state_from_account w_settings 1500 w_limited None None new_runtime)) = RATE_LIMITED
   \<and> reset_at (fst (state_from_account w_settings 1500 w_limited None None new_runtime)) = Some 2000"
proof -
  have "row_status w_limited = RATE_LIMITED" "row_blocked_at w_limited = Some 1000" "row_reset w_limited = Some 2000"
    by (simp_all add: w_limited_def)
  moreover have "\<not> block_observed 1500 1000 new_runtime" by code_simp
  moreover have "(2000 :: real) \<le> 1500 + RATE_LIMIT_RESET_MAX_HORIZON_SECONDS" by code_simp
  ultimately show ?thesis
    using rate_limit_lifted_on_evidence [of w_limited 1000 2000 1500 _ w_settings None None new_runtime] by simp
qed

text \<open>
  Background recovery never trades a real rate limit for stale data: a rate-limited account
  with a block time leaves that status in the background only when the 30-second floor after
  the block is over, the row has a reset time, and some usage row was recorded after the block.
\<close>

theorem background_recovery_needs_evidence:
  assumes "0 \<le> now" "row_status acct = RATE_LIMITED" "row_blocked_at acct = Some b"
    and "status (background_recovery_state_from_account cfg now acct p s) \<noteq> RATE_LIMITED"
  shows "of_int b + 30 \<le> now \<and> row_reset acct \<noteq> None \<and> (\<exists>e. (p = Some e \<or> s = Some e) \<and> of_int b < entry_recorded e)"
proof -
  let ?rt = "background_runtime now acct"
  obtain r where r: "row_reset acct = Some r"
    using assms by (cases "row_reset acct")
      (auto simp: background_recovery_state_from_account_def row_reset_at_float_def hold_rate_limited_def Let_def)
  show ?thesis
  proof (cases "of_int r \<le> now")
    case True
    then have "of_int b + 30 \<le> now \<and> usage_entry_recorded_after_block (rate_limited_freshness_entry now acct p s) (of_int b)"
      using assms r by (auto simp: background_recovery_state_from_account_def row_reset_at_float_def
          hold_rate_limited_def RATE_LIMITED_MIN_COOLDOWN_SECONDS_def Let_def split: if_splits)
    then show ?thesis using r freshness_in [of now acct p s]
      by (auto simp: usage_entry_recorded_after_block_def split: option.splits)
  next
    case False
    then have st: "rec_status (recover_account cfg now acct p s ?rt) \<noteq> RATE_LIMITED"
      using assms r by (auto simp: background_recovery_state_from_account_def row_reset_at_float_def Let_def)
    show ?thesis
    proof (cases "of_int r \<le> now + RATE_LIMIT_RESET_MAX_HORIZON_SECONDS")
      case True
      then have "rt_cooldown_until ?rt = Some (of_int r)"
        using False assms(2,3) r by (simp add: background_runtime_def row_reset_at_float_def plausible_Some Let_def)
      then have "\<not> block_observed now (of_int b) ?rt" using False by (simp add: block_observed_def)
      then show ?thesis using held_recovery [OF assms(2,3) r assms(1) _ True] False st by simp
    next
      case far: False
      then have "rejected_persisted_rate_limit_reset now acct"
        using assms(2) r False by (simp add: rejected_persisted_rate_limit_reset_def row_reset_at_float_def
            validated_reset_def plausible_def plausible_rate_limit_reset_at_def finite_number_def)
      moreover obtain pu su sd q where
        "(rec_status (recover_account cfg now acct p s ?rt), rec_reset (recover_account cfg now acct p s ?rt))
         = settle_status now acct sd ?rt pu
            (rejected_reset_recovery_evidence cfg now acct p (effective_secondary acct p s) pu su ?rt) q"
        by (metis recover_account_cases [of cfg now acct p s ?rt])
      ultimately have "rejected_reset_recovery_evidence cfg now acct p (effective_secondary acct p s) pu su ?rt"
        using st by (auto simp: settle_status_def split: prod.splits if_splits)
      then show ?thesis using r assms(3) recorded_after_entry [of now acct p s "of_int b"]
        by (auto simp: rejected_reset_recovery_evidence_def effective_blocked_at_def
            RATE_LIMITED_MIN_COOLDOWN_SECONDS_def Let_def)
    qed
  qed
qed

theorem background_recovery_needs_evidence_witness:
  "\<exists>e. Some (w_entry 10 2400) = Some e \<and> 1000 < entry_recorded e"
proof -
  let ?e = "Some (w_entry 10 2400)" and ?rt = "background_runtime 2500 w_limited"
  let ?n = "\<lparr>n_primary_used = Some 10, n_primary_reset = None, n_window_minutes = Some 300, n_secondary_entry = None,
      n_secondary_used = None, n_secondary_reset = None\<rparr>"
  have row: "row_status w_limited = RATE_LIMITED" "row_blocked_at w_limited = Some 1000" "row_reset w_limited = Some 2000"
    by (simp_all add: w_limited_def)
  have windows: "recovery_windows w_settings 2500 w_limited ?e None ?rt = (?n, False)" by code_simp
  have w: "extract_credit_status [?e, None, None] = (None, None, None)"
      "effective_runtime_reset w_settings 2500 w_limited False RATE_LIMITED ?e None ?rt = Some 2000"
      "\<not> rejected_persisted_rate_limit_reset 2500 w_limited"
      "usage_entry_recorded_after_block (rate_limited_freshness_entry 2500 w_limited ?e None) 1000"
    by code_simp+
  moreover have
      "apply_usage_quota 2500 (recovery_inputs ?n (None, None, None) (Some 2000)) RATE_LIMITED = (ACTIVE, Some 10, None)"
    by (simp add: apply_usage_quota_def recovery_inputs_def apply_secondary_def apply_credit_override_def
        apply_primary_def held_until_reset_def has_credit_override_def has_usable_credits_def primary_exhausted_def)
  ultimately have "rec_status (recover_account w_settings 2500 w_limited ?e None ?rt) = ACTIVE"
    using row windows by (simp add: recover_account_def settle_status_def Let_def)
  then have "status (background_recovery_state_from_account w_settings 2500 w_limited ?e None) \<noteq> RATE_LIMITED"
    using row w(4) by (simp add: background_recovery_state_from_account_def row_reset_at_float_def Let_def
        RATE_LIMITED_MIN_COOLDOWN_SECONDS_def)
  then show ?thesis
    using background_recovery_needs_evidence [of 2500 w_limited 1000 w_settings ?e None] row by simp
qed

text \<open>
  Settling an operator probe is a compare-and-set on the health observations: whatever
  happens to the account while the usage rows are being read, a successful probe either leaves
  the runtime entry as it finds it, or finds every deadline, error count, tier and streak as
  they were when the probe's token was taken.
\<close>

theorem probe_settlement_cas:
  assumes "200 \<le> http_status" "http_status < 300" "rt' = fold runtime_step between rt"
    and "record_probe_result cfg read_at now http_status loaded between rt \<noteq> rt'"
  shows "health_view rt' = health_view rt"
proof -
  have "rt_health_version rt' = rt_health_version rt"
    using assms by (auto simp: record_probe_result_def settle_probe_def split: option.splits if_splits)
  then show ?thesis using unchanged_token_view assms(3) by simp
qed

theorem probe_settlement_cas_witness:
  "health_view (fold runtime_step [Lease_add 1400 False w_lease] (new_runtime\<lparr>rt_health_tier := HEALTH_TIER_PROBING\<rparr>))
   = health_view (new_runtime\<lparr>rt_health_tier := HEALTH_TIER_PROBING\<rparr>)"
proof -
  let ?cfg = "w_settings\<lparr>soft_drain_enabled := False\<rparr>"
  let ?rt = "new_runtime\<lparr>rt_health_tier := HEALTH_TIER_PROBING\<rparr>" and ?evs = "[Lease_add 1400 False w_lease]"
  let ?rt' = "fold runtime_step ?evs ?rt"
  have st: "rec_status (recover_account ?cfg 1500 w_acct None None ?rt') = ACTIVE"
      "rt_health_version ?rt' = rt_health_version ?rt" "rt_health_tier ?rt' = HEALTH_TIER_PROBING"
    by code_simp+
  have "rt_health_tier (record_probe_result ?cfg 1400 1500 200 (Some (w_acct, None, None, None)) ?evs ?rt) = HEALTH_TIER_HEALTHY"
    unfolding record_probe_result_def settle_probe_def select_long_window_entry_def
    using st by (simp add: Let_def sync_runtime_health_tier_def tier_values)
  then have "record_probe_result ?cfg 1400 1500 200 (Some (w_acct, None, None, None)) ?evs ?rt \<noteq> ?rt'"
    using st(3) by (metis tier_values zero_neq_numeral)
  then show ?thesis by (rule probe_settlement_cas [OF _ _ refl, rotated 2]) simp_all
qed

end
