(* ===== verification/Leader_Election.thy ===== *)
theory Leader_Election
  imports Runs
begin

text \<open>
  \<open>app/core/scheduling/leader_election.py\<close>: the database lease that elects the replica running
  the singleton schedulers. The acquire and renew statements are functions on the one row of
  \<open>scheduler_leader\<close>; \<open>try_acquire\<close>, \<open>renew\<close>, \<open>release\<close> and the heartbeat act on the replica's own
  \<open>LeaderElection\<close> object. A statement and the arrival of its reply are separate events, so that
  other replicas and other coroutines of the same replica run in between. All clocks tick at
  the same rate; the code only compares a clock with itself and adds durations. PostgreSQL
  decides a takeover on the transaction's snapshot clock; SQLite uses the execution clock,
  which is the case where both agree. Cancellation of the gated body, the time-boxed task
  objects and logging are left out.
\<close>

section \<open>The lease row\<close>

record leader_row =
  lr_leader :: string
  lr_acquired :: real
  lr_expires :: real

text \<open>
  The statements: the row afterwards and the remaining lease that RETURNING reports, measured
  at \<open>ret\<close>, or nothing when no row matched.
\<close>

definition acquire_sql ::
    "real \<Rightarrow> real \<Rightarrow> real \<Rightarrow> real \<Rightarrow> string \<Rightarrow> leader_row option \<Rightarrow> leader_row option \<times> real option" where
  "acquire_sql ttl snapshot exec ret me row =
     (let grant = (Some \<lparr>lr_leader = me, lr_acquired = exec, lr_expires = exec + ttl\<rparr>, Some (exec + ttl - ret))
      in case row of None \<Rightarrow> grant
         | Some r \<Rightarrow> (if lr_expires r < snapshot \<or> lr_leader r = me then grant else (row, None)))"

definition renew_sql :: "real \<Rightarrow> real \<Rightarrow> real \<Rightarrow> string \<Rightarrow> leader_row option \<Rightarrow> leader_row option \<times> real option" where
  "renew_sql ttl exec ret me row =
     (case row of None \<Rightarrow> (None, None)
      | Some r \<Rightarrow>
          (if lr_leader r = me \<and> lr_expires r > exec
           then (Some (r\<lparr>lr_expires := exec + ttl\<rparr>), Some (exec + ttl - ret)) else (row, None)))"

text \<open>The SQLite statements read one clock per statement; they agree with the others when both clocks do.\<close>

definition sqlite_acquire_sql ::
    "real \<Rightarrow> real \<Rightarrow> string \<Rightarrow> leader_row option \<Rightarrow> leader_row option \<times> real option" where
  "sqlite_acquire_sql ttl now me row =
     (case row of
        Some r \<Rightarrow>
          (if lr_expires r < now \<or> lr_leader r = me
           then (Some (r\<lparr>lr_leader := me, lr_acquired := now, lr_expires := now + ttl\<rparr>), Some (now + ttl - now))
           else (Some r, None))
      | None \<Rightarrow> (Some \<lparr>lr_leader = me, lr_acquired = now, lr_expires = now + ttl\<rparr>, Some (now + ttl - now)))"

definition sqlite_renew_sql :: "real \<Rightarrow> real \<Rightarrow> string \<Rightarrow> leader_row option \<Rightarrow> leader_row option \<times> real option" where
  "sqlite_renew_sql ttl now me row =
     (case row of
        Some r \<Rightarrow>
          (if lr_leader r = me \<and> lr_expires r > now
           then (Some (r\<lparr>lr_expires := now + ttl\<rparr>), Some (now + ttl - now)) else (Some r, None))
      | None \<Rightarrow> (None, None))"

definition release_sql :: "string \<Rightarrow> leader_row option \<Rightarrow> leader_row option" where
  "release_sql me row = (case row of None \<Rightarrow> None | Some r \<Rightarrow> if lr_leader r = me then None else row)"

section \<open>The election object\<close>

record election =
  is_leader :: bool
  lease_deadline :: "real option"

definition new_election :: election where
  "new_election = \<lparr>is_leader = False, lease_deadline = None\<rparr>"

definition demote :: "election \<Rightarrow> election" where
  "demote el = el\<lparr>is_leader := False, lease_deadline := None\<rparr>"

text \<open>What a statement's coroutine sees: the remaining lease, no row, or an exception.\<close>

datatype reply = Returned "real option" | Raised

definition acquire_applied :: "bool \<Rightarrow> real \<Rightarrow> reply \<Rightarrow> election \<Rightarrow> bool \<times> election" where
  "acquire_applied election_enabled now reply el =
     (if \<not> election_enabled then (True, el\<lparr>is_leader := True\<rparr>)
      else case reply of
        Returned None \<Rightarrow> (False, demote el)
      | Returned (Some remaining) \<Rightarrow> (True, el\<lparr>is_leader := True, lease_deadline := Some (now + remaining)\<rparr>)
      | Raised \<Rightarrow>
          (if is_leader el \<and> (case lease_deadline el of None \<Rightarrow> False | Some d \<Rightarrow> now < d)
           then (True, el) else (False, demote el)))"

text \<open>\<open>None\<close> as result: the exception propagates to the caller.\<close>

definition renew_applied :: "real \<Rightarrow> reply \<Rightarrow> election \<Rightarrow> bool option \<times> election" where
  "renew_applied now reply el =
     (case reply of
        Returned None \<Rightarrow> (Some False, demote el)
      | Returned (Some remaining) \<Rightarrow> (Some True, el\<lparr>lease_deadline := Some (now + remaining)\<rparr>)
      | Raised \<Rightarrow> (None, el))"

section \<open>The heartbeat\<close>

definition renew_interval :: "int \<Rightarrow> real" where
  "renew_interval ttl = of_int (max 1 (ttl div 3))"

definition renew_timeout :: "int \<Rightarrow> real" where
  "renew_timeout ttl = max 1 (of_int ttl / 6)"

definition MAX_CONSECUTIVE_RENEW_ERRORS :: nat where
  "MAX_CONSECUTIVE_RENEW_ERRORS = 2"

definition adopted_deadline :: "real \<Rightarrow> election \<Rightarrow> real" where
  "adopted_deadline deadline el =
     (case lease_deadline el of Some d \<Rightarrow> (if d > deadline then d else deadline) | None \<Rightarrow> deadline)"

definition sleep_budget :: "int \<Rightarrow> real \<Rightarrow> real" where
  "sleep_budget ttl remaining = min (renew_interval ttl) (max 0 (remaining - renew_timeout ttl))"

definition renew_wait :: "int \<Rightarrow> real \<Rightarrow> real \<Rightarrow> real" where
  "renew_wait ttl deadline now = min (renew_timeout ttl) (max 0 (deadline - now))"

text \<open>
  One attempt of the loop: how long \<open>renew()\<close> takes, what it returns (\<open>None\<close> for an exception)
  and the shared election object once the wait for it ends, which its own and concurrent
  coroutines have changed. The result is the time at which the lease counts as lost, with the
  election object; nothing while the loop goes on.
\<close>

record attempt =
  att_duration :: real
  att_result :: "bool option"
  att_election :: election

fun heartbeat :: "int \<Rightarrow> real \<Rightarrow> real \<Rightarrow> nat \<Rightarrow> election \<Rightarrow> attempt list \<Rightarrow> (real \<times> election) option" where
  "heartbeat ttl now deadline errs el attempts =
     (let d = adopted_deadline deadline el
      in if d - now \<le> 0 then Some (now, demote el)
         else case attempts of [] \<Rightarrow> None
         | a # rest \<Rightarrow>
             (let start = now + sleep_budget ttl (d - now);
                  wait = renew_wait ttl d start;
                  timed_out = (wait < att_duration a);
                  fin = start + (if timed_out then wait else att_duration a);
                  el' = att_election a
              in case (if timed_out then None else att_result a) of
                   None \<Rightarrow>
                     (if errs + 1 < MAX_CONSECUTIVE_RENEW_ERRORS \<and> fin < d then heartbeat ttl fin d (errs + 1) el' rest
                      else if is_leader el' \<and> (case lease_deadline el' of None \<Rightarrow> False | Some x \<Rightarrow> x > d)
                      then heartbeat ttl fin (or_default (lease_deadline el') d) 0 el' rest
                      else Some (fin, demote el'))
                 | Some True \<Rightarrow> heartbeat ttl fin (or_default (lease_deadline el') d) 0 el' rest
                 | Some False \<Rightarrow> Some (fin, el')))"

declare heartbeat.simps [simp del]

section \<open>Replicas sharing the row\<close>

record message =
  msg_replica :: string
  msg_renewal :: bool
  msg_reply :: reply
  msg_expires :: real
  msg_returned :: real

record cluster =
  lease_row :: "leader_row option"
  members :: "string \<Rightarrow> election"
  inflight :: "message list"
  clock :: real

definition new_cluster :: cluster where
  "new_cluster = \<lparr>lease_row = None, members = (\<lambda>_. new_election), inflight = [], clock = 0\<rparr>"

text \<open>
  \<open>persisted\<close>: the commit took effect; \<open>failed\<close>: the coroutine saw an exception, from the statement
  or from the commit. A commit that did not take effect always raises.
\<close>

datatype leader_event =
  Exec_acquire string real real real bool bool
| Exec_renew string real real bool bool
| Keep_row string real real bool
| Deliver nat real
| Demoted string real
| Release_clear string real
| Release_delete string real

definition run_statement ::
    "string \<Rightarrow> bool \<Rightarrow> real \<Rightarrow> real \<Rightarrow> real \<Rightarrow> leader_row option \<times> real option \<Rightarrow> bool \<Rightarrow> bool \<Rightarrow> cluster \<Rightarrow> cluster" where
  "run_statement i renewal ttl exec ret res persisted failed s =
     s\<lparr>lease_row := (if persisted then fst res else lease_row s),
       inflight := inflight s @ [\<lparr>msg_replica = i, msg_renewal = renewal,
          msg_reply = (if failed then Raised else Returned (snd res)), msg_expires = exec + ttl, msg_returned = ret\<rparr>],
       clock := ret\<rparr>"

definition deliver :: "message \<Rightarrow> real \<Rightarrow> election \<Rightarrow> election" where
  "deliver m now el =
     (if msg_renewal m then snd (renew_applied now (msg_reply m) el)
      else snd (acquire_applied True now (msg_reply m) el))"

definition leader_step :: "real \<Rightarrow> leader_event \<Rightarrow> cluster \<Rightarrow> cluster" where
  "leader_step ttl ev s =
     (case ev of
        Exec_acquire i snapshot exec ret persisted failed \<Rightarrow>
          run_statement i False ttl exec ret (acquire_sql ttl snapshot exec ret i (lease_row s)) persisted failed s
      | Exec_renew i exec ret persisted failed \<Rightarrow>
          run_statement i True ttl exec ret (renew_sql ttl exec ret i (lease_row s)) persisted failed s
      | Keep_row i exec ret persisted \<Rightarrow>
          s\<lparr>lease_row := (if persisted then fst (renew_sql ttl exec ret i (lease_row s)) else lease_row s), clock := ret\<rparr>
      | Deliver k now \<Rightarrow>
          (let m = inflight s ! k
           in s\<lparr>members := (members s)(msg_replica m := deliver m now (members s (msg_replica m))),
                inflight := take k (inflight s) @ drop (Suc k) (inflight s), clock := now\<rparr>)
      | Demoted i now \<Rightarrow> s\<lparr>members := (members s)(i := demote (members s i)), clock := now\<rparr>
      | Release_clear i now \<Rightarrow> s\<lparr>members := (members s)(i := demote (members s i)), clock := now\<rparr>
      | Release_delete i now \<Rightarrow> s\<lparr>lease_row := release_sql i (lease_row s), clock := now\<rparr>)"

text \<open>
  Which events can happen: time does not run backwards, a snapshot is not later than the
  execution, a reply takes at most \<open>lat\<close> to arrive, and a replica deletes the row only after its
  flags are cleared and its schedulers have stopped, with no statement of its own in flight.
\<close>

definition leader_ok :: "real \<Rightarrow> leader_event \<Rightarrow> cluster \<Rightarrow> bool" where
  "leader_ok lat ev s =
     (case ev of
        Exec_acquire i snapshot exec ret persisted failed \<Rightarrow>
          clock s \<le> exec \<and> snapshot \<le> exec \<and> exec \<le> ret \<and> (persisted \<or> failed)
      | Exec_renew i exec ret persisted failed \<Rightarrow>
          clock s \<le> exec \<and> exec \<le> ret \<and> is_leader (members s i) \<and> (persisted \<or> failed)
      | Keep_row i exec ret persisted \<Rightarrow> clock s \<le> exec \<and> exec \<le> ret
      | Deliver k now \<Rightarrow> clock s \<le> now \<and> k < length (inflight s) \<and> now \<le> msg_returned (inflight s ! k) + lat
      | Demoted i now \<Rightarrow> clock s \<le> now
      | Release_clear i now \<Rightarrow> clock s \<le> now
      | Release_delete i now \<Rightarrow>
          clock s \<le> now \<and> \<not> is_leader (members s i) \<and> list_all (\<lambda>m. msg_replica m \<noteq> i) (inflight s))"

lemma sqlite_statements:
  "sqlite_acquire_sql ttl now me row = acquire_sql ttl now now now me row"
  "sqlite_renew_sql ttl now me row = renew_sql ttl now now me row"
  by (auto simp: sqlite_acquire_sql_def sqlite_renew_sql_def acquire_sql_def renew_sql_def Let_def split: option.split)

section \<open>At most one leader\<close>

definition protects :: "leader_row option \<Rightarrow> string \<Rightarrow> real \<Rightarrow> bool" where
  "protects row i e = (case row of None \<Rightarrow> False | Some r \<Rightarrow> lr_leader r = i \<and> e \<le> lr_expires r)"

definition believes :: "real \<Rightarrow> string \<Rightarrow> cluster \<Rightarrow> real \<Rightarrow> bool" where
  "believes lat i s e = (is_leader (members s i) \<and> lease_deadline (members s i) = Some (e + lat))"

definition granted :: "message \<Rightarrow> bool" where
  "granted m = (case msg_reply m of Returned (Some _) \<Rightarrow> True | _ \<Rightarrow> False)"

definition msg_ok :: "message \<Rightarrow> bool" where
  "msg_ok m = (case msg_reply m of Returned (Some r) \<Rightarrow> r = msg_expires m - msg_returned m | _ \<Rightarrow> True)"

definition leader_inv :: "real \<Rightarrow> real \<Rightarrow> cluster \<Rightarrow> bool" where
  "leader_inv ttl lat s =
     ((\<forall>r. lease_row s = Some r \<longrightarrow> lr_expires r \<le> clock s + ttl)
      \<and> (\<forall>m \<in> set (inflight s). msg_ok m)
      \<and> (\<forall>m \<in> set (inflight s). granted m \<longrightarrow> clock s \<le> msg_expires m \<longrightarrow>
            protects (lease_row s) (msg_replica m) (msg_expires m))
      \<and> (\<forall>i e. believes lat i s e \<longrightarrow> clock s \<le> e \<longrightarrow> protects (lease_row s) i e))"

lemma leader_invI:
  assumes "\<And>r. lease_row s = Some r \<Longrightarrow> lr_expires r \<le> clock s + ttl"
    and "\<And>m. m \<in> set (inflight s) \<Longrightarrow> msg_ok m"
    and "\<And>m. m \<in> set (inflight s) \<Longrightarrow> granted m \<Longrightarrow> clock s \<le> msg_expires m \<Longrightarrow>
          protects (lease_row s) (msg_replica m) (msg_expires m)"
    and "\<And>i e. believes lat i s e \<Longrightarrow> clock s \<le> e \<Longrightarrow> protects (lease_row s) i e"
  shows "leader_inv ttl lat s"
  using assms by (simp add: leader_inv_def)

lemma leader_invD:
  assumes "leader_inv ttl lat s"
  shows "lease_row s = Some r \<Longrightarrow> lr_expires r \<le> clock s + ttl"
    and "m \<in> set (inflight s) \<Longrightarrow> msg_ok m"
    and "m \<in> set (inflight s) \<Longrightarrow> granted m \<Longrightarrow> clock s \<le> msg_expires m \<Longrightarrow>
          protects (lease_row s) (msg_replica m) (msg_expires m)"
    and "believes lat i s e \<Longrightarrow> clock s \<le> e \<Longrightarrow> protects (lease_row s) i e"
  using assms by (simp_all add: leader_inv_def)

lemma protects_mono: "protects row i e \<Longrightarrow> e' \<le> e \<Longrightarrow> protects row i e'"
  by (auto simp: protects_def split: option.splits)

lemma protects_unique: "protects row i e \<Longrightarrow> protects row j e' \<Longrightarrow> i = j"
  by (auto simp: protects_def split: option.splits)

text \<open>
  A statement keeps whatever still protects somebody at its execution time, and a granted
  statement protects its own replica up to the new expiry.
\<close>

lemma acquire_sql_protects:
  assumes "snapshot \<le> exec" "exec \<le> e" "protects row j e" "\<forall>r. row = Some r \<longrightarrow> lr_expires r \<le> exec + ttl"
  shows "protects (fst (acquire_sql ttl snapshot exec ret i row)) j e"
  using assms by (auto simp: acquire_sql_def protects_def Let_def split: option.splits)

lemma renew_sql_protects:
  assumes "protects row j e" "\<forall>r. row = Some r \<longrightarrow> lr_expires r \<le> exec + ttl"
  shows "protects (fst (renew_sql ttl exec ret i row)) j e"
  using assms by (auto simp: renew_sql_def protects_def split: option.splits)

lemma acquire_sql_granted:
  assumes "snd (acquire_sql ttl snapshot exec ret i row) = Some x"
  shows "protects (fst (acquire_sql ttl snapshot exec ret i row)) i (exec + ttl) \<and> x = exec + ttl - ret"
  using assms by (auto simp: acquire_sql_def protects_def Let_def split: option.splits if_splits)

lemma renew_sql_granted:
  assumes "snd (renew_sql ttl exec ret i row) = Some x"
  shows "protects (fst (renew_sql ttl exec ret i row)) i (exec + ttl) \<and> x = exec + ttl - ret"
  using assms by (auto simp: renew_sql_def protects_def split: option.splits if_splits)

lemma acquire_sql_bound:
  "\<forall>r. row = Some r \<longrightarrow> lr_expires r \<le> exec + ttl \<Longrightarrow> fst (acquire_sql ttl snapshot exec ret i row) = Some r'
   \<Longrightarrow> lr_expires r' \<le> exec + ttl"
  by (auto simp: acquire_sql_def Let_def split: option.splits if_splits)

lemma renew_sql_bound:
  "\<forall>r. row = Some r \<longrightarrow> lr_expires r \<le> exec + ttl \<Longrightarrow> fst (renew_sql ttl exec ret i row) = Some r'
   \<Longrightarrow> lr_expires r' \<le> exec + ttl"
  by (auto simp: renew_sql_def split: option.splits if_splits)

lemma run_statement_inv:
  assumes inv: "leader_inv ttl lat s" and time: "clock s \<le> exec" "exec \<le> ret" "persisted \<or> failed"
    and keeps: "\<And>j e. exec \<le> e \<Longrightarrow> protects (lease_row s) j e \<Longrightarrow> protects (fst res) j e"
    and grants: "\<And>x. snd res = Some x \<Longrightarrow> protects (fst res) i (exec + ttl) \<and> x = exec + ttl - ret"
    and bound: "\<And>r. fst res = Some r \<Longrightarrow> lr_expires r \<le> exec + ttl"
  shows "leader_inv ttl lat (run_statement i renewal ttl exec ret res persisted failed s)"
proof -
  let ?s = "run_statement i renewal ttl exec ret res persisted failed s"
  have keep: "protects (lease_row ?s) j e" if "exec \<le> e" "protects (lease_row s) j e" for j e
    using keeps that by (simp add: run_statement_def)
  show ?thesis
  proof (rule leader_invI)
    fix r assume "lease_row ?s = Some r"
    then show "lr_expires r \<le> clock ?s + ttl"
      using leader_invD(1) [OF inv, of r] bound [of r] time by (auto simp: run_statement_def split: if_splits)
  next
    fix m assume "m \<in> set (inflight ?s)"
    then show "msg_ok m" using leader_invD(2) [OF inv, of m] grants
      by (cases "snd res") (auto simp: run_statement_def msg_ok_def)
  next
    fix m assume m: "m \<in> set (inflight ?s)" "granted m" "clock ?s \<le> msg_expires m"
    show "protects (lease_row ?s) (msg_replica m) (msg_expires m)"
    proof (cases "m \<in> set (inflight s)")
      case True
      then have "protects (lease_row s) (msg_replica m) (msg_expires m)"
        using leader_invD(3) [OF inv True] m time by (simp add: run_statement_def)
      then show ?thesis using keep m(3) time by (simp add: run_statement_def)
    next
      case False
      then show ?thesis using m grants time(3)
        by (auto simp: run_statement_def granted_def split: option.splits if_splits)
    qed
  next
    fix j e assume "believes lat j ?s e" "clock ?s \<le> e"
    then have "believes lat j s e" "clock s \<le> e" "exec \<le> e"
      using time by (simp_all add: believes_def run_statement_def)
    then show "protects (lease_row ?s) j e" using keep leader_invD(4) [OF inv] by simp
  qed
qed

lemma deliver_believes:
  assumes "is_leader (deliver m now el)" "lease_deadline (deliver m now el) = Some d"
  shows "is_leader el \<and> lease_deadline el = Some d \<or> (\<exists>r. msg_reply m = Returned (Some r) \<and> d = now + r)"
  using assms by (auto simp: deliver_def acquire_applied_def renew_applied_def demote_def
      split: reply.splits option.splits if_splits)

lemma set_without: "set (take k xs @ drop (Suc k) xs) \<subseteq> set xs"
  using set_take_subset [of k xs] set_drop_subset [of "Suc k" xs] by auto

lemma deliver_inv:
  assumes inv: "leader_inv ttl lat s" and ok: "leader_ok lat (Deliver k now) s"
  shows "leader_inv ttl lat (leader_step ttl (Deliver k now) s)"
proof -
  let ?m = "inflight s ! k" and ?s = "leader_step ttl (Deliver k now) s"
  have row: "lease_row ?s = lease_row s" "clock ?s = now" "set (inflight ?s) \<subseteq> set (inflight s)" and now: "clock s \<le> now"
    using ok set_without [of k "inflight s"] by (auto simp: leader_step_def leader_ok_def Let_def)
  have m: "?m \<in> set (inflight s)" "now \<le> msg_returned ?m + lat" using ok by (simp_all add: leader_ok_def)
  show ?thesis
  proof (rule leader_invI, unfold row)
    fix i e assume b: "believes lat i ?s e" "now \<le> e"
    show "protects (lease_row s) i e"
    proof (cases "believes lat i s e")
      case True
      then show ?thesis using leader_invD(4) [OF inv True] b now by simp
    next
      case False
      then have i: "i = msg_replica ?m" using b by (auto simp: believes_def leader_step_def Let_def split: if_splits)
      then obtain r where r: "msg_reply ?m = Returned (Some r)" "e + lat = now + r"
        using b False deliver_believes [of ?m now "members s i"] by (auto simp: believes_def leader_step_def Let_def)
      then have "e \<le> msg_expires ?m" using leader_invD(2) [OF inv m(1)] m(2) by (simp add: msg_ok_def)
      moreover have "granted ?m" using r(1) by (simp add: granted_def)
      ultimately have "protects (lease_row s) (msg_replica ?m) (msg_expires ?m)"
        using leader_invD(3) [OF inv m(1)] b(2) now by simp
      then show ?thesis using i \<open>e \<le> msg_expires ?m\<close> by (auto intro: protects_mono)
    qed
  next
    fix r assume "lease_row s = Some r"
    then show "lr_expires r \<le> now + ttl" using leader_invD(1) [OF inv] now by fastforce
  next
    fix q assume "q \<in> set (inflight ?s)"
    then show "msg_ok q" using leader_invD(2) [OF inv] row(3) by blast
  next
    fix q assume "q \<in> set (inflight ?s)" "granted q" "now \<le> msg_expires q"
    then show "protects (lease_row s) (msg_replica q) (msg_expires q)"
      using leader_invD(3) [OF inv, of q] row(3) now by auto
  qed
qed

lemma demote_inv:
  assumes inv: "leader_inv ttl lat s" and "clock s \<le> now"
  shows "leader_inv ttl lat (s\<lparr>members := (members s)(i := demote (members s i)), clock := now\<rparr>)"
proof -
  have "believes lat j s e" if "believes lat j (s\<lparr>members := (members s)(i := demote (members s i)), clock := now\<rparr>) e" for j e
    using that by (auto simp: believes_def demote_def split: if_splits)
  then show ?thesis using assms leader_invD [OF inv] by (intro leader_invI) fastforce+
qed

lemma release_inv:
  assumes inv: "leader_inv ttl lat s" and ok: "leader_ok lat (Release_delete i now) s"
  shows "leader_inv ttl lat (leader_step ttl (Release_delete i now) s)"
proof -
  have now: "clock s \<le> now" and idle: "\<not> is_leader (members s i)" "\<And>m. m \<in> set (inflight s) \<Longrightarrow> msg_replica m \<noteq> i"
    using ok by (auto simp: leader_ok_def list_all_iff)
  have keep: "protects (release_sql i (lease_row s)) j e" if "j \<noteq> i" "protects (lease_row s) j e" for j e
    using that by (auto simp: protects_def release_sql_def split: option.splits)
  show ?thesis
  proof (rule leader_invI)
    fix r assume "lease_row (leader_step ttl (Release_delete i now) s) = Some r"
    then have "lease_row s = Some r" by (auto simp: leader_step_def release_sql_def split: option.splits if_splits)
    then show "lr_expires r \<le> clock (leader_step ttl (Release_delete i now) s) + ttl"
      using leader_invD(1) [OF inv] now by (fastforce simp: leader_step_def)
  next
    fix m assume "m \<in> set (inflight (leader_step ttl (Release_delete i now) s))"
    then show "msg_ok m" using leader_invD(2) [OF inv] by (simp add: leader_step_def)
  next
    fix m assume "m \<in> set (inflight (leader_step ttl (Release_delete i now) s))" "granted m"
      "clock (leader_step ttl (Release_delete i now) s) \<le> msg_expires m"
    then show "protects (lease_row (leader_step ttl (Release_delete i now) s)) (msg_replica m) (msg_expires m)"
      using leader_invD(3) [OF inv, of m] idle(2) keep now by (simp add: leader_step_def)
  next
    fix j e assume "believes lat j (leader_step ttl (Release_delete i now) s) e"
      "clock (leader_step ttl (Release_delete i now) s) \<le> e"
    then have "believes lat j s e" "j \<noteq> i" "now \<le> e" using idle(1) by (auto simp: believes_def leader_step_def)
    then show "protects (lease_row (leader_step ttl (Release_delete i now) s)) j e"
      using leader_invD(4) [OF inv, of j e] keep now by (simp add: leader_step_def)
  qed
qed

lemma keep_row_inv:
  assumes inv: "leader_inv ttl lat s" and "clock s \<le> exec" "exec \<le> ret"
  shows "leader_inv ttl lat (leader_step ttl (Keep_row i exec ret persisted) s)"
proof -
  have row: "\<forall>r. lease_row s = Some r \<longrightarrow> lr_expires r \<le> exec + ttl"
    using leader_invD(1) [OF inv] assms(2) by fastforce
  have keep: "protects (if persisted then fst (renew_sql ttl exec ret i (lease_row s)) else lease_row s) j e"
    if "protects (lease_row s) j e" for j e
    using renew_sql_protects [OF that row] that by simp
  have "lr_expires r \<le> ret + ttl"
    if "(if persisted then fst (renew_sql ttl exec ret i (lease_row s)) else lease_row s) = Some r" for r
    using renew_sql_bound [OF row, of ret i r] row that assms by (auto split: if_splits)
  moreover have "believes lat j (leader_step ttl (Keep_row i exec ret persisted) s) e = believes lat j s e" for j e
    by (simp add: believes_def leader_step_def)
  ultimately show ?thesis
    using leader_invD(2-4) [OF inv] keep assms(2,3) by (intro leader_invI) (simp_all add: leader_step_def)
qed

lemma leader_step_inv:
  assumes inv: "leader_inv ttl lat s" and ok: "leader_ok lat ev s"
  shows "leader_inv ttl lat (leader_step ttl ev s)"
proof -
  have row: "\<forall>r. lease_row s = Some r \<longrightarrow> lr_expires r \<le> exec + ttl" if "clock s \<le> exec" for exec
    using leader_invD(1) [OF inv] that by fastforce
  show ?thesis
  proof (cases ev)
    case (Exec_acquire i snapshot exec ret persisted failed)
    then have t: "clock s \<le> exec" "snapshot \<le> exec" "exec \<le> ret" "persisted \<or> failed" using ok by (simp_all add: leader_ok_def)
    show ?thesis unfolding Exec_acquire leader_step_def leader_event.case
      by (rule run_statement_inv [OF inv t(1,3,4)],
          erule acquire_sql_protects [OF t(2) _ _ row [OF t(1)]], assumption,
          erule acquire_sql_granted, erule acquire_sql_bound [OF row [OF t(1)]])
  next
    case (Exec_renew i exec ret persisted failed)
    then have t: "clock s \<le> exec" "exec \<le> ret" "persisted \<or> failed" using ok by (simp_all add: leader_ok_def)
    show ?thesis unfolding Exec_renew leader_step_def leader_event.case
      by (rule run_statement_inv [OF inv t], erule renew_sql_protects [OF _ row [OF t(1)]],
          erule renew_sql_granted, erule renew_sql_bound [OF row [OF t(1)]])
  next
    case (Keep_row i exec ret persisted)
    then show ?thesis using keep_row_inv [OF inv] ok by (simp add: leader_ok_def)
  next
    case (Deliver k now)
    then show ?thesis using deliver_inv [OF inv] ok by simp
  next
    case (Release_delete i now)
    then show ?thesis using release_inv [OF inv] ok by simp
  qed (use ok in \<open>simp_all add: leader_step_def leader_ok_def demote_inv [OF inv]\<close>)
qed

interpretation lead: event_system "leader_inv ttl lat" "leader_ok lat" "leader_step ttl" for ttl lat
  by unfold_locales (rule leader_step_inv)

lemma new_cluster_inv: "leader_inv ttl lat new_cluster"
  by (simp add: leader_inv_def new_cluster_def believes_def new_election_def)

text \<open>
  C6. There is at most one leader: whatever the replicas do, whichever statements fail or
  commit without a reply, and however the replies interleave, two replicas never both count as
  leaders before their local deadlines less the time a reply takes to arrive.
\<close>

theorem at_most_one_leader:
  assumes "valid_run (leader_ok lat) (leader_step ttl) evs new_cluster"
    and "s = fold (leader_step ttl) evs new_cluster" "i \<noteq> j"
    and "is_leader (members s i)" "lease_deadline (members s i) = Some d"
    and "is_leader (members s j)" "lease_deadline (members s j) = Some d'"
  shows "d - lat < clock s \<or> d' - lat < clock s"
proof -
  have inv: "leader_inv ttl lat s" using lead.run_inv [OF new_cluster_inv assms(1)] assms(2) by simp
  have "believes lat i s (d - lat)" "believes lat j s (d' - lat)" using assms(4-7) by (simp_all add: believes_def)
  then show ?thesis
    using leader_invD(4) [OF inv] protects_unique [of "lease_row s" i "d - lat" j "d' - lat"] assms(3) by force
qed

definition w_failover :: "leader_event list" where
  "w_failover = [Exec_acquire ''a'' 0 0 0 True False, Deliver 0 1, Exec_acquire ''b'' 30 30 30 True False, Deliver 0 31,
     Exec_acquire ''b'' 61 61 61 True False, Deliver 0 61]"

theorem at_most_one_leader_witness:
  "(61 - 1 < clock (fold (leader_step 60) w_failover new_cluster)
     \<or> 121 - 1 < clock (fold (leader_step 60) w_failover new_cluster))
   \<and> lease_row (fold (leader_step 60) w_failover new_cluster) = Some \<lparr>lr_leader = ''b'', lr_acquired = 61, lr_expires = 121\<rparr>"
proof -
  let ?s = "fold (leader_step 60) w_failover new_cluster"
  have run: "valid_run (leader_ok 1) (leader_step 60) w_failover new_cluster" by code_simp
  have a: "is_leader (members ?s ''a'')" "lease_deadline (members ?s ''a'') = Some 61" by code_simp+
  have b: "is_leader (members ?s ''b'')" "lease_deadline (members ?s ''b'') = Some 121" by code_simp+
  have row: "lease_row ?s = Some \<lparr>lr_leader = ''b'', lr_acquired = 61, lr_expires = 121\<rparr>" by code_simp
  show ?thesis using at_most_one_leader [OF run refl _ a b] row by simp
qed

text \<open>
  The local deadline is anchored at the arrival of the reply, so it is later than the row's
  expiry by the time the reply took, not earlier.
\<close>

lemma deadline_after_row:
  assumes "acquire_sql ttl snapshot exec ret me row = (Some r, Some x)"
  shows "lease_deadline (snd (acquire_applied True now (Returned (Some x)) el)) = Some (lr_expires r + (now - ret))"
  using assms by (auto simp: acquire_sql_def acquire_applied_def Let_def split: option.splits if_splits)

section \<open>The heartbeat gives up in time\<close>

lemma heartbeat_slot:
  assumes "now < d"
  shows "now + sleep_budget ttl (d - now) \<le> d"
    and "now + sleep_budget ttl (d - now) + renew_wait ttl d (now + sleep_budget ttl (d - now)) \<le> d"
proof -
  have "0 \<le> renew_timeout ttl" by (simp add: renew_timeout_def)
  then show a: "now + sleep_budget ttl (d - now) \<le> d" using assms by (simp add: sleep_budget_def)
  then show "now + sleep_budget ttl (d - now) + renew_wait ttl d (now + sleep_budget ttl (d - now)) \<le> d"
    by (simp add: renew_wait_def)
qed

text \<open>An attempt that brings no news: it fails or times out, and nobody else extended the lease.\<close>

definition barren :: "real \<Rightarrow> attempt \<Rightarrow> bool" where
  "barren d a = (att_result a = None \<and> adopted_deadline d (att_election a) = d)"

lemma adopted_idle: "adopted_deadline d el = d \<Longrightarrow> lease_deadline el = Some x \<Longrightarrow> x \<le> d"
  by (auto simp: adopted_deadline_def split: if_splits)

lemma heartbeat_second_failure:
  assumes "barren d a" "adopted_deadline d el = d" "now < d"
  shows "\<exists>t el'. heartbeat ttl now d 1 el (a # rest) = Some (t, el') \<and> t \<le> d \<and> \<not> is_leader el'"
proof -
  let ?t = "now + sleep_budget ttl (d - now)
    + (if renew_wait ttl d (now + sleep_budget ttl (d - now)) < att_duration a
       then renew_wait ttl d (now + sleep_budget ttl (d - now)) else att_duration a)"
  have "?t \<le> d" using heartbeat_slot(2) [OF assms(3), of ttl] by auto
  moreover have "heartbeat ttl now d 1 el (a # rest) = Some (?t, demote (att_election a))"
    using assms adopted_idle [of d "att_election a"]
    by (subst heartbeat.simps) (auto simp: Let_def barren_def MAX_CONSECUTIVE_RENEW_ERRORS_def split: option.splits)
  ultimately show ?thesis by (auto simp: demote_def)
qed

text \<open>
  A leader that cannot renew steps down in time: when two renewals in a row fail or hang and
  nothing else extended the lease, the heartbeat reports the loss no later than the local
  deadline and the election object is demoted, however long the renewals hang.
\<close>

theorem heartbeat_demotes_by_deadline:
  assumes "adopted_deadline d el = d" "now < d" "barren d a" "barren d b"
  shows "\<exists>t el'. heartbeat ttl now d 0 el (a # b # rest) = Some (t, el') \<and> t \<le> d \<and> \<not> is_leader el'"
proof -
  let ?t = "now + sleep_budget ttl (d - now)
    + (if renew_wait ttl d (now + sleep_budget ttl (d - now)) < att_duration a
       then renew_wait ttl d (now + sleep_budget ttl (d - now)) else att_duration a)"
  have t: "?t \<le> d" using heartbeat_slot(2) [OF assms(2), of ttl] by auto
  show ?thesis
  proof (cases "?t < d")
    case True
    have "heartbeat ttl now d 0 el (a # b # rest) = heartbeat ttl ?t d 1 (att_election a) (b # rest)"
      using assms True by (subst heartbeat.simps) (auto simp: Let_def barren_def MAX_CONSECUTIVE_RENEW_ERRORS_def)
    then show ?thesis using heartbeat_second_failure [OF assms(4) _ True] assms(3) by (simp add: barren_def)
  next
    case False
    have "heartbeat ttl now d 0 el (a # b # rest) = Some (?t, demote (att_election a))"
      using assms False adopted_idle [of d "att_election a"]
      by (subst heartbeat.simps) (auto simp: Let_def barren_def MAX_CONSECUTIVE_RENEW_ERRORS_def split: option.splits)
    then show ?thesis using t by (auto simp: demote_def)
  qed
qed

theorem heartbeat_demotes_by_deadline_witness:
  "let el = \<lparr>is_leader = True, lease_deadline = Some 60\<rparr>;
       hang = \<lparr>att_duration = 1000, att_result = None, att_election = el\<rparr>
   in \<exists>t el'. heartbeat 60 0 60 0 el [hang, hang] = Some (t, el') \<and> t \<le> 60 \<and> \<not> is_leader el'"
  unfolding Let_def
  by (rule heartbeat_demotes_by_deadline) (simp_all add: barren_def adopted_deadline_def)

end
