(* ===== verification/Pricing.thy ===== *)
theory Pricing
  imports Plans "HOL-Library.AList"
begin

text \<open>
  \<open>app/core/usage/pricing.py\<close>: the price table, alias resolution and the cost of a request.
  Token counts are numbers already (\<open>_as_number\<close> only filters what the type checker excludes), and a
  \<open>ResponseUsage\<close> is given by the fields the code reads. Of the patterns of \<open>fnmatchcase\<close>, character
  sets in brackets are left out; no alias uses them. Sums of floats are exact.
\<close>

section \<open>Prices and usage\<close>

record model_price =
  input_per_1m :: real
  output_per_1m :: real
  cached_input_per_1m :: "real option"
  priority_multiplier :: "real option"
  priority_input_per_1m :: "real option"
  priority_output_per_1m :: "real option"
  priority_cached_input_per_1m :: "real option"
  flex_input_per_1m :: "real option"
  flex_output_per_1m :: "real option"
  flex_cached_input_per_1m :: "real option"
  long_context_threshold_tokens :: "real option"
  long_context_input_per_1m :: "real option"
  long_context_output_per_1m :: "real option"
  long_context_cached_input_per_1m :: "real option"

definition plain_price :: "real \<Rightarrow> real \<Rightarrow> model_price" where
  "plain_price i u =
     \<lparr>input_per_1m = i,
      output_per_1m = u,
      cached_input_per_1m = None,
      priority_multiplier = None,
      priority_input_per_1m = None,
      priority_output_per_1m = None,
      priority_cached_input_per_1m = None,
      flex_input_per_1m = None,
      flex_output_per_1m = None,
      flex_cached_input_per_1m = None,
      long_context_threshold_tokens = None,
      long_context_input_per_1m = None,
      long_context_output_per_1m = None,
      long_context_cached_input_per_1m = None\<rparr>"

record usage_tokens =
  input_tokens :: real
  output_tokens :: real
  cached_input_tokens :: real

text \<open>\<open>ResponseUsage\<close>: the counts and the two detail objects, of each the one field that is read.\<close>

record response_usage =
  ru_input :: "real option"
  ru_output :: "real option"
  ru_reasoning :: "real option option"
  ru_cached :: "real option option"

datatype any_usage = Tokens usage_tokens | Response response_usage | No_usage

record cost_breakdown =
  input_usd :: real
  cached_input_usd :: real
  output_usd :: real
  total_usd :: real

record cost_item =
  item_model :: string
  item_usage :: any_usage
  item_tier :: "string option"

definition clamp_cached :: "real \<Rightarrow> real \<Rightarrow> real" where
  "clamp_cached cached inputs = max 0 (min cached inputs)"

definition normalize_usage :: "any_usage \<Rightarrow> usage_tokens option" where
  "normalize_usage u =
     (case u of
        Tokens t \<Rightarrow> Some (t\<lparr>cached_input_tokens := clamp_cached (cached_input_tokens t) (input_tokens t)\<rparr>)
      | No_usage \<Rightarrow> None
      | Response r \<Rightarrow>
          (let outs = (case ru_output r of Some x \<Rightarrow> Some x
                       | None \<Rightarrow> (case ru_reasoning r of Some d \<Rightarrow> d | None \<Rightarrow> None))
           in case (ru_input r, outs) of
                (Some i, Some u) \<Rightarrow>
                  Some \<lparr>input_tokens = i, output_tokens = u,
                        cached_input_tokens =
                          clamp_cached (case ru_cached r of Some d \<Rightarrow> or_default d 0 | None \<Rightarrow> 0) i\<rparr>
              | _ \<Rightarrow> None))"

section \<open>The tables\<close>

definition DEFAULT_PRICING_MODELS :: "(string \<times> model_price) list" where
  "DEFAULT_PRICING_MODELS =
     [(''gpt-5.6-sol'', (plain_price (5) (30))\<lparr>cached_input_per_1m := Some (1 / 2),
         priority_input_per_1m := Some (10), priority_output_per_1m := Some (60),
         priority_cached_input_per_1m := Some (1), flex_input_per_1m := Some (5 / 2),
         flex_output_per_1m := Some (15), flex_cached_input_per_1m := Some (1 / 4),
         long_context_threshold_tokens := Some (272000), long_context_input_per_1m := Some (10),
         long_context_output_per_1m := Some (45), long_context_cached_input_per_1m := Some (1)\<rparr>),
      (''gpt-5.6-terra'', (plain_price (5 / 2) (15))\<lparr>cached_input_per_1m := Some (1 / 4),
         priority_input_per_1m := Some (5), priority_output_per_1m := Some (30),
         priority_cached_input_per_1m := Some (1 / 2), flex_input_per_1m := Some (5 / 4),
         flex_output_per_1m := Some (15 / 2), flex_cached_input_per_1m := Some (1 / 8),
         long_context_threshold_tokens := Some (272000), long_context_input_per_1m := Some (5),
         long_context_output_per_1m := Some (45 / 2),
         long_context_cached_input_per_1m := Some (1 / 2)\<rparr>),
      (''gpt-5.6-luna'', (plain_price (1) (6))\<lparr>cached_input_per_1m := Some (1 / 10),
         priority_input_per_1m := Some (2), priority_output_per_1m := Some (12),
         priority_cached_input_per_1m := Some (1 / 5), flex_input_per_1m := Some (1 / 2),
         flex_output_per_1m := Some (3), flex_cached_input_per_1m := Some (1 / 20),
         long_context_threshold_tokens := Some (272000), long_context_input_per_1m := Some (2),
         long_context_output_per_1m := Some (9), long_context_cached_input_per_1m := Some (1 / 5)\<rparr>),
      (''gpt-5.5'', (plain_price (5) (30))\<lparr>cached_input_per_1m := Some (1 / 2),
         priority_input_per_1m := Some (25 / 2), priority_output_per_1m := Some (75),
         priority_cached_input_per_1m := Some (5 / 4), flex_input_per_1m := Some (5 / 2),
         flex_output_per_1m := Some (15), flex_cached_input_per_1m := Some (1 / 4)\<rparr>),
      (''gpt-5.5-pro'', (plain_price (30) (180))\<lparr>flex_input_per_1m := Some (15),
         flex_output_per_1m := Some (90)\<rparr>),
      (''gpt-5.4'', (plain_price (5 / 2) (15))\<lparr>cached_input_per_1m := Some (1 / 4),
         priority_input_per_1m := Some (5), priority_output_per_1m := Some (30),
         priority_cached_input_per_1m := Some (1 / 2), flex_input_per_1m := Some (5 / 4),
         flex_output_per_1m := Some (15 / 2), flex_cached_input_per_1m := Some (1 / 8),
         long_context_threshold_tokens := Some (272000), long_context_input_per_1m := Some (5),
         long_context_output_per_1m := Some (45 / 2),
         long_context_cached_input_per_1m := Some (1 / 2)\<rparr>),
      (''gpt-5.4-mini'', (plain_price (3 / 4) (9 / 2))\<lparr>cached_input_per_1m := Some (3 / 40),
         flex_input_per_1m := Some (3 / 8), flex_output_per_1m := Some (9 / 4),
         flex_cached_input_per_1m := Some (3 / 80)\<rparr>),
      (''gpt-5.4-nano'', (plain_price (1 / 5) (5 / 4))\<lparr>cached_input_per_1m := Some (1 / 50),
         flex_input_per_1m := Some (1 / 10), flex_output_per_1m := Some (5 / 8),
         flex_cached_input_per_1m := Some (1 / 100)\<rparr>),
      (''gpt-5.4-pro'', (plain_price (30) (180))\<lparr>flex_input_per_1m := Some (15),
         flex_output_per_1m := Some (90), long_context_threshold_tokens := Some (272000),
         long_context_input_per_1m := Some (60), long_context_output_per_1m := Some (270)\<rparr>),
      (''gpt-5.3-codex'', (plain_price (7 / 4) (14))\<lparr>cached_input_per_1m := Some (7 / 40),
         priority_input_per_1m := Some (7 / 2), priority_output_per_1m := Some (28),
         priority_cached_input_per_1m := Some (7 / 20)\<rparr>),
      (''gpt-5.3'', (plain_price (7 / 4) (14))\<lparr>cached_input_per_1m := Some (7 / 40)\<rparr>),
      (''gpt-5.3-chat-latest'', (plain_price (7 / 4) (14))\<lparr>cached_input_per_1m := Some (7 / 40)\<rparr>),
      (''gpt-5.2'', (plain_price (7 / 4) (14))\<lparr>cached_input_per_1m := Some (7 / 40),
         priority_multiplier := Some (2), flex_input_per_1m := Some (7 / 8), flex_output_per_1m := Some (7),
         flex_cached_input_per_1m := Some (7 / 80)\<rparr>),
      (''gpt-5.2-chat-latest'', (plain_price (7 / 4) (14))\<lparr>cached_input_per_1m := Some (7 / 40)\<rparr>),
      (''gpt-5.1'', (plain_price (5 / 4) (10))\<lparr>cached_input_per_1m := Some (1 / 8),
         priority_multiplier := Some (2), flex_input_per_1m := Some (5 / 8), flex_output_per_1m := Some (5),
         flex_cached_input_per_1m := Some (1 / 16)\<rparr>),
      (''gpt-5.1-chat-latest'', (plain_price (5 / 4) (10))\<lparr>cached_input_per_1m := Some (1 / 8)\<rparr>),
      (''gpt-5'', (plain_price (5 / 4) (10))\<lparr>cached_input_per_1m := Some (1 / 8),
         priority_multiplier := Some (2), flex_input_per_1m := Some (5 / 8), flex_output_per_1m := Some (5),
         flex_cached_input_per_1m := Some (1 / 16)\<rparr>),
      (''gpt-5-chat-latest'', (plain_price (5 / 4) (10))\<lparr>cached_input_per_1m := Some (1 / 8)\<rparr>),
      (''gpt-5.2-codex'', (plain_price (7 / 4) (14))\<lparr>cached_input_per_1m := Some (7 / 40),
         priority_input_per_1m := Some (7 / 2), priority_output_per_1m := Some (28),
         priority_cached_input_per_1m := Some (7 / 20)\<rparr>),
      (''gpt-5.1-codex-max'', (plain_price (5 / 4) (10))\<lparr>cached_input_per_1m := Some (1 / 8),
         priority_input_per_1m := Some (5 / 2), priority_output_per_1m := Some (20),
         priority_cached_input_per_1m := Some (1 / 4)\<rparr>),
      (''gpt-5.1-codex-mini'', (plain_price (1 / 4) (2))\<lparr>cached_input_per_1m := Some (1 / 40)\<rparr>),
      (''gpt-5.1-codex'', (plain_price (5 / 4) (10))\<lparr>cached_input_per_1m := Some (1 / 8),
         priority_input_per_1m := Some (5 / 2), priority_output_per_1m := Some (20),
         priority_cached_input_per_1m := Some (1 / 4)\<rparr>),
      (''gpt-5-codex'', (plain_price (5 / 4) (10))\<lparr>cached_input_per_1m := Some (1 / 8),
         priority_input_per_1m := Some (5 / 2), priority_output_per_1m := Some (20),
         priority_cached_input_per_1m := Some (1 / 4)\<rparr>),
      (''gpt-image-2'', (plain_price (5) (30))\<lparr>cached_input_per_1m := Some (2)\<rparr>),
      (''gpt-image-1.5'', (plain_price (5) (30))\<lparr>cached_input_per_1m := Some (2)\<rparr>),
      (''gpt-image-1'', (plain_price (5) (30))\<lparr>cached_input_per_1m := Some (2)\<rparr>),
      (''gpt-image-1-mini'', (plain_price (5) (30))\<lparr>cached_input_per_1m := Some (2)\<rparr>)]"

definition DEFAULT_MODEL_ALIASES :: "(string \<times> string) list" where
  "DEFAULT_MODEL_ALIASES =
     [(''gpt-5.6'', ''gpt-5.6-sol''), (''gpt-5.6-sol*'', ''gpt-5.6-sol''),
      (''gpt-5.6-terra*'', ''gpt-5.6-terra''), (''gpt-5.6-luna*'', ''gpt-5.6-luna''),
      (''gpt-5.5-pro*'', ''gpt-5.5-pro''), (''gpt-5.5*'', ''gpt-5.5''),
      (''gpt-5.4-pro*'', ''gpt-5.4-pro''), (''gpt-5.4-mini*'', ''gpt-5.4-mini''),
      (''gpt-5.4-nano*'', ''gpt-5.4-nano''), (''gpt-5.4*'', ''gpt-5.4''),
      (''gpt-5.3-codex*'', ''gpt-5.3-codex''), (''gpt-5.3-chat-latest*'', ''gpt-5.3-chat-latest''),
      (''gpt-5.2-codex*'', ''gpt-5.2-codex''), (''gpt-5.2-chat-latest*'', ''gpt-5.2-chat-latest''),
      (''gpt-5.3*'', ''gpt-5.3''), (''gpt-5.1-chat-latest*'', ''gpt-5.1-chat-latest''),
      (''gpt-5.2*'', ''gpt-5.2''), (''gpt-5-chat-latest*'', ''gpt-5-chat-latest''),
      (''gpt-5.1*'', ''gpt-5.1''), (''gpt-5*'', ''gpt-5''),
      (''gpt-5.1-codex-max*'', ''gpt-5.1-codex-max''), (''gpt-5.1-codex-mini*'', ''gpt-5.1-codex-mini''),
      (''gpt-5.1-codex*'', ''gpt-5.1-codex''), (''gpt-5-codex*'', ''gpt-5-codex''),
      (''gpt-image-2*'', ''gpt-image-2''), (''gpt-image-1.5*'', ''gpt-image-1.5''),
      (''gpt-image-1-mini*'', ''gpt-image-1-mini''), (''gpt-image-1*'', ''gpt-image-1'')]"

section \<open>Resolving a model\<close>

fun fnmatchcase :: "string \<Rightarrow> string \<Rightarrow> bool" where
  "fnmatchcase [] [] = True"
| "fnmatchcase (c # cs) [] = False"
| "fnmatchcase [] (p # ps) = (p = CHR ''*'' \<and> fnmatchcase [] ps)"
| "fnmatchcase (c # cs) (p # ps) =
     (if p = CHR ''*'' then fnmatchcase (c # cs) ps \<or> fnmatchcase cs (p # ps)
      else (p = CHR ''?'' \<or> p = c) \<and> fnmatchcase cs ps)"

definition alias_matches :: "string \<Rightarrow> (string \<times> string) list \<Rightarrow> (nat \<times> string) list" where
  "alias_matches normalized aliases =
     map (\<lambda>(pat, target). (length pat, target)) (filter (\<lambda>(pat, target). fnmatchcase normalized (py_lower pat)) aliases)"

definition resolve_model_alias :: "string \<Rightarrow> (string \<times> string) list \<Rightarrow> string option" where
  "resolve_model_alias model aliases =
     (if model = [] then None
      else case max_by fst (alias_matches (py_lower model) aliases) of Inl _ \<Rightarrow> None | Inr m \<Rightarrow> Some (snd m))"

definition find_price :: "string \<Rightarrow> (string \<times> model_price) list \<Rightarrow> (string \<times> model_price) option" where
  "find_price name pricing = find (\<lambda>(key, price). py_lower key = name) pricing"

definition get_pricing_for_model ::
    "string \<Rightarrow> (string \<times> model_price) list \<Rightarrow> (string \<times> string) list \<Rightarrow> (string \<times> model_price) option" where
  "get_pricing_for_model model pricing aliases =
     (if model = [] then None
      else
        let pricing = (if pricing = [] then DEFAULT_PRICING_MODELS else pricing);
            aliases = (if aliases = [] then DEFAULT_MODEL_ALIASES else aliases);
            normalized = py_lower model
        in case find_price normalized pricing of
             Some hit \<Rightarrow> Some hit
           | None \<Rightarrow>
               (case resolve_model_alias normalized aliases of
                  None \<Rightarrow> None
                | Some alias \<Rightarrow> (if alias = [] then None else find_price (py_lower alias) pricing)))"

section \<open>Rates and costs\<close>

definition pricing_service_tier :: "string option \<Rightarrow> string option" where
  "pricing_service_tier service_tier =
     (case service_tier of None \<Rightarrow> None
      | Some t \<Rightarrow> (let stripped = py_lower (py_strip t) in if stripped = [] then None else Some stripped))"

definition uses_priority_tier :: "string option \<Rightarrow> bool" where
  "uses_priority_tier service_tier = (pricing_service_tier service_tier \<in> {Some ''priority'', Some ''fast''})"

definition uses_flex_tier :: "string option \<Rightarrow> bool" where
  "uses_flex_tier service_tier = (pricing_service_tier service_tier = Some ''flex'')"

definition is_long_context :: "usage_tokens \<Rightarrow> model_price \<Rightarrow> bool" where
  "is_long_context u price =
     ((case long_context_threshold_tokens price of None \<Rightarrow> False | Some t \<Rightarrow> input_tokens u > t)
      \<and> long_context_input_per_1m price \<noteq> None \<and> long_context_output_per_1m price \<noteq> None)"

type_synonym rates = "real \<times> real \<times> real"

definition standard_rates :: "usage_tokens \<Rightarrow> model_price \<Rightarrow> rates" where
  "standard_rates u price =
     (if is_long_context u price
      then let i = or_default (long_context_input_per_1m price) 0
           in (i, or_default (long_context_cached_input_per_1m price) i, or_default (long_context_output_per_1m price) 0)
      else (input_per_1m price, or_default (cached_input_per_1m price) (input_per_1m price), output_per_1m price))"

definition flex_rates :: "usage_tokens \<Rightarrow> model_price \<Rightarrow> string option \<Rightarrow> rates" where
  "flex_rates u price service_tier =
     (case (flex_input_per_1m price, flex_output_per_1m price) of
        (Some i, Some outp) \<Rightarrow>
          (if uses_flex_tier service_tier
           then let c = or_default (flex_cached_input_per_1m price) i
                in if is_long_context u price then (i * 2, c * 2, outp * (3 / 2)) else (i, c, outp)
           else standard_rates u price)
      | _ \<Rightarrow> standard_rates u price)"

definition effective_rates :: "usage_tokens \<Rightarrow> model_price \<Rightarrow> string option \<Rightarrow> rates" where
  "effective_rates u price service_tier =
     (if uses_priority_tier service_tier
      then case (priority_input_per_1m price, priority_output_per_1m price) of
             (Some i, Some outp) \<Rightarrow> (i, or_default (priority_cached_input_per_1m price) i, outp)
           | _ \<Rightarrow>
               (case priority_multiplier price of
                  Some k \<Rightarrow> (input_per_1m price * k,
                             or_default (cached_input_per_1m price) (input_per_1m price) * k, output_per_1m price * k)
                | None \<Rightarrow> flex_rates u price service_tier)
      else flex_rates u price service_tier)"

definition round_to :: "nat option \<Rightarrow> real \<Rightarrow> real" where
  "round_to precision x = (case precision of None \<Rightarrow> x | Some p \<Rightarrow> of_int (py_round (x * 10 ^ p)) / 10 ^ p)"

definition calculate_cost_breakdown_from_usage ::
    "any_usage \<Rightarrow> model_price \<Rightarrow> string option \<Rightarrow> nat option \<Rightarrow> cost_breakdown option" where
  "calculate_cost_breakdown_from_usage usage price service_tier precision =
     (case normalize_usage usage of None \<Rightarrow> None
      | Some u \<Rightarrow>
          (case effective_rates u price service_tier of (input_rate, cached_rate, output_rate) \<Rightarrow>
             let billable_input = max 0 (input_tokens u - cached_input_tokens u);
                 i = round_to precision (billable_input / 1000000 * input_rate);
                 c = round_to precision (cached_input_tokens u / 1000000 * cached_rate);
                 outp = round_to precision (output_tokens u / 1000000 * output_rate)
             in Some \<lparr>input_usd = i, cached_input_usd = c, output_usd = outp,
                      total_usd = round_to precision (i + c + outp)\<rparr>))"

definition calculate_cost_from_usage :: "any_usage \<Rightarrow> model_price \<Rightarrow> string option \<Rightarrow> real option" where
  "calculate_cost_from_usage usage price service_tier =
     map_option total_usd (calculate_cost_breakdown_from_usage usage price service_tier None)"

definition add_cost :: "string \<Rightarrow> real \<Rightarrow> (string \<times> real) list \<Rightarrow> (string \<times> real) list" where
  "add_cost model cost totals = AList.update model (or_default (map_of totals model) 0 + cost) totals"

fun cost_totals ::
    "(string \<times> model_price) list \<Rightarrow> (string \<times> string) list \<Rightarrow> cost_item list \<Rightarrow> (string \<times> real) list \<times> real
     \<Rightarrow> (string \<times> real) list \<times> real" where
  "cost_totals pricing aliases [] acc = acc"
| "cost_totals pricing aliases (item # items) (totals, usd) =
     cost_totals pricing aliases items
       (case get_pricing_for_model (item_model item) pricing aliases of
          None \<Rightarrow> (totals, usd)
        | Some (canonical, price) \<Rightarrow>
            (case calculate_cost_from_usage (item_usage item) price (item_tier item) of
               None \<Rightarrow> (totals, usd)
             | Some cost \<Rightarrow> (add_cost canonical cost totals, usd + cost)))"

definition calculate_costs ::
    "cost_item list \<Rightarrow> (string \<times> model_price) list \<Rightarrow> (string \<times> string) list \<Rightarrow> real \<times> (string \<times> real) list" where
  "calculate_costs items pricing aliases =
     (case cost_totals pricing aliases items ([], 0) of (totals, usd) \<Rightarrow>
        (round_to (Some 6) usd, map (\<lambda>(model, usd). (model, round_to (Some 6) usd)) (sort_key fst totals)))"

section \<open>Properties\<close>

text \<open>The rates of a tier are ordered like the tiers, and a cached token is not dearer than a fresh one.\<close>

fun rates_le :: "rates \<Rightarrow> rates \<Rightarrow> bool" where
  "rates_le (i, c, w) (i', c', w') = (i \<le> i' \<and> c \<le> c' \<and> w \<le> w')"

fun rates_sane :: "rates \<Rightarrow> bool" where
  "rates_sane (i, c, w) = (0 \<le> c \<and> c \<le> i \<and> 0 \<le> w)"

definition price_sane :: "model_price \<Rightarrow> bool" where
  "price_sane p =
     (\<forall>u. rates_le (effective_rates u p (Some ''flex'')) (effective_rates u p None)
        \<and> rates_le (effective_rates u p None) (effective_rates u p (Some ''priority''))
        \<and> rates_sane (effective_rates u p (Some ''flex'')) \<and> rates_sane (effective_rates u p None)
        \<and> rates_sane (effective_rates u p (Some ''priority'')))"

lemma tier_tests:
  "uses_priority_tier (Some ''priority'')" "\<not> uses_priority_tier (Some ''flex'')" "\<not> uses_priority_tier None"
  "uses_flex_tier (Some ''flex'')" "\<not> uses_flex_tier (Some ''priority'')" "\<not> uses_flex_tier None"
  by code_simp+

lemma default_prices_sane: "list_all (\<lambda>(name, p). price_sane p) DEFAULT_PRICING_MODELS"
  by (simp add: DEFAULT_PRICING_MODELS_def price_sane_def effective_rates_def flex_rates_def standard_rates_def
      tier_tests plain_price_def is_long_context_def Let_def)

lemma rates_cost_mono:
  assumes "rates_le (i, c, w) (i', c', w')" "0 \<le> b" "0 \<le> k" "0 \<le> (n :: real)"
  shows "b / 1000000 * i + k / 1000000 * c + n / 1000000 * w \<le> b / 1000000 * i' + k / 1000000 * c' + n / 1000000 * w'"
  using assms by (intro add_mono mult_left_mono) simp_all

lemma cost_of_rates:
  "calculate_cost_from_usage (Tokens u) p t =
     (case effective_rates (u\<lparr>cached_input_tokens := clamp_cached (cached_input_tokens u) (input_tokens u)\<rparr>) p t of (i, c, w) \<Rightarrow>
        Some (max 0 (input_tokens u - clamp_cached (cached_input_tokens u) (input_tokens u)) / 1000000 * i
          + clamp_cached (cached_input_tokens u) (input_tokens u) / 1000000 * c + output_tokens u / 1000000 * w))"
  by (simp add: calculate_cost_from_usage_def calculate_cost_breakdown_from_usage_def normalize_usage_def
      round_to_def Let_def split: prod.split)

lemma cost_mono_rates:
  assumes "rates_le (effective_rates (u\<lparr>cached_input_tokens := clamp_cached (cached_input_tokens u) (input_tokens u)\<rparr>) p t)
      (effective_rates (u\<lparr>cached_input_tokens := clamp_cached (cached_input_tokens u) (input_tokens u)\<rparr>) p t')"
    and "0 \<le> output_tokens u"
  shows "the (calculate_cost_from_usage (Tokens u) p t) \<le> the (calculate_cost_from_usage (Tokens u) p t')"
proof -
  obtain i c w i' c' w' where r:
    "effective_rates (u\<lparr>cached_input_tokens := clamp_cached (cached_input_tokens u) (input_tokens u)\<rparr>) p t = (i, c, w)"
    "effective_rates (u\<lparr>cached_input_tokens := clamp_cached (cached_input_tokens u) (input_tokens u)\<rparr>) p t' = (i', c', w')"
    by (metis prod_cases3)
  have "0 \<le> clamp_cached (cached_input_tokens u) (input_tokens u)" by (simp add: clamp_cached_def)
  then show ?thesis
    using rates_cost_mono [of i c w i' c' w'] assms by (simp add: cost_of_rates r)
qed

text \<open>
  The default price table is ordered like the service tiers: for every priced model and any
  usage, the same request costs at most as much on the flex tier as on the standard tier and at
  most as much there as on the priority tier, in and beyond the long-context threshold.
\<close>

theorem tier_costs_ordered:
  assumes "(name, price) \<in> set DEFAULT_PRICING_MODELS" "0 \<le> output_tokens u"
  shows "the (calculate_cost_from_usage (Tokens u) price (Some ''flex'')) \<le> the (calculate_cost_from_usage (Tokens u) price None)
    \<and> the (calculate_cost_from_usage (Tokens u) price None) \<le> the (calculate_cost_from_usage (Tokens u) price (Some ''priority''))"
proof -
  have "price_sane price" using default_prices_sane assms(1) by (auto simp: list_all_iff)
  then show ?thesis using assms(2) by (intro conjI cost_mono_rates) (simp_all add: price_sane_def)
qed

definition w_tokens :: usage_tokens where
  "w_tokens = \<lparr>input_tokens = 300000, output_tokens = 2000, cached_input_tokens = 100000\<rparr>"

definition w_price :: model_price where
  "w_price = (plain_price (5 / 4) 10)\<lparr>cached_input_per_1m := Some (1 / 8), priority_multiplier := Some 2,
     flex_input_per_1m := Some (5 / 8), flex_output_per_1m := Some 5, flex_cached_input_per_1m := Some (1 / 16)\<rparr>"

lemma w_price_listed: "(''gpt-5.1'', w_price) \<in> set DEFAULT_PRICING_MODELS"
  by (simp add: DEFAULT_PRICING_MODELS_def w_price_def)

theorem tier_costs_ordered_witness:
  "the (calculate_cost_from_usage (Tokens w_tokens) w_price (Some ''flex''))
     \<le> the (calculate_cost_from_usage (Tokens w_tokens) w_price None)
   \<and> the (calculate_cost_from_usage (Tokens w_tokens) w_price None)
     \<le> the (calculate_cost_from_usage (Tokens w_tokens) w_price (Some ''priority''))"
  by (rule tier_costs_ordered [OF w_price_listed]) (simp add: w_tokens_def)

lemma rates_ignore_cache [simp]:
  "is_long_context (u\<lparr>cached_input_tokens := x\<rparr>) p = is_long_context u p"
  "standard_rates (u\<lparr>cached_input_tokens := x\<rparr>) p = standard_rates u p"
  "flex_rates (u\<lparr>cached_input_tokens := x\<rparr>) p t = flex_rates u p t"
  "effective_rates (u\<lparr>cached_input_tokens := x\<rparr>) p t = effective_rates u p t"
proof -
  show a: "is_long_context (u\<lparr>cached_input_tokens := x\<rparr>) p = is_long_context u p"
    by (simp add: is_long_context_def split: option.split)
  show b: "standard_rates (u\<lparr>cached_input_tokens := x\<rparr>) p = standard_rates u p" by (simp add: standard_rates_def a)
  show c: "flex_rates (u\<lparr>cached_input_tokens := x\<rparr>) p t = flex_rates u p t" by (simp only: flex_rates_def a b)
  show "effective_rates (u\<lparr>cached_input_tokens := x\<rparr>) p t = effective_rates u p t" by (simp only: effective_rates_def c)
qed

text \<open>
  Cached input is never dearer: on any tier of a default price, if more of the same input is
  served from the cache, the cost does not grow, and no cost is negative.
\<close>

theorem caching_never_costs_more:
  assumes "(name, price) \<in> set DEFAULT_PRICING_MODELS" "tier \<in> {None, Some ''flex'', Some ''priority''}"
    and "0 \<le> output_tokens u" "0 \<le> input_tokens u" "k \<le> k'"
  shows "0 \<le> the (calculate_cost_from_usage (Tokens (u\<lparr>cached_input_tokens := k'\<rparr>)) price tier)
    \<and> the (calculate_cost_from_usage (Tokens (u\<lparr>cached_input_tokens := k'\<rparr>)) price tier)
      \<le> the (calculate_cost_from_usage (Tokens (u\<lparr>cached_input_tokens := k\<rparr>)) price tier)"
proof -
  obtain i c w where r: "effective_rates u price tier = (i, c, w)" by (metis prod_cases3)
  have "price_sane price" using default_prices_sane assms(1) by (auto simp: list_all_iff)
  then have "rates_sane (effective_rates u price tier)" using assms(2) by (auto simp: price_sane_def)
  then have sane: "0 \<le> c" "c \<le> i" "0 \<le> w" using r by auto
  let ?x = "clamp_cached k (input_tokens u)" and ?y = "clamp_cached k' (input_tokens u)"
  have xy: "0 \<le> ?x" "?x \<le> ?y" "?y \<le> input_tokens u" using assms(4,5) by (auto simp: clamp_cached_def)
  have cost: "the (calculate_cost_from_usage (Tokens (u\<lparr>cached_input_tokens := q\<rparr>)) price tier)
      = (input_tokens u - clamp_cached q (input_tokens u)) / 1000000 * i
        + clamp_cached q (input_tokens u) / 1000000 * c + output_tokens u / 1000000 * w"
    if "clamp_cached q (input_tokens u) \<le> input_tokens u" for q
    using that r by (simp add: cost_of_rates)
  have "?y * c + ?x * i \<le> ?y * i + ?x * c"
    using mult_nonneg_nonneg [of "?y - ?x" "i - c"] xy sane by (simp add: algebra_simps)
  then have "(input_tokens u - ?y) / 1000000 * i + ?y / 1000000 * c \<le> (input_tokens u - ?x) / 1000000 * i + ?x / 1000000 * c"
    by (simp add: field_simps)
  moreover have "0 \<le> (input_tokens u - ?y) / 1000000 * i + ?y / 1000000 * c + output_tokens u / 1000000 * w"
    using xy sane assms(3) by (intro add_nonneg_nonneg mult_nonneg_nonneg) auto
  ultimately show ?thesis using xy by (simp add: cost [of k] cost [of k'])
qed

theorem caching_never_costs_more_witness:
  "the (calculate_cost_from_usage (Tokens (w_tokens\<lparr>cached_input_tokens := 200000\<rparr>)) w_price (Some ''flex''))
     \<le> the (calculate_cost_from_usage (Tokens (w_tokens\<lparr>cached_input_tokens := 100000\<rparr>)) w_price (Some ''flex''))"
  using caching_never_costs_more [OF w_price_listed, of "Some ''flex''" w_tokens 100000 200000]
  by (simp add: w_tokens_def)

section \<open>Aliases and totals\<close>

lemma default_alias_targets: "set (map snd DEFAULT_MODEL_ALIASES) \<subseteq> set (map fst DEFAULT_PRICING_MODELS)"
  by (simp add: DEFAULT_MODEL_ALIASES_def DEFAULT_PRICING_MODELS_def)

lemma default_price_names: "[] \<notin> set (map fst DEFAULT_PRICING_MODELS)"
  by (simp add: DEFAULT_PRICING_MODELS_def)

lemma find_price_some: "name \<in> set (map fst pricing) \<Longrightarrow> find_price (py_lower name) pricing \<noteq> None"
  by (auto simp: find_price_def find_None_iff)

text \<open>
  Billing never loses an aliased model: a model name that some default alias pattern matches
  resolves to the target of a longest matching pattern, and the model has a price.
\<close>

theorem aliased_model_priced:
  assumes "resolve_model_alias model DEFAULT_MODEL_ALIASES = Some target"
  shows "(\<exists>pat. (pat, target) \<in> set DEFAULT_MODEL_ALIASES \<and> fnmatchcase (py_lower model) (py_lower pat)
      \<and> (\<forall>p t. (p, t) \<in> set DEFAULT_MODEL_ALIASES \<longrightarrow> fnmatchcase (py_lower model) (py_lower p) \<longrightarrow> length p \<le> length pat))
    \<and> get_pricing_for_model model [] [] \<noteq> None"
proof -
  let ?ms = "alias_matches (py_lower model) DEFAULT_MODEL_ALIASES"
  obtain m where m: "model \<noteq> []" "max_by fst ?ms = Inr m" "snd m = target"
    using assms by (auto simp: resolve_model_alias_def split: if_splits sum.splits)
  have "m \<in> set ?ms" by (rule max_by_in [OF m(2)])
  then obtain pat where pat: "(pat, target) \<in> set DEFAULT_MODEL_ALIASES" "fnmatchcase (py_lower model) (py_lower pat)"
      "fst m = length pat"
    using m(3) by (auto simp: alias_matches_def)
  have "length p \<le> length pat" if "(p, t) \<in> set DEFAULT_MODEL_ALIASES" "fnmatchcase (py_lower model) (py_lower p)" for p t
    using max_by_ge [OF m(2), of "(length p, t)"] that pat(3) by (force simp: alias_matches_def)
  moreover have "target \<noteq> []" "find_price (py_lower target) DEFAULT_PRICING_MODELS \<noteq> None"
    using default_alias_targets default_price_names pat(1) find_price_some [of target DEFAULT_PRICING_MODELS]
    by (metis image_eqI set_map snd_conv subsetD)+
  moreover have ne: "py_lower model \<noteq> []" using m(1) by (simp add: py_lower_def)
  then have "resolve_model_alias (py_lower model) DEFAULT_MODEL_ALIASES = Some target"
    using assms m(1) ne by (simp add: resolve_model_alias_def)
  ultimately show ?thesis
    using pat m(1) by (auto simp: get_pricing_for_model_def Let_def split: option.splits)
qed

theorem aliased_model_priced_witness: "get_pricing_for_model ''GPT-5.4-mini-2026'' [] [] \<noteq> None"
proof -
  have "resolve_model_alias ''GPT-5.4-mini-2026'' DEFAULT_MODEL_ALIASES = Some ''gpt-5.4-mini''" by code_simp
  from aliased_model_priced [OF this] show ?thesis by blast
qed

text \<open>The by-model costs add up to the total, before rounding.\<close>

lemma add_cost_sum:
  "distinct (map fst ts) \<Longrightarrow> sum_list (map snd (add_cost m c ts)) = sum_list (map snd ts) + c"
proof (induction ts)
  case (Cons x ts)
  then show ?case by (cases x; cases "fst x = m") (auto simp: add_cost_def or_default_def)
qed (simp add: add_cost_def or_default_def)

lemma cost_totals_sum:
  "distinct (map fst ts) \<Longrightarrow> sum_list (map snd ts) = usd \<Longrightarrow> cost_totals pricing aliases items (ts, usd) = (ts', usd')
   \<Longrightarrow> sum_list (map snd ts') = usd' \<and> distinct (map fst ts')"
proof (induction pricing aliases items "(ts, usd)" arbitrary: ts usd rule: cost_totals.induct)
  case (2 pricing aliases item items ts usd)
  have "distinct (map fst (add_cost m c ts)) \<and> sum_list (map snd (add_cost m c ts)) = usd + c" for m c
    using "2.prems" by (simp add: add_cost_sum) (simp add: add_cost_def distinct_update)
  then show ?case using 2 by (simp split: option.splits prod.splits)
qed simp

end
