(* ===== verification/Api_Key_Limits.thy ===== *)
theory Api_Key_Limits
  imports Pricing
begin

text \<open>
  Usage limits of API keys: \<open>app/modules/api_keys/limit_windows.py\<close>, the enforcement, settlement
  and release of usage reservations of \<open>app/modules/api_keys/service.py\<close> with the statements they
  run from \<open>app/modules/api_keys/repository.py\<close>. A date-time is a number of microseconds. The
  database is the key rows, the limit rows and the reservations; a transaction is a function
  that returns the new store, and a rolled-back one returns the old one. The statements of one
  call run inside one transaction (the SQLite writer section), so a call is one step. The time of
  the last update is read of open reservations only, so what closing one does to it is left out.
\<close>

section \<open>Limit windows\<close>

datatype limit_window = DAILY | WEEKLY | MONTHLY | FIVE_HOURS | SEVEN_DAYS

definition hours_us :: "int \<Rightarrow> int" where "hours_us h = h * 3600000000"

definition limit_window_delta :: "limit_window \<Rightarrow> int" where
  "limit_window_delta w =
     (case w of FIVE_HOURS \<Rightarrow> hours_us 5 | SEVEN_DAYS \<Rightarrow> hours_us (7 * 24) | DAILY \<Rightarrow> hours_us 24
      | WEEKLY \<Rightarrow> hours_us (7 * 24) | MONTHLY \<Rightarrow> hours_us (30 * 24))"

definition next_limit_reset :: "int \<Rightarrow> limit_window \<Rightarrow> int" where
  "next_limit_reset now w =
     (case w of FIVE_HOURS \<Rightarrow> now + hours_us 5 | SEVEN_DAYS \<Rightarrow> now + hours_us (7 * 24) | DAILY \<Rightarrow> now + hours_us 24
      | WEEKLY \<Rightarrow> now + hours_us (7 * 24) | MONTHLY \<Rightarrow> now + hours_us (30 * 24))"

lemma limit_window_delta_pos: "0 < limit_window_delta w"
  by (simp add: limit_window_delta_def hours_us_def split: limit_window.split)

function advance_limit_reset :: "int \<Rightarrow> int \<Rightarrow> limit_window \<Rightarrow> int" where
  "advance_limit_reset reset now w =
     (if reset \<le> now then advance_limit_reset (reset + limit_window_delta w) now w else reset)"
  by pat_completeness auto
termination
proof (relation "measure (\<lambda>(reset, now, w). nat (now - reset + 1))")
  fix reset now w assume "reset \<le> (now :: int)"
  then show "((reset + limit_window_delta w, now, w), (reset, now, w)) \<in> measure (\<lambda>(reset, now, w). nat (now - reset + 1))"
    using limit_window_delta_pos [of w] by simp
qed simp

declare advance_limit_reset.simps [simp del]

section \<open>Rows\<close>

datatype limit_type = TOTAL_TOKENS | INPUT_TOKENS | OUTPUT_TOKENS | COST_USD | CREDITS

record limit_row =
  lim_id :: int
  lim_key :: string
  lim_type :: limit_type
  lim_window :: limit_window
  max_value :: int
  current_value :: int
  model_filter :: "string option"
  lim_reset :: int

record reservation_item =
  item_limit :: int
  item_limit_type :: limit_type
  reserved_delta :: int
  expected_reset_at :: int
  actual_delta :: "int option"

record reservation =
  res_id :: string
  res_key :: string
  res_model :: string
  res_status :: string
  res_items :: "reservation_item list"
  res_updated :: int
  res_usage :: "(int option \<times> int option \<times> int option \<times> int option)"

record key_row =
  key_id :: string
  is_active :: bool
  expires_at :: "int option"
  last_used_at :: "int option"

record key_store =
  store_keys :: "key_row list"
  store_limits :: "limit_row list"
  store_reservations :: "reservation list"

datatype key_error = Invalid_key | Key_expired | Limit_exceeded limit_type limit_window "string option" int

section \<open>Budgets and costs\<close>

definition MAX_TOKEN_BUDGET :: int where "MAX_TOKEN_BUDGET = 8192"
definition DEFAULT_INPUT_TOKENS :: int where "DEFAULT_INPUT_TOKENS = MAX_TOKEN_BUDGET"
definition DEFAULT_OUTPUT_TOKENS :: int where "DEFAULT_OUTPUT_TOKENS = 2048"
definition UNKNOWN_MODEL_MICRODOLLARS :: int where "UNKNOWN_MODEL_MICRODOLLARS = 2000000"
definition UNKNOWN_MODEL_BASE_TOKENS :: int where "UNKNOWN_MODEL_BASE_TOKENS = MAX_TOKEN_BUDGET * 2"

definition normalize_reservation_token_budget :: "int option \<Rightarrow> int \<Rightarrow> int" where
  "normalize_reservation_token_budget v dflt = (case v of None \<Rightarrow> dflt | Some x \<Rightarrow> max 0 (min x MAX_TOKEN_BUDGET))"

definition normalize_request_usage_budget :: "(int option \<times> int option) option \<Rightarrow> int \<times> int" where
  "normalize_request_usage_budget budget =
     (case budget of None \<Rightarrow> (DEFAULT_INPUT_TOKENS, DEFAULT_OUTPUT_TOKENS)
      | Some (i, u) \<Rightarrow> (normalize_reservation_token_budget i DEFAULT_INPUT_TOKENS,
                        normalize_reservation_token_budget u DEFAULT_OUTPUT_TOKENS))"

definition calculate_cost_microdollars :: "string \<Rightarrow> int \<Rightarrow> int \<Rightarrow> int \<Rightarrow> string option \<Rightarrow> int" where
  "calculate_cost_microdollars model inp outp cached service_tier =
     (case get_pricing_for_model model [] [] of None \<Rightarrow> 0
      | Some (name, price) \<Rightarrow>
          (case calculate_cost_from_usage
                  (Tokens \<lparr>input_tokens = of_int inp, output_tokens = of_int outp, cached_input_tokens = of_int cached\<rparr>)
                  price service_tier of
             None \<Rightarrow> 0 | Some usd \<Rightarrow> py_int (usd * 1000000)))"

definition unknown_model_reserve_cost_budget_microdollars :: "int \<Rightarrow> int \<Rightarrow> int" where
  "unknown_model_reserve_cost_budget_microdollars inp outp =
     (let token_budget = max 0 inp + max 0 outp
      in if token_budget \<le> 0 then 0
         else \<lceil>of_int (UNKNOWN_MODEL_MICRODOLLARS * token_budget) / (of_int UNKNOWN_MODEL_BASE_TOKENS :: real)\<rceil>)"

definition reserve_cost_budget_microdollars :: "string option \<Rightarrow> string option \<Rightarrow> int \<Rightarrow> int \<Rightarrow> int" where
  "reserve_cost_budget_microdollars model service_tier inp outp =
     (case model of
        None \<Rightarrow> unknown_model_reserve_cost_budget_microdollars inp outp
      | Some m \<Rightarrow>
          (if m = [] then unknown_model_reserve_cost_budget_microdollars inp outp
           else let cost = calculate_cost_microdollars m inp outp 0 service_tier
                in if cost > 0 then cost else unknown_model_reserve_cost_budget_microdollars inp outp))"

definition reserve_budget_for_limit_type ::
    "limit_type \<Rightarrow> string option \<Rightarrow> string option \<Rightarrow> int \<times> int \<Rightarrow> int" where
  "reserve_budget_for_limit_type t model service_tier budget =
     (case t of
        TOTAL_TOKENS \<Rightarrow> fst budget + snd budget
      | INPUT_TOKENS \<Rightarrow> fst budget
      | OUTPUT_TOKENS \<Rightarrow> snd budget
      | COST_USD \<Rightarrow> reserve_cost_budget_microdollars model service_tier (fst budget) (snd budget)
      | CREDITS \<Rightarrow> 0)"

definition reserve_delta_for_limit ::
    "limit_row \<Rightarrow> string option \<Rightarrow> string option \<Rightarrow> int \<times> int \<Rightarrow> int" where
  "reserve_delta_for_limit l model service_tier budget =
     (let remaining = max_value l - current_value l
      in if remaining \<le> 0 then 0 else min remaining (reserve_budget_for_limit_type (lim_type l) model service_tier budget))"

definition compute_increment_for_limit_type :: "limit_type \<Rightarrow> int \<Rightarrow> int \<Rightarrow> int \<Rightarrow> int" where
  "compute_increment_for_limit_type t inp outp cost =
     (case t of TOTAL_TOKENS \<Rightarrow> inp + outp | INPUT_TOKENS \<Rightarrow> inp | OUTPUT_TOKENS \<Rightarrow> outp | COST_USD \<Rightarrow> cost | CREDITS \<Rightarrow> 0)"

definition limit_applies_for_request :: "limit_row \<Rightarrow> string option \<Rightarrow> bool" where
  "limit_applies_for_request l request_model = (model_filter l = None \<or> request_model \<noteq> None \<and> model_filter l = request_model)"

section \<open>Statements\<close>

definition update_limits :: "(limit_row \<Rightarrow> bool) \<Rightarrow> (limit_row \<Rightarrow> limit_row) \<Rightarrow> key_store \<Rightarrow> bool \<times> key_store" where
  "update_limits P f s =
     (list_ex P (store_limits s), s\<lparr>store_limits := map (\<lambda>l. if P l then f l else l) (store_limits s)\<rparr>)"

definition reset_limit :: "int \<Rightarrow> int \<Rightarrow> int \<Rightarrow> key_store \<Rightarrow> bool \<times> key_store" where
  "reset_limit lid expected new =
     update_limits (\<lambda>l. lim_id l = lid \<and> lim_reset l = expected) (\<lambda>l. l\<lparr>current_value := 0, lim_reset := new\<rparr>)"

definition try_reserve_usage :: "int \<Rightarrow> int \<Rightarrow> int \<Rightarrow> key_store \<Rightarrow> bool \<times> key_store" where
  "try_reserve_usage lid delta expected s =
     (if delta \<le> 0 then (True, s)
      else update_limits (\<lambda>l. lim_id l = lid \<and> lim_reset l = expected \<and> current_value l + delta \<le> max_value l)
             (\<lambda>l. l\<lparr>current_value := current_value l + delta\<rparr>) s)"

definition adjust_reserved_usage :: "int \<Rightarrow> int \<Rightarrow> int \<Rightarrow> key_store \<Rightarrow> bool \<times> key_store" where
  "adjust_reserved_usage lid delta expected =
     update_limits
       (\<lambda>l. lim_id l = lid \<and> lim_reset l = expected \<and> (delta < 0 \<longrightarrow> current_value l \<ge> - delta))
       (\<lambda>l. l\<lparr>current_value := current_value l + delta\<rparr>)"

definition increment_limit_usage :: "string \<Rightarrow> string \<Rightarrow> int \<Rightarrow> int \<Rightarrow> int \<Rightarrow> int \<Rightarrow> key_store \<Rightarrow> key_store" where
  "increment_limit_usage kid model inp outp cost now s =
     (let inc = (\<lambda>l. compute_increment_for_limit_type (lim_type l) inp outp cost);
          hit = (\<lambda>l. lim_key l = kid \<and> (model_filter l = None \<or> model_filter l = Some model) \<and> inc l > 0)
      in s\<lparr>store_limits := map (\<lambda>l. if hit l then l\<lparr>current_value := current_value l + inc l\<rparr> else l) (store_limits s),
           store_keys := map (\<lambda>k. if key_id k = kid then k\<lparr>last_used_at := Some now\<rparr> else k) (store_keys s)\<rparr>)"

definition find_reservation :: "string \<Rightarrow> key_store \<Rightarrow> reservation option" where
  "find_reservation rid s = find (\<lambda>r. res_id r = rid) (store_reservations s)"

definition update_reservation :: "string \<Rightarrow> (reservation \<Rightarrow> reservation) \<Rightarrow> key_store \<Rightarrow> key_store" where
  "update_reservation rid f s =
     s\<lparr>store_reservations := map (\<lambda>r. if res_id r = rid then f r else r) (store_reservations s)\<rparr>"

definition transition_usage_reservation_status :: "string \<Rightarrow> string \<Rightarrow> string \<Rightarrow> key_store \<Rightarrow> bool \<times> key_store" where
  "transition_usage_reservation_status rid expected new s =
     (list_ex (\<lambda>r. res_id r = rid \<and> res_status r = expected) (store_reservations s),
      update_reservation rid (\<lambda>r. if res_status r = expected then r\<lparr>res_status := new\<rparr> else r) s)"

definition upsert_reservation_item_actual :: "string \<Rightarrow> reservation_item \<Rightarrow> int \<Rightarrow> key_store \<Rightarrow> key_store" where
  "upsert_reservation_item_actual rid item actual =
     update_reservation rid (\<lambda>r. r\<lparr>res_items :=
       (if list_ex (\<lambda>i. item_limit i = item_limit item) (res_items r)
        then map (\<lambda>i. if item_limit i = item_limit item then i\<lparr>actual_delta := Some actual\<rparr> else i) (res_items r)
        else res_items r @ [item\<lparr>actual_delta := Some actual\<rparr>])\<rparr>)"

definition settle_reservation_row ::
    "string \<Rightarrow> string \<Rightarrow> int option \<times> int option \<times> int option \<times> int option \<Rightarrow> key_store \<Rightarrow> key_store" where
  "settle_reservation_row rid st usage = update_reservation rid (\<lambda>r. r\<lparr>res_status := st, res_usage := usage\<rparr>)"

definition touch_usage_reservation :: "string \<Rightarrow> int \<Rightarrow> key_store \<Rightarrow> bool \<times> key_store" where
  "touch_usage_reservation rid now s =
     (list_ex (\<lambda>r. res_id r = rid \<and> res_status r = ''reserved'') (store_reservations s),
      update_reservation rid (\<lambda>r. if res_status r = ''reserved'' then r\<lparr>res_updated := now\<rparr> else r) s)"

definition update_last_used :: "string \<Rightarrow> int \<Rightarrow> key_store \<Rightarrow> key_store" where
  "update_last_used kid now s =
     s\<lparr>store_keys := map (\<lambda>k. if key_id k = kid then k\<lparr>last_used_at := Some now\<rparr> else k) (store_keys s)\<rparr>"

section \<open>Service\<close>

definition valid_key :: "string \<Rightarrow> int \<Rightarrow> key_store \<Rightarrow> key_error option" where
  "valid_key kid now s =
     (case find (\<lambda>k. key_id k = kid) (store_keys s) of
        None \<Rightarrow> Some Invalid_key
      | Some k \<Rightarrow>
          (if \<not> is_active k then Some Invalid_key
           else case expires_at k of None \<Rightarrow> None | Some e \<Rightarrow> if e < now then Some Key_expired else None))"

definition limits_of :: "string \<Rightarrow> key_store \<Rightarrow> limit_row list" where
  "limits_of kid s = filter (\<lambda>l. lim_key l = kid) (store_limits s)"

text \<open>\<open>reset_limit\<close> commits at once, so these resets survive a later rollback.\<close>

fun lazy_reset_expired_limits :: "limit_row list \<Rightarrow> int \<Rightarrow> key_store \<Rightarrow> bool \<times> key_store" where
  "lazy_reset_expired_limits [] now s = (False, s)"
| "lazy_reset_expired_limits (l # ls) now s =
     (if lim_reset l \<ge> now then lazy_reset_expired_limits ls now s
      else
        let s' = snd (reset_limit (lim_id l) (lim_reset l) (advance_limit_reset (lim_reset l) now (lim_window l)) s)
        in (True, snd (lazy_reset_expired_limits ls now s')))"

definition limit_exceeded :: "limit_row \<Rightarrow> key_error" where
  "limit_exceeded l = Limit_exceeded (lim_type l) (lim_window l) (model_filter l) (lim_reset l)"

fun reserve_limits ::
    "limit_row list \<Rightarrow> string option \<Rightarrow> string option \<Rightarrow> int \<times> int \<Rightarrow> reservation_item list \<Rightarrow> key_store
     \<Rightarrow> key_error + reservation_item list \<times> key_store" where
  "reserve_limits [] model service_tier budget items s = Inr (items, s)"
| "reserve_limits (l # ls) model service_tier budget items s =
     (if \<not> limit_applies_for_request l model then reserve_limits ls model service_tier budget items s
      else if current_value l \<ge> max_value l then Inl (limit_exceeded l)
      else
        let delta = reserve_delta_for_limit l model service_tier budget;
            (ok, s') = (if delta > 0 then try_reserve_usage (lim_id l) delta (lim_reset l) s else (True, s))
        in if \<not> ok then Inl (limit_exceeded l)
           else reserve_limits ls model service_tier budget
                  (items @ [\<lparr>item_limit = lim_id l, item_limit_type = lim_type l, reserved_delta = delta,
                             expected_reset_at = lim_reset l, actual_delta = None\<rparr>]) s')"

definition create_usage_reservation ::
    "string \<Rightarrow> string \<Rightarrow> string \<Rightarrow> reservation_item list \<Rightarrow> int \<Rightarrow> key_store \<Rightarrow> key_store" where
  "create_usage_reservation rid kid model items now s =
     s\<lparr>store_reservations := store_reservations s @
         [\<lparr>res_id = rid, res_key = kid, res_model = model, res_status = ''reserved'', res_items = items,
           res_updated = now, res_usage = (None, None, None, None)\<rparr>]\<rparr>"

text \<open>
  The reservation id is drawn by the caller. A refusal rolls back to the state after the
  committed resets.
\<close>

definition enforce_limits_for_request_once ::
    "int \<Rightarrow> string \<Rightarrow> string \<Rightarrow> string option \<Rightarrow> string option \<Rightarrow> (int option \<times> int option) option \<Rightarrow> key_store
     \<Rightarrow> (key_error + bool) \<times> key_store" where
  "enforce_limits_for_request_once now rid kid model service_tier budget s =
     (case valid_key kid now s of Some e \<Rightarrow> (Inl e, s)
      | None \<Rightarrow>
          let s1 = snd (lazy_reset_expired_limits (limits_of kid s) now s)
          in case valid_key kid now s1 of Some e \<Rightarrow> (Inl e, s1)
             | None \<Rightarrow>
                 (case reserve_limits (limits_of kid s1) model service_tier (normalize_request_usage_budget budget) [] s1 of
                    Inl e \<Rightarrow> (Inl e, s1)
                  | Inr (items, s2) \<Rightarrow>
                      (Inr (items \<noteq> []), create_usage_reservation rid kid (or_default model []) items now s2)))"

definition settle_item :: "string \<Rightarrow> (reservation_item \<Rightarrow> int) \<Rightarrow> reservation_item \<Rightarrow> key_store \<Rightarrow> key_store" where
  "settle_item rid actual item s =
     upsert_reservation_item_actual rid item (actual item)
       (if actual item - reserved_delta item \<noteq> 0
        then snd (adjust_reserved_usage (item_limit item) (actual item - reserved_delta item) (expected_reset_at item) s)
        else s)"

definition settle_usage_reservation ::
    "string \<Rightarrow> string \<Rightarrow> int option \<Rightarrow> int option \<Rightarrow> int option \<Rightarrow> string option \<Rightarrow> string \<Rightarrow> int option \<Rightarrow> int
     \<Rightarrow> key_store \<Rightarrow> key_store" where
  "settle_usage_reservation rid model inp outp cached service_tier st cost_override now s =
     (case find_reservation rid s of
        None \<Rightarrow> s
      | Some r \<Rightarrow>
          (if res_status r \<noteq> ''reserved'' then s
           else case transition_usage_reservation_status rid ''reserved'' ''settling'' s of
             (claimed, s1) \<Rightarrow>
               (if \<not> claimed then s
                else
                  let i = or_default inp 0; u = or_default outp 0;
                      cost = (case cost_override of Some c \<Rightarrow> c
                              | None \<Rightarrow> calculate_cost_microdollars model i u (or_default cached 0) service_tier);
                      actual = (\<lambda>item. compute_increment_for_limit_type (item_limit_type item) i u cost);
                      s2 = fold (settle_item rid actual) (res_items r) s1
                  in update_last_used (res_key r) now
                       (settle_reservation_row rid st (inp, outp, cached, Some cost) s2))))"

text \<open>Releasing adjusts even by zero, which the statement then does not notice.\<close>

definition release_item :: "string \<Rightarrow> reservation_item \<Rightarrow> key_store \<Rightarrow> key_store" where
  "release_item rid item s =
     upsert_reservation_item_actual rid item 0
       (snd (adjust_reserved_usage (item_limit item) (- reserved_delta item) (expected_reset_at item) s))"

definition release_usage_reservation_once :: "string \<Rightarrow> key_store \<Rightarrow> key_store" where
  "release_usage_reservation_once rid s =
     (case find_reservation rid s of
        None \<Rightarrow> s
      | Some r \<Rightarrow>
          (if res_status r \<noteq> ''reserved'' then s
           else case transition_usage_reservation_status rid ''reserved'' ''released'' s of
             (claimed, s1) \<Rightarrow>
               (if \<not> claimed then s
                else settle_reservation_row rid ''released'' (None, None, None, None)
                       (fold (release_item rid) (res_items r) s1))))"

text \<open>
  A SQLite writer that finds the database locked is retried up to four times; any other
  failure, or the fourth, is raised. A failed attempt is rolled back to what it had committed
  by then; \<open>failed\<close> says what that is.
\<close>

datatype operational_error = Database_locked | Other_error

definition SQLITE_BUSY_RETRY_ATTEMPTS :: nat where "SQLITE_BUSY_RETRY_ATTEMPTS = 4"

fun busy_retry ::
    "nat \<Rightarrow> (operational_error \<times> 'f) list \<Rightarrow> ('f \<Rightarrow> 's \<Rightarrow> 's) \<Rightarrow> ('s \<Rightarrow> 'r \<times> 's) \<Rightarrow> 's \<Rightarrow> (operational_error + 'r) \<times> 's" where
  "busy_retry left [] failed body s = (case body s of (r, s') \<Rightarrow> (Inr r, s'))"
| "busy_retry left ((e, f) # fs) failed body s =
     (if e \<noteq> Database_locked \<or> left \<le> 1 then (Inl e, failed f s) else busy_retry (left - 1) fs failed body (failed f s))"

text \<open>
  Every attempt reads its own clock. A failed enforcement may have committed the resets of the
  first \<open>k\<close> limits.
\<close>

definition enforce_failed :: "string \<Rightarrow> nat \<times> int \<Rightarrow> key_store \<Rightarrow> key_store" where
  "enforce_failed kid ft s =
     (case ft of (k, t) \<Rightarrow>
        if valid_key kid t s = None then snd (lazy_reset_expired_limits (take k (limits_of kid s)) t s) else s)"

definition enforce_limits_for_request ::
    "(operational_error \<times> nat \<times> int) list \<Rightarrow> int \<Rightarrow> string \<Rightarrow> string \<Rightarrow> string option \<Rightarrow> string option
     \<Rightarrow> (int option \<times> int option) option \<Rightarrow> key_store \<Rightarrow> (operational_error + (key_error + bool)) \<times> key_store" where
  "enforce_limits_for_request faults now rid kid model service_tier budget =
     busy_retry SQLITE_BUSY_RETRY_ATTEMPTS faults (enforce_failed kid)
       (enforce_limits_for_request_once now rid kid model service_tier budget)"

definition retried ::
    "(operational_error \<times> unit) list \<Rightarrow> (key_store \<Rightarrow> 'r \<times> key_store) \<Rightarrow> key_store \<Rightarrow> (operational_error + 'r) \<times> key_store" where
  "retried faults = busy_retry SQLITE_BUSY_RETRY_ATTEMPTS faults (\<lambda>_ s. s)"

definition finalize_usage_reservation ::
    "(operational_error \<times> unit) list \<Rightarrow> string \<Rightarrow> string \<Rightarrow> int \<Rightarrow> int \<Rightarrow> int \<Rightarrow> string option \<Rightarrow> int option \<Rightarrow> int
     \<Rightarrow> key_store \<Rightarrow> (operational_error + unit) \<times> key_store" where
  "finalize_usage_reservation faults rid model inp outp cached service_tier cost now =
     retried faults (\<lambda>s. ((), settle_usage_reservation rid model (Some inp) (Some outp) (Some cached) service_tier
                                 ''finalized'' cost now s))"

definition fail_usage_reservation ::
    "(operational_error \<times> unit) list \<Rightarrow> string \<Rightarrow> string \<Rightarrow> int option \<Rightarrow> int option \<Rightarrow> int option \<Rightarrow> string option \<Rightarrow> int
     \<Rightarrow> key_store \<Rightarrow> (operational_error + unit) \<times> key_store" where
  "fail_usage_reservation faults rid model inp outp cached service_tier now =
     retried faults (\<lambda>s. ((), settle_usage_reservation rid model inp outp cached service_tier ''failed'' None now s))"

definition touch_reservation ::
    "(operational_error \<times> unit) list \<Rightarrow> string \<Rightarrow> int \<Rightarrow> key_store \<Rightarrow> (operational_error + bool) \<times> key_store" where
  "touch_reservation faults rid now = retried faults (touch_usage_reservation rid now)"

definition release_usage_reservation ::
    "(operational_error \<times> unit) list \<Rightarrow> string \<Rightarrow> key_store \<Rightarrow> (operational_error + unit) \<times> key_store" where
  "release_usage_reservation faults rid = retried faults (\<lambda>s. ((), release_usage_reservation_once rid s))"

definition record_usage ::
    "string \<Rightarrow> string \<Rightarrow> int \<Rightarrow> int \<Rightarrow> int \<Rightarrow> string option \<Rightarrow> int \<Rightarrow> key_store \<Rightarrow> key_store" where
  "record_usage kid model inp outp cached service_tier now =
     increment_limit_usage kid model inp outp (calculate_cost_microdollars model inp outp cached service_tier) now"

section \<open>Sweeps\<close>

definition EXPIRED_LIMIT_RESET_BATCH_SIZE :: nat where "EXPIRED_LIMIT_RESET_BATCH_SIZE = 500"

definition expired_limits :: "int \<Rightarrow> key_store \<Rightarrow> limit_row list" where
  "expired_limits now s = filter (\<lambda>l. lim_reset l < now) (store_limits s)"

fun reset_batch :: "limit_row list \<Rightarrow> int \<Rightarrow> key_store \<Rightarrow> int \<times> key_store" where
  "reset_batch [] now s = (0, s)"
| "reset_batch (l # ls) now s =
     (case reset_limit (lim_id l) (lim_reset l) (advance_limit_reset (lim_reset l) now (lim_window l)) s of
        (hit, s1) \<Rightarrow> (case reset_batch ls now s1 of (n, s2) \<Rightarrow> ((if hit then 1 else 0) + n, s2)))"

lemma advance_after: "now < advance_limit_reset reset now w"
  by (induction reset now w rule: advance_limit_reset.induct) (subst advance_limit_reset.simps, simp)

lemma filter_map_reset:
  "now < new \<Longrightarrow> filter (\<lambda>l. lim_reset l < now) (map (\<lambda>l. if P l then l\<lparr>current_value := 0, lim_reset := new\<rparr> else l) xs)
     = filter (\<lambda>l. \<not> P l) (filter (\<lambda>l. lim_reset l < now) xs)"
  by (induction xs) auto

lemma reset_limit_expired:
  "now < new \<Longrightarrow> expired_limits now (snd (reset_limit lid e new s))
     = filter (\<lambda>l. \<not> (lim_id l = lid \<and> lim_reset l = e)) (expired_limits now s)"
  by (simp add: expired_limits_def reset_limit_def update_limits_def filter_map_reset)

lemma reset_batch_le: "length (expired_limits now (snd (reset_batch ls now s))) \<le> length (expired_limits now s)"
proof (induction ls arbitrary: s)
  case (Cons l ls)
  let ?s = "snd (reset_limit (lim_id l) (lim_reset l) (advance_limit_reset (lim_reset l) now (lim_window l)) s)"
  have "length (expired_limits now ?s) \<le> length (expired_limits now s)"
    by (simp add: reset_limit_expired advance_after)
  then show ?case using Cons.IH [of ?s] by (auto simp: case_prod_beta)
qed simp

lemma reset_batch_less:
  assumes "l \<in> set (expired_limits now s)"
  shows "length (expired_limits now (snd (reset_batch (l # ls) now s))) < length (expired_limits now s)"
proof -
  let ?s = "snd (reset_limit (lim_id l) (lim_reset l) (advance_limit_reset (lim_reset l) now (lim_window l)) s)"
  have "length (expired_limits now ?s) < length (expired_limits now s)"
    unfolding reset_limit_expired [OF advance_after] by (rule length_filter_less [OF assms]) simp
  then show ?thesis using reset_batch_le [of now ls ?s] by (auto simp: case_prod_beta)
qed

definition expired_batch :: "int \<Rightarrow> key_store \<Rightarrow> limit_row list" where
  "expired_batch now s =
     take EXPIRED_LIMIT_RESET_BATCH_SIZE (sort_key (\<lambda>l. (lim_reset l, lim_id l)) (expired_limits now s))"

lemma expired_batch_in: "set (expired_batch now s) \<subseteq> set (expired_limits now s)"
  using set_take_subset [of EXPIRED_LIMIT_RESET_BATCH_SIZE] by (force simp: expired_batch_def)

function reset_expired_limits :: "int \<Rightarrow> int \<Rightarrow> key_store \<Rightarrow> int \<times> key_store" where
  "reset_expired_limits count now s =
     (case expired_batch now s of [] \<Rightarrow> (count, s)
      | l # ls \<Rightarrow> (case reset_batch (l # ls) now s of (n, s') \<Rightarrow> reset_expired_limits (count + n) now s'))"
  by pat_completeness auto
termination
proof (relation "measure (\<lambda>(count, now, s). length (expired_limits now s))")
  fix count n :: int and now s s' l ls
  assume b: "expired_batch now s = l # ls" "(n, s') = reset_batch (l # ls) now s"
  then have "l \<in> set (expired_limits now s)" using expired_batch_in [of now s] by auto
  then show "((count + n, now, s'), (count, now, s)) \<in> measure (\<lambda>(count, now, s). length (expired_limits now s))"
    using reset_batch_less [of l now s ls] b(2) by (metis case_prod_conv in_measure snd_conv)
qed simp

declare reset_expired_limits.simps [simp del]

text \<open>The stale sweep claims each reservation again before it returns its amounts.\<close>

definition stale :: "int \<Rightarrow> reservation \<Rightarrow> bool" where
  "stale cutoff r = (res_status r = ''reserved'' \<and> res_updated r < cutoff)"

definition release_stale_one :: "int \<Rightarrow> string \<times> reservation_item list \<Rightarrow> key_store \<Rightarrow> int \<times> key_store" where
  "release_stale_one cutoff ri s =
     (case ri of (rid, items) \<Rightarrow>
        if list_ex (\<lambda>r. res_id r = rid \<and> stale cutoff r) (store_reservations s)
        then (1, fold (release_item rid) items
                   (update_reservation rid
                      (\<lambda>r. if stale cutoff r then r\<lparr>res_status := ''released'', res_usage := (None, None, None, None)\<rparr> else r) s))
        else (0, s))"

fun release_stale_batch :: "int \<Rightarrow> (string \<times> reservation_item list) list \<Rightarrow> key_store \<Rightarrow> int \<times> key_store" where
  "release_stale_batch cutoff [] s = (0, s)"
| "release_stale_batch cutoff (ri # ris) s =
     (case release_stale_one cutoff ri s of
        (n, s1) \<Rightarrow> (case release_stale_batch cutoff ris s1 of (m, s2) \<Rightarrow> (n + m, s2)))"

definition stale_batch :: "nat \<Rightarrow> int \<Rightarrow> key_store \<Rightarrow> (string \<times> reservation_item list) list" where
  "stale_batch batch_size cutoff s =
     map (\<lambda>r. (res_id r, res_items r))
       (take batch_size (sort_key res_updated (filter (stale cutoff) (store_reservations s))))"

lemma update_limits_reservations [simp]: "store_reservations (snd (update_limits P f s)) = store_reservations s"
  by (simp add: update_limits_def)

lemma release_item_reservations:
  "store_reservations (release_item rid item s) = store_reservations (upsert_reservation_item_actual rid item 0 s)"
  by (simp add: release_item_def adjust_reserved_usage_def upsert_reservation_item_actual_def update_reservation_def)

lemma upsert_stale:
  "length (filter (stale cutoff) (store_reservations (upsert_reservation_item_actual rid item a s)))
   = length (filter (stale cutoff) (store_reservations s))"
  by (simp add: upsert_reservation_item_actual_def update_reservation_def filter_map o_def stale_def if_distrib
      cong: if_cong filter_cong)

lemma fold_release_stale:
  "length (filter (stale cutoff) (store_reservations (fold (release_item rid) items s)))
   = length (filter (stale cutoff) (store_reservations s))"
  by (induction items arbitrary: s) (simp_all add: release_item_reservations upsert_stale)

lemma length_filter_map_less:
  assumes "\<And>x. P (f x) \<Longrightarrow> P x" "x \<in> set xs" "P x" "\<not> P (f x)"
  shows "length (filter P (map f xs)) < length (filter P xs)"
proof -
  have le: "length (filter P (map f ys)) \<le> length (filter P ys)" for ys
    using assms(1) by (induction ys) auto
  show ?thesis using assms(2)
  proof (induction xs)
    case (Cons y ys)
    then show ?case using assms(1,3,4) le [of ys] by (cases "x = y") auto
  qed simp
qed

lemma release_stale_one_less:
  assumes "list_ex (\<lambda>r. res_id r = fst ri \<and> stale cutoff r) (store_reservations s)"
  shows "length (filter (stale cutoff) (store_reservations (snd (release_stale_one cutoff ri s))))
    < length (filter (stale cutoff) (store_reservations s))"
proof -
  let ?f = "\<lambda>r. if res_id r = fst ri then (if stale cutoff r
      then r\<lparr>res_status := ''released'', res_usage := (None, None, None, None)\<rparr> else r) else r"
  obtain r where r: "r \<in> set (store_reservations s)" "res_id r = fst ri" "stale cutoff r"
    using assms by (auto simp: list_ex_iff)
  have "length (filter (stale cutoff) (map ?f (store_reservations s))) < length (filter (stale cutoff) (store_reservations s))"
    by (rule length_filter_map_less [where x = r, OF _ r(1)]) (use r(2,3) in \<open>auto simp: stale_def split: if_splits\<close>)
  then show ?thesis using assms
    by (simp add: release_stale_one_def fold_release_stale update_reservation_def case_prod_beta)
qed

lemma release_stale_one_le:
  "length (filter (stale cutoff) (store_reservations (snd (release_stale_one cutoff ri s))))
   \<le> length (filter (stale cutoff) (store_reservations s))"
  using release_stale_one_less [of ri cutoff s] by (fastforce simp: release_stale_one_def case_prod_beta)

lemma release_stale_batch_le:
  "length (filter (stale cutoff) (store_reservations (snd (release_stale_batch cutoff ris s))))
   \<le> length (filter (stale cutoff) (store_reservations s))"
proof (induction ris arbitrary: s)
  case (Cons ri ris)
  show ?case
    using order_trans [OF Cons.IH [of "snd (release_stale_one cutoff ri s)"] release_stale_one_le]
    by (simp add: case_prod_beta)
qed simp

lemma release_stale_batch_less:
  assumes "stale_batch n cutoff s = ri # ris"
  shows "length (filter (stale cutoff) (store_reservations (snd (release_stale_batch cutoff (ri # ris) s))))
    < length (filter (stale cutoff) (store_reservations s))"
proof -
  have "fst ri \<in> res_id ` set (filter (stale cutoff) (store_reservations s))"
  proof -
    have "ri \<in> set (stale_batch n cutoff s)" using assms by simp
    then show ?thesis using set_take_subset [of n] by (force simp: stale_batch_def)
  qed
  then have "list_ex (\<lambda>r. res_id r = fst ri \<and> stale cutoff r) (store_reservations s)" by (auto simp: list_ex_iff)
  from release_stale_one_less [OF this] release_stale_batch_le [of cutoff ris "snd (release_stale_one cutoff ri s)"]
  show ?thesis by (auto simp: case_prod_beta)
qed

function release_stale_usage_reservations :: "int \<Rightarrow> nat \<Rightarrow> int \<Rightarrow> key_store \<Rightarrow> int \<times> key_store" where
  "release_stale_usage_reservations count batch_size cutoff s =
     (case stale_batch batch_size cutoff s of [] \<Rightarrow> (count, s)
      | ri # ris \<Rightarrow>
          (case release_stale_batch cutoff (ri # ris) s of
             (n, s') \<Rightarrow> release_stale_usage_reservations (count + n) batch_size cutoff s'))"
  by pat_completeness auto
termination
proof (relation "measure (\<lambda>(count, b, cutoff, s). length (filter (stale cutoff) (store_reservations s)))")
  fix count n :: int and b cutoff s s' ri ris
  assume h: "stale_batch b cutoff s = ri # ris" "(n, s') = release_stale_batch cutoff (ri # ris) s"
  then show "((count + n, b, cutoff, s'), (count, b, cutoff, s))
      \<in> measure (\<lambda>(count, b, cutoff, s). length (filter (stale cutoff) (store_reservations s)))"
    using release_stale_batch_less [OF h(1)] by (metis case_prod_conv in_measure snd_conv)
qed simp

declare release_stale_usage_reservations.simps [simp del]

section \<open>Windows\<close>

text \<open>
  C35. The reset loop is the closed form: for a window that has passed, the new reset is the old
  one plus the least number of whole windows that lies after now, so limits keep their phase
  and the loop ends for every window.
\<close>

theorem advance_limit_reset_closed:
  "advance_limit_reset reset now w =
     (if reset \<le> now then reset + limit_window_delta w * ((now - reset) div limit_window_delta w + 1) else reset)"
proof (induction reset now w rule: advance_limit_reset.induct)
  case (1 reset now w)
  let ?d = "limit_window_delta w"
  have d: "0 < ?d" by (rule limit_window_delta_pos)
  show ?case
  proof (cases "reset \<le> now")
    case True
    show ?thesis
    proof (cases "reset + ?d \<le> now")
      case later: True
      have "(now - reset) div ?d = (now - (reset + ?d)) div ?d + 1"
        using d div_add_self2 [of ?d "now - (reset + ?d)"] by (simp add: algebra_simps)
      then show ?thesis using 1 True later by (subst advance_limit_reset.simps) (simp add: algebra_simps)
    next
      case False
      then have "(now - reset) div ?d = 0" using True by (simp add: div_pos_pos_trivial)
      then show ?thesis using 1 True False by (subst advance_limit_reset.simps) simp
    qed
  next
    case False
    then show ?thesis by (subst advance_limit_reset.simps) simp
  qed
qed

end
