(* ===== verification/Api_Key_Ledger.thy ===== *)
theory Api_Key_Ledger
  imports Api_Key_Limits Runs
begin

text \<open>
  The usage ledger of the API keys: whatever requests, settlements, releases, sweeps and resets
  interleave, every limit's counter covers what is still reserved on it, so that a release
  returns exactly what was taken and a settlement charges exactly the actual use.
\<close>

section \<open>What is reserved\<close>

definition item_hits :: "limit_row \<Rightarrow> reservation_item \<Rightarrow> bool" where
  "item_hits l i = (item_limit i = lim_id l \<and> expected_reset_at i = lim_reset l)"

definition on_limit :: "limit_row \<Rightarrow> (reservation_item \<Rightarrow> int) \<Rightarrow> reservation_item list \<Rightarrow> int" where
  "on_limit l f items = sum_list (map f (filter (item_hits l) items))"

text \<open>The reservations still open, with their items.\<close>

definition open_items :: "key_store \<Rightarrow> (string \<times> reservation_item list) list" where
  "open_items s = map (\<lambda>r. (res_id r, res_items r)) (filter (\<lambda>r. res_status r = ''reserved'') (store_reservations s))"

definition outstanding :: "limit_row \<Rightarrow> (string \<times> reservation_item list) list \<Rightarrow> int" where
  "outstanding l ps = sum_list (map (\<lambda>p. on_limit l reserved_delta (snd p)) ps)"

definition items_ok :: "limit_row list \<Rightarrow> reservation_item list \<Rightarrow> bool" where
  "items_ok ls items =
     (distinct (map item_limit items) \<and> (\<forall>i \<in> set items. 0 \<le> reserved_delta i)
      \<and> (\<forall>i \<in> set items. \<forall>l \<in> set ls. item_limit i = lim_id l \<longrightarrow> expected_reset_at i \<le> lim_reset l))"

definition ledger_ok :: "key_store \<Rightarrow> bool" where
  "ledger_ok s =
     (distinct (map lim_id (store_limits s)) \<and> distinct (map res_id (store_reservations s))
      \<and> (\<forall>p \<in> set (open_items s). items_ok (store_limits s) (snd p))
      \<and> (\<forall>l \<in> set (store_limits s). outstanding l (open_items s) \<le> current_value l))"

lemma ledger_okD:
  assumes "ledger_ok s"
  shows "distinct (map lim_id (store_limits s))" "distinct (map res_id (store_reservations s))"
    and "p \<in> set (open_items s) \<Longrightarrow> items_ok (store_limits s) (snd p)"
    and "l \<in> set (store_limits s) \<Longrightarrow> outstanding l (open_items s) \<le> current_value l"
  using assms by (auto simp: ledger_ok_def)

lemma items_ok_mono:
  assumes "items_ok ls items" "\<And>l. l \<in> set ls' \<Longrightarrow> \<exists>k \<in> set ls. lim_id k = lim_id l \<and> lim_reset k \<le> lim_reset l"
  shows "items_ok ls' items"
  using assms unfolding items_ok_def by (metis order_trans)

lemma on_limit_nonneg: "\<forall>i \<in> set items. 0 \<le> f i \<Longrightarrow> 0 \<le> on_limit l f items"
  unfolding on_limit_def by (intro sum_list_nonneg) auto

lemma item_hits_cong [simp]: "item_hits (l\<lparr>current_value := v\<rparr>) = item_hits l"
  by (rule ext) (simp add: item_hits_def)

lemma on_limit_cong [simp]: "on_limit (l\<lparr>current_value := v\<rparr>) = on_limit l"
  by (intro ext) (simp add: on_limit_def)

lemma outstanding_cong [simp]: "outstanding (l\<lparr>current_value := v\<rparr>) = outstanding l"
  by (rule ext) (simp add: outstanding_def)

lemma open_items_distinct:
  "distinct (map res_id (store_reservations s)) \<Longrightarrow> distinct (map fst (open_items s))"
  by (auto simp: open_items_def o_def distinct_map intro: inj_on_subset)

lemma outstanding_split:
  "distinct (map fst ps) \<Longrightarrow> (rid, items) \<in> set ps \<Longrightarrow>
   outstanding l ps = on_limit l reserved_delta items + outstanding l (filter (\<lambda>p. fst p \<noteq> rid) ps)"
proof (induction ps)
  case (Cons p ps)
  show ?case
  proof (cases "fst p = rid")
    case True
    then have "(rid, items) \<notin> set ps" using Cons.prems by (force simp: image_iff)
    then have "p = (rid, items)" using Cons.prems True by (cases p) auto
    moreover have "filter (\<lambda>p. fst p \<noteq> rid) ps = ps"
      using Cons.prems True by (intro filter_True) (auto simp: image_iff)
    ultimately show ?thesis by (simp add: outstanding_def)
  next
    case False
    then show ?thesis using Cons by (auto simp: outstanding_def)
  qed
qed simp

lemma outstanding_nonneg:
  "\<forall>p \<in> set ps. items_ok ls (snd p) \<Longrightarrow> 0 \<le> outstanding l ps"
  unfolding outstanding_def by (rule sum_list_nonneg) (auto simp: items_ok_def intro!: on_limit_nonneg)

section \<open>Settling the items\<close>

definition adjust_row :: "int \<Rightarrow> reservation_item \<Rightarrow> limit_row \<Rightarrow> limit_row" where
  "adjust_row delta i l =
     (if item_hits l i \<and> (delta < 0 \<longrightarrow> current_value l \<ge> - delta)
      then l\<lparr>current_value := current_value l + delta\<rparr> else l)"

lemma adjust_limits:
  "store_limits (snd (adjust_reserved_usage (item_limit i) delta (expected_reset_at i) s))
   = map (adjust_row delta i) (store_limits s)"
  by (auto simp: adjust_reserved_usage_def update_limits_def adjust_row_def item_hits_def)

lemma adjust_row_zero [simp]: "adjust_row 0 i l = l"
  by (simp add: adjust_row_def)

lemma upsert_frame [simp]:
  "store_limits (upsert_reservation_item_actual rid i a s) = store_limits s"
  "store_limits (update_reservation rid f s) = store_limits s"
  by (simp_all add: upsert_reservation_item_actual_def update_reservation_def)

lemma settle_item_limits:
  "store_limits (settle_item rid actual i s) = map (adjust_row (actual i - reserved_delta i) i) (store_limits s)"
  by (simp add: settle_item_def adjust_limits map_idI)

lemma release_item_settles: "release_item rid = settle_item rid (\<lambda>_. 0)"
proof (intro ext)
  fix i :: reservation_item and s :: key_store
  have "snd (adjust_reserved_usage (item_limit i) 0 (expected_reset_at i) s) = s"
    by (simp add: adjust_reserved_usage_def update_limits_def map_idI)
  then show "release_item rid i s = settle_item rid (\<lambda>_. 0) i s"
    by (cases "reserved_delta i = 0") (simp_all add: release_item_def settle_item_def)
qed

lemma fold_settle_limits:
  "store_limits (fold (settle_item rid actual) items s)
   = map (fold (\<lambda>i. adjust_row (actual i - reserved_delta i) i) items) (store_limits s)"
  by (induction items arbitrary: s) (simp_all add: settle_item_limits)

lemma fold_adjust_untouched:
  "lim_id l \<notin> set (map item_limit items) \<Longrightarrow> fold (\<lambda>i. adjust_row (d i) i) items l = l"
  by (induction items) (auto simp: adjust_row_def item_hits_def)

lemma adjust_row_hit:
  "item_hits l i \<Longrightarrow> reserved_delta i \<le> current_value l \<Longrightarrow> 0 \<le> a \<Longrightarrow>
   adjust_row (a - reserved_delta i) i l = l\<lparr>current_value := current_value l + a - reserved_delta i\<rparr>"
  by (simp add: adjust_row_def)

lemma fold_adjust_row:
  assumes "distinct (map item_limit items)" "\<forall>i \<in> set items. 0 \<le> actual i"
    and "on_limit l reserved_delta items \<le> current_value l" "\<forall>i \<in> set items. 0 \<le> reserved_delta i"
  shows "fold (\<lambda>i. adjust_row (actual i - reserved_delta i) i) items l
    = l\<lparr>current_value := current_value l + on_limit l actual items - on_limit l reserved_delta items\<rparr>"
  using assms
proof (induction items arbitrary: l)
  case (Cons i items)
  show ?case
  proof (cases "item_hits l i")
    case True
    let ?l = "adjust_row (actual i - reserved_delta i) i l"
    have none: "lim_id l \<notin> set (map item_limit items)" using True Cons.prems(1) by (auto simp: item_hits_def)
    then have "filter (item_hits l) items = []" by (force simp: item_hits_def filter_empty_conv image_iff)
    moreover have "?l = l\<lparr>current_value := current_value l + actual i - reserved_delta i\<rparr>"
      using True Cons.prems calculation by (intro adjust_row_hit) (simp_all add: on_limit_def)
    ultimately show ?thesis using True none fold_adjust_untouched [of ?l items] by (simp add: on_limit_def)
  next
    case False
    then show ?thesis using Cons by (simp add: adjust_row_def on_limit_def)
  qed
qed (simp add: on_limit_def)

section \<open>The open reservations after each operation\<close>

lemma open_map:
  assumes "\<And>r. res_id (f r) = res_id r" "\<And>r. r \<in> set rs \<Longrightarrow> res_id r = rid \<Longrightarrow> res_status (f r) \<noteq> ''reserved''"
  shows "map (\<lambda>r. (res_id r, res_items r)) (filter (\<lambda>r. res_status r = ''reserved'')
      (map (\<lambda>r. if res_id r = rid then f r else r) rs))
    = filter (\<lambda>p. fst p \<noteq> rid) (map (\<lambda>r. (res_id r, res_items r)) (filter (\<lambda>r. res_status r = ''reserved'') rs))"
  using assms by (induction rs) auto

lemma open_update:
  assumes "\<And>r. res_id (f r) = res_id r"
    and "\<And>r. r \<in> set (store_reservations s) \<Longrightarrow> res_id r = rid \<Longrightarrow> res_status (f r) \<noteq> ''reserved''"
  shows "open_items (update_reservation rid f s) = filter (\<lambda>p. fst p \<noteq> rid) (open_items s)"
  using open_map [OF assms] by (simp add: open_items_def update_reservation_def)

lemma no_open: "rid \<notin> fst ` set (open_items s) \<Longrightarrow> filter (\<lambda>p. fst p \<noteq> rid) (open_items s) = open_items s"
  by (rule filter_True) force

lemma not_reserved:
  "rid \<notin> fst ` set (open_items s) \<longleftrightarrow> (\<forall>r \<in> set (store_reservations s). res_id r = rid \<longrightarrow> res_status r \<noteq> ''reserved'')"
  by (force simp: open_items_def)

lemma upsert_open:
  "rid \<notin> fst ` set (open_items s) \<Longrightarrow> open_items (upsert_reservation_item_actual rid i a s) = open_items s"
  unfolding upsert_reservation_item_actual_def by (subst open_update) (simp_all add: no_open not_reserved)

lemma open_of_reservations: "store_reservations s = store_reservations t \<Longrightarrow> open_items s = open_items t"
  by (simp add: open_items_def)

lemma fold_settle_open:
  "rid \<notin> fst ` set (open_items s) \<Longrightarrow> open_items (fold (settle_item rid actual) items s) = open_items s"
proof (induction items arbitrary: s)
  case (Cons i items)
  let ?t = "if actual i - reserved_delta i \<noteq> 0
     then snd (adjust_reserved_usage (item_limit i) (actual i - reserved_delta i) (expected_reset_at i) s) else s"
  have "open_items ?t = open_items s" by (rule open_of_reservations) (simp add: adjust_reserved_usage_def)
  then have "open_items (settle_item rid actual i s) = open_items s"
    using upsert_open [of rid ?t i "actual i"] Cons.prems unfolding settle_item_def by simp
  then show ?case using Cons by simp
qed simp

text \<open>The ids of the reservations never change.\<close>

definition res_ids :: "key_store \<Rightarrow> string list" where
  "res_ids s = map res_id (store_reservations s)"

lemma res_ids_update: "(\<And>r. res_id (f r) = res_id r) \<Longrightarrow> res_ids (update_reservation rid f s) = res_ids s"
  by (simp add: res_ids_def update_reservation_def)

lemma res_ids_settle_item [simp]: "res_ids (settle_item rid actual i s) = res_ids s"
  by (simp add: settle_item_def upsert_reservation_item_actual_def res_ids_update) (simp add: res_ids_def adjust_reserved_usage_def)

lemma res_ids_fold_settle [simp]: "res_ids (fold (settle_item rid actual) items s) = res_ids s"
  by (induction items arbitrary: s) simp_all

section \<open>Closing a reservation\<close>

text \<open>What every way of closing a reservation does: the claim, the items, the final status.\<close>

definition closed ::
    "string \<Rightarrow> (reservation_item \<Rightarrow> int) \<Rightarrow> reservation_item list \<Rightarrow> key_store \<Rightarrow> key_store \<Rightarrow> bool" where
  "closed rid actual items s s' =
     (open_items s' = filter (\<lambda>p. fst p \<noteq> rid) (open_items s) \<and> res_ids s' = res_ids s
      \<and> store_limits s' = map (fold (\<lambda>i. adjust_row (actual i - reserved_delta i) i) items) (store_limits s))"

lemma closedI:
  assumes "\<And>r. res_id (f r) = res_id r" "\<And>r. res_id (g r) = res_id r"
    and "\<And>r. r \<in> set (store_reservations s) \<Longrightarrow> res_id r = rid \<Longrightarrow> res_status (f r) \<noteq> ''reserved''"
    and "\<And>r. res_status (g r) \<noteq> ''reserved'' \<or> res_status (g r) = res_status r"
  shows "closed rid actual items s (update_reservation rid g (fold (settle_item rid actual) items (update_reservation rid f s)))"
proof -
  let ?s1 = "update_reservation rid f s" and ?s2 = "fold (settle_item rid actual) items (update_reservation rid f s)"
  have o1: "open_items ?s1 = filter (\<lambda>p. fst p \<noteq> rid) (open_items s)" by (rule open_update [OF assms(1,3)])
  then have o2: "open_items ?s2 = open_items ?s1" by (intro fold_settle_open) auto
  then have "open_items (update_reservation rid g ?s2) = filter (\<lambda>p. fst p \<noteq> rid) (open_items ?s2)"
    using o1 not_reserved [of rid ?s2] by (intro open_update [OF assms(2)]) (use assms(4) in fastforce)
  then show ?thesis using o1 o2 by (simp add: closed_def res_ids_update assms(1,2) fold_settle_limits)
qed

lemma closed_rows:
  assumes "closed rid actual items s s'" "ledger_ok s" "(rid, items) \<in> set (open_items s)"
    and "\<forall>i \<in> set items. 0 \<le> actual i"
  shows "store_limits s' = map (\<lambda>l. l\<lparr>current_value :=
      current_value l + on_limit l actual items - on_limit l reserved_delta items\<rparr>) (store_limits s)"
proof -
  have ok: "items_ok (store_limits s) items" using ledger_okD(3) [OF assms(2,3)] by simp
  have "fold (\<lambda>i. adjust_row (actual i - reserved_delta i) i) items l
    = l\<lparr>current_value := current_value l + on_limit l actual items - on_limit l reserved_delta items\<rparr>"
    if l: "l \<in> set (store_limits s)" for l
  proof (rule fold_adjust_row)
    have "0 \<le> outstanding l (filter (\<lambda>p. fst p \<noteq> rid) (open_items s))"
      using ledger_okD(3) [OF assms(2)] by (intro outstanding_nonneg) auto
    then show "on_limit l reserved_delta items \<le> current_value l"
      using outstanding_split [OF open_items_distinct assms(3)] ledger_okD(2,4) [OF assms(2)] l by fastforce
  qed (use ok assms(4) in \<open>auto simp: items_ok_def\<close>)
  then show ?thesis using assms(1) by (simp add: closed_def)
qed

lemma closed_ledger:
  assumes "closed rid actual items s s'" "ledger_ok s" "(rid, items) \<in> set (open_items s)"
    and "\<forall>i \<in> set items. 0 \<le> actual i"
  shows "ledger_ok s'"
proof -
  note rows = closed_rows [OF assms]
  have op: "open_items s' = filter (\<lambda>p. fst p \<noteq> rid) (open_items s)" and ids: "res_ids s' = res_ids s"
    using assms(1) by (auto simp: closed_def)
  have "outstanding l (open_items s') \<le> current_value l + on_limit l actual items - on_limit l reserved_delta items"
    if "l \<in> set (store_limits s)" for l
    using outstanding_split [OF open_items_distinct assms(3), of l] ledger_okD(2,4) [OF assms(2)] that
      on_limit_nonneg [OF assms(4), of l] by (fastforce simp: op)
  moreover have "items_ok (store_limits s') (snd p)" if "p \<in> set (open_items s')" for p
    using that by (intro items_ok_mono [OF ledger_okD(3) [OF assms(2)]]) (auto simp: op rows)
  ultimately show ?thesis
    using ledger_okD(1,2) [OF assms(2)] ids by (auto simp: ledger_ok_def rows o_def res_ids_def)
qed

section \<open>Settlement, release and the stale sweep\<close>

lemma keys_frame [simp]:
  "open_items (s\<lparr>store_keys := k\<rparr>) = open_items s" "res_ids (s\<lparr>store_keys := k\<rparr>) = res_ids s"
  "ledger_ok (s\<lparr>store_keys := k\<rparr>) = ledger_ok s" "closed rid a items t (s\<lparr>store_keys := k\<rparr>) = closed rid a items t s"
  by (simp_all add: open_items_def res_ids_def ledger_ok_def closed_def)

lemma find_reservation_open:
  assumes "find_reservation rid s = Some r" "res_status r = ''reserved''"
  shows "(rid, res_items r) \<in> set (open_items s)"
    and "list_ex (\<lambda>r. res_id r = rid \<and> res_status r = ''reserved'') (store_reservations s)"
proof -
  have "r \<in> set (store_reservations s)" "res_id r = rid"
    using assms(1) by (auto simp: find_reservation_def find_Some_iff)
  then show "(rid, res_items r) \<in> set (open_items s)"
    "list_ex (\<lambda>r. res_id r = rid \<and> res_status r = ''reserved'') (store_reservations s)"
    using assms(2) by (auto simp: open_items_def list_ex_iff)
qed

definition settled_use :: "string \<Rightarrow> int option \<Rightarrow> int option \<Rightarrow> int option \<Rightarrow> string option \<Rightarrow> int option \<Rightarrow> limit_type \<Rightarrow> int" where
  "settled_use model inp outp cached service_tier cost_override t =
     compute_increment_for_limit_type t (or_default inp 0) (or_default outp 0)
       (or_default cost_override
          (calculate_cost_microdollars model (or_default inp 0) (or_default outp 0) (or_default cached 0) service_tier))"

lemma settle_closed:
  assumes "find_reservation rid s = Some r" "res_status r = ''reserved''" "st \<noteq> ''reserved''"
  shows "closed rid (\<lambda>i. settled_use model inp outp cached service_tier cost (item_limit_type i)) (res_items r) s
    (settle_usage_reservation rid model inp outp cached service_tier st cost now s)"
proof -
  have cost: "(case cost of None \<Rightarrow> c | Some x \<Rightarrow> x) = or_default cost c" for c
    by (cases cost) simp_all
  show ?thesis
    unfolding settle_usage_reservation_def assms(1)
    by (simp add: assms(2) transition_usage_reservation_status_def find_reservation_open(2) [OF assms(1,2)] Let_def
        update_last_used_def settle_reservation_row_def cost flip: settled_use_def)
      (rule closedI; simp add: assms(3))
qed

lemma settle_ignored:
  assumes "\<And>r. find_reservation rid s = Some r \<Longrightarrow> res_status r \<noteq> ''reserved''"
  shows "settle_usage_reservation rid model inp outp cached service_tier st cost now s = s"
    "release_usage_reservation_once rid s = s"
  using assms by (auto simp: settle_usage_reservation_def release_usage_reservation_once_def split: option.split)

lemma release_closed:
  assumes "find_reservation rid s = Some r" "res_status r = ''reserved''"
  shows "closed rid (\<lambda>_. 0) (res_items r) s (release_usage_reservation_once rid s)"
  unfolding release_usage_reservation_once_def assms(1)
  by (simp add: assms(2) transition_usage_reservation_status_def find_reservation_open(2) [OF assms] release_item_settles
      settle_reservation_row_def)
    (rule closedI; simp)

lemma update_reservation_id [simp]: "update_reservation rid (\<lambda>r. r) s = s"
  by (simp add: update_reservation_def)

lemma release_stale_closed:
  assumes "distinct (map res_id (store_reservations s))" "list_ex (\<lambda>r. res_id r = rid \<and> stale cutoff r) (store_reservations s)"
  shows "closed rid (\<lambda>_. 0) items s (snd (release_stale_one cutoff (rid, items) s))"
proof -
  let ?f = "\<lambda>r. if stale cutoff r then r\<lparr>res_status := ''released'', res_usage := (None, None, None, None)\<rparr> else r"
  have "stale cutoff r" if "r \<in> set (store_reservations s)" "res_id r = rid" for r
    using assms that by (auto simp: list_ex_iff distinct_map inj_on_def)
  then have "closed rid (\<lambda>_. 0) items s
      (update_reservation rid (\<lambda>r. r) (fold (settle_item rid (\<lambda>_. 0)) items (update_reservation rid ?f s)))"
    by (intro closedI) auto
  then show ?thesis using assms(2) by (simp add: release_stale_one_def release_item_settles)
qed

lemma release_stale_batch_ledger:
  assumes "ledger_ok s" "distinct (map fst ris)" "set ris \<subseteq> set (open_items s)"
  shows "ledger_ok (snd (release_stale_batch cutoff ris s))"
  using assms
proof (induction ris arbitrary: s)
  case (Cons ri ris)
  obtain rid items where ri: "ri = (rid, items)" by force
  let ?s = "snd (release_stale_one cutoff ri s)"
  have "ledger_ok ?s \<and> set ris \<subseteq> set (open_items ?s)"
  proof (cases "list_ex (\<lambda>r. res_id r = rid \<and> stale cutoff r) (store_reservations s)")
    case True
    note cl = release_stale_closed [OF ledger_okD(2) [OF Cons.prems(1)] True, of items]
    have "ledger_ok ?s" using closed_ledger [OF cl Cons.prems(1)] Cons.prems(3) by (simp add: ri)
    moreover have "open_items ?s = filter (\<lambda>p. fst p \<noteq> rid) (open_items s)" using cl by (simp add: closed_def ri)
    ultimately show ?thesis using Cons.prems(2,3) by (force simp: ri)
  next
    case False
    then show ?thesis using Cons.prems by (simp add: release_stale_one_def ri)
  qed
  then show ?case using Cons.IH [of ?s] Cons.prems(2) by (simp add: case_prod_beta)
qed simp

lemma stale_batch_open:
  assumes "distinct (map res_id (store_reservations s))"
  shows "set (stale_batch n cutoff s) \<subseteq> set (open_items s)" "distinct (map fst (stale_batch n cutoff s))"
proof -
  show "set (stale_batch n cutoff s) \<subseteq> set (open_items s)"
    using set_take_subset [of n "sort_key res_updated (filter (stale cutoff) (store_reservations s))"]
    by (auto simp: stale_batch_def open_items_def stale_def)
  have "distinct (map res_id (sort_key res_updated (filter (stale cutoff) (store_reservations s))))"
    using assms by (auto simp: distinct_map intro: inj_on_subset)
  then show "distinct (map fst (stale_batch n cutoff s))"
    by (simp add: stale_batch_def o_def take_map [symmetric] distinct_take)
qed

lemma release_stale_ledger:
  "ledger_ok s \<Longrightarrow> ledger_ok (snd (release_stale_usage_reservations count n cutoff s))"
proof (induction count n cutoff s rule: release_stale_usage_reservations.induct)
  case (1 count n cutoff s)
  show ?case
  proof (cases "stale_batch n cutoff s")
    case Nil
    then show ?thesis using 1 by (subst release_stale_usage_reservations.simps) simp
  next
    case (Cons ri ris)
    have "ledger_ok (snd (release_stale_batch cutoff (ri # ris) s))"
      using release_stale_batch_ledger [OF 1(2) stale_batch_open(2,1)] ledger_okD(2) [OF 1(2)] Cons by metis
    then show ?thesis using 1(1) [OF Cons] Cons
      by (subst release_stale_usage_reservations.simps) (simp add: case_prod_beta del: release_stale_batch.simps)
  qed
qed

section \<open>Resets\<close>

lemma reset_ledger:
  assumes "ledger_ok s" "expected < new"
  shows "ledger_ok (snd (reset_limit lid expected new s))"
proof -
  let ?f = "\<lambda>l. if lim_id l = lid \<and> lim_reset l = expected then l\<lparr>current_value := 0, lim_reset := new\<rparr> else l"
  let ?s = "snd (reset_limit lid expected new s)"
  have s': "store_limits ?s = map ?f (store_limits s)" "store_reservations ?s = store_reservations s"
    by (simp_all add: reset_limit_def update_limits_def)
  then have op: "open_items ?s = open_items s" by (intro open_of_reservations)
  have ok: "items_ok (store_limits s) (snd p)" if "p \<in> set (open_items s)" for p
    using that by (rule ledger_okD(3) [OF assms(1)])
  have "on_limit (?f l) reserved_delta (snd p) = 0"
    if "l \<in> set (store_limits s)" "lim_id l = lid \<and> lim_reset l = expected" "p \<in> set (open_items s)" for l p
  proof -
    have "\<forall>i \<in> set (snd p). \<not> item_hits (?f l) i"
      using ok [OF that(3)] that(1,2) assms(2) by (force simp: item_hits_def items_ok_def)
    then show ?thesis by (simp add: on_limit_def filter_False)
  qed
  then have "outstanding (?f l) (open_items s) \<le> current_value (?f l)" if "l \<in> set (store_limits s)" for l
    using that ledger_okD(4) [OF assms(1)] by (auto simp: outstanding_def intro!: sum_list_nonpos)
  moreover have "items_ok (store_limits ?s) (snd p)" if "p \<in> set (open_items s)" for p
    using assms(2) by (intro items_ok_mono [OF ok [OF that]]) (auto simp: s')
  moreover have "lim_id (?f l) = lim_id l" for l by simp
  then have "map lim_id (map ?f (store_limits s)) = map lim_id (store_limits s)" by (intro map_equality_iff [THEN iffD2]) simp
  moreover have "outstanding l (open_items s) \<le> current_value l" if "l \<in> set (map ?f (store_limits s))" for l
    using that calculation(1) by (auto simp only: set_map image_iff)
  ultimately show ?thesis
    using ledger_okD(1,2) [OF assms(1)] unfolding ledger_ok_def op s' by (simp only:) blast
qed

lemma lazy_reset_ledger: "ledger_ok s \<Longrightarrow> ledger_ok (snd (lazy_reset_expired_limits ls now s))"
proof (induction ls now s rule: lazy_reset_expired_limits.induct)
  case (2 l ls now s)
  show ?case
  proof (cases "lim_reset l \<ge> now")
    case False
    then have "lim_reset l < advance_limit_reset (lim_reset l) now (lim_window l)"
      using advance_after [of now "lim_reset l" "lim_window l"] by linarith
    then show ?thesis using 2 False by (simp add: Let_def reset_ledger)
  qed (use 2 in simp)
qed simp

lemma reset_batch_ledger:
  "ledger_ok s \<Longrightarrow> \<forall>l \<in> set ls. lim_reset l < now \<Longrightarrow> ledger_ok (snd (reset_batch ls now s))"
proof (induction ls arbitrary: s)
  case (Cons l ls)
  have "lim_reset l < advance_limit_reset (lim_reset l) now (lim_window l)"
    using advance_after [of now "lim_reset l" "lim_window l"] Cons.prems(2) by force
  then show ?case using Cons by (simp add: case_prod_beta reset_ledger)
qed simp

lemma expired_batch_past: "\<forall>l \<in> set (expired_batch now s). lim_reset l < now"
  using expired_batch_in [of now s] by (auto simp: expired_limits_def)

lemma reset_expired_ledger: "ledger_ok s \<Longrightarrow> ledger_ok (snd (reset_expired_limits count now s))"
proof (induction count now s rule: reset_expired_limits.induct)
  case (1 count now s)
  show ?case
  proof (cases "expired_batch now s")
    case Nil
    then show ?thesis using 1 by (subst reset_expired_limits.simps) simp
  next
    case (Cons l ls)
    have "ledger_ok (snd (reset_batch (l # ls) now s))"
      using reset_batch_ledger [OF 1(2)] expired_batch_past [of now s] Cons by metis
    then show ?thesis using 1(1) [OF Cons] Cons
      by (subst reset_expired_limits.simps) (simp add: case_prod_beta del: reset_batch.simps)
  qed
qed

section \<open>Reserving\<close>

lemma normalize_budget_nonneg:
  "0 \<le> fst (normalize_request_usage_budget b)" "0 \<le> snd (normalize_request_usage_budget b)"
  by (auto simp: normalize_request_usage_budget_def normalize_reservation_token_budget_def DEFAULT_INPUT_TOKENS_def
      DEFAULT_OUTPUT_TOKENS_def MAX_TOKEN_BUDGET_def split: option.split)

lemma reserve_cost_nonneg: "0 \<le> reserve_cost_budget_microdollars model service_tier inp outp"
  by (auto simp: reserve_cost_budget_microdollars_def unknown_model_reserve_cost_budget_microdollars_def Let_def
      UNKNOWN_MODEL_MICRODOLLARS_def UNKNOWN_MODEL_BASE_TOKENS_def MAX_TOKEN_BUDGET_def split: option.split)

lemma reserve_delta_bounds:
  assumes "0 \<le> fst budget" "0 \<le> snd budget"
  shows "0 \<le> reserve_delta_for_limit l model service_tier budget"
    and "current_value l < max_value l \<Longrightarrow> current_value l + reserve_delta_for_limit l model service_tier budget \<le> max_value l"
  using assms reserve_cost_nonneg [of model service_tier "fst budget" "snd budget"]
  by (auto simp: reserve_delta_for_limit_def reserve_budget_for_limit_type_def Let_def split: limit_type.split)

definition reserved_item :: "string option \<Rightarrow> string option \<Rightarrow> int \<times> int \<Rightarrow> limit_row \<Rightarrow> reservation_item" where
  "reserved_item model service_tier budget l =
     \<lparr>item_limit = lim_id l, item_limit_type = lim_type l, reserved_delta = reserve_delta_for_limit l model service_tier budget,
      expected_reset_at = lim_reset l, actual_delta = None\<rparr>"

definition charge :: "reservation_item list \<Rightarrow> limit_row \<Rightarrow> limit_row" where
  "charge items l = l\<lparr>current_value := current_value l + on_limit l reserved_delta items\<rparr>"

lemma charge_Nil [simp]: "charge [] = (\<lambda>l. l)"
  by (rule ext) (simp add: charge_def on_limit_def)

lemma charge_Cons: "charge items \<circ> charge [i] = charge (i # items)"
  by (rule ext) (simp add: charge_def on_limit_def)

lemma charge_other: "lim_id l \<noteq> item_limit i \<Longrightarrow> charge [i] l = l"
  by (simp add: charge_def on_limit_def item_hits_def)

lemma charge_fields [simp]:
  "lim_id (charge items l) = lim_id l" "lim_reset (charge items l) = lim_reset l" "max_value (charge items l) = max_value l"
  "current_value (charge items l) = current_value l + on_limit l reserved_delta items"
  "outstanding (charge items l) = outstanding l" "on_limit (charge items l) = on_limit l"
  by (simp_all add: charge_def)

lemma reserve_one:
  assumes "distinct (map lim_id (store_limits s))" "l \<in> set (store_limits s)" "current_value l < max_value l"
    and "0 \<le> fst budget" "0 \<le> snd budget" "delta = reserve_delta_for_limit l model service_tier budget"
  shows "(if delta > 0 then try_reserve_usage (lim_id l) delta (lim_reset l) s else (True, s))
    = (True, s\<lparr>store_limits := map (charge [reserved_item model service_tier budget l]) (store_limits s)\<rparr>)"
proof -
  let ?i = "reserved_item model service_tier budget l"
  have uniq: "r = l" if "r \<in> set (store_limits s)" "lim_id r = lim_id l" for r
    using assms(1,2) that by (auto simp: distinct_map inj_on_def)
  have d: "0 \<le> delta" "current_value l + delta \<le> max_value l"
    using reserve_delta_bounds [OF assms(4,5)] assms(3,6) by auto
  have row: "charge [?i] r = (if lim_id r = lim_id l \<and> lim_reset r = lim_reset l \<and> current_value r + delta \<le> max_value r
      then r\<lparr>current_value := current_value r + delta\<rparr> else r)" if "r \<in> set (store_limits s)" for r
    using uniq [OF that] d(2) assms(6) by (auto simp: charge_def on_limit_def item_hits_def reserved_item_def)
  show ?thesis
  proof (cases "delta > 0")
    case True
    then show ?thesis using d assms(2) row
      by (auto simp: try_reserve_usage_def update_limits_def list_ex_iff intro!: bexI [of _ l])
  next
    case False
    then have "charge [?i] r = r" if "r \<in> set (store_limits s)" for r
      using row [OF that] d(1) by (cases "delta = 0") auto
    then show ?thesis using False by (simp add: map_idI)
  qed
qed

lemma reserve_limits_spec:
  assumes "distinct (map lim_id (store_limits s))" "distinct (map lim_id ls)" "set ls \<subseteq> set (store_limits s)"
    and "0 \<le> fst budget" "0 \<le> snd budget"
  shows "reserve_limits ls model service_tier budget items s =
    (case find (\<lambda>l. limit_applies_for_request l model \<and> max_value l \<le> current_value l) ls of
       Some l \<Rightarrow> Inl (limit_exceeded l)
     | None \<Rightarrow>
         let new = map (reserved_item model service_tier budget) (filter (\<lambda>l. limit_applies_for_request l model) ls)
         in Inr (items @ new, s\<lparr>store_limits := map (charge new) (store_limits s)\<rparr>))"
  using assms(1-3)
proof (induction ls arbitrary: items s)
  case (Cons l ls)
  let ?i = "reserved_item model service_tier budget l"
  let ?s = "s\<lparr>store_limits := map (charge [?i]) (store_limits s)\<rparr>"
  show ?case
  proof (cases "limit_applies_for_request l model \<and> current_value l < max_value l")
    case True
    have "l' \<in> set (store_limits ?s)" if "l' \<in> set ls" for l'
    proof -
      have "lim_id l' \<noteq> lim_id l" using Cons.prems(2) that by (auto simp: image_iff)
      then have "charge [?i] l' = l'" by (intro charge_other) (simp add: reserved_item_def)
      then show ?thesis using that Cons.prems(3) by force
    qed
    then have ih: "reserve_limits ls model service_tier budget (items @ [?i]) ?s =
      (case find (\<lambda>l. limit_applies_for_request l model \<and> max_value l \<le> current_value l) ls of
         Some l \<Rightarrow> Inl (limit_exceeded l)
       | None \<Rightarrow>
           let new = map (reserved_item model service_tier budget) (filter (\<lambda>l. limit_applies_for_request l model) ls)
           in Inr ((items @ [?i]) @ new, ?s\<lparr>store_limits := map (charge new) (store_limits ?s)\<rparr>))"
      using Cons.prems by (intro Cons.IH) (auto simp: o_def)
    have l: "l \<in> set (store_limits s)" "current_value l < max_value l" using True Cons.prems(3) by auto
    have "reserve_limits (l # ls) model service_tier budget items s
        = reserve_limits ls model service_tier budget (items @ [?i]) ?s"
      using True reserve_one [OF Cons.prems(1) l assms(4,5) refl, of model service_tier]
      by (simp add: Let_def reserved_item_def del: charge_Nil)
    then show ?thesis using True ih by (simp add: Let_def charge_Cons split: option.split)
  next
    case False
    have "reserve_limits ls model service_tier budget items s =
      (case find (\<lambda>l. limit_applies_for_request l model \<and> max_value l \<le> current_value l) ls of
         Some l \<Rightarrow> Inl (limit_exceeded l)
       | None \<Rightarrow>
           let new = map (reserved_item model service_tier budget) (filter (\<lambda>l. limit_applies_for_request l model) ls)
           in Inr (items @ new, s\<lparr>store_limits := map (charge new) (store_limits s)\<rparr>))"
      using Cons.prems by (intro Cons.IH) auto
    then show ?thesis using False by (cases "limit_applies_for_request l model") (simp_all add: Let_def split: option.split)
  qed
qed simp

lemma create_open:
  "open_items (create_usage_reservation rid kid model items now s) = open_items s @ [(rid, items)]"
  "store_limits (create_usage_reservation rid kid model items now s) = store_limits s"
  "res_ids (create_usage_reservation rid kid model items now s) = res_ids s @ [rid]"
  by (simp_all add: create_usage_reservation_def open_items_def res_ids_def)

lemma limits_frame [simp]: "open_items (s\<lparr>store_limits := k\<rparr>) = open_items s" "res_ids (s\<lparr>store_limits := k\<rparr>) = res_ids s"
  by (simp_all add: open_items_def res_ids_def)

lemma new_items_ok:
  assumes "distinct (map lim_id (store_limits s))" "0 \<le> fst budget" "0 \<le> snd budget"
  shows "items_ok (store_limits s) (map (reserved_item model service_tier budget) (filter P (limits_of kid s)))"
proof -
  let ?ls = "filter P (limits_of kid s)"
  have sub: "set ?ls \<subseteq> set (store_limits s)" by (auto simp: limits_of_def)
  have "distinct (map lim_id ?ls)"
    using assms(1) by (auto simp: limits_of_def distinct_map intro: inj_on_subset)
  moreover have "lim_reset l = lim_reset k" if "l \<in> set ?ls" "k \<in> set (store_limits s)" "lim_id l = lim_id k" for l k
  proof -
    have "l \<in> set (store_limits s)" using that(1) sub by blast
    then have "l = k" using assms(1) that(2,3) by (auto simp: distinct_map dest: inj_onD)
    then show ?thesis by simp
  qed
  ultimately show ?thesis
    using reserve_delta_bounds(1) [OF assms(2,3)] by (auto simp: items_ok_def reserved_item_def o_def)
qed

text \<open>The decision of a request: what it reserves, and the state the resets left.\<close>

definition after_resets :: "int \<Rightarrow> string \<Rightarrow> key_store \<Rightarrow> key_store" where
  "after_resets now kid s = snd (lazy_reset_expired_limits (limits_of kid s) now s)"

definition exhausted :: "string option \<Rightarrow> limit_row \<Rightarrow> bool" where
  "exhausted model l = (limit_applies_for_request l model \<and> max_value l \<le> current_value l)"

definition request_items ::
    "string \<Rightarrow> string option \<Rightarrow> string option \<Rightarrow> (int option \<times> int option) option \<Rightarrow> key_store \<Rightarrow> reservation_item list" where
  "request_items kid model service_tier budget s =
     map (reserved_item model service_tier (normalize_request_usage_budget budget))
       (filter (\<lambda>l. limit_applies_for_request l model) (limits_of kid s))"

lemma reset_limit_keys [simp]: "store_keys (snd (reset_limit lid e new s)) = store_keys s"
  by (simp add: reset_limit_def update_limits_def)

lemma lazy_reset_keys: "store_keys (snd (lazy_reset_expired_limits ls now s)) = store_keys s"
  by (induction ls now s rule: lazy_reset_expired_limits.induct) (simp_all add: Let_def)

lemma lazy_reset_reservations: "store_reservations (snd (lazy_reset_expired_limits ls now s)) = store_reservations s"
  by (induction ls now s rule: lazy_reset_expired_limits.induct) (simp_all add: Let_def reset_limit_def)

lemma enforce_spec:
  assumes "ledger_ok s"
  shows "enforce_limits_for_request_once now rid kid model service_tier budget s =
    (case valid_key kid now s of Some e \<Rightarrow> (Inl e, s)
     | None \<Rightarrow>
         let t = after_resets now kid s; items = request_items kid model service_tier budget t
         in case find (exhausted model) (limits_of kid t) of
              Some l \<Rightarrow> (Inl (limit_exceeded l), t)
            | None \<Rightarrow> (Inr (items \<noteq> []), create_usage_reservation rid kid (or_default model []) items now
                                        (t\<lparr>store_limits := map (charge items) (store_limits t)\<rparr>)))"
proof -
  let ?t = "after_resets now kid s"
  have "ledger_ok ?t" unfolding after_resets_def by (rule lazy_reset_ledger [OF assms])
  then have d: "distinct (map lim_id (store_limits ?t))" by (rule ledger_okD(1))
  then have "distinct (map lim_id (limits_of kid ?t))" "set (limits_of kid ?t) \<subseteq> set (store_limits ?t)"
    by (auto simp: limits_of_def distinct_map intro: inj_on_subset)
  note spec = reserve_limits_spec [OF d this normalize_budget_nonneg(1,2) [of budget], of model service_tier "[]"]
  have "valid_key kid now ?t = valid_key kid now s" by (simp add: valid_key_def after_resets_def lazy_reset_keys)
  then show ?thesis
    unfolding enforce_limits_for_request_once_def after_resets_def [symmetric]
    by (simp add: Let_def spec request_items_def exhausted_def [abs_def] split: option.split)
qed

lemma outstanding_append: "outstanding l (ps @ [(rid, items)]) = outstanding l ps + on_limit l reserved_delta items"
  by (simp add: outstanding_def)

lemma reserve_ledger:
  assumes "ledger_ok t" "rid \<notin> set (res_ids t)" "items_ok (store_limits t) items"
  shows "ledger_ok (create_usage_reservation rid kid model items now (t\<lparr>store_limits := map (charge items) (store_limits t)\<rparr>))"
proof -
  let ?s = "create_usage_reservation rid kid model items now (t\<lparr>store_limits := map (charge items) (store_limits t)\<rparr>)"
  have op: "open_items ?s = open_items t @ [(rid, items)]" and ls: "store_limits ?s = map (charge items) (store_limits t)"
    and ids: "res_ids ?s = res_ids t @ [rid]" by (simp_all add: create_open)
  have "items_ok (store_limits ?s) (snd p)" if "p \<in> set (open_items ?s)" for p
  proof -
    have "items_ok (store_limits t) (snd p)" using that ledger_okD(3) [OF assms(1), of p] assms(3) by (auto simp: op)
    then show ?thesis by (rule items_ok_mono) (auto simp: ls)
  qed
  moreover have "outstanding l (open_items ?s) \<le> current_value l" if "l \<in> set (store_limits ?s)" for l
    using that ledger_okD(4) [OF assms(1)] by (auto simp: ls op outstanding_append)
  ultimately show ?thesis
    using ledger_okD(1,2) [OF assms(1)] assms(2) ids by (auto simp: ledger_ok_def ls o_def res_ids_def)
qed

lemma enforce_ledger:
  assumes "ledger_ok s" "rid \<notin> set (res_ids s)"
  shows "ledger_ok (snd (enforce_limits_for_request_once now rid kid model service_tier budget s))"
proof -
  let ?t = "after_resets now kid s"
  have t: "ledger_ok ?t" unfolding after_resets_def by (rule lazy_reset_ledger [OF assms(1)])
  have "rid \<notin> set (res_ids ?t)" using assms(2) by (simp add: after_resets_def res_ids_def lazy_reset_reservations)
  moreover have "items_ok (store_limits ?t) (request_items kid model service_tier budget ?t)"
    unfolding request_items_def by (rule new_items_ok [OF ledger_okD(1) [OF t] normalize_budget_nonneg])
  ultimately show ?thesis
    using assms(1) t reserve_ledger [OF t] by (simp add: enforce_spec [OF assms(1)] Let_def split: option.split)
qed

lemma find_snoc: "\<forall>x \<in> set xs. \<not> P x \<Longrightarrow> find P (xs @ [y]) = (if P y then Some y else None)"
  by (induction xs) simp_all

lemma filter_unique: "distinct xs \<Longrightarrow> x \<in> set xs \<Longrightarrow> filter (\<lambda>k. k = x \<and> Q) xs = (if Q then [x] else [])"
  by (induction xs) (auto simp: filter_empty_conv)

lemma request_on_limit:
  assumes "distinct (map lim_id (store_limits t))" "l \<in> set (store_limits t)"
  shows "on_limit l reserved_delta (request_items kid model service_tier budget t) =
    (if lim_key l = kid \<and> limit_applies_for_request l model
     then reserve_delta_for_limit l model service_tier (normalize_request_usage_budget budget) else 0)"
proof -
  let ?b = "normalize_request_usage_budget budget"
  have "item_hits l (reserved_item model service_tier ?b k) = (k = l)" if "k \<in> set (store_limits t)" for k
    using assms that by (auto simp: item_hits_def reserved_item_def distinct_map dest: inj_onD)
  then have "filter (item_hits l \<circ> reserved_item model service_tier ?b) (filter (\<lambda>k. limit_applies_for_request k model) (limits_of kid t))
      = filter (\<lambda>k. k = l \<and> lim_key l = kid \<and> limit_applies_for_request l model) (store_limits t)"
    unfolding limits_of_def filter_filter by (intro filter_cong) auto
  also have "\<dots> = (if lim_key l = kid \<and> limit_applies_for_request l model then [l] else [])"
    using assms by (intro filter_unique) (auto simp: distinct_map)
  finally show ?thesis by (simp add: on_limit_def request_items_def filter_map reserved_item_def)
qed

section \<open>Every interleaving\<close>

lemma rates_cong:
  assumes "uses_priority_tier t = uses_priority_tier t'" "uses_flex_tier t = uses_flex_tier t'"
  shows "effective_rates u p t = effective_rates u p t'"
proof -
  have "flex_rates u p t = flex_rates u p t'" by (simp only: flex_rates_def assms(2))
  then show ?thesis by (simp only: effective_rates_def assms(1))
qed

lemma rates_by_tier:
  "effective_rates u p t \<in> {effective_rates u p None, effective_rates u p (Some ''flex''), effective_rates u p (Some ''priority'')}"
proof -
  have "\<not> (uses_priority_tier t \<and> uses_flex_tier t)" by (auto simp: uses_priority_tier_def uses_flex_tier_def)
  then show ?thesis
    using rates_cong [of t None u p] rates_cong [of t "Some ''flex''" u p] rates_cong [of t "Some ''priority''" u p]
    by (cases "uses_priority_tier t"; cases "uses_flex_tier t") (simp_all add: tier_tests)
qed

lemma default_cost_nonneg:
  assumes "price_sane p" "0 \<le> output_tokens u" "calculate_cost_from_usage (Tokens u) p t = Some usd"
  shows "0 \<le> usd"
proof -
  let ?u = "u\<lparr>cached_input_tokens := clamp_cached (cached_input_tokens u) (input_tokens u)\<rparr>"
  obtain i c w where r: "effective_rates ?u p t = (i, c, w)" by (metis prod_cases3)
  have "rates_sane (effective_rates ?u p t)" using rates_by_tier [of ?u p t] assms(1) unfolding price_sane_def by auto
  then have "0 \<le> c" "0 \<le> i" "0 \<le> w" using r by auto
  moreover have "0 \<le> clamp_cached (cached_input_tokens u) (input_tokens u)" by (simp add: clamp_cached_def)
  ultimately show ?thesis using assms(2,3) r by (auto simp: cost_of_rates)
qed

lemma find_price_default: "find_price name DEFAULT_PRICING_MODELS = Some (k, p) \<Longrightarrow> price_sane p"
  using default_prices_sane by (auto simp: find_price_def find_Some_iff list_all_length)

lemma default_pricing_sane: "get_pricing_for_model model [] [] = Some (k, p) \<Longrightarrow> price_sane p"
  by (auto simp: get_pricing_for_model_def Let_def split: if_splits option.splits dest: find_price_default)

lemma cost_microdollars_nonneg: "0 \<le> outp \<Longrightarrow> 0 \<le> calculate_cost_microdollars model inp outp cached service_tier"
  unfolding calculate_cost_microdollars_def
  by (auto simp: py_int_nonneg split: option.split dest!: default_pricing_sane dest: default_cost_nonneg [rotated 2])

lemma settled_use_nonneg:
  assumes "0 \<le> or_default inp 0" "0 \<le> or_default outp 0" "0 \<le> or_default cost 0"
  shows "0 \<le> settled_use model inp outp cached service_tier cost t"
proof -
  have "0 \<le> or_default cost (calculate_cost_microdollars model (or_default inp 0) (or_default outp 0) (or_default cached 0) service_tier)"
    using assms(2,3) cost_microdollars_nonneg by (cases cost) simp_all
  then show ?thesis using assms by (simp add: settled_use_def compute_increment_for_limit_type_def split: limit_type.split)
qed

datatype key_event =
    Enforce "(operational_error \<times> nat \<times> int) list" int string string "string option" "string option" "(int option \<times> int option) option"
  | Finalize "(operational_error \<times> unit) list" string string int int int "string option" "int option" int
  | Fail "(operational_error \<times> unit) list" string string "int option" "int option" "int option" "string option" int
  | Release "(operational_error \<times> unit) list" string
  | Touch "(operational_error \<times> unit) list" string int
  | Record_usage string string int int int "string option" int
  | Reset_expired int
  | Release_stale nat int

fun key_step :: "key_event \<Rightarrow> key_store \<Rightarrow> key_store" where
  "key_step (Enforce faults now rid kid model tier budget) s = snd (enforce_limits_for_request faults now rid kid model tier budget s)"
| "key_step (Finalize faults rid model inp outp cached tier cost now) s =
     snd (finalize_usage_reservation faults rid model inp outp cached tier cost now s)"
| "key_step (Fail faults rid model inp outp cached tier now) s = snd (fail_usage_reservation faults rid model inp outp cached tier now s)"
| "key_step (Release faults rid) s = snd (release_usage_reservation faults rid s)"
| "key_step (Touch faults rid now) s = snd (touch_reservation faults rid now s)"
| "key_step (Record_usage kid model inp outp cached tier now) s = record_usage kid model inp outp cached tier now s"
| "key_step (Reset_expired now) s = snd (reset_expired_limits 0 now s)"
| "key_step (Release_stale n cutoff) s = snd (release_stale_usage_reservations 0 n cutoff s)"

text \<open>A new reservation has a fresh id, and reported usage is not negative.\<close>

fun key_event_ok :: "key_event \<Rightarrow> key_store \<Rightarrow> bool" where
  "key_event_ok (Enforce faults now rid kid model tier budget) s = (rid \<notin> set (res_ids s))"
| "key_event_ok (Finalize faults rid model inp outp cached tier cost now) s = (0 \<le> inp \<and> 0 \<le> outp \<and> 0 \<le> or_default cost 0)"
| "key_event_ok (Fail faults rid model inp outp cached tier now) s = (0 \<le> or_default inp 0 \<and> 0 \<le> or_default outp 0)"
| "key_event_ok _ s = True"

text \<open>What holds of the store, survives a failed attempt and is kept by the body holds after the retries.\<close>

lemma busy_retry_keeps:
  assumes "P s" "\<And>f s. P s \<Longrightarrow> P (failed f s)" "\<And>s. P s \<Longrightarrow> P (snd (body s))"
  shows "P (snd (busy_retry n faults failed body s))"
  using assms(1)
proof (induction faults arbitrary: n s)
  case (Cons f fs)
  then show ?case using assms(2) by (cases f) simp
qed (simp add: case_prod_beta assms(3))

text \<open>Fewer than four locked attempts are invisible.\<close>

lemma retried_through:
  assumes "length faults < SQLITE_BUSY_RETRY_ATTEMPTS" "\<forall>f \<in> set faults. fst f = Database_locked"
  shows "retried faults body s = (Inr (fst (body s)), snd (body s))"
proof -
  have "length faults < n \<Longrightarrow> busy_retry n faults (\<lambda>_ s. s) body s = (Inr (fst (body s)), snd (body s))" for n
    using assms(2)
  proof (induction faults arbitrary: n)
    case (Cons f fs)
    then show ?case by (cases f) simp
  qed (simp add: case_prod_beta)
  then show ?thesis using assms(1) by (simp add: retried_def)
qed

lemma settle_ledger:
  assumes "ledger_ok s" "st \<noteq> ''reserved''" "0 \<le> or_default inp 0" "0 \<le> or_default outp 0" "0 \<le> or_default cost 0"
  shows "ledger_ok (settle_usage_reservation rid model inp outp cached service_tier st cost now s)"
proof (cases "\<exists>r. find_reservation rid s = Some r \<and> res_status r = ''reserved''")
  case True
  then obtain r where r: "find_reservation rid s = Some r" "res_status r = ''reserved''" by blast
  show ?thesis
    by (rule closed_ledger [OF settle_closed [OF r assms(2)] assms(1) find_reservation_open(1) [OF r]])
      (simp add: settled_use_nonneg assms(3-5))
qed (use assms settle_ignored in auto)

lemma release_ledger:
  assumes "ledger_ok s"
  shows "ledger_ok (release_usage_reservation_once rid s)"
proof (cases "\<exists>r. find_reservation rid s = Some r \<and> res_status r = ''reserved''")
  case True
  then obtain r where r: "find_reservation rid s = Some r" "res_status r = ''reserved''" by blast
  show ?thesis by (rule closed_ledger [OF release_closed [OF r] assms find_reservation_open(1) [OF r]]) simp
qed (use assms settle_ignored in auto)

lemma ledger_cong:
  "open_items s = open_items t \<Longrightarrow> res_ids s = res_ids t \<Longrightarrow> store_limits s = store_limits t \<Longrightarrow> ledger_ok s = ledger_ok t"
  by (simp add: ledger_ok_def flip: res_ids_def)

lemma touch_open: "open_items (snd (touch_usage_reservation rid now s)) = open_items s"
proof -
  have "map (\<lambda>r. (res_id r, res_items r)) (filter (\<lambda>r. res_status r = ''reserved'')
        (map (\<lambda>r. if res_id r = rid then (if res_status r = ''reserved'' then r\<lparr>res_updated := now\<rparr> else r) else r) rs))
      = map (\<lambda>r. (res_id r, res_items r)) (filter (\<lambda>r. res_status r = ''reserved'') rs)" for rs
    by (induction rs) simp_all
  then show ?thesis by (simp add: open_items_def touch_usage_reservation_def update_reservation_def)
qed

lemma touch_ledger: "ledger_ok s \<Longrightarrow> ledger_ok (snd (touch_usage_reservation rid now s))"
  using ledger_cong [OF touch_open, of rid now s] by (simp add: touch_usage_reservation_def res_ids_update)

lemma increment_ledger: "ledger_ok s \<Longrightarrow> ledger_ok (increment_limit_usage kid model inp outp cost now s)"
proof -
  assume ok: "ledger_ok s"
  define f :: "limit_row \<Rightarrow> limit_row" where "f = (\<lambda>l. if lim_key l = kid \<and> (model_filter l = None \<or> model_filter l = Some model)
      \<and> compute_increment_for_limit_type (lim_type l) inp outp cost > 0
    then l\<lparr>current_value := current_value l + compute_increment_for_limit_type (lim_type l) inp outp cost\<rparr> else l)"
  have f: "lim_id (f l) = lim_id l" "lim_reset (f l) = lim_reset l" "outstanding (f l) = outstanding l"
    "current_value l \<le> current_value (f l)" for l by (simp_all add: f_def)
  have "items_ok (map f (store_limits s)) (snd p)" if "p \<in> set (open_items s)" for p
    using ledger_okD(3) [OF ok that] by (rule items_ok_mono) (auto simp: f)
  then have "ledger_ok (s\<lparr>store_limits := map f (store_limits s)\<rparr>)"
    using ledger_okD(1,2,4) [OF ok] order_trans [OF _ f(4)] unfolding ledger_ok_def by (simp add: f o_def)
  then show "ledger_ok (increment_limit_usage kid model inp outp cost now s)"
    unfolding increment_limit_usage_def Let_def f_def by simp
qed

lemma retried_ledger:
  assumes "ledger_ok s" "\<And>s. ledger_ok s \<Longrightarrow> ledger_ok (snd (body s))"
  shows "ledger_ok (snd (retried faults body s))"
  unfolding retried_def using assms by (intro busy_retry_keeps [where P = ledger_ok])

text \<open>A failed enforcement keeps the ids too, so that the reservation id stays fresh.\<close>

lemma enforce_failed_keeps:
  "ledger_ok s \<Longrightarrow> ledger_ok (enforce_failed kid ft s)" "res_ids (enforce_failed kid ft s) = res_ids s"
  by (auto simp: enforce_failed_def case_prod_beta lazy_reset_ledger res_ids_def lazy_reset_reservations)

lemma enforce_retried_ledger:
  assumes "ledger_ok s" "rid \<notin> set (res_ids s)"
  shows "ledger_ok (snd (enforce_limits_for_request faults now rid kid model tier budget s))"
proof -
  have "ledger_ok s \<and> rid \<notin> set (res_ids s) \<Longrightarrow>
      ledger_ok (snd (busy_retry n faults (enforce_failed kid) (enforce_limits_for_request_once now rid kid model tier budget) s))" for n
    by (induction n faults "enforce_failed kid" "enforce_limits_for_request_once now rid kid model tier budget" s
        rule: busy_retry.induct)
      (simp_all add: case_prod_beta enforce_ledger enforce_failed_keeps)
  then show ?thesis using assms by (simp add: enforce_limits_for_request_def)
qed

lemma key_step_ledger: "ledger_ok s \<Longrightarrow> key_event_ok e s \<Longrightarrow> ledger_ok (key_step e s)"
  by (cases e) (simp_all add: enforce_retried_ledger finalize_usage_reservation_def fail_usage_reservation_def
      release_usage_reservation_def touch_reservation_def record_usage_def retried_ledger settle_ledger release_ledger
      touch_ledger increment_ledger reset_expired_ledger release_stale_ledger)

interpretation ledger: event_system ledger_ok key_event_ok key_step
  by unfold_locales (rule key_step_ledger)

section \<open>Properties\<close>

text \<open>
  C4. The ledger covers what is reserved: from a store with no reservations, whatever requests,
  settlements, failures, releases, touches, direct recordings and sweeps interleave, with any
  SQLite faults, every limit's counter is at least the sum of the amounts open reservations hold
  on its present window; so no counter is negative and each reservation can be given back.
\<close>

theorem ledger_covers_reservations:
  assumes "distinct (map lim_id (store_limits s))" "store_reservations s = []"
    and "\<forall>l \<in> set (store_limits s). 0 \<le> current_value l" "valid_run key_event_ok key_step es s"
    and "l \<in> set (store_limits (fold key_step es s))"
  shows "0 \<le> outstanding l (open_items (fold key_step es s))
    \<and> outstanding l (open_items (fold key_step es s)) \<le> current_value l"
proof -
  have "ledger_ok s" using assms(1-3) by (simp add: ledger_ok_def open_items_def outstanding_def)
  then have "ledger_ok (fold key_step es s)" by (rule ledger.run_inv) (rule assms(4))
  from ledger_okD(3,4) [OF this] show ?thesis using assms(5) by (auto intro!: outstanding_nonneg)
qed


text \<open>
  C27. A release undoes a reservation: releasing the reservation a request has just made puts every
  limit back to where it stood after the request's own window resets.
\<close>

theorem release_undoes_reservation:
  assumes "ledger_ok s" "rid \<notin> set (res_ids s)"
    and "enforce_limits_for_request_once now rid kid model service_tier budget s = (Inr ok, s')"
  shows "store_limits (release_usage_reservation_once rid s') = store_limits (after_resets now kid s)"
proof -
  let ?t = "after_resets now kid s"
  let ?items = "request_items kid model service_tier budget ?t"
  have s': "s' = create_usage_reservation rid kid (or_default model []) ?items now
      (?t\<lparr>store_limits := map (charge ?items) (store_limits ?t)\<rparr>)"
    using assms(3) by (auto simp: enforce_spec [OF assms(1)] Let_def split: option.splits)
  have ids: "rid \<notin> set (res_ids ?t)" using assms(2) by (simp add: after_resets_def res_ids_def lazy_reset_reservations)
  then have "\<forall>r \<in> set (store_reservations ?t). res_id r \<noteq> rid" by (auto simp: res_ids_def)
  then obtain r where r: "find_reservation rid s' = Some r" "res_status r = ''reserved''" "res_items r = ?items"
    by (simp add: s' create_usage_reservation_def find_reservation_def find_snoc)
  have ok: "ledger_ok s'" using enforce_ledger [OF assms(1,2), of now kid model service_tier budget] assms(3) by simp
  note rows = closed_rows [OF release_closed [OF r(1,2)] ok find_reservation_open(1) [OF r(1,2)]]
  have "on_limit l (\<lambda>_. 0) ?items = 0" for l by (simp add: on_limit_def)
  then show ?thesis using rows r(3) by (simp add: s' create_open(2) o_def charge_def)
qed



section \<open>Witnesses\<close>

definition w_limit :: limit_row where
  "w_limit = \<lparr>lim_id = 1, lim_key = ''k'', lim_type = TOTAL_TOKENS, lim_window = DAILY, max_value = 20000,
     current_value = 100, model_filter = None, lim_reset = 500\<rparr>"

definition w_keys :: key_store where
  "w_keys = \<lparr>store_keys = [\<lparr>key_id = ''k'', is_active = True, expires_at = None, last_used_at = None\<rparr>],
     store_limits = [w_limit], store_reservations = []\<rparr>"

definition w_open :: key_store where
  "w_open = snd (enforce_limits_for_request_once 400 ''r'' ''k'' None None None w_keys)"

lemma w_open_eval:
  "w_open = w_keys\<lparr>store_limits := [w_limit\<lparr>current_value := 10340\<rparr>],
     store_reservations := [\<lparr>res_id = ''r'', res_key = ''k'', res_model = [], res_status = ''reserved'',
       res_items = [\<lparr>item_limit = 1, item_limit_type = TOTAL_TOKENS, reserved_delta = 10240, expected_reset_at = 500,
         actual_delta = None\<rparr>], res_updated = 400, res_usage = (None, None, None, None)\<rparr>]\<rparr>"
  by code_simp

lemma w_ledgers: "ledger_ok w_keys" "ledger_ok w_open"
  by code_simp+

theorem ledger_covers_reservations_witness:
  "store_limits (fold key_step [Enforce [] 400 ''r'' ''k'' None None None] w_keys) = [w_limit\<lparr>current_value := 10340\<rparr>]
   \<and> outstanding (w_limit\<lparr>current_value := 10340\<rparr>) (open_items w_open) \<le> 10340"
proof -
  have run: "fold key_step [Enforce [] 400 ''r'' ''k'' None None None] w_keys = w_open"
    by (simp add: enforce_limits_for_request_def w_open_def case_prod_beta)
  have "valid_run key_event_ok key_step [Enforce [] 400 ''r'' ''k'' None None None] w_keys"
    by (simp add: w_keys_def res_ids_def)
  with ledger_covers_reservations [of w_keys "[Enforce [] 400 ''r'' ''k'' None None None]" "w_limit\<lparr>current_value := 10340\<rparr>"]
  show ?thesis unfolding run by (simp add: w_open_eval) (simp add: w_keys_def w_limit_def)
qed


theorem release_undoes_reservation_witness:
  "store_limits (release_usage_reservation_once ''r'' w_open) = [w_limit]"
proof -
  have e: "enforce_limits_for_request_once 400 ''r'' ''k'' None None None w_keys = (Inr True, w_open)"
    unfolding w_open_eval by code_simp
  have "store_limits (after_resets 400 ''k'' w_keys) = [w_limit]" by code_simp
  with release_undoes_reservation [OF w_ledgers(1) _ e] show ?thesis by (simp add: res_ids_def w_keys_def)
qed



end
