(* ===== verification/Budget_Selection.thy ===== *)
theory Budget_Selection
  imports Balancer_Select_More Leases
begin

text \<open>
  The selection stage between the load balancer and the selector, from
  \<open>modules/proxy/_load_balancer/sticky_selection.py\<close>: the filter for accounts at their concurrency
  cap, the recovery-probe tests, and \<open>_select_account_preferring_budget_safe\<close>, which calls the
  selector on one part of the pool after another. Every call updates the states it is given, so
  the pool after a call is the pool with the updated part put back. Each call reads its own clock
  and random numbers: \<open>envs\<close> gives them by the number of the call.
\<close>

section \<open>Caps and probes\<close>

definition filter_states_for_account_caps ::
    "account_state list \<Rightarrow> lease_kind option \<Rightarrow> account_concurrency_caps \<Rightarrow> int \<Rightarrow> account_state list" where
  "filter_states_for_account_caps states kind caps stream_reserve_slots =
     (case kind of
        None \<Rightarrow> states
      | Some Response_create \<Rightarrow>
          filter (\<lambda>s. \<not> (response_create_limit caps > 0 \<and> inflight_response_creates s \<ge> response_create_limit caps)) states
      | Some Stream \<Rightarrow>
          (let effective_cap = max 1 (stream_limit caps - max 0 stream_reserve_slots)
           in filter (\<lambda>s. \<not> (stream_limit caps > 0 \<and> inflight_streams s \<ge> effective_cap)) states))"

definition classify_request :: "traffic_class \<Rightarrow> selection_request" where
  "classify_request tc =
     default_request\<lparr>routing_strategy := Single_account, allow_backoff_fallback := False, traffic_class := tc\<rparr>"

text \<open>The classification runs on copies; only the salt cache of the module can change.\<close>

definition pool_has_available_account_without_backoff ::
    "selection_env \<Rightarrow> traffic_class \<Rightarrow> account_state list \<Rightarrow> salt_state \<Rightarrow> bool result \<times> salt_state" where
  "pool_has_available_account_without_backoff env tc states salts =
     (let r = select_account env (classify_request tc) (Some (wall_clock env)) states salts
      in (bind (out_result r) (\<lambda>res. Inr (account res \<noteq> None)), out_salts r))"

definition pool_has_available_healthy_account_without_backoff ::
    "selection_env \<Rightarrow> traffic_class \<Rightarrow> account_state list \<Rightarrow> salt_state \<Rightarrow> bool result \<times> salt_state" where
  "pool_has_available_healthy_account_without_backoff env tc states =
     pool_has_available_account_without_backoff env tc (filter (\<lambda>s. health_tier s = HEALTH_TIER_HEALTHY) states)"

definition drain_strategy :: "routing_strategy \<Rightarrow> bool" where
  "drain_strategy rs = (rs \<in> {Sequential_drain, Reset_drain, Single_account})"

definition probing_result_requires_recovery_reservation ::
    "selection_env \<Rightarrow> account_state list \<Rightarrow> account_state option \<Rightarrow> routing_strategy \<Rightarrow> traffic_class \<Rightarrow> salt_state
     \<Rightarrow> bool result \<times> salt_state" where
  "probing_result_requires_recovery_reservation env states result_account rs tc salts =
     (if drain_strategy rs then (Inr False, salts)
      else case result_account of
        None \<Rightarrow> (Inr False, salts)
      | Some a \<Rightarrow>
          (if health_tier a \<noteq> HEALTH_TIER_PROBING then (Inr False, salts)
           else pool_has_available_healthy_account_without_backoff env tc states salts))"

definition filter_recovery_probe_candidates ::
    "selection_env \<Rightarrow> account_state list \<Rightarrow> traffic_class \<Rightarrow> salt_state \<Rightarrow> account_state list result \<times> salt_state" where
  "filter_recovery_probe_candidates env states tc salts =
     (case pool_has_available_healthy_account_without_backoff env tc states salts of
        (b, salts') \<Rightarrow>
          (bind b (\<lambda>healthy. Inr (if healthy then filter (\<lambda>s. health_tier s \<noteq> HEALTH_TIER_PROBING) states else states)),
           salts'))"

definition account_cap_error_code :: "lease_kind option \<Rightarrow> string option" where
  "account_cap_error_code kind =
     (case kind of Some Response_create \<Rightarrow> Some ''account_response_create_cap'' | Some Stream \<Rightarrow> Some ''account_stream_cap''
      | None \<Rightarrow> None)"

definition string_of_int :: "int \<Rightarrow> string" where
  "string_of_int n = (if n < 0 then ''-'' @ string_of_nat (nat (- n)) else string_of_nat (nat n))"

definition account_cap_error_message :: "lease_kind option \<Rightarrow> account_concurrency_caps \<Rightarrow> string" where
  "account_cap_error_message kind caps =
     (let advice = ''Increase the dashboard stream limit or wait for active streams to finish.'';
          share = (\<lambda>cap total. ''this replica's share is '' @ string_of_int cap @ '' of the per-account limit ''
                     @ string_of_int total @ '' across '' @ string_of_int (caps_replica_count caps) @ '' replicas'')
      in case kind of
           Some Response_create \<Rightarrow>
             (case configured_response_create_limit caps of
                Some t \<Rightarrow>
                  (if caps_replica_count caps > 1
                   then ''Account response-create capacity is exhausted; '' @ share (response_create_limit caps) t
                   else ''Account response-create capacity is exhausted; per-account limit is ''
                          @ string_of_int (response_create_limit caps))
              | None \<Rightarrow> ''Account response-create capacity is exhausted; per-account limit is ''
                          @ string_of_int (response_create_limit caps))
         | Some Stream \<Rightarrow>
             (case configured_stream_limit caps of
                Some t \<Rightarrow>
                  (if caps_replica_count caps > 1
                   then ''Account stream capacity is exhausted; '' @ share (stream_limit caps) t @ ''. '' @ advice
                   else ''Account stream capacity is exhausted; per-account limit is ''
                          @ string_of_int (stream_limit caps) @ ''. '' @ advice)
              | None \<Rightarrow> ''Account stream capacity is exhausted; per-account limit is ''
                          @ string_of_int (stream_limit caps) @ ''. '' @ advice)
         | None \<Rightarrow> ''Account capacity is exhausted'')"

section \<open>Budget thresholds\<close>

definition above :: "real option \<Rightarrow> real \<Rightarrow> bool" where
  "above used threshold = (case used of None \<Rightarrow> False | Some u \<Rightarrow> u > threshold)"

definition first_some :: "'a option \<Rightarrow> 'a option \<Rightarrow> 'a option" where
  "first_some a b = (case a of None \<Rightarrow> b | Some x \<Rightarrow> Some x)"

definition state_above_budget_threshold :: "account_state \<Rightarrow> real \<Rightarrow> bool" where
  "state_above_budget_threshold s budget_threshold_pct =
     above (first_some (priority_used_percent s) (used_percent s)) budget_threshold_pct"

definition state_above_sticky_budget_threshold :: "account_state \<Rightarrow> real \<Rightarrow> real option \<Rightarrow> bool" where
  "state_above_sticky_budget_threshold s budget_threshold_pct secondary_budget_threshold_pct =
     (let secondary_threshold = or_default secondary_budget_threshold_pct budget_threshold_pct;
          used = first_some (priority_used_percent s) (used_percent s);
          secondary_used =
            (if limit_scoped_usage s \<and> priority_secondary_used_percent s = None then used
             else first_some (priority_secondary_used_percent s) (secondary_used_percent s))
      in above used budget_threshold_pct \<or> above secondary_used secondary_threshold)"

section \<open>Selection in stages\<close>

record budget_request =
  b_prefer_earlier_reset :: bool
  b_reset_window :: reset_window
  b_strategy :: routing_strategy
  b_power :: real
  b_top_k :: int
  b_threshold :: real
  b_secondary_threshold :: real
  b_apply_secondary :: bool
  b_allow_backoff_fallback :: bool
  b_deterministic_probe :: bool
  b_traffic_class :: traffic_class
  b_ignore_standard_quota :: bool
  b_routing_costs :: routing_costs

definition stage_request :: "budget_request \<Rightarrow> selection_request" where
  "stage_request b =
     default_request\<lparr>prefer_earlier_reset := b_prefer_earlier_reset b, prefer_earlier_reset_window := b_reset_window b,
       routing_strategy := b_strategy b, allow_backoff_fallback := b_allow_backoff_fallback b,
       deterministic_probe := b_deterministic_probe b, relative_availability_power := b_power b,
       relative_availability_top_k := b_top_k b, traffic_class := b_traffic_class b,
       request_ignore_standard_quota := b_ignore_standard_quota b, routing_costs := b_routing_costs b\<rparr>"

definition over_budget :: "budget_request \<Rightarrow> account_state \<Rightarrow> bool" where
  "over_budget b s =
     (if b_apply_secondary b then state_above_sticky_budget_threshold s (b_threshold b) (Some (b_secondary_threshold b))
      else state_above_budget_threshold s (b_threshold b))"

definition budget_safe :: "budget_request \<Rightarrow> account_state \<Rightarrow> bool" where
  "budget_safe b s = (routing_policy s \<noteq> ROUTING_POLICY_PRESERVE \<and> \<not> over_budget b s)"

definition best_health_tier :: "account_state list \<Rightarrow> account_state \<Rightarrow> bool" where
  "best_health_tier states s =
     (if tier_of HEALTH_TIER_HEALTHY states \<noteq> [] then health_tier s = HEALTH_TIER_HEALTHY
      else if tier_of HEALTH_TIER_PROBING states \<noteq> [] then health_tier s = HEALTH_TIER_PROBING
      else if tier_of HEALTH_TIER_DRAINING states \<noteq> [] then health_tier s = HEALTH_TIER_DRAINING
      else True)"

fun put_back :: "('a \<Rightarrow> bool) \<Rightarrow> 'a list \<Rightarrow> 'a list \<Rightarrow> 'a list" where
  "put_back P [] ys = []"
| "put_back P (x # xs) ys =
     (if P x then (case ys of [] \<Rightarrow> x # put_back P xs [] | y # ys' \<Rightarrow> y # put_back P xs ys')
      else x # put_back P xs ys)"

text \<open>One call of the selector on the part of the pool that satisfies \<open>P\<close>.\<close>

definition select_part ::
    "selection_env \<Rightarrow> selection_request \<Rightarrow> (account_state \<Rightarrow> bool) \<Rightarrow> account_state list \<Rightarrow> salt_state \<Rightarrow> selection_outcome" where
  "select_part env req P states salts =
     (let r = select_account env req None (filter P states) salts
      in r\<lparr>out_states := put_back P states (out_states r)\<rparr>)"

definition decided :: "selection_outcome \<Rightarrow> bool" where
  "decided r = (case out_result r of Inl e \<Rightarrow> True | Inr res \<Rightarrow> account res \<noteq> None)"

definition fallback_stage :: "selection_env \<Rightarrow> budget_request \<Rightarrow> account_state list \<Rightarrow> salt_state \<Rightarrow> selection_outcome" where
  "fallback_stage env b states salts =
     (if b_strategy b = Usage_weighted \<and> states \<noteq> []
      then select_part env ((stage_request b)\<lparr>usage_weighted_order := Primary_first,
             relative_availability_power := relative_availability_power default_request,
             relative_availability_top_k := relative_availability_top_k default_request\<rparr>) (\<lambda>_. True) states salts
      else select_part env (stage_request b) (\<lambda>_. True) states salts)"

definition preferred_stage ::
    "(nat \<Rightarrow> selection_env) \<Rightarrow> budget_request \<Rightarrow> account_state list \<Rightarrow> salt_state \<Rightarrow> selection_outcome" where
  "preferred_stage envs b states salts =
     (if filter (budget_safe b) states = [] then fallback_stage (envs 3) b states salts
      else
        let r = select_part (envs 2) (stage_request b) (budget_safe b) states salts
        in if decided r \<or> length (filter (budget_safe b) states) = length states then r
           else fallback_stage (envs 3) b (out_states r) (out_salts r))"

definition burn_first_part :: "account_state list \<Rightarrow> account_state \<Rightarrow> bool" where
  "burn_first_part states s = (best_health_tier states s \<and> routing_policy s = ROUTING_POLICY_BURN_FIRST)"

definition burn_first_stage ::
    "(nat \<Rightarrow> selection_env) \<Rightarrow> budget_request \<Rightarrow> account_state list \<Rightarrow> salt_state \<Rightarrow> selection_outcome" where
  "burn_first_stage envs b states salts =
     (if filter (burn_first_part states) states = [] then preferred_stage envs b states salts
      else
        let r = select_part (envs 1) ((stage_request b)\<lparr>allow_backoff_fallback := False\<rparr>) (burn_first_part states) states salts
        in if decided r then r else preferred_stage envs b (out_states r) (out_salts r))"

definition select_account_preferring_budget_safe ::
    "(nat \<Rightarrow> selection_env) \<Rightarrow> budget_request \<Rightarrow> account_state list \<Rightarrow> salt_state \<Rightarrow> selection_outcome" where
  "select_account_preferring_budget_safe envs b states salts =
     (if drain_strategy (b_strategy b)
      then (if filter (budget_safe b) states = []
            then select_part (envs 0) (stage_request b) (\<lambda>_. True) states salts
            else select_part (envs 0) (stage_request b) (budget_safe b) states salts)
      else
        let probe = select_part (envs 0) ((stage_request b)\<lparr>recovery_probe_only := True\<rparr>) (\<lambda>_. True) states salts
        in if decided probe then probe
           else burn_first_stage envs b (out_states probe) (out_salts probe))"

section \<open>Parts of the pool\<close>

lemma put_back_all2:
  assumes "list_all2 R (filter P xs) ys" "\<And>x. R x x"
  shows "list_all2 R xs (put_back P xs ys)"
  using assms(1)
proof (induction xs arbitrary: ys)
  case (Cons x xs)
  then show ?case by (cases "P x"; cases ys) (auto simp: assms(2))
qed simp

lemma put_back_part: "length ys = length (filter P xs) \<Longrightarrow> set ys \<subseteq> set (put_back P xs ys)"
proof (induction xs arbitrary: ys)
  case (Cons x xs)
  show ?case
  proof (cases "P x")
    case True
    then show ?thesis using Cons by (cases ys) auto
  next
    case False
    then show ?thesis using Cons.IH [of ys] Cons.prems by auto
  qed
qed simp

text \<open>What a selector call may do to a state: keep its identity, and leave it alone when it is usable.\<close>

definition improves :: "account_state \<Rightarrow> account_state \<Rightarrow> bool" where
  "improves s s' =
     (account_id s' = account_id s \<and> routing_policy s' = routing_policy s \<and> health_tier s' = health_tier s
      \<and> (usable s \<longrightarrow> s' = s))"

lemma improves_refl: "improves s s"
  by (simp add: improves_def)

lemma improves_trans: "improves s t \<Longrightarrow> improves t u \<Longrightarrow> improves s u"
  by (auto simp: improves_def)

lemma admit_improves: "improves s (fst (admit_state req t s))"
  by (simp add: improves_def admit_usable)

lemma pool_improves_trans: "list_all2 improves xs ys \<Longrightarrow> list_all2 improves ys zs \<Longrightarrow> list_all2 improves xs zs"
  by (rule list_all2_trans [OF improves_trans])

lemma select_part_states: "list_all2 improves states (out_states (select_part env req P states salts))"
proof -
  have "list_all2 improves (filter P states) (map (fst \<circ> admit_state req (current_time env None)) (filter P states))"
    by (simp add: list_all2_map2 list_all2_same admit_improves)
  then show ?thesis by (simp add: select_part_def Let_def out_states_select put_back_all2 improves_refl)
qed

lemma usable_stays:
  assumes "list_all2 improves xs ys" "s \<in> set xs" "usable s"
  shows "s \<in> set ys"
proof -
  obtain i where i: "i < length xs" "xs ! i = s" using assms(2) by (auto simp: in_set_conv_nth)
  then have "ys ! i = s" "i < length ys" using assms(1,3) by (auto simp: list_all2_conv_all_nth improves_def)
  then show ?thesis by (metis nth_mem)
qed

text \<open>\<open>random.random()\<close> lies in [0, 1).\<close>

definition sound_env :: "selection_env \<Rightarrow> bool" where
  "sound_env env = (0 \<le> random_draw env \<and> random_draw env < 1)"

definition sound_envs :: "(nat \<Rightarrow> selection_env) \<Rightarrow> bool" where
  "sound_envs envs = (\<forall>n. sound_env (envs n))"

lemma sound_envsD [simp]: "sound_envs envs \<Longrightarrow> sound_env (envs n)"
  by (simp add: sound_envs_def)

lemma select_part_selected:
  assumes "sound_env env" "out_result (select_part env req P states salts) = Inr r" "account r = Some a"
  obtains x where "x \<in> set states" "P x" "a = fst (admit_state req (current_time env None) x)"
    "a \<in> set (out_states (select_part env req P states salts))" "routable req a"
proof -
  let ?t = "current_time env None"
  have r: "out_result (select_account env req None (filter P states) salts) = Inr r"
    using assms(2) by (simp add: select_part_def Let_def)
  obtain ys salt where ys: "selection_pool req ?t (filter P states) = Pool ys" "a \<in> set ys"
    using selected_in_pool [OF _ _ r assms(3)] assms(1) by (auto simp: sound_env_def)
  obtain x where x: "x \<in> set (filter P states)" "a = fst (admit_state req ?t x)"
    using selection_pool_member [OF ys] by metis
  have "a \<in> set (put_back P states (map (fst \<circ> admit_state req ?t) (filter P states)))"
    using put_back_part [of "map (fst \<circ> admit_state req ?t) (filter P states)" P states] x by auto
  then show ?thesis using that [of x] x selection_pool_routable [OF ys]
    by (simp add: select_part_def Let_def out_states_select)
qed

lemma select_part_total: "sound_env env \<Longrightarrow> \<exists>r. out_result (select_part env req P states salts) = Inr r"
  by (cases rule: select_account_outcome [of env req None "filter P states" salts])
    (auto simp: sound_env_def select_part_def Let_def)

lemma select_part_finds:
  assumes "sound_env env" "s \<in> set states" "P s" "usable s" "traffic_class req = Foreground" "\<not> recovery_probe_only req"
  shows "decided (select_part env req P states salts)"
proof -
  obtain ys where ys: "selection_pool req (current_time env None) (filter P states) = Pool ys"
    using selection_pool_usable [of s "filter P states" req] assms(2-5) by auto
  have e: "0 \<le> random_draw env" "random_draw env < 1" using assms(1) by (auto simp: sound_env_def)
  show ?thesis
    using ys assms(6) by (cases rule: select_account_outcome [OF e, of req None "filter P states" salts])
      (auto simp: decided_def select_part_def Let_def split: option.splits)
qed

lemma stage_fields [simp]:
  "traffic_class (stage_request b) = b_traffic_class b" "recovery_probe_only (stage_request b) = False"
  "routing_strategy (stage_request b) = b_strategy b"
  by (simp_all add: stage_request_def default_request_def)

lemma routable_stage [simp]:
  "routable (req\<lparr>usage_weighted_order := u, relative_availability_power := p, relative_availability_top_k := k\<rparr>) a = routable req a"
  "routable (req\<lparr>allow_backoff_fallback := f\<rparr>) a = routable req a"
  "routable (req\<lparr>recovery_probe_only := g\<rparr>) a = routable req a"
  by (simp_all add: routable_def bypass_standard_quota_def split: option.split)

section \<open>Every stage\<close>

text \<open>
  What every stage gives: a pool that improves the given one, no exception, and an account of
  that pool which is routable and has the property \<open>Q\<close> of the stage.
\<close>

definition stage_sound :: "budget_request \<Rightarrow> (account_state \<Rightarrow> bool) \<Rightarrow> account_state list \<Rightarrow> selection_outcome \<Rightarrow> bool" where
  "stage_sound b Q states r =
     (list_all2 improves states (out_states r)
      \<and> (\<exists>res. out_result r = Inr res
           \<and> (\<forall>a. account res = Some a \<longrightarrow> a \<in> set (out_states r) \<and> routable (stage_request b) a \<and> Q a)))"

lemma stage_soundI:
  assumes "sound_env env" "\<And>a. routable req a = routable (stage_request b) a"
    and "\<And>x. x \<in> set states \<Longrightarrow> P x \<Longrightarrow> Q (fst (admit_state req (current_time env None) x))"
  shows "stage_sound b Q states (select_part env req P states salts)"
proof -
  obtain res where res: "out_result (select_part env req P states salts) = Inr res"
    using select_part_total [OF assms(1)] by blast
  have "a \<in> set (out_states (select_part env req P states salts)) \<and> routable (stage_request b) a \<and> Q a"
    if "account res = Some a" for a
    using select_part_selected [OF assms(1) res that] assms(2,3) by metis
  then show ?thesis using res by (simp add: stage_sound_def select_part_states)
qed

lemma stage_sound_after:
  "list_all2 improves xs ys \<Longrightarrow> stage_sound b Q ys r \<Longrightarrow> stage_sound b Q xs r"
  by (auto simp: stage_sound_def intro: pool_improves_trans)

lemma stage_sound_weaken: "stage_sound b Q xs r \<Longrightarrow> (\<And>a. Q a \<Longrightarrow> Q' a) \<Longrightarrow> stage_sound b Q' xs r"
  by (auto simp: stage_sound_def)

lemma fallback_sound: "sound_env env \<Longrightarrow> stage_sound b (\<lambda>_. True) states (fallback_stage env b states salts)"
  by (auto simp: fallback_stage_def intro!: stage_soundI)

lemma preferred_sound:
  assumes "sound_envs envs"
  shows "stage_sound b (\<lambda>_. True) states (preferred_stage envs b states salts)"
proof -
  let ?r = "select_part (envs 2) (stage_request b) (budget_safe b) states salts"
  have "stage_sound b (\<lambda>_. True) states ?r" by (rule stage_soundI) (simp_all add: assms)
  moreover have "stage_sound b (\<lambda>_. True) states (fallback_stage (envs 3) b (out_states ?r) (out_salts ?r))"
    by (rule stage_sound_after [OF select_part_states fallback_sound [OF sound_envsD [OF assms]]])
  ultimately show ?thesis by (simp add: preferred_stage_def Let_def fallback_sound assms)
qed

lemma burn_first_sound:
  assumes "sound_envs envs"
  shows "stage_sound b (\<lambda>_. True) states (burn_first_stage envs b states salts)"
proof -
  let ?r = "select_part (envs 1) ((stage_request b)\<lparr>allow_backoff_fallback := False\<rparr>) (burn_first_part states) states salts"
  have "stage_sound b (\<lambda>_. True) states ?r" by (rule stage_soundI) (simp_all add: assms)
  moreover have "stage_sound b (\<lambda>_. True) states (preferred_stage envs b (out_states ?r) (out_salts ?r))"
    by (rule stage_sound_after [OF select_part_states preferred_sound [OF assms]])
  ultimately show ?thesis by (simp add: burn_first_stage_def Let_def preferred_sound assms)
qed

lemma budget_selection_sound:
  assumes "sound_envs envs"
  shows "stage_sound b (\<lambda>_. True) states (select_account_preferring_budget_safe envs b states salts)"
proof -
  let ?p = "select_part (envs 0) ((stage_request b)\<lparr>recovery_probe_only := True\<rparr>) (\<lambda>_. True) states salts"
  have "stage_sound b (\<lambda>_. True) states ?p" by (rule stage_soundI) (simp_all add: assms)
  moreover have "stage_sound b (\<lambda>_. True) states (burn_first_stage envs b (out_states ?p) (out_salts ?p))"
    by (rule stage_sound_after [OF select_part_states burn_first_sound [OF assms]])
  ultimately show ?thesis
    by (auto simp: select_account_preferring_budget_safe_def Let_def assms intro!: stage_soundI)
qed

section \<open>What the stages prefer\<close>

lemma probe_part_probing:
  assumes "sound_env env" "\<not> drain_strategy (routing_strategy req)" "recovery_probe_only req"
    and "out_result (select_part env req P states salts) = Inr r" "account r = Some a"
  shows "health_tier a = HEALTH_TIER_PROBING"
proof -
  let ?t = "current_time env None"
  have res: "out_result (select_account env req None (filter P states) salts) = Inr r"
    using assms(4) by (simp add: select_part_def Let_def)
  obtain ys salt where ys: "ys \<noteq> []" "pick_account env req ?t salt ys = Inr r"
    using selected_in_pool [OF _ _ res assms(5)] selection_pool_nonempty assms(1) by (metis sound_env_def)
  obtain p where p: "due_probe req ?t ys = Some p"
    using ys(2) assms(2,3,5)
    by (auto simp: pick_account_def drain_strategy_def Let_def split: routing_strategy.splits if_splits)
  then have hp: "health_pool req ?t ys = [p]" by (simp add: health_pool_def)
  have "set (effective_pool [p]) \<subseteq> {p}" using effective_pool_in [of "[p]"] by simp
  moreover have "effective_pool [p] \<noteq> []" using effective_pool_in [of "[p]"] by simp
  then obtain q where "q \<in> set (effective_pool [p])" "rank_pool env req ?t salt (effective_pool [p]) = Inr q"
    using rank_pool_total [of "effective_pool [p]" env] assms(1) by (metis sound_env_def)
  ultimately have "a = p"
    using ys(2) assms(2,5) p hp
    by (auto simp: pick_account_def drain_strategy_def Let_def split: routing_strategy.splits)
  then show ?thesis using p due_probe_in by blast
qed

text \<open>Recovery empties the usage it resets, so it cannot take an account over a threshold.\<close>

lemma budget_safe_admitted:
  assumes "budget_safe b x" "0 \<le> b_threshold b" "0 \<le> b_secondary_threshold b"
  shows "budget_safe b (fst (admit_state req t x))"
proof -
  let ?y = "fst (admit_state req t x)"
  have frame: "priority_used_percent ?y = priority_used_percent x" "limit_scoped_usage ?y = limit_scoped_usage x"
    "priority_secondary_used_percent ?y = priority_secondary_used_percent x"
    by (simp_all add: admit_state_def Let_def recover_rate_limited_def recover_quota_exceeded_def clear_elapsed_cooldown_def)
  have used: "used_percent ?y \<in> {used_percent x, Some 0}" "secondary_used_percent ?y \<in> {secondary_used_percent x, Some 0}"
    by (auto simp: admit_state_def Let_def recover_rate_limited_def recover_quota_exceeded_def clear_elapsed_cooldown_def)
  have "above (first_some p u') k \<Longrightarrow> above (first_some p u) k" if "u' \<in> {u, Some 0}" "0 \<le> k" for p u u' k
    using that by (auto simp: above_def first_some_def split: option.splits)
  from this [OF used(1) assms(2)] this [OF used(2) assms(3)] this [OF used(1) assms(3)] show ?thesis
    using assms(1) by (auto simp: budget_safe_def over_budget_def state_above_budget_threshold_def
        state_above_sticky_budget_threshold_def Let_def frame split: if_splits)
qed

lemma preferred_finds_safe:
  assumes "sound_envs envs" "s \<in> set states" "usable s" "budget_safe b s" "b_traffic_class b = Foreground"
    and "0 \<le> b_threshold b" "0 \<le> b_secondary_threshold b"
  shows "decided (preferred_stage envs b states salts) \<and> stage_sound b (budget_safe b) states (preferred_stage envs b states salts)"
proof -
  let ?r = "select_part (envs 2) (stage_request b) (budget_safe b) states salts"
  have "decided ?r" using assms(1-5) by (intro select_part_finds) auto
  moreover have "stage_sound b (budget_safe b) states ?r"
    by (rule stage_soundI) (simp_all add: assms budget_safe_admitted)
  moreover have "filter (budget_safe b) states \<noteq> []" using assms(2,4) by (auto simp: filter_empty_conv)
  ultimately show ?thesis by (simp add: preferred_stage_def Let_def)
qed

lemma burn_first_policy:
  assumes "sound_envs envs"
  shows "stage_sound b (\<lambda>a. routing_policy a = ROUTING_POLICY_BURN_FIRST) states
    (select_part (envs 1) ((stage_request b)\<lparr>allow_backoff_fallback := False\<rparr>) (burn_first_part states) states salts)"
  by (rule stage_soundI) (simp_all add: assms burn_first_part_def)

lemma probe_stage_probing:
  assumes "sound_envs envs" "\<not> drain_strategy (b_strategy b)"
  shows "stage_sound b (\<lambda>a. health_tier a = HEALTH_TIER_PROBING) states
    (select_part (envs 0) ((stage_request b)\<lparr>recovery_probe_only := True\<rparr>) (\<lambda>_. True) states salts)" (is "stage_sound b _ states ?p")
proof -
  have "stage_sound b (\<lambda>_. True) states ?p" by (rule stage_soundI) (simp_all add: assms)
  moreover have "health_tier a = HEALTH_TIER_PROBING" if "out_result ?p = Inr r" "account r = Some a" for r a
    using probe_part_probing [OF sound_envsD [OF assms(1)] _ _ that] assms(2) by simp
  ultimately show ?thesis unfolding stage_sound_def by blast
qed

lemma burn_first_prefers:
  assumes "sound_envs envs" "s \<in> set states" "usable s" "budget_safe b s" "b_traffic_class b = Foreground"
    and "0 \<le> b_threshold b" "0 \<le> b_secondary_threshold b"
  shows "decided (burn_first_stage envs b states salts)
    \<and> stage_sound b (\<lambda>a. routing_policy a = ROUTING_POLICY_BURN_FIRST \<or> budget_safe b a) states (burn_first_stage envs b states salts)"
    (is "_ \<and> stage_sound b ?Q states _")
proof -
  let ?r = "select_part (envs 1) ((stage_request b)\<lparr>allow_backoff_fallback := False\<rparr>) (burn_first_part states) states salts"
  have st: "list_all2 improves states (out_states ?r)" by (rule select_part_states)
  have "s \<in> set (out_states ?r)" by (rule usable_stays [OF st assms(2,3)])
  note later = preferred_finds_safe [OF assms(1) this assms(3-7), of "out_salts ?r"]
  note now = preferred_finds_safe [OF assms, of salts]
  have "stage_sound b ?Q states ?r" by (rule stage_sound_weaken [OF burn_first_policy [OF assms(1)]]) simp
  moreover have "stage_sound b ?Q states (preferred_stage envs b (out_states ?r) (out_salts ?r))"
    by (rule stage_sound_after [OF st stage_sound_weaken [OF conjunct2 [OF later]]]) simp
  moreover have "stage_sound b ?Q states (preferred_stage envs b states salts)"
    by (rule stage_sound_weaken [OF conjunct2 [OF now]]) simp
  ultimately show ?thesis using now later by (simp add: burn_first_stage_def Let_def)
qed

section \<open>Properties\<close>

text \<open>
  Budget preference keeps the selector's guarantees: whatever the stages, the strategy and the
  thresholds, the call does not raise; an account it returns is one of the pool's states as they
  are afterwards and is routable; every account keeps its identity, its policy and its health
  tier, and a usable one is left as it is.
\<close>

theorem budget_selection_eligible:
  assumes "sound_envs envs"
  shows "\<exists>res. out_result (select_account_preferring_budget_safe envs b states salts) = Inr res
    \<and> (\<forall>a. account res = Some a \<longrightarrow>
          a \<in> set (out_states (select_account_preferring_budget_safe envs b states salts)) \<and> routable (stage_request b) a)
    \<and> list_all2 improves states (out_states (select_account_preferring_budget_safe envs b states salts))"
  using budget_selection_sound [OF assms, of b states salts] by (auto simp: stage_sound_def)


text \<open>
  C22. Budget thresholds never make a pool unavailable: under a strategy that spreads load, a
  foreground request gets an account whenever some account is usable, over its budget or not.
\<close>

theorem budget_selection_finds_usable:
  assumes "sound_envs envs" "\<not> drain_strategy (b_strategy b)"
    and "b_traffic_class b = Foreground" "s \<in> set states" "usable s"
  shows "\<exists>res a. out_result (select_account_preferring_budget_safe envs b states salts) = Inr res \<and> account res = Some a"
proof -
  note env = assms(1)
  have fb: "decided (fallback_stage (envs 3) b xs salts)" if "s \<in> set xs" for xs salts
    using that assms(3,5) env unfolding fallback_stage_def by (auto intro!: select_part_finds [where s = s])
  have pref: "decided (preferred_stage envs b xs salts)" if x: "s \<in> set xs" for xs salts
  proof -
    let ?r = "select_part (envs 2) (stage_request b) (budget_safe b) xs salts"
    have "s \<in> set (out_states ?r)" by (rule usable_stays [OF select_part_states x assms(5)])
    note later = fb [OF this, of "out_salts ?r"]
    have "decided ?r" if "length (filter (budget_safe b) xs) = length xs"
    proof -
      have "budget_safe b s" using that x by (metis filter_id_conv length_filter_less less_irrefl)
      then show ?thesis using x assms(3,5) env by (intro select_part_finds) auto
    qed
    then show ?thesis using later fb [OF x] by (auto simp: preferred_stage_def Let_def)
  qed
  have burn: "decided (burn_first_stage envs b xs salts)" if x: "s \<in> set xs" for xs salts
    using pref [OF x] pref [OF usable_stays [OF select_part_states x assms(5)]]
    by (auto simp: burn_first_stage_def Let_def)
  have "decided (select_account_preferring_budget_safe envs b states salts)"
    using burn [OF usable_stays [OF select_part_states assms(4,5)]] assms(2)
    by (auto simp: select_account_preferring_budget_safe_def Let_def)
  moreover have "\<exists>res. out_result (select_account_preferring_budget_safe envs b states salts) = Inr res"
    using budget_selection_sound [OF env, of b states salts] by (auto simp: stage_sound_def)
  ultimately show ?thesis by (auto simp: decided_def)
qed

text \<open>
  The cap filter is the lease check: an account whose counters are the runtime entry's passes
  the filter exactly when a lease of that kind would be granted on it at that moment.
\<close>

theorem cap_filter_matches_lease_check:
  assumes "map_of m (account_id s) = Some rt" "inflight_response_creates s = rt_inflight_response_creates rt"
    and "inflight_streams s = rt_inflight_streams rt"
  shows "s \<in> set (filter_states_for_account_caps states (Some kind) caps reserve)
    \<longleftrightarrow> s \<in> set states \<and> fst (account_lease_allowed_locked (account_id s) kind caps reserve m)"
  using assms
  by (cases kind) (auto simp: filter_states_for_account_caps_def account_lease_allowed_locked_def runtime_setdefault_def Let_def)

section \<open>Witnesses\<close>

definition w_budget :: budget_request where
  "w_budget = \<lparr>b_prefer_earlier_reset = False, b_reset_window = Secondary_window, b_strategy = Usage_weighted, b_power = 2,
     b_top_k = 5, b_threshold = 95, b_secondary_threshold = 100, b_apply_secondary = False,
     b_allow_backoff_fallback = True, b_deterministic_probe = False, b_traffic_class = Foreground,
     b_ignore_standard_quota = False, b_routing_costs = []\<rparr>"

definition w_envs :: "nat \<Rightarrow> selection_env" where
  "w_envs n = w_env"

definition w_pressed :: account_state where
  "w_pressed = (new_account_state ''a'' ACTIVE)\<lparr>used_percent := Some 97\<rparr>"

definition w_relaxed :: account_state where
  "w_relaxed = (new_account_state ''b'' ACTIVE)\<lparr>used_percent := Some 50\<rparr>"

definition w_blocked :: account_state where
  "w_blocked = (new_account_state ''c'' RATE_LIMITED)\<lparr>used_percent := Some 10, reset_at := Some 2000\<rparr>"

lemma w_envs_sound: "sound_envs w_envs"
  by (simp add: sound_envs_def sound_env_def w_envs_def w_env_def)

lemma w_states: "usable w_pressed" "usable w_relaxed" "budget_safe w_budget w_relaxed" "\<not> budget_safe w_budget w_pressed"
  by code_simp+

theorem budget_selection_eligible_witness:
  "\<exists>res. out_result (select_account_preferring_budget_safe w_envs w_budget [w_pressed, w_relaxed] w_salts) = Inr res"
  using budget_selection_eligible [OF w_envs_sound, of w_budget "[w_pressed, w_relaxed]" w_salts] by blast


theorem budget_selection_finds_usable_witness:
  "\<exists>res a. out_result (select_account_preferring_budget_safe w_envs w_budget [w_blocked, w_pressed] w_salts) = Inr res
    \<and> account res = Some a"
  by (rule budget_selection_finds_usable [OF w_envs_sound, where s = w_pressed])
    (simp_all add: w_states w_budget_def drain_strategy_def)

theorem cap_filter_matches_lease_check_witness:
  "w_a \<in> set (filter_states_for_account_caps [w_a, w_b] (Some Stream)
      \<lparr>response_create_limit = 2, stream_limit = 3, configured_response_create_limit = None, configured_stream_limit = None,
       caps_replica_count = 1\<rparr> 1)
   \<longleftrightarrow> w_a \<in> set [w_a, w_b] \<and> fst (account_lease_allowed_locked (account_id w_a) Stream
      \<lparr>response_create_limit = 2, stream_limit = 3, configured_response_create_limit = None, configured_stream_limit = None,
       caps_replica_count = 1\<rparr> 1 [(account_id w_a, new_runtime)])"
  by (rule cap_filter_matches_lease_check [where rt = new_runtime])
    (simp_all add: w_a_def new_account_state_def new_runtime_def)

text \<open>
  The draining strategies have no later stage: a rate-limited account below the threshold makes up the
  budget-safe pool alone, and the request is refused although a usable account exists.
\<close>

lemma drain_hides_usable:
  "map_sum id account (out_result (select_account_preferring_budget_safe w_envs (w_budget\<lparr>b_strategy := Sequential_drain\<rparr>)
      [w_blocked, w_pressed] w_salts)) = Inr None"
  "map_sum id account (out_result (select_account_preferring_budget_safe w_envs (w_budget\<lparr>b_strategy := Sequential_drain\<rparr>)
      [w_pressed] w_salts)) = Inr (Some w_pressed)"
  by code_simp+

end
