(* ===== verification/Rate_Limiter.thy ===== *)
theory Rate_Limiter
  imports Runs
begin

text \<open>
  \<open>core/rate_limiter/db_rate_limiter.py\<close>: sliding-window limits of dashboard logins. The table of
  attempts is a list; a time is a number of seconds. The counting insert is one statement and so
  one step; what a refusal reports is read after the commit, from the table as it is then.
\<close>

section \<open>Rows and limiters\<close>

record rate_limit_attempt =
  ra_key :: string
  ra_type :: string
  attempted_at :: real

record rate_limiter =
  max_attempts :: int
  window_seconds :: int
  limiter_type :: string

definition new_limiter :: "int \<Rightarrow> int \<Rightarrow> string \<Rightarrow> rate_limiter result" where
  "new_limiter attempts window t =
     (if attempts \<le> 0 then Inl ValueError
      else if window \<le> 0 then Inl ValueError
      else Inr \<lparr>max_attempts = attempts, window_seconds = window, limiter_type = t\<rparr>)"

definition window_start :: "rate_limiter \<Rightarrow> real \<Rightarrow> real" where
  "window_start rl now = now - of_int (window_seconds rl)"

definition in_window :: "rate_limiter \<Rightarrow> string \<Rightarrow> real \<Rightarrow> rate_limit_attempt list \<Rightarrow> rate_limit_attempt list" where
  "in_window rl key start rows =
     filter (\<lambda>a. ra_key a = key \<and> ra_type a = limiter_type rl \<and> attempted_at a \<ge> start) rows"

definition oldest_attempt :: "rate_limiter \<Rightarrow> string \<Rightarrow> real \<Rightarrow> rate_limit_attempt list \<Rightarrow> real option" where
  "oldest_attempt rl key start rows =
     (case min_by attempted_at (in_window rl key start rows) of Inl e \<Rightarrow> None | Inr a \<Rightarrow> Some (attempted_at a))"

definition retry_after :: "rate_limiter \<Rightarrow> real option \<Rightarrow> real \<Rightarrow> int" where
  "retry_after rl oldest now =
     (case oldest of None \<Rightarrow> window_seconds rl
      | Some t \<Rightarrow> max 1 (py_int (t + of_int (window_seconds rl) - now)))"

definition new_attempt :: "rate_limiter \<Rightarrow> string \<Rightarrow> real \<Rightarrow> rate_limit_attempt" where
  "new_attempt rl key now = \<lparr>ra_key = key, ra_type = limiter_type rl, attempted_at = now\<rparr>"

section \<open>Operations\<close>

text \<open>A refusal is the left side, with the seconds to wait.\<close>

definition check :: "rate_limiter \<Rightarrow> string \<Rightarrow> real \<Rightarrow> real \<Rightarrow> rate_limit_attempt list \<Rightarrow> int + unit" where
  "check rl key before now rows =
     (let start = window_start rl before
      in if int (length (in_window rl key start rows)) \<ge> max_attempts rl
         then Inl (retry_after rl (oldest_attempt rl key start rows) now) else Inr ())"

definition counting_insert :: "rate_limiter \<Rightarrow> string \<Rightarrow> real \<Rightarrow> rate_limit_attempt list \<Rightarrow> bool \<times> rate_limit_attempt list" where
  "counting_insert rl key now rows =
     (if int (length (in_window rl key (window_start rl now) rows)) < max_attempts rl
      then (True, rows @ [new_attempt rl key now]) else (False, rows))"

definition check_and_increment ::
    "rate_limiter \<Rightarrow> string \<Rightarrow> real \<Rightarrow> (rate_limit_attempt list \<Rightarrow> rate_limit_attempt list) \<Rightarrow> rate_limit_attempt list
     \<Rightarrow> (int + unit) \<times> rate_limit_attempt list" where
  "check_and_increment rl key now others rows =
     (case counting_insert rl key now rows of (inserted, rows1) \<Rightarrow>
        let rows2 = others rows1
        in if inserted then (Inr (), rows2)
           else (Inl (retry_after rl (oldest_attempt rl key (window_start rl now) rows2) now), rows2))"

definition record_failure_attempt ::
    "rate_limiter \<Rightarrow> string \<Rightarrow> real \<Rightarrow> (rate_limit_attempt list \<Rightarrow> rate_limit_attempt list) \<Rightarrow> rate_limit_attempt list
     \<Rightarrow> (int + unit) \<times> rate_limit_attempt list" where
  "record_failure_attempt rl key now others rows =
     (let rows1 = rows @ [new_attempt rl key now];
          n = length (in_window rl key (window_start rl now) rows1);
          rows2 = others rows1
      in if int n > max_attempts rl
         then (Inl (retry_after rl (oldest_attempt rl key (window_start rl now) rows2) now), rows2) else (Inr (), rows2))"

definition clear_for_key :: "rate_limiter \<Rightarrow> string \<Rightarrow> rate_limit_attempt list \<Rightarrow> rate_limit_attempt list" where
  "clear_for_key rl key rows = filter (\<lambda>a. \<not> (ra_key a = key \<and> ra_type a = limiter_type rl)) rows"

definition check_and_record ::
    "rate_limiter \<Rightarrow> string \<Rightarrow> real \<Rightarrow> rate_limit_attempt list \<Rightarrow> (int + unit) \<times> rate_limit_attempt list" where
  "check_and_record rl key now rows =
     (let start = window_start rl now; n = length (in_window rl key start rows);
          rows1 = rows @ [new_attempt rl key now]
      in if int n \<ge> max_attempts rl then (Inl (retry_after rl (oldest_attempt rl key start rows) now), rows1)
         else (Inr (), rows1))"

definition cleanup :: "real \<Rightarrow> int \<Rightarrow> rate_limit_attempt list \<Rightarrow> rate_limit_attempt list" where
  "cleanup now older_than_seconds rows = filter (\<lambda>a. \<not> attempted_at a < now - of_int older_than_seconds) rows"

section \<open>The sliding window\<close>

definition attempts_between :: "rate_limiter \<Rightarrow> string \<Rightarrow> real \<Rightarrow> real \<Rightarrow> rate_limit_attempt list \<Rightarrow> nat" where
  "attempts_between rl key lo hi rows =
     length (filter (\<lambda>a. ra_key a = key \<and> ra_type a = limiter_type rl \<and> lo \<le> attempted_at a \<and> attempted_at a \<le> hi) rows)"

text \<open>
  Steps on the table: counting inserts for any key of this limiter, rows of other limiters, the
  clearing of a key, and the cleanup of old rows. The state carries the latest clock reading.
\<close>

datatype rate_event = Attempt string real | Foreign rate_limit_attempt real | Clear string | Cleanup real int

fun rate_step :: "rate_limiter \<Rightarrow> rate_event \<Rightarrow> real \<times> rate_limit_attempt list \<Rightarrow> real \<times> rate_limit_attempt list" where
  "rate_step rl (Attempt key now) (clock, rows) = (now, snd (counting_insert rl key now rows))"
| "rate_step rl (Foreign a now) (clock, rows) = (now, rows @ [a])"
| "rate_step rl (Clear key) (clock, rows) = (clock, clear_for_key rl key rows)"
| "rate_step rl (Cleanup now s) (clock, rows) = (now, cleanup now s rows)"

fun rate_ok :: "rate_limiter \<Rightarrow> rate_event \<Rightarrow> real \<times> rate_limit_attempt list \<Rightarrow> bool" where
  "rate_ok rl (Attempt key now) (clock, rows) = (clock \<le> now)"
| "rate_ok rl (Foreign a now) (clock, rows) = (clock \<le> now \<and> attempted_at a \<le> now \<and> ra_type a \<noteq> limiter_type rl)"
| "rate_ok rl (Clear key) (clock, rows) = True"
| "rate_ok rl (Cleanup now s) (clock, rows) = (clock \<le> now)"

definition rate_inv :: "rate_limiter \<Rightarrow> real \<times> rate_limit_attempt list \<Rightarrow> bool" where
  "rate_inv rl s =
     (0 \<le> max_attempts rl \<and> (\<forall>a \<in> set (snd s). attempted_at a \<le> fst s)
      \<and> (\<forall>key x. int (attempts_between rl key x (x + of_int (window_seconds rl)) (snd s)) \<le> max_attempts rl))"

lemma attempts_between_mono:
  "attempts_between rl key lo hi (filter P rows) \<le> attempts_between rl key lo hi rows"
  unfolding attempts_between_def filter_filter by (induction rows) auto

lemma rate_inv_filter:
  assumes "rate_inv rl (clock, rows)" "clock \<le> now"
  shows "rate_inv rl (now, filter P rows)"
proof -
  have "int (attempts_between rl key x (x + of_int (window_seconds rl)) (filter P rows)) \<le> max_attempts rl" for key x
  proof -
    have "int (attempts_between rl key x (x + of_int (window_seconds rl)) rows) \<le> max_attempts rl"
      using assms(1) by (simp add: rate_inv_def)
    then show ?thesis using attempts_between_mono [of rl key x "x + of_int (window_seconds rl)" P rows] by linarith
  qed
  then show ?thesis using assms by (auto simp: rate_inv_def intro: order_trans)
qed

text \<open>After a counting insert the new attempt is the latest, so a window that holds it starts late enough to be counted.\<close>

lemma counting_insert_inv:
  assumes "rate_inv rl (clock, rows)" "clock \<le> now"
  shows "rate_inv rl (now, snd (counting_insert rl key now rows))"
proof (cases "int (length (in_window rl key (window_start rl now) rows)) < max_attempts rl")
  case True
  have times: "\<forall>a \<in> set (rows @ [new_attempt rl key now]). attempted_at a \<le> now"
    using assms by (auto simp: rate_inv_def new_attempt_def)
  have "int (attempts_between rl k x (x + of_int (window_seconds rl)) (rows @ [new_attempt rl key now])) \<le> max_attempts rl" for k x
  proof (cases "k = key \<and> x \<le> now \<and> now \<le> x + of_int (window_seconds rl)")
    case hit: True
    have "attempts_between rl k x (x + of_int (window_seconds rl)) rows \<le> length (in_window rl key (window_start rl now) rows)"
      unfolding attempts_between_def in_window_def using hit
      by (induction rows) (auto simp: window_start_def)
    then show ?thesis using True by (simp add: attempts_between_def)
  next
    case False
    then have "attempts_between rl k x (x + of_int (window_seconds rl)) (rows @ [new_attempt rl key now])
        = attempts_between rl k x (x + of_int (window_seconds rl)) rows"
      by (auto simp: attempts_between_def new_attempt_def)
    then show ?thesis using assms(1) by (simp add: rate_inv_def)
  qed
  then show ?thesis using True times assms(1) by (simp add: counting_insert_def rate_inv_def)
next
  case False
  then show ?thesis using assms by (auto simp: counting_insert_def rate_inv_def intro: order_trans)
qed

lemma foreign_inv:
  assumes "rate_inv rl (clock, rows)" "clock \<le> now" "attempted_at a \<le> now" "ra_type a \<noteq> limiter_type rl"
  shows "rate_inv rl (now, rows @ [a])"
  using assms by (auto simp: rate_inv_def attempts_between_def intro: order_trans)

lemma rate_step_inv: "rate_inv rl s \<Longrightarrow> rate_ok rl e s \<Longrightarrow> rate_inv rl (rate_step rl e s)"
  by (cases s; cases e)
    (auto simp: counting_insert_inv foreign_inv clear_for_key_def cleanup_def intro: rate_inv_filter)

interpretation rates: event_system "rate_inv rl" "rate_ok rl" "rate_step rl" for rl
  by unfold_locales (rule rate_step_inv)

section \<open>Properties\<close>



lemma oldest_attempt_bounds:
  assumes "in_window rl key start rows \<noteq> []"
  obtains t where "oldest_attempt rl key start rows = Some t" "start \<le> t"
    "\<exists>a \<in> set (in_window rl key start rows). attempted_at a = t"
    "\<forall>a \<in> set (in_window rl key start rows). t \<le> attempted_at a"
proof -
  obtain a where a: "a \<in> set (in_window rl key start rows)" "min_by attempted_at (in_window rl key start rows) = Inr a"
    using min_by_member [OF assms, of attempted_at] by blast
  moreover have "\<forall>c \<in> set (in_window rl key start rows). attempted_at a \<le> attempted_at c"
    using min_by_le [OF a(2)] by blast
  ultimately show ?thesis using that [of "attempted_at a"] by (auto simp: oldest_attempt_def in_window_def)
qed

lemma in_window_later:
  "start \<le> start' \<Longrightarrow> in_window rl key start' rows = filter (\<lambda>a. start' \<le> attempted_at a) (in_window rl key start rows)"
  by (auto simp: in_window_def intro: filter_cong)

lemma in_window_bounded:
  assumes "rate_inv rl (clock, rows)" "clock \<le> now"
  shows "int (length (in_window rl key (window_start rl now) rows)) \<le> max_attempts rl"
proof -
  have "\<forall>a \<in> set rows. attempted_at a \<le> now" using assms by (auto simp: rate_inv_def)
  then have "in_window rl key (window_start rl now) rows = filter (\<lambda>a. ra_key a = key \<and> ra_type a = limiter_type rl
      \<and> window_start rl now \<le> attempted_at a \<and> attempted_at a \<le> window_start rl now + of_int (window_seconds rl)) rows"
    by (auto simp: in_window_def window_start_def intro!: filter_cong)
  then show ?thesis using assms(1) by (simp add: rate_inv_def attempts_between_def)
qed

text \<open>
  A refusal tells how long to wait: the hint lies between one second and the window, and one
  second after it the same key is admitted again if nothing else happened meanwhile. The hint
  is cut to whole seconds, which is why the last second is needed.
\<close>

theorem refusal_hint_sufficient:
  assumes "rate_inv rl (clock, rows)" "clock \<le> now" "0 < max_attempts rl" "0 < window_seconds rl"
    and "check_and_increment rl key now (\<lambda>r. r) rows = (Inl hint, rows')" "now + of_int hint + 1 \<le> later"
  shows "1 \<le> hint \<and> hint \<le> window_seconds rl \<and> fst (counting_insert rl key later rows')"
proof -
  let ?start = "window_start rl now" and ?w = "of_int (window_seconds rl) :: real"
  let ?in = "in_window rl key ?start rows"
  have full: "max_attempts rl \<le> int (length ?in)" and rows': "rows' = rows"
    and hint: "hint = retry_after rl (oldest_attempt rl key ?start rows) now"
    using assms(5) by (auto simp: check_and_increment_def counting_insert_def Let_def split: if_splits)
  then have "?in \<noteq> []" using assms(3) by auto
  then obtain t where t: "oldest_attempt rl key ?start rows = Some t" "?start \<le> t"
    "\<exists>a \<in> set ?in. attempted_at a = t" by (rule oldest_attempt_bounds)
  have "t \<le> now" using t(3) assms(1,2) by (force simp: rate_inv_def in_window_def)
  have h: "hint = max 1 (py_int (t + ?w - now))" using hint t(1) by (simp add: retry_after_def)
  have nonneg: "0 \<le> t + ?w - now" using t(2) by (simp add: window_start_def)
  then have fl: "py_int (t + ?w - now) = \<lfloor>t + ?w - now\<rfloor>" by (rule py_int_nonneg)
  have "\<lfloor>t + ?w - now\<rfloor> \<le> window_seconds rl" using \<open>t \<le> now\<close> by (simp add: floor_le_iff)
  then have bounds: "1 \<le> hint" "hint \<le> window_seconds rl" using assms(4) by (auto simp: h fl)
  have "t + ?w - now < of_int hint + 1" unfolding h fl by linarith
  then have late: "t < window_start rl later" "?start \<le> window_start rl later"
    using assms(6) bounds(1) by (auto simp: window_start_def)
  have "length (in_window rl key (window_start rl later) rows) < length ?in"
    unfolding in_window_later [OF late(2)] using t(3) late(1) by (auto intro: length_filter_less)
  then show ?thesis using bounds in_window_bounded [OF assms(1,2), of key] by (simp add: rows' counting_insert_def)
qed

theorem refusal_hint_sufficient_witness:
  "1 \<le> (59 :: int) \<and> fst (counting_insert \<lparr>max_attempts = 1, window_seconds = 60, limiter_type = ''t''\<rparr> ''k'' 90
     [\<lparr>ra_key = ''k'', ra_type = ''t'', attempted_at = 10\<rparr>])"
proof -
  let ?rl = "\<lparr>max_attempts = 1, window_seconds = 60, limiter_type = ''t''\<rparr>"
  let ?rows = "[\<lparr>ra_key = ''k'', ra_type = ''t'', attempted_at = 10\<rparr>]"
  have "rate_inv ?rl (10, ?rows)" by (simp add: rate_inv_def attempts_between_def)
  moreover have "check_and_increment ?rl ''k'' 11 (\<lambda>r. r) ?rows = (Inl 59, ?rows)" by code_simp
  ultimately show ?thesis
    using refusal_hint_sufficient [of ?rl 10 ?rows 11 "''k''" 59 ?rows 90] by simp
qed

end
