(* ===== verification/Quota_Planner.thy ===== *)
theory Quota_Planner
  imports Balancer_State "HOL-Library.AList"
begin

text \<open>
  \<open>modules/quota_planner/logic.py\<close>: routing costs, demand forecast, pool simulation and the plan of
  warm-up actions. An aware date-time is a number of microseconds since the epoch. The time zone of
  the settings is an argument, the two directions of its wall clock; arithmetic inside the zone is
  on the wall clock, as Python does it. The textual \<open>reason\<close> of an action and of its cycle key are
  not printed: the model keeps the values they show.
\<close>

section \<open>Settings and results\<close>

record zone =
  to_local :: "int \<Rightarrow> int"
  to_utc :: "int \<Rightarrow> int"

definition utc_zone :: zone where
  "utc_zone = \<lparr>to_local = (\<lambda>t. t), to_utc = (\<lambda>t. t)\<rparr>"

definition FIVE_HOUR_WINDOW_SECONDS :: int where "FIVE_HOUR_WINDOW_SECONDS = 18000"
definition SHORT_WINDOW_MAX_MINUTES :: int where "SHORT_WINDOW_MAX_MINUTES = 1440"
definition EXPIRING_WINDOW_SECONDS :: int where "EXPIRING_WINDOW_SECONDS = 3600"
definition DEFAULT_SLOT_SECONDS :: int where "DEFAULT_SLOT_SECONDS = 900"
definition DEFAULT_PLANNING_HORIZON_HOURS :: int where "DEFAULT_PLANNING_HORIZON_HOURS = 36"
definition DEFAULT_ACCOUNT_WINDOW_CAPACITY :: real where "DEFAULT_ACCOUNT_WINDOW_CAPACITY = 100"
definition MIN_PEAK_EXCESS_UNITS :: real where "MIN_PEAK_EXCESS_UNITS = 1"

record planner_settings =
  ps_mode :: string
  ps_zone :: zone
  working_days :: "int list"
  working_hours_start :: string
  working_hours_end :: string
  prewarm_enabled :: bool
  prewarm_lead_minutes :: int
  max_warmups_per_day :: int
  min_expected_gain :: real
  forecast_quantile :: string
  allow_synthetic_traffic :: bool
  dry_run :: bool

record planner_action =
  act_account :: string
  act_action :: string
  scheduled_at :: "int option"
  act_score :: real
  target_peak_at :: "int option"
  expected_gain :: real
  expected_cost :: real
  warmup_cycle :: "(int \<times> int) option"
  act_window :: int

record demand_bin =
  slot_epoch :: int
  request_kind :: "string option"
  bin_input_tokens :: int
  bin_cached_tokens :: int
  bin_output_tokens :: int
  cost_usd :: real
  request_count :: int

record forecast_slot =
  slot_start :: int
  demand_units :: real
  slot_requests :: real

record simulation_result =
  loss :: real
  unmet_demand :: real
  wasted_capacity :: real
  cold_start_penalty :: real
  synchronization_penalty :: real
  forecast_units :: real
  served_units :: real

record planner_forecast =
  generated_at :: int
  horizon_hours :: int
  slot_seconds :: int
  total_demand_units :: real
  peak_slot_start :: "int option"
  peak_demand_units :: real
  fc_slots :: "forecast_slot list"

definition us_of :: "int \<Rightarrow> int" where
  "us_of seconds = seconds * 1000000"

definition timestamp :: "int \<Rightarrow> real" where
  "timestamp t = of_int t / 1000000"

definition is_forecast_demand_request :: "string option \<Rightarrow> bool" where
  "is_forecast_demand_request kind =
     (py_lower (case kind of None \<Rightarrow> ''real'' | Some k \<Rightarrow> if k = [] then ''real'' else k) \<in> {''normal'', ''real''})"

text \<open>The JSON text is decoded by the caller; a boolean is an integer of Python.\<close>

datatype json_value = JInt int | JBool bool | JOther

definition DEFAULT_WORKING_DAYS :: "int list" where
  "DEFAULT_WORKING_DAYS = [0, 1, 2, 3, 4]"

fun json_day :: "json_value \<Rightarrow> int option" where
  "json_day (JInt i) = (if 0 \<le> i \<and> i \<le> 6 then Some i else None)"
| "json_day (JBool b) = Some (if b then 1 else 0)"
| "json_day JOther = None"

fun collect_days :: "json_value list \<Rightarrow> int list \<Rightarrow> int list" where
  "collect_days [] days = days"
| "collect_days (v # vs) days =
     collect_days vs (case json_day v of None \<Rightarrow> days | Some d \<Rightarrow> if d \<in> set days then days else days @ [d])"

definition parse_working_days :: "json_value list option \<Rightarrow> int list" where
  "parse_working_days decoded =
     (case decoded of None \<Rightarrow> DEFAULT_WORKING_DAYS
      | Some vs \<Rightarrow> first_nonempty (collect_days vs []) DEFAULT_WORKING_DAYS)"

definition encode_working_days :: "int list \<Rightarrow> json_value list" where
  "encode_working_days days =
     map JInt (first_nonempty (sort (remdups (filter (\<lambda>d. 0 \<le> d \<and> d \<le> 6) days))) DEFAULT_WORKING_DAYS)"

section \<open>Calendar\<close>

definition us_per_day :: int where "us_per_day = 86400000000"

definition weekday :: "int \<Rightarrow> int" where
  "weekday wall = (wall div us_per_day + 3) mod 7"

definition time_of_day :: "int \<Rightarrow> int" where
  "time_of_day wall = wall mod us_per_day"

definition hour_of :: "int \<Rightarrow> int" where
  "hour_of wall = time_of_day wall div 3600000000"

definition minute_of :: "int \<Rightarrow> int" where
  "minute_of wall = (time_of_day wall div 60000000) mod 60"

definition to_planner_tz :: "int \<Rightarrow> planner_settings \<Rightarrow> int" where
  "to_planner_tz t st = to_local (ps_zone st) t"

text \<open>\<open>int()\<close> of a string: blanks around, a sign, digits with single underscores between them.\<close>

fun int_digits :: "bool \<Rightarrow> string \<Rightarrow> int \<Rightarrow> int option" where
  "int_digits after_digit [] acc = (if after_digit then Some acc else None)"
| "int_digits after_digit (c # cs) acc =
     (let n = of_char c :: int
      in if 48 \<le> n \<and> n \<le> 57 then int_digits True cs (acc * 10 + (n - 48))
         else if c = CHR ''_'' \<and> after_digit then int_digits False cs acc
         else None)"

definition int_of_string :: "string \<Rightarrow> int option" where
  "int_of_string raw =
     (case py_strip raw of
        [] \<Rightarrow> None
      | c # cs \<Rightarrow>
          (if c = CHR ''-'' then map_option uminus (int_digits False cs 0)
           else if c = CHR ''+'' then int_digits False cs 0
           else int_digits False (c # cs) 0))"

definition time_us :: "int \<Rightarrow> int \<Rightarrow> int" where
  "time_us h m = us_of (h * 3600 + m * 60)"

definition parse_hhmm :: "string \<Rightarrow> int \<Rightarrow> int" where
  "parse_hhmm raw fallback =
     (case dropWhile (\<lambda>c. c \<noteq> CHR '':'') raw of
        [] \<Rightarrow> fallback
      | colon # rest \<Rightarrow>
          (case (int_of_string (takeWhile (\<lambda>c. c \<noteq> CHR '':'') raw), int_of_string rest) of
             (Some h, Some m) \<Rightarrow> (if 0 \<le> h \<and> h \<le> 23 \<and> 0 \<le> m \<and> m \<le> 59 then time_us h m else fallback)
           | _ \<Rightarrow> fallback))"

definition inside_work_block :: "int \<Rightarrow> planner_settings \<Rightarrow> bool" where
  "inside_work_block t st =
     (let local = to_planner_tz t st;
          start = parse_hhmm (working_hours_start st) (time_us 9 0);
          fin = parse_hhmm (working_hours_end st) (time_us 18 0);
          current_time = time_of_day local
      in weekday local \<in> set (working_days st)
         \<and> (if start \<le> fin then start \<le> current_time \<and> current_time < fin
             else current_time \<ge> start \<or> current_time < fin))"

definition inside_prewarm_band :: "int \<Rightarrow> planner_settings \<Rightarrow> bool" where
  "inside_prewarm_band t st =
     (inside_work_block t st \<or> inside_work_block (t + us_of (max 0 (prewarm_lead_minutes st) * 60)) st)"

definition floor_datetime :: "int \<Rightarrow> int \<Rightarrow> int" where
  "floor_datetime t slot = (let epoch = py_int (timestamp t) in us_of (epoch - epoch mod slot))"

fun next_work_starts_from :: "nat \<Rightarrow> int \<Rightarrow> int \<Rightarrow> int \<Rightarrow> planner_settings \<Rightarrow> nat \<Rightarrow> int list \<Rightarrow> int list \<Rightarrow> int list" where
  "next_work_starts_from 0 day start local_now st cnt offsets results = results"
| "next_work_starts_from (Suc n) day start local_now st cnt offsets results =
     (let local_start = day * us_per_day + start
      in if weekday local_start \<notin> set (working_days st) \<or> local_start < local_now
         then next_work_starts_from n (day + 1) start local_now st cnt offsets results
         else
           let results' = results @ map (\<lambda>h. to_utc (ps_zone st) (local_start + us_of (h * 3600))) offsets
           in if length results' \<ge> cnt * length offsets then results'
              else next_work_starts_from n (day + 1) start local_now st cnt offsets results')"

definition next_work_starts :: "int \<Rightarrow> planner_settings \<Rightarrow> nat \<Rightarrow> int list \<Rightarrow> int list" where
  "next_work_starts now st cnt offsets =
     (let local_now = to_planner_tz now st
      in next_work_starts_from 14 (local_now div us_per_day) (parse_hhmm (working_hours_start st) (time_us 9 0))
           local_now st cnt offsets [])"

definition warmup_cycle_key :: "int \<Rightarrow> planner_settings \<Rightarrow> int \<times> int" where
  "warmup_cycle_key t st =
     (let local = to_planner_tz t st; lead = max 1 (prewarm_lead_minutes st)
      in (local div us_per_day, (hour_of local * 60 + minute_of local) div lead))"

section \<open>Accounts\<close>

definition plannable_window_seconds :: "account_state \<Rightarrow> int option" where
  "plannable_window_seconds s =
     (case primary_window_minutes s of None \<Rightarrow> None
      | Some m \<Rightarrow> if m \<le> 0 \<or> m > SHORT_WINDOW_MAX_MINUTES then None else Some (m * 60))"

definition is_active_window :: "account_state \<Rightarrow> real \<Rightarrow> bool" where
  "is_active_window s current_ts =
     (plannable_window_seconds s \<noteq> None
      \<and> (case primary_reset_at s of None \<Rightarrow> False | Some r \<Rightarrow> of_int r > current_ts))"

definition is_cold_window :: "account_state \<Rightarrow> real \<Rightarrow> bool" where
  "is_cold_window s current_ts = (case primary_reset_at s of None \<Rightarrow> True | Some r \<Rightarrow> of_int r \<le> current_ts)"

definition is_warmup_candidate :: "account_state \<Rightarrow> real \<Rightarrow> bool" where
  "is_warmup_candidate s current_ts =
     (status s = ACTIVE \<and> plannable_window_seconds s \<noteq> None \<and> is_cold_window s current_ts)"

definition remaining_percent :: "account_state \<Rightarrow> real" where
  "remaining_percent s = (case used_percent s of None \<Rightarrow> 100 | Some u \<Rightarrow> max 0 (100 - min 100 u))"

section \<open>Routing costs\<close>

definition window_cost :: "planner_settings \<Rightarrow> int \<Rightarrow> account_state \<Rightarrow> real \<times> string list" where
  "window_cost st current s =
     (let current_ts = timestamp current
      in if is_active_window s current_ts
         then let seconds_left = of_int (or_default (primary_reset_at s) 0) - current_ts
              in if seconds_left \<le> of_int EXPIRING_WINDOW_SECONDS
                 then (- (20 * (1 - max 0 seconds_left / of_int EXPIRING_WINDOW_SECONDS)), [''expiring_active_window''])
                 else (0, [])
         else if plannable_window_seconds s \<noteq> None \<and> is_cold_window s current_ts
         then (if inside_work_block current st then (2, [''soft_cold_start_during_work''])
               else if inside_prewarm_band current st then (12, [''cold_start_in_prewarm_band''])
               else (40, [''cold_start_outside_work'']))
         else (0, []))"

fun join_reasons :: "string list \<Rightarrow> string" where
  "join_reasons [] = []"
| "join_reasons [r] = r"
| "join_reasons (r # rs) = r @ '','' @ join_reasons rs"

definition account_cost :: "planner_settings \<Rightarrow> int \<Rightarrow> account_state \<Rightarrow> real \<times> string list" where
  "account_cost st current s =
     (case window_cost st current s of (c, reasons) \<Rightarrow>
        if used_percent s = None \<and> secondary_used_percent s = None then (c + 3, reasons @ [''unknown_usage'']) else (c, reasons))"

definition add_account_cost :: "planner_settings \<Rightarrow> int \<Rightarrow> account_state \<Rightarrow> routing_costs \<Rightarrow> routing_costs" where
  "add_account_cost st now s costs =
     (case account_cost st now s of (c, reasons) \<Rightarrow>
        if c \<noteq> 0 then AList.update (account_id s) \<lparr>total_cost = c, cost_reason = Some (join_reasons reasons)\<rparr> costs else costs)"

definition build_routing_costs :: "planner_settings \<Rightarrow> account_state list \<Rightarrow> int \<Rightarrow> routing_costs" where
  "build_routing_costs st states current =
     (if ps_mode st = ''off'' then [] else fold (add_account_cost st current) states [])"

section \<open>Demand forecast\<close>

definition bin_demand_units :: "demand_bin \<Rightarrow> real" where
  "bin_demand_units row =
     (let token_units = (of_int (max 0 (bin_input_tokens row)) + 1 / 4 * of_int (max 0 (bin_cached_tokens row))
                          + 4 * of_int (max 0 (bin_output_tokens row))) / 1000;
          cost_units = max 0 (cost_usd row) * 100;
          request_units = of_int (max 0 (request_count row)) * 5
      in max (max token_units cost_units) request_units)"

definition quantile_fraction :: "string \<Rightarrow> real" where
  "quantile_fraction q = (if q = ''p50'' then 1 / 2 else if q = ''p75'' then 3 / 4 else if q = ''p90'' then 9 / 10 else 3 / 4)"

definition quantile :: "real list \<Rightarrow> string \<Rightarrow> real" where
  "quantile values q =
     (if values = [] then 0
      else let ordered = sort values;
               index = min (int (length ordered) - 1) (max 0 (py_round (of_int (int (length ordered) - 1) * quantile_fraction q)))
           in ordered ! nat index)"

definition calendar_prior_units :: "int \<Rightarrow> planner_settings \<Rightarrow> real" where
  "calendar_prior_units t st =
     (if inside_work_block t st then 6 else if inside_prewarm_band t st then 2 else 1 / 5)"

definition local_slot_index :: "int \<Rightarrow> int \<Rightarrow> int" where
  "local_slot_index wall slot = hour_of wall * 3600 div slot + minute_of wall * 60 div slot"

definition units_by_slot_epoch :: "demand_bin list \<Rightarrow> (int \<times> real) list" where
  "units_by_slot_epoch bins =
     fold (\<lambda>row m. AList.update (slot_epoch row) (or_default (map_of m (slot_epoch row)) 0 + bin_demand_units row) m)
       (filter (\<lambda>row. is_forecast_demand_request (request_kind row)) bins) []"

definition same_weekday_history :: "planner_settings \<Rightarrow> int \<Rightarrow> (int \<times> real) list \<Rightarrow> int \<Rightarrow> int \<Rightarrow> real list" where
  "same_weekday_history st slot units day index =
     map snd (filter (\<lambda>(e, u). weekday (to_planner_tz (us_of e) st) = day
                \<and> local_slot_index (to_planner_tz (us_of e) st) slot = index) units)"

definition work_hour_history :: "planner_settings \<Rightarrow> (int \<times> real) list \<Rightarrow> int \<Rightarrow> real list" where
  "work_hour_history st units hour =
     map snd (filter (\<lambda>(e, u). weekday (to_planner_tz (us_of e) st) \<in> set (working_days st)
                \<and> hour_of (to_planner_tz (us_of e) st) = hour) units)"

definition recent_units :: "(int \<times> real) list \<Rightarrow> real \<Rightarrow> real" where
  "recent_units units cutoff = sum_list (map snd (filter (\<lambda>(e, u). of_int e \<ge> cutoff) units))"

definition forecast_one :: "planner_settings \<Rightarrow> int \<Rightarrow> (int \<times> real) list \<Rightarrow> real \<Rightarrow> int \<Rightarrow> forecast_slot" where
  "forecast_one st slot units recent_per_slot start =
     (let local = to_planner_tz start st;
          same_weekday = quantile (same_weekday_history st slot units (weekday local) (local_slot_index local slot))
                           (forecast_quantile st);
          same_work_hour = quantile (work_hour_history st units (hour_of local)) (forecast_quantile st);
          d = 1 / 2 * same_weekday + 1 / 4 * same_work_hour + 3 / 20 * recent_per_slot
              + 1 / 10 * calendar_prior_units start st
      in \<lparr>slot_start = start, demand_units = max 0 d, slot_requests = max 0 (d / 10)\<rparr>)"

definition build_demand_forecast :: "planner_settings \<Rightarrow> demand_bin list \<Rightarrow> int \<Rightarrow> int \<Rightarrow> int \<Rightarrow> planner_forecast" where
  "build_demand_forecast st bins now horizon slot =
     (let current = floor_datetime now slot;
          units = units_by_slot_epoch bins;
          recent_per_slot = recent_units units (timestamp current - 86400)
                              / of_int (max 1 (py_int (86400 / of_int slot)));
          slot_count = py_int (of_int (horizon * 3600) / of_int slot);
          fs = map (\<lambda>n. forecast_one st slot units recent_per_slot (current + us_of (int n * slot))) [0 ..< nat slot_count];
          peak = (case max_by demand_units fs of Inl e \<Rightarrow> None | Inr p \<Rightarrow> Some p)
      in \<lparr>generated_at = current, horizon_hours = horizon, slot_seconds = slot,
          total_demand_units = sum_list (map demand_units fs),
          peak_slot_start = (case peak of None \<Rightarrow> None | Some p \<Rightarrow> if demand_units p > 0 then Some (slot_start p) else None),
          peak_demand_units = (case peak of None \<Rightarrow> 0 | Some p \<Rightarrow> demand_units p),
          fc_slots = fs\<rparr>)"

section \<open>Simulation\<close>

text \<open>A window is keyed by its start and its reset; what is left of it is the value.\<close>

type_synonym windows = "((real \<times> real) \<times> real) list"

definition penalty_step :: "real \<Rightarrow> real \<Rightarrow> real" where
  "penalty_step l r = (let delta = \<bar>r - l\<bar> in if delta < 1800 then 4 else if delta < 3600 then 1 else 0)"

fun adjacent_penalties :: "real list \<Rightarrow> real" where
  "adjacent_penalties (l # r # rs) = penalty_step l r + adjacent_penalties (r # rs)"
| "adjacent_penalties _ = 0"

definition sync_penalty :: "real list \<Rightarrow> real" where
  "sync_penalty reset_epochs = adjacent_penalties (sort reset_epochs)"

definition state_windows :: "account_state list \<Rightarrow> real \<Rightarrow> (real \<times> real \<times> real) list" where
  "state_windows states current_ts =
     map (\<lambda>s. (current_ts, of_int (or_default (primary_reset_at s) 0), DEFAULT_ACCOUNT_WINDOW_CAPACITY * remaining_percent s / 100))
       (filter (\<lambda>s. status s \<in> {ACTIVE, RATE_LIMITED, QUOTA_EXCEEDED} \<and> is_active_window s current_ts) states)"

definition warmup_windows :: "planner_action list \<Rightarrow> (real \<times> real \<times> real) list" where
  "warmup_windows warmups =
     map (\<lambda>a. let start = timestamp (or_default (scheduled_at a) 0)
              in (start, start + of_int (act_window a), DEFAULT_ACCOUNT_WINDOW_CAPACITY))
       (filter (\<lambda>a. scheduled_at a \<noteq> None) warmups)"

definition merge_windows :: "(real \<times> real \<times> real) list \<Rightarrow> windows" where
  "merge_windows ws =
     fold (\<lambda>(start, reset, capacity) m.
             if start \<ge> reset then m
             else AList.update (start, reset) (or_default (map_of m (start, reset)) 0 + capacity) m) ws []"

text \<open>The loop over the windows usable in a slot; it stops once the demand is served.\<close>

fun serve :: "(real \<times> real) list \<Rightarrow> real \<Rightarrow> windows \<Rightarrow> real \<Rightarrow> real \<times> windows \<times> real" where
  "serve [] demand m served = (demand, m, served)"
| "serve (key # keys) demand m served =
     (if demand \<le> 0 then (demand, m, served)
      else let available = or_default (map_of m key) 0; take = min demand available
           in serve keys (demand - take) (AList.update key (available - take) m) (served + take))"

definition usable_windows :: "real \<Rightarrow> windows \<Rightarrow> (real \<times> real) list" where
  "usable_windows slot_ts m = sort (filter (\<lambda>(start, reset). start \<le> slot_ts \<and> slot_ts < reset) (map fst m))"

fun serve_slots :: "forecast_slot list \<Rightarrow> windows \<Rightarrow> real \<Rightarrow> real \<Rightarrow> windows \<times> real \<times> real" where
  "serve_slots [] m unmet served = (m, unmet, served)"
| "serve_slots (sl # sls) m unmet served =
     (case serve (usable_windows (timestamp (slot_start sl)) m) (demand_units sl) m served of
        (demand, m', served') \<Rightarrow> serve_slots sls m' (unmet + max 0 demand) served')"

definition wasted :: "real \<Rightarrow> windows \<Rightarrow> real" where
  "wasted horizon_end m =
     sum_list (map (\<lambda>((start, reset), remaining). max 0 remaining * (1 / 20))
                 (filter (\<lambda>((start, reset), remaining). reset \<le> horizon_end) m))"

definition cold_penalty :: "planner_action list \<Rightarrow> int \<Rightarrow> real" where
  "cold_penalty warmups current =
     sum_list (map (\<lambda>_. 2) (filter (\<lambda>a. act_action a = ''warmup''
                 \<and> (case scheduled_at a of None \<Rightarrow> False | Some t \<Rightarrow> t \<le> current)) warmups))"

definition simulate_pool ::
    "account_state list \<Rightarrow> planner_forecast \<Rightarrow> planner_action list \<Rightarrow> int \<Rightarrow> simulation_result" where
  "simulate_pool states fc warmups current =
     (let ws = state_windows states (timestamp current) @ warmup_windows warmups
      in case serve_slots (fc_slots fc) (merge_windows ws) 0 0 of
           (m, unmet, served) \<Rightarrow>
             let waste = wasted (timestamp (current + us_of (horizon_hours fc * 3600))) m;
                 sync = sync_penalty (map (\<lambda>(start, reset, capacity). reset) ws);
                 cold = cold_penalty warmups current
             in \<lparr>loss = unmet + waste + sync + cold, unmet_demand = unmet, wasted_capacity = waste,
                 cold_start_penalty = cold, synchronization_penalty = sync,
                 forecast_units = total_demand_units fc, served_units = served\<rparr>)"

section \<open>Planning\<close>

fun crossing_starts :: "forecast_slot list \<Rightarrow> int \<Rightarrow> real \<Rightarrow> real \<Rightarrow> int list" where
  "crossing_starts [] window cumulative next_bucket = []"
| "crossing_starts (sl # sls) window cumulative next_bucket =
     (let c = cumulative + demand_units sl
      in if c < next_bucket then crossing_starts sls window c next_bucket
         else (slot_start sl - us_of window) # crossing_starts sls window c (next_bucket + DEFAULT_ACCOUNT_WINDOW_CAPACITY))"

definition demand_capacity_crossing_starts :: "planner_forecast \<Rightarrow> int \<Rightarrow> int list" where
  "demand_capacity_crossing_starts fc window = take 4 (crossing_starts (fc_slots fc) window 0 DEFAULT_ACCOUNT_WINDOW_CAPACITY)"

definition raw_candidates :: "int \<Rightarrow> planner_settings \<Rightarrow> planner_forecast option \<Rightarrow> int list \<Rightarrow> int \<Rightarrow> int list" where
  "raw_candidates now st fc resets window =
     (if inside_work_block now st then [now] else [])
     @ next_work_starts now st 2 [-4, -3, -2]
     @ (case fc of None \<Rightarrow> []
        | Some f \<Rightarrow> (case peak_slot_start f of None \<Rightarrow> []
            | Some p \<Rightarrow> map (\<lambda>off. p - us_of window + us_of (off * 60)) [-60, -30, 0, 30, 60]
                        @ demand_capacity_crossing_starts f window))
     @ concat (map (\<lambda>r. [us_of r + us_of 1800 - us_of window, us_of r - us_of 1800 - us_of window]) resets)"

definition settle_candidate :: "int \<Rightarrow> int \<Rightarrow> int" where
  "settle_candidate now c = max now (floor_datetime (max now c) DEFAULT_SLOT_SECONDS)"

fun normalize_candidates :: "int list \<Rightarrow> int \<Rightarrow> planner_settings \<Rightarrow> int list \<Rightarrow> int list \<Rightarrow> int list" where
  "normalize_candidates [] now st seen acc = acc"
| "normalize_candidates (c # cs) now st seen acc =
     (let d = settle_candidate now c; key = py_int (timestamp d)
      in if key \<in> set seen then normalize_candidates cs now st seen acc
         else normalize_candidates cs now st (key # seen) (if inside_prewarm_band d st then acc @ [d] else acc))"

definition candidate_start_times :: "int \<Rightarrow> planner_settings \<Rightarrow> planner_forecast option \<Rightarrow> int list \<Rightarrow> int \<Rightarrow> int list" where
  "candidate_start_times now st fc resets window =
     take 10 (sort (normalize_candidates (raw_candidates now st fc resets window) now st [] []))"

definition candidate_cost :: "int \<Rightarrow> planner_settings \<Rightarrow> real list \<Rightarrow> int \<Rightarrow> real" where
  "candidate_cost t st resets window =
     sync_penalty (resets @ [timestamp (t + us_of window)])
     + (if allow_synthetic_traffic st \<and> \<not> dry_run st then 1 / 2 else 0)"

definition peak_aligned_gain :: "int \<Rightarrow> planner_settings \<Rightarrow> planner_forecast \<Rightarrow> int \<Rightarrow> real" where
  "peak_aligned_gain t st fc window =
     (let work_slots = filter (\<lambda>sl. inside_work_block (slot_start sl) st) (fc_slots fc)
      in case peak_slot_start fc of None \<Rightarrow> 0
         | Some peak \<Rightarrow>
             if work_slots = [] then 0
             else
               let baseline = quantile (map demand_units work_slots) ''p50'';
                   peak_excess = max 0 (peak_demand_units fc - baseline)
               in if peak_excess < MIN_PEAK_EXCESS_UNITS then 0
                  else
                    let window_end = t + us_of window;
                        window_slots = filter (\<lambda>sl. t \<le> slot_start sl \<and> slot_start sl < window_end) work_slots;
                        reset_aligns_peak = (\<bar>timestamp (window_end - peak)\<bar> \<le> of_int (slot_seconds fc))
                    in if window_slots = [] \<and> \<not> reset_aligns_peak then 0
                       else
                         let window_units = sum_list (map demand_units window_slots);
                             window_excess = max 0 (window_units - baseline * of_nat (length window_slots));
                             reset_bonus = (if reset_aligns_peak then peak_excess else 0)
                         in if \<not> (t \<le> peak \<and> peak < window_end)
                            then max 0 (window_excess - peak_excess) + reset_bonus
                            else window_excess + peak_excess + reset_bonus)"

definition score_candidate_start :: "int \<Rightarrow> planner_settings \<Rightarrow> planner_forecast option \<Rightarrow> real list \<Rightarrow> int \<Rightarrow> real" where
  "score_candidate_start t st fc resets window =
     (case fc of None \<Rightarrow> 0
      | Some f \<Rightarrow> max 0 (peak_aligned_gain t st f window - candidate_cost t st resets window))"

text \<open>One account: nothing, or the action planned for it given the ones planned before.\<close>

definition plan_account ::
    "planner_settings \<Rightarrow> planner_forecast option \<Rightarrow> int \<Rightarrow> int list \<Rightarrow> planner_action list \<Rightarrow> account_state
     \<Rightarrow> planner_action option" where
  "plan_account st fc current active_resets actions s =
     (if \<not> is_warmup_candidate s (timestamp current) then None
      else case plannable_window_seconds s of None \<Rightarrow> None
      | Some window \<Rightarrow>
          (let times = candidate_start_times current st fc active_resets window;
               selected_resets = map (\<lambda>a. timestamp (or_default (scheduled_at a) 0 + us_of (act_window a)))
                                   (filter (\<lambda>a. scheduled_at a \<noteq> None) actions);
               resets = map of_int active_resets @ selected_resets;
               score = (\<lambda>t. score_candidate_start t st fc resets window)
           in case max_by (\<lambda>t. (score t, - timestamp t)) times of
                Inl e \<Rightarrow> None
              | Inr t \<Rightarrow>
                  (if score t < min_expected_gain st then None
                   else let cost = candidate_cost t st resets window
                        in Some \<lparr>act_account = account_id s,
                                 act_action = (if allow_synthetic_traffic st \<and> \<not> dry_run st then ''warmup'' else ''reserve''),
                                 scheduled_at = Some t, act_score = score t,
                                 target_peak_at = (case fc of None \<Rightarrow> None | Some f \<Rightarrow> peak_slot_start f),
                                 expected_gain = score t + cost, expected_cost = cost,
                                 warmup_cycle = Some (warmup_cycle_key t st), act_window = window\<rparr>)))"

fun plan_accounts ::
    "planner_settings \<Rightarrow> planner_forecast option \<Rightarrow> int \<Rightarrow> int list \<Rightarrow> account_state list \<Rightarrow> planner_action list
     \<Rightarrow> planner_action list" where
  "plan_accounts st fc current active_resets [] actions = actions"
| "plan_accounts st fc current active_resets (s # ss) actions =
     plan_accounts st fc current active_resets ss
       (case plan_account st fc current active_resets actions s of None \<Rightarrow> actions | Some a \<Rightarrow> actions @ [a])"

definition plan_shadow_actions ::
    "planner_settings \<Rightarrow> account_state list \<Rightarrow> planner_forecast option \<Rightarrow> int \<Rightarrow> planner_action list" where
  "plan_shadow_actions st states fc current =
     (if ps_mode st = ''off'' \<or> \<not> prewarm_enabled st \<or> \<not> inside_prewarm_band current st then []
      else
        let active_resets = map (\<lambda>s. or_default (primary_reset_at s) 0)
                              (filter (\<lambda>s. is_active_window s (timestamp current)) states);
            actions = plan_accounts st fc current active_resets states []
        in take (nat (max 0 (max_warmups_per_day st)))
             (sort_key (\<lambda>a. (- act_score a, or_default (scheduled_at a) current, act_account a)) actions))"

section \<open>Conservation in the simulation\<close>

definition capacity :: "windows \<Rightarrow> real" where
  "capacity m = sum_list (map snd m)"

definition windows_ok :: "windows \<Rightarrow> bool" where
  "windows_ok m = (distinct (map fst m) \<and> (\<forall>w \<in> set m. 0 \<le> snd w))"

lemma update_capacity:
  "distinct (map fst m) \<Longrightarrow> capacity (AList.update k v m) = capacity m - or_default (map_of m k) 0 + v"
  by (induction m) (auto simp: capacity_def or_default_def split: option.splits dest: map_of_SomeD)

lemma windows_ok_update: "windows_ok m \<Longrightarrow> 0 \<le> v \<Longrightarrow> windows_ok (AList.update k v m)"
proof -
  assume ok: "windows_ok m" and v: "0 \<le> v"
  have "0 \<le> snd w" if "w \<in> set (AList.update k v m)" for w
    using that ok v by (induction m) (auto simp: windows_ok_def split: if_splits)
  then show ?thesis using ok by (simp add: windows_ok_def distinct_update)
qed

lemma window_nonneg: "windows_ok m \<Longrightarrow> 0 \<le> or_default (map_of m k) 0"
  by (auto simp: windows_ok_def or_default_def split: option.split dest: map_of_SomeD)

lemma serve_conserves:
  assumes "windows_ok m" "0 \<le> d" "serve keys d m served = (d', m', served')"
  shows "d' + served' = d + served \<and> 0 \<le> d' \<and> served \<le> served' \<and> windows_ok m'
    \<and> capacity m' + served' = capacity m + served"
  using assms
proof (induction keys d m served rule: serve.induct)
  case (2 key keys d m served)
  let ?a = "or_default (map_of m key) 0"
  let ?t = "min d ?a"
  show ?case
  proof (cases "d \<le> 0")
    case True
    then show ?thesis using "2.prems" by simp
  next
    case False
    have a: "0 \<le> ?a" by (rule window_nonneg [OF "2.prems"(1)])
    have run: "serve keys (d - ?t) (AList.update key (?a - ?t) m) (served + ?t) = (d', m', served')"
      using "2.prems"(3) False by (simp add: Let_def)
    have ok: "windows_ok (AList.update key (?a - ?t) m)" "0 \<le> d - ?t"
      using "2.prems"(1) by (auto intro: windows_ok_update)
    have "capacity (AList.update key (?a - ?t) m) = capacity m - ?t"
      using "2.prems"(1) by (simp add: update_capacity windows_ok_def)
    moreover have "0 \<le> ?t" using a False by simp
    ultimately show ?thesis using "2.IH" [OF False refl refl ok run] by linarith
  qed
qed simp

lemma serve_slots_conserves:
  assumes "windows_ok m" "\<forall>sl \<in> set sls. 0 \<le> demand_units sl" "serve_slots sls m unmet served = (m', unmet', served')"
  shows "unmet' + served' = unmet + served + sum_list (map demand_units sls) \<and> unmet \<le> unmet' \<and> served \<le> served'
    \<and> windows_ok m' \<and> capacity m' + served' = capacity m + served"
  using assms
proof (induction sls m unmet served rule: serve_slots.induct)
  case (2 sl sls m unmet served)
  obtain d1 m1 s1 where one: "serve (usable_windows (timestamp (slot_start sl)) m) (demand_units sl) m served = (d1, m1, s1)"
    by (metis prod_cases3)
  have d: "0 \<le> demand_units sl" "\<forall>sl \<in> set sls. 0 \<le> demand_units sl" using "2.prems"(2) by simp_all
  note c = serve_conserves [OF "2.prems"(1) d(1) one]
  have run: "serve_slots sls m1 (unmet + max 0 d1) s1 = (m', unmet', served')" using "2.prems"(3) one by simp
  have "windows_ok m1" using c by blast
  from "2.IH" [OF one [symmetric] refl this d(2) run] c show ?case by auto
qed simp

definition offered :: "(real \<times> real \<times> real) list \<Rightarrow> real" where
  "offered ws = sum_list (map (\<lambda>(start, reset, cap). cap) ws)"

lemma merge_windows_ok:
  assumes "\<forall>(start, reset, cap) \<in> set ws. 0 \<le> cap"
  shows "windows_ok (merge_windows ws)" "capacity (merge_windows ws) \<le> offered ws"
proof -
  let ?f = "\<lambda>(start, reset, cap) m. if start \<ge> reset then m
             else AList.update (start, reset) (or_default (map_of m (start, reset)) 0 + cap) m"
  have "windows_ok m \<Longrightarrow> windows_ok (fold ?f ws m) \<and> capacity (fold ?f ws m) \<le> capacity m + offered ws" for m
    using assms
  proof (induction ws arbitrary: m)
    case (Cons w ws)
    obtain start reset cap where w: "w = (start, reset, cap)" by (metis prod_cases3)
    have cap: "0 \<le> cap" using Cons.prems(2) by (simp add: w)
    have "windows_ok (?f w m)" "capacity (?f w m) \<le> capacity m + cap"
      using Cons.prems(1) cap window_nonneg [OF Cons.prems(1), of "(start, reset)"]
      by (auto simp: w update_capacity windows_ok_def [of m] intro!: windows_ok_update)
    then show ?case using Cons.IH [of "?f w m"] Cons.prems(2) by (simp add: offered_def w)
  qed (simp add: offered_def)
  from this [of "[]"] show "windows_ok (merge_windows ws)" "capacity (merge_windows ws) \<le> offered ws"
    by (simp_all add: merge_windows_def windows_ok_def capacity_def)
qed

lemma planned_windows_nonneg:
  "\<forall>(start, reset, cap) \<in> set (state_windows states t @ warmup_windows warmups). 0 \<le> cap"
  by (auto simp: state_windows_def warmup_windows_def Let_def DEFAULT_ACCOUNT_WINDOW_CAPACITY_def remaining_percent_def
      split: option.split)

lemma simulated_demand:
  assumes "\<forall>sl \<in> set (fc_slots fc). 0 \<le> demand_units sl"
  shows "served_units (simulate_pool states fc warmups now) + unmet_demand (simulate_pool states fc warmups now)
      = sum_list (map demand_units (fc_slots fc))
    \<and> 0 \<le> served_units (simulate_pool states fc warmups now) \<and> 0 \<le> unmet_demand (simulate_pool states fc warmups now)
    \<and> served_units (simulate_pool states fc warmups now)
        \<le> offered (state_windows states (timestamp now) @ warmup_windows warmups)"
proof -
  let ?ws = "state_windows states (timestamp now) @ warmup_windows warmups"
  obtain m unmet served where run: "serve_slots (fc_slots fc) (merge_windows ?ws) 0 0 = (m, unmet, served)"
    by (metis prod_cases3)
  note merged = merge_windows_ok [OF planned_windows_nonneg [of states "timestamp now" warmups]]
  note c = serve_slots_conserves [OF merged(1) assms run]
  have "0 \<le> capacity m" using c by (auto simp: capacity_def windows_ok_def intro!: sum_list_nonneg)
  then show ?thesis using c merged(2) by (simp add: simulate_pool_def run Let_def)
qed

text \<open>
  The simulation neither loses nor invents demand: what it serves and what it leaves unmet add
  up to the demand of the forecast's slots, both are not negative, and it serves no more than the
  windows of the accounts and of the planned warm-ups offer.
\<close>

theorem simulation_conserves_demand:
  assumes "\<forall>sl \<in> set (fc_slots fc). 0 \<le> demand_units sl"
  shows "served_units (simulate_pool states fc warmups now) + unmet_demand (simulate_pool states fc warmups now)
      = sum_list (map demand_units (fc_slots fc))
    \<and> 0 \<le> served_units (simulate_pool states fc warmups now) \<and> 0 \<le> unmet_demand (simulate_pool states fc warmups now)
    \<and> served_units (simulate_pool states fc warmups now)
        \<le> offered (state_windows states (timestamp now) @ warmup_windows warmups)"
  by (rule simulated_demand [OF assms])

theorem simulation_conserves_demand_witness:
  "served_units (simulate_pool [] \<lparr>generated_at = 0, horizon_hours = 1, slot_seconds = 900, total_demand_units = 70,
      peak_slot_start = None, peak_demand_units = 0,
      fc_slots = [\<lparr>slot_start = 0, demand_units = 70, slot_requests = 7\<rparr>]\<rparr> [] 0)
   + unmet_demand (simulate_pool [] \<lparr>generated_at = 0, horizon_hours = 1, slot_seconds = 900, total_demand_units = 70,
      peak_slot_start = None, peak_demand_units = 0,
      fc_slots = [\<lparr>slot_start = 0, demand_units = 70, slot_requests = 7\<rparr>]\<rparr> [] 0) = 70"
  using simulation_conserves_demand [of "\<lparr>generated_at = 0, horizon_hours = 1, slot_seconds = 900, total_demand_units = 70,
      peak_slot_start = None, peak_demand_units = 0,
      fc_slots = [\<lparr>slot_start = 0, demand_units = 70, slot_requests = 7\<rparr>]\<rparr>" "[]" "[]" 0] by simp

section \<open>The plan\<close>

lemma normalize_candidates_keep:
  assumes "\<And>c. inside_prewarm_band (settle_candidate now c) st \<Longrightarrow> P (settle_candidate now c)"
  shows "list_all P acc \<Longrightarrow> list_all P (normalize_candidates cs now st seen acc)"
  by (induction cs arbitrary: seen acc) (simp_all add: Let_def assms)

lemma candidate_times_in_band:
  assumes "t \<in> set (candidate_start_times now st fc resets window)"
  shows "now \<le> t \<and> inside_prewarm_band t st"
proof -
  have "now \<le> settle_candidate now c" for c by (simp add: settle_candidate_def)
  then have "list_all (\<lambda>t. now \<le> t \<and> inside_prewarm_band t st)
      (normalize_candidates (raw_candidates now st fc resets window) now st [] [])"
    by (intro normalize_candidates_keep) simp_all
  moreover have "t \<in> set (normalize_candidates (raw_candidates now st fc resets window) now st [] [])"
    using assms unfolding candidate_start_times_def by (metis in_set_takeD set_sort)
  ultimately show ?thesis unfolding list_all_iff by blast
qed

definition action_ok :: "planner_settings \<Rightarrow> account_state list \<Rightarrow> int \<Rightarrow> planner_action \<Rightarrow> bool" where
  "action_ok st states now a =
     ((\<exists>s \<in> set states. account_id s = act_account a \<and> is_warmup_candidate s (timestamp now)
         \<and> plannable_window_seconds s = Some (act_window a))
      \<and> (\<exists>t. scheduled_at a = Some t \<and> now \<le> t \<and> inside_prewarm_band t st)
      \<and> min_expected_gain st \<le> act_score a \<and> expected_gain a = act_score a + expected_cost a
      \<and> (act_action a = ''warmup'') = (allow_synthetic_traffic st \<and> \<not> dry_run st))"

lemma plan_account_ok:
  assumes "plan_account st fc now resets actions s = Some a" "s \<in> set states"
  shows "action_ok st states now a"
proof -
  have cand: "is_warmup_candidate s (timestamp now)" using assms(1) by (simp add: plan_account_def split: if_splits)
  then obtain window where w: "plannable_window_seconds s = Some window" by (auto simp: is_warmup_candidate_def)
  define rs where "rs = map of_int resets @ map (\<lambda>a. timestamp (or_default (scheduled_at a) 0 + us_of (act_window a)))
                                   (filter (\<lambda>a. scheduled_at a \<noteq> None) actions)"
  obtain t where t: "max_by (\<lambda>t. (score_candidate_start t st fc rs window, - timestamp t))
      (candidate_start_times now st fc resets window) = Inr t"
    using assms(1) cand w by (auto simp: plan_account_def Let_def rs_def split: sum.splits)
  have "now \<le> t \<and> inside_prewarm_band t st" by (rule candidate_times_in_band [OF max_by_in [OF t]])
  moreover have "min_expected_gain st \<le> score_candidate_start t st fc rs window
    \<and> a = \<lparr>act_account = account_id s,
             act_action = (if allow_synthetic_traffic st \<and> \<not> dry_run st then ''warmup'' else ''reserve''),
             scheduled_at = Some t, act_score = score_candidate_start t st fc rs window,
             target_peak_at = (case fc of None \<Rightarrow> None | Some f \<Rightarrow> peak_slot_start f),
             expected_gain = score_candidate_start t st fc rs window + candidate_cost t st rs window,
             expected_cost = candidate_cost t st rs window, warmup_cycle = Some (warmup_cycle_key t st), act_window = window\<rparr>"
    using assms(1) cand w t unfolding plan_account_def Let_def rs_def [symmetric] by (auto split: if_splits)
  ultimately show ?thesis using assms(2) cand w by (auto simp: action_ok_def)
qed

lemma plan_accounts_ok:
  assumes "\<forall>a \<in> set actions. action_ok st states now a" "set ss \<subseteq> set states"
  shows "\<forall>a \<in> set (plan_accounts st fc now resets ss actions). action_ok st states now a"
  using assms
proof (induction ss arbitrary: actions)
  case (Cons s ss)
  have "\<forall>a \<in> set (case plan_account st fc now resets actions s of None \<Rightarrow> actions | Some a \<Rightarrow> actions @ [a]). action_ok st states now a"
    using Cons.prems plan_account_ok by (auto split: option.split)
  then show ?case using Cons.IH Cons.prems(2) by simp
qed simp

lemma sorted_scores:
  fixes key :: "'a \<Rightarrow> real \<times> 'b :: linorder"
  assumes "sorted (map key xs)"
  shows "sorted_wrt (\<lambda>a b. fst (key a) \<le> fst (key b)) xs"
  using assms by (induction xs) (auto simp: less_eq_prod_def)


section \<open>Costs, forecast, settings\<close>

lemma account_cost_bounds: "- 20 \<le> fst (account_cost st now s) \<and> fst (account_cost st now s) \<le> 43"
proof -
  have "0 \<le> max 0 x / 3600 \<and> max 0 x / 3600 \<le> 1" if "x \<le> 3600" for x :: real using that by simp
  then have "- 20 \<le> fst (window_cost st now s) \<and> fst (window_cost st now s) \<le> 40"
    by (auto simp: window_cost_def Let_def EXPIRING_WINDOW_SECONDS_def)
  then show ?thesis by (auto simp: account_cost_def split: prod.split)
qed

definition cost_entry_ok :: "planner_settings \<Rightarrow> int \<Rightarrow> (string \<times> routing_cost \<Rightarrow> bool) \<Rightarrow> account_state \<Rightarrow> bool" where
  "cost_entry_ok st now P s =
     (case account_cost st now s of (c, reasons) \<Rightarrow>
        P (account_id s, \<lparr>total_cost = c, cost_reason = Some (join_reasons reasons)\<rparr>))"

lemma list_all_update: "list_all P m \<Longrightarrow> P (k, v) \<Longrightarrow> list_all P (AList.update k v m)"
  by (induction m) auto

lemma fold_costs_keep:
  "(\<And>s. s \<in> set ss \<Longrightarrow> cost_entry_ok st now P s) \<Longrightarrow> list_all P m \<Longrightarrow> list_all P (fold (add_account_cost st now) ss m)"
proof (induction ss arbitrary: m)
  case (Cons s ss)
  have "list_all P (add_account_cost st now s m)"
    using Cons.prems(1) [of s] Cons.prems(2)
    by (auto simp: add_account_cost_def cost_entry_ok_def list_all_update split: prod.splits)
  then show ?case using Cons by simp
qed simp

text \<open>
  Planner costs are a bounded nudge: every cost the planner hands to the selector lies between
  -20 and 43 and belongs to an account of the pool, and a planner that is off hands out none.
\<close>

theorem routing_costs_bounded:
  "list_all (\<lambda>(aid, c). - 20 \<le> total_cost c \<and> total_cost c \<le> 43 \<and> aid \<in> account_id ` set states)
     (build_routing_costs st states now)
   \<and> build_routing_costs (st\<lparr>ps_mode := ''off''\<rparr>) states now = []"
proof (cases "ps_mode st = ''off''")
  case False
  let ?ok = "\<lambda>(aid, c). - 20 \<le> total_cost c \<and> total_cost c \<le> 43 \<and> aid \<in> account_id ` set states"
  have "cost_entry_ok st now ?ok s" if "s \<in> set states" for s
    using that account_cost_bounds [of st now s] by (simp add: cost_entry_ok_def case_prod_beta)
  then have "list_all ?ok (fold (add_account_cost st now) states [])" by (intro fold_costs_keep) simp_all
  then show ?thesis using False by (simp add: build_routing_costs_def)
qed (simp add: build_routing_costs_def)

lemma collect_days_fresh:
  "distinct (days @ ds) \<Longrightarrow> \<forall>d \<in> set ds. 0 \<le> d \<and> d \<le> 6 \<Longrightarrow> collect_days (map JInt ds) days = days @ ds"
  by (induction ds arbitrary: days) auto

text \<open>
  Working days survive storage: what is read back is the sorted set of the valid days that were
  stored, or Monday to Friday when there was none.
\<close>

theorem working_days_roundtrip:
  "parse_working_days (Some (encode_working_days days))
   = first_nonempty (sort (remdups (filter (\<lambda>d. 0 \<le> d \<and> d \<le> 6) days))) DEFAULT_WORKING_DAYS"
proof -
  let ?ds = "sort (remdups (filter (\<lambda>d. 0 \<le> d \<and> d \<le> 6) days))"
  have "parse_working_days (Some (map JInt ds)) = ds" if "distinct ds" "\<forall>d \<in> set ds. 0 \<le> d \<and> d \<le> 6" "ds \<noteq> []" for ds
    using that collect_days_fresh [of "[]" ds] by (simp add: parse_working_days_def first_nonempty_def)
  note keep = this
  show ?thesis
  proof (cases "?ds = []")
    case True
    then show ?thesis using keep [of DEFAULT_WORKING_DAYS]
      by (simp add: encode_working_days_def first_nonempty_def) (simp add: DEFAULT_WORKING_DAYS_def)
  next
    case False
    then have "first_nonempty ?ds DEFAULT_WORKING_DAYS = ?ds" unfolding first_nonempty_def by (rule if_not_P)
    moreover have "parse_working_days (Some (map JInt ?ds)) = ?ds" using False by (intro keep) auto
    ultimately show ?thesis unfolding encode_working_days_def by (simp only:)
  qed
qed

text \<open>
  The forecast is consistent: it has one slot per slot length of the horizon, every demand is
  between zero and the reported peak, the total is the sum of the slots, and simulating it splits
  exactly that total into served and unmet demand.
\<close>

theorem forecast_consistent:
  "length (fc_slots (build_demand_forecast st bins now horizon slot)) = nat (py_int (of_int (horizon * 3600) / of_int slot))
   \<and> list_all (\<lambda>sl. 0 \<le> demand_units sl \<and> demand_units sl \<le> peak_demand_units (build_demand_forecast st bins now horizon slot))
        (fc_slots (build_demand_forecast st bins now horizon slot))
   \<and> served_units (simulate_pool states (build_demand_forecast st bins now horizon slot) warmups t)
      + unmet_demand (simulate_pool states (build_demand_forecast st bins now horizon slot) warmups t)
      = total_demand_units (build_demand_forecast st bins now horizon slot)"
proof -
  let ?fc = "build_demand_forecast st bins now horizon slot"
  have nn: "\<forall>sl \<in> set (fc_slots ?fc). 0 \<le> demand_units sl"
    by (simp add: build_demand_forecast_def Let_def forecast_one_def)
  have total: "total_demand_units ?fc = sum_list (map demand_units (fc_slots ?fc))"
    and peak: "peak_demand_units ?fc = (case max_by demand_units (fc_slots ?fc) of Inl e \<Rightarrow> 0 | Inr p \<Rightarrow> demand_units p)"
    by (simp_all add: build_demand_forecast_def Let_def split: sum.split)
  have "demand_units sl \<le> peak_demand_units ?fc" if "sl \<in> set (fc_slots ?fc)" for sl
    using that max_by_ge [of demand_units "fc_slots ?fc" _ sl]
    by (cases "max_by demand_units (fc_slots ?fc)") (auto simp: peak)
  moreover have "length (fc_slots ?fc) = nat (py_int (of_int (horizon * 3600) / of_int slot))"
    by (simp add: build_demand_forecast_def Let_def)
  ultimately show ?thesis
    using nn simulated_demand [OF nn, of states warmups t] by (simp add: list_all_iff total)
qed


end
