(* ===== verification/Selection_Inputs.thy ===== *)
theory Selection_Inputs
  imports Account_Recovery Quota_Planner
begin

text \<open>
  What a selection of the load balancer works on: \<open>_SelectionInputs\<close> of
  \<open>modules/proxy/load_balancer.py\<close>, the states built from it (\<open>_build_states\<close>,
  \<open>_prepare_sticky_selection_states\<close>), and the scoping of the loaded inputs that
  \<open>LoadBalancer.select_account\<close> wraps around the load: security authorisation, excluded accounts
  and the required continuity owner. Dictionaries are association lists, sets of account
  identifiers are lists. Cloned rows are the rows.
\<close>

section \<open>Inputs\<close>

record selection_inputs =
  si_accounts :: "account_row list"
  si_primary :: "(string \<times> usage_entry) list"
  si_secondary :: "(string \<times> usage_entry) list"
  si_monthly :: "(string \<times> usage_entry) list"
  si_owner_candidates :: "account_row list option"
  si_planner :: planner_settings
  si_runtime_accounts :: "account_row list option"
  si_error_message :: "string option"
  si_error_code :: "string option"
  si_ignore_ids :: "string list"
  si_ignore_status :: bool
  si_persist_status :: bool
  si_policy_override :: "string option"
  si_omission_ids :: "string list"

text \<open>The constructor with the defaults of the fields that are not given.\<close>

definition new_inputs ::
    "account_row list \<Rightarrow> (string \<times> usage_entry) list \<Rightarrow> (string \<times> usage_entry) list \<Rightarrow> (string \<times> usage_entry) list
     \<Rightarrow> planner_settings \<Rightarrow> selection_inputs" where
  "new_inputs accounts primary secondary monthly planner =
     \<lparr>si_accounts = accounts, si_primary = primary, si_secondary = secondary, si_monthly = monthly,
      si_owner_candidates = None, si_planner = planner, si_runtime_accounts = None, si_error_message = None,
      si_error_code = None, si_ignore_ids = [], si_ignore_status = False, si_persist_status = True,
      si_policy_override = None, si_omission_ids = []\<rparr>"

definition effective_continuity_owner_candidates :: "selection_inputs \<Rightarrow> account_row list" where
  "effective_continuity_owner_candidates si = or_default (si_owner_candidates si) (si_accounts si)"

definition inputs_failed :: "selection_inputs \<Rightarrow> bool" where
  "inputs_failed si = (si_error_code si \<noteq> None \<and> si_accounts si = [])"

section \<open>States\<close>

type_synonym account_map = "(string \<times> account_row) list"

definition with_policy :: "selection_inputs \<Rightarrow> string \<Rightarrow> account_state \<Rightarrow> account_state" where
  "with_policy si aid s =
     (let s1 = (case si_policy_override si of
                  Some p \<Rightarrow> (if aid \<in> set (si_ignore_ids si) then s\<lparr>routing_policy := p\<rparr> else s)
                | None \<Rightarrow> s)
      in s1\<lparr>ignore_standard_quota := aid \<in> set (si_ignore_ids si)\<rparr>)"

definition long_entry :: "selection_inputs \<Rightarrow> account_row \<Rightarrow> usage_entry option" where
  "long_entry si a =
     (let secondary = map_of (si_secondary si) (row_id a)
      in if row_id a \<notin> set (si_ignore_ids si)
         then select_long_window_entry a (map_of (si_monthly si) (row_id a)) secondary else secondary)"

text \<open>\<open>clock\<close> is the time read when the state of an account is built.\<close>

fun build_states ::
    "recovery_settings \<Rightarrow> (string \<Rightarrow> real) \<Rightarrow> selection_inputs \<Rightarrow> account_row list \<Rightarrow> account_map \<Rightarrow> runtime_table
     \<Rightarrow> account_state list \<times> account_map \<times> runtime_table" where
  "build_states cfg clock si [] amap m = ([], amap, m)"
| "build_states cfg clock si (a # as) amap m =
     (let (rt, m1) = runtime_setdefault (row_id a) m;
          (s, rt') = state_from_account cfg (clock (row_id a)) a (map_of (si_primary si) (row_id a)) (long_entry si a) rt;
          (states, amap', m') =
            build_states cfg clock si as (AList.update (row_id a) a amap) (AList.update (row_id a) rt' m1)
      in (with_policy si (row_id a) s # states, amap', m'))"

definition prune_ids :: "selection_inputs \<Rightarrow> string list" where
  "prune_ids si =
     map row_id (case si_runtime_accounts si of None \<Rightarrow> si_accounts si | Some rs \<Rightarrow> (if rs = [] then si_accounts si else rs))"

definition prepare_sticky_selection_states ::
    "recovery_settings \<Rightarrow> lease_settings \<Rightarrow> real \<Rightarrow> (string \<Rightarrow> real) \<Rightarrow> selection_inputs \<Rightarrow> string option \<Rightarrow> runtime_table
     \<Rightarrow> account_state list \<times> account_map \<times> runtime_table" where
  "prepare_sticky_selection_states cfg leases monotonic clock si required_account_id m =
     (let m1 = prune_runtime (prune_ids si) (reclaim_stale_account_leases_locked monotonic leases m);
          (states, amap, m2) = build_states cfg clock si (si_accounts si) [] m1
      in case required_account_id of
           None \<Rightarrow> (states, amap, m2)
         | Some r \<Rightarrow> (filter (\<lambda>s. account_id s = r) states, filter (\<lambda>p. fst p = r) amap, m2))"

section \<open>Scoping of the loaded inputs\<close>

definition CONTINUITY_OWNER_UNAVAILABLE :: string where "CONTINUITY_OWNER_UNAVAILABLE = ''continuity_owner_unavailable''"
definition CONTINUITY_OWNER_POLICY_CONFLICT :: string where
  "CONTINUITY_OWNER_POLICY_CONFLICT = ''continuity_owner_policy_conflict''"

definition required_continuity_owner_failure :: "selection_inputs \<Rightarrow> string \<Rightarrow> (string \<times> string) option" where
  "required_continuity_owner_failure si required_account_id =
     (if si_error_code si \<noteq> None then None
      else if required_account_id \<in> set (map row_id (effective_continuity_owner_candidates si))
              \<union> set (map row_id (si_accounts si)) then None
      else if required_account_id \<notin> set (map row_id (or_default (si_runtime_accounts si) (si_accounts si)))
           then Some (CONTINUITY_OWNER_UNAVAILABLE, ''Required continuity owner account no longer exists'')
      else Some (CONTINUITY_OWNER_POLICY_CONFLICT, ''Required continuity owner is outside the eligible account policy''))"

definition no_security_accounts :: "selection_inputs \<Rightarrow> account_row list \<Rightarrow> selection_inputs" where
  "no_security_accounts si owner_candidates =
     (new_inputs [] [] [] (si_monthly si) (si_planner si))
       \<lparr>si_owner_candidates := Some owner_candidates, si_runtime_accounts := si_runtime_accounts si,
        si_error_message := Some ''No accounts marked as authorized for security work'',
        si_error_code := Some ''no_security_work_authorized_accounts''\<rparr>"

datatype scoped = Refused_scope selection_inputs | Scoped selection_inputs

definition security_scope :: "bool \<Rightarrow> selection_inputs \<Rightarrow> scoped" where
  "security_scope require_security si =
     (if \<not> require_security then Scoped si
      else
        let owners = filter row_security_authorized (effective_continuity_owner_candidates si);
            authorized = filter row_security_authorized (si_accounts si)
        in if si_accounts si \<noteq> [] \<and> authorized = [] then Refused_scope (no_security_accounts si owners)
           else Scoped (si\<lparr>si_accounts := authorized, si_owner_candidates := Some owners\<rparr>))"

definition exclusion_scope :: "bool \<Rightarrow> string list \<Rightarrow> selection_inputs \<Rightarrow> scoped" where
  "exclusion_scope require_security excluded_ids si =
     (if excluded_ids = [] \<or> si_accounts si = [] then Scoped si
      else
        let filtered = filter (\<lambda>a. row_id a \<notin> set excluded_ids) (si_accounts si)
        in if require_security \<and> filtered = []
           then Refused_scope (no_security_accounts si (effective_continuity_owner_candidates si))
           else Scoped (si\<lparr>si_accounts := filtered,
                           si_owner_candidates := Some (effective_continuity_owner_candidates si)\<rparr>))"

definition owner_scope :: "string option \<Rightarrow> selection_inputs \<Rightarrow> selection_inputs" where
  "owner_scope required_owner si =
     (case required_owner of None \<Rightarrow> si
      | Some r \<Rightarrow>
          (case required_continuity_owner_failure si r of None \<Rightarrow> si
           | Some (code, msg) \<Rightarrow>
               si\<lparr>si_accounts := [], si_primary := [], si_secondary := [], si_error_message := Some msg,
                  si_error_code := Some code\<rparr>))"

text \<open>\<open>required_owner\<close> is the required account when it is required as continuity owner.\<close>

definition scope_inputs :: "bool \<Rightarrow> string list \<Rightarrow> string option \<Rightarrow> selection_inputs \<Rightarrow> selection_inputs" where
  "scope_inputs require_security excluded_ids required_owner si =
     (case security_scope require_security si of
        Refused_scope r \<Rightarrow> r
      | Scoped si1 \<Rightarrow>
          (case exclusion_scope require_security excluded_ids si1 of
             Refused_scope r \<Rightarrow> r
           | Scoped si2 \<Rightarrow> owner_scope required_owner si2))"


section \<open>What building the states leaves alone\<close>

definition lease_view :: "runtime_state \<Rightarrow> lease_table option \<times> int \<times> int \<times> real \<times> real option" where
  "lease_view rt =
     (rt_leases rt, rt_inflight_response_creates rt, rt_inflight_streams rt, rt_leased_tokens rt, rt_last_selected_at rt)"

lemma health_tier_lease_view: "lease_view (snd (sync_runtime_health_tier aid st u su pol w n soft rt)) = lease_view rt"
  by (simp add: sync_runtime_health_tier_def Let_def lease_view_def apply_health_tier_def bump_health_def)

lemma state_from_account_frame:
  assumes "state_from_account cfg now a pe se rt = (s, rt')"
  shows "lease_view rt' = lease_view rt" "account_id s = row_id a"
    "inflight_response_creates s = rt_inflight_response_creates rt" "inflight_streams s = rt_inflight_streams rt"
proof -
  let ?q = "recover_account cfg now a pe se rt"
  let ?h = "sync_runtime_health_tier (row_id a) (rec_status ?q) (rec_used ?q) (n_secondary_used (rec_usage ?q))
      (normalize_account_routing_policy (row_routing_policy a)) now now (soft_drain_enabled cfg) rt"
  have v: "lease_view (snd ?h) = lease_view rt" by (rule health_tier_lease_view)
  have "rt' = snd ?h" using assms by (auto simp: state_from_account_def Let_def split: prod.splits)
  then show "lease_view rt' = lease_view rt" using v by simp
  show "account_id s = row_id a" "inflight_response_creates s = rt_inflight_response_creates rt"
    "inflight_streams s = rt_inflight_streams rt"
    using assms v by (auto simp: state_from_account_def Let_def new_account_state_def lease_view_def split: prod.splits)
qed

lemma with_policy_frame [simp]:
  "account_id (with_policy si aid s) = account_id s"
  "inflight_response_creates (with_policy si aid s) = inflight_response_creates s"
  "inflight_streams (with_policy si aid s) = inflight_streams s"
  by (simp_all add: with_policy_def Let_def split: option.split)

lemma wf_runtime_view:
  assumes "lease_view rt' = lease_view rt" "wf_runtime aid rt"
  shows "wf_runtime aid rt'" "leases_of rt' = leases_of rt"
  using assms by (simp_all add: lease_view_def wf_runtime_def leases_of_def)

text \<open>The entry of an account keeps its leases, its counters and its time of last selection.\<close>

definition same_leases :: "runtime_table \<Rightarrow> runtime_table \<Rightarrow> bool" where
  "same_leases m m' =
     (wf_table m' \<and> table_leases m' = table_leases m
      \<and> (\<forall>x rt. map_of m x = Some rt \<longrightarrow> (\<exists>rt'. map_of m' x = Some rt' \<and> lease_view rt' = lease_view rt)))"

lemma same_leases_trans: "same_leases m m' \<Longrightarrow> same_leases m' m'' \<Longrightarrow> same_leases m m''"
  by (fastforce simp: same_leases_def)

lemma same_leases_step:
  assumes "wf_table m" "runtime_setdefault aid m = (rt, m1)" "lease_view rt' = lease_view rt"
  shows "same_leases m (AList.update aid rt' m1)"
proof -
  note d = setdefault_wf [OF assms(1,2)]
  have "map_of m x = Some r \<Longrightarrow> map_of m1 x = Some r" for x r
    using assms(2) by (auto simp: runtime_setdefault_def update_conv' split: option.splits if_splits)
  then show ?thesis
    using d wf_runtime_view [OF assms(3) d(3)] assms(3) d(2)
    by (auto simp: same_leases_def update_conv' intro: wf_table_update)
qed

definition state_matches :: "runtime_table \<Rightarrow> account_state \<Rightarrow> bool" where
  "state_matches m s =
     (\<exists>rt. map_of m (account_id s) = Some rt \<and> inflight_response_creates s = rt_inflight_response_creates rt
           \<and> inflight_streams s = rt_inflight_streams rt)"

lemma state_matches_mono: "same_leases m m' \<Longrightarrow> state_matches m s \<Longrightarrow> state_matches m' s"
  by (fastforce simp: same_leases_def state_matches_def lease_view_def)

lemma build_states_spec:
  assumes "build_states cfg clock si as amap m = (states, amap', m')" "wf_table m"
  shows "same_leases m m' \<and> map account_id states = map row_id as \<and> (\<forall>s\<in>set states. state_matches m' s)"
  using assms
proof (induction cfg clock si as amap m arbitrary: states rule: build_states.induct)
  case (1 cfg clock si amap m)
  then show ?case by (auto simp: same_leases_def)
next
  case (2 cfg clock si a as amap m)
  obtain rt m1 where d: "runtime_setdefault (row_id a) m = (rt, m1)" by fastforce
  obtain s rt' where f: "state_from_account cfg (clock (row_id a)) a (map_of (si_primary si) (row_id a)) (long_entry si a) rt = (s, rt')"
    by fastforce
  let ?m2 = "AList.update (row_id a) rt' m1"
  obtain ss where b: "build_states cfg clock si as (AList.update (row_id a) a amap) ?m2 = (ss, amap', m')"
    and states: "states = with_policy si (row_id a) s # ss"
    using 2(2) by (auto simp: d f split: prod.splits)
  note fr = state_from_account_frame [OF f]
  have step: "same_leases m ?m2" by (rule same_leases_step [OF 2(3) d fr(1)])
  have ih: "same_leases ?m2 m'" "map account_id ss = map row_id as" "\<forall>s\<in>set ss. state_matches m' s"
    using 2(1) [OF d [symmetric] refl f [symmetric] refl b] step by (auto simp: same_leases_def)
  have "state_matches ?m2 (with_policy si (row_id a) s)"
    using fr by (auto simp: state_matches_def update_conv' lease_view_def)
  then have "state_matches m' (with_policy si (row_id a) s)" by (rule state_matches_mono [OF ih(1)])
  then show ?case using states ih same_leases_trans [OF step ih(1)] fr(2) by simp
qed

lemma build_states_map:
  assumes "build_states cfg clock si as amap m = (states, amap', m')" "\<And>x r. map_of amap x = Some r \<Longrightarrow> row_id r = x"
  shows "(\<forall>x r. map_of amap' x = Some r \<longrightarrow> row_id r = x)
    \<and> {x. map_of amap' x \<noteq> None} = {x. map_of amap x \<noteq> None} \<union> row_id ` set as"
  using assms
proof (induction cfg clock si as amap m arbitrary: states rule: build_states.induct)
  case (1 cfg clock si amap m)
  then show ?case by auto
next
  case (2 cfg clock si a as amap m)
  obtain rt m1 where d: "runtime_setdefault (row_id a) m = (rt, m1)" by fastforce
  obtain s rt' where f: "state_from_account cfg (clock (row_id a)) a (map_of (si_primary si) (row_id a)) (long_entry si a) rt = (s, rt')"
    by fastforce
  let ?m2 = "AList.update (row_id a) rt' m1"
  obtain ss where b: "build_states cfg clock si as (AList.update (row_id a) a amap) ?m2 = (ss, amap', m')"
    using 2(2) by (auto simp: d f split: prod.splits)
  have "row_id r = x" if "map_of (AList.update (row_id a) a amap) x = Some r" for x r
    using that 2(3) [of x r] by (cases "x = row_id a") (simp_all add: update_conv')
  note ih = 2(1) [OF d [symmetric] refl f [symmetric] refl b this]
  have "{x. map_of (AList.update (row_id a) a amap) x \<noteq> None} = insert (row_id a) {x. map_of amap x \<noteq> None}"
    by (auto simp: update_conv')
  then show ?case using ih by simp
qed


section \<open>The time of last selection\<close>

definition last_selected :: "runtime_table \<Rightarrow> string \<Rightarrow> real option" where
  "last_selected m x = (case map_of m x of None \<Rightarrow> None | Some rt \<Rightarrow> rt_last_selected_at rt)"

text \<open>No entry gets a time of last selection it did not have.\<close>

definition no_new_times :: "runtime_table \<Rightarrow> runtime_table \<Rightarrow> bool" where
  "no_new_times m m' = (\<forall>x. last_selected m' x = last_selected m x \<or> last_selected m' x = None)"

lemma no_new_times_refl [simp]: "no_new_times m m"
  by (simp add: no_new_times_def)

lemma no_new_times_trans: "no_new_times m m' \<Longrightarrow> no_new_times m' m'' \<Longrightarrow> no_new_times m m''"
  by (metis no_new_times_def)

lemma last_selected_update: "last_selected (AList.update a rt m) x = (if x = a then rt_last_selected_at rt else last_selected m x)"
  by (simp add: last_selected_def update_conv')

lemma last_selected_lookup: "map_of m x = Some rt \<Longrightarrow> last_selected m x = rt_last_selected_at rt"
  by (simp add: last_selected_def)

lemma last_selected_setdefault:
  assumes "runtime_setdefault a m = (rt, m')"
  shows "last_selected m' x = last_selected m x" "rt_last_selected_at rt = last_selected m a"
proof -
  have "rt_last_selected_at new_runtime = None" by (simp add: new_runtime_def)
  then show "last_selected m' x = last_selected m x" "rt_last_selected_at rt = last_selected m a"
    using assms last_selected_lookup [of m a] last_selected_def [of m a]
    by (cases "map_of m a"; force simp: runtime_setdefault_def last_selected_update)+
qed

lemma forget_last_selected [simp]: "rt_last_selected_at (forget_lease i c rt) = rt_last_selected_at rt"
  by (simp add: forget_lease_def Let_def sub_inflight_def split: lease_kind.split)

lemma release_last_selected: "last_selected (snd (release_account_lease_locked l m)) x = last_selected m x"
  by (auto simp: release_account_lease_locked_def last_selected_update last_selected_lookup split: option.split)

lemma fold_release_last_selected:
  "last_selected (fold (\<lambda>l m'. snd (release_account_lease_locked l m')) ls m) x = last_selected m x"
  by (induction ls arbitrary: m) (simp_all add: release_last_selected)

lemma reclaim_last_selected: "last_selected (reclaim_stale_account_leases_locked t st m) x = last_selected m x"
proof -
  have "last_selected (reclaim_runtime t st a n) x = last_selected n x" for a n
    by (simp add: reclaim_runtime_def fold_release_last_selected split: option.split)
  then have "last_selected (fold (reclaim_runtime t st) as n) x = last_selected n x" for as n
    by (induction as arbitrary: n) simp_all
  then show ?thesis by (simp add: reclaim_stale_account_leases_locked_def)
qed

lemma delete_no_new_times: "no_new_times m (AList.delete a m)"
  by (simp add: no_new_times_def last_selected_def delete_conv')

lemma prune_no_new_times: "no_new_times m (prune_runtime ids m)"
proof -
  have "no_new_times n (fold AList.delete as n)" for as and n :: runtime_table
    by (induction as arbitrary: n) (auto intro: no_new_times_trans [OF delete_no_new_times])
  then show ?thesis by (simp add: prune_runtime_def Let_def)
qed

lemma build_states_last_selected:
  assumes "build_states cfg clock si as amap m = (states, amap', m')"
  shows "last_selected m' x = last_selected m x"
  using assms
proof (induction cfg clock si as amap m arbitrary: states rule: build_states.induct)
  case (2 cfg clock si a as amap m)
  obtain rt m1 where d: "runtime_setdefault (row_id a) m = (rt, m1)" by fastforce
  obtain s rt' where f: "state_from_account cfg (clock (row_id a)) a (map_of (si_primary si) (row_id a)) (long_entry si a) rt = (s, rt')"
    by fastforce
  obtain ss where b: "build_states cfg clock si as (AList.update (row_id a) a amap) (AList.update (row_id a) rt' m1) = (ss, amap', m')"
    using 2(2) by (auto simp: d f split: prod.splits)
  have "rt_last_selected_at rt' = rt_last_selected_at rt"
    using state_from_account_frame(1) [OF f] by (simp add: lease_view_def)
  then show ?case using 2(1) [OF d [symmetric] refl f [symmetric] refl b] last_selected_setdefault [OF d]
    by (simp add: last_selected_update)
qed simp

section \<open>Preparation\<close>

text \<open>What the locked preparation of a selection gives, in one place.\<close>

lemma prepare_spec:
  assumes "prepare_sticky_selection_states cfg st t clock si req m = (states, amap, m')" "wf_table m"
  shows "wf_table m'" and "set (table_leases m' a) \<subseteq> set (table_leases m a)"
    and "lease_count k (table_leases m' a) \<le> lease_count k (table_leases m a)"
    and "no_new_times m m'"
    and "s \<in> set states \<Longrightarrow> state_matches m' s \<and> account_id s \<in> row_id ` set (si_accounts si)
         \<and> (\<exists>r. map_of amap (account_id s) = Some r) \<and> (\<forall>x. req = Some x \<longrightarrow> account_id s = x)"
    and "map_of amap x = Some r \<Longrightarrow> row_id r = x \<and> x \<in> row_id ` set (si_accounts si) \<and> (\<forall>y. req = Some y \<longrightarrow> x = y)"
proof -
  let ?m0 = "reclaim_stale_account_leases_locked t st m"
  let ?m1 = "prune_runtime (prune_ids si) ?m0"
  obtain ss am m2 where b: "build_states cfg clock si (si_accounts si) [] ?m1 = (ss, am, m2)"
    by (cases "build_states cfg clock si (si_accounts si) [] ?m1")
  have out: "m' = m2" "states = (case req of None \<Rightarrow> ss | Some r \<Rightarrow> filter (\<lambda>s. account_id s = r) ss)"
    "amap = (case req of None \<Rightarrow> am | Some r \<Rightarrow> filter (\<lambda>p. fst p = r) am)"
    using assms(1) by (auto simp: prepare_sticky_selection_states_def Let_def b split: option.splits)
  note r0 = reclaim_spec [OF assms(2), of t st]
  note r1 = prune_spec [OF r0(1), of "prune_ids si"]
  note sp = build_states_spec [OF b r1(1)]
  have am: "(\<forall>x r. map_of am x = Some r \<longrightarrow> row_id r = x) \<and> {x. map_of am x \<noteq> None} = row_id ` set (si_accounts si)"
    using build_states_map [OF b] by simp
  have fm: "map_of (filter (\<lambda>p. fst p = r) am) x = (if x = r then map_of am x else None)" for r x
    by (induction am) auto
  have leases: "table_leases m' a = filter (\<lambda>p. \<not> lease_stale t st (snd p)) (table_leases m a)" for a
    using sp r0(2) r1(2) out(1) by (simp add: same_leases_def)
  show "wf_table m'" using sp out(1) by (simp add: same_leases_def)
  show "set (table_leases m' a) \<subseteq> set (table_leases m a)"
    and "lease_count k (table_leases m' a) \<le> lease_count k (table_leases m a)"
    by (simp_all add: leases lease_count_filter_le)
  show "no_new_times m m'"
    using prune_no_new_times [of ?m0 "prune_ids si"] build_states_last_selected [OF b] reclaim_last_selected [of t st m]
    by (simp add: no_new_times_def out(1))
  show "state_matches m' s \<and> account_id s \<in> row_id ` set (si_accounts si)
         \<and> (\<exists>r. map_of amap (account_id s) = Some r) \<and> (\<forall>x. req = Some x \<longrightarrow> account_id s = x)" if "s \<in> set states"
  proof -
    have s: "s \<in> set ss" and rq: "\<forall>x. req = Some x \<longrightarrow> account_id s = x" using that out(2) by (auto split: option.splits)
    have id: "account_id s \<in> row_id ` set (si_accounts si)" using sp s by (metis image_eqI set_map)
    then have "map_of am (account_id s) \<noteq> None" using am by auto
    then show ?thesis using sp s id rq out by (auto simp: fm split: option.splits)
  qed
  show "row_id r = x \<and> x \<in> row_id ` set (si_accounts si) \<and> (\<forall>y. req = Some y \<longrightarrow> x = y)" if "map_of amap x = Some r"
    using that am out(3) by (auto simp: fm split: option.splits if_splits)
qed

section \<open>What the scope admits\<close>

definition scope_ok :: "bool \<Rightarrow> string list \<Rightarrow> selection_inputs \<Rightarrow> selection_inputs \<Rightarrow> bool" where
  "scope_ok require_security excluded si s =
     (set (si_accounts s) \<subseteq> set (si_accounts si)
      \<and> (require_security \<longrightarrow> (\<forall>a\<in>set (si_accounts s). row_security_authorized a))
      \<and> (\<forall>a\<in>set (si_accounts s). row_id a \<notin> set excluded))"

lemma refused_scope_ok:
  "si_accounts (no_security_accounts si os) = []" "si_error_code (no_security_accounts si os) \<noteq> None"
  by (simp_all add: no_security_accounts_def new_inputs_def)

lemma security_scope_cases:
  "case security_scope rs si of
     Refused_scope r \<Rightarrow> si_accounts r = [] \<and> si_error_code r \<noteq> None | Scoped s \<Rightarrow> scope_ok rs [] si s"
  by (auto simp: security_scope_def Let_def scope_ok_def refused_scope_ok)

lemma exclusion_scope_cases:
  assumes "scope_ok rs [] si s1"
  shows "case exclusion_scope rs ex s1 of
     Refused_scope r \<Rightarrow> si_accounts r = [] \<and> si_error_code r \<noteq> None | Scoped s \<Rightarrow> scope_ok rs ex si s"
  using assms by (auto simp: exclusion_scope_def Let_def scope_ok_def refused_scope_ok)

lemma owner_scope_cases:
  assumes "scope_ok rs ex si s"
  shows "scope_ok rs ex si (owner_scope req s)"
    and "req = Some r \<Longrightarrow> si_error_code (owner_scope req s) = None
      \<Longrightarrow> r \<in> row_id ` (set (si_accounts (owner_scope req s)) \<union> set (effective_continuity_owner_candidates (owner_scope req s)))"
proof -
  show "scope_ok rs ex si (owner_scope req s)"
    using assms by (simp add: owner_scope_def scope_ok_def split: option.split prod.split)
  assume r: "req = Some r" and ok: "si_error_code (owner_scope req s) = None"
  have "required_continuity_owner_failure s r = None" using r ok by (auto simp: owner_scope_def split: option.splits)
  moreover have "owner_scope req s = s" using calculation r by (simp add: owner_scope_def)
  ultimately show "r \<in> row_id ` (set (si_accounts (owner_scope req s)) \<union> set (effective_continuity_owner_candidates (owner_scope req s)))"
    using ok by (auto simp: required_continuity_owner_failure_def split: if_splits)
qed

text \<open>
  The scope of a request is never widened: whatever was loaded, the accounts left are loaded
  ones, authorised for security work when that is required, none of them excluded; and a
  continuity owner outside both the routing pool and the owner candidates empties the pool with an
  error, unless an error was already reported.
\<close>

theorem scope_never_widens:
  fixes si :: selection_inputs
  shows "let s = scope_inputs require_security excluded required_owner si in
    set (si_accounts s) \<subseteq> set (si_accounts si)
    \<and> (require_security \<longrightarrow> (\<forall>a\<in>set (si_accounts s). row_security_authorized a))
    \<and> (\<forall>a\<in>set (si_accounts s). row_id a \<notin> set excluded)
    \<and> (\<forall>r. required_owner = Some r \<and> si_error_code s = None
          \<longrightarrow> r \<in> row_id ` (set (si_accounts s) \<union> set (effective_continuity_owner_candidates s)))"
proof (cases "security_scope require_security si")
  case (Refused_scope r)
  then show ?thesis using security_scope_cases [of require_security si] by (auto simp: scope_inputs_def)
next
  case (Scoped s1)
  then have s1: "scope_ok require_security [] si s1" using security_scope_cases [of require_security si] by simp
  note ex = exclusion_scope_cases [OF s1, of excluded]
  show ?thesis
  proof (cases "exclusion_scope require_security excluded s1")
    case (Refused_scope r)
    then show ?thesis using ex Scoped by (auto simp: scope_inputs_def)
  next
    case s2: (Scoped s2)
    then have ok: "scope_ok require_security excluded si s2" using ex by simp
    have e: "scope_inputs require_security excluded required_owner si = owner_scope required_owner s2"
      by (simp add: scope_inputs_def Scoped s2)
    show ?thesis unfolding e Let_def
      using owner_scope_cases [OF ok, of required_owner] by (simp only: scope_ok_def) blast
  qed
qed

definition w_planner :: planner_settings where
  "w_planner = \<lparr>ps_mode = ''off'', ps_zone = utc_zone, working_days = [], working_hours_start = ''09:00'', working_hours_end = ''17:00'',
     prewarm_enabled = False, prewarm_lead_minutes = 0, max_warmups_per_day = 0, min_expected_gain = 0, forecast_quantile = ''p50'',
     allow_synthetic_traffic = False, dry_run = True\<rparr>"

definition w_scoped :: selection_inputs where
  "w_scoped = new_inputs [w_acct\<lparr>row_security_authorized := True\<rparr>, w_acct\<lparr>row_id := ''b''\<rparr>] [] [] [] w_planner"

theorem scope_never_widens_witness:
  "\<forall>a\<in>set (si_accounts (scope_inputs True [''b''] (Some ''a'') w_scoped)). row_security_authorized a"
  using scope_never_widens [where si = w_scoped and require_security = True and excluded = "[''b'']" and required_owner = "Some ''a''"]
  by (simp add: Let_def)

end
