(* ===== verification/Sticky_Selection.thy ===== *)
theory Sticky_Selection
  imports Budget_Selection Sticky_Sessions
begin

text \<open>
  Selection under session affinity: \<open>_select_with_stickiness\<close> of
  \<open>modules/proxy/_load_balancer/sticky_selection.py\<close>, with the write and the restoration of the
  binding it decides on. The function changes no binding itself, apart from dropping an expired one when
  it has to look the binding up: it returns the mutation, \<open>None\<close> to leave
  the binding, \<open>Some None\<close> to delete it, \<open>Some (Some a)\<close> to bind to \<open>a\<close>. The selector's calls
  update the states they are given. \<open>envs\<close> gives each call its clock and random numbers.
\<close>

section \<open>Requests\<close>

datatype existing_binding = Unset | Known "string option"

record sticky_request =
  sr_budget :: budget_request
  sr_key :: "string option"
  sr_kind :: "sticky_kind option"
  sr_reallocate :: bool
  sr_max_age :: "int option"
  sr_existing :: existing_binding
  sr_preserve :: bool

definition STICKY_GRACE_PERIOD_SECONDS :: real where "STICKY_GRACE_PERIOD_SECONDS = 10"

definition RECOVERABLE_STATUSES :: "account_status list" where
  "RECOVERABLE_STATUSES = [ACTIVE, RATE_LIMITED, QUOTA_EXCEEDED]"

text \<open>The three requests of the function: without a key, for the burn-first probe, for the pinned account.\<close>

definition unkeyed_budget :: "budget_request \<Rightarrow> budget_request" where
  "unkeyed_budget b =
     b\<lparr>b_secondary_threshold := 100, b_apply_secondary := False, b_allow_backoff_fallback := True,
       b_deterministic_probe := False\<rparr>"

definition burn_first_request :: "budget_request \<Rightarrow> selection_request" where
  "burn_first_request b =
     default_request\<lparr>prefer_earlier_reset := b_prefer_earlier_reset b, routing_strategy := b_strategy b,
       allow_backoff_fallback := False, deterministic_probe := True, relative_availability_power := b_power b,
       relative_availability_top_k := b_top_k b, traffic_class := b_traffic_class b,
       request_ignore_standard_quota := b_ignore_standard_quota b\<rparr>"

definition pinned_request :: "budget_request \<Rightarrow> selection_request" where
  "pinned_request b =
     (stage_request b)\<lparr>allow_backoff_fallback := False, deterministic_probe := False\<rparr>"

section \<open>The pinned account\<close>

definition pinned_of :: "string \<Rightarrow> account_state list \<Rightarrow> account_state option" where
  "pinned_of existing states = find (\<lambda>s. account_id s = existing) states"

definition budget_pressured :: "sticky_request \<Rightarrow> sticky_kind \<Rightarrow> account_state \<Rightarrow> bool" where
  "budget_pressured sr kind pinned =
     (kind \<in> {PROMPT_CACHE, STICKY_THREAD, CODEX_SESSION}
      \<and> b_strategy (sr_budget sr) \<notin> {Sequential_drain, Reset_drain, Single_account}
      \<and> status pinned \<noteq> RATE_LIMITED
      \<and> state_above_sticky_budget_threshold pinned (b_threshold (sr_budget sr))
          (Some (b_secondary_threshold (sr_budget sr))))"

definition rate_limit_far_away :: "real \<Rightarrow> sticky_kind \<Rightarrow> account_state \<Rightarrow> bool" where
  "rate_limit_far_away now kind pinned =
     (kind = PROMPT_CACHE \<and> status pinned = RATE_LIMITED
      \<and> (case reset_at pinned of None \<Rightarrow> False | Some r \<Rightarrow> r - now \<ge> 600))"

definition is_burn_first :: "account_state \<Rightarrow> bool" where
  "is_burn_first s = (routing_policy s = ROUTING_POLICY_BURN_FIRST)"

definition burn_first_reallocate ::
    "selection_env \<Rightarrow> budget_request \<Rightarrow> account_state \<Rightarrow> account_state list \<Rightarrow> salt_state
     \<Rightarrow> bool result \<times> account_state list \<times> salt_state" where
  "burn_first_reallocate env b pinned states salts =
     (if is_burn_first pinned then (Inr False, states, salts)
      else if filter is_burn_first states = [] then (Inr True, states, salts)
      else let r = select_part env (burn_first_request b) is_burn_first states salts
           in (bind (out_result r) (\<lambda>res. Inr (account res \<noteq> None)), out_states r, out_salts r))"

text \<open>The selector on the pinned state alone, which is updated in its place.\<close>

definition select_pinned ::
    "selection_env \<Rightarrow> budget_request \<Rightarrow> string \<Rightarrow> account_state list \<Rightarrow> salt_state \<Rightarrow> selection_outcome" where
  "select_pinned env b existing states salts =
     (let before = takeWhile (\<lambda>s. account_id s \<noteq> existing) states;
          rest = dropWhile (\<lambda>s. account_id s \<noteq> existing) states;
          r = select_account env (pinned_request b) None (take 1 rest) salts
      in r\<lparr>out_states := before @ out_states r @ drop 1 rest\<rparr>)"

text \<open>
  Where the consideration of the pinned account stands: the states, the answer if the function
  has returned, and the two flags the rest of the function reads.
\<close>

record progress =
  pr_states :: "account_state list"
  pr_salts :: salt_state
  pr_answer :: "selection_result result option"
  pr_reallocate :: bool
  pr_secondary :: bool

definition answer_if_decided :: "selection_outcome \<Rightarrow> bool \<Rightarrow> bool \<Rightarrow> progress" where
  "answer_if_decided r reallocate secondary =
     \<lparr>pr_states = out_states r, pr_salts = out_salts r,
      pr_answer = (if decided r then Some (out_result r) else None),
      pr_reallocate = reallocate, pr_secondary = secondary\<rparr>"

definition pool_budget :: "budget_request \<Rightarrow> budget_request" where
  "pool_budget b =
     b\<lparr>b_deterministic_probe := True, b_apply_secondary := True, b_allow_backoff_fallback := True\<rparr>"

definition pool_also_exhausted :: "sticky_request \<Rightarrow> string \<Rightarrow> account_state option \<Rightarrow> bool" where
  "pool_also_exhausted sr existing best =
     (case best of None \<Rightarrow> False
      | Some a \<Rightarrow> account_id a = existing
                  \<or> state_above_sticky_budget_threshold a (b_threshold (sr_budget sr))
                      (Some (b_secondary_threshold (sr_budget sr))))"

definition leave_pinned ::
    "(nat \<Rightarrow> selection_env) \<Rightarrow> sticky_request \<Rightarrow> sticky_kind \<Rightarrow> string \<Rightarrow> bool \<Rightarrow> account_state list \<Rightarrow> salt_state \<Rightarrow> progress" where
  "leave_pinned envs sr kind existing pressured states salts =
     (if \<not> pressured
      then \<lparr>pr_states = states, pr_salts = salts, pr_answer = None, pr_reallocate = True, pr_secondary = False\<rparr>
      else
        let best = select_account_preferring_budget_safe (\<lambda>n. envs (3 + n)) (pool_budget (sr_budget sr)) states salts
        in case out_result best of
             Inl e \<Rightarrow> \<lparr>pr_states = out_states best, pr_salts = out_salts best, pr_answer = Some (Inl e),
                       pr_reallocate = True, pr_secondary = True\<rparr>
           | Inr res \<Rightarrow>
               (if pool_also_exhausted sr existing (account res)
                then answer_if_decided (select_pinned (envs 7) (sr_budget sr) existing (out_states best) (out_salts best))
                       True True
                else \<lparr>pr_states = out_states best, pr_salts = out_salts best, pr_answer = None,
                      pr_reallocate = True, pr_secondary = True\<rparr>))"

definition consider_pinned ::
    "(nat \<Rightarrow> selection_env) \<Rightarrow> sticky_request \<Rightarrow> sticky_kind \<Rightarrow> string \<Rightarrow> account_state \<Rightarrow> account_state list \<Rightarrow> salt_state
     \<Rightarrow> progress" where
  "consider_pinned envs sr kind existing pinned states salts =
     (let pressured = budget_pressured sr kind pinned;
          far = rate_limit_far_away (wall_clock (envs 0)) kind pinned
      in case burn_first_reallocate (envs 1) (sr_budget sr) pinned states salts of
           (Inl e, states1, salts1) \<Rightarrow>
             \<lparr>pr_states = states1, pr_salts = salts1, pr_answer = Some (Inl e),
              pr_reallocate = sr_reallocate sr, pr_secondary = False\<rparr>
         | (Inr target, states1, salts1) \<Rightarrow>
             (if \<not> ((pressured \<or> far) \<and> target)
              then answer_if_decided (select_pinned (envs 2) (sr_budget sr) existing states1 salts1) (sr_reallocate sr) False
              else leave_pinned envs sr kind existing pressured states1 salts1))"

text \<open>The grace selection runs on a copy: only the module's salt changes.\<close>

definition grace_choice ::
    "selection_env \<Rightarrow> sticky_request \<Rightarrow> string \<Rightarrow> progress \<Rightarrow> progress" where
  "grace_choice env sr existing p =
     (case pinned_of existing (pr_states p) of
        None \<Rightarrow> p
      | Some pinned \<Rightarrow>
          (if pr_answer p \<noteq> None \<or> pr_reallocate p \<or> status pinned \<noteq> RATE_LIMITED then p
           else
             let r = select_account env (pinned_request (sr_budget sr))
                       (Some (wall_clock env + STICKY_GRACE_PERIOD_SECONDS)) [pinned] (pr_salts p)
             in p\<lparr>pr_salts := out_salts r, pr_answer := (if decided r then Some (out_result r) else None)\<rparr>))"

section \<open>The decision\<close>

record sticky_choice =
  sc_states :: "account_state list"
  sc_salts :: salt_state
  sc_table :: sticky_table
  sc_result :: "selection_result result"
  sc_mutation :: "string option option"

text \<open>
  The rest of the function: \<open>undecided\<close> is the mutation pending so far, \<open>persist\<close> whether the
  fallback becomes the new binding.
\<close>

definition final_budget :: "budget_request \<Rightarrow> bool \<Rightarrow> budget_request" where
  "final_budget b secondary =
     b\<lparr>b_apply_secondary := secondary, b_allow_backoff_fallback := True, b_deterministic_probe := False\<rparr>"

definition choose_fallback ::
    "(nat \<Rightarrow> selection_env) \<Rightarrow> sticky_request \<Rightarrow> string list \<Rightarrow> bool \<Rightarrow> bool \<Rightarrow> string option option
     \<Rightarrow> account_state list \<Rightarrow> salt_state \<Rightarrow> sticky_table \<Rightarrow> sticky_choice" where
  "choose_fallback envs sr account_ids persist secondary undecided states salts table =
     (let r = select_account_preferring_budget_safe (\<lambda>n. envs (9 + n)) (final_budget (sr_budget sr) secondary) states salts
      in \<lparr>sc_states = out_states r, sc_salts = out_salts r, sc_table = table, sc_result = out_result r,
          sc_mutation =
            (case out_result r of
               Inl e \<Rightarrow> undecided
             | Inr res \<Rightarrow>
                 (case account res of
                    Some a \<Rightarrow> (if persist \<and> account_id a \<in> set account_ids then Some (Some (account_id a)) else undecided)
                  | None \<Rightarrow> undecided))\<rparr>)"

definition choose_with_pinned ::
    "(nat \<Rightarrow> selection_env) \<Rightarrow> sticky_request \<Rightarrow> string list \<Rightarrow> sticky_kind \<Rightarrow> string \<Rightarrow> account_state
     \<Rightarrow> account_state list \<Rightarrow> salt_state \<Rightarrow> sticky_table \<Rightarrow> sticky_choice" where
  "choose_with_pinned envs sr account_ids kind existing pinned states salts table =
     (let p = grace_choice (envs 8) sr existing (consider_pinned envs sr kind existing pinned states salts)
      in case pr_answer p of
           Some answer \<Rightarrow>
             \<lparr>sc_states = pr_states p, sc_salts = pr_salts p, sc_table = table, sc_result = answer,
              sc_mutation = (if sr_max_age sr \<noteq> None then Some (Some existing) else None)\<rparr>
         | None \<Rightarrow>
             (let recoverable = (case pinned_of existing (pr_states p) of
                                   None \<Rightarrow> False | Some s \<Rightarrow> status s \<in> set RECOVERABLE_STATUSES);
                  keep = (\<not> pr_reallocate p \<and> recoverable \<and> sr_max_age sr \<noteq> None)
              in choose_fallback envs sr account_ids (\<not> sr_preserve sr \<and> \<not> keep) (pr_secondary p)
                   (if pr_reallocate p then Some None else None) (pr_states p) (pr_salts p) table))"

definition choose_for_key ::
    "(nat \<Rightarrow> selection_env) \<Rightarrow> sticky_request \<Rightarrow> string list \<Rightarrow> sticky_kind \<Rightarrow> string option
     \<Rightarrow> account_state list \<Rightarrow> salt_state \<Rightarrow> sticky_table \<Rightarrow> sticky_choice" where
  "choose_for_key envs sr account_ids kind existing states salts table =
     (case existing of
        None \<Rightarrow> choose_fallback envs sr account_ids (\<not> sr_preserve sr) False None states salts table
      | Some e \<Rightarrow>
          (if e = [] then choose_fallback envs sr account_ids (\<not> sr_preserve sr) False None states salts table
           else case pinned_of e states of
             None \<Rightarrow> choose_fallback envs sr account_ids (\<not> sr_preserve sr) False
                       (if sr_preserve sr then None else Some None) states salts table
           | Some pinned \<Rightarrow> choose_with_pinned envs sr account_ids kind e pinned states salts table))"

definition select_with_stickiness ::
    "(nat \<Rightarrow> selection_env) \<Rightarrow> (sticky_table \<Rightarrow> sticky_table) \<Rightarrow> int \<Rightarrow> sticky_request \<Rightarrow> string list
     \<Rightarrow> account_state list \<Rightarrow> salt_state \<Rightarrow> sticky_table \<Rightarrow> sticky_choice" where
  "select_with_stickiness envs others now sr account_ids states salts table =
     (case sr_key sr of
        None \<Rightarrow>
          (let r = select_account_preferring_budget_safe envs (unkeyed_budget (sr_budget sr)) states salts
           in \<lparr>sc_states = out_states r, sc_salts = out_salts r, sc_table = table, sc_result = out_result r, sc_mutation = None\<rparr>)
      | Some key \<Rightarrow>
          (if key = []
           then (let r = select_account_preferring_budget_safe envs (unkeyed_budget (sr_budget sr)) states salts
                 in \<lparr>sc_states = out_states r, sc_salts = out_salts r, sc_table = table, sc_result = out_result r,
                     sc_mutation = None\<rparr>)
           else case sr_kind sr of
             None \<Rightarrow> \<lparr>sc_states = states, sc_salts = salts, sc_table = table, sc_result = Inl ValueError, sc_mutation = None\<rparr>
           | Some kind \<Rightarrow>
               (case sr_existing sr of
                  Known existing \<Rightarrow> choose_for_key envs sr account_ids kind existing states salts table
                | Unset \<Rightarrow>
                    (case get_account_id others now key kind (sr_max_age sr) table of
                       (existing, table') \<Rightarrow> choose_for_key envs sr account_ids kind existing states salts table'))))"

section \<open>Writing the binding\<close>

definition persist_sticky_mutation :: "int \<Rightarrow> string \<Rightarrow> sticky_kind \<Rightarrow> string option \<Rightarrow> sticky_table \<Rightarrow> sticky_table" where
  "persist_sticky_mutation now key kind mutation table =
     (case mutation of None \<Rightarrow> snd (delete_entry key kind table) | Some a \<Rightarrow> upsert_entry now key a kind table)"

definition restore_sticky_mutation ::
    "int \<Rightarrow> string \<Rightarrow> sticky_kind \<Rightarrow> string option \<Rightarrow> existing_binding \<Rightarrow> sticky_table \<Rightarrow> sticky_table" where
  "restore_sticky_mutation now key kind expected existing table =
     (case existing of Unset \<Rightarrow> table | Known restore \<Rightarrow> snd (restore_if_current now key kind expected restore table))"


section \<open>Calls on the pinned state\<close>

lemma pinned_split:
  assumes "pinned_of e states = Some p"
  obtains pre post where "states = pre @ p # post" "\<forall>s\<in>set pre. account_id s \<noteq> e" "account_id p = e"
    "takeWhile (\<lambda>s. account_id s \<noteq> e) states = pre" "dropWhile (\<lambda>s. account_id s \<noteq> e) states = p # post"
proof -
  have "\<exists>pre post. states = pre @ p # post \<and> (\<forall>s\<in>set pre. account_id s \<noteq> e) \<and> account_id p = e"
    using assms unfolding pinned_of_def
  proof (induction states)
    case (Cons s states)
    show ?case
    proof (cases "account_id s = e")
      case True
      then show ?thesis using Cons.prems by (intro exI [of _ "[]"] exI [of _ states]) auto
    next
      case False
      then obtain pre post where "states = pre @ p # post" "\<forall>s\<in>set pre. account_id s \<noteq> e" "account_id p = e"
        using Cons by auto
      then show ?thesis using False by (intro exI [of _ "s # pre"] exI [of _ post]) auto
    qed
  qed simp
  then obtain pre post where d: "states = pre @ p # post" "\<forall>s\<in>set pre. account_id s \<noteq> e" "account_id p = e" by blast
  then have "takeWhile (\<lambda>s. account_id s \<noteq> e) states = pre" "dropWhile (\<lambda>s. account_id s \<noteq> e) states = p # post"
    by (simp_all add: takeWhile_append dropWhile_append)
  then show ?thesis using that d by blast
qed

lemma pinned_of_append:
  assumes "\<forall>s\<in>set pre. account_id s \<noteq> e" "account_id p = e"
  shows "pinned_of e (pre @ p # post) = Some p"
  using assms by (induction pre) (auto simp: pinned_of_def)

lemma pinned_in: "pinned_of e states = Some p \<Longrightarrow> p \<in> set states \<and> account_id p = e"
  by (metis pinned_split in_set_conv_decomp)

text \<open>The selector on one state is admission of that state.\<close>

definition pinned_admitted :: "selection_env \<Rightarrow> budget_request \<Rightarrow> account_state \<Rightarrow> account_state" where
  "pinned_admitted env b p = fst (admit_state (pinned_request b) (current_time env None) p)"

lemma pinned_admitted_id [simp]: "account_id (pinned_admitted env b p) = account_id p"
  using admit_improves [of p "pinned_request b" "current_time env None"] by (simp add: pinned_admitted_def improves_def)

lemma select_pinned_eq:
  assumes "pinned_of e states = Some p"
  shows "pinned_of e (out_states (select_pinned env b e states salts)) = Some (pinned_admitted env b p)"
    and "list_all2 improves states (out_states (select_pinned env b e states salts))"
    and "out_result (select_pinned env b e states salts) = out_result (select_account env (pinned_request b) None [p] salts)"
proof -
  obtain pre post where d: "states = pre @ p # post" "\<forall>s\<in>set pre. account_id s \<noteq> e" "account_id p = e"
    "takeWhile (\<lambda>s. account_id s \<noteq> e) states = pre" "dropWhile (\<lambda>s. account_id s \<noteq> e) states = p # post"
    using pinned_split [OF assms] .
  have o: "out_states (select_pinned env b e states salts) = pre @ pinned_admitted env b p # post"
    by (simp add: select_pinned_def Let_def d(4,5) out_states_select pinned_admitted_def)
  show "pinned_of e (out_states (select_pinned env b e states salts)) = Some (pinned_admitted env b p)"
    unfolding o by (rule pinned_of_append [OF d(2)]) (simp add: d(3))
  show "list_all2 improves states (out_states (select_pinned env b e states salts))"
    unfolding o by (simp add: d(1) pinned_admitted_def list_all2_append admit_improves list_all2_same improves_refl)
  show "out_result (select_pinned env b e states salts) = out_result (select_account env (pinned_request b) None [p] salts)"
    by (simp add: select_pinned_def Let_def d(5))
qed

lemma routable_cong: "bypass_standard_quota r a = bypass_standard_quota r' a \<Longrightarrow> routable r a = routable r' a"
  by (simp add: routable_def)

lemma bypass_requests [simp]:
  "bypass_standard_quota (pinned_request b) a = bypass_standard_quota (stage_request b) a"
  "bypass_standard_quota (stage_request (final_budget b sec)) a = bypass_standard_quota (stage_request b) a"
  "bypass_standard_quota (stage_request (pool_budget b)) a = bypass_standard_quota (stage_request b) a"
  "bypass_standard_quota (stage_request (unkeyed_budget b)) a = bypass_standard_quota (stage_request b) a"
  by (simp_all add: bypass_standard_quota_def pinned_request_def stage_request_def final_budget_def pool_budget_def
      unkeyed_budget_def default_request_def)

lemma single_selected:
  assumes "sound_env env" "out_result (select_account env req now [p] salts) = Inr r" "account r = Some a"
  shows "account_id a = account_id p" "routable req a"
proof -
  obtain ys salt where ys: "selection_pool req (current_time env now) [p] = Pool ys" "a \<in> set ys"
    using selected_in_pool [OF _ _ assms(2,3)] assms(1) by (auto simp: sound_env_def)
  obtain x where "x \<in> set [p]" "a = fst (admit_state req (current_time env now) x)" using selection_pool_member [OF ys] .
  then show "account_id a = account_id p" using admit_improves [of p req "current_time env now"] by (simp add: improves_def)
  show "routable req a" by (rule selection_pool_routable [OF ys])
qed

lemma select_total: "sound_env env \<Longrightarrow> \<exists>r. out_result (select_account env req now xs salts) = Inr r"
  by (cases rule: select_account_outcome [of env req now xs salts]) (auto simp: sound_env_def)

lemma single_usable:
  assumes "sound_env env" "usable p" "traffic_class req = Foreground" "\<not> recovery_probe_only req"
  shows "\<exists>r. out_result (select_account env req now [p] salts) = Inr r \<and> account r = Some p"
proof -
  have e: "0 \<le> random_draw env" "random_draw env < 1" using assms(1) by (auto simp: sound_env_def)
  obtain ys where ys: "selection_pool req (current_time env now) [p] = Pool ys"
    using selection_pool_usable [of p "[p]"] assms(2,3) by auto
  have "x = p" if x: "x \<in> set ys" for x
  proof -
    obtain y where "y \<in> set [p]" "x = fst (admit_state req (current_time env now) y)" using selection_pool_member [OF ys x] .
    then show ?thesis by (simp add: admit_usable [OF assms(2)])
  qed
  then show ?thesis
    using ys assms(4) by (cases rule: select_account_outcome [OF e, of req now "[p]" salts]) (auto split: option.splits)
qed

lemma put_back_pinned:
  assumes "pinned_of e xs = Some p" "\<not> P p" "list_all2 improves (filter P xs) ys"
  shows "pinned_of e (put_back P xs ys) = Some p"
  using assms unfolding pinned_of_def
proof (induction P xs ys rule: put_back.induct)
  case (2 P x xs ys)
  then show ?case by (cases ys) (auto simp: improves_def split: if_splits)
qed simp

lemma burn_first_frame:
  assumes "pinned_of e states = Some p" "sound_env env" "burn_first_reallocate env b p states salts = (t, states1, salts1)"
  shows "pinned_of e states1 = Some p" "list_all2 improves states states1" "\<exists>c. t = Inr c"
proof -
  let ?r = "select_part env (burn_first_request b) is_burn_first states salts"
  have imp: "list_all2 improves (filter P states) (map (fst \<circ> admit_state req u) (filter P states))" for P req u
    by (simp add: list_all2_map2 list_all2_same admit_improves)
  have "pinned_of e (out_states ?r) = Some p" if "\<not> is_burn_first p"
    using put_back_pinned [where P = is_burn_first, OF assms(1) that imp] by (simp add: select_part_def Let_def out_states_select)
  then show "pinned_of e states1 = Some p" "list_all2 improves states states1" "\<exists>c. t = Inr c"
    using assms(1,3) select_part_states [of states env "burn_first_request b" is_burn_first salts]
      select_part_total [OF assms(2), of "burn_first_request b" is_burn_first states salts]
    by (auto simp: burn_first_reallocate_def Let_def bind_def improves_refl list_all2_refl split: if_splits)
qed


section \<open>What the consideration of the pinned account gives\<close>

text \<open>
  \<open>pinned_progress\<close>: the pool only improves, the pinned account is still in it, and an answer
  is that account, routable.
\<close>

definition answers_pinned :: "budget_request \<Rightarrow> string \<Rightarrow> selection_result result option \<Rightarrow> bool" where
  "answers_pinned b e ans =
     (case ans of None \<Rightarrow> True
      | Some r \<Rightarrow> (\<exists>res a. r = Inr res \<and> account res = Some a \<and> account_id a = e \<and> routable (stage_request b) a))"

definition pinned_progress :: "budget_request \<Rightarrow> string \<Rightarrow> account_state list \<Rightarrow> progress \<Rightarrow> bool" where
  "pinned_progress b e states p =
     (list_all2 improves states (pr_states p) \<and> (\<exists>s. pinned_of e (pr_states p) = Some s) \<and> answers_pinned b e (pr_answer p))"

lemma decided_pinned:
  assumes "sound_env env" "pinned_of e states = Some s"
  shows "answers_pinned b e (pr_answer (answer_if_decided (select_pinned env b e states salts) f g))"
proof -
  let ?o = "out_result (select_account env (pinned_request b) None [s] salts)"
  obtain r where r: "?o = Inr r" using select_total [OF assms(1)] by blast
  have "account_id a = e \<and> routable (stage_request b) a" if "account r = Some a" for a
    using single_selected [OF assms(1) r that] pinned_in [OF assms(2)]
      routable_cong [OF bypass_requests(1), of b a] by simp
  then show ?thesis
    using r select_pinned_eq(3) [OF assms(2), of env b salts]
    by (auto simp: answers_pinned_def answer_if_decided_def decided_def)
qed

lemma answer_pinned_progress:
  assumes "sound_env env" "pinned_of e ys = Some s" "list_all2 improves xs ys"
  shows "pinned_progress b e xs (answer_if_decided (select_pinned env b e ys salts) f g)"
  using select_pinned_eq [OF assms(2), of env b salts] pool_improves_trans [OF assms(3)]
    decided_pinned [OF assms(1,2)]
  by (simp add: pinned_progress_def answer_if_decided_def)

lemma improves_keeps_pinned:
  assumes "list_all2 improves xs ys" "pinned_of e xs = Some s"
  obtains s' where "pinned_of e ys = Some s'" "improves s s'"
proof -
  have "\<exists>s'. pinned_of e ys = Some s' \<and> improves s s'"
    using assms unfolding pinned_of_def
  proof (induction rule: list_all2_induct)
    case (Cons x xs y ys)
    then show ?case by (cases "account_id x = e") (auto simp: improves_def)
  qed simp
  then show ?thesis using that by blast
qed

lemma leave_pinned_progress:
  assumes "sound_envs envs" "pinned_of e states = Some s"
  shows "pinned_progress (sr_budget sr) e states (leave_pinned envs sr kind e pressured states salts)"
proof -
  let ?best = "select_account_preferring_budget_safe (\<lambda>n. envs (3 + n)) (pool_budget (sr_budget sr)) states salts"
  have "sound_envs (\<lambda>n. envs (3 + n))" using assms(1) by (simp add: sound_envs_def)
  then obtain res where res: "out_result ?best = Inr res" and imp: "list_all2 improves states (out_states ?best)"
    using budget_selection_sound [of "\<lambda>n. envs (3 + n)" "pool_budget (sr_budget sr)" states salts]
    by (auto simp: stage_sound_def)
  obtain s' where s': "pinned_of e (out_states ?best) = Some s'" using improves_keeps_pinned [OF imp assms(2)] .
  have "pinned_progress (sr_budget sr) e states
      (answer_if_decided (select_pinned (envs 7) (sr_budget sr) e (out_states ?best) (out_salts ?best)) True True)"
    by (rule answer_pinned_progress [OF sound_envsD [OF assms(1)] s' imp])
  then show ?thesis using assms(2) imp s' res
    by (auto simp: leave_pinned_def Let_def pinned_progress_def answers_pinned_def list_all2_same improves_refl)
qed

lemma consider_pinned_progress:
  assumes "sound_envs envs" "pinned_of e states = Some s"
  shows "pinned_progress (sr_budget sr) e states (consider_pinned envs sr kind e s states salts)"
proof -
  obtain t states1 salts1 where bf: "burn_first_reallocate (envs 1) (sr_budget sr) s states salts = (t, states1, salts1)"
    by (cases "burn_first_reallocate (envs 1) (sr_budget sr) s states salts")
  note f = burn_first_frame [OF assms(2) sound_envsD [OF assms(1)] bf]
  then obtain c where c: "t = Inr c" by blast
  have "pinned_progress (sr_budget sr) e states (answer_if_decided (select_pinned (envs 2) (sr_budget sr) e states1 salts1) g h)" for g h
    by (rule answer_pinned_progress [OF sound_envsD [OF assms(1)] f(1,2)])
  moreover have "pinned_progress (sr_budget sr) e states (leave_pinned envs sr kind e q states1 salts1)" for q
    using leave_pinned_progress [OF assms(1) f(1)] pool_improves_trans [OF f(2)] by (simp add: pinned_progress_def)
  ultimately show ?thesis unfolding consider_pinned_def Let_def bf c by simp
qed

lemma grace_progress:
  assumes "sound_env env" "pinned_progress (sr_budget sr) e states p"
  shows "pinned_progress (sr_budget sr) e states (grace_choice env sr e p)"
    and "pr_reallocate (grace_choice env sr e p) = pr_reallocate p"
    and "pr_states (grace_choice env sr e p) = pr_states p"
proof -
  obtain s where s: "pinned_of e (pr_states p) = Some s" using assms(2) by (auto simp: pinned_progress_def)
  let ?o = "select_account env (pinned_request (sr_budget sr)) (Some (wall_clock env + STICKY_GRACE_PERIOD_SECONDS)) [s] (pr_salts p)"
  obtain r where r: "out_result ?o = Inr r" using select_total [OF assms(1)] by blast
  have "account_id a = e \<and> routable (stage_request (sr_budget sr)) a" if "account r = Some a" for a
    using single_selected [OF assms(1) r that] pinned_in [OF s] routable_cong [OF bypass_requests(1), of "sr_budget sr" a] by simp
  then show "pinned_progress (sr_budget sr) e states (grace_choice env sr e p)"
    using assms(2) s r by (auto simp: pinned_progress_def grace_choice_def Let_def answers_pinned_def decided_def)
  show "pr_reallocate (grace_choice env sr e p) = pr_reallocate p" "pr_states (grace_choice env sr e p) = pr_states p"
    by (simp_all add: grace_choice_def s Let_def)
qed

section \<open>What the function decides\<close>

text \<open>
  \<open>sound_choice\<close>: no exception; the returned account is routable and one of the pool; a new
  binding is a binding to the returned account.
\<close>

definition sound_choice :: "budget_request \<Rightarrow> account_state list \<Rightarrow> sticky_choice \<Rightarrow> bool" where
  "sound_choice b states c =
     (list_all2 improves states (sc_states c)
      \<and> (\<exists>res. sc_result c = Inr res
           \<and> (\<forall>a. account res = Some a \<longrightarrow> routable (stage_request b) a \<and> account_id a \<in> account_id ` set states)
           \<and> (\<forall>x. sc_mutation c = Some (Some x) \<longrightarrow> (\<exists>a. account res = Some a \<and> account_id a = x))))"

lemma improves_ids: "list_all2 improves xs ys \<Longrightarrow> account_id ` set ys = account_id ` set xs"
  by (induction rule: list_all2_induct) (auto simp: improves_def)

lemma choose_fallback_sound:
  assumes "sound_envs envs" "list_all2 improves xs states" "undecided = None \<or> undecided = Some None"
  shows "sound_choice (sr_budget sr) xs (choose_fallback envs sr ids persist secondary undecided states salts table)"
proof -
  let ?b = "final_budget (sr_budget sr) secondary"
  let ?r = "select_account_preferring_budget_safe (\<lambda>n. envs (9 + n)) ?b states salts"
  have "sound_envs (\<lambda>n. envs (9 + n))" using assms(1) by (simp add: sound_envs_def)
  then obtain res where res: "out_result ?r = Inr res" and imp: "list_all2 improves states (out_states ?r)"
    and acc: "\<And>a. account res = Some a \<Longrightarrow> a \<in> set (out_states ?r) \<and> routable (stage_request ?b) a"
    using budget_selection_sound [of "\<lambda>n. envs (9 + n)" ?b states salts] by (auto simp: stage_sound_def)
  have all: "list_all2 improves xs (out_states ?r)" by (rule pool_improves_trans [OF assms(2) imp])
  have "routable (stage_request (sr_budget sr)) a \<and> account_id a \<in> account_id ` set xs" if "account res = Some a" for a
    using acc [OF that] improves_ids [OF all] routable_cong [OF bypass_requests(2), of "sr_budget sr" secondary a] by auto
  then show ?thesis using res all assms(3)
    by (auto simp: sound_choice_def choose_fallback_def Let_def split: option.splits if_splits)
qed

lemma choose_with_pinned_sound:
  assumes "sound_envs envs" "pinned_of e states = Some s"
  shows "sound_choice (sr_budget sr) states (choose_with_pinned envs sr ids kind e s states salts table)"
proof -
  let ?p = "grace_choice (envs 8) sr e (consider_pinned envs sr kind e s states salts)"
  have p: "pinned_progress (sr_budget sr) e states ?p"
    by (rule grace_progress(1) [OF sound_envsD [OF assms(1)] consider_pinned_progress [OF assms]])
  have e: "e \<in> account_id ` set states" using pinned_in [OF assms(2)] by auto
  show ?thesis
  proof (cases "pr_answer ?p")
    case None
    then show ?thesis using p choose_fallback_sound [OF assms(1), of states "pr_states ?p"]
      by (simp add: choose_with_pinned_def Let_def pinned_progress_def)
  next
    case (Some r)
    then show ?thesis using p e
      by (auto simp: choose_with_pinned_def Let_def pinned_progress_def answers_pinned_def sound_choice_def)
  qed
qed

lemma choose_for_key_sound:
  assumes "sound_envs envs"
  shows "sound_choice (sr_budget sr) states (choose_for_key envs sr ids kind existing states salts table)"
  using choose_fallback_sound [OF assms] choose_with_pinned_sound [OF assms]
  by (auto simp: choose_for_key_def list_all2_same improves_refl split: option.split)

lemma unkeyed_sound:
  assumes "sound_envs envs"
  shows "sound_choice (sr_budget sr) states
    (let r = select_account_preferring_budget_safe envs (unkeyed_budget (sr_budget sr)) states salts
     in \<lparr>sc_states = out_states r, sc_salts = out_salts r, sc_table = table, sc_result = out_result r, sc_mutation = None\<rparr>)"
  using budget_selection_sound [OF assms, of "unkeyed_budget (sr_budget sr)" states salts] improves_ids
    routable_cong [OF bypass_requests(4), of "sr_budget sr"]
  by (fastforce simp: sound_choice_def stage_sound_def Let_def)


text \<open>
  Selection under affinity keeps the selector's guarantees: it does not raise; an account it
  returns is one of the offered accounts and routable; and the binding it decides on names the
  account it returns, so a session is never bound to an account that did not serve it.
\<close>

theorem sticky_selection_sound:
  assumes "sound_envs envs" and "sr_kind sr \<noteq> None"
  shows "\<exists>res. sc_result (select_with_stickiness envs others now sr ids states salts table) = Inr res
    \<and> (\<forall>a. account res = Some a \<longrightarrow> routable (stage_request (sr_budget sr)) a \<and> account_id a \<in> account_id ` set states)
    \<and> (\<forall>x. sc_mutation (select_with_stickiness envs others now sr ids states salts table) = Some (Some x)
          \<longrightarrow> (\<exists>a. account res = Some a \<and> account_id a = x))"
proof -
  have "sound_choice (sr_budget sr) states (select_with_stickiness envs others now sr ids states salts table)"
    using choose_for_key_sound [OF assms(1)] unkeyed_sound [OF assms(1)] assms(2)
    unfolding select_with_stickiness_def
    by (auto split: option.split existing_binding.split prod.split)
  then show ?thesis by (simp add: sound_choice_def)
qed

lemma consider_pinned_usable:
  assumes "sound_envs envs" "pinned_of e states = Some s" "usable s" "\<not> budget_pressured sr kind s"
    and "b_traffic_class (sr_budget sr) = Foreground"
  shows "\<exists>res. pr_answer (consider_pinned envs sr kind e s states salts) = Some (Inr res) \<and> account res = Some s"
proof -
  obtain t states1 salts1 where bf: "burn_first_reallocate (envs 1) (sr_budget sr) s states salts = (t, states1, salts1)"
    by (cases "burn_first_reallocate (envs 1) (sr_budget sr) s states salts")
  note f = burn_first_frame [OF assms(2) sound_envsD [OF assms(1)] bf]
  then obtain c where c: "t = Inr c" by blast
  have fg: "traffic_class (pinned_request (sr_budget sr)) = Foreground" "\<not> recovery_probe_only (pinned_request (sr_budget sr))"
    using assms(5) by (simp_all add: pinned_request_def)
  have "\<not> rate_limit_far_away (wall_clock (envs 0)) kind s" using assms(3) by (simp add: rate_limit_far_away_def usable_def)
  then have "consider_pinned envs sr kind e s states salts
      = answer_if_decided (select_pinned (envs 2) (sr_budget sr) e states1 salts1) (sr_reallocate sr) False"
    using assms(4) unfolding consider_pinned_def Let_def bf c by simp
  then show ?thesis
    using single_usable [OF sound_envsD [OF assms(1)] assms(3) fg, of 2 None salts1] select_pinned_eq(3) [OF f(1), of "envs 2" "sr_budget sr" salts1]
    by (auto simp: answer_if_decided_def decided_def)
qed

text \<open>
  A session stays with its account: while the bound account is in the pool, usable and below the
  budget thresholds, a foreground request is served by it, whatever else the pool offers, and the
  binding is only refreshed.
\<close>

theorem sticky_owner_kept:
  assumes "sound_envs envs" and "sr_key sr = Some key" "key \<noteq> []" "sr_kind sr = Some kind" "sr_existing sr = Known (Some e)" "e \<noteq> []"
    and "pinned_of e states = Some s" "usable s" "\<not> budget_pressured sr kind s"
    and "b_traffic_class (sr_budget sr) = Foreground"
  shows "let c = select_with_stickiness envs others now sr ids states salts table in
    (\<exists>res. sc_result c = Inr res \<and> account res = Some s)
    \<and> sc_mutation c = (if sr_max_age sr = None then None else Some (Some e))"
proof -
  let ?q = "consider_pinned envs sr kind e s states salts"
  obtain res where res: "pr_answer ?q = Some (Inr res)" "account res = Some s"
    using consider_pinned_usable [OF assms(1,7,8,9,10)] by blast
  have "grace_choice (envs 8) sr e ?q = ?q" by (simp add: grace_choice_def res(1) split: option.split)
  then show ?thesis using assms(2-7) res
    by (simp add: select_with_stickiness_def choose_for_key_def choose_with_pinned_def Let_def)
qed

lemma recoverable_admitted:
  "status s \<in> set RECOVERABLE_STATUSES \<Longrightarrow> status (pinned_admitted env b s) \<in> set RECOVERABLE_STATUSES"
  by (auto simp: pinned_admitted_def admit_state_def Let_def recover_rate_limited_def recover_quota_exceeded_def
      clear_elapsed_cooldown_def RECOVERABLE_STATUSES_def)

text \<open>
  An outage does not move a binding with a lifetime, and spilling over never moves one: if the
  bound account is in the pool with a status that can recover, neither pressed for budget nor
  blocked for long, and no reallocation was asked for, the binding is left or refreshed; if the
  account was dropped from the offered pool and the caller asked to preserve the binding, it is
  left untouched.
\<close>

theorem sticky_binding_survives:
  assumes "sound_envs envs" and "sr_key sr = Some key" "key \<noteq> []" "sr_kind sr = Some kind" "sr_existing sr = Known (Some e)" "e \<noteq> []"
  shows "let c = select_with_stickiness envs others now sr ids states salts table in
    (\<forall>s. pinned_of e states = Some s \<and> status s \<in> set RECOVERABLE_STATUSES \<and> sr_max_age sr \<noteq> None
             \<and> \<not> sr_reallocate sr \<and> \<not> budget_pressured sr kind s \<and> \<not> rate_limit_far_away (wall_clock (envs 0)) kind s
           \<longrightarrow> sc_mutation c \<in> {None, Some (Some e)})
    \<and> (pinned_of e states = None \<and> sr_preserve sr \<longrightarrow> sc_mutation c = None)"
proof -
  define c where "c = select_with_stickiness envs others now sr ids states salts table"
  have c: "c = choose_for_key envs sr ids kind (Some e) states salts table"
    using assms(2-5) by (simp add: c_def select_with_stickiness_def)
  have "sc_mutation c \<in> {None, Some (Some e)}"
    if s: "pinned_of e states = Some s" and rec: "status s \<in> set RECOVERABLE_STATUSES" and age: "sr_max_age sr \<noteq> None"
      and quiet: "\<not> sr_reallocate sr" "\<not> budget_pressured sr kind s" "\<not> rate_limit_far_away (wall_clock (envs 0)) kind s" for s
  proof -
    obtain t states1 salts1 where bf: "burn_first_reallocate (envs 1) (sr_budget sr) s states salts = (t, states1, salts1)"
      by (cases "burn_first_reallocate (envs 1) (sr_budget sr) s states salts")
    note f = burn_first_frame [OF s sound_envsD [OF assms(1)] bf]
    then obtain x where x: "t = Inr x" by blast
    let ?q = "answer_if_decided (select_pinned (envs 2) (sr_budget sr) e states1 salts1) (sr_reallocate sr) False"
    have q: "consider_pinned envs sr kind e s states salts = ?q"
      using quiet unfolding consider_pinned_def Let_def bf x by simp
    have pp: "pinned_progress (sr_budget sr) e states ?q"
      by (rule answer_pinned_progress [OF sound_envsD [OF assms(1)] f(1,2)])
    note g = grace_progress(2,3) [OF sound_envsD [OF assms(1)] pp, of 8]
    have "pinned_of e (pr_states ?q) = Some (pinned_admitted (envs 2) (sr_budget sr) s)"
      using select_pinned_eq(1) [OF f(1)] by (simp add: answer_if_decided_def)
    moreover have "\<not> pr_reallocate ?q" using quiet(1) by (simp add: answer_if_decided_def)
    ultimately show ?thesis
      using g age recoverable_admitted [OF rec] assms(6) s
      by (auto simp: c choose_for_key_def choose_with_pinned_def Let_def q choose_fallback_def split: option.split sum.split)
  qed
  moreover have "sc_mutation c = None" if "pinned_of e states = None" "sr_preserve sr"
    using that assms(6) by (simp add: c choose_for_key_def choose_fallback_def Let_def split: sum.split option.split)
  ultimately show ?thesis unfolding c_def [symmetric] Let_def by blast
qed


section \<open>Witnesses\<close>

definition w_sticky_request :: sticky_request where
  "w_sticky_request = \<lparr>sr_budget = w_budget, sr_key = Some ''k'', sr_kind = Some PROMPT_CACHE, sr_reallocate = False,
     sr_max_age = Some 300, sr_existing = Known (Some (account_id w_relaxed)), sr_preserve = True\<rparr>"

lemma w_sticky_fields:
  "sr_key w_sticky_request = Some ''k''" "sr_kind w_sticky_request = Some PROMPT_CACHE" "sr_max_age w_sticky_request = Some 300"
  "sr_existing w_sticky_request = Known (Some (account_id w_relaxed))" "account_id w_relaxed \<noteq> []" "sr_preserve w_sticky_request"
  "b_traffic_class (sr_budget w_sticky_request) = Foreground" "sr_kind w_sticky_request \<noteq> None"
  "pinned_of (account_id w_relaxed) [w_pressed, w_relaxed] = Some w_relaxed"
  "pinned_of (account_id w_relaxed) [w_pressed] = None"
  "\<not> budget_pressured w_sticky_request PROMPT_CACHE w_relaxed"
  by code_simp+

theorem sticky_selection_sound_witness:
  "\<exists>res. sc_result (select_with_stickiness w_envs id 0 w_sticky_request [account_id w_relaxed] [w_pressed, w_relaxed] w_salts []) = Inr res"
  using sticky_selection_sound [OF w_envs_sound w_sticky_fields(8)] by blast

theorem sticky_owner_kept_witness:
  "\<exists>res. sc_result (select_with_stickiness w_envs id 0 w_sticky_request [account_id w_relaxed] [w_pressed, w_relaxed] w_salts []) = Inr res
     \<and> account res = Some w_relaxed"
  using sticky_owner_kept [OF w_envs_sound w_sticky_fields(1) _ w_sticky_fields(2,4,5,9) w_states(2) w_sticky_fields(11,7),
      of id 0 "[account_id w_relaxed]" w_salts "[]"] by (auto simp: Let_def)

theorem sticky_binding_survives_witness:
  "sc_mutation (select_with_stickiness w_envs id 0 w_sticky_request [account_id w_relaxed] [w_pressed] w_salts []) = None"
  using sticky_binding_survives [OF w_envs_sound w_sticky_fields(1) _ w_sticky_fields(2,4,5),
      of id 0 "[account_id w_relaxed]" "[w_pressed]" w_salts "[]"] w_sticky_fields(6,10) by (simp add: Let_def)

end
