(* ===== verification/Selection_Unbound.thy ===== *)
theory Selection_Unbound
  imports Selection_Inputs Sticky_Selection
begin

text \<open>
  The selection of an account for a request without affinity: \<open>run_unbound_selection_path\<close> of
  \<open>modules/proxy/_load_balancer/unbound_selection.py\<close> with \<open>_persist_selection_state\<close> and
  \<open>_sync_committed_probe_state_locked\<close> of \<open>modules/proxy/load_balancer.py\<close>. The part of an attempt
  that holds the runtime lock is one step, and so is every other use of the lock and every
  statement on the database; between the steps other requests run. What they do, what the clocks,
  the random numbers and the identifier generator give, which database calls fail and what
  a reload of the inputs returns is the \<open>attempt_env\<close> of the attempt. The loop is a recursion over
  the attempts: with the list used up the selection is still running. A failure that only cancels
  the task while it waits for the lock to give something back is not modelled.
\<close>

section \<open>The world of an attempt\<close>

record selection_world =
  sw_runtime :: runtime_table
  sw_db :: database
  sw_salts :: salt_state
  sw_generation :: int

record attempt_env =
  ae_monotonic :: real
  ae_build_clock :: "string \<Rightarrow> real"
  ae_planner_now :: int
  ae_envs :: "nat \<Rightarrow> selection_env"
  ae_reserve_wall :: real
  ae_sync_wall :: "string \<Rightarrow> real"
  ae_lease_monotonic :: real
  ae_lease_wall :: real
  ae_uid :: string
  ae_commit_wall :: real
  ae_others :: "nat \<Rightarrow> selection_world \<Rightarrow> selection_world"
  ae_persist_fails :: "nat option"
  ae_commit_fails :: bool
  ae_reload :: "selection_inputs option"

record balancer_settings =
  bs_recovery :: recovery_settings
  bs_leases :: lease_settings

record unbound_request =
  ur_budget :: budget_request
  ur_required :: "string option"
  ur_costs :: "routing_costs option"
  ur_kind :: "lease_kind option"
  ur_tokens :: real
  ur_reserve :: int
  ur_caps :: account_concurrency_caps

record unbound_outcome =
  uo_inputs :: selection_inputs
  uo_snapshot :: "account_row option"
  uo_lease :: "account_lease option"
  uo_error :: "string option"
  uo_code :: "string option"
  uo_direct :: bool

definition MAX_SELECTION_ATTEMPTS :: nat where "MAX_SELECTION_ATTEMPTS = 4"

section \<open>Steps that hold the lock\<close>

text \<open>The selector updates the states of a part of the pool; the pool holds the same objects.\<close>

definition update_states :: "account_state list \<Rightarrow> account_state list \<Rightarrow> account_state list" where
  "update_states states part =
     map (\<lambda>s. case find (\<lambda>p. account_id p = account_id s) part of None \<Rightarrow> s | Some p \<Rightarrow> p) states"

definition state_in :: "account_state list \<Rightarrow> account_state \<Rightarrow> account_state" where
  "state_in states a = (case find (\<lambda>p. account_id p = account_id a) states of None \<Rightarrow> a | Some p \<Rightarrow> p)"

definition unbound_budget :: "unbound_request \<Rightarrow> routing_costs \<Rightarrow> budget_request" where
  "unbound_budget ur costs =
     (ur_budget ur)\<lparr>b_apply_secondary := False, b_allow_backoff_fallback := True, b_deterministic_probe := False,
       b_ignore_standard_quota := False, b_routing_costs := costs\<rparr>"

definition probe_request :: "budget_request \<Rightarrow> selection_request" where
  "probe_request b =
     default_request\<lparr>prefer_earlier_reset := b_prefer_earlier_reset b, prefer_earlier_reset_window := b_reset_window b,
       routing_strategy := b_strategy b, relative_availability_power := b_power b,
       relative_availability_top_k := b_top_k b, traffic_class := b_traffic_class b, routing_costs := b_routing_costs b\<rparr>"

text \<open>Which states may be selected: below their cap, without probes once those are suppressed.\<close>

definition offered_states ::
    "selection_env \<Rightarrow> bool \<Rightarrow> traffic_class \<Rightarrow> lease_kind option \<Rightarrow> account_concurrency_caps \<Rightarrow> int \<Rightarrow> account_state list
     \<Rightarrow> salt_state \<Rightarrow> account_state list result \<times> salt_state" where
  "offered_states env suppress tc kind caps reserve states salts =
     (let capped = filter_states_for_account_caps states kind caps reserve
      in if suppress then filter_recovery_probe_candidates env capped tc salts else (Inr capped, salts))"

text \<open>
  The outcome of the selection under the lock: the answer, its error code, the states as they are
  afterwards, a probe reservation, and whether the reservation was needed and could not be had.
\<close>

record picked =
  pk_result :: selection_result
  pk_message :: "string option"
  pk_code :: "string option"
  pk_states :: "account_state list"
  pk_salts :: salt_state
  pk_reservation :: "probe_reservation option"
  pk_invalidated :: bool
  pk_runtime :: runtime_table

definition refused_by_cap :: "lease_kind option \<Rightarrow> account_concurrency_caps \<Rightarrow> account_state list \<Rightarrow> salt_state \<Rightarrow> runtime_table \<Rightarrow> picked" where
  "refused_by_cap kind caps states salts m =
     \<lparr>pk_result = \<lparr>account = None, error_message = None\<rparr>, pk_message = Some (account_cap_error_message kind caps),
      pk_code = account_cap_error_code kind, pk_states = states, pk_salts = salts, pk_reservation = None,
      pk_invalidated = False, pk_runtime = m\<rparr>"

text \<open>The reversible reservation of a recovery probe, given back when it went to another account.\<close>

definition reserve_picked ::
    "attempt_env \<Rightarrow> budget_request \<Rightarrow> account_state \<Rightarrow> account_state list \<Rightarrow> picked \<Rightarrow> picked result" where
  "reserve_picked ae b a offers p =
     (case reserve_due_probe (ae_envs ae 6) (ae_reserve_wall ae) (probe_request b) offers (pk_salts p) (pk_runtime p) of
        (Inl e, _, _, _) \<Rightarrow> Inl e
      | (Inr r, offers', salts, m) \<Rightarrow>
          (let states = update_states (pk_states p) offers';
               mine = (case r of None \<Rightarrow> False | Some x \<Rightarrow> reserved_account x = account_id a)
           in Inr (p\<lparr>pk_result := (pk_result p)\<lparr>account := Some (state_in states a)\<rparr>, pk_states := states, pk_salts := salts,
                     pk_reservation := (if mine then r else None), pk_invalidated := \<not> mine,
                     pk_runtime := (if mine then m else release_due_probe_reservation r m)\<rparr>)))"

definition pick_offered ::
    "attempt_env \<Rightarrow> budget_request \<Rightarrow> account_state list \<Rightarrow> account_state list \<Rightarrow> salt_state \<Rightarrow> runtime_table \<Rightarrow> picked result" where
  "pick_offered ae b states offers salts m =
     (let r = select_account_preferring_budget_safe (\<lambda>n. ae_envs ae (1 + n)) b offers salts
      in bind (out_result r) (\<lambda>res.
           case probing_result_requires_recovery_reservation (ae_envs ae 5) (out_states r) (account res) (b_strategy b)
                  (b_traffic_class b) (out_salts r) of
             (needs, salts') \<Rightarrow>
               bind needs (\<lambda>n.
                 let p = \<lparr>pk_result = res, pk_message = map_option selection_error_text (error_message res), pk_code = None,
                          pk_states = update_states states (out_states r), pk_salts = salts', pk_reservation = None,
                          pk_invalidated = False, pk_runtime = m\<rparr>
                 in case account res of
                      Some a \<Rightarrow> (if n then reserve_picked ae b a (out_states r) p else Inr p)
                    | None \<Rightarrow> Inr p)))"

definition unbound_pick ::
    "balancer_settings \<Rightarrow> attempt_env \<Rightarrow> unbound_request \<Rightarrow> bool \<Rightarrow> selection_inputs \<Rightarrow> account_state list \<Rightarrow> salt_state
     \<Rightarrow> runtime_table \<Rightarrow> picked result" where
  "unbound_pick bs ae ur suppress si states salts m =
     (let costs = or_default (ur_costs ur) (build_routing_costs (si_planner si) states (ae_planner_now ae));
          b = unbound_budget ur costs
      in case offered_states (ae_envs ae 0) suppress (b_traffic_class b) (ur_kind ur) (ur_caps ur) (ur_reserve ur) states salts of
           (offered_result, salts') \<Rightarrow>
             bind offered_result (\<lambda>offers.
               if offers = [] \<and> states \<noteq> [] then Inr (refused_by_cap (ur_kind ur) (ur_caps ur) states salts' m)
               else pick_offered ae b states offers salts' m))"

text \<open>Every state is mirrored into the runtime, except that of a reserved probe.\<close>

definition sync_selected ::
    "(string \<Rightarrow> real) \<Rightarrow> account_map \<Rightarrow> string option \<Rightarrow> string option \<Rightarrow> account_state list \<Rightarrow> runtime_table \<Rightarrow> runtime_table" where
  "sync_selected wall amap reserved chosen states m =
     fold (\<lambda>s m'. case map_of amap (account_id s) of
             None \<Rightarrow> m'
           | Some a \<Rightarrow>
               (if reserved = Some (account_id s) then m'
                else snd (sync_runtime_state (wall (account_id s)) (chosen = Some (account_id s)) None a s m')))
       states m"

definition known_states :: "account_map \<Rightarrow> account_state list \<Rightarrow> account_state list" where
  "known_states amap states = filter (\<lambda>s. map_of amap (account_id s) \<noteq> None) states"

definition snapshot_of :: "account_row \<Rightarrow> account_state \<Rightarrow> account_state list \<Rightarrow> account_row" where
  "snapshot_of selected a states =
     (let reset = (case find (\<lambda>s. account_id s = account_id a) states of
                     None \<Rightarrow> row_reset selected | Some s \<Rightarrow> int_of_deadline (reset_at s))
      in selected\<lparr>row_status := status a, row_deactivation_reason := deactivation_reason a, row_reset := reset\<rparr>)"

text \<open>The state of the selected account takes the status and the reason of the result.\<close>

definition adopt_result :: "account_state \<Rightarrow> account_state list \<Rightarrow> account_state list" where
  "adopt_result a states =
     map (\<lambda>s. if account_id s = account_id a
              then s\<lparr>status := status a, deactivation_reason := deactivation_reason a\<rparr> else s) states"

record locked =
  lk_states :: "account_state list"
  lk_map :: account_map
  lk_reservation :: "probe_reservation option"
  lk_invalidated :: bool
  lk_lease :: "account_lease option"
  lk_snapshot :: "account_row option"
  lk_error :: "string option"
  lk_code :: "string option"

definition synced_runtime :: "attempt_env \<Rightarrow> account_map \<Rightarrow> picked \<Rightarrow> runtime_table" where
  "synced_runtime ae amap p =
     sync_selected (ae_sync_wall ae) amap (map_option reserved_account (pk_reservation p))
       (map_option account_id (account (pk_result p))) (known_states amap (pk_states p)) (pk_runtime p)"

definition probe_selected :: "picked \<Rightarrow> account_row \<Rightarrow> bool" where
  "probe_selected p selected = (map_option reserved_account (pk_reservation p) = Some (row_id selected))"

text \<open>The end of the locked part: the selected account, its lease and the snapshot of its row.\<close>

definition admit_picked :: "attempt_env \<Rightarrow> unbound_request \<Rightarrow> account_map \<Rightarrow> picked \<Rightarrow> locked \<times> runtime_table" where
  "admit_picked ae ur amap p =
     (let known = known_states amap (pk_states p);
          m = synced_runtime ae amap p;
          lk = \<lparr>lk_states = known, lk_map = amap, lk_reservation = pk_reservation p, lk_invalidated = False,
                lk_lease = None, lk_snapshot = None, lk_error = pk_message p, lk_code = pk_code p\<rparr>
      in case account (pk_result p) of
           None \<Rightarrow> (lk, m)
         | Some a \<Rightarrow>
             (case map_of amap (account_id a) of
                None \<Rightarrow> (lk, m)
              | Some selected \<Rightarrow>
                  (let lk1 = lk\<lparr>lk_states := adopt_result a known, lk_snapshot := Some (snapshot_of selected a known),
                                lk_error := None\<rparr>
                   in case ur_kind ur of
                        None \<Rightarrow> (lk1, m)
                      | Some kind \<Rightarrow>
                          (case acquire_account_lease_locked (ae_lease_monotonic ae) (ae_lease_wall ae) (ae_uid ae)
                                  (row_id selected) kind (ur_tokens ur) (\<not> probe_selected p selected) m of
                             (lease, m1) \<Rightarrow> (lk1\<lparr>lk_lease := Some lease\<rparr>, m1)))))"

definition unbound_locked ::
    "balancer_settings \<Rightarrow> attempt_env \<Rightarrow> unbound_request \<Rightarrow> bool \<Rightarrow> selection_inputs \<Rightarrow> selection_world
     \<Rightarrow> locked result \<times> selection_world" where
  "unbound_locked bs ae ur suppress si w =
     (case prepare_sticky_selection_states (bs_recovery bs) (bs_leases bs) (ae_monotonic ae) (ae_build_clock ae) si
             (ur_required ur) (sw_runtime w) of
        (states, amap, m) \<Rightarrow>
          (case unbound_pick bs ae ur suppress si states (sw_salts w) m of
             Inl e \<Rightarrow> (Inl e, w\<lparr>sw_runtime := m\<rparr>)
           | Inr p \<Rightarrow>
               (if pk_invalidated p
                then (Inr \<lparr>lk_states = [], lk_map = amap, lk_reservation = None, lk_invalidated = True, lk_lease = None,
                           lk_snapshot = None, lk_error = None, lk_code = pk_code p\<rparr>,
                      w\<lparr>sw_runtime := pk_runtime p, sw_salts := pk_salts p\<rparr>)
                else case admit_picked ae ur amap p of
                  (lk, m1) \<Rightarrow> (Inr lk, w\<lparr>sw_runtime := m1, sw_salts := pk_salts p\<rparr>))))"

section \<open>Persistence of the states\<close>

text \<open>
  The accounts are written one after the other; other requests run before each write. The call
  fails before write \<open>n\<close> when \<open>fails = Some n\<close>. The rows of the map follow what was written.
\<close>

record persisted =
  ps_stale :: "string list"
  ps_changed :: bool
  ps_map :: account_map

fun persist_states ::
    "(nat \<Rightarrow> selection_world \<Rightarrow> selection_world) \<Rightarrow> nat option \<Rightarrow> nat \<Rightarrow> account_state list \<Rightarrow> persisted \<Rightarrow> selection_world
     \<Rightarrow> persisted option \<times> selection_world" where
  "persist_states others fails i [] p w = (if fails = Some i then (None, w) else (Some p, w))"
| "persist_states others fails i (s # ss) p w =
     (if fails = Some i then (None, w)
      else if ignore_standard_quota s then persist_states others fails (Suc i) ss p w
      else case map_of (ps_map p) (account_id s) of
        None \<Rightarrow> persist_states others fails (Suc i) ss p w
      | Some a \<Rightarrow>
          (let w1 = others (10 + i) w
           in case persist_state_if_current None a s (sw_db w1) of
                (ok, a', db) \<Rightarrow>
                  persist_states others fails (Suc i) ss
                    (p\<lparr>ps_stale := (if ok then ps_stale p else ps_stale p @ [row_id a]),
                       ps_changed := (ps_changed p \<or> (ok \<and> needs_write a s)),
                       ps_map := AList.update (account_id s) a' (ps_map p)\<rparr>)
                    (w1\<lparr>sw_db := db\<rparr>)))"

definition persist_selection_state ::
    "(nat \<Rightarrow> selection_world \<Rightarrow> selection_world) \<Rightarrow> nat option \<Rightarrow> account_map \<Rightarrow> account_state list \<Rightarrow> selection_world
     \<Rightarrow> persisted option \<times> selection_world" where
  "persist_selection_state others fails amap states w =
     (case persist_states others fails 0 states \<lparr>ps_stale = [], ps_changed = False, ps_map = amap\<rparr> w of
        (None, w') \<Rightarrow> (None, w')
      | (Some p, w') \<Rightarrow>
          (Some p, if ps_changed p \<or> ps_stale p \<noteq> [] then w'\<lparr>sw_generation := sw_generation w' + 1\<rparr> else w'))"

section \<open>Giving back and committing\<close>

definition release_lease_step :: "account_lease option \<Rightarrow> selection_world \<Rightarrow> selection_world" where
  "release_lease_step lease w = w\<lparr>sw_runtime := release_account_lease lease (sw_runtime w)\<rparr>"

definition release_probe_step :: "probe_reservation option \<Rightarrow> selection_world \<Rightarrow> selection_world" where
  "release_probe_step r w = w\<lparr>sw_runtime := release_due_probe_reservation r (sw_runtime w)\<rparr>"

definition give_back ::
    "attempt_env \<Rightarrow> account_lease option \<Rightarrow> probe_reservation option \<Rightarrow> selection_world \<Rightarrow> selection_world" where
  "give_back ae lease r w = release_probe_step r (ae_others ae 2 (release_lease_step lease (ae_others ae 1 w)))"

definition sync_committed_probe_state_locked ::
    "real \<Rightarrow> probe_reservation \<Rightarrow> account_map \<Rightarrow> account_state list \<Rightarrow> runtime_table \<Rightarrow> runtime_table" where
  "sync_committed_probe_state_locked wall r amap states m =
     (case map_of amap (reserved_account r) of
        None \<Rightarrow> m
      | Some a \<Rightarrow>
          (case find (\<lambda>s. account_id s = reserved_account r) states of
             None \<Rightarrow> m
           | Some s \<Rightarrow> snd (sync_runtime_state wall False None a s m)))"

definition commit_step ::
    "attempt_env \<Rightarrow> probe_reservation \<Rightarrow> account_map \<Rightarrow> account_state list \<Rightarrow> selection_world \<Rightarrow> bool \<times> selection_world" where
  "commit_step ae r amap states w =
     (case commit_due_probe_reservation (ae_commit_wall ae) (Some r) (sw_runtime w) of
        (True, m) \<Rightarrow> (True, w\<lparr>sw_runtime := sync_committed_probe_state_locked (ae_commit_wall ae) r amap states m\<rparr>)
      | (False, m) \<Rightarrow> (False, w\<lparr>sw_runtime := release_due_probe_reservation (Some r) m\<rparr>))"

section \<open>The loop\<close>

datatype 'o run = Returned 'o | Failed | Running

datatype 'o verdict_of_attempt = Stop "'o run" | Retry nat bool selection_inputs

definition recovery_view :: "runtime_table \<Rightarrow> string \<Rightarrow> real option \<times> real option \<times> int \<times> real option" where
  "recovery_view m x =
     (let rt = or_default (map_of m x) new_runtime
      in (rt_reset_at rt, rt_cooldown_until rt, rt_error_count rt, rt_last_error_at rt))"

definition runtime_recovered :: "runtime_table \<Rightarrow> runtime_table \<Rightarrow> bool" where
  "runtime_recovered before m = list_ex (\<lambda>x. recovery_view m x \<noteq> recovery_view before x) (map fst before)"

definition direct_error :: "selection_inputs \<Rightarrow> unbound_outcome" where
  "direct_error si =
     \<lparr>uo_inputs = si, uo_snapshot = None, uo_lease = None, uo_error = si_error_message si, uo_code = si_error_code si,
      uo_direct = True\<rparr>"

text \<open>The next attempt, on reloaded inputs; a failed load ends the selection.\<close>

definition reload :: "attempt_env \<Rightarrow> nat \<Rightarrow> bool \<Rightarrow> unbound_outcome verdict_of_attempt" where
  "reload ae attempt suppress =
     (case ae_reload ae of
        None \<Rightarrow> Stop Failed
      | Some si \<Rightarrow> (if inputs_failed si then Stop (Returned (direct_error si)) else Retry attempt suppress si))"

definition retry_without_probes :: "attempt_env \<Rightarrow> nat \<Rightarrow> bool \<Rightarrow> unbound_outcome verdict_of_attempt" where
  "retry_without_probes ae attempt suppress =
     (if attempt \<ge> MAX_SELECTION_ATTEMPTS then reload ae 0 True else reload ae attempt suppress)"

definition unbound_finish ::
    "attempt_env \<Rightarrow> nat \<Rightarrow> bool \<Rightarrow> selection_inputs \<Rightarrow> locked \<Rightarrow> account_map \<Rightarrow> selection_world
     \<Rightarrow> unbound_outcome verdict_of_attempt \<times> selection_world" where
  "unbound_finish ae attempt suppress si lk amap w =
     (let final = Stop (Returned \<lparr>uo_inputs = si, uo_snapshot = lk_snapshot lk, uo_lease = lk_lease lk,
                                  uo_error = lk_error lk, uo_code = lk_code lk, uo_direct = False\<rparr>)
      in case (lk_snapshot lk, lk_reservation lk) of
           (Some snap, Some r) \<Rightarrow>
             (let w1 = ae_others ae 3 w
              in if ae_commit_fails ae then (Stop Failed, give_back ae (lk_lease lk) (Some r) w1)
                 else case commit_step ae r amap (lk_states lk) w1 of
                   (True, w2) \<Rightarrow> (final, w2)
                 | (False, w2) \<Rightarrow>
                     (retry_without_probes ae attempt suppress,
                      ae_others ae 5 (release_lease_step (lk_lease lk) (ae_others ae 4 w2))))
         | _ \<Rightarrow> (final, w))"

definition unbound_attempt ::
    "balancer_settings \<Rightarrow> unbound_request \<Rightarrow> attempt_env \<Rightarrow> nat \<Rightarrow> bool \<Rightarrow> selection_inputs \<Rightarrow> selection_world
     \<Rightarrow> unbound_outcome verdict_of_attempt \<times> selection_world" where
  "unbound_attempt bs ur ae attempt suppress si w =
     (case unbound_locked bs ae ur suppress si (ae_others ae 0 w) of
        (Inl e, w1) \<Rightarrow> (Stop Failed, w1)
      | (Inr lk, w1) \<Rightarrow>
          (if lk_invalidated lk then (retry_without_probes ae attempt suppress, ae_others ae 5 w1)
           else
             case persist_selection_state (ae_others ae) (ae_persist_fails ae) (lk_map lk) (lk_states lk) (ae_others ae 6 w1) of
               (None, w2) \<Rightarrow> (Stop Failed, give_back ae (lk_lease lk) (lk_reservation lk) w2)
             | (Some p, w2) \<Rightarrow>
                 (case lk_snapshot lk of
                    Some snap \<Rightarrow>
                      (if row_id snap \<in> set (ps_stale p)
                       then (if attempt \<ge> MAX_SELECTION_ATTEMPTS
                             then Stop (Returned \<lparr>uo_inputs = si, uo_snapshot = None, uo_lease = None, uo_error = None,
                                                  uo_code = lk_code lk, uo_direct = False\<rparr>)
                             else reload ae attempt suppress,
                             ae_others ae 5 (give_back ae (lk_lease lk) (lk_reservation lk) w2))
                       else if sw_generation w2 \<noteq> sw_generation w1 \<and> attempt < MAX_SELECTION_ATTEMPTS
                       then (reload ae attempt suppress, ae_others ae 5 (give_back ae (lk_lease lk) (lk_reservation lk) w2))
                       else unbound_finish ae attempt suppress si lk (ps_map p) w2)
                  | None \<Rightarrow>
                      (if lk_error lk = Some ''No available accounts''
                          \<and> runtime_recovered (sw_runtime w1) (sw_runtime w2) \<and> attempt < MAX_SELECTION_ATTEMPTS
                       then (reload ae attempt suppress, ae_others ae 5 w2)
                       else unbound_finish ae attempt suppress si lk (ps_map p) w2))))"

text \<open>\<open>attempt\<close> counts the attempts before this one.\<close>

fun unbound_loop ::
    "balancer_settings \<Rightarrow> unbound_request \<Rightarrow> attempt_env list \<Rightarrow> nat \<Rightarrow> bool \<Rightarrow> selection_inputs \<Rightarrow> selection_world
     \<Rightarrow> unbound_outcome run \<times> selection_world" where
  "unbound_loop bs ur [] attempt suppress si w = (Running, w)"
| "unbound_loop bs ur (ae # aes) attempt suppress si w =
     (case unbound_attempt bs ur ae (Suc attempt) suppress si w of
        (Stop r, w') \<Rightarrow> (r, w')
      | (Retry attempt' suppress' si', w') \<Rightarrow> unbound_loop bs ur aes attempt' suppress' si' w')"

definition run_unbound_selection_path ::
    "balancer_settings \<Rightarrow> unbound_request \<Rightarrow> attempt_env list \<Rightarrow> selection_inputs \<Rightarrow> selection_world
     \<Rightarrow> unbound_outcome run \<times> selection_world" where
  "run_unbound_selection_path bs ur aes si w = unbound_loop bs ur aes 0 False si w"


section \<open>Leases held\<close>

definition held :: "runtime_table \<Rightarrow> string \<Rightarrow> string set" where
  "held m a = fst ` set (table_leases m a)"

text \<open>
  \<open>only_lease V lease m\<close>: of the identifiers in \<open>V\<close> at most that of \<open>lease\<close> is held, and only on
  its account.
\<close>

definition only_lease :: "string set \<Rightarrow> account_lease option \<Rightarrow> (string \<Rightarrow> string set) \<Rightarrow> bool" where
  "only_lease V lease h =
     (\<forall>u\<in>V. \<forall>a. u \<in> h a \<longrightarrow> (\<exists>l. lease = Some l \<and> u = lease_id l \<and> a = lease_account l))"

locale lease_store =
  fixes wf :: "'m \<Rightarrow> bool" and holds :: "'m \<Rightarrow> string \<Rightarrow> string set" and give_up :: "account_lease \<Rightarrow> 'm \<Rightarrow> 'm"
  assumes give_up_wf: "wf m \<Longrightarrow> wf (give_up l m)"
    and give_up_holds: "wf m \<Longrightarrow> holds (give_up l m) a = (if a = lease_account l then holds m a - {lease_id l} else holds m a)"
begin

definition give_up_option :: "account_lease option \<Rightarrow> 'm \<Rightarrow> 'm" where
  "give_up_option lease m = (case lease of None \<Rightarrow> m | Some l \<Rightarrow> give_up l m)"

lemma give_up_clean:
  assumes "wf m" "only_lease V lease (holds m)"
  shows "wf (give_up_option lease m)" "only_lease V None (holds (give_up_option lease m))"
  using assms by (auto simp: give_up_option_def give_up_wf only_lease_def give_up_holds split: option.split)

lemma give_up_shrinks: "wf m \<Longrightarrow> holds (give_up_option lease m) a \<subseteq> holds m a"
  by (auto simp: give_up_option_def give_up_holds split: option.split)

end

interpretation runtime_leases: lease_store wf_table held "\<lambda>l m. snd (release_account_lease_locked l m)"
proof
  fix m l a
  assume m: "wf_table m"
  show "wf_table (snd (release_account_lease_locked l m))" by (rule release_locked_wf(1) [OF m])
  show "held (snd (release_account_lease_locked l m)) a = (if a = lease_account l then held m a - {lease_id l} else held m a)"
    by (auto simp: held_def release_locked_wf(2) [OF m] delete_as_filter)
qed

lemma release_is_give_up: "release_account_lease lease m = runtime_leases.give_up_option lease m"
  by (simp add: release_account_lease_def runtime_leases.give_up_option_def)

text \<open>Steps that leave every lease alone.\<close>

definition lease_part :: "runtime_state \<Rightarrow> lease_table option \<times> int \<times> int \<times> real" where
  "lease_part rt = (rt_leases rt, rt_inflight_response_creates rt, rt_inflight_streams rt, rt_leased_tokens rt)"

lemma lease_part_wf: "lease_part rt' = lease_part rt \<Longrightarrow> wf_runtime a rt \<Longrightarrow> wf_runtime a rt' \<and> leases_of rt' = leases_of rt"
  by (simp add: lease_part_def wf_runtime_def leases_of_def)

definition leases_kept :: "runtime_table \<Rightarrow> runtime_table \<Rightarrow> bool" where
  "leases_kept m m' = (wf_table m \<longrightarrow> wf_table m' \<and> table_leases m' = table_leases m)"

lemma leases_kept_refl [simp]: "leases_kept m m"
  by (simp add: leases_kept_def)

lemma leases_kept_trans: "leases_kept m m' \<Longrightarrow> leases_kept m' m'' \<Longrightarrow> leases_kept m m''"
  by (simp add: leases_kept_def)

lemma leases_kept_update:
  assumes "map_of m a = Some rt" "lease_part rt' = lease_part rt"
  shows "leases_kept m (AList.update a rt' m)"
proof -
  have "table_leases m a = leases_of rt" using assms(1) by (simp add: table_leases_def)
  then show ?thesis
    using lease_part_wf [OF assms(2)] wf_table_lookup [OF _ assms(1)]
    by (auto simp: leases_kept_def fun_eq_iff intro: wf_table_update)
qed

lemma leases_kept_setdefault:
  assumes "runtime_setdefault a m = (rt, m')"
  shows "leases_kept m m'" "map_of m' a = Some rt"
  using assms setdefault_wf(1,4) [OF _ assms]
  by (auto simp: leases_kept_def runtime_setdefault_def update_conv' split: option.splits)

lemma sync_kept: "leases_kept m (snd (sync_runtime_state wall sel ver a s m))"
proof -
  obtain rt m1 where d: "runtime_setdefault (row_id a) m = (rt, m1)" by fastforce
  obtain ok rt' where y: "sync_runtime wall sel ver a s rt = (ok, rt')" by fastforce
  have "lease_part rt' = lease_part rt"
    using y by (auto simp: sync_runtime_def Let_def mirror_state_def lease_part_def split: if_splits)
  then show ?thesis
    using leases_kept_trans [OF leases_kept_setdefault(1) [OF d] leases_kept_update [OF leases_kept_setdefault(2) [OF d]]]
    by (simp add: sync_runtime_state_def d y)
qed

lemma sync_selected_kept: "leases_kept m (sync_selected wall amap reserved chosen states m)"
proof (induction states arbitrary: m)
  case (Cons s states)
  show ?case
    using Cons leases_kept_trans [OF sync_kept Cons] by (auto simp: sync_selected_def split: option.split)
qed (simp add: sync_selected_def)

lemma release_probe_kept: "leases_kept m (release_due_probe_reservation r m)"
  by (auto simp: release_due_probe_reservation_def lease_part_def intro!: leases_kept_update split: option.split)

lemma commit_kept: "leases_kept m (snd (commit_due_probe_reservation wall r m))"
  by (auto simp: commit_due_probe_reservation_def lease_part_def bump_health_def intro!: leases_kept_update split: option.split)

lemma reserve_kept:
  assumes "reserve_due_probe env wall req states salts m = (r, states', salts', m')"
  shows "leases_kept m m'"
  using assms
  by (auto simp: reserve_due_probe_def reserve_for_def Let_def lease_part_def split: if_splits sum.splits option.splits
      intro!: leases_kept_update)


section \<open>Leases of the locked step\<close>

lemma reserve_picked_kept:
  assumes "reserve_picked ae b a offers p = Inr p'"
  shows "leases_kept (pk_runtime p) (pk_runtime p')"
proof -
  obtain r os ss m where rv: "reserve_due_probe (ae_envs ae 6) (ae_reserve_wall ae) (probe_request b) offers (pk_salts p) (pk_runtime p)
      = (r, os, ss, m)" by (metis prod_cases4)
  note k = reserve_kept [OF rv]
  show ?thesis
    using assms k leases_kept_trans [OF k release_probe_kept]
    by (auto simp: reserve_picked_def rv Let_def split: sum.splits)
qed

lemma pick_offered_kept:
  assumes "pick_offered ae b states offers salts m = Inr p"
  shows "leases_kept m (pk_runtime p)"
  using assms reserve_picked_kept
  by (fastforce simp: pick_offered_def Let_def bind_def split: sum.splits prod.splits option.splits if_splits)

lemma unbound_pick_kept:
  assumes "unbound_pick bs ae ur suppress si states salts m = Inr p"
  shows "leases_kept m (pk_runtime p)"
  using assms
  by (auto simp: unbound_pick_def Let_def bind_def refused_by_cap_def dest: pick_offered_kept split: sum.splits prod.splits if_splits)

text \<open>What the locked step does to the leases: at most one is added, that of the answer.\<close>

definition locked_leases :: "attempt_env \<Rightarrow> selection_world \<Rightarrow> locked result \<Rightarrow> selection_world \<Rightarrow> bool" where
  "locked_leases ae w r w' =
     (wf_table (sw_runtime w')
      \<and> (case r of
           Inl e \<Rightarrow> (\<forall>a. held (sw_runtime w') a \<subseteq> held (sw_runtime w) a)
         | Inr lk \<Rightarrow>
             (lk_invalidated lk \<longrightarrow> lk_lease lk = None)
             \<and> (case lk_lease lk of
                  None \<Rightarrow> (\<forall>a. held (sw_runtime w') a \<subseteq> held (sw_runtime w) a)
                | Some l \<Rightarrow>
                    lease_id l = ae_uid ae \<and> (\<exists>snap. lk_snapshot lk = Some snap \<and> row_id snap = lease_account l)
                    \<and> (\<forall>a. held (sw_runtime w') a
                           \<subseteq> held (sw_runtime w) a \<union> (if a = lease_account l then {ae_uid ae} else {})))))"

lemma kept_held: "leases_kept m m' \<Longrightarrow> wf_table m \<Longrightarrow> wf_table m' \<and> held m' = held m"
  by (simp add: leases_kept_def held_def fun_eq_iff)

lemma acquire_held:
  assumes "wf_table m" "uid \<notin> held m aid" "acquire_account_lease_locked t w uid aid k tok b m = (l, m')"
  shows "wf_table m'" "held m' a = held m a \<union> (if a = aid then {uid} else {})" "lease_id l = uid" "lease_account l = aid"
proof -
  note q = acquire_locked_wf [OF assms(1) assms(2) [unfolded held_def] assms(3)]
  show "wf_table m'" "lease_id l = uid" "lease_account l = aid" using q by auto
  show "held m' a = held m a \<union> (if a = aid then {uid} else {})"
    by (auto simp: held_def q(2) dom_update)
qed

lemma admit_picked_leases:
  assumes "admit_picked ae ur amap p = (lk, m1)" "wf_table (pk_runtime p)" "\<And>a. ae_uid ae \<notin> held (pk_runtime p) a"
  shows "wf_table m1" "\<not> lk_invalidated lk"
    and "lk_lease lk = None \<Longrightarrow> held m1 a = held (pk_runtime p) a"
    and "lk_lease lk = Some l \<Longrightarrow> lease_id l = ae_uid ae \<and> (\<exists>snap. lk_snapshot lk = Some snap \<and> row_id snap = lease_account l)
      \<and> held m1 a = held (pk_runtime p) a \<union> (if a = lease_account l then {ae_uid ae} else {})"
proof -
  let ?m = "synced_runtime ae amap p"
  have k: "wf_table ?m \<and> held ?m = held (pk_runtime p)"
    unfolding synced_runtime_def by (rule kept_held [OF sync_selected_kept assms(2)])
  have "wf_table m1 \<and> \<not> lk_invalidated lk \<and> (case lk_lease lk of None \<Rightarrow> held m1 = held (pk_runtime p)
     | Some l \<Rightarrow> lease_id l = ae_uid ae \<and> (\<exists>snap. lk_snapshot lk = Some snap \<and> row_id snap = lease_account l)
        \<and> (\<forall>a. held m1 a = held (pk_runtime p) a \<union> (if a = lease_account l then {ae_uid ae} else {})))"
  proof (cases "\<exists>a sel k. account (pk_result p) = Some a \<and> map_of amap (account_id a) = Some sel \<and> ur_kind ur = Some k")
    case True
    then obtain a sel kd where a: "account (pk_result p) = Some a" "map_of amap (account_id a) = Some sel" "ur_kind ur = Some kd"
      by blast
    obtain l m2 where q: "acquire_account_lease_locked (ae_lease_monotonic ae) (ae_lease_wall ae) (ae_uid ae) (row_id sel) kd
        (ur_tokens ur) (\<not> probe_selected p sel) ?m = (l, m2)" by fastforce
    have "ae_uid ae \<notin> held ?m (row_id sel)" using k assms(3) by simp
    note h = acquire_held [OF conjunct1 [OF k] this q]
    show ?thesis using assms(1) a q h k by (auto simp: admit_picked_def Let_def snapshot_of_def)
  next
    case False
    then show ?thesis using assms(1) k by (auto simp: admit_picked_def Let_def split: option.splits)
  qed
  then show "wf_table m1" "\<not> lk_invalidated lk"
    and "lk_lease lk = None \<Longrightarrow> held m1 a = held (pk_runtime p) a"
    and "lk_lease lk = Some l \<Longrightarrow> lease_id l = ae_uid ae \<and> (\<exists>snap. lk_snapshot lk = Some snap \<and> row_id snap = lease_account l)
      \<and> held m1 a = held (pk_runtime p) a \<union> (if a = lease_account l then {ae_uid ae} else {})"
    by auto
qed

lemma unbound_locked_leases:
  assumes "unbound_locked bs ae ur suppress si w = (r, w')" "wf_table (sw_runtime w)" "\<And>a. ae_uid ae \<notin> held (sw_runtime w) a"
  shows "locked_leases ae w r w'"
proof -
  obtain states amap m where pr: "prepare_sticky_selection_states (bs_recovery bs) (bs_leases bs) (ae_monotonic ae)
      (ae_build_clock ae) si (ur_required ur) (sw_runtime w) = (states, amap, m)" by (metis prod_cases3)
  note ps = prepare_spec [OF pr assms(2)]
  have hm: "held m a \<subseteq> held (sw_runtime w) a" for a using ps(2) [of a] by (auto simp: held_def)
  show ?thesis
  proof (cases "unbound_pick bs ae ur suppress si states (sw_salts w) m")
    case (Inl e)
    then show ?thesis using assms(1) hm ps(1) by (simp add: unbound_locked_def pr locked_leases_def) (auto simp: locked_leases_def)
  next
    case (Inr p)
    note kp = kept_held [OF unbound_pick_kept [OF Inr] ps(1)]
    show ?thesis
    proof (cases "pk_invalidated p")
      case True
      then show ?thesis using assms(1) hm kp by (auto simp: unbound_locked_def pr Inr locked_leases_def)
    next
      case False
      obtain lk m1 where ad: "admit_picked ae ur amap p = (lk, m1)" by fastforce
      have out: "r = Inr lk" "w' = w\<lparr>sw_runtime := m1, sw_salts := pk_salts p\<rparr>"
        using assms(1) False by (simp_all add: unbound_locked_def pr Inr ad)
      have "ae_uid ae \<notin> held (pk_runtime p) a" for a using kp hm [of a] assms(3) [of a] by auto
      note k1 = admit_picked_leases [OF ad conjunct1 [OF kp] this]
      show ?thesis
      proof (cases "lk_lease lk")
        case None
        then show ?thesis using k1(1,2) k1(3) [OF None] kp hm out by (simp add: locked_leases_def)
      next
        case (Some l)
        then show ?thesis using k1(1,2) k1(4) [OF Some] kp hm out by (auto simp: locked_leases_def)
      qed
    qed
  qed
qed


section \<open>Other requests\<close>

text \<open>
  \<open>neutral V f\<close>: the step \<open>f\<close> keeps the table well formed and takes no lease with an identifier in
  \<open>V\<close>; it may release any.
\<close>

definition neutral :: "string set \<Rightarrow> (selection_world \<Rightarrow> selection_world) \<Rightarrow> bool" where
  "neutral V f =
     (\<forall>w. wf_table (sw_runtime w) \<longrightarrow>
        wf_table (sw_runtime (f w)) \<and> (\<forall>u\<in>V. \<forall>a. u \<in> held (sw_runtime (f w)) a \<longrightarrow> u \<in> held (sw_runtime w) a))"

definition quiet_attempt :: "string set \<Rightarrow> attempt_env \<Rightarrow> bool" where
  "quiet_attempt V ae = (\<forall>i. neutral V (ae_others ae i))"

text \<open>
  The state of the selection between two steps: of its own identifiers \<open>V\<close> only \<open>lease\<close> is held,
  and of the identifiers \<open>W\<close> of others it holds none that \<open>w0\<close> did not hold.
\<close>

definition owns :: "string set \<Rightarrow> string set \<Rightarrow> selection_world \<Rightarrow> account_lease option \<Rightarrow> selection_world \<Rightarrow> bool" where
  "owns V W w0 lease w =
     (wf_table (sw_runtime w) \<and> only_lease V lease (held (sw_runtime w))
      \<and> (\<forall>u\<in>W. \<forall>a. u \<in> held (sw_runtime w) a \<longrightarrow> u \<in> held (sw_runtime w0) a))"

lemma owns_neutral: "neutral (V \<union> W) f \<Longrightarrow> owns V W w0 lease w \<Longrightarrow> owns V W w0 lease (f w)"
  by (simp add: owns_def neutral_def only_lease_def)

lemma owns_others: "quiet_attempt (V \<union> W) ae \<Longrightarrow> owns V W w0 lease w \<Longrightarrow> owns V W w0 lease (ae_others ae i w)"
  by (simp add: quiet_attempt_def owns_neutral)

lemma owns_kept: "leases_kept (sw_runtime w) (sw_runtime w') \<Longrightarrow> owns V W w0 lease w \<Longrightarrow> owns V W w0 lease w'"
  by (auto simp: owns_def dest: kept_held)

lemma owns_release: "owns V W w0 lease w \<Longrightarrow> owns V W w0 None (release_lease_step lease w)"
  using runtime_leases.give_up_clean [of "sw_runtime w" V lease] runtime_leases.give_up_shrinks [of "sw_runtime w" lease]
  by (auto simp: owns_def release_lease_step_def release_is_give_up)

section \<open>Tracking a lease through an attempt\<close>

text \<open>
  The contract of a property of the world that follows the lease an attempt holds: it survives
  what other requests do and every step that leaves the leases alone, and giving the lease back
  leaves none. The steps between the locked part and the answer then keep it.
\<close>

locale lease_tracking =
  fixes tracks :: "account_lease option \<Rightarrow> selection_world \<Rightarrow> bool" and calm_env :: "attempt_env \<Rightarrow> bool"
  assumes others: "calm_env ae \<Longrightarrow> tracks lease w \<Longrightarrow> tracks lease (ae_others ae i w)"
    and kept: "leases_kept (sw_runtime w) (sw_runtime w') \<Longrightarrow> tracks lease w \<Longrightarrow> tracks lease w'"
    and release: "tracks lease w \<Longrightarrow> tracks None (release_lease_step lease w)"
begin

lemma release_probe: "tracks lease w \<Longrightarrow> tracks lease (release_probe_step r w)"
  by (rule kept [of w]) (simp_all add: release_probe_step_def release_probe_kept)

lemma returned: "calm_env ae \<Longrightarrow> tracks lease w \<Longrightarrow> tracks None (give_back ae lease r w)"
  by (simp add: give_back_def release_probe others release)

lemma commit:
  assumes "commit_step ae r amap states w = (b, w')" "tracks lease w"
  shows "tracks lease w'"
proof (rule kept [OF _ assms(2)])
  obtain c m where c: "commit_due_probe_reservation (ae_commit_wall ae) (Some r) (sw_runtime w) = (c, m)" by fastforce
  have k: "leases_kept (sw_runtime w) m" using commit_kept [of "sw_runtime w" "ae_commit_wall ae" "Some r"] c by simp
  have "leases_kept m (sync_committed_probe_state_locked t r amap states m)" for t
    by (simp add: sync_committed_probe_state_locked_def sync_kept split: option.split)
  then show "leases_kept (sw_runtime w) (sw_runtime w')"
    using assms(1) c leases_kept_trans [OF k] release_probe_kept [of m] by (auto simp: commit_step_def split: if_splits bool.splits)
qed

lemma persist_each:
  assumes "persist_states (ae_others ae) fails i states p w = (r, w')" "calm_env ae" "tracks lease w"
  shows "tracks lease w'"
  using assms
proof (induction "ae_others ae" fails i states p w rule: persist_states.induct)
  case (2 fails i s ss p w)
  show ?case
  proof (cases "fails = Some i \<or> ignore_standard_quota s \<or> map_of (ps_map p) (account_id s) = None")
    case True
    then show ?thesis using 2 by (auto split: if_splits option.splits)
  next
    case False
    then obtain a where a: "map_of (ps_map p) (account_id s) = Some a" by blast
    obtain ok a' db where u: "persist_state_if_current None a s (sw_db (ae_others ae (10 + i) w)) = (ok, a', db)" by (metis prod_cases3)
    have "tracks lease (ae_others ae (10 + i) w)" by (rule others [OF 2(5,6)])
    then have "tracks lease ((ae_others ae (10 + i) w)\<lparr>sw_db := db\<rparr>)" by (rule kept [rotated]) simp
    then show ?thesis using 2(3) [OF _ _ a refl u [symmetric] refl] 2(4,5) False a u by (auto simp: Let_def)
  qed
qed (auto split: if_splits)

lemma persist:
  assumes "persist_selection_state (ae_others ae) fails amap states w = (r, w')" "calm_env ae" "tracks lease w"
  shows "tracks lease w'"
proof -
  obtain r1 w1 where p: "persist_states (ae_others ae) fails 0 states \<lparr>ps_stale = [], ps_changed = False, ps_map = amap\<rparr> w = (r1, w1)" by fastforce
  have t: "tracks lease w1" by (rule persist_each [OF p assms(2,3)])
  have "leases_kept (sw_runtime w1) (sw_runtime w')" using assms(1) p by (auto simp: persist_selection_state_def split: option.splits)
  then show ?thesis using t by (rule kept)
qed

text \<open>What is held when an attempt or the loop ends: the lease of the answer and nothing else.\<close>

definition run_tracks :: "unbound_outcome run \<Rightarrow> selection_world \<Rightarrow> bool" where
  "run_tracks r w =
     (case r of
        Returned o' \<Rightarrow> tracks (uo_lease o') w \<and> (uo_snapshot o' = None \<longrightarrow> uo_lease o' = None)
      | _ \<Rightarrow> tracks None w)"

definition verdict_tracks :: "unbound_outcome verdict_of_attempt \<Rightarrow> selection_world \<Rightarrow> bool" where
  "verdict_tracks v w = (case v of Stop r \<Rightarrow> run_tracks r w | Retry _ _ _ \<Rightarrow> tracks None w)"

text \<open>What the locked part of an attempt must give.\<close>

definition lock_tracks :: "locked result \<Rightarrow> selection_world \<Rightarrow> bool" where
  "lock_tracks r w =
     (case r of
        Inl e \<Rightarrow> tracks None w
      | Inr lk \<Rightarrow> tracks (lk_lease lk) w \<and> (lk_snapshot lk = None \<or> lk_invalidated lk \<longrightarrow> lk_lease lk = None))"

lemma failed: "tracks None w \<Longrightarrow> verdict_tracks (Stop Failed) w"
  by (simp add: verdict_tracks_def run_tracks_def)

lemma reloaded:
  assumes "tracks None w"
  shows "verdict_tracks (reload ae n b) w" "verdict_tracks (retry_without_probes ae n b) w"
  using assms by (auto simp: reload_def retry_without_probes_def verdict_tracks_def run_tracks_def direct_error_def split: option.split)

lemma finished:
  assumes "unbound_finish ae n b si lk amap w = (v, w')" "calm_env ae" "tracks (lk_lease lk) w"
    and "lk_snapshot lk = None \<Longrightarrow> lk_lease lk = None"
  shows "verdict_tracks v w'"
proof (cases "lk_snapshot lk = None \<or> lk_reservation lk = None \<or> ae_commit_fails ae")
  case True
  have "tracks None (give_back ae (lk_lease lk) r (ae_others ae 3 w))" for r by (rule returned [OF assms(2) others [OF assms(2,3)]])
  then show ?thesis using True assms(1,3,4)
    by (auto simp: unbound_finish_def Let_def verdict_tracks_def run_tracks_def split: option.splits)
next
  case False
  then obtain snap r where sr: "lk_snapshot lk = Some snap" "lk_reservation lk = Some r" by auto
  obtain ok w2 where c: "commit_step ae r amap (lk_states lk) (ae_others ae 3 w) = (ok, w2)" by fastforce
  have o2: "tracks (lk_lease lk) w2" by (rule commit [OF c others [OF assms(2,3)]])
  show ?thesis
  proof (cases ok)
    case True
    then show ?thesis using assms(1) sr c o2 False by (auto simp: unbound_finish_def Let_def verdict_tracks_def run_tracks_def)
  next
    case no: False
    have "tracks None (ae_others ae 5 (release_lease_step (lk_lease lk) (ae_others ae 4 w2)))"
      by (intro others release assms(2) o2)
    then show ?thesis using assms(1) sr c no False reloaded(2) by (auto simp: unbound_finish_def Let_def)
  qed
qed

end

text \<open>With a contract for the locked part of a request without affinity, the whole loop tracks its lease.\<close>

locale unbound_tracking = lease_tracking +
  fixes bs :: balancer_settings and ur :: unbound_request
  assumes lock: "calm_env ae \<Longrightarrow> tracks None w \<Longrightarrow> unbound_locked bs ae ur b si w = (r, w') \<Longrightarrow> lock_tracks r w'"
begin

lemma attempt:
  assumes "unbound_attempt bs ur ae n b si w = (v, w')" "calm_env ae" "tracks None w"
  shows "verdict_tracks v w'"
proof -
  obtain r w1 where lk: "unbound_locked bs ae ur b si (ae_others ae 0 w) = (r, w1)" by fastforce
  note lt = lock [OF assms(2) others [OF assms(2,3)] lk]
  show ?thesis
  proof (cases r)
    case (Inl e)
    then show ?thesis using assms(1) lk lt failed by (simp add: unbound_attempt_def lock_tracks_def)
  next
    case (Inr k)
    have o1: "tracks (lk_lease k) w1" and lease: "lk_snapshot k = None \<or> lk_invalidated k \<Longrightarrow> lk_lease k = None"
      using lt by (simp_all add: Inr lock_tracks_def)
    show ?thesis
    proof (cases "lk_invalidated k")
      case True
      then have "tracks None (ae_others ae 5 w1)" using o1 lease others [OF assms(2)] by simp
      then show ?thesis using assms(1) lk Inr True reloaded(2) by (auto simp: unbound_attempt_def)
    next
      case False
      obtain pr w2 where p: "persist_selection_state (ae_others ae) (ae_persist_fails ae) (lk_map k) (lk_states k) (ae_others ae 6 w1) = (pr, w2)"
        by fastforce
      have o2: "tracks (lk_lease k) w2" by (rule persist [OF p assms(2) others [OF assms(2) o1]])
      have gb: "tracks None (give_back ae (lk_lease k) (lk_reservation k) w2)" by (rule returned [OF assms(2) o2])
      note gb5 = others [OF assms(2) gb, of 5]
      note fin = finished [OF _ assms(2) o2]
      have none5: "tracks None (ae_others ae 5 w2)" if "lk_snapshot k = None"
        using others [OF assms(2) o2, of 5] lease that by simp
      show ?thesis
        using assms(1) lk Inr False p gb reloaded(1) [OF gb5, of ae n b] reloaded(1) [OF none5, of ae n b] fin lease gb5
        by (auto simp: unbound_attempt_def verdict_tracks_def run_tracks_def split: option.splits if_splits)
    qed
  qed
qed

lemma loop:
  "unbound_loop bs ur aes n b si w = (r, w') \<Longrightarrow> \<forall>ae\<in>set aes. calm_env ae \<Longrightarrow> tracks None w \<Longrightarrow> run_tracks r w'"
proof (induction aes arbitrary: n b si w)
  case (Cons ae aes)
  obtain v w1 where v: "unbound_attempt bs ur ae (Suc n) b si w = (v, w1)" by fastforce
  have ao: "verdict_tracks v w1" using attempt [OF v] Cons(3,4) by simp
  show ?case
  proof (cases v)
    case (Stop x)
    then show ?thesis using Cons(2) v ao by (simp add: verdict_tracks_def)
  next
    case (Retry n' b' si')
    then show ?thesis using Cons v ao by (simp add: verdict_tracks_def)
  qed
qed (simp add: run_tracks_def)

end

section \<open>No lease escapes\<close>

lemma lease_needs_snapshot: "locked_leases ae w (Inr lk) w' \<Longrightarrow> lk_snapshot lk = None \<Longrightarrow> lk_lease lk = None"
  by (auto simp: locked_leases_def split: option.splits)

lemma owns_locked:
  assumes "locked_leases ae w r w'" "owns V W w0 None w" "ae_uid ae \<in> V" "V \<inter> W = {}"
  shows "case r of Inl e \<Rightarrow> owns V W w0 None w' | Inr lk \<Rightarrow> owns V W w0 (lk_lease lk) w'"
proof -
  have "ae_uid ae \<notin> W" using assms(3,4) by blast
  then show ?thesis using assms
    by (auto simp: locked_leases_def owns_def only_lease_def split: sum.splits option.splits if_splits) blast+
qed

text \<open>The other requests take no lease with an identifier of the selection, which are its own.\<close>

definition own_ids :: "string set \<Rightarrow> string set \<Rightarrow> attempt_env \<Rightarrow> bool" where
  "own_ids V W ae = (V \<inter> W = {} \<and> quiet_attempt (V \<union> W) ae \<and> ae_uid ae \<in> V)"

interpretation owned: lease_tracking "owns V W w0" "own_ids V W" for V W w0
  by unfold_locales (simp_all add: own_ids_def owns_others owns_kept owns_release)

lemma owned_lock:
  assumes "locked_leases ae w r w'" "owns V W w0 None w" "own_ids V W ae"
  shows "owned.lock_tracks V W w0 r w'"
proof (cases r)
  case (Inl e)
  then show ?thesis using owns_locked [OF assms(1,2)] assms(3) by (simp add: own_ids_def owned.lock_tracks_def)
next
  case (Inr lk)
  have "lk_invalidated lk \<longrightarrow> lk_lease lk = None" using assms(1) by (simp add: Inr locked_leases_def)
  moreover have "lk_snapshot lk = None \<longrightarrow> lk_lease lk = None" using lease_needs_snapshot [OF assms(1) [unfolded Inr]] by blast
  ultimately show ?thesis using owns_locked [OF assms(1,2)] assms(3) by (auto simp: own_ids_def owned.lock_tracks_def Inr)
qed

lemma unbound_locked_owned:
  assumes "own_ids V W ae" "owns V W w0 None w" "unbound_locked bs ae ur b si w = (r, w')"
  shows "owned.lock_tracks V W w0 r w'"
proof -
  have "wf_table (sw_runtime w)" "\<And>a. ae_uid ae \<notin> held (sw_runtime w) a"
    using assms(1,2) by (auto simp: own_ids_def owns_def only_lease_def)
  from owned_lock [OF unbound_locked_leases [OF assms(3) this] assms(2,1)] show ?thesis .
qed

interpretation owned_unbound: unbound_tracking "owns V W w0" "own_ids V W" bs ur for V W w0 bs ur
  by unfold_locales (rule unbound_locked_owned)

text \<open>
  C7. No lease escapes the selection: let other requests do anything between its steps but take
  leases with its identifiers. When it returns an account, the lease it returns is the only one of
  its identifiers that can still be held; when it returns none, when a database call fails in any
  attempt, and between attempts, none is held. The runtime table stays well formed, and of the
  identifiers of others it takes none: two selections running interleaved satisfy each other's
  assumption.
\<close>

theorem unbound_selection_leaks_no_lease:
  assumes "\<forall>ae\<in>set aes. own_ids V W ae"
    and "wf_table (sw_runtime w)" and "\<forall>u\<in>V. \<forall>a. u \<notin> held (sw_runtime w) a"
    and "run_unbound_selection_path bs ur aes si w = (r, w')"
  shows "(case r of
            Returned o' \<Rightarrow> only_lease V (uo_lease o') (held (sw_runtime w')) \<and> (uo_snapshot o' = None \<longrightarrow> uo_lease o' = None)
          | _ \<Rightarrow> only_lease V None (held (sw_runtime w')))
    \<and> wf_table (sw_runtime w') \<and> (\<forall>u\<in>W. \<forall>a. u \<in> held (sw_runtime w') a \<longrightarrow> u \<in> held (sw_runtime w) a)"
proof -
  have own: "owns V W w None w" using assms(2,3) by (simp add: owns_def only_lease_def)
  from owned_unbound.loop [OF assms(4) [unfolded run_unbound_selection_path_def] assms(1) own]
  show ?thesis by (auto simp: owned.run_tracks_def owns_def split: run.splits)
qed

section \<open>Witnesses\<close>

definition w_rows :: "account_row list" where
  "w_rows = [w_acct\<lparr>row_id := ''a'', row_status := ACTIVE, row_plan_type := Some ''plus''\<rparr>]"

definition w_inputs :: selection_inputs where
  "w_inputs = new_inputs w_rows [] [] [] w_planner"

definition w_world :: selection_world where
  "w_world = \<lparr>sw_runtime = [], sw_db = w_db\<lparr>db_accounts := w_rows\<rparr>, sw_salts = w_salts, sw_generation = 0\<rparr>"

definition w_attempt :: attempt_env where
  "w_attempt = \<lparr>ae_monotonic = 0, ae_build_clock = (\<lambda>_. 1000), ae_planner_now = 0, ae_envs = w_envs, ae_reserve_wall = 1000,
     ae_sync_wall = (\<lambda>_. 1000), ae_lease_monotonic = 0, ae_lease_wall = 1000, ae_uid = ''l1'', ae_commit_wall = 1000,
     ae_others = (\<lambda>_ w. w), ae_persist_fails = None, ae_commit_fails = False, ae_reload = None\<rparr>"

definition w_bs :: balancer_settings where
  "w_bs = \<lparr>bs_recovery = w_settings, bs_leases = w_lease_settings\<rparr>"

definition w_request :: unbound_request where
  "w_request = \<lparr>ur_budget = w_budget, ur_required = None, ur_costs = None, ur_kind = Some Stream, ur_tokens = 1, ur_reserve = 0,
     ur_caps = w_caps\<rparr>"

lemma w_unbound_evaluated:
  "case fst (run_unbound_selection_path w_bs w_request [w_attempt] w_inputs w_world) of
     Returned o' \<Rightarrow> map_option row_id (uo_snapshot o') = Some ''a'' \<and> map_option lease_id (uo_lease o') = Some ''l1''
   | _ \<Rightarrow> False"
  by code_simp

lemma w_unbound_run:
  obtains o' w' where "run_unbound_selection_path w_bs w_request [w_attempt] w_inputs w_world = (Returned o', w')"
    "map_option row_id (uo_snapshot o') = Some ''a''" "map_option lease_id (uo_lease o') = Some ''l1''"
  using w_unbound_evaluated
  by (cases "run_unbound_selection_path w_bs w_request [w_attempt] w_inputs w_world") (auto split: run.splits)

lemma w_own: "own_ids {''l1''} {} w_attempt"
  by (simp add: own_ids_def quiet_attempt_def neutral_def w_attempt_def)

lemma w_world_runtime [simp]: "sw_runtime w_world = []"
  by (simp add: w_world_def)

lemma empty_runtime [simp]: "wf_table []" "held [] a = {}"
  by (simp_all add: wf_table_def held_def table_leases_def)

theorem unbound_selection_leaks_no_lease_witness:
  "\<exists>o' w'. run_unbound_selection_path w_bs w_request [w_attempt] w_inputs w_world = (Returned o', w')
     \<and> map_option lease_id (uo_lease o') = Some ''l1'' \<and> only_lease {''l1''} (uo_lease o') (held (sw_runtime w'))"
proof -
  obtain o' w' where r: "run_unbound_selection_path w_bs w_request [w_attempt] w_inputs w_world = (Returned o', w')"
    "map_option lease_id (uo_lease o') = Some ''l1''" using w_unbound_run by metis
  have "only_lease {''l1''} (uo_lease o') (held (sw_runtime w'))"
    using unbound_selection_leaks_no_lease [OF _ _ _ r(1), of "{''l1''}" "{}"] w_own by simp
  with r show ?thesis by blast
qed

end
