(* ===== verification/Selection_Sticky.thy ===== *)
theory Selection_Sticky
  imports Selection_Unbound
begin

text \<open>
  The selection of an account for a request with affinity: \<open>run_sticky_selection_path\<close> of
  \<open>modules/proxy/_load_balancer/sticky_selection.py\<close>. An attempt reads the binding, decides under
  the runtime lock which states it may offer, selects among them while the database is used,
  and takes the lock again to reserve a recovery probe, to check the cap and to take the
  lease. The binding is written last, and put back when the probe it was written for is lost.
  The steps, the other requests and the failures are those of \<open>Selection_Unbound\<close>.
\<close>

section \<open>Requests\<close>

record sticky_path_request =
  sp_key :: string
  sp_kind :: "sticky_kind option"
  sp_reallocate :: bool
  sp_session_header :: bool
  sp_legacy_key :: "string option"
  sp_legacy_existing :: "string option"
  sp_spill :: bool
  sp_unambiguous :: bool
  sp_max_age :: "int option"
  sp_base :: unbound_request

record sticky_env =
  se_attempt :: attempt_env
  se_now :: "nat \<Rightarrow> int"
  se_lookup_fails :: bool
  se_choice_fails :: bool
  se_write_fails :: bool
  se_restore_fails :: bool
  se_others :: "nat \<Rightarrow> selection_world \<Rightarrow> selection_world"

text \<open>What an attempt decides before it selects.\<close>

record stance =
  st_existing :: existing_binding
  st_bare :: bool
  st_spillable :: bool
  st_hard :: bool

definition existing_id :: "existing_binding \<Rightarrow> string option" where
  "existing_id e = (case e of Unset \<Rightarrow> None | Known a \<Rightarrow> a)"

definition stance_of :: "sticky_path_request \<Rightarrow> existing_binding \<Rightarrow> stance" where
  "stance_of sp existing =
     (let bare = (sp_kind sp = Some CODEX_SESSION \<and> sp_session_header sp \<and> sp_legacy_key sp \<noteq> None
                  \<and> sp_legacy_existing sp = None)
      in \<lparr>st_existing = existing, st_bare = bare,
          st_spillable = (sp_spill sp \<and> ur_kind (sp_base sp) \<noteq> None \<and> bare),
          st_hard = (sp_kind sp = Some CODEX_SESSION \<and> existing_id existing \<noteq> None \<and> \<not> bare)\<rparr>)"

section \<open>Reading the binding\<close>

definition read_binding :: "sticky_env \<Rightarrow> sticky_path_request \<Rightarrow> selection_world \<Rightarrow> existing_binding \<times> selection_world" where
  "read_binding se sp w =
     (case sp_kind sp of
        None \<Rightarrow> (Unset, w)
      | Some kind \<Rightarrow>
          (let w0 = ae_others (se_attempt se) 7 w
           in case get_account_id (\<lambda>t. db_sticky (sw_db (ae_others (se_attempt se) 8 (w0\<lparr>sw_db := (sw_db w0)\<lparr>db_sticky := t\<rparr>\<rparr>))))
                     (se_now se 0) (sp_key sp) kind (sp_max_age sp) (db_sticky (sw_db w0)) of
                (found, t) \<Rightarrow>
                  (if kind = CODEX_SESSION \<and> sp_legacy_existing sp \<noteq> None
                   then (Known (sp_legacy_existing sp), w0\<lparr>sw_db := (sw_db w0)\<lparr>db_sticky := t\<rparr>\<rparr>)
                   else (Known found, w0\<lparr>sw_db := (sw_db w0)\<lparr>db_sticky := t\<rparr>\<rparr>))))"

section \<open>What may be offered\<close>

definition cap_states :: "unbound_request \<Rightarrow> account_state list \<Rightarrow> account_state list" where
  "cap_states ur states = filter_states_for_account_caps states (ur_kind ur) (ur_caps ur) (ur_reserve ur)"

definition stance_states :: "sticky_path_request \<Rightarrow> stance \<Rightarrow> account_state list \<Rightarrow> account_state list" where
  "stance_states sp st states =
     (let base = (if st_hard st then filter (\<lambda>s. Some (account_id s) = existing_id (st_existing st)) states
                  else if st_bare st \<and> existing_id (st_existing st) \<noteq> None \<and> \<not> st_spillable st then states
                  else cap_states (sp_base sp) states)
      in if st_spillable st \<and> ur_kind (sp_base sp) = Some Stream
         then first_nonempty (filter_states_for_account_caps base (Some Response_create) (ur_caps (sp_base sp)) 0) base
         else base)"

definition preserve_mapping :: "sticky_path_request \<Rightarrow> stance \<Rightarrow> account_state list \<Rightarrow> account_state list \<Rightarrow> bool" where
  "preserve_mapping sp st states offers =
     (st_bare st
      \<and> (case existing_id (st_existing st) of None \<Rightarrow> False
         | Some e \<Rightarrow>
             (st_spillable st \<and> list_ex (\<lambda>s. account_id s = e) states \<and> \<not> list_ex (\<lambda>s. account_id s = e) offers)
             \<or> sp_unambiguous sp))"

record offer =
  of_stance :: stance
  of_states :: "account_state list"
  of_map :: account_map
  of_offers :: "account_state list"
  of_preserve :: bool
  of_costs :: routing_costs

text \<open>The first use of the lock. A refusal is the pair of message and code.\<close>

definition sticky_offer ::
    "balancer_settings \<Rightarrow> sticky_env \<Rightarrow> sticky_path_request \<Rightarrow> bool \<Rightarrow> selection_inputs \<Rightarrow> existing_binding \<Rightarrow> selection_world
     \<Rightarrow> (string \<times> string + offer) result \<times> selection_world" where
  "sticky_offer bs se sp suppress si existing w =
     (case prepare_sticky_selection_states (bs_recovery bs) (bs_leases bs) (ae_monotonic (se_attempt se))
             (ae_build_clock (se_attempt se)) si (ur_required (sp_base sp)) (sw_runtime w) of
        (states, amap, m) \<Rightarrow>
          (let w1 = w\<lparr>sw_runtime := m\<rparr>;
               costs = or_default (ur_costs (sp_base sp)) (build_routing_costs (si_planner si) states (ae_planner_now (se_attempt se)));
               st = stance_of sp existing;
               base = stance_states sp st states;
               preserve = preserve_mapping sp st states base
           in if st_hard st \<and> ur_required (sp_base sp) \<noteq> None \<and> existing_id existing \<noteq> ur_required (sp_base sp)
              then (Inr (Inl (''Account-owned continuity sources conflict; retry the logical turn'', ''continuity_owner_conflict'')), w1)
              else if sp_unambiguous sp \<and> \<not> st_hard st \<and> length (effective_continuity_owner_candidates si) \<noteq> 1
              then (Inr (Inl (''Conversation owner cannot be determined from the eligible account pool'',
                              ''conversation_owner_unavailable'')), w1)
              else
                case (if suppress
                      then filter_recovery_probe_candidates (ae_envs (se_attempt se) 0) base
                             (b_traffic_class (ur_budget (sp_base sp))) (sw_salts w)
                      else (Inr base, sw_salts w)) of
                  (Inl e, salts) \<Rightarrow> (Inl e, w1)
                | (Inr offers, salts) \<Rightarrow>
                    (Inr (Inr \<lparr>of_stance = st, of_states = states, of_map = amap, of_offers = offers, of_preserve = preserve,
                               of_costs = costs\<rparr>), w1\<lparr>sw_salts := salts\<rparr>)))"

section \<open>The choice\<close>

definition sticky_request_of :: "sticky_path_request \<Rightarrow> offer \<Rightarrow> sticky_request" where
  "sticky_request_of sp f =
     \<lparr>sr_budget = (unbound_budget (sp_base sp) (of_costs f)), sr_key = Some (sp_key sp), sr_kind = sp_kind sp,
      sr_reallocate = sp_reallocate sp, sr_max_age = sp_max_age sp, sr_existing = st_existing (of_stance f),
      sr_preserve = of_preserve f\<rparr>"

record choice =
  co_result :: selection_result
  co_message :: "string option"
  co_code :: "string option"
  co_offers :: "account_state list"
  co_mutation :: "string option option"
  co_salts :: salt_state

definition refused_choice :: "string \<Rightarrow> string option \<Rightarrow> account_state list \<Rightarrow> salt_state \<Rightarrow> choice" where
  "refused_choice msg code offers salts =
     \<lparr>co_result = \<lparr>account = None, error_message = None\<rparr>, co_message = Some msg, co_code = code, co_offers = offers,
      co_mutation = None, co_salts = salts\<rparr>"

definition hard_choice :: "attempt_env \<Rightarrow> budget_request \<Rightarrow> account_state list \<Rightarrow> salt_state \<Rightarrow> choice result" where
  "hard_choice ae b offers salts =
     (let r = select_account_preferring_budget_safe (\<lambda>n. ae_envs ae (20 + n)) b offers salts
      in bind (out_result r) (\<lambda>res. Inr
           \<lparr>co_result = res,
            co_message = (case account res of
                Some a \<Rightarrow> map_option selection_error_text (error_message res)
              | None \<Rightarrow> (case error_message res of
                            Some e \<Rightarrow> Some (selection_error_text e)
                          | None \<Rightarrow> Some ''Hard affinity owner account is unavailable'')),
            co_code = (case account res of Some a \<Rightarrow> None | None \<Rightarrow> Some ''hard_affinity_saturated''),
            co_offers = out_states r, co_mutation = None, co_salts = out_salts r\<rparr>))"

text \<open>The table is used, and other requests run, only when the affinity code is entered.\<close>

definition sticky_choose ::
    "sticky_env \<Rightarrow> sticky_path_request \<Rightarrow> offer \<Rightarrow> selection_world \<Rightarrow> choice result \<times> selection_world" where
  "sticky_choose se sp f w =
     (let ae = se_attempt se; ur = sp_base sp; hard = st_hard (of_stance f)
      in if hard \<and> of_offers f = []
         then (Inr (refused_choice ''Hard affinity owner account is unavailable'' (Some ''hard_affinity_saturated'')
                      (of_offers f) (sw_salts w)), w)
         else if of_offers f = [] \<and> of_states f \<noteq> []
         then (Inr (refused_choice (account_cap_error_message (ur_kind ur) (ur_caps ur)) (account_cap_error_code (ur_kind ur))
                      (of_offers f) (sw_salts w)), w)
         else if hard then (hard_choice ae (unbound_budget ur (of_costs f)) (of_offers f) (sw_salts w), w)
         else if se_choice_fails se then (Inl ValueError, ae_others ae 9 w)
         else
           let w1 = ae_others ae 9 w;
               c = select_with_stickiness (\<lambda>n. ae_envs ae (20 + n))
                     (\<lambda>t. t) (se_now se 1) (sticky_request_of sp f) (map fst (of_map f)) (of_offers f) (sw_salts w1)
                     (db_sticky (sw_db w1))
           in (bind (sc_result c) (\<lambda>res. Inr
                 \<lparr>co_result = res, co_message = map_option selection_error_text (error_message res), co_code = None,
                  co_offers = sc_states c, co_mutation = sc_mutation c, co_salts = sc_salts c\<rparr>),
               w1\<lparr>sw_db := (sw_db w1)\<lparr>db_sticky := sc_table c\<rparr>\<rparr>))"

section \<open>The second use of the lock\<close>

definition should_reserve :: "sticky_path_request \<Rightarrow> stance \<Rightarrow> account_state \<Rightarrow> bool" where
  "should_reserve sp st a = (existing_id (st_existing st) \<noteq> Some (account_id a) \<or> sp_reallocate sp)"

definition picked_of :: "offer \<Rightarrow> choice \<Rightarrow> salt_state \<Rightarrow> runtime_table \<Rightarrow> picked" where
  "picked_of f c salts m =
     \<lparr>pk_result = co_result c, pk_message = co_message c, pk_code = co_code c,
      pk_states = update_states (of_states f) (co_offers c), pk_salts = salts, pk_reservation = None,
      pk_invalidated = False, pk_runtime = m\<rparr>"

definition reserve_for_choice :: "sticky_env \<Rightarrow> sticky_path_request \<Rightarrow> offer \<Rightarrow> choice \<Rightarrow> selection_world \<Rightarrow> picked result" where
  "reserve_for_choice se sp f c w =
     (let ae = se_attempt se; b = unbound_budget (sp_base sp) (of_costs f)
      in case probing_result_requires_recovery_reservation (ae_envs ae 5) (co_offers c) (account (co_result c)) (b_strategy b)
                (b_traffic_class b) (sw_salts w) of
           (needs, salts) \<Rightarrow>
             bind needs (\<lambda>n.
               let p = picked_of f c salts (sw_runtime w)
               in case account (co_result c) of
                    Some a \<Rightarrow> (if n \<and> should_reserve sp (of_stance f) a then reserve_picked ae b a (co_offers c) p else Inr p)
                  | None \<Rightarrow> Inr p))"

text \<open>A reservation that is not current any more is given back, and the choice is void.\<close>

definition recheck_reservation :: "account_map \<Rightarrow> picked \<Rightarrow> picked" where
  "recheck_reservation amap p =
     (case account (pk_result p) of
        None \<Rightarrow> p
      | Some a \<Rightarrow>
          (case map_of amap (account_id a) of
             None \<Rightarrow> p
           | Some selected \<Rightarrow>
               (if \<not> pk_invalidated p \<and> probe_selected p selected \<and> \<not> probe_reservation_current (pk_reservation p) (pk_runtime p)
                then p\<lparr>pk_reservation := None, pk_invalidated := True,
                       pk_runtime := release_due_probe_reservation (pk_reservation p) (pk_runtime p)\<rparr>
                else p)))"

definition sticky_reserve :: "sticky_env \<Rightarrow> sticky_path_request \<Rightarrow> offer \<Rightarrow> choice \<Rightarrow> selection_world \<Rightarrow> picked result" where
  "sticky_reserve se sp f c w = bind (reserve_for_choice se sp f c w) (\<lambda>p. Inr (recheck_reservation (of_map f) p))"

text \<open>
  The check of the cap and the lease. The account is admitted unless its lease is refused; an
  account that is not admitted gives its reservation back.
\<close>

record admission_step =
  ad_admitted :: bool
  ad_lease :: "account_lease option"
  ad_error :: "string option"
  ad_code :: "string option"
  ad_runtime :: runtime_table

definition sticky_lease :: "attempt_env \<Rightarrow> unbound_request \<Rightarrow> account_map \<Rightarrow> picked \<Rightarrow> admission_step" where
  "sticky_lease ae ur amap p =
     (let refused = \<lparr>ad_admitted = False, ad_lease = None, ad_error = pk_message p, ad_code = pk_code p, ad_runtime = pk_runtime p\<rparr>
      in case account (pk_result p) of
           None \<Rightarrow> refused
         | Some a \<Rightarrow>
             (case map_of amap (account_id a) of
                None \<Rightarrow> refused
              | Some selected \<Rightarrow>
                  (case ur_kind ur of
                     None \<Rightarrow> refused\<lparr>ad_admitted := True, ad_error := None\<rparr>
                   | Some kind \<Rightarrow>
                       (case account_lease_allowed_locked (row_id selected) kind (ur_caps ur) (ur_reserve ur) (pk_runtime p) of
                          (allowed, m) \<Rightarrow>
                            (if \<not> allowed
                             then refused\<lparr>ad_error := Some (account_cap_error_message (Some kind) (ur_caps ur)),
                                          ad_code := account_cap_error_code (Some kind), ad_runtime := m\<rparr>
                             else case acquire_account_lease_locked (ae_lease_monotonic ae) (ae_lease_wall ae) (ae_uid ae)
                                         (row_id selected) kind (ur_tokens ur) (\<not> probe_selected p selected) m of
                                    (lease, m1) \<Rightarrow>
                                      refused\<lparr>ad_admitted := True, ad_lease := Some lease, ad_error := None, ad_runtime := m1\<rparr>)))))"

definition sticky_admit :: "attempt_env \<Rightarrow> unbound_request \<Rightarrow> account_map \<Rightarrow> picked \<Rightarrow> locked \<times> runtime_table" where
  "sticky_admit ae ur amap p =
     (let d = sticky_lease ae ur amap p;
          reservation = (if ad_admitted d then pk_reservation p else None);
          m = (if ad_admitted d then ad_runtime d else release_due_probe_reservation (pk_reservation p) (ad_runtime d));
          known = known_states amap (pk_states p);
          chosen = (if ad_admitted d then map_option account_id (account (pk_result p)) else None);
          m1 = sync_selected (ae_sync_wall ae) amap (map_option reserved_account reservation) chosen known m;
          lk = \<lparr>lk_states = known, lk_map = amap, lk_reservation = reservation, lk_invalidated = False,
                lk_lease = ad_lease d, lk_snapshot = None, lk_error = ad_error d, lk_code = ad_code d\<rparr>
      in if \<not> ad_admitted d then (lk, m1)
         else case account (pk_result p) of
                None \<Rightarrow> (lk, m1)
              | Some a \<Rightarrow>
                  (case map_of amap (account_id a) of
                     None \<Rightarrow> (lk, m1)
                   | Some selected \<Rightarrow>
                       (lk\<lparr>lk_states := adopt_result a known, lk_snapshot := Some (snapshot_of selected a known)\<rparr>, m1)))"

definition sticky_locked ::
    "sticky_env \<Rightarrow> sticky_path_request \<Rightarrow> offer \<Rightarrow> choice \<Rightarrow> selection_world \<Rightarrow> locked result \<times> selection_world" where
  "sticky_locked se sp f c w =
     (case sticky_reserve se sp f c w of
        Inl e \<Rightarrow> (Inl e, w)
      | Inr p \<Rightarrow>
          (if pk_invalidated p
           then (Inr \<lparr>lk_states = [], lk_map = of_map f, lk_reservation = None, lk_invalidated = True, lk_lease = None,
                      lk_snapshot = None, lk_error = None, lk_code = pk_code p\<rparr>,
                 w\<lparr>sw_runtime := pk_runtime p, sw_salts := pk_salts p\<rparr>)
           else case sticky_admit (se_attempt se) (sp_base sp) (of_map f) p of
             (lk, m) \<Rightarrow> (Inr lk, w\<lparr>sw_runtime := m, sw_salts := pk_salts p\<rparr>)))"

section \<open>The binding is written last\<close>

definition should_persist :: "choice \<Rightarrow> locked \<Rightarrow> bool" where
  "should_persist c lk =
     (co_mutation c \<noteq> None \<and> lk_code lk = None \<and> (lk_snapshot lk \<noteq> None \<or> account (co_result c) = None))"

definition on_sticky :: "sticky_path_request \<Rightarrow> (sticky_kind \<Rightarrow> sticky_table \<Rightarrow> sticky_table) \<Rightarrow> selection_world \<Rightarrow> selection_world" where
  "on_sticky sp f w =
     (case sp_kind sp of None \<Rightarrow> w | Some kind \<Rightarrow> w\<lparr>sw_db := (sw_db w)\<lparr>db_sticky := f kind (db_sticky (sw_db w))\<rparr>\<rparr>)"

definition write_binding :: "sticky_env \<Rightarrow> sticky_path_request \<Rightarrow> string option \<Rightarrow> selection_world \<Rightarrow> selection_world" where
  "write_binding se sp mutation w = on_sticky sp (\<lambda>kind. persist_sticky_mutation (se_now se 2) (sp_key sp) kind mutation) w"

definition restore_binding ::
    "sticky_env \<Rightarrow> sticky_path_request \<Rightarrow> string option \<Rightarrow> existing_binding \<Rightarrow> selection_world \<Rightarrow> selection_world" where
  "restore_binding se sp mutation existing w =
     (let w1 = se_others se 3 w
      in if se_restore_fails se then w1
         else on_sticky sp (\<lambda>kind. restore_sticky_mutation (se_now se 3) (sp_key sp) kind mutation existing) w1)"

text \<open>A probe and a binding: the binding is written before the probe is committed.\<close>

definition bind_and_commit ::
    "sticky_env \<Rightarrow> sticky_path_request \<Rightarrow> nat \<Rightarrow> bool \<Rightarrow> existing_binding \<Rightarrow> string option \<Rightarrow> probe_reservation \<Rightarrow> locked
     \<Rightarrow> account_map \<Rightarrow> unbound_outcome \<Rightarrow> selection_world \<Rightarrow> unbound_outcome verdict_of_attempt \<times> selection_world" where
  "bind_and_commit se sp attempt suppress existing mutation r lk amap final w =
     (let ae = se_attempt se; w1 = se_others se 2 w
      in if se_write_fails se then (Stop Failed, give_back ae (lk_lease lk) (Some r) w1)
         else
           let w2 = ae_others ae 3 (write_binding se sp mutation w1)
           in if ae_commit_fails ae
              then (Stop Failed, restore_binding se sp mutation existing (give_back ae (lk_lease lk) (Some r) w2))
              else case commit_step ae r amap (lk_states lk) w2 of
                (True, w3) \<Rightarrow> (Stop (Returned final), w3)
              | (False, w3) \<Rightarrow>
                  (if se_restore_fails se then Stop Failed else retry_without_probes ae attempt suppress,
                   ae_others ae 5 (restore_binding se sp mutation existing
                     (release_lease_step (lk_lease lk) (ae_others ae 4 w3)))))"

definition outcome_of :: "selection_inputs \<Rightarrow> locked \<Rightarrow> unbound_outcome" where
  "outcome_of si lk =
     \<lparr>uo_inputs = si, uo_snapshot = lk_snapshot lk, uo_lease = lk_lease lk, uo_error = lk_error lk, uo_code = lk_code lk,
      uo_direct = False\<rparr>"

definition sticky_finish ::
    "sticky_env \<Rightarrow> sticky_path_request \<Rightarrow> nat \<Rightarrow> bool \<Rightarrow> selection_inputs \<Rightarrow> offer \<Rightarrow> choice \<Rightarrow> locked \<Rightarrow> account_map
     \<Rightarrow> selection_world \<Rightarrow> unbound_outcome verdict_of_attempt \<times> selection_world" where
  "sticky_finish se sp attempt suppress si f c lk amap w =
     (case (if should_persist c lk then co_mutation c else None) of
        None \<Rightarrow> unbound_finish (se_attempt se) attempt suppress si lk amap w
      | Some mutation \<Rightarrow>
          (case (lk_snapshot lk, lk_reservation lk) of
             (Some snap, Some r) \<Rightarrow>
               bind_and_commit se sp attempt suppress (st_existing (of_stance f)) mutation r lk amap (outcome_of si lk) w
           | _ \<Rightarrow>
               (let w1 = se_others se 2 w
                in if se_write_fails se then (Stop Failed, release_lease_step (lk_lease lk) (ae_others (se_attempt se) 1 w1))
                   else (Stop (Returned (outcome_of si lk)), write_binding se sp mutation w1))))"

section \<open>The loop\<close>

definition no_selection :: "selection_inputs \<Rightarrow> string option \<Rightarrow> string option \<Rightarrow> bool \<Rightarrow> unbound_outcome" where
  "no_selection si msg code direct =
     \<lparr>uo_inputs = si, uo_snapshot = None, uo_lease = None, uo_error = msg, uo_code = code, uo_direct = direct\<rparr>"

text \<open>What follows the second use of the lock.\<close>

definition sticky_after ::
    "sticky_env \<Rightarrow> sticky_path_request \<Rightarrow> nat \<Rightarrow> bool \<Rightarrow> selection_inputs \<Rightarrow> offer \<Rightarrow> choice \<Rightarrow> locked \<Rightarrow> selection_world
     \<Rightarrow> unbound_outcome verdict_of_attempt \<times> selection_world" where
  "sticky_after se sp attempt suppress si f c lk w =
     (let ae = se_attempt se
      in if lk_invalidated lk then (retry_without_probes ae attempt suppress, ae_others ae 5 w)
         else
           case persist_selection_state (ae_others ae) (ae_persist_fails ae) (lk_map lk) (lk_states lk) (ae_others ae 6 w) of
             (None, w1) \<Rightarrow> (Stop Failed, give_back ae (lk_lease lk) (lk_reservation lk) w1)
           | (Some p, w1) \<Rightarrow>
               (if (case lk_snapshot lk of None \<Rightarrow> False | Some snap \<Rightarrow> row_id snap \<in> set (ps_stale p))
                then (if attempt \<ge> MAX_SELECTION_ATTEMPTS then Stop (Returned (no_selection si None (lk_code lk) False))
                      else reload ae attempt suppress,
                      ae_others ae 5 (give_back ae (lk_lease lk) (lk_reservation lk) w1))
                else if lk_snapshot lk = None \<and> lk_code lk \<noteq> None \<and> \<not> st_hard (of_stance f) \<and> attempt < MAX_SELECTION_ATTEMPTS
                then (reload ae attempt suppress, ae_others ae 5 w1)
                else sticky_finish se sp attempt suppress si f c lk (ps_map p) w1))"

definition sticky_attempt ::
    "balancer_settings \<Rightarrow> sticky_path_request \<Rightarrow> sticky_env \<Rightarrow> nat \<Rightarrow> bool \<Rightarrow> selection_inputs \<Rightarrow> selection_world
     \<Rightarrow> unbound_outcome verdict_of_attempt \<times> selection_world" where
  "sticky_attempt bs sp se attempt suppress si w =
     (if sp_kind sp \<noteq> None \<and> se_lookup_fails se then (Stop Failed, ae_others (se_attempt se) 7 w)
      else case read_binding se sp w of
        (existing, w1) \<Rightarrow>
          (case sticky_offer bs se sp suppress si existing (ae_others (se_attempt se) 0 w1) of
             (Inl e, w2) \<Rightarrow> (Stop Failed, w2)
           | (Inr (Inl (msg, code)), w2) \<Rightarrow> (Stop (Returned (no_selection si (Some msg) (Some code) True)), w2)
           | (Inr (Inr f), w2) \<Rightarrow>
               (case sticky_choose se sp f w2 of
                  (Inl e, w3) \<Rightarrow> (Stop Failed, w3)
                | (Inr c, w3) \<Rightarrow>
                    (case sticky_locked se sp f c (se_others se 0 (w3\<lparr>sw_salts := co_salts c\<rparr>)) of
                       (Inl e, w4) \<Rightarrow> (Stop Failed, w4)
                     | (Inr lk, w4) \<Rightarrow> sticky_after se sp attempt suppress si f c lk w4))))"

fun sticky_loop ::
    "balancer_settings \<Rightarrow> sticky_path_request \<Rightarrow> sticky_env list \<Rightarrow> nat \<Rightarrow> bool \<Rightarrow> selection_inputs \<Rightarrow> selection_world
     \<Rightarrow> unbound_outcome run \<times> selection_world" where
  "sticky_loop bs sp [] attempt suppress si w = (Running, w)"
| "sticky_loop bs sp (se # ses) attempt suppress si w =
     (case sticky_attempt bs sp se (Suc attempt) suppress si w of
        (Stop r, w') \<Rightarrow> (r, w')
      | (Retry attempt' suppress' si', w') \<Rightarrow> sticky_loop bs sp ses attempt' suppress' si' w')"

definition run_sticky_selection_path ::
    "balancer_settings \<Rightarrow> sticky_path_request \<Rightarrow> sticky_env list \<Rightarrow> selection_inputs \<Rightarrow> selection_world
     \<Rightarrow> unbound_outcome run \<times> selection_world" where
  "run_sticky_selection_path bs sp ses si w = sticky_loop bs sp ses 0 False si w"


section \<open>Leases of the locked steps\<close>

lemma allowed_kept: "leases_kept m (snd (account_lease_allowed_locked aid k caps res m))"
proof -
  obtain rt m1 where d: "runtime_setdefault aid m = (rt, m1)" by fastforce
  then have "snd (account_lease_allowed_locked aid k caps res m) = m1"
    by (simp add: account_lease_allowed_locked_def Let_def split: lease_kind.split)
  then show ?thesis using leases_kept_setdefault(1) [OF d] by simp
qed

lemma reserve_for_choice_kept:
  assumes "reserve_for_choice se sp f c w = Inr p"
  shows "leases_kept (sw_runtime w) (pk_runtime p)"
  using assms reserve_picked_kept
  by (fastforce simp: reserve_for_choice_def Let_def bind_def picked_of_def split: sum.splits prod.splits option.splits if_splits)

lemma recheck_fields:
  "pk_result (recheck_reservation amap p) = pk_result p" "pk_states (recheck_reservation amap p) = pk_states p"
  "recheck_reservation amap p = p \<or> pk_invalidated (recheck_reservation amap p)"
  "leases_kept (pk_runtime p) (pk_runtime (recheck_reservation amap p))"
  by (auto simp: recheck_reservation_def release_probe_kept split: option.split)

lemma sticky_reserve_cases:
  assumes "sticky_reserve se sp f c w = Inr p"
  obtains q where "reserve_for_choice se sp f c w = Inr q" "p = recheck_reservation (of_map f) q"
  using assms by (cases "reserve_for_choice se sp f c w") (auto simp: sticky_reserve_def)

lemma sticky_reserve_kept:
  assumes "sticky_reserve se sp f c w = Inr p"
  shows "leases_kept (sw_runtime w) (pk_runtime p)"
  using sticky_reserve_cases [OF assms] reserve_for_choice_kept recheck_fields(4) leases_kept_trans by metis

text \<open>The lease of the second use of the lock is that of the admitted account.\<close>

definition admission_leases :: "attempt_env \<Rightarrow> account_map \<Rightarrow> picked \<Rightarrow> admission_step \<Rightarrow> bool" where
  "admission_leases ae amap p d =
     (wf_table (ad_runtime d)
      \<and> (case ad_lease d of
           None \<Rightarrow> held (ad_runtime d) = held (pk_runtime p)
         | Some l \<Rightarrow>
             ad_admitted d \<and> lease_id l = ae_uid ae
             \<and> (\<exists>a r. account (pk_result p) = Some a \<and> map_of amap (account_id a) = Some r \<and> lease_account l = row_id r)
             \<and> (\<forall>x. held (ad_runtime d) x = held (pk_runtime p) x \<union> (if x = lease_account l then {ae_uid ae} else {}))))"

lemma sticky_lease_leases:
  assumes "wf_table (pk_runtime p)" "\<And>a. ae_uid ae \<notin> held (pk_runtime p) a"
  shows "admission_leases ae amap p (sticky_lease ae ur amap p)"
proof (cases "\<exists>a r k. account (pk_result p) = Some a \<and> map_of amap (account_id a) = Some r \<and> ur_kind ur = Some k")
  case True
  then obtain a r k where a: "account (pk_result p) = Some a" "map_of amap (account_id a) = Some r" "ur_kind ur = Some k" by blast
  obtain ok m where al: "account_lease_allowed_locked (row_id r) k (ur_caps ur) (ur_reserve ur) (pk_runtime p) = (ok, m)" by fastforce
  have km: "wf_table m" "held m = held (pk_runtime p)"
    using kept_held [OF allowed_kept assms(1)] al by (metis snd_conv)+
  obtain l m1 where q: "acquire_account_lease_locked (ae_lease_monotonic ae) (ae_lease_wall ae) (ae_uid ae) (row_id r) k
      (ur_tokens ur) (\<not> probe_selected p r) m = (l, m1)" by fastforce
  have "ae_uid ae \<notin> held m (row_id r)" using km assms(2) by simp
  note h = acquire_held [OF km(1) this q]
  show ?thesis using a al q h km by (auto simp: sticky_lease_def Let_def admission_leases_def)
next
  case False
  then show ?thesis using assms(1) by (auto simp: sticky_lease_def Let_def admission_leases_def split: option.splits)
qed

lemma sticky_admit_leases:
  assumes "sticky_admit ae ur amap p = (lk, m1)" "wf_table (pk_runtime p)" "\<And>a. ae_uid ae \<notin> held (pk_runtime p) a"
  shows "wf_table m1" "\<not> lk_invalidated lk"
    and "lk_lease lk = None \<Longrightarrow> held m1 a = held (pk_runtime p) a"
    and "lk_lease lk = Some l \<Longrightarrow> lease_id l = ae_uid ae \<and> (\<exists>snap. lk_snapshot lk = Some snap \<and> row_id snap = lease_account l)
      \<and> held m1 a = held (pk_runtime p) a \<union> (if a = lease_account l then {ae_uid ae} else {})"
proof -
  let ?d = "sticky_lease ae ur amap p"
  note d = sticky_lease_leases [OF assms(2,3), of amap ur, unfolded admission_leases_def]
  define m0 where "m0 = (if ad_admitted ?d then ad_runtime ?d else release_due_probe_reservation (pk_reservation p) (ad_runtime ?d))"
  have k0: "wf_table m0 \<and> held m0 = held (ad_runtime ?d)"
    using d kept_held [OF release_probe_kept, of "ad_runtime ?d"] by (simp add: m0_def)
  have k1: "wf_table (sync_selected wl amap rs ch ss m0) \<and> held (sync_selected wl amap rs ch ss m0) = held (ad_runtime ?d)" for wl rs ch ss
    using kept_held [OF sync_selected_kept conjunct1 [OF k0], of wl amap rs ch ss] k0 by simp
  have fields: "lk_lease lk = ad_lease ?d" "\<not> lk_invalidated lk" "wf_table m1 \<and> held m1 = held (ad_runtime ?d)"
    "ad_lease ?d \<noteq> None \<Longrightarrow> account (pk_result p) = Some a' \<Longrightarrow> map_of amap (account_id a') = Some r' \<Longrightarrow>
      \<exists>snap. lk_snapshot lk = Some snap \<and> row_id snap = row_id r'" for a' r'
    using assms(1) d k1
    by (auto simp: sticky_admit_def Let_def m0_def snapshot_of_def split: if_splits option.splits)
  show "wf_table m1" "\<not> lk_invalidated lk" using fields by auto
  show "held m1 a = held (pk_runtime p) a" if "lk_lease lk = None" using that fields(1,3) d by simp
  show "lease_id l = ae_uid ae \<and> (\<exists>snap. lk_snapshot lk = Some snap \<and> row_id snap = lease_account l)
      \<and> held m1 a = held (pk_runtime p) a \<union> (if a = lease_account l then {ae_uid ae} else {})" if "lk_lease lk = Some l"
    using that fields(1,3,4) d by auto
qed

lemma sticky_locked_leases:
  assumes "sticky_locked se sp f c w = (r, w')" "wf_table (sw_runtime w)" "\<And>a. ae_uid (se_attempt se) \<notin> held (sw_runtime w) a"
  shows "locked_leases (se_attempt se) w r w'"
proof (cases "sticky_reserve se sp f c w")
  case (Inl e)
  then show ?thesis using assms(1,2) by (auto simp: sticky_locked_def locked_leases_def)
next
  case (Inr p)
  note kp = kept_held [OF sticky_reserve_kept [OF Inr] assms(2)]
  show ?thesis
  proof (cases "pk_invalidated p")
    case True
    then show ?thesis using assms(1) kp Inr by (auto simp: sticky_locked_def locked_leases_def)
  next
    case False
    obtain lk m1 where ad: "sticky_admit (se_attempt se) (sp_base sp) (of_map f) p = (lk, m1)" by fastforce
    have out: "r = Inr lk" "w' = w\<lparr>sw_runtime := m1, sw_salts := pk_salts p\<rparr>"
      using assms(1) False by (simp_all add: sticky_locked_def Inr ad)
    have "ae_uid (se_attempt se) \<notin> held (pk_runtime p) a" for a using kp assms(3) by simp
    note k1 = sticky_admit_leases [OF ad conjunct1 [OF kp] this]
    show ?thesis
    proof (cases "lk_lease lk")
      case None
      then show ?thesis using k1(1,2) k1(3) [OF None] kp out by (simp add: locked_leases_def)
    next
      case (Some l)
      then show ?thesis using k1(1,2) k1(4) [OF Some] kp out by (auto simp: locked_leases_def)
    qed
  qed
qed

section \<open>Tracking a lease through an attempt\<close>

lemma on_sticky_runtime [simp]: "sw_runtime (on_sticky sp f w) = sw_runtime w"
  by (simp add: on_sticky_def split: option.split)

text \<open>
  The contract of \<open>lease_tracking\<close> for a request with affinity: its two locked parts keep it too.
\<close>

locale sticky_tracking = lease_tracking +
  fixes calm_sticky :: "sticky_env \<Rightarrow> bool" and bs :: balancer_settings and sp :: sticky_path_request
  assumes calm_attempt: "calm_sticky se \<Longrightarrow> calm_env (se_attempt se)"
    and sticky_others: "calm_sticky se \<Longrightarrow> tracks lease w \<Longrightarrow> tracks lease (se_others se i w)"
    and offer: "calm_sticky se \<Longrightarrow> tracks None w \<Longrightarrow> sticky_offer bs se sp b si existing w = (x, w') \<Longrightarrow> tracks None w'"
    and sticky_lock: "calm_sticky se \<Longrightarrow> tracks None w \<Longrightarrow> sticky_locked se sp f c w = (r, w') \<Longrightarrow> lock_tracks r w'"
begin

lemmas attempt_others = others [OF calm_attempt]

lemma same_runtime: "sw_runtime w' = sw_runtime w \<Longrightarrow> tracks lease w \<Longrightarrow> tracks lease w'"
  by (rule kept [of w]) simp_all

lemma wrote: "tracks lease w \<Longrightarrow> tracks lease (write_binding se sp mutation w)"
  by (rule same_runtime [of _ w]) (simp_all add: write_binding_def)

lemma restore: "calm_sticky se \<Longrightarrow> tracks lease w \<Longrightarrow> tracks lease (restore_binding se sp mutation existing w)"
  by (rule same_runtime [OF _ sticky_others [of se lease w 3]]) (simp_all add: restore_binding_def Let_def)

lemma read:
  assumes "read_binding se sp w = (existing, w')" "calm_sticky se" "tracks lease w"
  shows "tracks lease w'"
proof -
  have "sw_runtime w' = sw_runtime w \<or> sw_runtime w' = sw_runtime (ae_others (se_attempt se) 7 w)"
    using assms(1) by (auto simp: read_binding_def Let_def split: option.splits prod.splits if_splits)
  then show ?thesis using same_runtime assms(3) attempt_others [OF assms(2,3)] by blast
qed

lemma choose:
  assumes "sticky_choose se sp f w = (r, w')" "calm_sticky se" "tracks lease w"
  shows "tracks lease w'"
proof -
  have "sw_runtime w' = sw_runtime w \<or> sw_runtime w' = sw_runtime (ae_others (se_attempt se) 9 w)"
    using assms(1) by (auto simp: sticky_choose_def Let_def split: if_splits)
  then show ?thesis using same_runtime assms(3) attempt_others [OF assms(2,3)] by blast
qed

lemma bound:
  assumes "bind_and_commit se sp n b existing mutation r lk amap final w = (v, w')" "calm_sticky se"
    and "tracks (lk_lease lk) w" "uo_lease final = lk_lease lk" "uo_snapshot final \<noteq> None"
  shows "verdict_tracks v w'"
proof -
  let ?ae = "se_attempt se"
  let ?w1 = "se_others se 2 w"
  let ?w2 = "ae_others ?ae 3 (write_binding se sp mutation ?w1)"
  note q = calm_attempt [OF assms(2)]
  have o1: "tracks (lk_lease lk) ?w1" by (rule sticky_others [OF assms(2,3)])
  have o2: "tracks (lk_lease lk) ?w2" by (intro others [OF q] wrote o1)
  obtain ok w3 where c: "commit_step ?ae r amap (lk_states lk) ?w2 = (ok, w3)" by fastforce
  note o3 = commit [OF c o2]
  have o4: "tracks None (ae_others ?ae 5 (restore_binding se sp mutation existing (release_lease_step (lk_lease lk) (ae_others ?ae 4 w3))))"
    by (intro others [OF q] restore release assms(2) o3)
  have rt: "verdict_tracks (if se_restore_fails se then Stop Failed else retry_without_probes ?ae n b) x" if "tracks None x" for x
    using failed [OF that] reloaded(2) [OF that] by simp
  show ?thesis
    using assms(1,4,5) c o3 rt [OF o4] failed [OF returned [OF q o1]] failed [OF restore [OF assms(2) returned [OF q o2]]]
    by (auto simp: bind_and_commit_def Let_def verdict_tracks_def run_tracks_def split: if_splits bool.splits)
qed

lemma sticky_finished:
  assumes "sticky_finish se sp n b si f c lk amap w = (v, w')" "calm_sticky se" "tracks (lk_lease lk) w"
    and "lk_snapshot lk = None \<Longrightarrow> lk_lease lk = None"
  shows "verdict_tracks v w'"
proof (cases "if should_persist c lk then co_mutation c else None")
  case None
  then show ?thesis using assms finished [OF _ calm_attempt [OF assms(2)]] by (simp add: sticky_finish_def)
next
  case (Some mutation)
  have o1: "tracks (lk_lease lk) (se_others se 2 w)" by (rule sticky_others [OF assms(2,3)])
  show ?thesis
  proof (cases "\<exists>snap r. lk_snapshot lk = Some snap \<and> lk_reservation lk = Some r")
    case True
    then show ?thesis using assms(1) Some bound [OF _ assms(2,3)] by (auto simp: sticky_finish_def outcome_of_def)
  next
    case False
    then have "(v, w') = (if se_write_fails se
        then (Stop Failed, release_lease_step (lk_lease lk) (ae_others (se_attempt se) 1 (se_others se 2 w)))
        else (Stop (Returned (outcome_of si lk)), write_binding se sp mutation (se_others se 2 w)))"
      using assms(1) Some unfolding sticky_finish_def Let_def Some option.case
      by (cases "lk_snapshot lk"; cases "lk_reservation lk") auto
    then show ?thesis using wrote [OF o1] failed [OF release [OF attempt_others [OF assms(2) o1, of 1]]] assms(4)
      by (auto simp: verdict_tracks_def run_tracks_def outcome_of_def split: if_splits)
  qed
qed

lemma after:
  assumes "sticky_after se sp n b si f c lk w = (v, w')" "calm_sticky se" "lock_tracks (Inr lk) w"
  shows "verdict_tracks v w'"
proof -
  let ?ae = "se_attempt se"
  note q = calm_attempt [OF assms(2)]
  have t: "tracks (lk_lease lk) w" and lease: "lk_snapshot lk = None \<or> lk_invalidated lk \<Longrightarrow> lk_lease lk = None"
    using assms(3) by (simp_all add: lock_tracks_def)
  obtain pr w2 where p: "persist_selection_state (ae_others ?ae) (ae_persist_fails ?ae) (lk_map lk) (lk_states lk) (ae_others ?ae 6 w) = (pr, w2)"
    by fastforce
  have o2: "tracks (lk_lease lk) w2" by (rule persist [OF p q others [OF q t]])
  have gb: "tracks None (give_back ?ae (lk_lease lk) (lk_reservation lk) w2)" by (rule returned [OF q o2])
  note gb5 = others [OF q gb, of 5]
  have none5: "tracks None (ae_others ?ae 5 w2)" if "lk_snapshot lk = None" using others [OF q o2, of 5] lease that by simp
  have inv5: "tracks None (ae_others ?ae 5 w)" if "lk_invalidated lk" using others [OF q t, of 5] lease that by simp
  note fin = sticky_finished [OF _ assms(2) o2]
  show ?thesis
    using assms(1) p gb reloaded(1) [OF gb5, of ?ae n b] reloaded(1) [OF none5, of ?ae n b] reloaded(2) [OF inv5, of ?ae n b] fin lease gb5
    by (auto simp: sticky_after_def Let_def verdict_tracks_def run_tracks_def no_selection_def split: option.splits if_splits)
qed

lemma chosen:
  assumes "sticky_choose se sp f w = (r1, w1)" "calm_sticky se" "tracks None w"
  shows "case r1 of Inl e \<Rightarrow> tracks None w1
    | Inr c \<Rightarrow> (case sticky_locked se sp f c (se_others se 0 (w1\<lparr>sw_salts := co_salts c\<rparr>)) of
         (Inl e, w2) \<Rightarrow> tracks None w2
       | (Inr lk, w2) \<Rightarrow> verdict_tracks (fst (sticky_after se sp n b si f c lk w2)) (snd (sticky_after se sp n b si f c lk w2)))"
proof (cases r1)
  case (Inl e)
  then show ?thesis using choose [OF assms] by simp
next
  case (Inr c)
  let ?w = "se_others se 0 (w1\<lparr>sw_salts := co_salts c\<rparr>)"
  have "tracks None (w1\<lparr>sw_salts := co_salts c\<rparr>)" by (rule same_runtime [OF _ choose [OF assms]]) simp
  then have o1: "tracks None ?w" by (rule sticky_others [OF assms(2)])
  obtain l1 w2 where lk: "sticky_locked se sp f c ?w = (l1, w2)" by fastforce
  note o2 = sticky_lock [OF assms(2) o1 lk]
  show ?thesis using o2 after [OF surjective_pairing assms(2)] by (cases l1) (simp_all add: Inr lk lock_tracks_def)
qed

lemma sticky_attempted:
  assumes "sticky_attempt bs sp se n b si w = (v, w')" "calm_sticky se" "tracks None w"
  shows "verdict_tracks v w'"
proof (cases "sp_kind sp \<noteq> None \<and> se_lookup_fails se")
  case True
  then show ?thesis using assms(1) failed [OF attempt_others [OF assms(2,3), of 7]] by (simp add: sticky_attempt_def)
next
  case False
  obtain ex w1 where rd: "read_binding se sp w = (ex, w1)" by fastforce
  obtain o1 w2 where off: "sticky_offer bs se sp b si ex (ae_others (se_attempt se) 0 w1) = (o1, w2)" by fastforce
  have own2: "tracks None w2" by (rule offer [OF assms(2) attempt_others [OF assms(2) read [OF rd assms(2,3)]] off])
  note step = assms(1) [unfolded sticky_attempt_def if_not_P [OF False] rd off prod.case]
  show ?thesis
  proof (cases o1)
    case (Inl e)
    then show ?thesis using step failed [OF own2] by simp
  next
    case (Inr x)
    show ?thesis
    proof (cases x)
      case (Inl y)
      then show ?thesis using step Inr own2 by (cases y) (auto simp: verdict_tracks_def run_tracks_def no_selection_def)
    next
      case f: (Inr f)
      obtain c1 w3 where ch: "sticky_choose se sp f w2 = (c1, w3)" by fastforce
      note fin = chosen [OF ch assms(2) own2, of n b si]
      show ?thesis using step fin failed unfolding Inr f ch sum.case prod.case
        by (cases c1) (auto split: prod.splits sum.splits)
    qed
  qed
qed

lemma sticky_looped:
  "sticky_loop bs sp ses n b si w = (r, w') \<Longrightarrow> \<forall>se\<in>set ses. calm_sticky se \<Longrightarrow> tracks None w \<Longrightarrow> run_tracks r w'"
proof (induction ses arbitrary: n b si w)
  case (Cons se ses)
  obtain v w1 where v: "sticky_attempt bs sp se (Suc n) b si w = (v, w1)" by fastforce
  have ao: "verdict_tracks v w1" using sticky_attempted [OF v] Cons(3,4) by simp
  show ?case
  proof (cases v)
    case (Stop x)
    then show ?thesis using Cons(2) v ao by (simp add: verdict_tracks_def)
  next
    case (Retry n' b' si')
    then show ?thesis using Cons v ao by (simp add: verdict_tracks_def)
  qed
qed (simp add: run_tracks_def)

end

section \<open>No lease escapes\<close>

definition own_sticky_ids :: "string set \<Rightarrow> string set \<Rightarrow> sticky_env \<Rightarrow> bool" where
  "own_sticky_ids V W se = (own_ids V W (se_attempt se) \<and> (\<forall>i. neutral (V \<union> W) (se_others se i)))"

text \<open>The first locked part only gives leases up.\<close>

lemma offer_leases:
  assumes "sticky_offer bs se sp suppress si existing w = (r, w')" "wf_table (sw_runtime w)"
  shows "wf_table (sw_runtime w')" "set (table_leases (sw_runtime w') a) \<subseteq> set (table_leases (sw_runtime w) a)"
    "lease_count k (table_leases (sw_runtime w') a) \<le> lease_count k (table_leases (sw_runtime w) a)"
proof -
  obtain states amap m where pr: "prepare_sticky_selection_states (bs_recovery bs) (bs_leases bs) (ae_monotonic (se_attempt se))
      (ae_build_clock (se_attempt se)) si (ur_required (sp_base sp)) (sw_runtime w) = (states, amap, m)" by (metis prod_cases3)
  have "sw_runtime w' = m"
    using assms(1) pr by (auto simp: sticky_offer_def Let_def split: if_splits prod.splits sum.splits)
  then show "wf_table (sw_runtime w')" "set (table_leases (sw_runtime w') a) \<subseteq> set (table_leases (sw_runtime w) a)"
    "lease_count k (table_leases (sw_runtime w') a) \<le> lease_count k (table_leases (sw_runtime w) a)"
    using prepare_spec(1-3) [OF pr assms(2)] by simp_all
qed

lemma owns_offer:
  assumes "sticky_offer bs se sp suppress si existing w = (r, w')" "owns V W w0 None w"
  shows "owns V W w0 None w'"
proof -
  have wf: "wf_table (sw_runtime w)" using assms(2) by (simp add: owns_def)
  have "held (sw_runtime w') a \<subseteq> held (sw_runtime w) a" for a using offer_leases(2) [OF assms(1) wf, of a] by (auto simp: held_def)
  then show ?thesis using assms(2) offer_leases(1) [OF assms(1) wf] by (simp add: owns_def only_lease_def) blast
qed

lemma sticky_locked_owned:
  assumes "own_ids V W (se_attempt se)" "owns V W w0 None w" "sticky_locked se sp f c w = (r, w')"
  shows "owned.lock_tracks V W w0 r w'"
proof -
  have "wf_table (sw_runtime w)" "\<And>a. ae_uid (se_attempt se) \<notin> held (sw_runtime w) a"
    using assms(1,2) by (auto simp: own_ids_def owns_def only_lease_def)
  from owned_lock [OF sticky_locked_leases [OF assms(3) this] assms(2,1)] show ?thesis .
qed

interpretation owned_sticky: sticky_tracking "owns V W w0" "own_ids V W" "own_sticky_ids V W" bs sp for V W w0 bs sp
  by unfold_locales (auto simp: own_sticky_ids_def intro: owns_neutral owns_offer sticky_locked_owned)

text \<open>
  C8. The selection under affinity leaks no lease either, whatever the reads and writes of the binding
  do and whichever of them fails: the statement is that for requests without affinity.
\<close>

theorem sticky_selection_leaks_no_lease:
  assumes "\<forall>se\<in>set ses. own_sticky_ids V W se"
    and "wf_table (sw_runtime w)" and "\<forall>u\<in>V. \<forall>a. u \<notin> held (sw_runtime w) a"
    and "run_sticky_selection_path bs sp ses si w = (r, w')"
  shows "(case r of
            Returned o' \<Rightarrow> only_lease V (uo_lease o') (held (sw_runtime w')) \<and> (uo_snapshot o' = None \<longrightarrow> uo_lease o' = None)
          | _ \<Rightarrow> only_lease V None (held (sw_runtime w')))
    \<and> wf_table (sw_runtime w') \<and> (\<forall>u\<in>W. \<forall>a. u \<in> held (sw_runtime w') a \<longrightarrow> u \<in> held (sw_runtime w) a)"
proof -
  have own: "owns V W w None w" using assms(2,3) by (simp add: owns_def only_lease_def)
  from owned_sticky.sticky_looped [OF assms(4) [unfolded run_sticky_selection_path_def] assms(1) own]
  show ?thesis by (auto simp: owned.run_tracks_def owns_def split: run.splits)
qed

section \<open>Witnesses\<close>

definition w_session :: sticky_path_request where
  "w_session = \<lparr>sp_key = ''k'', sp_kind = Some CODEX_SESSION, sp_reallocate = False, sp_session_header = False, sp_legacy_key = None,
     sp_legacy_existing = None, sp_spill = False, sp_unambiguous = False, sp_max_age = None, sp_base = w_request\<rparr>"

definition w_sticky_env :: sticky_env where
  "w_sticky_env = \<lparr>se_attempt = w_attempt, se_now = (\<lambda>_. 1000), se_lookup_fails = False, se_choice_fails = False,
     se_write_fails = False, se_restore_fails = False, se_others = (\<lambda>_ w. w)\<rparr>"

lemma w_sticky_evaluated:
  "case fst (run_sticky_selection_path w_bs w_session [w_sticky_env] w_inputs w_world) of
     Returned o' \<Rightarrow> map_option row_id (uo_snapshot o') = Some ''a'' \<and> map_option lease_id (uo_lease o') = Some ''l1''
   | _ \<Rightarrow> False"
  by code_simp

lemma w_sticky_run:
  obtains o' w' where "run_sticky_selection_path w_bs w_session [w_sticky_env] w_inputs w_world = (Returned o', w')"
    "map_option row_id (uo_snapshot o') = Some ''a''" "map_option lease_id (uo_lease o') = Some ''l1''"
  using w_sticky_evaluated
  by (cases "run_sticky_selection_path w_bs w_session [w_sticky_env] w_inputs w_world") (auto split: run.splits)

lemma w_sticky_env_attempt [simp]: "se_attempt w_sticky_env = w_attempt" "se_others w_sticky_env i w = w"
  by (simp_all add: w_sticky_env_def)

lemma w_own_sticky: "own_sticky_ids {''l1''} {} w_sticky_env"
  by (simp add: own_sticky_ids_def w_own neutral_def)

theorem sticky_selection_leaks_no_lease_witness:
  "\<exists>o' w'. run_sticky_selection_path w_bs w_session [w_sticky_env] w_inputs w_world = (Returned o', w')
     \<and> map_option lease_id (uo_lease o') = Some ''l1'' \<and> only_lease {''l1''} (uo_lease o') (held (sw_runtime w'))"
proof -
  obtain o' w' where r: "run_sticky_selection_path w_bs w_session [w_sticky_env] w_inputs w_world = (Returned o', w')"
    "map_option lease_id (uo_lease o') = Some ''l1''" using w_sticky_run by metis
  have "only_lease {''l1''} (uo_lease o') (held (sw_runtime w'))"
    using sticky_selection_leaks_no_lease [OF _ _ _ r(1), of "{''l1''}" "{}"] w_own_sticky by simp
  with r show ?thesis by blast
qed

end
