(* ===== verification/Selection_Paths.thy ===== *)
theory Selection_Paths
  imports Selection_Sticky
begin

text \<open>
  What the two selection paths of \<open>modules/proxy/_load_balancer\<close> guarantee of the account they
  return: that it is one of the loaded inputs, alive, the required one, and leased with the kind
  that was asked for; that no lease is taken above the cap; that the owner of a hard session is
  the only account such a session gets and keeps its binding; and that a binding written for a
  recovery probe is put back when the probe is lost.
\<close>

section \<open>Dead accounts\<close>

definition dead :: "account_status \<Rightarrow> bool" where
  "dead s = (s \<in> {REAUTH_REQUIRED, DEACTIVATED, PAUSED})"

lemma admit_dead [simp]: "dead (status (fst (admit_state req t s))) = dead (status s)"
  by (auto simp: dead_def admit_state_def Let_def recover_rate_limited_def recover_quota_exceeded_def)

lemma routable_alive: "routable req s \<Longrightarrow> \<not> dead (status s)"
  by (auto simp: routable_def dead_def)

lemma stickiness_sound_choice:
  assumes "sound_envs envs" "sc_result (select_with_stickiness envs others now sr ids states salts table) = Inr res"
  shows "sound_choice (sr_budget sr) states (select_with_stickiness envs others now sr ids states salts table)"
proof -
  have "sr_kind sr = None \<Longrightarrow> sr_key sr = None \<or> sr_key sr = Some []"
    using assms(2) by (auto simp: select_with_stickiness_def split: option.splits if_splits)
  then show ?thesis
    using choose_for_key_sound [OF assms(1)] unkeyed_sound [OF assms(1)]
    unfolding select_with_stickiness_def
    by (auto split: option.split existing_binding.split prod.split)
qed

section \<open>States with distinct accounts\<close>

abbreviation ids :: "account_state list \<Rightarrow> string list" where
  "ids states \<equiv> map account_id states"

lemma find_id: "distinct (ids xs) \<Longrightarrow> x \<in> set xs \<Longrightarrow> find (\<lambda>p. account_id p = account_id x) xs = Some x"
  by (induction xs) (auto simp: image_iff)

lemma find_updated:
  assumes "distinct (ids part)" "x \<in> set part" "account_id x \<in> set (ids states)"
  shows "find (\<lambda>p. account_id p = account_id x) (update_states states part) = Some x"
  using assms(3)
proof (induction states)
  case (Cons s states)
  let ?u = "case find (\<lambda>p. account_id p = account_id s) part of None \<Rightarrow> s | Some p \<Rightarrow> p"
  have id: "account_id ?u = account_id s" by (auto split: option.split simp: find_Some_iff)
  show ?case
  proof (cases "account_id s = account_id x")
    case True
    then show ?thesis using find_id [OF assms(1,2)] by (simp add: update_states_def)
  next
    case False
    then show ?thesis using Cons id by (simp add: update_states_def)
  qed
qed simp

lemma ids_update [simp]: "ids (update_states states part) = ids states"
  by (auto simp: update_states_def split: option.split simp: find_Some_iff)

lemma improves_same_ids: "list_all2 improves xs ys \<Longrightarrow> ids ys = ids xs"
  by (induction rule: list_all2_induct) (auto simp: improves_def)

text \<open>A probe is reserved only for an account the selector would return.\<close>

lemma reserve_alive:
  assumes "reserve_due_probe env wall req states salts m = (Inr (Some x), states', salts', m')" "sound_env env"
  obtains s where "s \<in> set states'" "account_id s = reserved_account x" "\<not> dead (status s)" "ids states' = ids states"
proof -
  let ?q = "req\<lparr>recovery_probe_only := True\<rparr>"
  let ?o = "select_account env ?q None states salts"
  obtain r s where r: "out_result ?o = Inr r" "account r = Some s" "states' = out_states ?o" "fst (reserve_for wall s m) = Some x"
    using assms(1) by (auto simp: reserve_due_probe_def Let_def split: if_splits sum.splits option.splits prod.splits)
  obtain ys where ys: "selection_pool ?q (current_time env None) states = Pool ys" "s \<in> set ys"
    using selected_in_pool [OF _ _ r(1,2)] assms(2) by (auto simp: sound_env_def)
  obtain z where "z \<in> set states" "s = fst (admit_state ?q (current_time env None) z)" using selection_pool_member [OF ys] .
  moreover have "\<not> dead (status s)" using routable_alive selection_pool_routable [OF ys] by blast
  moreover have "account_id s = reserved_account x" using r(4) by (auto simp: reserve_for_def split: option.splits if_splits)
  ultimately show ?thesis using that [of s] r(3) by (simp add: out_states_select)
qed

lemma reserve_picked_alive:
  assumes "reserve_picked ae b a offers p = Inr p'" "sound_envs (ae_envs ae)" "distinct (ids offers)"
    and "account_id a \<in> set (ids (pk_states p))" "\<not> pk_invalidated p'"
  obtains a' where "account (pk_result p') = Some a'" "account_id a' = account_id a" "\<not> dead (status a')"
proof -
  obtain r os ss m where rv: "reserve_due_probe (ae_envs ae 6) (ae_reserve_wall ae) (probe_request b) offers (pk_salts p) (pk_runtime p)
      = (r, os, ss, m)" by (metis prod_cases4)
  obtain x where x: "r = Inr (Some x)" "reserved_account x = account_id a"
    using assms(1,5) by (auto simp: reserve_picked_def rv Let_def split: sum.splits option.splits)
  obtain s where s: "s \<in> set os" "account_id s = account_id a" "\<not> dead (status s)" "ids os = ids offers"
    using reserve_alive [OF rv [unfolded x(1)]] assms(2) x(2) by (metis sound_envsD)
  have "state_in (update_states (pk_states p) os) a = s"
    using find_updated [OF _ s(1), of "pk_states p"] s(2,4) assms(3,4) by (simp add: state_in_def)
  then show ?thesis using assms(1) that [of s] s by (auto simp: reserve_picked_def rv x Let_def)
qed

section \<open>The pick\<close>

definition alive_pick :: "account_state list \<Rightarrow> picked \<Rightarrow> bool" where
  "alive_pick states p =
     (\<forall>a. account (pk_result p) = Some a \<and> \<not> pk_invalidated p \<longrightarrow> \<not> dead (status a) \<and> account_id a \<in> set (ids states))"

lemma pick_offered_alive:
  assumes "pick_offered ae b states offers salts m = Inr p" "sound_envs (ae_envs ae)" "distinct (ids offers)"
    and "set (ids offers) \<subseteq> set (ids states)"
  shows "alive_pick states p"
proof -
  let ?e = "\<lambda>n. ae_envs ae (Suc n)"
  let ?r = "select_account_preferring_budget_safe ?e b offers salts"
  have env: "sound_envs ?e" using assms(2) by (simp add: sound_envs_def)
  from budget_selection_sound [OF env, of b offers salts] obtain res where res: "out_result ?r = Inr res"
    "\<And>a. account res = Some a \<Longrightarrow> a \<in> set (out_states ?r) \<and> routable (stage_request b) a"
    and im: "list_all2 improves offers (out_states ?r)"
    by (auto simp: stage_sound_def)
  have io: "ids (out_states ?r) = ids offers" by (rule improves_same_ids [OF im])
  obtain n ss where nd: "probing_result_requires_recovery_reservation (ae_envs ae 5) (out_states ?r) (account res) (b_strategy b)
      (b_traffic_class b) (out_salts ?r) = (n, ss)" by fastforce
  have ok: "\<not> dead (status a) \<and> a \<in> set (out_states ?r) \<and> account_id a \<in> set (ids states)" if "account res = Some a" for a
    using res(2) [OF that] routable_alive io assms(4) by (metis (no_types, lifting) image_eqI set_map subsetD)
  show ?thesis
  proof (cases "account res")
    case None
    then show ?thesis using assms(1) res(1) nd by (auto simp: pick_offered_def Let_def bind_def alive_pick_def split: sum.splits)
  next
    case (Some a)
    note oa = ok [OF Some]
    have dst: "distinct (ids (out_states ?r))" using io assms(3) by simp
    let ?p = "\<lparr>pk_result = res, pk_message = map_option selection_error_text (error_message res), pk_code = None,
        pk_states = update_states states (out_states ?r), pk_salts = ss, pk_reservation = None, pk_invalidated = False, pk_runtime = m\<rparr>"
    obtain k where n: "n = Inr k" "(if k then reserve_picked ae b a (out_states ?r) ?p else Inr ?p) = Inr p"
      using assms(1) res(1) nd Some by (cases n) (simp_all add: pick_offered_def Let_def)
    show ?thesis
    proof (cases k)
      case True
      with n have "reserve_picked ae b a (out_states ?r) ?p = Inr p" by simp
      from reserve_picked_alive [OF this assms(2) dst] oa show ?thesis by (simp add: alive_pick_def) (metis option.inject)
    next
      case False
      then show ?thesis using n Some oa by (auto simp: alive_pick_def)
    qed
  qed
qed

lemma probe_filter_ids:
  assumes "filter_recovery_probe_candidates env states tc salts = (Inr offers, salts')"
  shows "set offers \<subseteq> set states" "distinct (ids states) \<Longrightarrow> distinct (ids offers)"
proof -
  have "\<exists>P. offers = filter P states"
  proof (cases "fst (pool_has_available_healthy_account_without_backoff env tc states salts)")
    case (Inr h)
    then have "offers = filter (\<lambda>s. h \<longrightarrow> health_tier s \<noteq> HEALTH_TIER_PROBING) states"
      using assms by (cases h) (auto simp: filter_recovery_probe_candidates_def split: prod.splits)
    then show ?thesis by blast
  qed (use assms in \<open>auto simp: filter_recovery_probe_candidates_def split: prod.splits\<close>)
  then show "set offers \<subseteq> set states" "distinct (ids states) \<Longrightarrow> distinct (ids offers)"
    by (auto intro: distinct_map_filter)
qed

lemma cap_filter_ids:
  "set (filter_states_for_account_caps states kind caps reserve) \<subseteq> set states"
  "distinct (ids states) \<Longrightarrow> distinct (ids (filter_states_for_account_caps states kind caps reserve))"
  by (auto simp: filter_states_for_account_caps_def Let_def intro: distinct_map_filter split: option.splits lease_kind.splits)

lemma unbound_pick_alive:
  assumes "unbound_pick bs ae ur suppress si states salts m = Inr p" "sound_envs (ae_envs ae)" "distinct (ids states)"
  shows "alive_pick states p"
proof -
  let ?c = "filter_states_for_account_caps states (ur_kind ur) (ur_caps ur) (ur_reserve ur)"
  let ?b = "unbound_budget ur (or_default (ur_costs ur) (build_routing_costs (si_planner si) states (ae_planner_now ae)))"
  obtain o1 ss where os: "offered_states (ae_envs ae 0) suppress (b_traffic_class ?b) (ur_kind ur) (ur_caps ur) (ur_reserve ur) states salts
      = (o1, ss)" by fastforce
  obtain offers where o: "o1 = Inr offers" using assms(1) os by (cases o1) (simp_all add: unbound_pick_def Let_def bind_def)
  have sub: "set offers \<subseteq> set ?c" "distinct (ids offers)"
    using os o cap_filter_ids(2) [OF assms(3)] probe_filter_ids [of "ae_envs ae 0" ?c]
    by (auto simp: offered_states_def Let_def split: if_splits)
  then have i: "set (ids offers) \<subseteq> set (ids states)" using cap_filter_ids(1) by fastforce
  show ?thesis
  proof (cases "offers = [] \<and> states \<noteq> []")
    case True
    then show ?thesis using assms(1) os o by (auto simp: unbound_pick_def Let_def bind_def alive_pick_def refused_by_cap_def)
  next
    case False
    then have "pick_offered ae ?b states offers ss m = Inr p"
      using assms(1) os o by (simp only: unbound_pick_def Let_def prod.case bind_def sum.case if_False)
    then show ?thesis by (rule pick_offered_alive [OF _ assms(2) sub(2) i])
  qed
qed

section \<open>The locked step\<close>

text \<open>
  \<open>sound_grant\<close>: a selected row is one of the inputs, the required one, alive and leased; a step
  that selects none leases none.
\<close>

definition sound_grant :: "unbound_request \<Rightarrow> selection_inputs \<Rightarrow> account_row option \<Rightarrow> account_lease option \<Rightarrow> bool" where
  "sound_grant ur si chosen lease =
     (case chosen of
        None \<Rightarrow> lease = None
      | Some r \<Rightarrow>
          row_id r \<in> row_id ` set (si_accounts si) \<and> (\<forall>x. ur_required ur = Some x \<longrightarrow> row_id r = x) \<and> \<not> dead (row_status r)
          \<and> (case ur_kind ur of
               None \<Rightarrow> lease = None
             | Some k \<Rightarrow> (\<exists>l. lease = Some l \<and> lease_account l = row_id r \<and> lease_kind l = k)))"

lemma build_states_ids:
  "build_states cfg clock si as amap m = (states, amap', m') \<Longrightarrow> ids states = map row_id as"
proof (induction cfg clock si as amap m arbitrary: states rule: build_states.induct)
  case (2 cfg clock si a as amap m)
  obtain rt m1 where d: "runtime_setdefault (row_id a) m = (rt, m1)" by fastforce
  obtain s rt' where f: "state_from_account cfg (clock (row_id a)) a (map_of (si_primary si) (row_id a)) (long_entry si a) rt = (s, rt')"
    by fastforce
  obtain ss where b: "build_states cfg clock si as (AList.update (row_id a) a amap) (AList.update (row_id a) rt' m1) = (ss, amap', m')"
    and states: "states = with_policy si (row_id a) s # ss"
    using 2(2) by (auto simp: d f split: prod.splits)
  show ?case using 2(1) [OF d [symmetric] refl f [symmetric] refl b] states state_from_account_frame [OF f] by simp
qed simp

lemma prepare_maps:
  assumes "prepare_sticky_selection_states cfg st t clock si req m = (states, amap, m')"
  shows "map_of amap x = Some r \<Longrightarrow> row_id r = x \<and> x \<in> row_id ` set (si_accounts si) \<and> (\<forall>y. req = Some y \<longrightarrow> x = y)"
    and "distinct (map row_id (si_accounts si)) \<Longrightarrow> distinct (ids states)"
proof -
  let ?m1 = "prune_runtime (prune_ids si) (reclaim_stale_account_leases_locked t st m)"
  obtain ss am m2 where b: "build_states cfg clock si (si_accounts si) [] ?m1 = (ss, am, m2)"
    by (cases "build_states cfg clock si (si_accounts si) [] ?m1")
  have out: "states = (case req of None \<Rightarrow> ss | Some r \<Rightarrow> filter (\<lambda>s. account_id s = r) ss)"
    "amap = (case req of None \<Rightarrow> am | Some r \<Rightarrow> filter (\<lambda>p. fst p = r) am)"
    using assms(1) by (auto simp: prepare_sticky_selection_states_def Let_def b split: option.splits)
  have am: "(\<forall>x r. map_of am x = Some r \<longrightarrow> row_id r = x) \<and> {x. map_of am x \<noteq> None} = row_id ` set (si_accounts si)"
    using build_states_map [OF b] by simp
  have fm: "map_of (filter (\<lambda>p. fst p = r) am) x = (if x = r then map_of am x else None)" for r x
    by (induction am) auto
  show "row_id r = x \<and> x \<in> row_id ` set (si_accounts si) \<and> (\<forall>y. req = Some y \<longrightarrow> x = y)" if "map_of amap x = Some r"
    using that am out(2) by (auto simp: fm split: option.splits if_splits)
  show "distinct (ids states)" if "distinct (map row_id (si_accounts si))"
    using that build_states_ids [OF b] out(1) by (auto intro: distinct_map_filter split: option.splits)
qed

lemma acquire_lease:
  "lease_account (fst (acquire_account_lease_locked t w uid aid k tok b m)) = aid"
  "lease_kind (fst (acquire_account_lease_locked t w uid aid k tok b m)) = k"
  by (simp_all add: acquire_account_lease_locked_def Let_def split: prod.split)

lemma snapshot_fields [simp]: "row_id (snapshot_of r a states) = row_id r" "row_status (snapshot_of r a states) = status a"
  by (simp_all add: snapshot_of_def Let_def)

lemma admit_sound:
  assumes "admit_picked ae ur amap p = (lk, m)" "alive_pick states p" "\<not> pk_invalidated p"
    and "\<And>x r. map_of amap x = Some r \<Longrightarrow> row_id r = x \<and> x \<in> row_id ` set (si_accounts si) \<and> (\<forall>y. ur_required ur = Some y \<longrightarrow> x = y)"
  shows "sound_grant ur si (lk_snapshot lk) (lk_lease lk)"
proof (cases "\<exists>a r. account (pk_result p) = Some a \<and> map_of amap (account_id a) = Some r")
  case True
  then obtain a r where a: "account (pk_result p) = Some a" "map_of amap (account_id a) = Some r" by blast
  have ok: "\<not> dead (status a)" using assms(2,3) a(1) by (simp add: alive_pick_def)
  show ?thesis
  proof (cases "ur_kind ur")
    case None
    then show ?thesis using assms(1) a assms(4) [OF a(2)] ok by (auto simp: admit_picked_def Let_def sound_grant_def)
  next
    case (Some k)
    obtain l m1 where q: "acquire_account_lease_locked (ae_lease_monotonic ae) (ae_lease_wall ae) (ae_uid ae) (row_id r) k
        (ur_tokens ur) (\<not> probe_selected p r) (synced_runtime ae amap p) = (l, m1)" by fastforce
    have "lease_account l = row_id r" "lease_kind l = k" using acquire_lease q by (metis fst_conv)+
    then show ?thesis using assms(1) a assms(4) [OF a(2)] ok Some q by (auto simp: admit_picked_def Let_def sound_grant_def)
  qed
next
  case False
  then show ?thesis using assms(1) by (auto simp: admit_picked_def Let_def sound_grant_def split: option.splits)
qed

lemma unbound_locked_sound:
  assumes "unbound_locked bs ae ur suppress si w = (Inr lk, w')" "sound_envs (ae_envs ae)" "distinct (map row_id (si_accounts si))"
  shows "sound_grant ur si (lk_snapshot lk) (lk_lease lk)"
proof -
  obtain states amap m where pr: "prepare_sticky_selection_states (bs_recovery bs) (bs_leases bs) (ae_monotonic ae)
      (ae_build_clock ae) si (ur_required ur) (sw_runtime w) = (states, amap, m)" by (metis prod_cases3)
  note pm = prepare_maps [OF pr]
  obtain p where p: "unbound_pick bs ae ur suppress si states (sw_salts w) m = Inr p"
    using assms(1) pr by (cases "unbound_pick bs ae ur suppress si states (sw_salts w) m") (simp_all add: unbound_locked_def)
  note al = unbound_pick_alive [OF p assms(2) pm(2) [OF assms(3)]]
  obtain lk1 m1 where ad: "admit_picked ae ur amap p = (lk1, m1)" by fastforce
  show ?thesis using assms(1) admit_sound [OF ad al _ pm(1)]
    by (auto simp: unbound_locked_def pr p ad sound_grant_def split: if_splits)
qed

section \<open>The locked steps under affinity\<close>

lemma first_nonempty_cases: "first_nonempty xs ys = xs \<or> first_nonempty xs ys = ys"
  by (simp add: first_nonempty_def)

lemma stance_states_ids:
  "set (stance_states sp st states) \<subseteq> set states"
  "distinct (ids states) \<Longrightarrow> distinct (ids (stance_states sp st states))"
proof -
  define base where "base = (if st_hard st then filter (\<lambda>s. Some (account_id s) = existing_id (st_existing st)) states
      else if st_bare st \<and> existing_id (st_existing st) \<noteq> None \<and> \<not> st_spillable st then states
      else cap_states (sp_base sp) states)"
  have b: "set base \<subseteq> set states" "distinct (ids states) \<Longrightarrow> distinct (ids base)"
    using cap_filter_ids [of states] by (auto simp: base_def cap_states_def intro: distinct_map_filter)
  consider "stance_states sp st states = base"
    | c where "stance_states sp st states = filter_states_for_account_caps base (Some Response_create) c 0"
    unfolding stance_states_def Let_def base_def [symmetric] using first_nonempty_cases by metis
  then show "set (stance_states sp st states) \<subseteq> set states"
    "distinct (ids states) \<Longrightarrow> distinct (ids (stance_states sp st states))"
    using b cap_filter_ids [of base] by (cases; fastforce)+
qed

text \<open>What the first use of the lock hands to the choice.\<close>

lemma offer_spec:
  assumes "sticky_offer bs se sp suppress si existing w = (Inr (Inr f), w')"
  shows "of_stance f = stance_of sp existing" and "set (of_offers f) \<subseteq> set (stance_states sp (of_stance f) (of_states f))"
    and "map_of (of_map f) x = Some r \<Longrightarrow>
      row_id r = x \<and> x \<in> row_id ` set (si_accounts si) \<and> (\<forall>y. ur_required (sp_base sp) = Some y \<longrightarrow> x = y)"
    and "distinct (map row_id (si_accounts si)) \<Longrightarrow> distinct (ids (of_states f)) \<and> distinct (ids (of_offers f))"
    and "sw_db w' = sw_db w"
proof -
  obtain states amap m where pr: "prepare_sticky_selection_states (bs_recovery bs) (bs_leases bs) (ae_monotonic (se_attempt se))
      (ae_build_clock (se_attempt se)) si (ur_required (sp_base sp)) (sw_runtime w) = (states, amap, m)" by (metis prod_cases3)
  note pm = prepare_maps [OF pr]
  let ?base = "stance_states sp (stance_of sp existing) states"
  have f: "of_stance f = stance_of sp existing" "of_states f = states" "of_map f = amap" "sw_db w' = sw_db w"
    "of_offers f = ?base \<or> (\<exists>env tc salts salts'. filter_recovery_probe_candidates env ?base tc salts = (Inr (of_offers f), salts'))"
    using assms(1) by (auto simp: sticky_offer_def pr Let_def split: if_splits prod.splits sum.splits)
  show "of_stance f = stance_of sp existing" "sw_db w' = sw_db w" using f by simp_all
  show "set (of_offers f) \<subseteq> set (stance_states sp (of_stance f) (of_states f))"
    using f(1,2,5) probe_filter_ids(1) by (metis order_refl)
  show "row_id r = x \<and> x \<in> row_id ` set (si_accounts si) \<and> (\<forall>y. ur_required (sp_base sp) = Some y \<longrightarrow> x = y)"
    if "map_of (of_map f) x = Some r" using pm(1) that f by simp
  show "distinct (ids (of_states f)) \<and> distinct (ids (of_offers f))" if "distinct (map row_id (si_accounts si))"
    using pm(2) [OF that] f stance_states_ids(2) [OF pm(2) [OF that]] probe_filter_ids(2) by auto
qed

text \<open>The choice of an attempt: its account is alive and one of the offered ones.\<close>

definition alive_choice :: "offer \<Rightarrow> choice \<Rightarrow> bool" where
  "alive_choice f c =
     (ids (co_offers c) = ids (of_offers f)
      \<and> (\<forall>a. account (co_result c) = Some a \<longrightarrow> \<not> dead (status a) \<and> account_id a \<in> set (ids (of_offers f))))"

lemma hard_choice_alive:
  assumes "hard_choice ae b (of_offers f) salts = Inr c" "sound_envs (ae_envs ae)"
  shows "alive_choice f c"
proof -
  let ?r = "select_account_preferring_budget_safe (\<lambda>n. ae_envs ae (20 + n)) b (of_offers f) salts"
  have env: "sound_envs (\<lambda>n. ae_envs ae (20 + n))" using assms(2) by (simp add: sound_envs_def)
  from budget_selection_sound [OF env, of b "of_offers f" salts] obtain res where res: "out_result ?r = Inr res"
    "\<And>a. account res = Some a \<Longrightarrow> a \<in> set (out_states ?r) \<and> routable (stage_request b) a" "list_all2 improves (of_offers f) (out_states ?r)"
    by (auto simp: stage_sound_def)
  have io: "ids (out_states ?r) = ids (of_offers f)" by (rule improves_same_ids [OF res(3)])
  have "\<not> dead (status a) \<and> account_id a \<in> set (ids (of_offers f))" if "account res = Some a" for a
    using res(2) [OF that] routable_alive io by (metis (no_types, lifting) image_eqI set_map)
  then show ?thesis using assms(1) io res(1) by (auto simp: hard_choice_def Let_def alive_choice_def)
qed

lemma sticky_choose_alive:
  assumes "sticky_choose se sp f w = (Inr c, w')" "sound_envs (ae_envs (se_attempt se))"
  shows "alive_choice f c"
proof -
  let ?ae = "se_attempt se"
  let ?w1 = "ae_others ?ae 9 w"
  let ?e = "\<lambda>n. ae_envs ?ae (20 + n)"
  let ?c = "select_with_stickiness ?e (\<lambda>t. t) (se_now se 1) (sticky_request_of sp f) (map fst (of_map f)) (of_offers f)
      (sw_salts ?w1) (db_sticky (sw_db ?w1))"
  have env: "sound_envs ?e" using assms(2) by (simp add: sound_envs_def)
  consider "co_result c = \<lparr>account = None, error_message = None\<rparr>" "co_offers c = of_offers f"
    | b where "hard_choice ?ae b (of_offers f) (sw_salts w) = Inr c"
    | res where "sc_result ?c = Inr res" "co_result c = res" "co_offers c = sc_states ?c"
    using assms(1) by (auto simp: sticky_choose_def Let_def refused_choice_def bind_def split: if_splits sum.splits)
  then show ?thesis
  proof cases
    case 1
    then show ?thesis by (simp add: alive_choice_def)
  next
    case (2 b)
    then show ?thesis by (rule hard_choice_alive [OF _ assms(2)])
  next
    case (3 res)
    have "sound_choice (unbound_budget (sp_base sp) (of_costs f)) (of_offers f) ?c"
      using stickiness_sound_choice [OF env 3(1)] by (simp add: sticky_request_of_def)
    then show ?thesis using 3 routable_alive improves_same_ids
      by (auto simp: sound_choice_def alive_choice_def)
  qed
qed

lemma reserve_for_choice_alive:
  assumes "reserve_for_choice se sp f c w = Inr p" "sound_envs (ae_envs (se_attempt se))" "alive_choice f c"
    and "distinct (ids (of_offers f))" "set (ids (of_offers f)) \<subseteq> set (ids (of_states f))"
  shows "alive_pick (of_states f) p"
proof -
  let ?ae = "se_attempt se"
  let ?b = "unbound_budget (sp_base sp) (of_costs f)"
  obtain n ss where nd: "probing_result_requires_recovery_reservation (ae_envs ?ae 5) (co_offers c) (account (co_result c)) (b_strategy ?b)
      (b_traffic_class ?b) (sw_salts w) = (n, ss)" by fastforce
  let ?p = "picked_of f c ss (sw_runtime w)"
  have idp: "ids (pk_states ?p) = ids (of_states f)" by (simp add: picked_of_def)
  show ?thesis
  proof (cases "p = ?p")
    case True
    then show ?thesis using assms(3,5) by (auto simp: alive_pick_def alive_choice_def picked_of_def)
  next
    case False
    then obtain a where a: "account (co_result c) = Some a" "reserve_picked ?ae ?b a (co_offers c) ?p = Inr p"
      using assms(1) by (auto simp: reserve_for_choice_def Let_def nd bind_def split: sum.splits option.splits if_splits)
    have "account_id a \<in> set (ids (of_states f))" using assms(3,5) a(1) by (auto simp: alive_choice_def)
    then show ?thesis
      using reserve_picked_alive [OF a(2) assms(2)] assms(3,4) idp by (simp add: alive_pick_def alive_choice_def) (metis option.inject)
  qed
qed

lemma sticky_reserve_alive:
  assumes "sticky_reserve se sp f c w = Inr p" "sound_envs (ae_envs (se_attempt se))" "alive_choice f c"
    and "distinct (ids (of_offers f))" "set (ids (of_offers f)) \<subseteq> set (ids (of_states f))"
  shows "alive_pick (of_states f) p"
proof -
  obtain q where q: "reserve_for_choice se sp f c w = Inr q" "p = recheck_reservation (of_map f) q"
    using sticky_reserve_cases [OF assms(1)] .
  show ?thesis using reserve_for_choice_alive [OF q(1) assms(2-5)] recheck_fields(3) [of "of_map f" q] q(2)
    by (auto simp: alive_pick_def)
qed

lemma sticky_lease_sound:
  assumes "account (pk_result p) = Some a" "map_of amap (account_id a) = Some r" "ad_admitted (sticky_lease ae ur amap p)"
  shows "case ur_kind ur of None \<Rightarrow> ad_lease (sticky_lease ae ur amap p) = None
    | Some k \<Rightarrow> (\<exists>l. ad_lease (sticky_lease ae ur amap p) = Some l \<and> lease_account l = row_id r \<and> lease_kind l = k)"
  using assms acquire_lease by (auto simp: sticky_lease_def Let_def split: option.splits prod.splits if_splits) (metis fst_conv)+

lemma sticky_admit_sound:
  assumes "sticky_admit ae ur amap p = (lk, m)" "alive_pick states p" "\<not> pk_invalidated p"
    and "\<And>x r. map_of amap x = Some r \<Longrightarrow> row_id r = x \<and> x \<in> row_id ` set (si_accounts si) \<and> (\<forall>y. ur_required ur = Some y \<longrightarrow> x = y)"
  shows "sound_grant ur si (lk_snapshot lk) (lk_lease lk)"
proof (cases "ad_admitted (sticky_lease ae ur amap p)")
  case True
  then obtain a r where a: "account (pk_result p) = Some a" "map_of amap (account_id a) = Some r"
    by (auto simp: sticky_lease_def Let_def split: option.splits)
  have "\<not> dead (status a)" using assms(2,3) a(1) by (simp add: alive_pick_def)
  moreover have "lk_lease lk = ad_lease (sticky_lease ae ur amap p)" "\<exists>ss. lk_snapshot lk = Some (snapshot_of r a ss)"
    using assms(1) True a by (auto simp: sticky_admit_def Let_def)
  ultimately show ?thesis using assms(4) [OF a(2)] sticky_lease_sound [OF a True]
    by (auto simp: sound_grant_def split: option.splits)
next
  case False
  then have "ad_lease (sticky_lease ae ur amap p) = None"
    by (auto simp: sticky_lease_def Let_def split: option.splits prod.splits if_splits)
  then show ?thesis using assms(1) False by (auto simp: sticky_admit_def Let_def sound_grant_def)
qed

lemma sticky_locked_sound:
  assumes "sticky_locked se sp f c w = (Inr lk, w')" "sound_envs (ae_envs (se_attempt se))" "alive_choice f c"
    and "sticky_offer bs se sp suppress si existing v = (Inr (Inr f), v')" "distinct (map row_id (si_accounts si))"
  shows "sound_grant (sp_base sp) si (lk_snapshot lk) (lk_lease lk)"
proof -
  note os = offer_spec [OF assms(4)]
  obtain p where p: "sticky_reserve se sp f c w = Inr p"
    using assms(1) by (cases "sticky_reserve se sp f c w") (simp_all add: sticky_locked_def)
  have "set (ids (of_offers f)) \<subseteq> set (ids (of_states f))"
    using os(2) stance_states_ids(1) [of sp "of_stance f" "of_states f"] by fastforce
  note al = sticky_reserve_alive [OF p assms(2,3) conjunct2 [OF os(4) [OF assms(5)]] this]
  obtain lk1 m1 where ad: "sticky_admit (se_attempt se) (sp_base sp) (of_map f) p = (lk1, m1)" by fastforce
  show ?thesis using assms(1) sticky_admit_sound [OF ad al _ os(3)]
    by (auto simp: sticky_locked_def p ad sound_grant_def split: if_splits)
qed

section \<open>The answer\<close>

definition sound_verdict :: "unbound_request \<Rightarrow> unbound_outcome verdict_of_attempt \<Rightarrow> bool" where
  "sound_verdict ur v =
     (case v of
        Stop (Returned o') \<Rightarrow> sound_grant ur (uo_inputs o') (uo_snapshot o') (uo_lease o')
      | Retry n b si \<Rightarrow> distinct (map row_id (si_accounts si))
      | _ \<Rightarrow> True)"

definition sound_reload :: "attempt_env \<Rightarrow> bool" where
  "sound_reload ae =
     (sound_envs (ae_envs ae) \<and> (\<forall>si. ae_reload ae = Some si \<longrightarrow> distinct (map row_id (si_accounts si))))"

lemma no_grant [simp]: "sound_grant ur si None None"
  by (simp add: sound_grant_def)

lemma reload_sound:
  assumes "sound_reload ae"
  shows "sound_verdict ur (reload ae n b)" "sound_verdict ur (retry_without_probes ae n b)"
  using assms by (auto simp: reload_def retry_without_probes_def sound_reload_def sound_verdict_def direct_error_def split: option.split)

lemma finish_sound:
  assumes "sound_reload ae" "sound_grant ur si (lk_snapshot lk) (lk_lease lk)"
  shows "sound_verdict ur (fst (unbound_finish ae n b si lk amap w))"
  using assms(2) reload_sound(2) [OF assms(1), of ur n b]
  by (auto simp: unbound_finish_def Let_def sound_verdict_def split: option.splits prod.splits bool.splits)

lemma unbound_attempt_sound:
  assumes "sound_reload ae" "distinct (map row_id (si_accounts si))"
  shows "sound_verdict ur (fst (unbound_attempt bs ur ae n b si w))"
proof -
  obtain r w1 where lk: "unbound_locked bs ae ur b si (ae_others ae 0 w) = (r, w1)" by fastforce
  note rl = reload_sound [OF assms(1), of ur n b]
  show ?thesis
  proof (cases r)
    case (Inl e)
    then show ?thesis using lk by (simp add: unbound_attempt_def sound_verdict_def)
  next
    case (Inr k)
    have g: "sound_grant ur si (lk_snapshot k) (lk_lease k)"
      using unbound_locked_sound [OF lk [unfolded Inr]] assms by (simp add: sound_reload_def)
    obtain pr w2 where p: "persist_selection_state (ae_others ae) (ae_persist_fails ae) (lk_map k) (lk_states k) (ae_others ae 6 w1) = (pr, w2)"
      by fastforce
    note fin = finish_sound [OF assms(1) g]
    show ?thesis using rl fin lk Inr p
      by (auto simp: unbound_attempt_def sound_verdict_def split: option.split)
  qed
qed

lemma sticky_finish_sound:
  assumes "sound_reload (se_attempt se)" "sound_grant ur si (lk_snapshot lk) (lk_lease lk)"
  shows "sound_verdict ur (fst (sticky_finish se sp n b si f c lk amap w))"
proof -
  have final: "sound_verdict ur (Stop (Returned (outcome_of si lk)))" using assms(2) by (simp add: sound_verdict_def outcome_of_def)
  have failed: "sound_verdict ur (Stop Failed)" by (simp add: sound_verdict_def)
  have "sound_verdict ur (fst (bind_and_commit se sp n b ex mu r lk amap (outcome_of si lk) w'))" for ex mu r w'
    using final failed reload_sound(2) [OF assms(1), of ur n b]
    by (auto simp: bind_and_commit_def Let_def split: prod.split bool.split)
  then show ?thesis using final failed finish_sound [OF assms]
    by (auto simp: sticky_finish_def Let_def split: option.split)
qed

lemma sticky_after_sound:
  assumes "sound_reload (se_attempt se)" "sound_grant ur si (lk_snapshot lk) (lk_lease lk)"
  shows "sound_verdict ur (fst (sticky_after se sp n b si f c lk w))"
proof -
  have "sound_verdict ur (Stop Failed)" "sound_verdict ur (Stop (Returned (no_selection si x y z)))" for x y z
    by (simp_all add: sound_verdict_def no_selection_def)
  then show ?thesis using reload_sound [OF assms(1), of ur n b] sticky_finish_sound [OF assms]
    by (auto simp: sticky_after_def Let_def split: option.split prod.split)
qed

lemma sticky_attempt_sound:
  assumes "sound_reload (se_attempt se)" "distinct (map row_id (si_accounts si))"
  shows "sound_verdict (sp_base sp) (fst (sticky_attempt bs sp se n b si w))"
proof -
  let ?ok = "sound_verdict (sp_base sp)"
  obtain ex w1 where rd: "read_binding se sp w = (ex, w1)" by fastforce
  obtain o1 w2 where off: "sticky_offer bs se sp b si ex (ae_others (se_attempt se) 0 w1) = (o1, w2)" by fastforce
  have triv: "?ok (Stop Failed)" "?ok (Stop (Returned (no_selection si x y z)))" for x y z
    by (simp_all add: sound_verdict_def no_selection_def)
  have env: "sound_envs (ae_envs (se_attempt se))" using assms(1) by (simp add: sound_reload_def)
  show ?thesis
  proof (cases "\<exists>f c w3 lk w4. o1 = Inr (Inr f) \<and> sticky_choose se sp f w2 = (Inr c, w3)
      \<and> sticky_locked se sp f c (se_others se 0 (w3\<lparr>sw_salts := co_salts c\<rparr>)) = (Inr lk, w4)")
    case True
    then obtain f c w3 lk w4 where s: "o1 = Inr (Inr f)" "sticky_choose se sp f w2 = (Inr c, w3)"
      "sticky_locked se sp f c (se_others se 0 (w3\<lparr>sw_salts := co_salts c\<rparr>)) = (Inr lk, w4)" by blast
    have "sound_grant (sp_base sp) si (lk_snapshot lk) (lk_lease lk)"
      by (rule sticky_locked_sound [OF s(3) env sticky_choose_alive [OF s(2) env] off [unfolded s(1)] assms(2)])
    then show ?thesis using sticky_after_sound [OF assms(1)] triv rd off s by (simp add: sticky_attempt_def)
  next
    case False
    then have "fst (sticky_attempt bs sp se n b si w) \<in> {Stop Failed} \<union> range (\<lambda>(x, y). Stop (Returned (no_selection si (Some x) (Some y) True)))"
      using rd off by (auto simp: sticky_attempt_def split: sum.splits prod.splits)
    then show ?thesis using triv by auto
  qed
qed

lemma unbound_loop_sound:
  assumes "\<forall>ae\<in>set aes. sound_reload ae" "distinct (map row_id (si_accounts si))"
    and "unbound_loop bs ur aes n b si w = (Returned o', w')"
  shows "sound_grant ur (uo_inputs o') (uo_snapshot o') (uo_lease o')"
  using assms
proof (induction bs ur aes n b si w rule: unbound_loop.induct)
  case (2 bs ur ae aes n b si w)
  obtain v w1 where v: "unbound_attempt bs ur ae (Suc n) b si w = (v, w1)" by fastforce
  have sv: "sound_verdict ur v" using unbound_attempt_sound [of ae si ur bs "Suc n" b w] 2(2,3) v by simp
  show ?case
  proof (cases v)
    case (Stop x)
    then show ?thesis using 2(4) v sv by (simp add: sound_verdict_def)
  next
    case (Retry n' b' si')
    then show ?thesis using 2(1) [OF v [symmetric] Retry] 2(2,4) v sv by (simp add: sound_verdict_def)
  qed
qed simp

lemma sticky_loop_sound:
  assumes "\<forall>se\<in>set ses. sound_reload (se_attempt se)" "distinct (map row_id (si_accounts si))"
    and "sticky_loop bs sp ses n b si w = (Returned o', w')"
  shows "sound_grant (sp_base sp) (uo_inputs o') (uo_snapshot o') (uo_lease o')"
  using assms
proof (induction bs sp ses n b si w rule: sticky_loop.induct)
  case (2 bs sp se ses n b si w)
  obtain v w1 where v: "sticky_attempt bs sp se (Suc n) b si w = (v, w1)" by fastforce
  have sv: "sound_verdict (sp_base sp) v" using sticky_attempt_sound [of se si sp bs "Suc n" b w] 2(2,3) v by simp
  show ?case
  proof (cases v)
    case (Stop x)
    then show ?thesis using 2(4) v sv by (simp add: sound_verdict_def)
  next
    case (Retry n' b' si')
    then show ?thesis using 2(1) [OF v [symmetric] Retry] 2(2,4) v sv by (simp add: sound_verdict_def)
  qed
qed simp

text \<open>
  The account a request without affinity gets: it is one of the accounts loaded last, is the
  required one when one is required, is not paused, deactivated or waiting for a new login, and
  comes with a lease on it of the kind that was asked for, or without a lease when none was.
  Without an account there is no lease. Whatever other requests do between the steps.
\<close>

theorem unbound_selection_eligible:
  assumes "\<forall>ae\<in>set aes. sound_reload ae" and "distinct (map row_id (si_accounts si))"
    and "run_unbound_selection_path bs ur aes si w = (Returned o', w')"
  shows "case uo_snapshot o' of
      None \<Rightarrow> uo_lease o' = None
    | Some r \<Rightarrow>
        row_id r \<in> row_id ` set (si_accounts (uo_inputs o')) \<and> (\<forall>x. ur_required ur = Some x \<longrightarrow> row_id r = x)
        \<and> row_status r \<notin> {REAUTH_REQUIRED, DEACTIVATED, PAUSED}
        \<and> (case ur_kind ur of None \<Rightarrow> uo_lease o' = None
           | Some k \<Rightarrow> (\<exists>l. uo_lease o' = Some l \<and> lease_account l = row_id r \<and> lease_kind l = k))"
  using unbound_loop_sound [OF assms(1,2) assms(3) [unfolded run_unbound_selection_path_def]]
  unfolding sound_grant_def dead_def .

text \<open>
  The account a request with affinity gets: it is one of the accounts loaded last, is the required
  one when one is required, is not paused, deactivated or waiting for a new login, and comes with a
  lease on it of the kind that was asked for. Without an account there is no lease. Whatever other
  requests do between the steps, and whatever the binding says.
\<close>

theorem sticky_selection_eligible:
  assumes "\<forall>se\<in>set ses. sound_reload (se_attempt se)" and "distinct (map row_id (si_accounts si))"
    and "run_sticky_selection_path bs sp ses si w = (Returned o', w')"
  shows "case uo_snapshot o' of
      None \<Rightarrow> uo_lease o' = None
    | Some r \<Rightarrow>
        row_id r \<in> row_id ` set (si_accounts (uo_inputs o')) \<and> (\<forall>x. ur_required (sp_base sp) = Some x \<longrightarrow> row_id r = x)
        \<and> row_status r \<notin> {REAUTH_REQUIRED, DEACTIVATED, PAUSED}
        \<and> (case ur_kind (sp_base sp) of None \<Rightarrow> uo_lease o' = None
           | Some k \<Rightarrow> (\<exists>l. uo_lease o' = Some l \<and> lease_account l = row_id r \<and> lease_kind l = k))"
  using sticky_loop_sound [OF assms(1,2) assms(3) [unfolded run_sticky_selection_path_def]]
  unfolding sound_grant_def dead_def .

section \<open>The binding of a key\<close>

text \<open>\<open>bound_to sp kind B w\<close>: keys are unique in the table of bindings, and that of the request is in \<open>B\<close>.\<close>

definition bound_to :: "sticky_path_request \<Rightarrow> sticky_kind \<Rightarrow> string option set \<Rightarrow> selection_world \<Rightarrow> bool" where
  "bound_to sp kind B w =
     (wf_sticky (db_sticky (sw_db w)) \<and> sticky_owner (db_sticky (sw_db w)) (sp_key sp) kind \<in> B)"

text \<open>Other requests leave the binding of this key alone.\<close>

definition calm :: "sticky_path_request \<Rightarrow> sticky_kind \<Rightarrow> sticky_env \<Rightarrow> bool" where
  "calm sp kind se =
     (\<forall>i B w. bound_to sp kind B w \<longrightarrow>
        bound_to sp kind B (ae_others (se_attempt se) i w) \<and> bound_to sp kind B (se_others se i w))"

lemma bound_others:
  assumes "calm sp kind se" "bound_to sp kind B w"
  shows "bound_to sp kind B (ae_others (se_attempt se) i w)" "bound_to sp kind B (se_others se i w)"
  using assms by (simp_all add: calm_def)

lemma bound_db: "sw_db w' = sw_db w \<Longrightarrow> bound_to sp kind B w' = bound_to sp kind B w"
  by (simp add: bound_to_def)

lemma bound_world_simps [simp]:
  "bound_to sp kind B (w\<lparr>sw_runtime := m\<rparr>) = bound_to sp kind B w"
  "bound_to sp kind B (w\<lparr>sw_salts := s\<rparr>) = bound_to sp kind B w"
  "bound_to sp kind B (w\<lparr>sw_generation := g\<rparr>) = bound_to sp kind B w"
  "bound_to sp kind B (release_lease_step l w) = bound_to sp kind B w"
  "bound_to sp kind B (release_probe_step r w) = bound_to sp kind B w"
  by (simp_all add: bound_to_def release_lease_step_def release_probe_step_def)

lemma bound_give_back: "calm sp kind se \<Longrightarrow> bound_to sp kind B w \<Longrightarrow> bound_to sp kind B (give_back (se_attempt se) l r w)"
  by (simp add: give_back_def bound_others)

lemma bound_commit: "commit_step ae r amap states w = (b, w') \<Longrightarrow> bound_to sp kind B w' = bound_to sp kind B w"
  by (auto simp: commit_step_def split: prod.splits bool.splits)

lemma bound_finish:
  assumes "calm sp kind se" "bound_to sp kind B w"
  shows "bound_to sp kind B (snd (unbound_finish (se_attempt se) n b si lk amap w))"
  using bound_commit [of "se_attempt se" _ amap "lk_states lk"] bound_give_back [OF assms(1)] bound_others [OF assms(1)] assms(2)
  by (auto simp: unbound_finish_def Let_def split: option.split prod.split bool.split)

text \<open>Writing the states drops the bindings to an account only when it writes it as dead.\<close>

lemma owner_filter_account:
  assumes "wf_sticky t" "sticky_owner t k d = Some e"
  shows "sticky_owner (filter (\<lambda>r. sk_account r \<noteq> x) t) k d = (if x = e then None else Some e)"
  using assms by (induction t) (auto simp: wf_sticky_def sticky_owner_None row_ident_def at_key_def image_iff)

lemma persist_state_sticky:
  assumes "persist_state_if_current tok a s db = (ok, a', db')"
  shows "row_id a' = row_id a"
    and "db_sticky db' = db_sticky db
      \<or> dead (status s) \<and> db_sticky db' = filter (\<lambda>r. sk_account r \<noteq> row_id a) (db_sticky db)"
  using assms
  by (auto simp: persist_state_if_current_def update_status_if_current_def update_rows_def drop_sessions_def written_def dead_def
      close_http_bridge_sessions_for_account_def write_status_def Let_def split: if_splits option.splits prod.splits)

definition row_map :: "account_map \<Rightarrow> bool" where
  "row_map amap = (\<forall>x r. map_of amap x = Some r \<longrightarrow> row_id r = x)"

text \<open>
  \<open>remains e P\<close>: what the binding to \<open>e\<close> can be after states satisfying \<open>P\<close> were written.
\<close>

definition remains :: "string \<Rightarrow> bool \<Rightarrow> string option set" where
  "remains e lost = (if lost then {Some e, None} else {Some e})"

lemma bound_remains: "bound_to sp kind (remains e lost) w \<Longrightarrow> lost \<longrightarrow> lost' \<Longrightarrow> bound_to sp kind (remains e lost') w"
  by (auto simp: bound_to_def remains_def split: if_splits)

lemma bound_persist_one:
  assumes "persist_state_if_current tok a s (sw_db w) = (ok, a', db)" "bound_to sp kind (remains e lost) w" "row_id a = account_id s"
    and "account_id s = e \<and> dead (status s) \<longrightarrow> lost"
  shows "bound_to sp kind (remains e lost) (w\<lparr>sw_db := db\<rparr>)"
proof -
  let ?t = "db_sticky (sw_db w)"
  have "sticky_owner (filter (\<lambda>r. sk_account r \<noteq> row_id a) ?t) (sp_key sp) kind = None" if "sticky_owner ?t (sp_key sp) kind = None"
    using that by (auto simp: sticky_owner_None)
  then show ?thesis using persist_state_sticky(2) [OF assms(1)] assms(2-4) owner_filter_account [of ?t "sp_key sp" kind e "row_id a"]
    by (auto simp: bound_to_def remains_def filter_wf split: if_splits)
qed

lemma bound_persist_states:
  assumes "persist_states (ae_others (se_attempt se)) fails i states p w = (r, w')" "calm sp kind se"
    and "bound_to sp kind (remains e lost) w" "row_map (ps_map p)" "\<forall>s\<in>set states. account_id s = e \<and> dead (status s) \<longrightarrow> lost"
  shows "bound_to sp kind (remains e lost) w'"
  using assms
proof (induction "ae_others (se_attempt se)" fails i states p w rule: persist_states.induct)
  case (2 fails i s ss p w)
  let ?o = "ae_others (se_attempt se)"
  show ?case
  proof (cases "fails = Some i \<or> ignore_standard_quota s \<or> map_of (ps_map p) (account_id s) = None")
    case True
    then show ?thesis using 2 by (auto split: if_splits option.splits)
  next
    case False
    then obtain a where a: "map_of (ps_map p) (account_id s) = Some a" by blast
    obtain ok a' db where u: "persist_state_if_current None a s (sw_db (?o (10 + i) w)) = (ok, a', db)" by (metis prod_cases3)
    have id: "row_id a = account_id s" using 2(7) a by (simp add: row_map_def)
    have b: "bound_to sp kind (remains e lost) ((?o (10 + i) w)\<lparr>sw_db := db\<rparr>)"
      by (rule bound_persist_one [OF u bound_others(1) [OF 2(5,6)] id]) (use 2(8) in simp)
    have rm: "row_map (AList.update (account_id s) a' (ps_map p))"
      using 2(7) persist_state_sticky(1) [OF u] id by (auto simp: row_map_def update_conv')
    show ?thesis using 2(3) [OF _ _ a refl u [symmetric] refl] 2(4,5,8) False a u b rm by (auto simp: Let_def)
  qed
qed (auto split: if_splits)

lemma bound_persist:
  assumes "persist_selection_state (ae_others (se_attempt se)) fails amap states w = (r, w')" "calm sp kind se"
    and "bound_to sp kind {Some e} w" "row_map amap"
  shows "bound_to sp kind (remains e (\<exists>s\<in>set states. account_id s = e \<and> dead (status s))) w'"
proof -
  let ?lost = "\<exists>s\<in>set states. account_id s = e \<and> dead (status s)"
  obtain r1 w1 where p: "persist_states (ae_others (se_attempt se)) fails 0 states \<lparr>ps_stale = [], ps_changed = False, ps_map = amap\<rparr> w
      = (r1, w1)" by fastforce
  have "bound_to sp kind (remains e ?lost) w" using assms(3) by (auto simp: bound_to_def remains_def)
  from bound_persist_states [OF p assms(2) this] show ?thesis using assms(1,4) p
    by (auto simp: persist_selection_state_def split: option.splits if_splits)
qed

section \<open>Hard sessions\<close>

text \<open>A session whose key proves ownership: it is not the bare session header that may move.\<close>

definition hard_request :: "sticky_path_request \<Rightarrow> bool" where
  "hard_request sp =
     (sp_kind sp = Some CODEX_SESSION \<and> sp_key sp \<noteq> [] \<and> sp_max_age sp = None
      \<and> \<not> (sp_session_header sp \<and> sp_legacy_key sp \<noteq> None \<and> sp_legacy_existing sp = None))"

lemma hard_stance:
  assumes "hard_request sp"
  shows "st_hard (stance_of sp (Known (Some e)))" "\<not> st_spillable (stance_of sp (Known (Some e)))"
    "existing_id (st_existing (stance_of sp (Known (Some e)))) = Some e"
  using assms by (auto simp: hard_request_def stance_of_def Let_def existing_id_def)

lemma hard_read:
  assumes "hard_request sp" "calm sp CODEX_SESSION se" "bound_to sp CODEX_SESSION {Some e} w" "sp_legacy_existing sp \<in> {None, Some e}"
    and "read_binding se sp w = (existing, w')"
  shows "existing = Known (Some e)" "bound_to sp CODEX_SESSION {Some e} w'"
proof -
  let ?w = "ae_others (se_attempt se) 7 w"
  have b: "bound_to sp CODEX_SESSION {Some e} ?w" by (rule bound_others [OF assms(2,3)])
  then have "get_account_id g now (sp_key sp) CODEX_SESSION None (db_sticky (sw_db ?w)) = (Some e, db_sticky (sw_db ?w))" for g now
    using assms(1) by (auto simp: get_account_id_def get_entry_def hard_request_def bound_to_def sticky_owner_def)
  then have "existing = Known (Some e) \<and> sw_db w' = sw_db ?w"
    using assms(1,4,5) by (auto simp: read_binding_def Let_def hard_request_def split: if_splits)
  then show "existing = Known (Some e)" "bound_to sp CODEX_SESSION {Some e} w'" using b by (simp_all add: bound_to_def)
qed

lemma hard_offers:
  assumes "sticky_offer bs se sp suppress si (Known (Some e)) w = (Inr (Inr f), w')" "hard_request sp"
  shows "st_hard (of_stance f)" "s \<in> set (of_offers f) \<Longrightarrow> account_id s = e"
proof -
  note os = offer_spec [OF assms(1)]
  show "st_hard (of_stance f)" using hard_stance(1) [OF assms(2)] os(1) by simp
  show "account_id s = e" if "s \<in> set (of_offers f)"
    using that os(1,2) hard_stance [OF assms(2), of e] by (auto simp: stance_states_def Let_def)
qed

lemma hard_chosen:
  assumes "sticky_choose se sp f w = (r, w')" "st_hard (of_stance f)"
  shows "w' = w" "r = Inr c \<Longrightarrow> co_mutation c = None"
  using assms by (auto simp: sticky_choose_def Let_def refused_choice_def hard_choice_def bind_def split: if_splits sum.splits)

lemma reserve_same_account:
  assumes "sticky_reserve se sp f c w = Inr p" "account (pk_result p) = Some a'"
  obtains a where "account (co_result c) = Some a" "account_id a' = account_id a"
proof -
  obtain q where q: "reserve_for_choice se sp f c w = Inr q" "p = recheck_reservation (of_map f) q"
    using sticky_reserve_cases [OF assms(1)] .
  have qa: "account (pk_result q) = Some a'" using assms(2) q(2) recheck_fields(1) by simp
  have "account_id (state_in states a) = account_id a" for states a
    by (auto simp: state_in_def find_Some_iff split: option.split)
  then have "account_id a' = account_id a" if "reserve_picked ae b a os p0 = Inr q" for ae b a os p0
    using that qa by (auto simp: reserve_picked_def Let_def split: prod.splits sum.splits)
  then show ?thesis using q(1) qa that
    by (fastforce simp: reserve_for_choice_def Let_def bind_def picked_of_def split: prod.splits sum.splits option.splits if_splits)
qed

text \<open>A locked step that selects: the account is the owner, and its state is written as alive.\<close>

definition grants_owner :: "string \<Rightarrow> locked \<Rightarrow> bool" where
  "grants_owner e lk =
     (row_map (lk_map lk)
      \<and> (\<forall>r. lk_snapshot lk = Some r \<longrightarrow> row_id r = e \<and> (\<forall>s\<in>set (lk_states lk). account_id s = e \<longrightarrow> \<not> dead (status s))))"

lemma sticky_admit_owner:
  assumes "sticky_admit ae ur amap p = (lk, m)" "row_map amap"
    and "\<And>a. account (pk_result p) = Some a \<Longrightarrow> account_id a = e \<and> \<not> dead (status a)"
  shows "grants_owner e lk"
proof (cases "ad_admitted (sticky_lease ae ur amap p)")
  case True
  then obtain a r where a: "account (pk_result p) = Some a" "map_of amap (account_id a) = Some r"
    by (auto simp: sticky_lease_def Let_def split: option.splits)
  have "lk_map lk = amap \<and> (\<exists>ss. lk_snapshot lk = Some (snapshot_of r a ss)) \<and> (\<exists>ss. lk_states lk = adopt_result a ss)"
    using assms(1) True a by (auto simp: sticky_admit_def Let_def)
  then show ?thesis using assms(2) assms(3) [OF a(1)] a(2) by (auto simp: grants_owner_def row_map_def adopt_result_def)
next
  case False
  then show ?thesis using assms(1,2) by (auto simp: sticky_admit_def Let_def grants_owner_def)
qed

lemma sticky_locked_owner:
  assumes "sticky_locked se sp f c w = (Inr lk, w')" "sound_envs (ae_envs (se_attempt se))" "alive_choice f c" "hard_request sp"
    and "sticky_offer bs se sp suppress si (Known (Some e)) v = (Inr (Inr f), v')" "distinct (map row_id (si_accounts si))"
  shows "grants_owner e lk" "sw_db w' = sw_db w"
proof -
  note os = offer_spec [OF assms(5)]
  have rm: "row_map (of_map f)" using os(3) by (auto simp: row_map_def)
  obtain p where p: "sticky_reserve se sp f c w = Inr p"
    using assms(1) by (cases "sticky_reserve se sp f c w") (simp_all add: sticky_locked_def)
  have "set (ids (of_offers f)) \<subseteq> set (ids (of_states f))"
    using os(2) stance_states_ids(1) [of sp "of_stance f" "of_states f"] by fastforce
  note al = sticky_reserve_alive [OF p assms(2,3) conjunct2 [OF os(4) [OF assms(6)]] this]
  have own: "account_id a = e" if pa: "account (pk_result p) = Some a" for a
  proof -
    obtain a0 where "account (co_result c) = Some a0" "account_id a = account_id a0" using reserve_same_account [OF p pa] .
    then have "account_id a \<in> set (ids (of_offers f))" using assms(3) by (simp add: alive_choice_def)
    then show ?thesis using hard_offers(2) [OF assms(5,4)] by auto
  qed
  obtain lk1 m1 where ad: "sticky_admit (se_attempt se) (sp_base sp) (of_map f) p = (lk1, m1)" by fastforce
  show "grants_owner e lk"
  proof (cases "pk_invalidated p")
    case True
    then show ?thesis using assms(1) rm by (auto simp: sticky_locked_def p grants_owner_def)
  next
    case False
    have "grants_owner e lk1" by (rule sticky_admit_owner [OF ad rm]) (use own al False in \<open>simp add: alive_pick_def\<close>)
    then show ?thesis using assms(1) False by (simp add: sticky_locked_def p ad)
  qed
  show "sw_db w' = sw_db w" using assms(1) by (auto simp: sticky_locked_def p ad split: if_splits)
qed

text \<open>What an attempt of a hard session can end in.\<close>

definition owner_verdict :: "sticky_path_request \<Rightarrow> string \<Rightarrow> unbound_outcome verdict_of_attempt \<Rightarrow> selection_world \<Rightarrow> bool" where
  "owner_verdict sp e v w =
     (case v of
        Retry n b si \<Rightarrow> bound_to sp CODEX_SESSION {Some e} w \<and> distinct (map row_id (si_accounts si))
      | Stop r \<Rightarrow> bound_to sp CODEX_SESSION {Some e, None} w
                  \<and> (\<forall>o' row. r = Returned o' \<and> uo_snapshot o' = Some row \<longrightarrow>
                       row_id row = e \<and> bound_to sp CODEX_SESSION {Some e} w))"

lemma owner_weaken: "bound_to sp kind {Some e} w \<Longrightarrow> bound_to sp kind {Some e, None} w"
  by (auto simp: bound_to_def)

lemma reload_owner:
  assumes "sound_reload ae" "bound_to sp CODEX_SESSION {Some e} w"
  shows "owner_verdict sp e (reload ae n b) w" "owner_verdict sp e (retry_without_probes ae n b) w"
  using assms owner_weaken [OF assms(2)]
  by (auto simp: reload_def retry_without_probes_def owner_verdict_def sound_reload_def direct_error_def split: option.split)

lemma finish_owner:
  assumes "sound_reload (se_attempt se)" "calm sp CODEX_SESSION se" "grants_owner e lk"
    and "bound_to sp CODEX_SESSION (remains e (lk_snapshot lk = None)) w"
  shows "owner_verdict sp e (fst (unbound_finish (se_attempt se) n b si lk amap w)) (snd (unbound_finish (se_attempt se) n b si lk amap w))"
proof -
  note bf = bound_finish [OF assms(2,4), of n b si lk amap]
  show ?thesis
  proof (cases "lk_snapshot lk")
    case None
    then show ?thesis using assms(4) by (auto simp: unbound_finish_def Let_def owner_verdict_def remains_def)
  next
    case (Some r)
    then have b: "bound_to sp CODEX_SESSION {Some e} (snd (unbound_finish (se_attempt se) n b si lk amap w))"
      using bf by (simp add: remains_def)
    have "owner_verdict sp e (Stop Failed) x \<and> owner_verdict sp e (retry_without_probes (se_attempt se) n b) x
        \<and> owner_verdict sp e (Stop (Returned \<lparr>uo_inputs = si, uo_snapshot = lk_snapshot lk, uo_lease = lk_lease lk,
              uo_error = lk_error lk, uo_code = lk_code lk, uo_direct = False\<rparr>)) x"
      if "bound_to sp CODEX_SESSION {Some e} x" for x
      using that owner_weaken [OF that] reload_owner [OF assms(1) that] assms(3) Some by (auto simp: owner_verdict_def grants_owner_def)
    from this [OF b] show ?thesis by (auto simp: unbound_finish_def Let_def split: option.splits prod.splits bool.splits)
  qed
qed

lemma sticky_after_owner:
  assumes "sound_reload (se_attempt se)" "calm sp CODEX_SESSION se" "grants_owner e lk" "st_hard (of_stance f)" "co_mutation c = None"
    and "bound_to sp CODEX_SESSION {Some e} w" "sticky_after se sp n b si f c lk w = (v, w')"
  shows "owner_verdict sp e v w'"
proof -
  let ?ae = "se_attempt se"
  obtain pr w2 where p: "persist_selection_state (ae_others ?ae) (ae_persist_fails ?ae) (lk_map lk) (lk_states lk) (ae_others ?ae 6 w) = (pr, w2)"
    by fastforce
  have "bound_to sp CODEX_SESSION (remains e (\<exists>s\<in>set (lk_states lk). account_id s = e \<and> dead (status s))) w2"
    by (rule bound_persist [OF p assms(2) bound_others(1) [OF assms(2,6)]]) (use assms(3) in \<open>simp add: grants_owner_def\<close>)
  then have b2: "bound_to sp CODEX_SESSION (remains e (lk_snapshot lk = None)) w2"
    by (rule bound_remains) (use assms(3) in \<open>cases "lk_snapshot lk"; auto simp: grants_owner_def\<close>)
  have gb: "bound_to sp CODEX_SESSION (remains e (lk_snapshot lk = None)) (give_back ?ae (lk_lease lk) (lk_reservation lk) w2)"
    by (rule bound_give_back [OF assms(2) b2])
  have failed: "owner_verdict sp e (Stop Failed) x \<and> owner_verdict sp e (Stop (Returned (no_selection si y z d))) x"
    if "bound_to sp CODEX_SESSION (remains e l) x" for x y z d l
    using that owner_weaken [of sp CODEX_SESSION e x] by (auto simp: owner_verdict_def no_selection_def remains_def split: if_splits)
  have rt: "owner_verdict sp e (reload ?ae n b) x" if "bound_to sp CODEX_SESSION (remains e (lk_snapshot lk = None)) x" "lk_snapshot lk \<noteq> None" for x
    using that reload_owner(1) [OF assms(1)] by (simp add: remains_def)
  note inv = reload_owner(2) [OF assms(1) bound_others(1) [OF assms(2,6), of 5], of n b]
  note fin = finish_owner [OF assms(1-3) b2, of n b si]
  have sf: "owner_verdict sp e v x" if "sticky_finish se sp n b si f c lk (ps_map q) w2 = (v, x)" for q v x
    using that fin [of "ps_map q"] assms(5) by (simp add: sticky_finish_def should_persist_def)
  note gb5 = bound_others(1) [OF assms(2) gb, of 5]
  show ?thesis
  proof (cases "lk_invalidated lk")
    case True
    then show ?thesis using assms(7) inv by (auto simp: sticky_after_def Let_def)
  next
    case False
    then show ?thesis
      using assms(4,7) p sf failed [OF gb] failed [OF gb5] rt [OF gb5]
      by (cases pr) (auto simp: sticky_after_def Let_def split: option.splits if_splits)
  qed
qed

lemma owner_stop: "bound_to sp CODEX_SESSION {Some e} w \<Longrightarrow> r = Failed \<or> (\<exists>x y. r = Returned (no_selection si x y True))
    \<Longrightarrow> owner_verdict sp e (Stop r) w"
  by (auto simp: owner_verdict_def no_selection_def dest: owner_weaken)

lemma offer_db: "sw_db (snd (sticky_offer bs se sp suppress si existing w)) = sw_db w"
  by (auto simp: sticky_offer_def Let_def split: prod.split sum.split)

lemma locked_db: "sw_db (snd (sticky_locked se sp f c w)) = sw_db w"
  by (auto simp: sticky_locked_def split: prod.split sum.split)

lemma sticky_attempt_owner:
  assumes "sound_reload (se_attempt se)" "calm sp CODEX_SESSION se" "hard_request sp" "sp_legacy_existing sp \<in> {None, Some e}"
    and "bound_to sp CODEX_SESSION {Some e} w" "distinct (map row_id (si_accounts si))"
    and "sticky_attempt bs sp se n b si w = (v, w')"
  shows "owner_verdict sp e v w'"
proof (cases "sp_kind sp \<noteq> None \<and> se_lookup_fails se")
  case True
  then show ?thesis using assms(7) owner_stop [OF bound_others(1) [OF assms(2,5), of 7]] by (auto simp: sticky_attempt_def)
next
  case False
  have env: "sound_envs (ae_envs (se_attempt se))" using assms(1) by (simp add: sound_reload_def)
  obtain ex w1 where rd: "read_binding se sp w = (ex, w1)" by fastforce
  note hr = hard_read [OF assms(3,2,5,4) rd]
  obtain o1 w2 where off: "sticky_offer bs se sp b si ex (ae_others (se_attempt se) 0 w1) = (o1, w2)" by fastforce
  have b2: "bound_to sp CODEX_SESSION {Some e} w2"
    using bound_others(1) [OF assms(2) hr(2), of 0] bound_db [OF offer_db, of sp CODEX_SESSION "{Some e}" bs se sp b si ex] off by (metis snd_conv)
  note step = assms(7) [unfolded sticky_attempt_def if_not_P [OF False] rd off prod.case]
  show ?thesis
  proof (cases "\<exists>f. o1 = Inr (Inr f)")
    case no: False
    then show ?thesis using step owner_stop [OF b2, of _ si] by (auto split: sum.splits prod.splits)
  next
    case True
    then obtain f where f: "o1 = Inr (Inr f)" by blast
    note off = off [unfolded f hr(1)]
    note hf = hard_offers(1) [OF off assms(3)]
    obtain c1 w3 where ch: "sticky_choose se sp f w2 = (c1, w3)" by fastforce
    have b3: "bound_to sp CODEX_SESSION {Some e} w3" using hard_chosen(1) [OF ch hf] b2 by simp
    show ?thesis
    proof (cases c1)
      case (Inl x)
      then show ?thesis using step f ch owner_stop [OF b3, of _ si] by auto
    next
      case (Inr c)
      let ?w = "se_others se 0 (w3\<lparr>sw_salts := co_salts c\<rparr>)"
      have b4: "bound_to sp CODEX_SESSION {Some e} ?w" by (rule bound_others(2) [OF assms(2)]) (simp add: b3)
      obtain l1 w5 where lk: "sticky_locked se sp f c ?w = (l1, w5)" by fastforce
      have b5: "bound_to sp CODEX_SESSION {Some e} w5" using b4 bound_db [OF locked_db, of sp CODEX_SESSION "{Some e}" se sp f c ?w] lk by simp
      show ?thesis
      proof (cases l1)
        case l: (Inl x)
        then show ?thesis using step f ch Inr lk owner_stop [OF b5, of _ si] by auto
      next
        case l: (Inr k)
        have "grants_owner e k"
          by (rule sticky_locked_owner(1) [OF lk [unfolded l] env sticky_choose_alive [OF ch [unfolded Inr] env] assms(3) off assms(6)])
        then show ?thesis using step f ch Inr lk l sticky_after_owner [OF assms(1,2) _ hf hard_chosen(2) [OF ch hf Inr] b5] by simp
      qed
    qed
  qed
qed

lemma sticky_loop_owner:
  assumes "\<forall>se\<in>set ses. sound_reload (se_attempt se) \<and> calm sp CODEX_SESSION se" "hard_request sp" "sp_legacy_existing sp \<in> {None, Some e}"
    and "bound_to sp CODEX_SESSION {Some e} w" "distinct (map row_id (si_accounts si))"
    and "sticky_loop bs sp ses n b si w = (r, w')"
  shows "owner_verdict sp e (Stop r) w'"
  using assms
proof (induction bs sp ses n b si w rule: sticky_loop.induct)
  case (1 bs sp n b si w)
  then show ?case using owner_weaken by (auto simp: owner_verdict_def)
next
  case (2 bs sp se ses n b si w)
  obtain v w1 where v: "sticky_attempt bs sp se (Suc n) b si w = (v, w1)" by fastforce
  have sv: "owner_verdict sp e v w1" using sticky_attempt_owner [OF _ _ 2(3,4,5,6) v] 2(2) by simp
  show ?case
  proof (cases v)
    case (Stop x)
    then show ?thesis using 2(7) v sv by simp
  next
    case (Retry n' b' si')
    have "bound_to sp CODEX_SESSION {Some e} w1" "distinct (map row_id (si_accounts si'))"
      using sv Retry by (simp_all add: owner_verdict_def)
    then show ?thesis using 2(1) [OF v [symmetric] Retry _ 2(3,4)] 2(2,7) v Retry by simp
  qed
qed


section \<open>A binding written for a probe\<close>

lemma bound_write:
  assumes "sp_kind sp = Some kind" "sp_key sp \<noteq> []" "bound_to sp kind B w"
  shows "bound_to sp kind {mutation} (write_binding se sp mutation w)"
  using assms owner_delete [OF assms(2)] filter_wf upsert_wf
  by (cases mutation) (auto simp: bound_to_def write_binding_def on_sticky_def persist_sticky_mutation_def owner_upsert delete_entry_def)

lemma bound_restore:
  assumes "sp_kind sp = Some kind" "sp_key sp \<noteq> []" "calm sp kind se" "\<not> se_restore_fails se" "bound_to sp kind {mutation} w"
  shows "bound_to sp kind {b} (restore_binding se sp mutation (Known b) w)"
  using bound_others(2) [OF assms(3,5), of 3] assms(1,2,4) owner_restore restore_wf
  by (auto simp: bound_to_def restore_binding_def on_sticky_def restore_sticky_mutation_def Let_def)


section \<open>Witnesses\<close>

lemma w_sound: "sound_reload w_attempt" "distinct (map row_id (si_accounts w_inputs))"
  using w_envs_sound by (simp_all add: sound_reload_def w_attempt_def w_inputs_def new_inputs_def w_rows_def)

lemma w_calm: "calm w_session CODEX_SESSION w_sticky_env"
  by (simp add: calm_def w_attempt_def)

theorem unbound_selection_eligible_witness:
  "\<exists>o' w' row. run_unbound_selection_path w_bs w_request [w_attempt] w_inputs w_world = (Returned o', w')
     \<and> uo_snapshot o' = Some row \<and> row_status row \<notin> {REAUTH_REQUIRED, DEACTIVATED, PAUSED}"
proof -
  obtain o' w' where r: "run_unbound_selection_path w_bs w_request [w_attempt] w_inputs w_world = (Returned o', w')"
    "map_option row_id (uo_snapshot o') = Some ''a''" using w_unbound_run by metis
  then obtain row where "uo_snapshot o' = Some row" by auto
  with r unbound_selection_eligible [OF _ w_sound(2) r(1)] w_sound(1) show ?thesis by auto
qed

theorem sticky_selection_eligible_witness:
  "\<exists>o' w' row. run_sticky_selection_path w_bs w_session [w_sticky_env] w_inputs w_world = (Returned o', w')
     \<and> uo_snapshot o' = Some row \<and> row_status row \<notin> {REAUTH_REQUIRED, DEACTIVATED, PAUSED}"
proof -
  obtain o' w' where r: "run_sticky_selection_path w_bs w_session [w_sticky_env] w_inputs w_world = (Returned o', w')"
    "map_option row_id (uo_snapshot o') = Some ''a''" using w_sticky_run by metis
  then obtain row where "uo_snapshot o' = Some row" by auto
  with r sticky_selection_eligible [OF _ w_sound(2) r(1)] w_sound(1) show ?thesis by auto
qed

lemma w_session_bound: "hard_request w_session" "wf_sticky (db_sticky (sw_db w_world))" "sp_legacy_existing w_session = None"
  "sticky_owner (db_sticky (sw_db w_world)) (sp_key w_session) CODEX_SESSION = Some ''a''"
  by (simp_all add: hard_request_def w_session_def w_world_def w_db_def w_sticky_def wf_sticky_def at_key_def)


definition w_probe :: probe_reservation where
  "w_probe = \<lparr>reserved_account = ''b'', previous_last_selected_at = None, reserved_at = 1000, expected_runtime_version = 0\<rparr>"

definition w_grant :: locked where
  "w_grant = \<lparr>lk_states = [], lk_map = [], lk_reservation = Some w_probe, lk_invalidated = False, lk_lease = None,
     lk_snapshot = Some (w_acct\<lparr>row_id := ''b''\<rparr>), lk_error = None, lk_code = None\<rparr>"


end
