(* ===== verification/Selection_Caps.thy ===== *)
theory Selection_Caps
  imports Selection_Paths
begin

text \<open>
  The caps of the accounts under concurrent selections: every use of the runtime lock by
  \<open>run_unbound_selection_path\<close> and \<open>run_sticky_selection_path\<close> keeps the number of leases of each
  kind on each account within its cap. The contract is that of \<open>lease_tracking\<close>, so the
  statement for the whole of a path, with other requests between its steps, is an instance.
\<close>

definition within_caps :: "account_concurrency_caps \<Rightarrow> runtime_table \<Rightarrow> bool" where
  "within_caps caps m =
     (\<forall>k a. 0 < cap_of caps k \<longrightarrow> lease_count k (table_leases m a) \<le> cap_of caps k)"

lemma within_caps_fewer:
  assumes "within_caps caps m" "\<And>k a. lease_count k (table_leases m' a) \<le> lease_count k (table_leases m a)"
  shows "within_caps caps m'"
  using assms order_trans unfolding within_caps_def by blast

lemma within_caps_kept: "leases_kept m m' \<Longrightarrow> wf_table m \<Longrightarrow> within_caps caps m \<Longrightarrow> within_caps caps m'"
  by (simp add: leases_kept_def within_caps_def)

lemma acquire_within_caps:
  assumes "wf_table m" "uid \<notin> held m aid" "acquire_account_lease_locked t w uid aid k tok b m = (l, m')"
    and "within_caps caps m" "0 < cap_of caps k \<longrightarrow> lease_count k (table_leases m aid) < cap_of caps k"
  shows "within_caps caps m'"
proof -
  have fresh: "uid \<notin> fst ` set (table_leases m aid)" using assms(2) by (simp add: held_def)
  note q = acquire_locked_wf [OF assms(1) fresh assms(3)]
  show ?thesis using assms(4,5) q(2,5) count_after_acquire [OF fresh, of _ l] by (auto simp: within_caps_def)
qed

section \<open>The cap of the account that is picked\<close>

lemma reserve_picked_id:
  assumes "reserve_picked ae b a offers p = Inr p'" "account (pk_result p') = Some a'"
  shows "account_id a' = account_id a"
proof -
  have "account_id (state_in states a) = account_id a" for states
    by (auto simp: state_in_def find_Some_iff split: option.split)
  then show ?thesis using assms by (auto simp: reserve_picked_def Let_def split: prod.splits sum.splits)
qed

lemma pick_offered_id:
  assumes "pick_offered ae b states offers salts m = Inr p" "sound_envs (ae_envs ae)" "account (pk_result p) = Some a"
  shows "account_id a \<in> set (ids offers)"
proof -
  let ?r = "select_account_preferring_budget_safe (\<lambda>n. ae_envs ae (Suc n)) b offers salts"
  have env: "sound_envs (\<lambda>n. ae_envs ae (Suc n))" using assms(2) by (simp add: sound_envs_def)
  from budget_selection_sound [OF env, of b offers salts] obtain res where res: "out_result ?r = Inr res"
    "\<And>a. account res = Some a \<Longrightarrow> a \<in> set (out_states ?r)" and im: "list_all2 improves offers (out_states ?r)"
    by (auto simp: stage_sound_def)
  have io: "account_id x \<in> set (ids offers)" if "account res = Some x" for x
    using res(2) [OF that] improves_same_ids [OF im] by (metis (no_types, lifting) image_eqI set_map)
  obtain n ss where nd: "probing_result_requires_recovery_reservation (ae_envs ae 5) (out_states ?r) (account res) (b_strategy b)
      (b_traffic_class b) (out_salts ?r) = (n, ss)" by fastforce
  let ?p = "\<lparr>pk_result = res, pk_message = map_option selection_error_text (error_message res), pk_code = None,
      pk_states = update_states states (out_states ?r), pk_salts = ss, pk_reservation = None, pk_invalidated = False, pk_runtime = m\<rparr>"
  show ?thesis
  proof (cases "account res")
    case None
    then have "p = ?p" using assms(1) res(1) nd by (cases n) (simp_all add: pick_offered_def Let_def)
    then show ?thesis using None assms(3) by simp
  next
    case (Some x)
    obtain k where k: "(if k then reserve_picked ae b x (out_states ?r) ?p else Inr ?p) = Inr p"
      using assms(1) res(1) nd Some by (cases n) (simp_all add: pick_offered_def Let_def)
    have "account_id a = account_id x"
    proof (cases k)
      case True
      with k show ?thesis using reserve_picked_id [OF _ assms(3)] by (metis (full_types))
    next
      case False
      with k have "p = ?p" by simp
      then show ?thesis using Some assms(3) by simp
    qed
    then show ?thesis using io [OF Some] by simp
  qed
qed

lemma unbound_pick_id:
  assumes "unbound_pick bs ae ur suppress si states salts m = Inr p" "sound_envs (ae_envs ae)" "account (pk_result p) = Some a"
  obtains s where "s \<in> set (filter_states_for_account_caps states (ur_kind ur) (ur_caps ur) (ur_reserve ur))" "account_id s = account_id a"
proof -
  let ?c = "filter_states_for_account_caps states (ur_kind ur) (ur_caps ur) (ur_reserve ur)"
  let ?b = "unbound_budget ur (or_default (ur_costs ur) (build_routing_costs (si_planner si) states (ae_planner_now ae)))"
  obtain o1 ss where os: "offered_states (ae_envs ae 0) suppress (b_traffic_class ?b) (ur_kind ur) (ur_caps ur) (ur_reserve ur) states salts
      = (o1, ss)" by fastforce
  obtain offers where o: "o1 = Inr offers" using assms(1) os by (cases o1) (simp_all add: unbound_pick_def Let_def bind_def)
  have sub: "set offers \<subseteq> set ?c"
    using os o probe_filter_ids(1) [of "ae_envs ae 0" ?c] by (auto simp: offered_states_def Let_def split: if_splits)
  have "\<not> (offers = [] \<and> states \<noteq> [])"
    using assms(1,3) os o by (auto simp: unbound_pick_def Let_def bind_def refused_by_cap_def split: if_splits)
  then have "pick_offered ae ?b states offers ss m = Inr p"
    using assms(1) os o by (simp only: unbound_pick_def Let_def prod.case bind_def sum.case if_False)
  from pick_offered_id [OF this assms(2,3)] that sub show ?thesis by auto
qed

lemma cap_filter_below:
  assumes "s \<in> set (filter_states_for_account_caps states (Some k) caps reserve)" "state_matches m s" "wf_table m"
  shows "0 < cap_of caps k \<longrightarrow> lease_count k (table_leases m (account_id s)) < cap_of caps k"
proof -
  obtain rt where rt: "map_of m (account_id s) = Some rt" "inflight_response_creates s = rt_inflight_response_creates rt"
    "inflight_streams s = rt_inflight_streams rt" using assms(2) by (auto simp: state_matches_def)
  have "inflight k rt = lease_count k (table_leases m (account_id s))"
    using inflight_count [OF wf_table_lookup [OF assms(3) rt(1)]] rt(1) by (simp add: table_leases_def)
  moreover have "0 < cap_of caps k \<longrightarrow> inflight k rt < cap_of caps k"
    using assms(1) rt by (cases k) (auto simp: filter_states_for_account_caps_def Let_def cap_of_def inflight_def)
  ultimately show ?thesis by simp
qed

section \<open>The locked parts\<close>

lemma admit_within_caps:
  assumes "admit_picked ae ur amap p = (lk, m1)" "wf_table (pk_runtime p)" "\<And>a. ae_uid ae \<notin> held (pk_runtime p) a"
    and "within_caps (ur_caps ur) (pk_runtime p)"
    and "\<And>a r k. account (pk_result p) = Some a \<Longrightarrow> map_of amap (account_id a) = Some r \<Longrightarrow> ur_kind ur = Some k \<Longrightarrow>
      0 < cap_of (ur_caps ur) k \<longrightarrow> lease_count k (table_leases (pk_runtime p) (row_id r)) < cap_of (ur_caps ur) k"
  shows "within_caps (ur_caps ur) m1"
proof -
  let ?m = "synced_runtime ae amap p"
  have k: "leases_kept (pk_runtime p) ?m" unfolding synced_runtime_def by (rule sync_selected_kept)
  note wm = within_caps_kept [OF k assms(2,4)] kept_held [OF k assms(2)]
  have tl: "table_leases ?m = table_leases (pk_runtime p)" using k assms(2) by (simp add: leases_kept_def)
  show ?thesis
  proof (cases "\<exists>a r k. account (pk_result p) = Some a \<and> map_of amap (account_id a) = Some r \<and> ur_kind ur = Some k")
    case True
    then obtain a r kd where a: "account (pk_result p) = Some a" "map_of amap (account_id a) = Some r" "ur_kind ur = Some kd" by blast
    obtain l m2 where q: "acquire_account_lease_locked (ae_lease_monotonic ae) (ae_lease_wall ae) (ae_uid ae) (row_id r) kd
        (ur_tokens ur) (\<not> probe_selected p r) ?m = (l, m2)" by fastforce
    have "ae_uid ae \<notin> held ?m (row_id r)" using wm(2) assms(3) by simp
    from acquire_within_caps [OF conjunct1 [OF wm(2)] this q wm(1)] assms(5) [OF a] tl
    show ?thesis using assms(1) a q by (auto simp: admit_picked_def Let_def)
  next
    case False
    then show ?thesis using assms(1) wm(1) by (auto simp: admit_picked_def Let_def split: option.splits)
  qed
qed

lemma unbound_locked_within_caps:
  assumes "unbound_locked bs ae ur suppress si w = (r, w')" "wf_table (sw_runtime w)" "\<And>a. ae_uid ae \<notin> held (sw_runtime w) a"
    and "sound_envs (ae_envs ae)" "within_caps (ur_caps ur) (sw_runtime w)"
  shows "within_caps (ur_caps ur) (sw_runtime w')"
proof -
  obtain states amap m where pr: "prepare_sticky_selection_states (bs_recovery bs) (bs_leases bs) (ae_monotonic ae)
      (ae_build_clock ae) si (ur_required ur) (sw_runtime w) = (states, amap, m)" by (metis prod_cases3)
  note ps = prepare_spec [OF pr assms(2)]
  have wm: "within_caps (ur_caps ur) m" by (rule within_caps_fewer [OF assms(5) ps(3)])
  show ?thesis
  proof (cases "unbound_pick bs ae ur suppress si states (sw_salts w) m")
    case (Inl e)
    then show ?thesis using assms(1) wm by (auto simp: unbound_locked_def pr)
  next
    case (Inr p)
    note kp = unbound_pick_kept [OF Inr]
    note kh = kept_held [OF kp ps(1)]
    have tl: "table_leases (pk_runtime p) = table_leases m" using kp ps(1) by (simp add: leases_kept_def)
    obtain lk m1 where ad: "admit_picked ae ur amap p = (lk, m1)" by fastforce
    have fresh: "ae_uid ae \<notin> held (pk_runtime p) a" for a using kh ps(2) [of a] assms(3) [of a] by (auto simp: held_def)
    have below: "0 < cap_of (ur_caps ur) k \<longrightarrow> lease_count k (table_leases (pk_runtime p) (row_id x)) < cap_of (ur_caps ur) k"
      if a: "account (pk_result p) = Some a" "map_of amap (account_id a) = Some x" "ur_kind ur = Some k" for a x k
    proof -
      obtain s where s: "s \<in> set (filter_states_for_account_caps states (ur_kind ur) (ur_caps ur) (ur_reserve ur))" "account_id s = account_id a"
        using unbound_pick_id [OF Inr assms(4) a(1)] .
      have "s \<in> set states" using s(1) cap_filter_ids(1) by blast
      then show ?thesis using cap_filter_below [OF s(1) [unfolded a(3)] _ ps(1)] ps(5) s(2) ps(6) [OF a(2)] tl by auto
    qed
    have "within_caps (ur_caps ur) m1"
      by (rule admit_within_caps [OF ad conjunct1 [OF kh] fresh within_caps_kept [OF kp ps(1) wm] below])
    then show ?thesis using assms(1) within_caps_kept [OF kp ps(1) wm] by (auto simp: unbound_locked_def pr Inr ad split: if_splits)
  qed
qed

lemma sticky_lease_within_caps:
  assumes "wf_table (pk_runtime p)" "\<And>a. ae_uid ae \<notin> held (pk_runtime p) a" "within_caps (ur_caps ur) (pk_runtime p)"
  shows "within_caps (ur_caps ur) (ad_runtime (sticky_lease ae ur amap p))"
proof (cases "\<exists>a r k. account (pk_result p) = Some a \<and> map_of amap (account_id a) = Some r \<and> ur_kind ur = Some k")
  case True
  then obtain a r k where a: "account (pk_result p) = Some a" "map_of amap (account_id a) = Some r" "ur_kind ur = Some k" by blast
  obtain rt m where sd: "runtime_setdefault (row_id r) (pk_runtime p) = (rt, m)" by fastforce
  note d = setdefault_wf [OF assms(1) sd]
  obtain ok where al: "account_lease_allowed_locked (row_id r) k (ur_caps ur) (ur_reserve ur) (pk_runtime p) = (ok, m)"
      "ok \<Longrightarrow> cap_of (ur_caps ur) k \<le> 0 \<or> inflight k rt < cap_of (ur_caps ur) k"
    by (rule lease_allowed_below_cap [OF sd, where k = k and caps = "ur_caps ur" and res = "ur_reserve ur"]) blast
  have km: "leases_kept (pk_runtime p) m" by (rule leases_kept_setdefault(1) [OF sd])
  note wm = within_caps_kept [OF km assms(1,3)] kept_held [OF km assms(1)]
  obtain l m1 where q: "acquire_account_lease_locked (ae_lease_monotonic ae) (ae_lease_wall ae) (ae_uid ae) (row_id r) k
      (ur_tokens ur) (\<not> probe_selected p r) m = (l, m1)" by fastforce
  have fresh: "ae_uid ae \<notin> held m (row_id r)" using wm(2) assms(2) by simp
  have "inflight k rt = lease_count k (table_leases m (row_id r))" using inflight_count [OF d(3)] d(4,5) by simp
  then have "ok \<Longrightarrow> within_caps (ur_caps ur) m1"
    using acquire_within_caps [OF conjunct1 [OF wm(2)] fresh q wm(1)] al(2) by fastforce
  then show ?thesis using a al(1) q wm(1) by (auto simp: sticky_lease_def Let_def)
next
  case False
  then show ?thesis using assms(3) by (auto simp: sticky_lease_def Let_def split: option.splits)
qed

lemma sticky_locked_within_caps:
  assumes "sticky_locked se sp f c w = (r, w')" "wf_table (sw_runtime w)" "\<And>a. ae_uid (se_attempt se) \<notin> held (sw_runtime w) a"
    and "within_caps (ur_caps (sp_base sp)) (sw_runtime w)"
  shows "within_caps (ur_caps (sp_base sp)) (sw_runtime w')"
proof (cases "sticky_reserve se sp f c w")
  case (Inl e)
  then show ?thesis using assms(1,4) by (auto simp: sticky_locked_def)
next
  case (Inr p)
  let ?caps = "ur_caps (sp_base sp)"
  note kp = sticky_reserve_kept [OF Inr]
  note kh = kept_held [OF kp assms(2)]
  note wp = within_caps_kept [OF kp assms(2,4)]
  have fresh: "ae_uid (se_attempt se) \<notin> held (pk_runtime p) a" for a using kh assms(3) by simp
  let ?d = "sticky_lease (se_attempt se) (sp_base sp) (of_map f) p"
  have wd: "within_caps ?caps (ad_runtime ?d)" by (rule sticky_lease_within_caps [OF conjunct1 [OF kh] fresh wp])
  have wfd: "wf_table (ad_runtime ?d)"
    using sticky_lease_leases [OF conjunct1 [OF kh] fresh, of "of_map f" "sp_base sp"] by (simp add: admission_leases_def)
  obtain lk m1 where ad: "sticky_admit (se_attempt se) (sp_base sp) (of_map f) p = (lk, m1)" by fastforce
  have "leases_kept (ad_runtime ?d) m1"
    using ad leases_kept_trans [OF release_probe_kept sync_selected_kept] sync_selected_kept
    by (auto simp: sticky_admit_def Let_def split: if_splits option.splits)
  from within_caps_kept [OF this wfd wd] wp assms(1) show ?thesis by (auto simp: sticky_locked_def Inr ad split: if_splits)
qed

section \<open>The whole path\<close>

text \<open>
  The leases of the selection and the caps together. The other requests may do what the contract
  of the leases allows and must themselves stay within the caps, as this selection does.
\<close>

definition capped :: "account_concurrency_caps \<Rightarrow> string set \<Rightarrow> string set \<Rightarrow> selection_world \<Rightarrow> account_lease option \<Rightarrow> selection_world \<Rightarrow> bool"
  where "capped caps V W w0 lease w = (owns V W w0 lease w \<and> within_caps caps (sw_runtime w))"

definition keeps_caps :: "account_concurrency_caps \<Rightarrow> (selection_world \<Rightarrow> selection_world) \<Rightarrow> bool" where
  "keeps_caps caps f =
     (\<forall>w. wf_table (sw_runtime w) \<and> within_caps caps (sw_runtime w) \<longrightarrow> within_caps caps (sw_runtime (f w)))"

definition cap_env :: "account_concurrency_caps \<Rightarrow> string set \<Rightarrow> string set \<Rightarrow> attempt_env \<Rightarrow> bool" where
  "cap_env caps V W ae = (own_ids V W ae \<and> sound_envs (ae_envs ae) \<and> (\<forall>i. keeps_caps caps (ae_others ae i)))"

definition cap_sticky_env :: "account_concurrency_caps \<Rightarrow> string set \<Rightarrow> string set \<Rightarrow> sticky_env \<Rightarrow> bool" where
  "cap_sticky_env caps V W se =
     (own_sticky_ids V W se \<and> cap_env caps V W (se_attempt se) \<and> (\<forall>i. keeps_caps caps (se_others se i)))"

lemma owns_wf: "owns V W w0 lease w \<Longrightarrow> wf_table (sw_runtime w)"
  by (simp add: owns_def)

interpretation capped: lease_tracking "capped caps V W w0" "cap_env caps V W" for caps V W w0
proof
  fix ae lease w i
  assume a: "cap_env caps V W ae" "capped caps V W w0 lease w"
  then show "capped caps V W w0 lease (ae_others ae i w)"
    using owned.others [of V W ae w0 lease w i] owns_wf by (auto simp: cap_env_def capped_def keeps_caps_def)
next
  fix w w' :: selection_world and lease
  assume "leases_kept (sw_runtime w) (sw_runtime w')" "capped caps V W w0 lease w"
  then show "capped caps V W w0 lease w'" using owns_kept within_caps_kept owns_wf by (auto simp: capped_def)
next
  fix lease w
  assume "capped caps V W w0 lease w"
  then show "capped caps V W w0 None (release_lease_step lease w)"
    using owns_release owns_wf within_caps_fewer [OF _ release_spec(2)] by (auto simp: capped_def release_lease_step_def)
qed

lemma capped_fresh:
  assumes "own_ids V W ae" "owns V W w0 None w"
  shows "wf_table (sw_runtime w)" "\<And>a. ae_uid ae \<notin> held (sw_runtime w) a"
  using assms by (auto simp: own_ids_def owns_def only_lease_def)

lemma capped_lock:
  "owned.lock_tracks V W w0 r w \<Longrightarrow> within_caps caps (sw_runtime w) \<Longrightarrow> capped.lock_tracks caps V W w0 r w"
  by (auto simp: owned.lock_tracks_def capped.lock_tracks_def capped_def split: sum.split)

interpretation capped_unbound: unbound_tracking "capped (ur_caps ur) V W w0" "cap_env (ur_caps ur) V W" bs ur for V W w0 bs ur
proof
  fix ae w b si r w'
  assume a: "cap_env (ur_caps ur) V W ae" "capped (ur_caps ur) V W w0 None w" "unbound_locked bs ae ur b si w = (r, w')"
  then have own: "own_ids V W ae" "owns V W w0 None w" by (simp_all add: cap_env_def capped_def)
  have "within_caps (ur_caps ur) (sw_runtime w')"
    by (rule unbound_locked_within_caps [OF a(3) capped_fresh [OF own]]) (use a in \<open>simp_all add: cap_env_def capped_def\<close>)
  then show "capped.lock_tracks (ur_caps ur) V W w0 r w'" by (rule capped_lock [OF unbound_locked_owned [OF own a(3)]])
qed

interpretation capped_sticky: sticky_tracking "capped (ur_caps (sp_base sp)) V W w0" "cap_env (ur_caps (sp_base sp)) V W"
    "cap_sticky_env (ur_caps (sp_base sp)) V W" bs sp for V W w0 bs sp
proof
  fix se assume "cap_sticky_env (ur_caps (sp_base sp)) V W se"
  then show "cap_env (ur_caps (sp_base sp)) V W (se_attempt se)" by (simp add: cap_sticky_env_def)
next
  fix se lease w i
  assume "cap_sticky_env (ur_caps (sp_base sp)) V W se" "capped (ur_caps (sp_base sp)) V W w0 lease w"
  then show "capped (ur_caps (sp_base sp)) V W w0 lease (se_others se i w)"
    using owned_sticky.sticky_others [of V W se w0 lease w i] owns_wf by (auto simp: cap_sticky_env_def capped_def keeps_caps_def)
next
  fix se w b si existing x w'
  assume c: "capped (ur_caps (sp_base sp)) V W w0 None w" and off: "sticky_offer bs se sp b si existing w = (x, w')"
  have "within_caps (ur_caps (sp_base sp)) (sw_runtime w')"
    by (rule within_caps_fewer [of _ "sw_runtime w"]) (use c offer_leases(3) [OF off] owns_wf in \<open>auto simp: capped_def\<close>)
  then show "capped (ur_caps (sp_base sp)) V W w0 None w'" using owns_offer [OF off] c by (simp add: capped_def)
next
  fix se w f c r w'
  assume a: "cap_sticky_env (ur_caps (sp_base sp)) V W se" "capped (ur_caps (sp_base sp)) V W w0 None w" "sticky_locked se sp f c w = (r, w')"
  then have own: "own_ids V W (se_attempt se)" "owns V W w0 None w" by (simp_all add: cap_sticky_env_def cap_env_def capped_def)
  have "within_caps (ur_caps (sp_base sp)) (sw_runtime w')"
    by (rule sticky_locked_within_caps [OF a(3) capped_fresh [OF own]]) (use a(2) in \<open>simp add: capped_def\<close>)
  then show "capped.lock_tracks (ur_caps (sp_base sp)) V W w0 r w'" by (rule capped_lock [OF sticky_locked_owned [OF own a(3)]])
qed

text \<open>
  C11. Selections keep every account within its caps: if the leases of each kind on each account are
  within the cap before, and the other requests between the steps keep them so, they are after a
  selection without affinity, however it ends.
\<close>

theorem unbound_selection_within_caps:
  assumes "\<forall>ae\<in>set aes. cap_env (ur_caps ur) V W ae" and "wf_table (sw_runtime w)"
    and "\<forall>u\<in>V. \<forall>a. u \<notin> held (sw_runtime w) a" and "within_caps (ur_caps ur) (sw_runtime w)"
    and "run_unbound_selection_path bs ur aes si w = (r, w')"
  shows "within_caps (ur_caps ur) (sw_runtime w')"
proof -
  have "capped (ur_caps ur) V W w None w" using assms(2-4) by (simp add: capped_def owns_def only_lease_def)
  from capped_unbound.loop [OF assms(5) [unfolded run_unbound_selection_path_def] assms(1) this]
  show ?thesis by (auto simp: capped.run_tracks_def capped_def split: run.splits)
qed

text \<open>
  C10. Selections under affinity keep every account within its caps: the owner of a session may be
  offered above its cap, but the lease is taken only after the cap was checked again under the
  lock. Other requests between the steps must keep the caps, as this one does.
\<close>

theorem sticky_selection_within_caps:
  assumes "\<forall>se\<in>set ses. cap_sticky_env (ur_caps (sp_base sp)) V W se" and "wf_table (sw_runtime w)"
    and "\<forall>u\<in>V. \<forall>a. u \<notin> held (sw_runtime w) a" and "within_caps (ur_caps (sp_base sp)) (sw_runtime w)"
    and "run_sticky_selection_path bs sp ses si w = (r, w')"
  shows "within_caps (ur_caps (sp_base sp)) (sw_runtime w')"
proof -
  have "capped (ur_caps (sp_base sp)) V W w None w" using assms(2-4) by (simp add: capped_def owns_def only_lease_def)
  from capped_sticky.sticky_looped [OF assms(5) [unfolded run_sticky_selection_path_def] assms(1) this]
  show ?thesis by (auto simp: capped.run_tracks_def capped_def split: run.splits)
qed

section \<open>Witnesses\<close>

lemma w_cap_env: "cap_env caps {''l1''} {} w_attempt"
  using w_own w_envs_sound by (simp add: cap_env_def keeps_caps_def) (simp add: w_attempt_def)

lemma w_within: "within_caps caps []"
  by (simp add: within_caps_def table_leases_def)

theorem unbound_selection_within_caps_witness:
  "\<exists>o' w'. run_unbound_selection_path w_bs w_request [w_attempt] w_inputs w_world = (Returned o', w')
     \<and> uo_lease o' \<noteq> None \<and> within_caps (ur_caps w_request) (sw_runtime w')"
proof -
  obtain o' w' where r: "run_unbound_selection_path w_bs w_request [w_attempt] w_inputs w_world = (Returned o', w')"
    "map_option lease_id (uo_lease o') = Some ''l1''" using w_unbound_run by metis
  have "within_caps (ur_caps w_request) (sw_runtime w')"
    by (rule unbound_selection_within_caps [OF _ _ _ _ r(1), of "{''l1''}" "{}"]) (simp_all add: w_cap_env w_within)
  with r show ?thesis by auto
qed

theorem sticky_selection_within_caps_witness:
  "\<exists>o' w'. run_sticky_selection_path w_bs w_session [w_sticky_env] w_inputs w_world = (Returned o', w')
     \<and> uo_lease o' \<noteq> None \<and> within_caps (ur_caps (sp_base w_session)) (sw_runtime w')"
proof -
  obtain o' w' where r: "run_sticky_selection_path w_bs w_session [w_sticky_env] w_inputs w_world = (Returned o', w')"
    "map_option lease_id (uo_lease o') = Some ''l1''" using w_sticky_run by metis
  have "within_caps (ur_caps (sp_base w_session)) (sw_runtime w')"
    by (rule sticky_selection_within_caps [OF _ _ _ _ r(1), of "{''l1''}" "{}"])
      (simp_all add: cap_sticky_env_def w_own_sticky w_cap_env w_within keeps_caps_def)
  with r show ?thesis by auto
qed

end
