(* ===== verification/Model_Registry.thy ===== *)
theory Model_Registry
  imports Plans "HOL-Library.AList"
begin

text \<open>
  \<open>app/core/openai/model_registry.py\<close>: which models exist, which plans and accounts serve them at
  which service tier, and the refresh that rebuilds this from the catalogs of the accounts. A
  dictionary is an association list, a set of strings a list read by membership. An index
  \<open>slug -> set\<close> or \<open>slug -> tier -> set\<close> that the code fills with \<open>setdefault(...).add(...)\<close> is the
  list of its keys with their sets, the nested one keyed by slug and tier. Of a model the fields
  are kept that the registry reads; of \<open>raw\<close> the tier fields, as JSON values. The printer
  \<open>json.dumps\<close>, which only names tier objects without a name, is an argument. The store of the
  persisted snapshot is left out: \<open>import_state\<close> gets a decoded state.
\<close>

section \<open>Models\<close>

datatype json = JNull | JBool bool | JNum real | JStr string | JList "json list" | JObj "(string \<times> json) list"

record upstream_model =
  um_slug :: string
  um_websockets :: bool
  um_in_api :: bool
  um_plans :: "string list"
  um_raw :: "(string \<times> json) list"

definition BOOTSTRAP_AVAILABLE_IN_PLANS :: "string list" where
  "BOOTSTRAP_AVAILABLE_IN_PLANS =
     [''plus'', ''pro'', ''prolite'', ''team'', ''business'', ''enterprise'', ''edu'', ''education'', ''k12'', ''go'', ''hc'',
      ''finserv'', ''free'', ''free_workspace'', ''quorum'', ''self_serve_business_usage_based'',
      ''enterprise_cbp_usage_based'']"

definition BOOTSTRAP_CORE_AVAILABLE_IN_PLANS :: "string list" where
  "BOOTSTRAP_CORE_AVAILABLE_IN_PLANS =
     filter (\<lambda>p. p \<notin> {''free'', ''free_workspace'', ''k12''}) BOOTSTRAP_AVAILABLE_IN_PLANS"

definition BOOTSTRAP_GPT56_AVAILABLE_IN_PLANS :: "string list" where
  "BOOTSTRAP_GPT56_AVAILABLE_IN_PLANS =
     BOOTSTRAP_AVAILABLE_IN_PLANS @ [''edu_plus'', ''edu_pro'', ''enterprise_cbp_automation'', ''sci'']"

definition bootstrap_model :: "string \<Rightarrow> string list \<Rightarrow> (string \<times> json) list \<Rightarrow> upstream_model" where
  "bootstrap_model slug plans raw =
     \<lparr>um_slug = slug, um_websockets = True, um_in_api = True, um_plans = plans, um_raw = raw\<rparr>"

definition gpt56_raw :: "(string \<times> json) list" where
  "gpt56_raw =
     [(''default_service_tier'', JNull),
      (''service_tiers'', JList [JObj [(''id'', JStr ''priority''), (''name'', JStr ''Fast''),
                                       (''description'', JStr ''1.5x speed, increased usage'')]]),
      (''additional_speed_tiers'', JList [JStr ''fast''])]"

definition BOOTSTRAP_STATIC_MODELS :: "upstream_model list" where
  "BOOTSTRAP_STATIC_MODELS =
     [bootstrap_model ''gpt-5.6-sol'' BOOTSTRAP_GPT56_AVAILABLE_IN_PLANS gpt56_raw,
      bootstrap_model ''gpt-5.6-terra'' BOOTSTRAP_GPT56_AVAILABLE_IN_PLANS gpt56_raw,
      bootstrap_model ''gpt-5.6-luna'' BOOTSTRAP_GPT56_AVAILABLE_IN_PLANS gpt56_raw,
      bootstrap_model ''gpt-5.5'' BOOTSTRAP_AVAILABLE_IN_PLANS [],
      bootstrap_model ''gpt-5.4'' BOOTSTRAP_CORE_AVAILABLE_IN_PLANS [],
      bootstrap_model ''gpt-5.4-mini'' BOOTSTRAP_AVAILABLE_IN_PLANS [],
      bootstrap_model ''gpt-5.3-codex'' BOOTSTRAP_CORE_AVAILABLE_IN_PLANS [],
      bootstrap_model ''gpt-5.3-codex-spark'' BOOTSTRAP_AVAILABLE_IN_PLANS [],
      bootstrap_model ''gpt-5.2'' BOOTSTRAP_AVAILABLE_IN_PLANS [],
      bootstrap_model ''codex-auto-review'' BOOTSTRAP_CORE_AVAILABLE_IN_PLANS []]"

definition bootstrap_models :: "(string \<times> upstream_model) list" where
  "bootstrap_models = map (\<lambda>m. (um_slug m, m)) BOOTSTRAP_STATIC_MODELS"

section \<open>Service tiers\<close>

definition SERVICE_TIER_OBJECT_KEY_FIELDS :: "string list" where
  "SERVICE_TIER_OBJECT_KEY_FIELDS = [''slug'', ''name'', ''id'', ''tier'']"

definition canonical_service_tier_value :: "string \<Rightarrow> string" where
  "canonical_service_tier_value v =
     (let c = py_lower (py_strip v) in if c \<in> {''fast'', ''priority''} then ''priority'' else c)"

definition json_items :: "json option \<Rightarrow> json list" where
  "json_items v = (case v of Some (JList xs) \<Rightarrow> xs | _ \<Rightarrow> [])"

definition nonempty_string :: "json option \<Rightarrow> string option" where
  "nonempty_string v = (case v of Some (JStr s) \<Rightarrow> (if s \<noteq> [] then Some s else None) | _ \<Rightarrow> None)"

text \<open>Keep the first item of every identity.\<close>

fun first_by :: "('a \<Rightarrow> string) \<Rightarrow> string list \<Rightarrow> 'a list \<Rightarrow> 'a list" where
  "first_by f seen [] = []"
| "first_by f seen (x # xs) =
     (if f x \<in> set seen then first_by f seen xs else x # first_by f (f x # seen) xs)"

definition union_string_tiers :: "json option \<Rightarrow> json option \<Rightarrow> json list" where
  "union_string_tiers primary secondary =
     map JStr (first_by canonical_service_tier_value []
       (List.map_filter (\<lambda>j. case j of JStr s \<Rightarrow> Some s | _ \<Rightarrow> None) (json_items primary @ json_items secondary)))"

definition tier_names :: "json \<Rightarrow> string list" where
  "tier_names entry =
     (case entry of JObj fs \<Rightarrow> List.map_filter (\<lambda>k. nonempty_string (map_of fs k)) SERVICE_TIER_OBJECT_KEY_FIELDS
      | _ \<Rightarrow> [])"

definition service_tier_identity :: "(json \<Rightarrow> string) \<Rightarrow> json \<Rightarrow> string" where
  "service_tier_identity dumps entry =
     (let identities = filter (\<lambda>c. c \<noteq> []) (map canonical_service_tier_value (tier_names entry))
      in if ''priority'' \<in> set identities then ''tier:priority''
         else if identities \<noteq> [] then ''tier:'' @ hd identities
         else dumps entry)"

definition union_object_tiers :: "(json \<Rightarrow> string) \<Rightarrow> json option \<Rightarrow> json option \<Rightarrow> json list" where
  "union_object_tiers dumps primary secondary =
     first_by (service_tier_identity dumps) [] (json_items primary @ json_items secondary)"

definition merge_default_service_tier :: "json option \<Rightarrow> json option \<Rightarrow> string option" where
  "merge_default_service_tier primary secondary =
     (case nonempty_string primary of
        None \<Rightarrow> nonempty_string secondary
      | Some p \<Rightarrow>
          (case nonempty_string secondary of
             None \<Rightarrow> Some p
           | Some s \<Rightarrow>
               (if p = s then Some p
                else if p \<in> {''auto'', ''default''} \<and> s \<notin> {''auto'', ''default''} then Some s
                else Some p)))"

definition model_service_tier_keys :: "upstream_model \<Rightarrow> string list" where
  "model_service_tier_keys m =
     (let raw = um_raw m;
          values = List.map_filter (\<lambda>j. nonempty_string (Some j)) (json_items (map_of raw ''additional_speed_tiers''))
            @ concat (map tier_names (json_items (map_of raw ''service_tiers'')))
            @ (case nonempty_string (map_of raw ''default_service_tier'') of None \<Rightarrow> [] | Some s \<Rightarrow> [s])
      in remdups (concat (map (\<lambda>v. let c = canonical_service_tier_value v in if c \<noteq> [] then [v, c] else [v]) values)))"

text \<open>The incoming model with the tier fields of both.\<close>

definition merge_service_tier_metadata :: "(json \<Rightarrow> string) \<Rightarrow> upstream_model \<Rightarrow> upstream_model \<Rightarrow> upstream_model" where
  "merge_service_tier_metadata dumps existing incoming =
     (let old = um_raw existing; new = um_raw incoming;
          speed = union_string_tiers (map_of new ''additional_speed_tiers'') (map_of old ''additional_speed_tiers'');
          raw1 = (if speed \<noteq> [] then AList.update ''additional_speed_tiers'' (JList speed) new else new);
          tiers = union_object_tiers dumps (map_of new ''service_tiers'') (map_of old ''service_tiers'');
          raw2 = (if tiers \<noteq> [] then AList.update ''service_tiers'' (JList tiers) raw1 else raw1);
          raw3 = (case merge_default_service_tier (map_of new ''default_service_tier'') (map_of old ''default_service_tier'') of
                    None \<Rightarrow> raw2 | Some d \<Rightarrow> AList.update ''default_service_tier'' (JStr d) raw2)
      in incoming\<lparr>um_raw := raw3\<rparr>)"

section \<open>The registry\<close>

type_synonym 'k index = "('k \<times> string list) list"

definition members :: "'k index \<Rightarrow> 'k \<Rightarrow> string list" where
  "members ix k = or_default (map_of ix k) []"

text \<open>\<open>setdefault(k, set()).add(v)\<close>, once and for a list of pairs.\<close>

definition index_add :: "'k \<times> string \<Rightarrow> 'k index \<Rightarrow> 'k index" where
  "index_add kv ix = AList.update (fst kv) (List.insert (snd kv) (members ix (fst kv))) ix"

definition index_add_all :: "('k \<times> string) list \<Rightarrow> 'k index \<Rightarrow> 'k index" where
  "index_add_all kvs ix = fold index_add kvs ix"

record registry_snapshot =
  rs_models :: "(string \<times> upstream_model) list"
  rs_model_plans :: "string index"
  rs_plan_models :: "string index"
  rs_tier_plans :: "(string \<times> string) index"
  rs_tier_accounts :: "(string \<times> string) index"
  rs_account_plans :: "(string \<times> string) list"
  rs_fetched_at :: real
  rs_model_accounts :: "string index"
  rs_authoritative :: bool
  rs_floor_active :: bool
  rs_suppressed :: "string list"

record model_registry =
  mr_ttl :: real
  mr_snapshot :: "registry_snapshot option"
  mr_metadata :: "(string \<times> upstream_model) list option"
  mr_hash :: "string option"

definition new_model_registry :: "real \<Rightarrow> model_registry result" where
  "new_model_registry ttl_seconds =
     (if ttl_seconds \<le> 0 then Inl ValueError
      else Inr \<lparr>mr_ttl = ttl_seconds, mr_snapshot = None, mr_metadata = None, mr_hash = None\<rparr>)"

record registry_export =
  ex_snapshot :: "registry_snapshot option"
  ex_metadata :: "(string \<times> upstream_model) list option"

definition export_state :: "model_registry \<Rightarrow> registry_export" where
  "export_state reg = \<lparr>ex_snapshot = mr_snapshot reg, ex_metadata = mr_metadata reg\<rparr>"

definition import_state :: "registry_export \<Rightarrow> string \<Rightarrow> model_registry \<Rightarrow> model_registry" where
  "import_state st content_hash reg =
     reg\<lparr>mr_snapshot := ex_snapshot st, mr_metadata := ex_metadata st, mr_hash := Some content_hash\<rparr>"

definition note_applied_content_hash :: "string option \<Rightarrow> model_registry \<Rightarrow> model_registry" where
  "note_applied_content_hash content_hash reg = reg\<lparr>mr_hash := content_hash\<rparr>"

definition norm_slug :: "string \<Rightarrow> string" where
  "norm_slug slug = py_lower (py_strip slug)"

definition lookup_slug :: "(string \<times> 'a) list \<Rightarrow> string \<Rightarrow> 'a option" where
  "lookup_slug d slug = (case map_of d slug of Some v \<Rightarrow> Some v | None \<Rightarrow> map_of d (norm_slug slug))"

definition get_models_with_fallback :: "model_registry \<Rightarrow> (string \<times> upstream_model) list" where
  "get_models_with_fallback reg =
     (case mr_snapshot reg of
        None \<Rightarrow> bootstrap_models
      | Some sn \<Rightarrow>
          (if rs_floor_active sn
           then fold (\<lambda>(k, v). AList.update k v) (rs_models sn)
                  (filter (\<lambda>(k, v). k \<notin> set (rs_suppressed sn)) bootstrap_models)
           else rs_models sn))"

definition get_models_for_metadata :: "model_registry \<Rightarrow> (string \<times> upstream_model) list" where
  "get_models_for_metadata reg = or_default (mr_metadata reg) bootstrap_models"

definition plan_types_for_model :: "model_registry \<Rightarrow> string \<Rightarrow> string list option" where
  "plan_types_for_model reg slug =
     (let boot = lookup_slug bootstrap_models slug
      in case mr_snapshot reg of
           None \<Rightarrow> map_option um_plans boot
         | Some sn \<Rightarrow>
             (case map_of (rs_model_plans sn) slug of
                Some ps \<Rightarrow> Some ps
              | None \<Rightarrow>
                  (case map_of (rs_model_plans sn) (norm_slug slug) of
                     Some ps \<Rightarrow> Some ps
                   | None \<Rightarrow>
                       (if rs_floor_active sn \<and> boot \<noteq> None \<and> norm_slug slug \<notin> set (rs_suppressed sn)
                        then map_option um_plans boot else Some []))))"

definition is_suppressed_model :: "model_registry \<Rightarrow> string \<Rightarrow> bool" where
  "is_suppressed_model reg slug =
     (case mr_snapshot reg of None \<Rightarrow> False | Some sn \<Rightarrow> norm_slug slug \<in> set (rs_suppressed sn))"

text \<open>The tiers of a model in a nested index, under the given or else the normalised slug.\<close>

definition tiers_of :: "(string \<times> string) index \<Rightarrow> string \<Rightarrow> (string \<times> string list) list" where
  "tiers_of ix slug =
     (let tiers = (\<lambda>s. map (\<lambda>((k, t), vs). (t, vs)) (filter (\<lambda>((k, t), vs). k = s) ix))
      in if tiers slug \<noteq> [] then tiers slug else tiers (norm_slug slug))"

definition usable_tier :: "string \<Rightarrow> string \<Rightarrow> bool" where
  "usable_tier slug service_tier = (norm_slug slug \<noteq> [] \<and> canonical_service_tier_value service_tier \<noteq> [])"

definition plan_types_for_model_service_tier :: "model_registry \<Rightarrow> string \<Rightarrow> string option \<Rightarrow> string list option" where
  "plan_types_for_model_service_tier reg slug service_tier =
     (case service_tier of
        None \<Rightarrow> plan_types_for_model reg slug
      | Some tier \<Rightarrow>
          (if \<not> usable_tier slug tier then plan_types_for_model reg slug
           else case mr_snapshot reg of
             None \<Rightarrow> plan_types_for_model reg slug
           | Some sn \<Rightarrow>
               (if \<not> rs_authoritative sn \<and> rs_account_plans sn \<noteq> [] then plan_types_for_model reg slug
                else
                  let tiers = tiers_of (rs_tier_plans sn) slug
                  in if tiers = [] then (if rs_authoritative sn then Some [] else plan_types_for_model reg slug)
                     else Some (members tiers (canonical_service_tier_value tier)))))"

definition account_ids_for_model_service_tier :: "model_registry \<Rightarrow> string \<Rightarrow> string option \<Rightarrow> string list option" where
  "account_ids_for_model_service_tier reg slug service_tier =
     (case (service_tier, mr_snapshot reg) of
        (Some tier, Some sn) \<Rightarrow>
          (if \<not> rs_authoritative sn \<or> \<not> usable_tier slug tier then None
           else
             let tiers = tiers_of (rs_tier_accounts sn) slug
             in if tiers = [] then Some [] else Some (members tiers (canonical_service_tier_value tier)))
      | _ \<Rightarrow> None)"

definition model_advertises_service_tier :: "model_registry \<Rightarrow> string \<Rightarrow> string option \<Rightarrow> bool" where
  "model_advertises_service_tier reg slug service_tier =
     (case (service_tier, mr_snapshot reg) of
        (Some tier, Some sn) \<Rightarrow>
          (if \<not> rs_authoritative sn \<or> \<not> usable_tier slug tier then True
           else if \<not> list_ex (\<lambda>s. map_of (rs_model_plans sn) s \<noteq> None \<or> map_of (rs_model_accounts sn) s \<noteq> None)
                     [slug, norm_slug slug] then True
           else
             let c = canonical_service_tier_value tier;
                 accounts = tiers_of (rs_tier_accounts sn) slug; plans = tiers_of (rs_tier_plans sn) slug
             in c \<in> set (map fst accounts) \<or> c \<in> set (map fst plans))
      | _ \<Rightarrow> True)"

definition account_ids_for_model :: "model_registry \<Rightarrow> string \<Rightarrow> string list option" where
  "account_ids_for_model reg slug =
     (case mr_snapshot reg of
        None \<Rightarrow> None
      | Some sn \<Rightarrow>
          (if \<not> rs_authoritative sn \<or> norm_slug slug = [] then None
           else
             let direct = members (rs_model_accounts sn) slug
             in Some (if direct \<noteq> [] then direct else members (rs_model_accounts sn) (norm_slug slug))))"

text \<open>\<open>fnmatchcase\<close> for the patterns of the module: a literal, or a literal with a final star.\<close>

definition BOOTSTRAP_WEBSOCKET_PREFERRED_MODEL_PATTERNS :: "string list" where
  "BOOTSTRAP_WEBSOCKET_PREFERRED_MODEL_PATTERNS = [''gpt-5.6-*'', ''gpt-5.5'', ''gpt-5.5-*'', ''gpt-5.4'', ''gpt-5.4-*'']"

definition glob_match :: "string \<Rightarrow> string \<Rightarrow> bool" where
  "glob_match pattern s =
     (if pattern \<noteq> [] \<and> last pattern = CHR ''*'' then starts_with s (butlast pattern) else s = pattern)"

definition prefers_websockets :: "model_registry \<Rightarrow> string option \<Rightarrow> bool" where
  "prefers_websockets reg slug_opt =
     (case slug_opt of
        None \<Rightarrow> False
      | Some slug \<Rightarrow>
          (let n = norm_slug slug; boot = lookup_slug bootstrap_models slug
           in if n = [] then False
              else case mr_snapshot reg of
                Some sn \<Rightarrow>
                  (case lookup_slug (rs_models sn) slug of
                     Some m \<Rightarrow> um_websockets m
                   | None \<Rightarrow>
                       (if rs_floor_active sn \<and> n \<notin> set (rs_suppressed sn)
                        then (case boot of Some m \<Rightarrow> um_websockets m | None \<Rightarrow> False) else False))
              | None \<Rightarrow>
                  (case boot of Some m \<Rightarrow> um_websockets m
                   | None \<Rightarrow> list_ex (\<lambda>p. glob_match p n) BOOTSTRAP_WEBSOCKET_PREFERRED_MODEL_PATTERNS)))"

definition needs_refresh :: "real \<Rightarrow> model_registry \<Rightarrow> bool" where
  "needs_refresh monotonic reg =
     (case mr_snapshot reg of None \<Rightarrow> True | Some sn \<Rightarrow> mr_ttl reg \<le> monotonic - rs_fetched_at sn)"

definition clear_registry :: "model_registry \<Rightarrow> model_registry" where
  "clear_registry reg = reg\<lparr>mr_snapshot := None, mr_metadata := None, mr_hash := None\<rparr>"

definition is_public_model :: "upstream_model \<Rightarrow> string list option \<Rightarrow> bool" where
  "is_public_model m allowed_models =
     (if \<not> um_in_api m then False else case allowed_models of None \<Rightarrow> True | Some ms \<Rightarrow> um_slug m \<in> set ms)"

end
