(* ===== verification/Model_Refresh.thy ===== *)
theory Model_Refresh
  imports Model_Registry Runs
begin

text \<open>
  \<open>ModelRegistry.update\<close> of \<open>app/core/openai/model_registry.py\<close>: the refresh of the registry from
  the catalogs fetched per plan and per account. Each loop of the code that fills an index is the
  list of the entries it adds, in its order; what a plan or an account that was not refreshed
  keeps is computed from the previous snapshot first.
\<close>

type_synonym plan_results = "(string \<times> upstream_model list) list"
type_synonym account_results = "(string \<times> string \<times> upstream_model list) list"
type_synonym plan_map = "(string \<times> string) list"

section \<open>What is carried over\<close>

definition stale_plans :: "registry_snapshot \<Rightarrow> plan_results \<Rightarrow> plan_map option \<Rightarrow> string list" where
  "stale_plans prev per_plan active =
     filter (\<lambda>p. p \<notin> set (map fst per_plan) \<and> (case active of None \<Rightarrow> True | Some act \<Rightarrow> p \<in> set (map snd act)))
       (map fst (rs_plan_models prev))"

definition stale_account_ids ::
    "registry_snapshot \<Rightarrow> plan_results \<Rightarrow> account_results option \<Rightarrow> plan_map option \<Rightarrow> string list" where
  "stale_account_ids prev per_plan per_account active =
     (let sp = stale_plans prev per_plan active
      in case active of
           None \<Rightarrow> map fst (filter (\<lambda>(a, p). p \<in> set sp) (rs_account_plans prev))
         | Some act \<Rightarrow>
             map fst (filter (\<lambda>(a, p). map_of act a = Some p \<and>
                                (p \<in> set sp \<or> a \<notin> set (map fst (or_default per_account []))))
                        (rs_account_plans prev)))"

definition plan_of_account :: "registry_snapshot \<Rightarrow> plan_map \<Rightarrow> string \<Rightarrow> string option" where
  "plan_of_account prev act a = (case map_of act a of Some p \<Rightarrow> Some p | None \<Rightarrow> map_of (rs_account_plans prev) a)"

definition supported_stale_slugs :: "registry_snapshot \<Rightarrow> string list \<Rightarrow> string list \<Rightarrow> plan_map \<Rightarrow> string index" where
  "supported_stale_slugs prev sp sa act =
     index_add_all
       [(p, slug). (slug, ids) \<leftarrow> rs_model_accounts prev, a \<leftarrow> ids, a \<in> set sa,
                   p \<leftarrow> (case plan_of_account prev act a of None \<Rightarrow> [] | Some p \<Rightarrow> [p]), p \<in> set sp] []"

definition stale_slugs :: "registry_snapshot \<Rightarrow> string list \<Rightarrow> string list \<Rightarrow> plan_map option \<Rightarrow> string \<Rightarrow> string list" where
  "stale_slugs prev sp sa active p =
     (case active of
        None \<Rightarrow> members (rs_plan_models prev) p
      | Some act \<Rightarrow>
          filter (\<lambda>slug. members (rs_model_accounts prev) slug = [] \<or>
                         slug \<in> set (members (supported_stale_slugs prev sp sa act) p))
            (members (rs_plan_models prev) p))"

section \<open>The tables under construction\<close>

record registry_draft =
  rd_models :: "(string \<times> upstream_model) list"
  rd_model_plans :: "string index"
  rd_tier_plans :: "(string \<times> string) index"
  rd_tier_accounts :: "(string \<times> string) index"
  rd_model_accounts :: "string index"
  rd_account_plans :: plan_map

definition empty_draft :: registry_draft where
  "empty_draft = \<lparr>rd_models = [], rd_model_plans = [], rd_tier_plans = [], rd_tier_accounts = [],
                  rd_model_accounts = [], rd_account_plans = []\<rparr>"

text \<open>\<open>models.setdefault(slug, previous.models[slug])\<close> for the slugs the previous snapshot knows.\<close>

definition keep_model :: "registry_snapshot \<Rightarrow> string \<Rightarrow> (string \<times> upstream_model) list \<Rightarrow> (string \<times> upstream_model) list" where
  "keep_model prev slug ms =
     (case (map_of ms slug, map_of (rs_models prev) slug) of
        (None, Some m) \<Rightarrow> AList.update slug m ms
      | _ \<Rightarrow> ms)"

definition carry_plans :: "registry_snapshot \<Rightarrow> string list \<Rightarrow> (string \<Rightarrow> string list) \<Rightarrow> registry_draft \<Rightarrow> registry_draft" where
  "carry_plans prev sp slugs d =
     d\<lparr>rd_models := fold (keep_model prev) [slug. p \<leftarrow> sp, slug \<leftarrow> slugs p] (rd_models d),
       rd_model_plans := index_add_all [(slug, p). p \<leftarrow> sp, slug \<leftarrow> slugs p] (rd_model_plans d),
       rd_tier_plans := index_add_all
         [((slug, t), p). p \<leftarrow> sp, slug \<leftarrow> slugs p, ((s, t), ps) \<leftarrow> rs_tier_plans prev, s = slug \<and> p \<in> set ps]
         (rd_tier_plans d)\<rparr>"

definition carry_account_plans :: "registry_snapshot \<Rightarrow> string list \<Rightarrow> plan_map option \<Rightarrow> registry_draft \<Rightarrow> registry_draft" where
  "carry_account_plans prev sa active d =
     d\<lparr>rd_account_plans :=
        fold (\<lambda>a ap. case map_of (or_default active (rs_account_plans prev)) a of
                       None \<Rightarrow> ap | Some p \<Rightarrow> AList.update a p ap) sa (rd_account_plans d)\<rparr>"

definition plan_entries :: "plan_map \<Rightarrow> string \<Rightarrow> string list" where
  "plan_entries ap a = (case map_of ap a of None \<Rightarrow> [] | Some p \<Rightarrow> [p])"

definition known_in :: "registry_snapshot \<Rightarrow> string \<Rightarrow> bool" where
  "known_in prev slug = (map_of (rs_models prev) slug \<noteq> None)"

text \<open>The entries that a list of accounts keeps in an index.\<close>

definition kept_entries :: "'k index \<Rightarrow> ('k \<Rightarrow> bool) \<Rightarrow> string list \<Rightarrow> ('k \<times> string) list" where
  "kept_entries ix known sa = [(k, a). (k, ids) \<leftarrow> ix, known k, a \<leftarrow> ids, a \<in> set sa]"

definition carry_model_accounts :: "registry_snapshot \<Rightarrow> string list \<Rightarrow> registry_draft \<Rightarrow> registry_draft" where
  "carry_model_accounts prev sa d =
     (let entries = kept_entries (rs_model_accounts prev) (known_in prev) sa
      in d\<lparr>rd_model_accounts := index_add_all entries (rd_model_accounts d),
           rd_models := fold (keep_model prev) (map fst entries) (rd_models d),
           rd_model_plans := index_add_all
             [(slug, p). (slug, a) \<leftarrow> entries, p \<leftarrow> plan_entries (rd_account_plans d) a] (rd_model_plans d)\<rparr>)"

definition carry_tier_accounts :: "registry_snapshot \<Rightarrow> string list \<Rightarrow> registry_draft \<Rightarrow> registry_draft" where
  "carry_tier_accounts prev sa d =
     (let entries = kept_entries (rs_tier_accounts prev) (\<lambda>(slug, t). known_in prev slug) sa
      in d\<lparr>rd_tier_accounts := index_add_all entries (rd_tier_accounts d),
           rd_tier_plans := index_add_all
             [(st, p). (st, a) \<leftarrow> entries, p \<leftarrow> plan_entries (rd_account_plans d) a] (rd_tier_plans d)\<rparr>)"

definition carry_over ::
    "registry_snapshot option \<Rightarrow> plan_results \<Rightarrow> account_results option \<Rightarrow> plan_map option \<Rightarrow> registry_draft" where
  "carry_over previous per_plan per_account active =
     (case previous of
        None \<Rightarrow> empty_draft
      | Some prev \<Rightarrow>
          (let sp = stale_plans prev per_plan active; sa = stale_account_ids prev per_plan per_account active
           in carry_tier_accounts prev sa
                (carry_model_accounts prev sa
                  (carry_account_plans prev sa active
                    (carry_plans prev sp (stale_slugs prev sp sa active) empty_draft)))))"

section \<open>The fetched catalogs\<close>

fun merge_models :: "(json \<Rightarrow> string) \<Rightarrow> string list \<Rightarrow> upstream_model list \<Rightarrow> (string \<times> upstream_model) list \<Rightarrow> (string \<times> upstream_model) list" where
  "merge_models dumps refreshed [] ms = ms"
| "merge_models dumps refreshed (m # rest) ms =
     merge_models dumps (um_slug m # refreshed) rest
       (case map_of ms (um_slug m) of
          Some existing \<Rightarrow>
            (if um_slug m \<in> set refreshed
             then AList.update (um_slug m) (merge_service_tier_metadata dumps existing m) ms
             else AList.update (um_slug m) m ms)
        | None \<Rightarrow> AList.update (um_slug m) m ms)"

definition merge_plan_results :: "(json \<Rightarrow> string) \<Rightarrow> plan_results \<Rightarrow> registry_draft \<Rightarrow> registry_draft" where
  "merge_plan_results dumps per_plan d =
     (let fetched = [(p, m). (p, ms) \<leftarrow> per_plan, m \<leftarrow> ms]
      in d\<lparr>rd_models := merge_models dumps [] (map snd fetched) (rd_models d),
           rd_model_plans := index_add_all [(um_slug m, p). (p, m) \<leftarrow> fetched] (rd_model_plans d),
           rd_tier_plans := index_add_all
             [((um_slug m, t), p). (p, m) \<leftarrow> fetched, t \<leftarrow> model_service_tier_keys m] (rd_tier_plans d)\<rparr>)"

definition merge_account_results :: "account_results option \<Rightarrow> registry_draft \<Rightarrow> registry_draft" where
  "merge_account_results per_account d =
     (case per_account of
        None \<Rightarrow> d
      | Some results \<Rightarrow>
          (let fetched = [(a, m). (a, p, ms) \<leftarrow> results, m \<leftarrow> ms, map_of (rd_models d) (um_slug m) \<noteq> None]
           in d\<lparr>rd_account_plans := fold (\<lambda>(a, p, ms). AList.update a p) results (rd_account_plans d),
                rd_model_accounts := index_add_all [(um_slug m, a). (a, m) \<leftarrow> fetched] (rd_model_accounts d),
                rd_tier_accounts := index_add_all
                  [((um_slug m, t), a). (a, m) \<leftarrow> fetched, t \<leftarrow> model_service_tier_keys m] (rd_tier_accounts d)\<rparr>))"

definition account_models :: "account_results option \<Rightarrow> upstream_model list" where
  "account_models per_account = [m. (a, p, ms) \<leftarrow> or_default per_account [], m \<leftarrow> ms]"

section \<open>The new snapshot\<close>

definition authoritative_catalogs :: "account_results option \<Rightarrow> plan_map option \<Rightarrow> registry_draft \<Rightarrow> bool" where
  "authoritative_catalogs per_account active d =
     (case per_account of
        None \<Rightarrow> False
      | Some results \<Rightarrow>
          (let ids = (case active of None \<Rightarrow> map fst results
                      | Some act \<Rightarrow> (if act \<noteq> [] then map fst act else map fst results))
           in set ids \<subseteq> set (map fst (rd_account_plans d))))"

definition suppressed_slugs ::
    "registry_snapshot option \<Rightarrow> account_results option \<Rightarrow> bool \<Rightarrow> (string \<times> upstream_model) list \<Rightarrow> string list" where
  "suppressed_slugs previous per_account authoritative models =
     filter (\<lambda>slug. map_of models slug = None)
       ((case previous of None \<Rightarrow> [] | Some prev \<Rightarrow> rs_suppressed prev)
        @ (if authoritative then map fst bootstrap_models @ map um_slug (account_models per_account) else [])
        @ (case previous of None \<Rightarrow> []
           | Some prev \<Rightarrow> [slug. (slug, ids) \<leftarrow> rs_model_accounts prev, ids \<noteq> []]))"

definition plan_models_index :: "string index \<Rightarrow> string index" where
  "plan_models_index model_plans = index_add_all [(p, slug). (slug, ps) \<leftarrow> model_plans, p \<leftarrow> ps] []"

definition refreshed_metadata ::
    "(string \<times> upstream_model) list option \<Rightarrow> account_results option \<Rightarrow> (string \<times> upstream_model) list \<Rightarrow>
     (string \<times> upstream_model) list" where
  "refreshed_metadata metadata per_account models =
     (let boot = set (map fst bootstrap_models);
          base = (case metadata of Some ((k, v) # rest) \<Rightarrow> (k, v) # rest | _ \<Rightarrow> bootstrap_models);
          kept = filter (\<lambda>(slug, m). slug \<in> boot) base;
          from_accounts = fold (\<lambda>m acc. if um_slug m \<in> boot \<and> map_of acc (um_slug m) = None
                                        then AList.update (um_slug m) m acc else acc)
                            (account_models per_account) []
      in fold (\<lambda>(k, v). AList.update k v) models (fold (\<lambda>(k, v). AList.update k v) from_accounts kept))"

definition build_draft ::
    "(json \<Rightarrow> string) \<Rightarrow> registry_snapshot option \<Rightarrow> plan_results \<Rightarrow> account_results option \<Rightarrow> plan_map option \<Rightarrow> registry_draft" where
  "build_draft dumps previous per_plan per_account active =
     merge_account_results per_account
       (merge_plan_results dumps per_plan (carry_over previous per_plan per_account active))"

definition build_snapshot ::
    "(json \<Rightarrow> string) \<Rightarrow> real \<Rightarrow> registry_snapshot option \<Rightarrow> plan_results \<Rightarrow> account_results option \<Rightarrow>
     plan_map option \<Rightarrow> registry_snapshot" where
  "build_snapshot dumps monotonic previous per_plan per_account active =
     (let d = build_draft dumps previous per_plan per_account active;
          auth = authoritative_catalogs per_account active d
      in \<lparr>rs_models = rd_models d, rs_model_plans = rd_model_plans d,
          rs_plan_models = plan_models_index (rd_model_plans d),
          rs_tier_plans = rd_tier_plans d, rs_tier_accounts = rd_tier_accounts d,
          rs_account_plans = rd_account_plans d, rs_fetched_at = monotonic,
          rs_model_accounts = rd_model_accounts d, rs_authoritative = auth,
          rs_floor_active = (per_account \<noteq> None \<and> \<not> auth),
          rs_suppressed = suppressed_slugs previous per_account auth (rd_models d)\<rparr>)"

definition update_registry ::
    "(json \<Rightarrow> string) \<Rightarrow> real \<Rightarrow> plan_results \<Rightarrow> account_results option \<Rightarrow> plan_map option \<Rightarrow>
     model_registry \<Rightarrow> model_registry" where
  "update_registry dumps monotonic per_plan per_account active reg =
     (if per_plan = [] then reg
      else
        let sn = build_snapshot dumps monotonic (mr_snapshot reg) per_plan per_account active
        in reg\<lparr>mr_snapshot := Some sn,
               mr_metadata := Some (refreshed_metadata (mr_metadata reg) per_account (rs_models sn))\<rparr>)"

section \<open>Indices\<close>

definition keys :: "('k \<times> 'v) list \<Rightarrow> 'k set" where
  "keys xs = fst ` set xs"

lemma keys_update [simp]: "keys (AList.update k v xs) = insert k (keys xs)"
  by (simp add: keys_def dom_update)

lemma keys_Nil [simp]: "keys [] = {}"
  by (simp add: keys_def)

lemma keys_Cons [simp]: "keys (kv # xs) = insert (fst kv) (keys xs)"
  by (simp add: keys_def)

lemma keys_map_of: "k \<in> keys xs \<longleftrightarrow> map_of xs k \<noteq> None"
  by (simp add: keys_def map_of_eq_None_iff)

lemma map_of_key [intro]: "map_of xs k = Some v \<Longrightarrow> k \<in> keys xs"
  by (simp add: keys_map_of)

lemma entry_key: "(k, v) \<in> set xs \<Longrightarrow> k \<in> keys xs"
  by (force simp: keys_def)

lemma members_update [simp]: "members (AList.update k vs ix) j = (if j = k then vs else members ix j)"
  by (simp add: members_def update_conv' or_default_def)

lemma members_index_add:
  "set (members (index_add kv ix) j) = set (members ix j) \<union> {v. kv = (j, v)}"
  by (cases kv) (auto simp: index_add_def)

lemma members_index_add_all [simp]:
  "set (members (index_add_all kvs ix) j) = set (members ix j) \<union> {v. (j, v) \<in> set kvs}"
  unfolding index_add_all_def by (induction kvs arbitrary: ix) (auto simp: members_index_add)

lemma members_Nil [simp]: "members [] j = []"
  by (simp add: members_def or_default_def)

lemma distinct_index_add_all: "distinct (map fst ix) \<Longrightarrow> distinct (map fst (index_add_all kvs ix))"
  unfolding index_add_all_def by (induction kvs arbitrary: ix) (simp_all add: index_add_def distinct_update)

lemma keys_index_add_all [simp]: "keys (index_add_all kvs ix) = keys ix \<union> keys kvs"
  unfolding index_add_all_def by (induction kvs arbitrary: ix) (auto simp: index_add_def)

lemma members_entry: "distinct (map fst ix) \<Longrightarrow> (k, vs) \<in> set ix \<Longrightarrow> members ix k = vs"
  by (simp add: members_def or_default_def)

lemma members_key: "v \<in> set (members ix k) \<Longrightarrow> k \<in> keys ix"
  by (cases "map_of ix k") (auto simp: members_def)

section \<open>What every snapshot keeps\<close>

text \<open>
  Of a draft: everything the tables name is a model of the registry and an account whose plan is
  known. Of a snapshot, besides: no suppressed slug is a model, and the plans of the models and
  the models of the plans are each other's inverse.
\<close>

definition wf_tables :: "string set \<Rightarrow> string index \<Rightarrow> string index \<Rightarrow> (string \<times> string) index \<Rightarrow> plan_map \<Rightarrow> bool" where
  "wf_tables slugs model_plans model_accounts tier_accounts account_plans =
     (distinct (map fst model_plans) \<and> distinct (map fst model_accounts) \<and> distinct (map fst account_plans) \<and>
      keys model_plans \<subseteq> slugs \<and> keys model_accounts \<subseteq> slugs \<and> distinct (map fst tier_accounts) \<and>
      (\<forall>slug t. set (members tier_accounts (slug, t)) \<subseteq> set (members model_accounts slug)) \<and>
      (\<forall>slug. set (members model_accounts slug) \<subseteq> keys account_plans))"

definition wf_draft :: "registry_draft \<Rightarrow> bool" where
  "wf_draft d =
     wf_tables (keys (rd_models d)) (rd_model_plans d) (rd_model_accounts d) (rd_tier_accounts d) (rd_account_plans d)"

definition wf_snapshot :: "registry_snapshot \<Rightarrow> bool" where
  "wf_snapshot sn =
     (wf_tables (keys (rs_models sn)) (rs_model_plans sn) (rs_model_accounts sn) (rs_tier_accounts sn) (rs_account_plans sn) \<and>
      set (rs_suppressed sn) \<inter> keys (rs_models sn) = {} \<and>
      (\<forall>slug p. p \<in> set (members (rs_model_plans sn) slug) \<longleftrightarrow> slug \<in> set (members (rs_plan_models sn) p)))"

definition wf_registry :: "model_registry \<Rightarrow> bool" where
  "wf_registry reg = (case mr_snapshot reg of None \<Rightarrow> True | Some sn \<Rightarrow> wf_snapshot sn)"

lemma wf_tables_tier: "wf_tables slugs mp ma ta ap \<Longrightarrow> a \<in> set (members ta (slug, t)) \<Longrightarrow> a \<in> set (members ma slug)"
  unfolding wf_tables_def by blast

lemma wf_tables_account: "wf_tables slugs mp ma ta ap \<Longrightarrow> a \<in> set (members ma slug) \<Longrightarrow> a \<in> keys ap"
  unfolding wf_tables_def by blast

text \<open>Adding entries whose keys and values are known keeps the tables.\<close>

lemma wf_tables_add:
  assumes "wf_tables slugs mp ma ta ap" "slugs \<subseteq> slugs'" "keys mps \<subseteq> slugs'" "keys mas \<subseteq> slugs'"
    "\<And>slug t a. ((slug, t), a) \<in> set tas \<Longrightarrow> a \<in> set (members (index_add_all mas ma) slug)"
    "distinct (map fst ap')" "keys ap \<subseteq> keys ap'" "snd ` set mas \<subseteq> keys ap'"
  shows "wf_tables slugs' (index_add_all mps mp) (index_add_all mas ma) (index_add_all tas ta) ap'"
proof -
  note w = assms(1) [unfolded wf_tables_def] and tier = wf_tables_tier [OF assms(1)] and acc = wf_tables_account [OF assms(1)]
  have "set (members (index_add_all tas ta) (slug, t)) \<subseteq> set (members (index_add_all mas ma) slug)" for slug t
    using tier [of _ slug t] assms(5) [of slug t] by auto
  moreover have "set (members (index_add_all mas ma) slug) \<subseteq> keys ap'" for slug
    using acc [of _ slug] assms(7,8) by auto
  moreover have "keys (index_add_all mps mp) \<subseteq> slugs'" "keys (index_add_all mas ma) \<subseteq> slugs'"
    using w assms(2-4) by auto
  ultimately show ?thesis using w assms(6) unfolding wf_tables_def by (simp add: distinct_index_add_all)
qed

lemma index_add_none: "index_add_all [] ix = ix"
  by (simp add: index_add_all_def)

lemma keys_keep_models [simp]:
  "keys (fold (keep_model prev) slugs ms) = keys ms \<union> (set slugs \<inter> keys (rs_models prev))"
  by (induction slugs arbitrary: ms) (auto simp: keep_model_def keys_map_of split: option.splits)

lemma keys_merge_models [simp]:
  "keys (merge_models dumps seen fetched ms) = keys ms \<union> um_slug ` set fetched"
  by (induction fetched arbitrary: seen ms) (auto split: option.splits)

lemma distinct_fold_update:
  "distinct (map fst ap) \<Longrightarrow> distinct (map fst (fold (\<lambda>a ap. case f a of None \<Rightarrow> ap | Some p \<Rightarrow> AList.update a p ap) as ap))"
  by (induction as arbitrary: ap) (auto simp: distinct_update split: option.splits)

lemma keys_fold_update:
  "keys (fold (\<lambda>a ap. case f a of None \<Rightarrow> ap | Some p \<Rightarrow> AList.update a p ap) as ap) =
     keys ap \<union> {a \<in> set as. f a \<noteq> None}"
  by (induction as arbitrary: ap) (auto split: option.splits)

lemma distinct_fold_results:
  "distinct (map fst ap) \<Longrightarrow> distinct (map fst (fold (\<lambda>(a, p, ms). AList.update a p) results ap))"
  by (induction results arbitrary: ap) (auto simp: distinct_update)

lemma keys_fold_results [simp]:
  "keys (fold (\<lambda>(a, p, ms). AList.update a p) results ap) = keys ap \<union> keys results"
  by (induction results arbitrary: ap) auto

lemma known_in_key: "known_in prev slug \<longleftrightarrow> slug \<in> keys (rs_models prev)"
  by (simp add: known_in_def keys_map_of)

lemma stale_accounts_planned:
  "a \<in> set (stale_account_ids prev per_plan per_account active) \<Longrightarrow>
   map_of (or_default active (rs_account_plans prev)) a \<noteq> None"
  by (cases active) (auto simp: stale_account_ids_def Let_def keys_map_of [symmetric] simp flip: not_None_eq intro: entry_key)

lemma stale_slugs_known:
  assumes "wf_snapshot prev" "slug \<in> set (stale_slugs prev sp sa active p)"
  shows "slug \<in> keys (rs_models prev)"
proof -
  have "slug \<in> set (members (rs_plan_models prev) p)"
    using assms(2) by (auto simp: stale_slugs_def split: option.splits)
  then have "p \<in> set (members (rs_model_plans prev) slug)" using assms(1) by (simp add: wf_snapshot_def)
  then have "slug \<in> keys (rs_model_plans prev)" by (rule members_key)
  then show ?thesis using assms(1) by (auto simp: wf_snapshot_def wf_tables_def)
qed

lemma wf_carry_plans:
  assumes "wf_draft d" "\<And>p slug. slug \<in> set (slugs p) \<Longrightarrow> slug \<in> keys (rs_models prev)"
  shows "wf_draft (carry_plans prev sp slugs d)"
proof -
  let ?new = "keys (rd_models (carry_plans prev sp slugs d))"
  have a: "keys (rd_models d) \<subseteq> ?new" by (simp add: carry_plans_def)
  have k: "keys [(slug, p). p \<leftarrow> sp, slug \<leftarrow> slugs p] = (\<Union>p \<in> set sp. set (slugs p))"
    by (simp add: keys_def image_Union image_image)
  have b: "keys [(slug, p). p \<leftarrow> sp, slug \<leftarrow> slugs p] \<subseteq> ?new"
    using assms(2) unfolding k by (auto simp: carry_plans_def)
  have ap: "distinct (map fst (rd_account_plans d))" using assms(1) by (simp add: wf_draft_def wf_tables_def)
  show ?thesis
    using wf_tables_add [OF assms(1) [unfolded wf_draft_def] a b _ _ ap subset_refl, of "[]" "[]"]
    by (simp add: wf_draft_def carry_plans_def index_add_none)
qed

lemma wf_carry_account_plans:
  assumes "wf_draft d"
  shows "wf_draft (carry_account_plans prev sa active d)"
proof -
  let ?ap = "rd_account_plans (carry_account_plans prev sa active d)"
  have "distinct (map fst ?ap)" "keys (rd_account_plans d) \<subseteq> keys ?ap"
    using assms by (simp_all add: carry_account_plans_def keys_fold_update distinct_fold_update wf_draft_def wf_tables_def)
  then show ?thesis
    using wf_tables_add [OF assms [unfolded wf_draft_def] subset_refl, of "[]" "[]" "[]" ?ap]
    by (simp add: wf_draft_def carry_account_plans_def index_add_none)
qed

lemma kept_entries_iff: "(k, a) \<in> set (kept_entries ix known sa) \<longleftrightarrow> (\<exists>ids. (k, ids) \<in> set ix \<and> a \<in> set ids) \<and> known k \<and> a \<in> set sa"
  by (auto simp: kept_entries_def)

lemma kept_entries_keys: "k \<in> keys (kept_entries ix known sa) \<Longrightarrow> k \<in> keys ix \<and> known k"
  by (force simp: keys_def kept_entries_def)

lemma wf_carry_model_accounts:
  assumes "wf_draft d" "set sa \<subseteq> keys (rd_account_plans d)"
  shows "wf_draft (carry_model_accounts prev sa d)"
proof -
  let ?es = "kept_entries (rs_model_accounts prev) (known_in prev) sa"
  let ?ps = "[(slug, p). (slug, a) \<leftarrow> ?es, p \<leftarrow> plan_entries (rd_account_plans d) a]"
  let ?new = "keys (rd_models (carry_model_accounts prev sa d))"
  have a: "keys (rd_models d) \<subseteq> ?new" by (simp add: carry_model_accounts_def Let_def)
  have b: "keys ?es \<subseteq> ?new"
    using kept_entries_keys [of _ "rs_model_accounts prev" "known_in prev" sa]
    by (auto simp: carry_model_accounts_def Let_def known_in_key keys_def [of ?es])
  have c: "keys ?ps \<subseteq> ?new" using b by (auto simp: keys_def [of ?ps] dest: entry_key)
  have e: "snd ` set ?es \<subseteq> keys (rd_account_plans d)" using assms(2) by (auto simp: kept_entries_iff)
  have ap: "distinct (map fst (rd_account_plans d))" using assms(1) by (simp add: wf_draft_def wf_tables_def)
  show ?thesis
    using wf_tables_add [OF assms(1) [unfolded wf_draft_def] a c b _ ap subset_refl e, of "[]"]
    by (simp add: wf_draft_def carry_model_accounts_def Let_def index_add_none)
qed

lemma wf_carry_tier_accounts:
  assumes "wf_draft d"
    "\<And>slug t a. ((slug, t), a) \<in> set (kept_entries (rs_tier_accounts prev) (\<lambda>(slug, t). known_in prev slug) sa) \<Longrightarrow>
       a \<in> set (members (rd_model_accounts d) slug)"
  shows "wf_draft (carry_tier_accounts prev sa d)"
proof -
  have ap: "distinct (map fst (rd_account_plans d))" using assms(1) by (simp add: wf_draft_def wf_tables_def)
  show ?thesis
    using wf_tables_add [OF assms(1) [unfolded wf_draft_def] subset_refl _ _ _ ap subset_refl,
        of "[]" "[]" "kept_entries (rs_tier_accounts prev) (\<lambda>(slug, t). known_in prev slug) sa"] assms(2)
    by (simp add: wf_draft_def carry_tier_accounts_def Let_def index_add_none)
qed

lemma wf_empty_draft: "wf_draft empty_draft"
  by (simp add: wf_draft_def wf_tables_def empty_draft_def)

lemma wf_carry_over:
  assumes "\<And>prev. previous = Some prev \<Longrightarrow> wf_snapshot prev"
  shows "wf_draft (carry_over previous per_plan per_account active)"
proof (cases previous)
  case (Some prev)
  let ?sp = "stale_plans prev per_plan active" let ?sa = "stale_account_ids prev per_plan per_account active"
  let ?d1 = "carry_account_plans prev ?sa active (carry_plans prev ?sp (stale_slugs prev ?sp ?sa active) empty_draft)"
  have w: "wf_snapshot prev" using assms Some by blast
  then have dt: "distinct (map fst (rs_tier_accounts prev))" by (simp add: wf_snapshot_def wf_tables_def)
  note tier = wf_tables_tier [OF w [unfolded wf_snapshot_def, THEN conjunct1]]
  have d1: "wf_draft ?d1"
    by (intro wf_carry_account_plans wf_carry_plans wf_empty_draft) (rule stale_slugs_known [OF w])
  have "set ?sa \<subseteq> keys (rd_account_plans ?d1)"
    using stale_accounts_planned [of _ prev per_plan per_account active]
    by (auto simp: carry_account_plans_def keys_fold_update)
  then have d2: "wf_draft (carry_model_accounts prev ?sa ?d1)" using d1 by (rule wf_carry_model_accounts [rotated])
  have "a \<in> set (members (rd_model_accounts (carry_model_accounts prev ?sa ?d1)) slug)"
    if in_tier: "((slug, t), a) \<in> set (kept_entries (rs_tier_accounts prev) (\<lambda>(slug, t). known_in prev slug) ?sa)" for slug t a
  proof -
    obtain ids where ids: "((slug, t), ids) \<in> set (rs_tier_accounts prev)" "a \<in> set ids"
      and k: "known_in prev slug" "a \<in> set ?sa" using in_tier by (auto simp: kept_entries_iff)
    then have "a \<in> set (members (rs_model_accounts prev) slug)"
      using tier [of a slug t] members_entry [OF _ ids(1)] dt by simp
    then have "(slug, a) \<in> set (kept_entries (rs_model_accounts prev) (known_in prev) ?sa)"
      using k by (cases "map_of (rs_model_accounts prev) slug") (auto simp: kept_entries_iff members_def dest: map_of_SomeD)
    then show ?thesis by (simp add: carry_model_accounts_def Let_def)
  qed
  then show ?thesis using wf_carry_tier_accounts [OF d2] Some by (simp add: carry_over_def Let_def)
qed (simp add: carry_over_def wf_empty_draft)

lemma wf_merge_plan_results:
  assumes "wf_draft d"
  shows "wf_draft (merge_plan_results dumps per_plan d)"
proof -
  let ?new = "keys (rd_models (merge_plan_results dumps per_plan d))"
  let ?fetched = "[(p, m). (p, ms) \<leftarrow> per_plan, m \<leftarrow> ms]"
  have a: "keys (rd_models d) \<subseteq> ?new" by (simp add: merge_plan_results_def Let_def)
  have b: "keys [(um_slug m, p). (p, m) \<leftarrow> ?fetched] \<subseteq> ?new"
    by (force simp: merge_plan_results_def Let_def keys_def [of "map _ _"] keys_def [of "concat _"])
  have ap: "distinct (map fst (rd_account_plans d))" using assms(1) by (simp add: wf_draft_def wf_tables_def)
  show ?thesis
    using wf_tables_add [OF assms [unfolded wf_draft_def] a b _ _ ap subset_refl, of "[]" "[]"]
    by (simp add: wf_draft_def merge_plan_results_def Let_def index_add_none)
qed

lemma wf_merge_account_results:
  assumes "wf_draft d"
  shows "wf_draft (merge_account_results per_account d)"
proof (cases per_account)
  case (Some results)
  let ?fetched = "[(a, m). (a, p, ms) \<leftarrow> results, m \<leftarrow> ms, map_of (rd_models d) (um_slug m) \<noteq> None]"
  let ?mas = "[(um_slug m, a). (a, m) \<leftarrow> ?fetched]"
  let ?tas = "[((um_slug m, t), a). (a, m) \<leftarrow> ?fetched, t \<leftarrow> model_service_tier_keys m]"
  let ?ap = "fold (\<lambda>(a, p, ms). AList.update a p) results (rd_account_plans d)"
  have b: "keys ?mas \<subseteq> keys (rd_models d)" by (force simp: keys_def dest: map_of_SomeD)
  have t: "a \<in> set (members (index_add_all ?mas (rd_model_accounts d)) slug)" if "((slug, t), a) \<in> set ?tas" for slug t a
    using that by fastforce
  have ap: "distinct (map fst ?ap)" "keys (rd_account_plans d) \<subseteq> keys ?ap"
    using assms by (simp_all add: wf_draft_def wf_tables_def distinct_fold_results)
  have e: "snd ` set ?mas \<subseteq> keys ?ap" by (auto dest: entry_key)
  have "wf_tables (keys (rd_models d)) (index_add_all [] (rd_model_plans d)) (index_add_all ?mas (rd_model_accounts d))
          (index_add_all ?tas (rd_tier_accounts d)) ?ap"
    by (rule wf_tables_add [OF assms [unfolded wf_draft_def] subset_refl _ b t ap e]) (simp_all only: keys_Nil empty_subsetI)
  then show ?thesis using Some by (simp add: wf_draft_def merge_account_results_def Let_def index_add_none)
qed (simp add: merge_account_results_def assms)

lemma wf_build_draft:
  "(\<And>prev. previous = Some prev \<Longrightarrow> wf_snapshot prev) \<Longrightarrow> wf_draft (build_draft dumps previous per_plan per_account active)"
  unfolding build_draft_def by (intro wf_merge_account_results wf_merge_plan_results wf_carry_over)

lemma plan_models_index_inverse:
  assumes "distinct (map fst mp)"
  shows "p \<in> set (members mp slug) \<longleftrightarrow> slug \<in> set (members (plan_models_index mp) p)"
proof
  assume "p \<in> set (members mp slug)"
  then show "slug \<in> set (members (plan_models_index mp) p)"
    by (cases "map_of mp slug") (force simp: plan_models_index_def members_def [of mp] dest: map_of_SomeD)+
next
  assume "slug \<in> set (members (plan_models_index mp) p)"
  then show "p \<in> set (members mp slug)" using members_entry [OF assms] by (auto simp: plan_models_index_def)
qed

lemma wf_build_snapshot:
  assumes "\<And>prev. previous = Some prev \<Longrightarrow> wf_snapshot prev"
  shows "wf_snapshot (build_snapshot dumps now previous per_plan per_account active)"
proof -
  let ?d = "build_draft dumps previous per_plan per_account active"
  have w: "wf_draft ?d" using assms by (rule wf_build_draft)
  have "set (suppressed_slugs previous per_account auth (rd_models ?d)) \<inter> keys (rd_models ?d) = {}" for auth
    unfolding suppressed_slugs_def keys_def by (auto simp: map_of_eq_None_iff)
  moreover have "distinct (map fst (rd_model_plans ?d))" using w by (simp add: wf_draft_def wf_tables_def)
  ultimately show ?thesis
    using w plan_models_index_inverse [of "rd_model_plans ?d"]
    by (simp add: wf_snapshot_def build_snapshot_def Let_def wf_draft_def)
qed

section \<open>Runs\<close>

datatype registry_event =
  Refresh real plan_results "account_results option" "plan_map option"
| Clear
| Import registry_export string
| Note_hash "string option"

fun registry_step :: "(json \<Rightarrow> string) \<Rightarrow> registry_event \<Rightarrow> model_registry \<Rightarrow> model_registry" where
  "registry_step dumps (Refresh now per_plan per_account active) reg = update_registry dumps now per_plan per_account active reg"
| "registry_step dumps Clear reg = clear_registry reg"
| "registry_step dumps (Import st h) reg = import_state st h reg"
| "registry_step dumps (Note_hash h) reg = note_applied_content_hash h reg"

text \<open>A persisted state is one that another replica exported.\<close>

fun registry_ok :: "registry_event \<Rightarrow> model_registry \<Rightarrow> bool" where
  "registry_ok (Import st h) reg = (case ex_snapshot st of None \<Rightarrow> True | Some sn \<Rightarrow> wf_snapshot sn)"
| "registry_ok e reg = True"

lemma registry_step_wf:
  assumes "wf_registry reg" "registry_ok e reg"
  shows "wf_registry (registry_step dumps e reg)"
proof (cases e)
  case (Refresh now per_plan per_account active)
  have "\<And>prev. mr_snapshot reg = Some prev \<Longrightarrow> wf_snapshot prev" using assms(1) by (simp add: wf_registry_def)
  then show ?thesis
    using Refresh assms(1) wf_build_snapshot by (simp add: update_registry_def Let_def wf_registry_def)
qed (use assms in \<open>simp_all add: wf_registry_def clear_registry_def import_state_def note_applied_content_hash_def\<close>)

interpretation registry: event_system wf_registry registry_ok "registry_step dumps" for dumps
  by unfold_locales (rule registry_step_wf)

section \<open>Withdrawn models\<close>

lemma new_registry_wf: "new_model_registry ttl = Inr reg \<Longrightarrow> wf_registry reg"
  by (auto simp: new_model_registry_def wf_registry_def split: if_splits)

lemma keys_fold_pairs [simp]: "keys (fold (\<lambda>(k, v). AList.update k v) xs ys) = keys xs \<union> keys ys"
  by (induction xs arbitrary: ys) auto

lemma no_members: "k \<notin> keys ix \<Longrightarrow> members ix k = []"
  by (simp add: members_def keys_map_of)


definition solo_model :: "string \<Rightarrow> upstream_model" where
  "solo_model slug = \<lparr>um_slug = slug, um_websockets = True, um_in_api = True, um_plans = [''plus''], um_raw = []\<rparr>"


section \<open>Where the support of an account comes from\<close>

lemma carried_members:
  "set (members (rd_model_accounts (carry_over previous per_plan per_account active)) slug) =
     (case previous of None \<Rightarrow> {}
      | Some prev \<Rightarrow> {a. (slug, a) \<in> set (kept_entries (rs_model_accounts prev) (known_in prev)
                                          (stale_account_ids prev per_plan per_account active))})"
  by (simp add: carry_over_def carry_tier_accounts_def carry_model_accounts_def carry_account_plans_def carry_plans_def
      empty_draft_def Let_def split: option.splits)

lemma draft_members:
  "a \<in> set (members (rd_model_accounts (build_draft dumps previous per_plan per_account active)) slug) \<Longrightarrow>
     a \<in> set (members (rd_model_accounts (carry_over previous per_plan per_account active)) slug) \<or>
     (\<exists>p ms. (a, p, ms) \<in> set (or_default per_account []) \<and> slug \<in> um_slug ` set ms)"
  by (cases per_account)
     (auto simp: build_draft_def merge_account_results_def merge_plan_results_def Let_def split: if_splits)

text \<open>
  C14. When a refresh knows the active accounts and their plans, an account is listed for a model only
  on evidence that is still good: the account's own catalog of this refresh names the model, or
  the previous snapshot listed it and the account is active on the very plan that catalog was
  fetched for. A plan change without a fresh catalog leaves the account out.
\<close>

theorem account_support_has_evidence:
  assumes "new_model_registry ttl = Inr reg0" "valid_run registry_ok (registry_step dumps) es reg0"
    and "reg = fold (registry_step dumps) es reg0" "per_plan \<noteq> []"
    and "account_ids_for_model (update_registry dumps now per_plan per_account (Some act) reg) slug = Some ids" "a \<in> set ids"
  shows "\<exists>s \<in> {slug, norm_slug slug}.
    (\<exists>p ms. (a, p, ms) \<in> set (or_default per_account []) \<and> s \<in> um_slug ` set ms) \<or>
    (\<exists>prev p. mr_snapshot reg = Some prev \<and> a \<in> set (members (rs_model_accounts prev) s) \<and>
       map_of (rs_account_plans prev) a = Some p \<and> map_of act a = Some p)"
proof -
  let ?d = "build_draft dumps (mr_snapshot reg) per_plan per_account (Some act)"
  have w: "wf_registry reg" using assms(1-3) registry.run_inv new_registry_wf by blast
  obtain s where s: "s \<in> {slug, norm_slug slug}" "a \<in> set (members (rd_model_accounts ?d) s)"
    using assms(4-6) by (auto simp: account_ids_for_model_def update_registry_def build_snapshot_def Let_def split: if_splits)
  have "\<exists>prev p. mr_snapshot reg = Some prev \<and> a \<in> set (members (rs_model_accounts prev) s) \<and>
       map_of (rs_account_plans prev) a = Some p \<and> map_of act a = Some p"
    if carried: "a \<in> set (members (rd_model_accounts (carry_over (mr_snapshot reg) per_plan per_account (Some act))) s)"
  proof -
    obtain prev where prev: "mr_snapshot reg = Some prev"
      and e: "(s, a) \<in> set (kept_entries (rs_model_accounts prev) (known_in prev) (stale_account_ids prev per_plan per_account (Some act)))"
      using carried by (auto simp: carried_members split: option.splits)
    have d: "distinct (map fst (rs_model_accounts prev))" "distinct (map fst (rs_account_plans prev))"
      using w prev by (auto simp: wf_registry_def wf_snapshot_def wf_tables_def)
    have "a \<in> set (members (rs_model_accounts prev) s)" using e members_entry [OF d(1)] by (auto simp: kept_entries_iff)
    moreover obtain p where "(a, p) \<in> set (rs_account_plans prev)" "map_of act a = Some p"
      using e by (auto simp: kept_entries_iff stale_account_ids_def Let_def)
    ultimately show ?thesis using prev d(2) by auto
  qed
  then show ?thesis using draft_members [OF s(2)] s(1) by blast
qed

theorem account_support_has_evidence_witness:
  "\<exists>start reg. new_model_registry 300 = Inr start \<and>
     reg = fold (registry_step (\<lambda>_. [])) [Refresh 1 [(''plus'', [solo_model ''gpt-5.5''])]
             (Some [(''a'', ''plus'', [solo_model ''gpt-5.5''])]) (Some [(''a'', ''plus'')])] start \<and>
     (\<exists>s \<in> {''gpt-5.5'', norm_slug ''gpt-5.5''}.
       (\<exists>p ms. (''a'', p, ms) \<in> set (or_default (Some [(''b'', ''plus'', [solo_model ''gpt-5.5''])]) []) \<and> s \<in> um_slug ` set ms) \<or>
       (\<exists>prev p. mr_snapshot reg = Some prev \<and> ''a'' \<in> set (members (rs_model_accounts prev) s) \<and>
          map_of (rs_account_plans prev) ''a'' = Some p \<and> map_of [(''a'', ''plus''), (''b'', ''plus'')] ''a'' = Some p))"
proof -
  let ?es = "[Refresh 1 [(''plus'', [solo_model ''gpt-5.5''])] (Some [(''a'', ''plus'', [solo_model ''gpt-5.5''])]) (Some [(''a'', ''plus'')])]"
  let ?start = "\<lparr>mr_ttl = 300, mr_snapshot = None, mr_metadata = None, mr_hash = None\<rparr> :: model_registry"
  let ?reg = "fold (registry_step (\<lambda>_. [])) ?es ?start"
  let ?plan = "[(''plus'', [solo_model ''gpt-5.5''])]" let ?acc = "Some [(''b'', ''plus'', [solo_model ''gpt-5.5''])]"
  let ?act = "[(''a'', ''plus''), (''b'', ''plus'')]"
  have n: "new_model_registry 300 = Inr ?start" by (simp add: new_model_registry_def)
  have v: "valid_run registry_ok (registry_step (\<lambda>_. [])) ?es ?start" by simp
  have i: "account_ids_for_model (update_registry (\<lambda>_. []) 2 ?plan ?acc (Some ?act) ?reg) ''gpt-5.5'' = Some [''b'', ''a'']"
    by code_simp
  show ?thesis
    using account_support_has_evidence [of 300 ?start "\<lambda>_. []" ?es ?reg ?plan 2 ?acc ?act "''gpt-5.5''" "[''b'', ''a'']" "''a''",
        OF n v refl _ i] n by auto
qed

section \<open>Merging catalogs\<close>

lemma first_by_identities: "f ` set (first_by f seen xs) = f ` set xs - set seen"
  by (induction xs arbitrary: seen) auto

lemma first_by_subset: "set (first_by f seen xs) \<subseteq> set xs"
  by (induction xs arbitrary: seen) auto

lemma first_by_same: "x \<in> set xs \<Longrightarrow> \<exists>y \<in> set (first_by f [] xs). f y = f x"
  using first_by_identities [of f "[]" xs] by (auto simp: set_eq_iff image_iff) metis

text \<open>The fast tier, as a catalog entry offers it by a speed tier or by a service tier object.\<close>

definition fast_name :: "string \<Rightarrow> bool" where
  "fast_name v = (canonical_service_tier_value v = ''priority'')"

definition offers_fast :: "(string \<times> json) list \<Rightarrow> bool" where
  "offers_fast raw =
     ((\<exists>v. JStr v \<in> set (json_items (map_of raw ''additional_speed_tiers'')) \<and> fast_name v) \<or>
      (\<exists>e \<in> set (json_items (map_of raw ''service_tiers'')). list_ex fast_name (tier_names e)))"

lemma fast_nonempty: "fast_name v \<Longrightarrow> v \<noteq> []"
  by (auto simp: fast_name_def canonical_service_tier_value_def py_lower_def py_strip_def)

lemma set_strings: "v \<in> set (List.map_filter (\<lambda>j. case j of JStr s \<Rightarrow> Some s | _ \<Rightarrow> None) js) \<longleftrightarrow> JStr v \<in> set js"
  by (induction js) (auto simp: List.map_filter_simps split: json.splits)

lemma nonempty_member: "JStr v \<in> set js \<Longrightarrow> v \<noteq> [] \<Longrightarrow> v \<in> set (List.map_filter (\<lambda>j. nonempty_string (Some j)) js)"
  by (induction js) (auto simp: List.map_filter_simps nonempty_string_def split: option.splits)

lemma fast_value_key:
  assumes "v \<in> set values" "fast_name v"
  shows "''priority'' \<in> set (remdups (concat (map (\<lambda>v. let c = canonical_service_tier_value v in if c \<noteq> [] then [v, c] else [v]) values)))"
proof -
  have "''priority'' \<in> set (let c = canonical_service_tier_value v in if c \<noteq> [] then [v, c] else [v])"
    using assms(2) by (simp add: fast_name_def)
  then show ?thesis using assms(1) unfolding set_remdups set_concat set_map by blast
qed

lemma offers_fast_key:
  assumes "offers_fast (um_raw m)"
  shows "''priority'' \<in> set (model_service_tier_keys m)"
proof -
  let ?speed = "List.map_filter (\<lambda>j. nonempty_string (Some j)) (json_items (map_of (um_raw m) ''additional_speed_tiers''))"
  let ?tiers = "concat (map tier_names (json_items (map_of (um_raw m) ''service_tiers'')))"
  obtain v where "v \<in> set ?speed \<or> v \<in> set ?tiers" "fast_name v"
    using assms nonempty_member fast_nonempty unfolding offers_fast_def list_ex_iff set_concat set_map by blast
  then show ?thesis unfolding model_service_tier_keys_def Let_def [of "um_raw m"] Let_def [of "_ @ _"]
    by (intro fast_value_key) auto
qed

lemma union_strings_fast:
  assumes "JStr v \<in> set (json_items p @ json_items q)" "fast_name v"
  shows "\<exists>w. JStr w \<in> set (union_string_tiers p q) \<and> fast_name w"
proof -
  let ?xs = "List.map_filter (\<lambda>j. case j of JStr s \<Rightarrow> Some s | _ \<Rightarrow> None) (json_items p @ json_items q)"
  have "v \<in> set ?xs" using assms(1) by (simp only: set_strings)
  then obtain w where "w \<in> set (first_by canonical_service_tier_value [] ?xs)"
      "canonical_service_tier_value w = canonical_service_tier_value v"
    using first_by_same [of v ?xs canonical_service_tier_value] by blast
  then have "w \<in> set (first_by canonical_service_tier_value [] ?xs)" "fast_name w"
    using assms(2) by (simp_all only: fast_name_def)
  then show ?thesis unfolding union_string_tiers_def set_map by blast
qed

lemma fast_identity:
  assumes "\<forall>e. dumps e \<noteq> ''tier:priority''"
  shows "service_tier_identity dumps e = ''tier:priority'' \<longleftrightarrow> list_ex fast_name (tier_names e)"
proof -
  let ?ids = "filter (\<lambda>c. c \<noteq> []) (map canonical_service_tier_value (tier_names e))"
  have "service_tier_identity dumps e = ''tier:priority'' \<longleftrightarrow> ''priority'' \<in> set ?ids"
    using spec [OF assms, of e] hd_in_set [of ?ids] by (auto simp: service_tier_identity_def Let_def simp del: hd_in_set)
  also have "\<dots> \<longleftrightarrow> list_ex fast_name (tier_names e)"
    by (simp add: list_ex_iff fast_name_def image_iff) metis
  finally show ?thesis .
qed

lemma union_objects_fast:
  assumes "\<forall>e. dumps e \<noteq> ''tier:priority''" "e \<in> set (json_items p @ json_items q)" "list_ex fast_name (tier_names e)"
  shows "\<exists>e' \<in> set (union_object_tiers dumps p q). list_ex fast_name (tier_names e')"
proof -
  obtain e' where e': "e' \<in> set (union_object_tiers dumps p q)" "service_tier_identity dumps e' = service_tier_identity dumps e"
    using first_by_same [OF assms(2), of "service_tier_identity dumps"] unfolding union_object_tiers_def by blast
  then have "list_ex fast_name (tier_names e')"
    using assms(3) by (simp only: fast_identity [OF assms(1), symmetric])
  then show ?thesis using e'(1) by blast
qed

text \<open>
  Merging two catalog entries of one model never loses the fast tier: if either entry offers it,
  under any of the names the catalogs use for it, the merged entry is indexed under
  \<open>priority\<close>. The printer only has to keep away from the name of that tier.
\<close>

theorem fast_tier_survives_merge:
  assumes "\<forall>e. dumps e \<noteq> ''tier:priority''" "offers_fast (um_raw existing) \<or> offers_fast (um_raw incoming)"
  shows "''priority'' \<in> set (model_service_tier_keys (merge_service_tier_metadata dumps existing incoming))"
proof (rule offers_fast_key)
  let ?m = "um_raw (merge_service_tier_metadata dumps existing incoming)"
  let ?p = "um_raw incoming" and ?q = "um_raw existing"
  let ?speed = "union_string_tiers (map_of ?p ''additional_speed_tiers'') (map_of ?q ''additional_speed_tiers'')"
  let ?tiers = "union_object_tiers dumps (map_of ?p ''service_tiers'') (map_of ?q ''service_tiers'')"
  have strings: "?speed \<noteq> [] \<Longrightarrow> map_of ?m ''additional_speed_tiers'' = Some (JList ?speed)"
    and tiers: "?tiers \<noteq> [] \<Longrightarrow> map_of ?m ''service_tiers'' = Some (JList ?tiers)"
    by (auto simp: merge_service_tier_metadata_def Let_def update_conv' split: option.splits)
  consider (speed) v where "JStr v \<in> set (json_items (map_of ?p ''additional_speed_tiers'') @ json_items (map_of ?q ''additional_speed_tiers''))" "fast_name v"
    | (tier) e where "e \<in> set (json_items (map_of ?p ''service_tiers'') @ json_items (map_of ?q ''service_tiers''))" "list_ex fast_name (tier_names e)"
    using assms(2) unfolding offers_fast_def set_append by blast
  then show "offers_fast ?m"
  proof cases
    case speed
    from union_strings_fast [OF this] obtain w where w: "JStr w \<in> set ?speed" "fast_name w" by blast
    then have "json_items (map_of ?m ''additional_speed_tiers'') = ?speed" using strings by (cases ?speed) (simp_all add: json_items_def)
    then show ?thesis using w unfolding offers_fast_def by metis
  next
    case tier
    from union_objects_fast [OF assms(1) this] obtain e' where e': "e' \<in> set ?tiers" "list_ex fast_name (tier_names e')" by blast
    then have "json_items (map_of ?m ''service_tiers'') = ?tiers" using tiers by (cases ?tiers) (simp_all add: json_items_def)
    then show ?thesis using e' unfolding offers_fast_def by metis
  qed
qed

theorem fast_tier_survives_merge_witness:
  "''priority'' \<in> set (model_service_tier_keys (merge_service_tier_metadata (\<lambda>_. ''{}'')
     (bootstrap_model ''gpt-5.6-sol'' [] gpt56_raw) (bootstrap_model ''gpt-5.6-sol'' [] [(''service_tiers'', JList [])])))"
proof (rule fast_tier_survives_merge)
  have "JStr ''fast'' \<in> set (json_items (map_of gpt56_raw ''additional_speed_tiers''))" "fast_name ''fast''"
    by code_simp+
  then show "offers_fast (um_raw (bootstrap_model ''gpt-5.6-sol'' [] gpt56_raw)) \<or>
      offers_fast (um_raw (bootstrap_model ''gpt-5.6-sol'' [] [(''service_tiers'', JList [])]))"
    by (auto simp: offers_fast_def bootstrap_model_def)
qed simp

end
