(* ===== verification/Quota_Registry.thy ===== *)
theory Quota_Registry
  imports Plans
begin

text \<open>
  \<open>app/modules/usage/additional_quota_keys.py\<close> and
  \<open>app/modules/proxy/additional_model_limits.py\<close>: the registry of additional quotas. The
  registry file is decoded by the caller into a list of entries; building the index over it can
  fail on a bad or ambiguous entry. A frozenset is a list read by membership, a dictionary that is
  only looked up is a map. The caches over the file and its path are left out.
\<close>

section \<open>Identifiers\<close>

definition is_alnum :: "char \<Rightarrow> bool" where
  "is_alnum c = (let n = of_char c :: nat in 97 \<le> n \<and> n \<le> 122 \<or> 48 \<le> n \<and> n \<le> 57)"

text \<open>The substitution of every maximal run of other characters by one underscore.\<close>

function squash :: "string \<Rightarrow> string" where
  "squash [] = []"
| "squash (c # cs) =
     (if is_alnum c then c # squash cs else CHR ''_'' # squash (dropWhile (\<lambda>d. \<not> is_alnum d) cs))"
  by pat_completeness auto
termination
  by (relation "measure length") (auto simp: less_Suc_eq_le length_dropWhile_le)

definition strip_underscores :: "string \<Rightarrow> string" where
  "strip_underscores s =
     rev (dropWhile (\<lambda>c. c = CHR ''_'') (rev (dropWhile (\<lambda>c. c = CHR ''_'') s)))"

definition normalize_identifier :: "string option \<Rightarrow> string option" where
  "normalize_identifier v =
     (case v of None \<Rightarrow> None
      | Some s \<Rightarrow> (let n = strip_underscores (squash (py_lower (py_strip s))) in if n = [] then None else Some n))"

definition ADDITIONAL_QUOTA_ROUTING_POLICIES :: "string list" where
  "ADDITIONAL_QUOTA_ROUTING_POLICIES = [''inherit'', ''burn_first'', ''normal'', ''preserve'']"

definition canonicalize_additional_quota_routing_policy :: "string option \<Rightarrow> string option" where
  "canonicalize_additional_quota_routing_policy v =
     (case normalize_identifier v of None \<Rightarrow> None
      | Some n \<Rightarrow> (if n \<in> set ADDITIONAL_QUOTA_ROUTING_POLICIES then Some n else None))"

definition normalize_routing_policy :: "string option \<Rightarrow> string" where
  "normalize_routing_policy v = or_default (canonicalize_additional_quota_routing_policy v) ''inherit''"

definition normalize_additional_quota_routing_policy :: "string option \<Rightarrow> string" where
  "normalize_additional_quota_routing_policy v = normalize_routing_policy v"

section \<open>Definitions\<close>

record quota_definition =
  qd_key :: string
  qd_label :: string
  qd_policy :: string
  qd_models :: "string list"
  qd_plans :: "string list option"
  qd_key_aliases :: "string list"
  qd_limit_aliases :: "string list"
  qd_feature_aliases :: "string list"
  qd_raw_limit_aliases :: "string list"
  qd_raw_feature_aliases :: "string list"

text \<open>A decoded entry of the file; absent lists are empty.\<close>

record quota_entry =
  qe_key :: string
  qe_label :: string
  qe_policy :: "string option"
  qe_models :: "string list"
  qe_plans :: "string list option"
  qe_key_aliases :: "string list"
  qe_limit_aliases :: "string list"
  qe_feature_aliases :: "string list"

definition normalized_all :: "string list \<Rightarrow> string list" where
  "normalized_all vs = List.map_filter (\<lambda>v. normalize_identifier (Some v)) vs"

definition stripped_all :: "string list \<Rightarrow> string list" where
  "stripped_all vs = filter (\<lambda>a. a \<noteq> []) (map py_strip vs)"

definition definition_from_json :: "quota_entry \<Rightarrow> quota_definition result" where
  "definition_from_json item =
     (case normalize_identifier (Some (py_strip (qe_key item))) of
        None \<Rightarrow> Inl ValueError
      | Some quota_key \<Rightarrow>
          Inr \<lparr>qd_key = quota_key, qd_label = py_strip (qe_label item),
               qd_policy = normalize_routing_policy (qe_policy item),
               qd_models = normalized_all (qe_models item),
               qd_plans = map_option normalized_all (qe_plans item),
               qd_key_aliases = filter (\<lambda>a. a \<noteq> quota_key) (normalized_all (qe_key_aliases item)),
               qd_limit_aliases = normalized_all (qe_limit_aliases item),
               qd_feature_aliases = normalized_all (qe_feature_aliases item),
               qd_raw_limit_aliases = stripped_all (qe_limit_aliases item),
               qd_raw_feature_aliases = stripped_all (qe_feature_aliases item)\<rparr>)"

fun definitions_for_path :: "quota_entry list \<Rightarrow> quota_definition list result" where
  "definitions_for_path [] = Inr []"
| "definitions_for_path (item # items) =
     (case definition_from_json item of Inl e \<Rightarrow> Inl e
      | Inr d \<Rightarrow> (case definitions_for_path items of Inl e \<Rightarrow> Inl e | Inr ds \<Rightarrow> Inr (d # ds)))"

section \<open>The index\<close>

record quota_maps =
  by_quota_key :: "string \<rightharpoonup> quota_definition"
  model_to_quota_key :: "string \<rightharpoonup> string"
  model_to_definition :: "string \<rightharpoonup> quota_definition"
  alias_to_quota_key :: "string \<rightharpoonup> string"
  quota_key_alias_to_quota_key :: "string \<rightharpoonup> string"

definition empty_maps :: quota_maps where
  "empty_maps =
     \<lparr>by_quota_key = Map.empty, model_to_quota_key = Map.empty, model_to_definition = Map.empty,
      alias_to_quota_key = Map.empty, quota_key_alias_to_quota_key = Map.empty\<rparr>"

text \<open>Enter names for one key; a name that another key holds is an error.\<close>

fun claim_names :: "string list \<Rightarrow> string \<Rightarrow> (string \<rightharpoonup> string) \<Rightarrow> (string \<rightharpoonup> string) result" where
  "claim_names [] key m = Inr m"
| "claim_names (n # ns) key m =
     (case m n of
        Some k \<Rightarrow> (if k \<noteq> key then Inl ValueError else claim_names ns key (m(n \<mapsto> key)))
      | None \<Rightarrow> claim_names ns key (m(n \<mapsto> key)))"

definition add_definition :: "quota_definition \<Rightarrow> quota_maps \<Rightarrow> quota_maps result" where
  "add_definition d q =
     (let key = qd_key d
      in if by_quota_key q key \<noteq> None then Inl ValueError
         else
           case claim_names [key] key (quota_key_alias_to_quota_key q) of Inl e \<Rightarrow> Inl e
           | Inr keys \<Rightarrow>
               (case claim_names (qd_models d) key (model_to_quota_key q) of Inl e \<Rightarrow> Inl e
                | Inr models \<Rightarrow>
                    (case claim_names (qd_limit_aliases d @ qd_feature_aliases d) key (alias_to_quota_key q) of Inl e \<Rightarrow> Inl e
                     | Inr aliases \<Rightarrow>
                         (case claim_names (qd_key_aliases d) key keys of Inl e \<Rightarrow> Inl e
                          | Inr key_aliases \<Rightarrow>
                              Inr \<lparr>by_quota_key = (by_quota_key q)(key \<mapsto> d), model_to_quota_key = models,
                                   model_to_definition = (\<lambda>m. if m \<in> set (qd_models d) then Some d else model_to_definition q m),
                                   alias_to_quota_key = aliases,
                                   quota_key_alias_to_quota_key = key_aliases\<rparr>))))"

fun definition_maps_for_path :: "quota_definition list \<Rightarrow> quota_maps \<Rightarrow> quota_maps result" where
  "definition_maps_for_path [] q = Inr q"
| "definition_maps_for_path (d # ds) q =
     (case add_definition d q of Inl e \<Rightarrow> Inl e | Inr q' \<Rightarrow> definition_maps_for_path ds q')"

definition reload_additional_quota_registry :: "quota_entry list \<Rightarrow> (quota_maps \<times> nat) result" where
  "reload_additional_quota_registry items =
     (case definitions_for_path items of Inl e \<Rightarrow> Inl e
      | Inr ds \<Rightarrow>
          (case definition_maps_for_path ds empty_maps of Inl e \<Rightarrow> Inl e | Inr q \<Rightarrow> Inr (q, length ds)))"

section \<open>Queries\<close>

definition or_else :: "'a option \<Rightarrow> 'a option \<Rightarrow> 'a option" where
  "or_else x y = (case x of None \<Rightarrow> y | Some v \<Rightarrow> Some v)"

definition canonicalize_additional_quota_key ::
    "quota_maps \<Rightarrow> string option \<Rightarrow> string option \<Rightarrow> string option \<Rightarrow> string option \<Rightarrow> string option" where
  "canonicalize_additional_quota_key q model quota_key limit_name metered_feature =
     (let by = (\<lambda>m v. Option.bind (normalize_identifier v) m)
      in or_else (by (model_to_quota_key q) model)
           (or_else (by (quota_key_alias_to_quota_key q) quota_key)
              (or_else (by (alias_to_quota_key q) limit_name)
                 (or_else (by (alias_to_quota_key q) metered_feature)
                    (or_else (normalize_identifier limit_name)
                       (or_else (normalize_identifier metered_feature) (normalize_identifier quota_key)))))))"

definition get_additional_quota_definition_for_key :: "quota_maps \<Rightarrow> string option \<Rightarrow> quota_definition option" where
  "get_additional_quota_definition_for_key q quota_key =
     (let resolved = canonicalize_additional_quota_key q None quota_key None None;
          unknown = (case resolved of None \<Rightarrow> True | Some k \<Rightarrow> by_quota_key q k = None);
          key = (if unknown
                 then (case normalize_identifier quota_key of None \<Rightarrow> resolved
                       | Some n \<Rightarrow> or_else (alias_to_quota_key q n) resolved)
                 else resolved)
      in Option.bind key (by_quota_key q))"

fun normalize_additional_quota_routing_policy_overrides ::
    "quota_maps \<Rightarrow> (string \<times> string) list \<Rightarrow> (string \<rightharpoonup> string) \<Rightarrow> (string \<rightharpoonup> string)" where
  "normalize_additional_quota_routing_policy_overrides q [] m = m"
| "normalize_additional_quota_routing_policy_overrides q ((key, v) # rest) m =
     (case get_additional_quota_definition_for_key q (Some key) of
        None \<Rightarrow> normalize_additional_quota_routing_policy_overrides q rest m
      | Some d \<Rightarrow>
          normalize_additional_quota_routing_policy_overrides q rest
            (m(qd_key d \<mapsto> normalize_additional_quota_routing_policy (Some v))))"

definition get_additional_quota_routing_policy :: "quota_maps \<Rightarrow> string option \<Rightarrow> (string \<times> string) list \<Rightarrow> string" where
  "get_additional_quota_routing_policy q quota_key overrides =
     (case get_additional_quota_definition_for_key q quota_key of
        None \<Rightarrow> ''inherit''
      | Some d \<Rightarrow>
          or_default (normalize_additional_quota_routing_policy_overrides q overrides Map.empty (qd_key d)) (qd_policy d))"

definition get_additional_quota_definition :: "quota_maps \<Rightarrow> string option \<Rightarrow> quota_definition option" where
  "get_additional_quota_definition q quota_key =
     Option.bind (canonicalize_additional_quota_key q None quota_key None None) (by_quota_key q)"

definition get_additional_quota_lookup_keys ::
    "quota_maps \<Rightarrow> string option \<Rightarrow> string option \<Rightarrow> string option \<Rightarrow> string list option" where
  "get_additional_quota_lookup_keys q quota_key limit_name metered_feature =
     (case canonicalize_additional_quota_key q None quota_key limit_name metered_feature of
        None \<Rightarrow> None
      | Some k \<Rightarrow> (case by_quota_key q k of None \<Rightarrow> Some [k] | Some d \<Rightarrow> Some (k # qd_key_aliases d)))"

definition get_additional_quota_key_for_model :: "quota_maps \<Rightarrow> string option \<Rightarrow> string option" where
  "get_additional_quota_key_for_model q model = canonicalize_additional_quota_key q model None None None"

definition get_additional_quota_definition_for_model :: "quota_maps \<Rightarrow> string option \<Rightarrow> quota_definition option" where
  "get_additional_quota_definition_for_model q model =
     Option.bind (normalize_identifier model) (model_to_definition q)"

record quota_query_scope =
  qs_key :: string
  qs_keys :: "string list"
  qs_limit_names :: "string list"
  qs_features :: "string list"

definition get_additional_quota_query_scope ::
    "quota_maps \<Rightarrow> string option \<Rightarrow> string option \<Rightarrow> string option \<Rightarrow> quota_query_scope option" where
  "get_additional_quota_query_scope q quota_key limit_name metered_feature =
     (case canonicalize_additional_quota_key q None quota_key (if quota_key \<noteq> None then quota_key else limit_name)
             metered_feature of
        None \<Rightarrow> None
      | Some k \<Rightarrow>
          (case get_additional_quota_definition q (Some k) of
             None \<Rightarrow> Some \<lparr>qs_key = k, qs_keys = [k], qs_limit_names = [], qs_features = []\<rparr>
           | Some d \<Rightarrow>
               Some \<lparr>qs_key = k, qs_keys = k # qd_key_aliases d,
                     qs_limit_names = map py_lower (qd_raw_limit_aliases d) @ qd_limit_aliases d,
                     qs_features = map py_lower (qd_raw_feature_aliases d) @ qd_feature_aliases d\<rparr>))"

definition get_additional_display_label_for_quota_key :: "quota_maps \<Rightarrow> string option \<Rightarrow> string option" where
  "get_additional_display_label_for_quota_key q quota_key =
     map_option qd_label (get_additional_quota_definition q quota_key)"

definition get_additional_display_label ::
    "quota_maps \<Rightarrow> string option \<Rightarrow> string option \<Rightarrow> string option \<Rightarrow> string option" where
  "get_additional_display_label q quota_key limit_name metered_feature =
     get_additional_display_label_for_quota_key q
       (case quota_key of Some k \<Rightarrow> (if k \<noteq> [] then Some k else canonicalize_additional_quota_key q None None limit_name metered_feature)
        | None \<Rightarrow> canonicalize_additional_quota_key q None None limit_name metered_feature)"

section \<open>Model limits\<close>

record model_limit =
  ml_model :: string
  ml_key :: string
  ml_label :: string

definition get_additional_model_limit :: "quota_maps \<Rightarrow> string option \<Rightarrow> model_limit option" where
  "get_additional_model_limit q model =
     (case get_additional_quota_definition_for_model q model of None \<Rightarrow> None
      | Some d \<Rightarrow>
          map_option (\<lambda>m. \<lparr>ml_model = py_lower (py_strip m), ml_key = qd_key d, ml_label = qd_label d\<rparr>) model)"

definition get_additional_quota_key_for_model_id :: "quota_maps \<Rightarrow> string option \<Rightarrow> string option" where
  "get_additional_quota_key_for_model_id q model = map_option ml_key (get_additional_model_limit q model)"

definition get_additional_limit_name_for_model :: "quota_maps \<Rightarrow> string option \<Rightarrow> string option" where
  "get_additional_limit_name_for_model q model = get_additional_quota_key_for_model_id q model"

definition get_additional_display_label_for_model :: "quota_maps \<Rightarrow> string option \<Rightarrow> string option" where
  "get_additional_display_label_for_model q model =
     get_additional_display_label_for_quota_key q (get_additional_quota_key_for_model q model)"

section \<open>Normal identifiers\<close>

definition tidy :: "string \<Rightarrow> bool" where
  "tidy s \<longleftrightarrow> (\<forall>c \<in> set s. is_alnum c \<or> c = CHR ''_'') \<and> successively (\<lambda>a b. a \<noteq> CHR ''_'' \<or> b \<noteq> CHR ''_'') s"

definition normal_identifier :: "string \<Rightarrow> bool" where
  "normal_identifier s \<longleftrightarrow> s \<noteq> [] \<and> tidy s \<and> hd s \<noteq> CHR ''_'' \<and> last s \<noteq> CHR ''_''"

lemma alnum_underscore [simp]: "\<not> is_alnum (CHR ''_'')"
  by (simp add: is_alnum_def)

lemma tidy_append: "tidy (xs @ ys) \<Longrightarrow> tidy xs \<and> tidy ys"
  by (auto simp: tidy_def successively_append_iff)

lemma tidy_rev [simp]: "tidy (rev s) = tidy s"
proof -
  have "(\<lambda>a b. b \<noteq> CHR ''_'' \<or> a \<noteq> CHR ''_'') = (\<lambda>a b. a \<noteq> CHR ''_'' \<or> b \<noteq> CHR ''_'')" by (simp add: fun_eq_iff disj_commute)
  then show ?thesis unfolding tidy_def successively_rev set_rev by presburger
qed

lemma tidy_dropWhile: "tidy s \<Longrightarrow> tidy (dropWhile p s)"
  using tidy_append [of "takeWhile p s" "dropWhile p s"] by simp

lemma squash_head: "squash (dropWhile (\<lambda>d. \<not> is_alnum d) cs) = [] \<or> is_alnum (hd (squash (dropWhile (\<lambda>d. \<not> is_alnum d) cs)))"
proof (cases "dropWhile (\<lambda>d. \<not> is_alnum d) cs")
  case Nil
  show ?thesis unfolding Nil by simp
next
  case (Cons d ds)
  then have "is_alnum d" by (auto simp: dropWhile_eq_Cons_conv)
  then show ?thesis unfolding Cons by simp
qed

lemma tidy_squash: "tidy (squash s)"
proof (induction s rule: squash.induct)
  case (2 c cs)
  then show ?case
    using squash_head [of cs] by (cases "is_alnum c") (auto simp: tidy_def successively_Cons)
qed (simp add: tidy_def)

lemma squash_tidy: "tidy s \<Longrightarrow> squash s = s"
proof (induction s)
  case (Cons c cs)
  then have "tidy cs" using tidy_append [of "[c]" cs] by simp
  moreover have "\<not> is_alnum c \<Longrightarrow> dropWhile (\<lambda>d. \<not> is_alnum d) cs = cs"
    using Cons.prems by (cases cs) (auto simp: tidy_def)
  ultimately show ?case using Cons by (auto simp: tidy_def)
qed simp

lemma dropWhile_none: "\<forall>x \<in> set xs. \<not> p x \<Longrightarrow> dropWhile p xs = xs"
  by (cases xs) auto

lemma last_dropWhile: "dropWhile p xs \<noteq> [] \<Longrightarrow> last (dropWhile p xs) = last xs"
  by (induction xs) auto

lemma normal_strip_underscores:
  assumes "tidy s" "strip_underscores s \<noteq> []"
  shows "normal_identifier (strip_underscores s)"
proof -
  define d where "d = dropWhile (\<lambda>c. c = CHR ''_'') s"
  define e where "e = dropWhile (\<lambda>c. c = CHR ''_'') (rev d)"
  have strip: "strip_underscores s = rev e" by (simp add: strip_underscores_def d_def e_def)
  have ne: "e \<noteq> []" using assms(2) strip by simp
  then have "d \<noteq> []" by (auto simp: e_def)
  then have "hd d \<noteq> CHR ''_''" using hd_dropWhile d_def by blast
  moreover have "last e = last (rev d)" using ne last_dropWhile e_def by blast
  moreover have "hd e \<noteq> CHR ''_''" using ne hd_dropWhile e_def by blast
  moreover have "tidy e" using assms(1) by (simp add: tidy_dropWhile d_def e_def)
  ultimately show ?thesis using ne \<open>d \<noteq> []\<close> by (simp add: strip normal_identifier_def hd_rev last_rev)
qed

lemma normalize_identifier_normal: "normalize_identifier v = Some n \<Longrightarrow> normal_identifier n"
  by (auto simp: normalize_identifier_def Let_def tidy_squash intro: normal_strip_underscores split: option.splits if_splits)

lemma strip_underscores_normal: "normal_identifier s \<Longrightarrow> strip_underscores s = s"
proof -
  assume n: "normal_identifier s"
  have "dropWhile (\<lambda>c. c = CHR ''_'') s = s" using n by (cases s) (auto simp: normal_identifier_def)
  moreover have "dropWhile (\<lambda>c. c = CHR ''_'') (rev s) = rev s"
    using n by (cases "rev s") (auto simp: normal_identifier_def hd_rev simp flip: hd_rev)
  ultimately show ?thesis by (simp add: strip_underscores_def)
qed

lemma tidy_char: "tidy s \<Longrightarrow> c \<in> set s \<Longrightarrow> \<not> is_py_space c \<and> lower_char c = c"
  by (auto simp: tidy_def is_alnum_def is_py_space_def lower_char_def Let_def)

lemma py_strip_tidy: "tidy s \<Longrightarrow> py_strip s = s"
proof -
  assume "tidy s"
  then have "\<forall>c \<in> set s. \<not> is_py_space c" using tidy_char by blast
  then have "dropWhile is_py_space s = s" "dropWhile is_py_space (rev s) = rev s" by (simp_all add: dropWhile_none)
  then show ?thesis by (simp add: py_strip_def)
qed

lemma normalize_identifier_fixed: "normal_identifier n \<Longrightarrow> normalize_identifier (Some n) = Some n"
proof -
  assume n: "normal_identifier n"
  then have t: "tidy n" "n \<noteq> []" by (simp_all add: normal_identifier_def)
  have "py_lower n = n" unfolding py_lower_def using tidy_char [OF t(1)] by (simp add: map_idI)
  then show ?thesis
    using t strip_underscores_normal [OF n] by (simp add: normalize_identifier_def py_strip_tidy squash_tidy)
qed

lemma normalize_identifier_idem: "normalize_identifier v = Some n \<Longrightarrow> normalize_identifier (Some n) = Some n"
  by (rule normalize_identifier_fixed [OF normalize_identifier_normal])

section \<open>The index is consistent\<close>

definition wf_maps :: "quota_maps \<Rightarrow> bool" where
  "wf_maps q \<longleftrightarrow>
     (\<forall>k d. by_quota_key q k = Some d \<longrightarrow> qd_key d = k \<and> normal_identifier k \<and> quota_key_alias_to_quota_key q k = Some k)
     \<and> (\<forall>n k. quota_key_alias_to_quota_key q n = Some k \<longrightarrow> by_quota_key q k \<noteq> None)
     \<and> (\<forall>n k. alias_to_quota_key q n = Some k \<longrightarrow> by_quota_key q k \<noteq> None)
     \<and> (\<forall>n d. model_to_definition q n = Some d \<longrightarrow> by_quota_key q (qd_key d) = Some d)
     \<and> (\<forall>n. model_to_quota_key q n = map_option qd_key (model_to_definition q n))"

lemma claim_names_Inr:
  "claim_names ns key m = Inr m' \<Longrightarrow>
     m' = (\<lambda>n. if n \<in> set ns then Some key else m n) \<and> (\<forall>n k. m n = Some k \<longrightarrow> m' n = Some k)"
proof (induction ns arbitrary: m)
  case (Cons n ns)
  then have "claim_names ns key (m(n \<mapsto> key)) = Inr m'" "m n = None \<or> m n = Some key"
    by (auto split: option.splits if_splits)
  note IH = Cons.IH [OF this(1)] and n = this(2)
  have "m' x = Some k" if "m x = Some k" for x k
    using that conjunct2 [OF IH, rule_format, of x k] conjunct2 [OF IH, rule_format, of n key] n by (cases "x = n") auto
  then show ?case using IH by (auto simp: fun_eq_iff)
qed simp

lemma add_definition_wf:
  assumes "add_definition d q = Inr q'" "wf_maps q" "normal_identifier (qd_key d)"
  shows "wf_maps q'"
proof -
  let ?key = "qd_key d"
  obtain keys models aliases key_aliases where
    fresh: "by_quota_key q ?key = None"
    and c: "claim_names [?key] ?key (quota_key_alias_to_quota_key q) = Inr keys"
      "claim_names (qd_models d) ?key (model_to_quota_key q) = Inr models"
      "claim_names (qd_limit_aliases d @ qd_feature_aliases d) ?key (alias_to_quota_key q) = Inr aliases"
      "claim_names (qd_key_aliases d) ?key keys = Inr key_aliases"
    and q': "q' = \<lparr>by_quota_key = (by_quota_key q)(?key \<mapsto> d), model_to_quota_key = models,
        model_to_definition = (\<lambda>m. if m \<in> set (qd_models d) then Some d else model_to_definition q m),
        alias_to_quota_key = aliases, quota_key_alias_to_quota_key = key_aliases\<rparr>"
    using assms(1)
    by (auto simp: add_definition_def Let_def simp del: claim_names.simps split: sum.splits if_splits)
  note cs = claim_names_Inr [OF c(1)] claim_names_Inr [OF c(2)] claim_names_Inr [OF c(3)] claim_names_Inr [OF c(4)]
  have kept: "key_aliases n = Some k" if "quota_key_alias_to_quota_key q n = Some k" for n k
    using that cs(1,4) by blast
  have own: "key_aliases ?key = Some ?key" using cs(1,4) by (metis list.set_intros(1))
  have src: "key_aliases n = Some k \<Longrightarrow> k = ?key \<or> quota_key_alias_to_quota_key q n = Some k"
    "aliases n = Some k \<Longrightarrow> k = ?key \<or> alias_to_quota_key q n = Some k" for n k
    using cs(1,3,4) by (auto split: if_splits)
  have old: "qd_key x = k \<and> normal_identifier k \<and> quota_key_alias_to_quota_key q k = Some k" if "by_quota_key q k = Some x" for k x
    using assms(2) that by (simp add: wf_maps_def)
  have "models n = map_option qd_key (if n \<in> set (qd_models d) then Some d else model_to_definition q n)" for n
    using cs(2) assms(2) by (simp add: wf_maps_def)
  moreover have "k \<noteq> ?key" if "by_quota_key q k = Some x" for k x using that fresh by auto
  moreover have "((by_quota_key q)(?key \<mapsto> d)) k \<noteq> None"
    if "k = ?key \<or> quota_key_alias_to_quota_key q n = Some k \<or> alias_to_quota_key q n = Some k" for n k
    using that assms(2) by (auto simp: wf_maps_def)
  moreover have "by_quota_key q (qd_key x) = Some x" if "model_to_definition q n = Some x" for n x
    using assms(2) that by (simp add: wf_maps_def)
  ultimately show ?thesis
    using assms(3) old kept own src unfolding q' wf_maps_def
    by (intro conjI allI impI) (auto split: if_splits, metis+)
qed

lemma definition_key_normal: "definition_from_json item = Inr d \<Longrightarrow> normal_identifier (qd_key d)"
  using normalize_identifier_normal by (auto simp: definition_from_json_def split: option.splits)

lemma definitions_normal:
  "definitions_for_path items = Inr ds \<Longrightarrow> d \<in> set ds \<Longrightarrow> normal_identifier (qd_key d)"
proof (induction items arbitrary: ds)
  case (Cons item items)
  then show ?case by (auto dest: definition_key_normal split: sum.splits)
qed simp

lemma definition_maps_wf:
  "definition_maps_for_path ds q = Inr q' \<Longrightarrow> wf_maps q \<Longrightarrow> (\<And>d. d \<in> set ds \<Longrightarrow> normal_identifier (qd_key d)) \<Longrightarrow> wf_maps q'"
  by (induction ds arbitrary: q) (auto intro: add_definition_wf split: sum.splits)

lemma reload_wf: "reload_additional_quota_registry items = Inr (q, n) \<Longrightarrow> wf_maps q"
proof -
  assume r: "reload_additional_quota_registry items = Inr (q, n)"
  then obtain ds where "definitions_for_path items = Inr ds" "definition_maps_for_path ds empty_maps = Inr q"
    by (auto simp: reload_additional_quota_registry_def split: sum.splits)
  moreover have "wf_maps empty_maps" by (simp add: wf_maps_def empty_maps_def)
  ultimately show ?thesis using definition_maps_wf definitions_normal by blast
qed

lemma or_else_simps [simp]: "or_else None y = y" "or_else (Some v) y = Some v"
  by (simp_all add: or_else_def)

text \<open>
  Canonical quota keys are stable: with a registry that loads, a name resolves to a name that
  resolves to itself, so a key that was stored and a key that is resolved afresh agree; and the key
  that gates a model is the key under which the model's own definition is found.
\<close>

lemma canonical_quota_key_stable:
  assumes "reload_additional_quota_registry items = Inr (q, n)"
  shows "canonicalize_additional_quota_key q None v v None = Some k \<longrightarrow>
       canonicalize_additional_quota_key q None (Some k) (Some k) None = Some k"
    and "get_additional_quota_key_for_model_id q model = Some m \<longrightarrow>
       get_additional_quota_key_for_model q model = Some m
       \<and> get_additional_quota_definition q (Some m) = get_additional_quota_definition_for_model q model"
proof -
  note wf = reload_wf [OF assms, unfolded wf_maps_def]
  have keyed: "normalize_identifier (Some j) = Some j \<and> quota_key_alias_to_quota_key q j = Some j" if "by_quota_key q j \<noteq> None" for j
    using that wf by (auto intro: normalize_identifier_fixed)
  show "canonicalize_additional_quota_key q None v v None = Some k \<longrightarrow>
      canonicalize_additional_quota_key q None (Some k) (Some k) None = Some k"
  proof
    assume c: "canonicalize_additional_quota_key q None v v None = Some k"
    have none: "normalize_identifier None = None" by (simp add: normalize_identifier_def)
    obtain j where j: "normalize_identifier v = Some j"
      using c by (cases "normalize_identifier v") (auto simp: canonicalize_additional_quota_key_def none)
    show "canonicalize_additional_quota_key q None (Some k) (Some k) None = Some k"
    proof (cases "by_quota_key q k = None")
      case False
      then show ?thesis using keyed [OF False] by (simp add: canonicalize_additional_quota_key_def none)
    next
      case True
      have "quota_key_alias_to_quota_key q j \<noteq> Some k" "alias_to_quota_key q j \<noteq> Some k" using wf True by metis+
      then have "k = j" "quota_key_alias_to_quota_key q j = None" "alias_to_quota_key q j = None"
        using c j by (auto simp: canonicalize_additional_quota_key_def none or_else_def split: option.splits)
      then show ?thesis
        using normalize_identifier_idem [OF j] by (simp add: canonicalize_additional_quota_key_def none)
    qed
  qed
  show "get_additional_quota_key_for_model_id q model = Some m \<longrightarrow>
      get_additional_quota_key_for_model q model = Some m
      \<and> get_additional_quota_definition q (Some m) = get_additional_quota_definition_for_model q model"
  proof
    assume "get_additional_quota_key_for_model_id q model = Some m"
    then obtain j d where j: "normalize_identifier model = Some j" "model_to_definition q j = Some d" "m = qd_key d"
      by (auto simp: get_additional_quota_key_for_model_id_def get_additional_model_limit_def
          get_additional_quota_definition_for_model_def Option.bind_eq_Some_conv split: option.splits)
    then have "by_quota_key q m = Some d" "model_to_quota_key q j = Some m" using wf by auto
    then show "get_additional_quota_key_for_model q model = Some m
        \<and> get_additional_quota_definition q (Some m) = get_additional_quota_definition_for_model q model"
      using j keyed [of m]
      by (simp add: get_additional_quota_key_for_model_def canonicalize_additional_quota_key_def
          get_additional_quota_definition_def get_additional_quota_definition_for_model_def normalize_identifier_def [of None])
  qed
qed

end
