(* ===== verification/Selection_Load.thy ===== *)
theory Selection_Load
  imports Selection_Inputs Model_Refresh Quota_Registry Account_Cache
begin

text \<open>
  The load of the selection inputs: \<open>LoadBalancer._load_selection_inputs\<close> of
  \<open>modules/proxy/load_balancer.py\<close> with the filters it applies to the accounts, by model and service
  tier, by catalog evidence and by additional quota, and \<open>check_opportunistic_admission\<close>. What the
  repositories return during a load is its \<open>load_reads\<close>; the query for the latest additional usage is
  a function of the quota key, the window and the time since when. The registry of models and the
  registry of quotas are arguments. Cloned rows are the rows; the messages of errors name the model.
\<close>

section \<open>Reads\<close>

type_synonym usage_map = "(string \<times> usage_entry) list"

record load_reads =
  ld_accounts :: "account_row list"
  ld_planner :: planner_settings
  ld_primary :: usage_map
  ld_secondary :: usage_map
  ld_monthly :: usage_map
  ld_additional :: "string \<Rightarrow> string \<Rightarrow> real option \<Rightarrow> usage_map"
  ld_policies :: "json option"
  ld_now :: real

record load_env =
  le_quotas :: quota_maps
  le_registry :: model_registry
  le_settings :: recovery_settings

definition NO_PLAN_SUPPORT_FOR_MODEL :: string where "NO_PLAN_SUPPORT_FOR_MODEL = ''no_plan_support_for_model''"
definition ADDITIONAL_QUOTA_DATA_UNAVAILABLE :: string where
  "ADDITIONAL_QUOTA_DATA_UNAVAILABLE = ''additional_quota_data_unavailable''"
definition ADDITIONAL_QUOTA_EXHAUSTED :: string where "ADDITIONAL_QUOTA_EXHAUSTED = ''quota_exhausted''"
definition NO_ADDITIONAL_QUOTA_ELIGIBLE_ACCOUNTS :: string where
  "NO_ADDITIONAL_QUOTA_ELIGIBLE_ACCOUNTS = ''no_additional_quota_eligible_accounts''"
definition ADDITIONAL_QUOTA_EXEMPT_PLAN_TYPES :: "string list" where
  "ADDITIONAL_QUOTA_EXEMPT_PLAN_TYPES = [''free'', ''plus'', ''edu'']"

section \<open>Routing policies of additional quotas\<close>

definition normalize_additional_quota_key :: "quota_maps \<Rightarrow> string \<Rightarrow> string option" where
  "normalize_additional_quota_key q raw =
     (case canonicalize_additional_quota_key q None (Some raw) (Some raw) None of
        None \<Rightarrow> None
      | Some k \<Rightarrow> (if get_additional_quota_definition q (Some k) = None then None else Some k))"

fun add_policies :: "quota_maps \<Rightarrow> (string \<times> json) list \<Rightarrow> (string \<times> string) list \<Rightarrow> (string \<times> string) list" where
  "add_policies q [] acc = acc"
| "add_policies q ((key, JStr policy) # rest) acc =
     (let p = py_lower (py_strip policy)
      in case normalize_additional_quota_key q key of
           None \<Rightarrow> add_policies q rest acc
         | Some k \<Rightarrow>
             (if k \<noteq> [] \<and> p \<in> set ADDITIONAL_QUOTA_ROUTING_POLICIES then add_policies q rest (AList.update k p acc)
              else add_policies q rest acc))"
| "add_policies q (kv # rest) acc = add_policies q rest acc"

text \<open>The argument is the decoded setting, \<open>None\<close> when it is empty or does not decode.\<close>

definition parse_additional_quota_routing_policies :: "quota_maps \<Rightarrow> json option \<Rightarrow> (string \<times> string) list" where
  "parse_additional_quota_routing_policies q parsed =
     (case parsed of Some (JObj entries) \<Rightarrow> add_policies q entries [] | _ \<Rightarrow> [])"

definition additional_quota_routing_policy_override ::
    "quota_maps \<Rightarrow> string option \<Rightarrow> (string \<times> string) list \<Rightarrow> string option" where
  "additional_quota_routing_policy_override q limit_name policies =
     (case limit_name of None \<Rightarrow> None
      | Some l \<Rightarrow>
          (case canonicalize_additional_quota_key q None None (Some l) None of
             None \<Rightarrow> None
           | Some k \<Rightarrow>
               (let p = get_additional_quota_routing_policy q (Some k) policies in if p = ''inherit'' then None else Some p)))"

section \<open>Filters by model\<close>

definition selectable_accounts :: "account_row list \<Rightarrow> account_row list" where
  "selectable_accounts accounts = filter (\<lambda>a. row_status a \<notin> {REAUTH_REQUIRED, DEACTIVATED, PAUSED}) accounts"

definition mapped_model_has_registry_entry :: "model_registry \<Rightarrow> string option \<Rightarrow> bool" where
  "mapped_model_has_registry_entry reg model_opt =
     (case model_opt of
        None \<Rightarrow> False
      | Some model \<Rightarrow>
          (case plan_types_for_model reg model of
             Some (p # ps) \<Rightarrow> True
           | _ \<Rightarrow> is_suppressed_model reg model))"

record model_filter =
  mf_accounts :: "account_row list"
  mf_general :: "string list option"
  mf_tier :: "string option"

definition plan_allows :: "string list option \<Rightarrow> account_row \<Rightarrow> bool" where
  "plan_allows allowed a = (case allowed of None \<Rightarrow> True | Some ps \<Rightarrow> account_plan_matches_allowed (row_plan_type a) ps)"

definition listed :: "string list \<Rightarrow> account_row \<Rightarrow> bool" where
  "listed ids a = (row_id a \<in> set ids)"

definition effective_service_tier :: "string option \<Rightarrow> string option" where
  "effective_service_tier service_tier =
     (case service_tier of None \<Rightarrow> None
      | Some t \<Rightarrow> (if py_lower (py_strip t) \<in> {''auto'', ''default''} then None else Some t))"

definition filter_accounts_for_model_with_catalog_evidence ::
    "model_registry \<Rightarrow> account_row list \<Rightarrow> string \<Rightarrow> string option \<Rightarrow> bool \<Rightarrow> model_filter" where
  "filter_accounts_for_model_with_catalog_evidence reg accounts model service_tier override =
     (let covered = (case mr_snapshot reg of None \<Rightarrow> False
                     | Some sn \<Rightarrow> list_all (\<lambda>a. row_id a \<in> set (map fst (rs_account_plans sn))) accounts);
          general = (if covered then account_ids_for_model reg model else None);
          by_model = (case general of None \<Rightarrow> accounts | Some ids \<Rightarrow> (if override then accounts else filter (listed ids) accounts));
          tier = effective_service_tier service_tier;
          result = (\<lambda>as. \<lparr>mf_accounts = as, mf_general = general, mf_tier = tier\<rparr>)
      in case tier of
           None \<Rightarrow> result (filter (plan_allows (plan_types_for_model reg model)) by_model)
         | Some t \<Rightarrow>
             (case (if covered then account_ids_for_model_service_tier reg model (Some t) else None) of
                None \<Rightarrow> result (filter (plan_allows (plan_types_for_model_service_tier reg model (Some t))) by_model)
              | Some allowed \<Rightarrow>
                  (case general of
                     Some ids \<Rightarrow>
                       (if override
                        then result (filter (\<lambda>a. if listed ids a then listed allowed a
                                       else plan_allows (plan_types_for_model_service_tier reg model (Some t)) a) accounts)
                        else result (filter (listed allowed) by_model))
                   | None \<Rightarrow> result (filter (listed allowed) by_model))))"

definition filter_accounts_for_model :: "model_registry \<Rightarrow> account_row list \<Rightarrow> string \<Rightarrow> string option \<Rightarrow> account_row list" where
  "filter_accounts_for_model reg accounts model service_tier =
     mf_accounts (filter_accounts_for_model_with_catalog_evidence reg accounts model service_tier False)"

section \<open>Filter by additional quota\<close>

definition additional_usage_fresh_since :: "recovery_settings \<Rightarrow> real \<Rightarrow> real" where
  "additional_usage_fresh_since cfg now = now - of_int (max (usage_refresh_interval_seconds cfg * 2) 180)"

definition latest_additional_by_key ::
    "quota_maps \<Rightarrow> load_reads \<Rightarrow> string \<Rightarrow> string \<Rightarrow> string list \<Rightarrow> real option \<Rightarrow> usage_map" where
  "latest_additional_by_key q rd quota_key window ids since =
     (case canonicalize_additional_quota_key q None (Some quota_key) (Some quota_key) None of
        None \<Rightarrow> []
      | Some k \<Rightarrow> filter (\<lambda>p. fst p \<in> set ids) (ld_additional rd k window since))"

definition additional_usage_is_exhausted :: "real \<Rightarrow> usage_entry \<Rightarrow> bool" where
  "additional_usage_is_exhausted now e =
     (case entry_reset e of
        Some r \<Rightarrow> (if r \<le> \<lfloor>now\<rfloor> then False else entry_used e \<ge> 100)
      | None \<Rightarrow> entry_used e \<ge> 100)"

definition additional_quota_applies_to_plan :: "quota_maps \<Rightarrow> string option \<Rightarrow> string option \<Rightarrow> bool" where
  "additional_quota_applies_to_plan q quota_key plan =
     (case get_additional_quota_definition q quota_key of
        None \<Rightarrow> True
      | Some d \<Rightarrow>
          (case (qd_plans d, normalize_account_plan_type plan) of
             (Some plans, Some p) \<Rightarrow> p \<in> set plans \<or> p \<notin> set ADDITIONAL_QUOTA_EXEMPT_PLAN_TYPES
           | _ \<Rightarrow> True))"

datatype eligibility = Eligible | Data_unavailable | Quota_exhausted

record additional_maps =
  am_latest_primary :: usage_map
  am_latest_secondary :: usage_map
  am_fresh_primary :: usage_map
  am_fresh_secondary :: usage_map

definition exhausted_entry :: "real \<Rightarrow> usage_entry option \<Rightarrow> bool" where
  "exhausted_entry now e = (case e of None \<Rightarrow> False | Some x \<Rightarrow> additional_usage_is_exhausted now x)"

definition additional_quota_eligibility ::
    "quota_maps \<Rightarrow> real \<Rightarrow> string \<Rightarrow> bool \<Rightarrow> bool \<Rightarrow> additional_maps \<Rightarrow> account_row \<Rightarrow> eligibility" where
  "additional_quota_eligibility q now quota_key explicit_limit require_fresh am a =
     (let lp = map_of (am_latest_primary am) (row_id a); ls = map_of (am_latest_secondary am) (row_id a);
          fp = map_of (am_fresh_primary am) (row_id a); fs = map_of (am_fresh_secondary am) (row_id a)
      in if \<not> require_fresh \<and> \<not> explicit_limit \<and> \<not> additional_quota_applies_to_plan q (Some quota_key) (row_plan_type a)
         then Eligible
         else if lp = None \<and> ls = None then Data_unavailable
         else if lp \<noteq> None \<and> fp = None then Data_unavailable
         else if ls \<noteq> None \<and> fs = None then Data_unavailable
         else if exhausted_entry now fp then Quota_exhausted
         else if exhausted_entry now fs then Quota_exhausted
         else Eligible)"

record limit_filter =
  lf_accounts :: "account_row list"
  lf_primary :: usage_map
  lf_secondary :: usage_map
  lf_code :: "string option"
  lf_message :: "string option"

definition model_text :: "string option \<Rightarrow> string" where
  "model_text model = or_default model ''None''"

definition additional_maps_for :: "quota_maps \<Rightarrow> recovery_settings \<Rightarrow> load_reads \<Rightarrow> string \<Rightarrow> string list \<Rightarrow> additional_maps" where
  "additional_maps_for q cfg rd limit_name ids =
     (let since = Some (additional_usage_fresh_since cfg (ld_now rd))
      in \<lparr>am_latest_primary = latest_additional_by_key q rd limit_name ''primary'' ids None,
          am_latest_secondary = latest_additional_by_key q rd limit_name ''secondary'' ids None,
          am_fresh_primary = latest_additional_by_key q rd limit_name ''primary'' ids since,
          am_fresh_secondary = latest_additional_by_key q rd limit_name ''secondary'' ids since\<rparr>)"

definition filter_accounts_for_additional_limit ::
    "quota_maps \<Rightarrow> recovery_settings \<Rightarrow> load_reads \<Rightarrow> account_row list \<Rightarrow> string option \<Rightarrow> string \<Rightarrow> bool \<Rightarrow> string list
     \<Rightarrow> limit_filter" where
  "filter_accounts_for_additional_limit q cfg rd accounts model limit_name explicit_limit require_fresh_ids =
     (if accounts = [] then \<lparr>lf_accounts = [], lf_primary = [], lf_secondary = [], lf_code = None, lf_message = None\<rparr>
      else
        let am = additional_maps_for q cfg rd limit_name (map row_id accounts);
            verdict = (\<lambda>a. additional_quota_eligibility q (ld_now rd) limit_name explicit_limit
                             (row_id a \<in> set require_fresh_ids) am a);
            eligible = filter (\<lambda>a. verdict a = Eligible) accounts;
            (code, msg) =
              (if list_ex (\<lambda>a. verdict a = Data_unavailable) accounts
               then (ADDITIONAL_QUOTA_DATA_UNAVAILABLE, ''No fresh additional quota data available for model '' @ [CHR 0x27] @ model_text model @ [CHR 0x27])
               else if list_ex (\<lambda>a. verdict a = Quota_exhausted) accounts
               then (ADDITIONAL_QUOTA_EXHAUSTED, ''Additional quota exhausted for model '' @ [CHR 0x27] @ model_text model @ [CHR 0x27])
               else (NO_ADDITIONAL_QUOTA_ELIGIBLE_ACCOUNTS,
                     ''No accounts with available additional quota for model '' @ [CHR 0x27] @ model_text model @ [CHR 0x27]))
        in if eligible = []
           then \<lparr>lf_accounts = [], lf_primary = am_latest_primary am, lf_secondary = am_latest_secondary am,
                 lf_code = Some code, lf_message = Some msg\<rparr>
           else \<lparr>lf_accounts = eligible,
                 lf_primary = filter (\<lambda>p. fst p \<in> set (map row_id eligible)) (am_latest_primary am),
                 lf_secondary = filter (\<lambda>p. fst p \<in> set (map row_id eligible)) (am_latest_secondary am),
                 lf_code = None, lf_message = None\<rparr>)"

section \<open>The load\<close>

record load_request =
  lq_model :: "string option"
  lq_tier :: "string option"
  lq_limit :: "string option"
  lq_scope :: "string list option"

definition gated_limit_name_for_model :: "quota_maps \<Rightarrow> string option \<Rightarrow> string option" where
  "gated_limit_name_for_model q model = get_additional_quota_key_for_model_id q model"

definition effective_limit_name :: "quota_maps \<Rightarrow> load_request \<Rightarrow> string option" where
  "effective_limit_name q lq =
     (case lq_limit lq of
        Some l \<Rightarrow> (if l \<noteq> [] then Some l else gated_limit_name_for_model q (lq_model lq))
      | None \<Rightarrow> gated_limit_name_for_model q (lq_model lq))"

definition given :: "string option \<Rightarrow> string option" where
  "given v = (case v of Some [] \<Rightarrow> None | _ \<Rightarrow> v)"

text \<open>The scope of the request, and what the model leaves of it.\<close>

definition scoped_accounts :: "load_request \<Rightarrow> account_row list \<Rightarrow> account_row list" where
  "scoped_accounts lq accounts =
     (case lq_scope lq of None \<Rightarrow> accounts | Some ids \<Rightarrow> filter (listed ids) accounts)"

record model_stage =
  ms_accounts :: "account_row list"
  ms_owners :: "account_row list"
  ms_omitted :: "string list"
  ms_tier :: "string option"

definition quota_overrides_catalog :: "quota_maps \<Rightarrow> load_request \<Rightarrow> bool" where
  "quota_overrides_catalog q lq = (lq_limit lq = None \<and> gated_limit_name_for_model q (lq_model lq) \<noteq> None)"

definition model_stage_of :: "load_env \<Rightarrow> load_request \<Rightarrow> account_row list \<Rightarrow> model_stage" where
  "model_stage_of le lq scoped =
     (let pre = selectable_accounts scoped
      in case given (lq_model lq) of
           Some m \<Rightarrow>
             (if mapped_model_has_registry_entry (le_registry le) (Some m)
              then
                let override = quota_overrides_catalog (le_quotas le) lq;
                    mf = filter_accounts_for_model_with_catalog_evidence (le_registry le) pre m (lq_tier lq) override
                in \<lparr>ms_accounts = mf_accounts mf,
                    ms_owners = filter_accounts_for_model (le_registry le) scoped m (lq_tier lq),
                    ms_omitted =
                      (case mf_general mf of
                         Some ids \<Rightarrow> (if override then map row_id (filter (\<lambda>a. \<not> listed ids a) (mf_accounts mf)) else [])
                       | None \<Rightarrow> []),
                    ms_tier = mf_tier mf\<rparr>
              else \<lparr>ms_accounts = pre, ms_owners = scoped, ms_omitted = [], ms_tier = None\<rparr>)
         | None \<Rightarrow> \<lparr>ms_accounts = pre, ms_owners = scoped, ms_omitted = [], ms_tier = None\<rparr>)"

definition empty_inputs :: "load_reads \<Rightarrow> account_row list \<Rightarrow> string option \<Rightarrow> string option \<Rightarrow> selection_inputs" where
  "empty_inputs rd owners msg code =
     (new_inputs [] [] [] [] (ld_planner rd))
       \<lparr>si_owner_candidates := Some owners, si_runtime_accounts := Some (ld_accounts rd),
        si_error_message := msg, si_error_code := code\<rparr>"

definition quoted :: "string \<Rightarrow> string" where
  "quoted v = [CHR 0x27] @ v @ [CHR 0x27]"

definition no_model_inputs :: "load_reads \<Rightarrow> string \<Rightarrow> account_row list \<Rightarrow> model_stage \<Rightarrow> selection_inputs" where
  "no_model_inputs rd m pre ms =
     (if ld_accounts rd = [] then empty_inputs rd (ms_owners ms) None None
      else if pre = [] then empty_inputs rd [] None None
      else if ms_owners ms \<noteq> [] then empty_inputs rd (ms_owners ms) None None
      else empty_inputs rd (ms_owners ms)
             (Some (''No accounts with a plan supporting model '' @ quoted m
                    @ (case ms_tier ms of None \<Rightarrow> [] | Some t \<Rightarrow> '' at service tier '' @ quoted t)))
             (Some NO_PLAN_SUPPORT_FOR_MODEL))"

text \<open>The accounts whose usage is read from the additional quota instead of the standard one.\<close>

definition quota_scoped_ids :: "load_env \<Rightarrow> load_request \<Rightarrow> account_row list \<Rightarrow> string list" where
  "quota_scoped_ids le lq accounts =
     (let allowed = (case given (lq_model lq) of None \<Rightarrow> None | Some m \<Rightarrow> plan_types_for_model (le_registry le) m)
      in map row_id (filter (\<lambda>a. lq_limit lq \<noteq> None \<or>
           (case allowed of None \<Rightarrow> False
            | Some ps \<Rightarrow>
                (case normalize_account_plan_type (row_plan_type a) of
                   None \<Rightarrow> True | Some p \<Rightarrow> p \<notin> set ADDITIONAL_QUOTA_EXEMPT_PLAN_TYPES)
                \<and> account_plan_matches_allowed (row_plan_type a) ps)) accounts))"

definition overlay :: "string list \<Rightarrow> usage_map \<Rightarrow> usage_map \<Rightarrow> usage_map" where
  "overlay ids standard additional =
     fold (\<lambda>a m. case map_of additional a of
                   None \<Rightarrow> AList.delete a m
                 | Some e \<Rightarrow> AList.update a e (AList.delete a m)) ids standard"

definition routable_inputs ::
    "load_env \<Rightarrow> load_reads \<Rightarrow> load_request \<Rightarrow> string option \<Rightarrow> string option \<Rightarrow> model_stage \<Rightarrow> account_row list
     \<Rightarrow> limit_filter option \<Rightarrow> selection_inputs" where
  "routable_inputs le rd lq limit policy ms accounts lf_opt =
     (let ids = (case lf_opt of None \<Rightarrow> [] | Some lf \<Rightarrow> quota_scoped_ids le lq accounts)
      in (new_inputs accounts
            (case lf_opt of None \<Rightarrow> ld_primary rd | Some lf \<Rightarrow> overlay ids (ld_primary rd) (lf_primary lf))
            (case lf_opt of None \<Rightarrow> ld_secondary rd | Some lf \<Rightarrow> overlay ids (ld_secondary rd) (lf_secondary lf))
            (ld_monthly rd) (ld_planner rd))
           \<lparr>si_owner_candidates := Some (ms_owners ms), si_runtime_accounts := Some (ld_accounts rd),
            si_ignore_ids := ids, si_ignore_status := limit \<noteq> None, si_persist_status := True,
            si_policy_override := policy,
            si_omission_ids := filter (\<lambda>i. i \<in> set (ms_omitted ms)) (map row_id accounts)\<rparr>)"

text \<open>The rest of the load, once the model has left some accounts or none was given.\<close>

definition limited_inputs ::
    "load_env \<Rightarrow> load_reads \<Rightarrow> load_request \<Rightarrow> string option \<Rightarrow> string option \<Rightarrow> model_stage \<Rightarrow> selection_inputs" where
  "limited_inputs le rd lq limit policy ms =
     (case given limit of
        Some l \<Rightarrow>
          (let lf = filter_accounts_for_additional_limit (le_quotas le) (le_settings le) rd (ms_accounts ms)
                      (lq_model lq) l (lq_limit lq \<noteq> None) (ms_omitted ms)
           in if lf_accounts lf = [] then empty_inputs rd (ms_owners ms) (lf_message lf) (lf_code lf)
              else routable_inputs le rd lq limit policy ms (lf_accounts lf) (Some lf))
      | None \<Rightarrow>
          (if ms_accounts ms = [] then empty_inputs rd (ms_owners ms) None None
           else routable_inputs le rd lq limit policy ms (ms_accounts ms) None))"

definition load_uncached :: "load_env \<Rightarrow> load_reads \<Rightarrow> load_request \<Rightarrow> (string \<times> string) list \<Rightarrow> selection_inputs" where
  "load_uncached le rd lq policies =
     (let limit = effective_limit_name (le_quotas le) lq;
          policy = additional_quota_routing_policy_override (le_quotas le) limit policies;
          scoped = scoped_accounts lq (ld_accounts rd);
          ms = model_stage_of le lq scoped
      in case given (lq_model lq) of
           Some m \<Rightarrow>
             (if ms_accounts ms = [] then no_model_inputs rd m (selectable_accounts scoped) ms
              else limited_inputs le rd lq limit policy ms)
         | None \<Rightarrow> limited_inputs le rd lq limit policy ms)"

text \<open>
  Through the cache. \<open>now\<close> is the clock of the cache at the lookup and at the store; between them other
  tasks may have changed the cache, \<open>others\<close>, and a changed generation refuses the store.
\<close>

type_synonym load_cache_key =
  "string option \<times> string option \<times> string option \<times> (string \<times> string) list \<times> string list option"

definition load_key :: "load_request \<Rightarrow> (string \<times> string) list \<Rightarrow> load_cache_key" where
  "load_key lq policies =
     (lq_model lq, lq_tier lq, lq_limit lq, sort_key fst policies, map_option (\<lambda>ids. sort (remdups ids)) (lq_scope lq))"

type_synonym load_cache = "(load_cache_key, selection_inputs) selection_cache"

definition load_policies :: "load_env \<Rightarrow> load_reads \<Rightarrow> load_request \<Rightarrow> (string \<times> string) list" where
  "load_policies le rd lq =
     (case effective_limit_name (le_quotas le) lq of
        None \<Rightarrow> []
      | Some l \<Rightarrow> parse_additional_quota_routing_policies (le_quotas le) (ld_policies rd))"

definition load_selection_inputs ::
    "load_env \<Rightarrow> load_reads \<Rightarrow> (load_cache \<Rightarrow> load_cache) \<Rightarrow> real \<Rightarrow> real \<Rightarrow> load_request \<Rightarrow> load_cache
     \<Rightarrow> selection_inputs \<times> load_cache" where
  "load_selection_inputs le rd others now stored_at lq cache =
     (let policies = load_policies le rd lq; key = load_key lq policies
      in case selection_cache_get now key cache of
           Some si \<Rightarrow> (si, cache)
         | None \<Rightarrow>
             (let si = load_uncached le rd lq policies
              in (si, selection_cache_set stored_at key si (Some (sel_generation cache)) (others cache))))"

section \<open>What the filters admit\<close>

lemma model_filter_subset:
  "set (mf_accounts (filter_accounts_for_model_with_catalog_evidence reg as m t ov)) \<subseteq> set as"
  by (auto simp: filter_accounts_for_model_with_catalog_evidence_def Let_def split: option.splits if_splits)

lemma model_filter_distinct:
  "distinct (map row_id as) \<Longrightarrow>
   distinct (map row_id (mf_accounts (filter_accounts_for_model_with_catalog_evidence reg as m t ov)))"
  by (simp add: filter_accounts_for_model_with_catalog_evidence_def Let_def distinct_map_filter split: option.split)

lemma model_filter_general:
  "mf_general (filter_accounts_for_model_with_catalog_evidence reg as m t ov) =
     (if (case mr_snapshot reg of None \<Rightarrow> False
          | Some sn \<Rightarrow> list_all (\<lambda>a. row_id a \<in> set (map fst (rs_account_plans sn))) as)
      then account_ids_for_model reg m else None)"
  by (simp add: filter_accounts_for_model_with_catalog_evidence_def Let_def split: option.split)

text \<open>Without the override, an authoritative catalog is binding.\<close>

lemma model_filter_listed:
  assumes "mf_general (filter_accounts_for_model_with_catalog_evidence reg as m t False) = Some ids"
    "a \<in> set (mf_accounts (filter_accounts_for_model_with_catalog_evidence reg as m t False))"
  shows "listed ids a"
  using assms by (auto simp: filter_accounts_for_model_with_catalog_evidence_def Let_def split: option.splits if_splits)

lemma stage_subset: "set (ms_accounts (model_stage_of le lq scoped)) \<subseteq> set (selectable_accounts scoped)"
  by (simp add: model_stage_of_def Let_def model_filter_subset split: option.split)

lemma stage_distinct: "distinct (map row_id scoped) \<Longrightarrow> distinct (map row_id (ms_accounts (model_stage_of le lq scoped)))"
  by (simp add: model_stage_of_def Let_def model_filter_distinct selectable_accounts_def distinct_map_filter split: option.split)

lemma limit_filter_accounts:
  "lf_accounts (filter_accounts_for_additional_limit q cfg rd as model l ex req) =
     filter (\<lambda>a. additional_quota_eligibility q (ld_now rd) l ex (row_id a \<in> set req)
               (additional_maps_for q cfg rd l (map row_id as)) a = Eligible) as"
  by (auto simp: filter_accounts_for_additional_limit_def Let_def)

text \<open>The accounts of a load: those the model leaves, narrowed by the additional quota.\<close>

lemma load_accounts:
  "si_accounts (load_uncached le rd lq policies) =
     (let as = ms_accounts (model_stage_of le lq (scoped_accounts lq (ld_accounts rd)));
          omitted = ms_omitted (model_stage_of le lq (scoped_accounts lq (ld_accounts rd)))
      in case given (effective_limit_name (le_quotas le) lq) of
           None \<Rightarrow> as
         | Some l \<Rightarrow> filter (\<lambda>a. additional_quota_eligibility (le_quotas le) (ld_now rd) l (lq_limit lq \<noteq> None)
                      (row_id a \<in> set omitted)
                      (additional_maps_for (le_quotas le) (le_settings le) rd l (map row_id as)) a = Eligible) as)"
  by (simp add: load_uncached_def limited_inputs_def routable_inputs_def no_model_inputs_def empty_inputs_def new_inputs_def
      Let_def limit_filter_accounts split: option.split)

lemma load_distinct:
  "distinct (map row_id (ld_accounts rd)) \<Longrightarrow> distinct (map row_id (si_accounts (load_uncached le rd lq policies)))"
  by (simp add: load_accounts Let_def stage_distinct distinct_map_filter scoped_accounts_def split: option.split)

text \<open>Fresh evidence that the additional quota of an account is not used up.\<close>

definition quota_evidence :: "load_env \<Rightarrow> load_reads \<Rightarrow> string \<Rightarrow> account_row \<Rightarrow> bool" where
  "quota_evidence le rd l a =
     (\<exists>w \<in> {''primary'', ''secondary''}. \<exists>e.
        map_of (latest_additional_by_key (le_quotas le) rd l w [row_id a]
                  (Some (additional_usage_fresh_since (le_settings le) (ld_now rd)))) (row_id a) = Some e
        \<and> \<not> additional_usage_is_exhausted (ld_now rd) e)"

lemma map_of_filter_keys: "map_of (filter (\<lambda>p. P (fst p)) xs) k = (if P k then map_of xs k else None)"
  by (induction xs) auto

lemma latest_single:
  "row_id a \<in> set ids \<Longrightarrow>
   map_of (latest_additional_by_key q rd l w ids since) (row_id a) = map_of (latest_additional_by_key q rd l w [row_id a] since) (row_id a)"
  by (simp add: latest_additional_by_key_def map_of_filter_keys [where P = "\<lambda>x. x \<in> set ids"]
      map_of_filter_keys [where P = "\<lambda>x. x = row_id a"] split: option.split)

lemma eligibleD:
  assumes "additional_quota_eligibility q now l ex True am a = Eligible"
  obtains e where "map_of (am_fresh_primary am) (row_id a) = Some e" "\<not> additional_usage_is_exhausted now e"
    | e where "map_of (am_fresh_secondary am) (row_id a) = Some e" "\<not> additional_usage_is_exhausted now e"
  using assms
  by (cases "map_of (am_fresh_primary am) (row_id a)"; cases "map_of (am_fresh_secondary am) (row_id a)")
     (simp_all add: additional_quota_eligibility_def Let_def exhausted_entry_def split: if_splits)

lemma eligible_evidence:
  assumes "additional_quota_eligibility (le_quotas le) (ld_now rd) l ex True
      (additional_maps_for (le_quotas le) (le_settings le) rd l ids) a = Eligible" "row_id a \<in> set ids"
  shows "quota_evidence le rd l a"
proof -
  let ?f = "\<lambda>w. map_of (latest_additional_by_key (le_quotas le) rd l w [row_id a]
      (Some (additional_usage_fresh_since (le_settings le) (ld_now rd)))) (row_id a)"
  obtain w e where "w \<in> {''primary'', ''secondary''}" "?f w = Some e" "\<not> additional_usage_is_exhausted (ld_now rd) e"
    using assms(1)
    by (rule eligibleD) (simp_all only: additional_maps_for_def Let_def additional_maps.simps latest_single [OF assms(2)], blast+)
  then show ?thesis unfolding quota_evidence_def by blast
qed

lemma gated_nonempty:
  assumes "reload_additional_quota_registry items = Inr (q, n)" "gated_limit_name_for_model q model = Some l"
  shows "l \<noteq> []"
proof -
  obtain j d where "model_to_definition q j = Some d" "l = qd_key d"
    using assms(2) by (auto simp: gated_limit_name_for_model_def get_additional_quota_key_for_model_id_def get_additional_model_limit_def
        get_additional_quota_definition_for_model_def Option.bind_eq_Some_conv split: option.splits)
  then have "normal_identifier l" using reload_wf [OF assms(1)] unfolding wf_maps_def by metis
  then show ?thesis by (auto simp: normal_identifier_def)
qed


section \<open>Witness\<close>

definition w_quota_items :: "quota_entry list" where
  "w_quota_items =
     [\<lparr>qe_key = ''codex_spark'', qe_label = ''Spark'', qe_policy = None, qe_models = [''gpt-5.3-codex-spark''], qe_plans = None,
       qe_key_aliases = [], qe_limit_aliases = [], qe_feature_aliases = []\<rparr>]"

definition w_load_rows :: "account_row list" where
  "w_load_rows = [w_acct\<lparr>row_id := ''a'', row_status := ACTIVE, row_plan_type := Some ''pro''\<rparr>,
                  w_acct\<lparr>row_id := ''b'', row_status := ACTIVE, row_plan_type := Some ''pro''\<rparr>]"

definition w_registry :: model_registry where
  "w_registry =
     update_registry (\<lambda>_. []) 1 [(''pro'', [solo_model ''gpt-5.3-codex-spark''])]
       (Some [(''a'', ''pro'', [solo_model ''gpt-5.3-codex-spark'']), (''b'', ''pro'', [])]) (Some [(''a'', ''pro''), (''b'', ''pro'')])
       \<lparr>mr_ttl = 300, mr_snapshot = None, mr_metadata = None, mr_hash = None\<rparr>"

definition w_load_env :: load_env where
  "w_load_env = \<lparr>le_quotas = fst (projr (reload_additional_quota_registry w_quota_items)), le_registry = w_registry,
     le_settings = w_settings\<rparr>"

definition w_load_reads :: load_reads where
  "w_load_reads = \<lparr>ld_accounts = w_load_rows, ld_planner = w_planner, ld_primary = [], ld_secondary = [], ld_monthly = [],
     ld_additional = (\<lambda>k w since. if w = ''primary''
       then [(''b'', \<lparr>entry_account = ''b'', entry_window = None, entry_used = 10, entry_reset = None, entry_minutes = None,
                       entry_recorded = 1000, entry_credits = None\<rparr>)] else []),
     ld_policies = None, ld_now = 1000\<rparr>"

definition w_load_request :: load_request where
  "w_load_request = \<lparr>lq_model = Some ''gpt-5.3-codex-spark'', lq_tier = None, lq_limit = None, lq_scope = None\<rparr>"

lemma w_loaded: "map row_id (si_accounts (load_uncached w_load_env w_load_reads w_load_request [])) = [''b'']"
  by code_simp

lemma w_reloaded: "\<exists>n. reload_additional_quota_registry w_quota_items = Inr (le_quotas w_load_env, n)"
proof -
  have "\<not> isl (reload_additional_quota_registry w_quota_items)" by code_simp
  then show ?thesis by (cases "reload_additional_quota_registry w_quota_items") (auto simp: w_load_env_def)
qed

lemma w_catalog:
  "mapped_model_has_registry_entry w_registry (Some ''gpt-5.3-codex-spark'')"
  "account_ids_for_model w_registry ''gpt-5.3-codex-spark'' = Some [''a'']"
  "case mr_snapshot w_registry of None \<Rightarrow> False | Some sn \<Rightarrow> map fst (rs_account_plans sn) = [''a'', ''b'']"
  by code_simp+


end
