(* ===== verification/Select_Account.thy ===== *)
theory Select_Account
  imports Selection_Caps Selection_Load Circuit_Breaker
begin

text \<open>
  \<open>LoadBalancer.select_account\<close> of \<open>modules/proxy/load_balancer.py\<close>, the entry point of every
  selection: it loads and scopes the inputs, settles who may own the request, runs one of the two
  selection paths and turns what they report into the answer; and the process-wide degradation flag
  of \<open>core/resilience/degradation.py\<close> that it keeps. \<open>check_opportunistic_admission\<close> is here too. The
  environment of a selection holds the reads of its first load, the time and the other tasks around
  the read of the legacy binding, and the environments of the attempts.
\<close>

section \<open>Degradation\<close>

datatype degradation_level = NORMAL | DEGRADED | CRITICAL

record degradation =
  dg_level :: degradation_level
  dg_reason :: "string option"

definition new_degradation :: degradation where
  "new_degradation = \<lparr>dg_level = NORMAL, dg_reason = None\<rparr>"

definition set_degraded :: "string option \<Rightarrow> degradation \<Rightarrow> degradation" where
  "set_degraded reason d = d\<lparr>dg_level := DEGRADED, dg_reason := reason\<rparr>"

definition set_normal :: "degradation \<Rightarrow> degradation" where
  "set_normal d = d\<lparr>dg_level := NORMAL, dg_reason := None\<rparr>"

definition is_degraded :: "degradation \<Rightarrow> bool" where
  "is_degraded d = (dg_level d \<noteq> NORMAL)"

definition format_degraded_error_message :: "degradation \<Rightarrow> string option \<Rightarrow> string" where
  "format_degraded_error_message d msg =
     (or_default (given msg) ''Upstream unavailable'') @ ''. Service is operating in degraded mode: ''
     @ or_default (given (dg_reason d)) ''upstream capacity is currently unavailable''"

definition is_upstream_circuit_breaker_open :: "bool \<Rightarrow> real \<Rightarrow> breaker_table \<Rightarrow> bool" where
  "is_upstream_circuit_breaker_open enabled now tab =
     (if \<not> enabled then False else are_all_account_circuit_breakers_open now tab)"

section \<open>Requests and answers\<close>

record select_request =
  sq_key :: "string option"
  sq_kind :: "sticky_kind option"
  sq_reallocate :: bool
  sq_session_header :: bool
  sq_legacy_key :: "string option"
  sq_spill :: bool
  sq_unambiguous :: bool
  sq_max_age :: "int option"
  sq_load :: load_request
  sq_ownership_constraint :: bool
  sq_continuity_owner :: bool
  sq_excluded :: "string list"
  sq_security :: bool
  sq_base :: unbound_request

record omission_admission =
  oa_model :: string
  oa_key :: string
  oa_tier :: "string option"

record account_selection =
  as_account :: "account_row option"
  as_error :: "string option"
  as_code :: "string option"
  as_lease :: "account_lease option"
  as_omission :: "omission_admission option"

definition refusal :: "string option \<Rightarrow> string option \<Rightarrow> account_selection" where
  "refusal msg code =
     \<lparr>as_account = None, as_error = msg, as_code = code, as_lease = None, as_omission = None\<rparr>"

definition effective_model_service_tier :: "string option \<Rightarrow> string option" where
  "effective_model_service_tier service_tier =
     (case service_tier of None \<Rightarrow> None
      | Some t \<Rightarrow> (let c = canonical_service_tier_value t in if c \<in> {[], ''auto'', ''default''} then None else Some c))"

definition catalog_omission_quota_admission ::
    "quota_maps \<Rightarrow> string \<Rightarrow> load_request \<Rightarrow> string list \<Rightarrow> omission_admission option" where
  "catalog_omission_quota_admission q aid lq omission_ids =
     (case lq_model lq of
        None \<Rightarrow> None
      | Some m \<Rightarrow>
          (if lq_limit lq \<noteq> None \<or> aid \<notin> set omission_ids then None
           else case gated_limit_name_for_model q (Some m) of
             None \<Rightarrow> None
           | Some k \<Rightarrow> Some \<lparr>oa_model = norm_slug m, oa_key = k, oa_tier = effective_model_service_tier (lq_tier lq)\<rparr>))"

definition admission_matches :: "quota_maps \<Rightarrow> omission_admission \<Rightarrow> string \<Rightarrow> string option \<Rightarrow> bool" where
  "admission_matches q oa requested_model service_tier =
     (oa_model oa = norm_slug requested_model \<and> Some (oa_key oa) = gated_limit_name_for_model q (Some requested_model)
      \<and> oa_tier oa = effective_model_service_tier service_tier)"

definition OPPORTUNISTIC_BURN_WINDOW_CLOSED :: string where
  "OPPORTUNISTIC_BURN_WINDOW_CLOSED = ''opportunistic_burn_window_closed''"
definition AMBIGUOUS_CONVERSATION_OWNER_CODE :: string where
  "AMBIGUOUS_CONVERSATION_OWNER_CODE = ''conversation_owner_unavailable''"
definition AMBIGUOUS_CONVERSATION_OWNER_MESSAGE :: string where
  "AMBIGUOUS_CONVERSATION_OWNER_MESSAGE = ''Conversation owner cannot be determined from the eligible account pool''"
definition HARD_AFFINITY_SATURATED :: string where "HARD_AFFINITY_SATURATED = ''hard_affinity_saturated''"

section \<open>The selection\<close>

record select_env =
  sv_load :: load_env
  sv_reads :: load_reads
  sv_cache_others :: "load_cache \<Rightarrow> load_cache"
  sv_cache_now :: real
  sv_cache_stored :: real
  sv_breakers_open :: bool
  sv_legacy_fails :: bool
  sv_legacy_now :: int
  sv_legacy_others :: "nat \<Rightarrow> selection_world \<Rightarrow> selection_world"
  sv_degradation_others :: "degradation \<Rightarrow> degradation"
  sv_attempts :: "attempt_env list"
  sv_sticky_attempts :: "sticky_env list"

record balancer_world =
  bw_selection :: selection_world
  bw_cache :: load_cache
  bw_degradation :: degradation

definition required_account :: "select_request \<Rightarrow> string option" where
  "required_account sq = ur_required (sq_base sq)"

definition owner_restricted :: "select_request \<Rightarrow> bool" where
  "owner_restricted sq = (sq_ownership_constraint sq \<or> sq_continuity_owner sq)"

definition scope_request :: "select_request \<Rightarrow> selection_inputs \<Rightarrow> selection_inputs" where
  "scope_request sq si =
     scope_inputs (sq_security sq) (sq_excluded sq) (if sq_continuity_owner sq then required_account sq else None) si"

definition usable_or_failed :: "selection_inputs \<Rightarrow> bool" where
  "usable_or_failed si = (si_accounts si \<noteq> [] \<or> si_error_code si \<noteq> None)"

definition degradation_after_load :: "select_request \<Rightarrow> bool \<Rightarrow> selection_inputs \<Rightarrow> degradation \<Rightarrow> degradation" where
  "degradation_after_load sq breakers_open si d =
     (if breakers_open then set_degraded (Some ''upstream circuit breaker is open'') d
      else if \<not> owner_restricted sq \<and> \<not> (sq_key sq \<noteq> None \<and> sq_kind sq = Some CODEX_SESSION) \<and> usable_or_failed si
      then set_normal d else d)"

text \<open>The owner that a binding from before the session headers names.\<close>

definition read_legacy_owner :: "select_env \<Rightarrow> select_request \<Rightarrow> selection_world \<Rightarrow> string option \<times> selection_world" where
  "read_legacy_owner sv sq w =
     (case sq_legacy_key sq of
        Some key \<Rightarrow>
          (if sq_session_header sq
           then
             let w0 = sv_legacy_others sv 0 w;
                 (found, t) = get_account_id
                   (\<lambda>t. db_sticky (sw_db (sv_legacy_others sv 1 (w0\<lparr>sw_db := (sw_db w0)\<lparr>db_sticky := t\<rparr>\<rparr>))))
                   (sv_legacy_now sv) key CODEX_SESSION (sq_max_age sq) (db_sticky (sw_db w0))
             in (found, w0\<lparr>sw_db := (sw_db w0)\<lparr>db_sticky := t\<rparr>\<rparr>)
           else (None, w))
      | None \<Rightarrow> (None, w))"

definition sticky_request_for :: "select_request \<Rightarrow> string \<Rightarrow> string option \<Rightarrow> sticky_path_request" where
  "sticky_request_for sq key legacy =
     \<lparr>sp_key = key, sp_kind = sq_kind sq, sp_reallocate = sq_reallocate sq, sp_session_header = sq_session_header sq,
      sp_legacy_key = sq_legacy_key sq, sp_legacy_existing = legacy, sp_spill = sq_spill sq,
      sp_unambiguous = sq_unambiguous sq, sp_max_age = sq_max_age sq, sp_base = sq_base sq\<rparr>"

text \<open>What ends a selection before a path is taken, in the order of the checks.\<close>

definition early_refusal :: "select_request \<Rightarrow> selection_inputs \<Rightarrow> string option \<Rightarrow> account_selection option" where
  "early_refusal sq si legacy =
     (if required_account sq \<noteq> None \<and> legacy \<noteq> None \<and> legacy \<noteq> required_account sq
      then Some (refusal (Some ''Account-owned continuity sources conflict; retry the logical turn'') (Some ''continuity_owner_conflict''))
      else if sq_unambiguous sq \<and> sq_key sq = None \<and> legacy = None \<and> length (effective_continuity_owner_candidates si) \<noteq> 1
      then Some (refusal (Some AMBIGUOUS_CONVERSATION_OWNER_MESSAGE) (Some AMBIGUOUS_CONVERSATION_OWNER_CODE))
      else if inputs_failed si then Some (refusal (si_error_message si) (si_error_code si))
      else None)"

definition run_path ::
    "balancer_settings \<Rightarrow> select_request \<Rightarrow> select_env \<Rightarrow> selection_inputs \<Rightarrow> string option \<Rightarrow> selection_world
     \<Rightarrow> unbound_outcome run \<times> selection_world" where
  "run_path bs sq sv si legacy w =
     (case sq_key sq of
        None \<Rightarrow> run_unbound_selection_path bs (sq_base sq) (sv_attempts sv) si w
      | Some key \<Rightarrow> run_sticky_selection_path bs (sticky_request_for sq key legacy) (sv_sticky_attempts sv) si w)"

definition opportunistic :: "select_request \<Rightarrow> bool" where
  "opportunistic sq = (b_traffic_class (ur_budget (sq_base sq)) = Opportunistic)"

text \<open>The answer when no account was selected, and when one was.\<close>

definition answer_without_account ::
    "select_request \<Rightarrow> bool \<Rightarrow> unbound_outcome \<Rightarrow> degradation \<Rightarrow> account_selection \<times> degradation" where
  "answer_without_account sq breakers_open out d =
     (let restricted = (owner_restricted sq \<or> uo_code out = Some HARD_AFFINITY_SATURATED);
          code = (if sq_continuity_owner sq \<and> uo_code out \<in> {None, Some HARD_AFFINITY_SATURATED}
                  then Some CONTINUITY_OWNER_UNAVAILABLE else uo_code out)
      in if opportunistic sq \<and> (case uo_error out of None \<Rightarrow> False | Some e \<Rightarrow> starts_with e ''opportunistic burn window closed'')
         then (refusal (uo_error out) (Some OPPORTUNISTIC_BURN_WINDOW_CLOSED), d)
         else if opportunistic sq \<and> given (uo_error out) \<noteq> None \<and> code = None
         then (refusal (uo_error out) (Some OPPORTUNISTIC_BURN_WINDOW_CLOSED), d)
         else if uo_error out = Some ''No available accounts'' \<and> \<not> restricted
         then (let d' = set_degraded (Some ''all upstream accounts are unavailable'') d
               in (refusal (Some (format_degraded_error_message d' (uo_error out))) code, d'))
         else if \<not> restricted \<and> \<not> breakers_open \<and> usable_or_failed (uo_inputs out)
         then (refusal (uo_error out) code, set_normal d)
         else (refusal (uo_error out) code, d))"

definition answer ::
    "quota_maps \<Rightarrow> select_request \<Rightarrow> bool \<Rightarrow> unbound_outcome \<Rightarrow> degradation \<Rightarrow> account_selection \<times> degradation" where
  "answer q sq breakers_open out d =
     (if uo_direct out then (refusal (uo_error out) (uo_code out), d)
      else case uo_snapshot out of
        None \<Rightarrow> answer_without_account sq breakers_open out d
      | Some row \<Rightarrow>
          (\<lparr>as_account = Some row, as_error = None, as_code = None, as_lease = uo_lease out,
            as_omission = catalog_omission_quota_admission q (row_id row) (sq_load sq) (si_omission_ids (uo_inputs out))\<rparr>,
           if breakers_open then d else set_normal d))"

definition selection_body ::
    "balancer_settings \<Rightarrow> select_request \<Rightarrow> select_env \<Rightarrow> selection_inputs \<Rightarrow> balancer_world
     \<Rightarrow> account_selection run \<times> balancer_world" where
  "selection_body bs sq sv si w =
     (if si_error_code si \<in> {Some CONTINUITY_OWNER_UNAVAILABLE, Some CONTINUITY_OWNER_POLICY_CONFLICT}
      then (Returned (refusal (si_error_message si) (si_error_code si)), w)
      else if sq_session_header sq \<and> sq_legacy_key sq \<noteq> None \<and> sv_legacy_fails sv
      then (Failed, w\<lparr>bw_selection := sv_legacy_others sv 0 (bw_selection w)\<rparr>)
      else
        let (legacy, w1) = read_legacy_owner sv sq (bw_selection w)
        in case early_refusal sq si legacy of
             Some r \<Rightarrow> (Returned r, w\<lparr>bw_selection := w1\<rparr>)
           | None \<Rightarrow>
               (case run_path bs sq sv si legacy w1 of
                  (Returned out, w2) \<Rightarrow>
                    (let (sel, d) = answer (le_quotas (sv_load sv)) sq (sv_breakers_open sv) out
                                      (sv_degradation_others sv (bw_degradation w))
                     in (Returned sel, w\<lparr>bw_selection := w2, bw_degradation := d\<rparr>))
                | (Failed, w2) \<Rightarrow> (Failed, w\<lparr>bw_selection := w2\<rparr>)
                | (Running, w2) \<Rightarrow> (Running, w\<lparr>bw_selection := w2\<rparr>)))"

definition select_account_for ::
    "balancer_settings \<Rightarrow> select_request \<Rightarrow> select_env \<Rightarrow> balancer_world \<Rightarrow> (account_selection run \<times> balancer_world) result" where
  "select_account_for bs sq sv w =
     (if owner_restricted sq \<and> required_account sq = None then Inl ValueError
      else
        let (loaded, cache) = load_selection_inputs (sv_load sv) (sv_reads sv) (sv_cache_others sv) (sv_cache_now sv)
                                (sv_cache_stored sv) (sq_load sq) (bw_cache w);
            si = scope_request sq loaded
        in Inr (selection_body bs sq sv si
                  (w\<lparr>bw_cache := cache,
                     bw_degradation := degradation_after_load sq (sv_breakers_open sv) si (bw_degradation w)\<rparr>)))"

section \<open>Opportunistic admission\<close>

definition opportunistic_budget :: "budget_request \<Rightarrow> budget_request" where
  "opportunistic_budget b =
     b\<lparr>b_power := 2, b_top_k := 5, b_apply_secondary := True, b_allow_backoff_fallback := True, b_deterministic_probe := True,
       b_traffic_class := Opportunistic, b_ignore_standard_quota := False, b_routing_costs := []\<rparr>"

text \<open>A dry run of the selection: it takes no lease and writes no state.\<close>

definition opportunistic_probe ::
    "balancer_settings \<Rightarrow> attempt_env \<Rightarrow> unbound_request \<Rightarrow> selection_inputs \<Rightarrow> selection_world
     \<Rightarrow> (account_selection \<times> selection_world) result" where
  "opportunistic_probe bs ae ur si w =
     (case prepare_sticky_selection_states (bs_recovery bs) (bs_leases bs) (ae_monotonic ae) (ae_build_clock ae) si None (sw_runtime w) of
        (states, amap, m) \<Rightarrow>
          (let offers = filter_states_for_account_caps states (ur_kind ur) (ur_caps ur) (ur_reserve ur);
               w1 = w\<lparr>sw_runtime := m\<rparr>
           in if offers = [] \<and> states \<noteq> []
              then Inr (refusal (Some ''opportunistic burn window closed: no account capacity available'')
                          (Some OPPORTUNISTIC_BURN_WINDOW_CLOSED), w1)
              else
                let r = select_account_preferring_budget_safe (ae_envs ae) (opportunistic_budget (ur_budget ur)) offers (sw_salts w1);
                    w2 = w1\<lparr>sw_salts := out_salts r\<rparr>
                in bind (out_result r) (\<lambda>res.
                     case account res of
                       None \<Rightarrow> Inr (refusal (map_option selection_error_text (error_message res))
                                      (Some OPPORTUNISTIC_BURN_WINDOW_CLOSED), w2)
                     | Some a \<Rightarrow>
                         (case map_of amap (account_id a) of
                            None \<Rightarrow>
                              Inr (refusal (Some (or_default (map_option selection_error_text (error_message res))
                                                    ''opportunistic burn window closed: no account available''))
                                     (Some OPPORTUNISTIC_BURN_WINDOW_CLOSED), w2)
                          | Some row \<Rightarrow>
                              Inr (\<lparr>as_account = Some row, as_error = None, as_code = None, as_lease = None, as_omission = None\<rparr>, w2)))))"

definition check_opportunistic_admission ::
    "balancer_settings \<Rightarrow> select_env \<Rightarrow> attempt_env \<Rightarrow> unbound_request \<Rightarrow> string option \<Rightarrow> string list option \<Rightarrow> balancer_world
     \<Rightarrow> (account_selection \<times> balancer_world) result" where
  "check_opportunistic_admission bs sv ae ur model scope w =
     (let (si, cache) = load_selection_inputs (sv_load sv) (sv_reads sv) (sv_cache_others sv) (sv_cache_now sv) (sv_cache_stored sv)
                          \<lparr>lq_model = model, lq_tier = None, lq_limit = None, lq_scope = scope\<rparr> (bw_cache w);
          w1 = w\<lparr>bw_cache := cache\<rparr>
      in if inputs_failed si then Inr (refusal (si_error_message si) (si_error_code si), w1)
         else bind (opportunistic_probe bs ae ur si (ae_others ae 0 (bw_selection w1)))
                (\<lambda>(sel, sw). Inr (sel, w1\<lparr>bw_selection := sw\<rparr>)))"

section \<open>Where the inputs of an outcome come from\<close>

definition inputs_verdict :: "(selection_inputs \<Rightarrow> bool) \<Rightarrow> unbound_outcome verdict_of_attempt \<Rightarrow> bool" where
  "inputs_verdict P v =
     (case v of Stop (Returned o') \<Rightarrow> P (uo_inputs o') | Retry n b si \<Rightarrow> P si | _ \<Rightarrow> True)"

definition reloads :: "(selection_inputs \<Rightarrow> bool) \<Rightarrow> attempt_env \<Rightarrow> bool" where
  "reloads P ae = (\<forall>si. ae_reload ae = Some si \<longrightarrow> P si)"

lemma reload_inputs:
  "reloads P ae \<Longrightarrow> inputs_verdict P (reload ae n b)" "reloads P ae \<Longrightarrow> inputs_verdict P (retry_without_probes ae n b)"
  by (auto simp: reloads_def reload_def retry_without_probes_def inputs_verdict_def direct_error_def split: option.split)

lemma inputs_verdict_simps [simp]:
  "inputs_verdict P (Stop Failed)" "inputs_verdict P (Stop (Returned o')) = P (uo_inputs o')"
  by (simp_all add: inputs_verdict_def)

lemma finish_inputs:
  assumes "reloads P ae" "P si"
  shows "inputs_verdict P (fst (unbound_finish ae n b si lk amap w))"
  using assms(2) reload_inputs(2) [OF assms(1), of n b]
  by (auto simp: unbound_finish_def Let_def split: option.splits prod.splits bool.splits)

lemma unbound_attempt_inputs:
  assumes "reloads P ae" "P si"
  shows "inputs_verdict P (fst (unbound_attempt bs ur ae n b si w))"
  using finish_inputs [OF assms] reload_inputs [OF assms(1)] assms(2)
  by (simp add: unbound_attempt_def split: sum.split option.split prod.split)

lemma bind_and_commit_inputs:
  assumes "reloads P (se_attempt se)" "P (uo_inputs final)"
  shows "inputs_verdict P (fst (bind_and_commit se sp n b ex mut r lk amap final w))"
  using assms(2) reload_inputs(2) [OF assms(1)]
  by (simp add: bind_and_commit_def Let_def split: prod.split bool.split)

lemma sticky_attempt_inputs:
  assumes "reloads P (se_attempt se)" "P si"
  shows "inputs_verdict P (fst (sticky_attempt bs sp se n b si w))"
proof -
  have fin: "inputs_verdict P (fst (sticky_finish se sp n b si f c lk amap v))" for f c lk amap v
    using bind_and_commit_inputs [OF assms(1)] finish_inputs [OF assms] assms(2)
    by (simp add: sticky_finish_def Let_def outcome_of_def split: option.split)
  have "inputs_verdict P (fst (sticky_after se sp n b si f c lk v))" for f c lk v
    using fin reload_inputs [OF assms(1)] assms(2)
    by (simp add: sticky_after_def Let_def no_selection_def split: option.split prod.split)
  then show ?thesis using assms(2) by (simp add: sticky_attempt_def no_selection_def split: sum.split prod.split)
qed

lemma unbound_loop_inputs:
  assumes "\<forall>ae\<in>set aes. reloads P ae" "P si" "unbound_loop bs ur aes n b si w = (Returned o', w')"
  shows "P (uo_inputs o')"
  using assms
proof (induction bs ur aes n b si w rule: unbound_loop.induct)
  case (2 bs ur ae aes n b si w)
  have v: "inputs_verdict P (fst (unbound_attempt bs ur ae (Suc n) b si w))"
    using 2(2,3) by (intro unbound_attempt_inputs) auto
  show ?case
    using 2(1) 2(2,4) v
    by (auto simp: inputs_verdict_def split: prod.splits verdict_of_attempt.splits)
qed simp

lemma sticky_loop_inputs:
  assumes "\<forall>se\<in>set ses. reloads P (se_attempt se)" "P si" "sticky_loop bs sp ses n b si w = (Returned o', w')"
  shows "P (uo_inputs o')"
  using assms
proof (induction bs sp ses n b si w rule: sticky_loop.induct)
  case (2 bs sp se ses n b si w)
  have v: "inputs_verdict P (fst (sticky_attempt bs sp se (Suc n) b si w))"
    using 2(2,3) by (intro sticky_attempt_inputs) auto
  show ?case
    using 2(1) 2(2,4) v
    by (auto simp: inputs_verdict_def split: prod.splits verdict_of_attempt.splits)
qed simp

section \<open>Loads and their cache\<close>

text \<open>The load of a request, fresh or cached under its key at an earlier time.\<close>

definition loaded_for :: "load_request \<Rightarrow> selection_inputs \<Rightarrow> bool" where
  "loaded_for lq si =
     (\<exists>le rd lq' policies policies'. load_key lq' policies' = load_key lq policies \<and> distinct (map row_id (ld_accounts rd)) \<and>
        si = load_uncached le rd lq' policies')"

definition entry_ok :: "load_cache_key \<Rightarrow> selection_inputs \<Rightarrow> bool" where
  "entry_ok key si =
     (\<exists>le rd lq policies. key = load_key lq policies \<and> distinct (map row_id (ld_accounts rd)) \<and> si = load_uncached le rd lq policies)"

definition cache_ok :: "load_cache \<Rightarrow> bool" where
  "cache_ok c = (\<forall>key e. map_of (sel_entries c) key = Some e \<longrightarrow> entry_ok key (fst e))"

lemma entry_okI: "distinct (map row_id (ld_accounts rd)) \<Longrightarrow> entry_ok (load_key lq policies) (load_uncached le rd lq policies)"
  unfolding entry_ok_def by blast

lemma entry_loaded: "entry_ok (load_key lq policies) si \<Longrightarrow> loaded_for lq si"
  unfolding entry_ok_def loaded_for_def by metis

lemma cached_load:
  assumes "cache_ok c" "distinct (map row_id (ld_accounts rd))" "load_selection_inputs le rd others now t lq c = (si, c')"
  shows "loaded_for lq si"
proof (rule entry_loaded)
  let ?key = "load_key lq (load_policies le rd lq)"
  show "entry_ok ?key si"
  proof (cases "selection_cache_get now ?key c")
    case None
    then have "si = load_uncached le rd lq (load_policies le rd lq)" using assms(3) by (simp add: load_selection_inputs_def Let_def)
    then show ?thesis using entry_okI [OF assms(2)] by simp
  next
    case (Some x)
    then have "si = x" using assms(3) by (simp add: load_selection_inputs_def Let_def)
    moreover obtain e where "map_of (sel_entries c) ?key = Some e" "fst e = x"
      using Some by (auto simp: selection_cache_get_def split: if_splits option.splits)
    ultimately show ?thesis using assms(1) unfolding cache_ok_def by metis
  qed
qed

lemma cached_load_keeps:
  assumes "cache_ok c" "cache_ok (others c)" "distinct (map row_id (ld_accounts rd))" "load_selection_inputs le rd others now t lq c = (si, c')"
  shows "cache_ok c'"
proof -
  have "cache_ok (selection_cache_set t (load_key lq p) (load_uncached le rd lq p) g (others c))" for p g
    using assms(2) entry_okI [OF assms(3), of lq p le] by (simp add: selection_cache_set_def cache_ok_def update_conv')
  then show ?thesis using assms(1,4) by (auto simp: load_selection_inputs_def Let_def split: option.splits)
qed

lemma loaded_scope:
  assumes "loaded_for lq si" "a \<in> set (si_accounts si)"
  shows "lq_scope lq = Some scope \<longrightarrow> row_id a \<in> set scope" "\<not> dead (row_status a)"
proof -
  obtain le rd lq' policies policies' where k: "load_key lq' policies' = load_key lq policies"
    and si: "si = load_uncached le rd lq' policies'" using assms(1) by (auto simp: loaded_for_def)
  have "a \<in> set (ms_accounts (model_stage_of le lq' (scoped_accounts lq' (ld_accounts rd))))"
    using assms(2) by (simp add: si load_accounts Let_def split: option.splits)
  then have a: "a \<in> set (selectable_accounts (scoped_accounts lq' (ld_accounts rd)))" using stage_subset by blast
  then show "\<not> dead (row_status a)" by (auto simp: selectable_accounts_def dead_def)
  show "lq_scope lq = Some scope \<longrightarrow> row_id a \<in> set scope"
  proof
    assume scope: "lq_scope lq = Some scope"
    then obtain scope' where scope': "lq_scope lq' = Some scope'" "sort (remdups scope') = sort (remdups scope)"
      using k by (auto simp: load_key_def)
    then have "set scope' = set scope" by (metis set_remdups set_sort)
    then show "row_id a \<in> set scope" using a scope'(1) by (auto simp: selectable_accounts_def scoped_accounts_def listed_def)
  qed
qed

lemma loaded_distinct: "loaded_for lq si \<Longrightarrow> distinct (map row_id (si_accounts si))"
  by (auto simp: loaded_for_def intro: load_distinct)

text \<open>The scope of a request, stage by stage.\<close>

lemma scope_request_cases:
  obtains (refused) r where "scope_request sq si = r" "si_accounts r = []"
    | (scoped) s1 s2 req where "security_scope (sq_security sq) si = Scoped s1"
        "exclusion_scope (sq_security sq) (sq_excluded sq) s1 = Scoped s2" "scope_request sq si = owner_scope req s2"
proof (cases "security_scope (sq_security sq) si")
  case (Refused_scope r)
  then show ?thesis using refused security_scope_cases [of "sq_security sq" si] by (simp add: scope_request_def scope_inputs_def)
next
  case s1: (Scoped s1)
  then have ok: "scope_ok (sq_security sq) [] si s1" using security_scope_cases [of "sq_security sq" si] by simp
  show ?thesis
  proof (cases "exclusion_scope (sq_security sq) (sq_excluded sq) s1")
    case (Refused_scope r)
    then show ?thesis using refused exclusion_scope_cases [OF ok, of "sq_excluded sq"] s1 by (simp add: scope_request_def scope_inputs_def)
  next
    case (Scoped s2)
    show ?thesis by (rule scoped [OF s1 Scoped]) (simp add: scope_request_def scope_inputs_def s1 Scoped)
  qed
qed

lemma scope_request_ok: "scope_ok (sq_security sq) (sq_excluded sq) si (scope_request sq si)"
proof (cases sq si rule: scope_request_cases)
  case (refused r)
  then show ?thesis by (simp add: scope_ok_def)
next
  case (scoped s1 s2 req)
  have "scope_ok (sq_security sq) [] si s1" using security_scope_cases [of "sq_security sq" si] scoped(1) by simp
  then have "scope_ok (sq_security sq) (sq_excluded sq) si s2" using exclusion_scope_cases [of "sq_security sq" si s1 "sq_excluded sq"] scoped(2) by simp
  then show ?thesis unfolding scoped(3) by (rule owner_scope_cases(1))
qed

lemma scope_request_distinct:
  assumes "distinct (map row_id (si_accounts si))"
  shows "distinct (map row_id (si_accounts (scope_request sq si)))"
proof (cases sq si rule: scope_request_cases)
  case (scoped s1 s2 req)
  have "distinct (map row_id (si_accounts s1))"
    using scoped(1) assms by (auto simp: security_scope_def Let_def distinct_map_filter split: if_splits)
  then have "distinct (map row_id (si_accounts s2))"
    using scoped(2) by (auto simp: exclusion_scope_def Let_def distinct_map_filter split: if_splits)
  then show ?thesis unfolding scoped(3) by (simp add: owner_scope_def split: option.split prod.split)
qed simp

section \<open>The selected account\<close>

definition good_attempt :: "select_request \<Rightarrow> attempt_env \<Rightarrow> bool" where
  "good_attempt sq ae =
     (sound_envs (ae_envs ae) \<and> (\<forall>si. ae_reload ae = Some si \<longrightarrow> (\<exists>l. loaded_for (sq_load sq) l \<and> si = scope_request sq l)))"

lemma good_attempt_reloads:
  assumes "good_attempt sq ae"
  shows "sound_reload ae" "reloads (\<lambda>si. \<exists>l. loaded_for (sq_load sq) l \<and> si = scope_request sq l) ae"
  using assms by (auto simp: good_attempt_def sound_reload_def reloads_def intro: scope_request_distinct loaded_distinct)

lemma run_path_sound:
  assumes "\<forall>ae \<in> set (sv_attempts sv) \<union> se_attempt ` set (sv_sticky_attempts sv). good_attempt sq ae"
    and "loaded_for (sq_load sq) l" "run_path bs sq sv (scope_request sq l) legacy w = (Returned o', w')"
  shows "sound_grant (sq_base sq) (uo_inputs o') (uo_snapshot o') (uo_lease o') \<and>
    (\<exists>l'. loaded_for (sq_load sq) l' \<and> uo_inputs o' = scope_request sq l')"
proof -
  let ?P = "\<lambda>si. \<exists>l. loaded_for (sq_load sq) l \<and> si = scope_request sq l"
  have d: "distinct (map row_id (si_accounts (scope_request sq l)))"
    using loaded_distinct [OF assms(2)] by (rule scope_request_distinct)
  have P: "?P (scope_request sq l)" using assms(2) by blast
  show ?thesis
  proof (cases "sq_key sq")
    case None
    then have run: "unbound_loop bs (sq_base sq) (sv_attempts sv) 0 False (scope_request sq l) w = (Returned o', w')"
      using assms(3) by (simp add: run_path_def run_unbound_selection_path_def)
    have g: "\<forall>ae \<in> set (sv_attempts sv). sound_reload ae" "\<forall>ae \<in> set (sv_attempts sv). reloads ?P ae"
      using assms(1) good_attempt_reloads [of sq] by blast+
    show ?thesis using unbound_loop_sound [OF g(1) d run] unbound_loop_inputs [OF g(2) P run] by blast
  next
    case (Some key)
    then have run: "sticky_loop bs (sticky_request_for sq key legacy) (sv_sticky_attempts sv) 0 False (scope_request sq l) w = (Returned o', w')"
      using assms(3) by (simp add: run_path_def run_sticky_selection_path_def)
    have g: "\<forall>se \<in> set (sv_sticky_attempts sv). sound_reload (se_attempt se)" "\<forall>se \<in> set (sv_sticky_attempts sv). reloads ?P (se_attempt se)"
      using assms(1) good_attempt_reloads [of sq] by blast+
    have "sp_base (sticky_request_for sq key legacy) = sq_base sq" by (simp add: sticky_request_for_def)
    then show ?thesis using sticky_loop_sound [OF g(1) d run] sticky_loop_inputs [OF g(2) P run] by simp
  qed
qed

lemma refusal_account [simp]: "as_account (refusal m c) = None"
  by (simp add: refusal_def)

lemma answer_without_account_none [simp]: "as_account (fst (answer_without_account sq op out d)) = None"
  by (simp add: answer_without_account_def Let_def)

lemma answer_account:
  assumes "as_account (fst (answer q sq op out d)) = Some row"
  shows "uo_snapshot out = Some row" "as_lease (fst (answer q sq op out d)) = uo_lease out"
    "as_error (fst (answer q sq op out d)) = None" "as_code (fst (answer q sq op out d)) = None"
  using assms by (simp_all add: answer_def split: if_splits option.splits)

lemma early_refusal_account: "early_refusal sq si legacy = Some r \<Longrightarrow> as_account r = None"
  by (simp add: early_refusal_def split: if_splits) (metis refusal_account)+

lemma selection_body_account:
  assumes "selection_body bs sq sv si w = (Returned sel, w')" "as_account sel = Some row"
  obtains legacy v out v' where "run_path bs sq sv si legacy v = (Returned out, v')" "uo_snapshot out = Some row"
    "as_lease sel = uo_lease out" "as_error sel = None" "as_code sel = None"
proof -
  obtain legacy v where leg: "read_legacy_owner sv sq (bw_selection w) = (legacy, v)" by fastforce
  obtain out v' where run: "run_path bs sq sv si legacy v = (Returned out, v')"
    and ans: "sel = fst (answer (le_quotas (sv_load sv)) sq (sv_breakers_open sv) out (sv_degradation_others sv (bw_degradation w)))"
    using assms early_refusal_account [of sq si legacy] leg
    by (auto simp: selection_body_def split: if_splits option.splits prod.splits run.splits)
  show ?thesis by (rule that [OF run]) (use answer_account assms(2) ans in metis)+
qed


section \<open>The degradation flag\<close>

lemma answer_restricted:
  assumes "owner_restricted sq \<or> uo_code out = Some HARD_AFFINITY_SATURATED" "as_account (fst (answer q sq op out d)) = None"
  shows "snd (answer q sq op out d) = d"
  using assms by (simp add: answer_def answer_without_account_def Let_def split: if_splits option.splits)

text \<open>
  A request that may only be served by its owner says nothing about the service: when it fails with
  the circuit breakers closed, the flag is what it was or what other requests made of it meanwhile.
  Only requests that any account could have served report the service as degraded.
\<close>

theorem owner_failure_keeps_degradation:
  assumes "owner_restricted sq" "\<not> sv_breakers_open sv"
    and "select_account_for bs sq sv w = Inr (r, w')" "\<forall>sel. r = Returned sel \<longrightarrow> as_account sel = None"
  shows "bw_degradation w' \<in> {bw_degradation w, sv_degradation_others sv (bw_degradation w)}"
proof -
  obtain l c where ld: "load_selection_inputs (sv_load sv) (sv_reads sv) (sv_cache_others sv) (sv_cache_now sv) (sv_cache_stored sv)
      (sq_load sq) (bw_cache w) = (l, c)" by fastforce
  let ?w = "w\<lparr>bw_cache := c, bw_degradation := bw_degradation w\<rparr>" and ?si = "scope_request sq l"
  have body: "selection_body bs sq sv ?si ?w = (r, w')"
    using assms(1-3) by (auto simp: select_account_for_def ld Let_def degradation_after_load_def split: if_splits)
  obtain legacy v where leg: "read_legacy_owner sv sq (bw_selection ?w) = (legacy, v)" by fastforce
  obtain out v' where run: "run_path bs sq sv ?si legacy v = (out, v')" by fastforce
  let ?d = "sv_degradation_others sv (bw_degradation w)"
  have "d' = ?d" if "answer q sq op o' ?d = (sel, d')" "as_account sel = None" for q op o' sel d'
    using answer_restricted [of sq o' q op ?d] assms(1) that by simp
  then show ?thesis
    using body assms(4) leg run
    by (cases out) (auto simp: selection_body_def split: if_splits option.splits prod.splits)
qed

section \<open>Witnesses\<close>

definition w_select :: select_request where
  "w_select = \<lparr>sq_key = None, sq_kind = None, sq_reallocate = False, sq_session_header = False, sq_legacy_key = None, sq_spill = False,
     sq_unambiguous = False, sq_max_age = None,
     sq_load = \<lparr>lq_model = None, lq_tier = None, lq_limit = None, lq_scope = Some [''a'', ''c'']\<rparr>,
     sq_ownership_constraint = False, sq_continuity_owner = False, sq_excluded = [''b''], sq_security = False, sq_base = w_request\<rparr>"

definition w_select_env :: select_env where
  "w_select_env = \<lparr>sv_load = \<lparr>le_quotas = empty_maps,
       le_registry = \<lparr>mr_ttl = 300, mr_snapshot = None, mr_metadata = None, mr_hash = None\<rparr>, le_settings = w_settings\<rparr>,
     sv_reads = w_load_reads\<lparr>ld_accounts := w_rows\<rparr>, sv_cache_others = (\<lambda>c. c), sv_cache_now = 0, sv_cache_stored = 0,
     sv_breakers_open = False, sv_legacy_fails = False, sv_legacy_now = 0, sv_legacy_others = (\<lambda>_ w. w),
     sv_degradation_others = (\<lambda>d. d), sv_attempts = [w_attempt], sv_sticky_attempts = []\<rparr>"

definition w_balancer_world :: balancer_world where
  "w_balancer_world = \<lparr>bw_selection = w_world, bw_cache = selection_empty 5, bw_degradation = set_degraded None new_degradation\<rparr>"

lemma w_select_evaluated:
  "case select_account_for w_bs w_select w_select_env w_balancer_world of
     Inr (Returned sel, w') \<Rightarrow> map_option row_id (as_account sel) = Some ''a'' \<and> \<not> is_degraded (bw_degradation w')
   | _ \<Rightarrow> False"
  by code_simp


definition w_owned :: select_request where
  "w_owned = w_select\<lparr>sq_continuity_owner := True, sq_base := w_request\<lparr>ur_required := Some ''z''\<rparr>\<rparr>"

lemma w_owned_evaluated:
  "case select_account_for w_bs w_owned w_select_env w_balancer_world of
     Inr (Returned sel, w') \<Rightarrow> as_account sel = None \<and> as_code sel = Some CONTINUITY_OWNER_UNAVAILABLE
   | _ \<Rightarrow> False"
  by code_simp

theorem owner_failure_keeps_degradation_witness:
  "\<exists>sel w'. select_account_for w_bs w_owned w_select_env w_balancer_world = Inr (Returned sel, w') \<and>
     as_code sel = Some CONTINUITY_OWNER_UNAVAILABLE \<and> bw_degradation w' = set_degraded None new_degradation"
proof -
  obtain sel w' where r: "select_account_for w_bs w_owned w_select_env w_balancer_world = Inr (Returned sel, w')"
      "as_account sel = None" "as_code sel = Some CONTINUITY_OWNER_UNAVAILABLE"
    using w_owned_evaluated by (auto split: sum.splits prod.splits run.splits)
  have "owner_restricted w_owned" "\<not> sv_breakers_open w_select_env"
    by (simp_all add: owner_restricted_def w_owned_def w_select_env_def)
  from owner_failure_keeps_degradation [OF this r(1)] r show ?thesis by (simp add: w_select_env_def w_balancer_world_def)
qed

end
