(* ===== verification/Durable_Bridge.thy ===== *)
theory Durable_Bridge
  imports Sticky_Sessions
begin

text \<open>
  The durable sessions of the HTTP bridge: \<open>app/modules/proxy/durable_bridge_repository.py\<close>,
  the key rules of \<open>app/modules/proxy/continuity.py\<close> and the two tables of
  \<open>app/db/models.py\<close> with their unique constraints and foreign keys. A session row has an
  owner, an epoch and a lease; an alias row names a session. A statement that the code runs
  under a row lock or a fence is one step with the statements of its transaction; where the code
  reads without a lock and writes later, what other replicas do in between is an argument
  (\<open>others\<close>). Row locks are those of PostgreSQL, the database that replicas share. Times are
  microseconds, the digest of a key is an argument (\<open>hash\<close>), and identifiers that the code draws
  at random are arguments.
\<close>

section \<open>Keys\<close>

definition HTTP_BRIDGE_ACCOUNT_NEUTRAL_REPLAY_KIND :: string where
  "HTTP_BRIDGE_ACCOUNT_NEUTRAL_REPLAY_KIND = ''internal_unanchored_parallel''"

definition HTTP_BRIDGE_ACCOUNT_NEUTRAL_REPLAY_KEY_PREFIX :: string where
  "HTTP_BRIDGE_ACCOUNT_NEUTRAL_REPLAY_KEY_PREFIX = ''account-neutral-replay:v1:''"

definition HTTP_BRIDGE_ACCOUNT_NEUTRAL_REPLAY_REBINDABLE_KINDS :: "string list" where
  "HTTP_BRIDGE_ACCOUNT_NEUTRAL_REPLAY_REBINDABLE_KINDS = [''prompt_cache'', ''session_header'', ''turn_state_header'']"

definition HTTP_BRIDGE_SESSION_AFFINITY_HEADERS :: "string list" where
  "HTTP_BRIDGE_SESSION_AFFINITY_HEADERS =
     [''session_id'', ''session-id'', ''thread-id'', ''x-codex-conversation-id'', ''x-codex-session-id'',
      ''x-codex-turn-state'']"

definition make_http_bridge_account_neutral_replay_key :: "string \<Rightarrow> (string \<times> string) result" where
  "make_http_bridge_account_neutral_replay_key nonce =
     (if nonce = [] then Inl ValueError
      else Inr (HTTP_BRIDGE_ACCOUNT_NEUTRAL_REPLAY_KIND, HTTP_BRIDGE_ACCOUNT_NEUTRAL_REPLAY_KEY_PREFIX @ nonce))"

definition is_http_bridge_account_neutral_replay :: "string \<Rightarrow> string \<Rightarrow> bool" where
  "is_http_bridge_account_neutral_replay kind key =
     (kind = HTTP_BRIDGE_ACCOUNT_NEUTRAL_REPLAY_KIND
      \<and> starts_with key HTTP_BRIDGE_ACCOUNT_NEUTRAL_REPLAY_KEY_PREFIX
      \<and> length HTTP_BRIDGE_ACCOUNT_NEUTRAL_REPLAY_KEY_PREFIX < length key)"

definition without_http_bridge_session_affinity_headers :: "(string \<times> string) list \<Rightarrow> (string \<times> string) list" where
  "without_http_bridge_session_affinity_headers headers =
     filter (\<lambda>(name, value). py_lower name \<notin> set HTTP_BRIDGE_SESSION_AFFINITY_HEADERS) headers"

datatype bridge_error = IntegrityError | StaleDataError | Owner_conflict

definition resolve_required_account_id :: "(string \<times> string option) list \<Rightarrow> bridge_error + string option" where
  "resolve_required_account_id owners =
     (case List.map_filter snd owners of
        [] \<Rightarrow> Inr None
      | owner # rest \<Rightarrow> (if list_ex (\<lambda>a. a \<noteq> owner) (owner # rest) then Inl Owner_conflict else Inr (Some owner)))"

definition ANONYMOUS_API_KEY_SCOPE :: string where
  "ANONYMOUS_API_KEY_SCOPE = ''__anonymous__''"

definition durable_bridge_api_key_scope :: "string option \<Rightarrow> string" where
  "durable_bridge_api_key_scope api_key_id =
     (case api_key_id of None \<Rightarrow> ANONYMOUS_API_KEY_SCOPE
      | Some s \<Rightarrow> first_nonempty (py_strip s) ANONYMOUS_API_KEY_SCOPE)"

section \<open>Tables\<close>

datatype bridge_state = Bridge_active | Bridge_draining | Bridge_closed

record durable_session =
  bs_id :: string
  bs_kind :: string
  bs_value :: string
  bs_hash :: string
  bs_scope :: string
  bs_owner :: "string option"
  bs_epoch :: int
  bs_lease :: "int option"
  bs_state :: bridge_state
  bs_account :: "string option"
  bs_model :: "string option"
  bs_tier :: "string option"
  bs_turn :: "string option"
  bs_response :: "string option"
  bs_item_count :: "int option"
  bs_fingerprint :: "string option"
  bs_last_seen :: int
  bs_closed_at :: "int option"

record bridge_alias =
  ba_session :: string
  ba_kind :: string
  ba_value :: string
  ba_hash :: string
  ba_scope :: string

record bridge_db =
  db_sessions :: "durable_session list"
  db_aliases :: "bridge_alias list"
  db_accounts :: "string list"

definition session_ident :: "durable_session \<Rightarrow> string \<times> string \<times> string" where
  "session_ident r = (bs_kind r, bs_hash r, bs_scope r)"

definition alias_ident :: "bridge_alias \<Rightarrow> string \<times> string \<times> string" where
  "alias_ident a = (ba_kind a, ba_hash a, ba_scope a)"

definition has_id :: "string \<Rightarrow> durable_session \<Rightarrow> bool" where
  "has_id sid r = (bs_id r = sid)"

definition session_by_id :: "string \<Rightarrow> bridge_db \<Rightarrow> durable_session option" where
  "session_by_id sid db = find (has_id sid) (db_sessions db)"

text \<open>A write to the matching session rows, and a delete, which cascades to their aliases.\<close>

definition update_sessions ::
    "(durable_session \<Rightarrow> bool) \<Rightarrow> (durable_session \<Rightarrow> durable_session) \<Rightarrow> bridge_db \<Rightarrow> bridge_db" where
  "update_sessions p f db = db\<lparr>db_sessions := map (\<lambda>r. if p r then f r else r) (db_sessions db)\<rparr>"

definition delete_sessions :: "(durable_session \<Rightarrow> bool) \<Rightarrow> bridge_db \<Rightarrow> bridge_db" where
  "delete_sessions p db =
     (let gone = map bs_id (filter p (db_sessions db))
      in db\<lparr>db_sessions := filter (\<lambda>r. \<not> p r) (db_sessions db),
            db_aliases := filter (\<lambda>a. ba_session a \<notin> set gone) (db_aliases db)\<rparr>)"

text \<open>Removing an account sets the reference of its sessions to null.\<close>

definition delete_account :: "string \<Rightarrow> bridge_db \<Rightarrow> bridge_db" where
  "delete_account a db =
     (update_sessions (\<lambda>r. bs_account r = Some a) (\<lambda>r. r\<lparr>bs_account := None\<rparr>) db)
       \<lparr>db_accounts := filter (\<lambda>b. b \<noteq> a) (db_accounts db)\<rparr>"

definition account_ok :: "string option \<Rightarrow> bridge_db \<Rightarrow> bool" where
  "account_ok account db = (case account of None \<Rightarrow> True | Some a \<Rightarrow> a \<in> set (db_accounts db))"

section \<open>Reading\<close>

definition get_session :: "(string \<Rightarrow> string) \<Rightarrow> string \<Rightarrow> string \<Rightarrow> string \<Rightarrow> bridge_db \<Rightarrow> durable_session option" where
  "get_session hash kind value scope db = find (\<lambda>r. session_ident r = (kind, hash value, scope)) (db_sessions db)"

definition alias_at :: "(string \<Rightarrow> string) \<Rightarrow> string \<Rightarrow> string \<Rightarrow> string \<Rightarrow> bridge_db \<Rightarrow> bridge_alias option" where
  "alias_at hash kind value scope db = find (\<lambda>a. alias_ident a = (kind, hash value, scope)) (db_aliases db)"

definition resolve_alias :: "(string \<Rightarrow> string) \<Rightarrow> string \<Rightarrow> string \<Rightarrow> string \<Rightarrow> bridge_db \<Rightarrow> durable_session option" where
  "resolve_alias hash kind value scope db =
     (case alias_at hash kind value scope db of None \<Rightarrow> None | Some a \<Rightarrow> session_by_id (ba_session a) db)"

text \<open>\<open>updated\<close> is the column \<open>updated_at\<close>, which only breaks ties here.\<close>

definition latest_order :: "(string \<Rightarrow> int) \<Rightarrow> durable_session \<Rightarrow> int \<times> int \<times> int" where
  "latest_order updated r =
     ((if bs_state r = Bridge_active then 0 else 1), - bs_last_seen r, - updated (bs_id r))"

definition first_latest :: "(string \<Rightarrow> int) \<Rightarrow> durable_session list \<Rightarrow> durable_session option" where
  "first_latest updated rs =
     (case filter (\<lambda>r. bs_state r \<in> {Bridge_active, Bridge_draining}) rs of
        [] \<Rightarrow> None | r # rest \<Rightarrow> Some (min_from (latest_order updated) r rest))"

definition find_session_by_latest_turn_state ::
    "(string \<Rightarrow> int) \<Rightarrow> string \<Rightarrow> string \<Rightarrow> bridge_db \<Rightarrow> durable_session option" where
  "find_session_by_latest_turn_state updated turn_state scope db =
     first_latest updated (filter (\<lambda>r. bs_turn r = Some turn_state \<and> bs_scope r = scope) (db_sessions db))"

definition find_session_by_latest_response_id ::
    "(string \<Rightarrow> int) \<Rightarrow> string \<Rightarrow> string \<Rightarrow> bridge_db \<Rightarrow> durable_session option" where
  "find_session_by_latest_response_id updated response_id scope db =
     first_latest updated (filter (\<lambda>r. bs_response r = Some response_id \<and> bs_scope r = scope) (db_sessions db))"

text \<open>One query per chunk of the distinct ids, each on the database of its moment.\<close>

fun chunks_of :: "nat \<Rightarrow> 'a list \<Rightarrow> 'a list list" where
  "chunks_of n [] = []"
| "chunks_of n (x # xs) = (x # take n xs) # chunks_of n (drop n xs)"

definition SESSION_ID_LOOKUP_CHUNK_SIZE :: nat where
  "SESSION_ID_LOOKUP_CHUNK_SIZE = 500"

definition get_sessions_by_ids :: "nat \<Rightarrow> (nat \<Rightarrow> bridge_db) \<Rightarrow> string list \<Rightarrow> durable_session list" where
  "get_sessions_by_ids chunk_size views session_ids =
     concat (map (\<lambda>(i, chunk). filter (\<lambda>r. bs_id r \<in> set chunk) (db_sessions (views i)))
       (enumerate 0 (chunks_of (chunk_size - 1) (first_occurrences [] session_ids))))"

section \<open>Claiming a session\<close>

definition lease_until :: "int \<Rightarrow> real \<Rightarrow> int" where
  "lease_until now ttl_seconds = now + py_round (max 1 ttl_seconds * 1000000)"

record claim_request =
  cr_kind :: string
  cr_value :: string
  cr_scope :: string
  cr_instance :: string
  cr_ttl :: real
  cr_account :: "string option"
  cr_model :: "string option"
  cr_tier :: "string option"
  cr_turn :: "string option"
  cr_response :: "string option"
  cr_takeover :: bool
  cr_force :: bool

definition claimed_new :: "(string \<Rightarrow> string) \<Rightarrow> int \<Rightarrow> string \<Rightarrow> claim_request \<Rightarrow> durable_session" where
  "claimed_new hash now new_id q =
     \<lparr>bs_id = new_id, bs_kind = cr_kind q, bs_value = cr_value q, bs_hash = hash (cr_value q),
      bs_scope = cr_scope q, bs_owner = Some (cr_instance q), bs_epoch = 1,
      bs_lease = Some (lease_until now (cr_ttl q)), bs_state = Bridge_active, bs_account = cr_account q,
      bs_model = cr_model q, bs_tier = cr_tier q, bs_turn = cr_turn q, bs_response = cr_response q,
      bs_item_count = None, bs_fingerprint = None, bs_last_seen = now, bs_closed_at = None\<rparr>"

text \<open>The insert: refused by the unique key or a missing account.\<close>

definition claim_insert ::
    "(string \<Rightarrow> string) \<Rightarrow> int \<Rightarrow> string \<Rightarrow> claim_request \<Rightarrow> bridge_db \<Rightarrow> (bridge_error + durable_session) \<times> bridge_db" where
  "claim_insert hash now new_id q db =
     (let r = claimed_new hash now new_id q
      in if list_ex (\<lambda>s. session_ident s = session_ident r \<or> bs_id s = new_id) (db_sessions db)
            \<or> \<not> account_ok (cr_account q) db
         then (Inl IntegrityError, db)
         else (Inr r, db\<lparr>db_sessions := db_sessions db @ [r]\<rparr>))"

definition lease_expired :: "int \<Rightarrow> durable_session \<Rightarrow> bool" where
  "lease_expired now r = (case bs_lease r of None \<Rightarrow> True | Some t \<Rightarrow> t \<le> now)"

definition claim_refused :: "int \<Rightarrow> claim_request \<Rightarrow> durable_session \<Rightarrow> bool" where
  "claim_refused now q r =
     (bs_owner r \<noteq> Some (cr_instance q) \<and> \<not> cr_takeover q \<and> \<not> lease_expired now r
      \<and> bs_state r \<notin> {Bridge_draining, Bridge_closed})"

definition next_epoch :: "claim_request \<Rightarrow> durable_session \<Rightarrow> int" where
  "next_epoch q r =
     (if bs_owner r \<noteq> Some (cr_instance q) then bs_epoch r + 1
      else if bs_account r \<noteq> cr_account q \<or> cr_force q then bs_epoch r + 1
      else bs_epoch r)"

text \<open>The anchors of a claimed row: replaced with the account, otherwise only overwritten.\<close>

definition claim_anchors :: "claim_request \<Rightarrow> durable_session \<Rightarrow> durable_session" where
  "claim_anchors q r =
     (if bs_account r \<noteq> cr_account q
      then r\<lparr>bs_turn := cr_turn q, bs_response := cr_response q, bs_item_count := None, bs_fingerprint := None\<rparr>
      else
        let r1 = (case cr_turn q of None \<Rightarrow> r | Some t \<Rightarrow> r\<lparr>bs_turn := Some t\<rparr>)
        in case cr_response q of None \<Rightarrow> r1
           | Some p \<Rightarrow> r1\<lparr>bs_response := Some p, bs_item_count := None, bs_fingerprint := None\<rparr>)"

definition claimed_row :: "int \<Rightarrow> claim_request \<Rightarrow> durable_session \<Rightarrow> durable_session" where
  "claimed_row now q r =
     (claim_anchors q r)\<lparr>bs_owner := Some (cr_instance q), bs_epoch := next_epoch q r,
        bs_lease := Some (lease_until now (cr_ttl q)), bs_state := Bridge_active,
        bs_account := cr_account q, bs_model := cr_model q, bs_tier := cr_tier q,
        bs_last_seen := now, bs_closed_at := None\<rparr>"

definition clear_aliases_for_session :: "string \<Rightarrow> bridge_db \<Rightarrow> bridge_db" where
  "clear_aliases_for_session sid db = db\<lparr>db_aliases := filter (\<lambda>a. ba_session a \<noteq> sid) (db_aliases db)\<rparr>"

text \<open>The update of a row read under its lock.\<close>

definition claim_update ::
    "int \<Rightarrow> claim_request \<Rightarrow> durable_session \<Rightarrow> bridge_db \<Rightarrow> (bridge_error + durable_session) \<times> bridge_db" where
  "claim_update now q r db =
     (if claim_refused now q r then (Inr r, db)
      else if \<not> account_ok (cr_account q) db then (Inl IntegrityError, db)
      else
        let db1 = (if bs_account r \<noteq> cr_account q then clear_aliases_for_session (bs_id r) db else db)
        in (Inr (claimed_row now q r), update_sessions (has_id (bs_id r)) (claimed_row now q) db1))"

text \<open>One attempt: \<open>others\<close> runs between the read that found no row and the insert.\<close>

record claim_env =
  ce_now :: int
  ce_new_id :: string
  ce_others :: "bridge_db \<Rightarrow> bridge_db"

definition claim_attempt ::
    "(string \<Rightarrow> string) \<Rightarrow> claim_env \<Rightarrow> claim_request \<Rightarrow> bridge_db \<Rightarrow> (bridge_error + durable_session) \<times> bridge_db" where
  "claim_attempt hash env q db =
     (case get_session hash (cr_kind q) (cr_value q) (cr_scope q) db of
        None \<Rightarrow> claim_insert hash (ce_now env) (ce_new_id env) q (ce_others env db)
      | Some r \<Rightarrow> claim_update (ce_now env) q r db)"

definition claim_session ::
    "(string \<Rightarrow> string) \<Rightarrow> claim_env \<Rightarrow> claim_env \<Rightarrow> claim_request \<Rightarrow> bridge_db
     \<Rightarrow> (bridge_error + durable_session) \<times> bridge_db" where
  "claim_session hash env0 env1 q db =
     (case get_session hash (cr_kind q) (cr_value q) (cr_scope q) db of
        Some r \<Rightarrow> claim_update (ce_now env0) q r db
      | None \<Rightarrow>
          (case claim_insert hash (ce_now env0) (ce_new_id env0) q (ce_others env0 db) of
             (Inr r, db1) \<Rightarrow> (Inr r, db1)
           | (Inl e, db1) \<Rightarrow> claim_attempt hash env1 q db1))"

section \<open>Fenced writes\<close>

definition fenced_in :: "string \<Rightarrow> string \<Rightarrow> int \<Rightarrow> durable_session \<Rightarrow> bool" where
  "fenced_in sid instance_id epoch r = (bs_id r = sid \<and> bs_owner r = Some instance_id \<and> bs_epoch r = epoch)"

text \<open>A caller that is fenced out reads the row in a later statement.\<close>

definition fenced_session_update ::
    "(bridge_db \<Rightarrow> bridge_db) \<Rightarrow> string \<Rightarrow> string \<Rightarrow> int \<Rightarrow> (durable_session \<Rightarrow> durable_session) \<Rightarrow> bridge_db
     \<Rightarrow> durable_session option \<times> bridge_db" where
  "fenced_session_update others sid instance_id epoch f db =
     (case find (fenced_in sid instance_id epoch) (db_sessions db) of
        Some r \<Rightarrow> (Some (f r), update_sessions (fenced_in sid instance_id epoch) f db)
      | None \<Rightarrow> (session_by_id sid (others db), others db))"

record renewal =
  rn_ttl :: real
  rn_turn :: "string option"
  rn_response :: "string option"
  rn_item_count :: "int option"
  rn_fingerprint :: "string option"
  rn_state :: "bridge_state option"

definition renewed_row :: "int \<Rightarrow> renewal \<Rightarrow> durable_session \<Rightarrow> durable_session" where
  "renewed_row now v r =
     (let r1 = r\<lparr>bs_lease := Some (lease_until now (rn_ttl v)), bs_last_seen := now\<rparr>;
          r2 = (case rn_turn v of None \<Rightarrow> r1 | Some t \<Rightarrow> r1\<lparr>bs_turn := Some t\<rparr>);
          paired = (rn_item_count v \<noteq> None \<and> rn_fingerprint v \<noteq> None);
          r3 = (case rn_response v of None \<Rightarrow> r2
                | Some p \<Rightarrow>
                    (let r' = r2\<lparr>bs_response := Some p\<rparr>
                     in if paired then r' else r'\<lparr>bs_item_count := None, bs_fingerprint := None\<rparr>));
          r4 = (if paired then r3\<lparr>bs_item_count := rn_item_count v, bs_fingerprint := rn_fingerprint v\<rparr> else r3)
      in case rn_state v of None \<Rightarrow> r4 | Some s \<Rightarrow> r4\<lparr>bs_state := s\<rparr>)"

definition renew_session ::
    "(bridge_db \<Rightarrow> bridge_db) \<Rightarrow> int \<Rightarrow> string \<Rightarrow> string \<Rightarrow> int \<Rightarrow> renewal \<Rightarrow> bridge_db
     \<Rightarrow> durable_session option \<times> bridge_db" where
  "renew_session others now sid instance_id epoch v db =
     fenced_session_update others sid instance_id epoch (renewed_row now v) db"

definition released_row :: "int \<Rightarrow> bool \<Rightarrow> durable_session \<Rightarrow> durable_session" where
  "released_row now draining r =
     r\<lparr>bs_owner := None, bs_lease := Some now, bs_last_seen := now,
       bs_state := (if draining then Bridge_draining else Bridge_closed),
       bs_closed_at := (if draining then None else Some now)\<rparr>"

definition release_session ::
    "(bridge_db \<Rightarrow> bridge_db) \<Rightarrow> int \<Rightarrow> string \<Rightarrow> string \<Rightarrow> int \<Rightarrow> bool \<Rightarrow> bridge_db
     \<Rightarrow> durable_session option \<times> bridge_db" where
  "release_session others now sid instance_id epoch draining db =
     fenced_session_update others sid instance_id epoch (released_row now draining) db"

section \<open>Aliases\<close>

definition neutral_replay_rows :: "durable_session \<Rightarrow> bool" where
  "neutral_replay_rows r =
     (bs_kind r = HTTP_BRIDGE_ACCOUNT_NEUTRAL_REPLAY_KIND
      \<and> like_match (HTTP_BRIDGE_ACCOUNT_NEUTRAL_REPLAY_KEY_PREFIX @ ''%'') (bs_value r)
      \<and> bs_value r \<noteq> HTTP_BRIDGE_ACCOUNT_NEUTRAL_REPLAY_KEY_PREFIX)"

definition rebindable_rows :: "durable_session \<Rightarrow> bool" where
  "rebindable_rows r = (bs_kind r \<in> set HTTP_BRIDGE_ACCOUNT_NEUTRAL_REPLAY_REBINDABLE_KINDS)"

definition replaceable_recovery_rows :: "int \<Rightarrow> durable_session \<Rightarrow> bool" where
  "replaceable_recovery_rows now r = (neutral_replay_rows r \<and> (bs_owner r = None \<or> lease_expired now r))"

definition refers_to :: "(durable_session \<Rightarrow> bool) \<Rightarrow> bridge_db \<Rightarrow> bridge_alias \<Rightarrow> bool" where
  "refers_to p db a = list_ex (\<lambda>r. bs_id r = ba_session a \<and> p r) (db_sessions db)"

text \<open>Which existing alias row an upsert for \<open>sid\<close> may overwrite; without a target kind, any.\<close>

definition conflict_where :: "int \<Rightarrow> string \<Rightarrow> bool option \<Rightarrow> bridge_db \<Rightarrow> bridge_alias \<Rightarrow> bool" where
  "conflict_where now sid target_neutral db a =
     (case target_neutral of
        None \<Rightarrow> True
      | Some True \<Rightarrow>
          ba_session a = sid \<or> refers_to (replaceable_recovery_rows now) db a \<or> refers_to rebindable_rows db a
      | Some False \<Rightarrow> ba_session a = sid \<or> \<not> refers_to neutral_replay_rows db a)"

definition alias_upsert ::
    "(string \<Rightarrow> string) \<Rightarrow> int \<Rightarrow> bool option \<Rightarrow> string \<Rightarrow> string \<Rightarrow> string \<Rightarrow> string \<Rightarrow> bridge_db \<Rightarrow> bool \<times> bridge_db" where
  "alias_upsert hash now target_neutral sid kind value scope db =
     (let here = (\<lambda>a. alias_ident a = (kind, hash value, scope))
      in case find here (db_aliases db) of
           None \<Rightarrow>
             (True, db\<lparr>db_aliases := db_aliases db @
                [\<lparr>ba_session = sid, ba_kind = kind, ba_value = value, ba_hash = hash value, ba_scope = scope\<rparr>]\<rparr>)
         | Some a \<Rightarrow>
             (if conflict_where now sid target_neutral db a
              then (True, db\<lparr>db_aliases :=
                      map (\<lambda>b. if here b then b\<lparr>ba_session := sid, ba_value := value\<rparr> else b) (db_aliases db)\<rparr>)
              else (False, db)))"

text \<open>The unconditional upsert; the foreign key refuses a session that is gone.\<close>

definition upsert_alias ::
    "(string \<Rightarrow> string) \<Rightarrow> int \<Rightarrow> string \<Rightarrow> string \<Rightarrow> string \<Rightarrow> string \<Rightarrow> bridge_db \<Rightarrow> (bridge_error + unit) \<times> bridge_db" where
  "upsert_alias hash now sid kind value scope db =
     (if session_by_id sid db = None then (Inl IntegrityError, db)
      else (Inr (), snd (alias_upsert hash now None sid kind value scope db)))"

datatype alias_registration = REGISTERED | OWNER_FENCED | ALIAS_PROTECTED

record anchor =
  an_turn :: "string option"
  an_response :: "string option"
  an_item_count :: "int option"
  an_fingerprint :: "string option"

definition anchored_row :: "int \<Rightarrow> real \<Rightarrow> anchor \<Rightarrow> durable_session \<Rightarrow> durable_session" where
  "anchored_row now ttl v r =
     (let r1 = r\<lparr>bs_lease := Some (lease_until now ttl), bs_last_seen := now\<rparr>;
          r2 = (case an_turn v of None \<Rightarrow> r1 | Some t \<Rightarrow> r1\<lparr>bs_turn := Some t\<rparr>)
      in case an_response v of
           Some p \<Rightarrow> r2\<lparr>bs_response := Some p, bs_item_count := an_item_count v, bs_fingerprint := an_fingerprint v\<rparr>
         | None \<Rightarrow>
             (if an_item_count v \<noteq> None \<and> an_fingerprint v \<noteq> None
              then r2\<lparr>bs_item_count := an_item_count v, bs_fingerprint := an_fingerprint v\<rparr> else r2))"

definition owned_in_scope :: "string \<Rightarrow> string \<Rightarrow> string \<Rightarrow> int \<Rightarrow> durable_session \<Rightarrow> bool" where
  "owned_in_scope sid scope instance_id epoch r = (fenced_in sid instance_id epoch r \<and> bs_scope r = scope)"

definition is_neutral_session :: "durable_session \<Rightarrow> bool" where
  "is_neutral_session r = is_http_bridge_account_neutral_replay (bs_kind r) (bs_value r)"

text \<open>\<open>now2\<close> is the clock the upsert reads.\<close>

definition register_owned_alias ::
    "(string \<Rightarrow> string) \<Rightarrow> int \<Rightarrow> int \<Rightarrow> string \<Rightarrow> string \<Rightarrow> string \<Rightarrow> int \<Rightarrow> string \<Rightarrow> string \<Rightarrow> real \<Rightarrow> anchor
     \<Rightarrow> bridge_db \<Rightarrow> alias_registration \<times> bridge_db" where
  "register_owned_alias hash now now2 sid scope instance_id epoch kind value ttl v db =
     (let owned = owned_in_scope sid scope instance_id epoch
      in case find owned (db_sessions db) of
           None \<Rightarrow> (OWNER_FENCED, db)
         | Some target \<Rightarrow>
             (case alias_upsert hash now2 (Some (is_neutral_session target)) sid kind value scope
                     (update_sessions owned (anchored_row now ttl v) db) of
                (True, db') \<Rightarrow> (REGISTERED, db')
              | (False, db') \<Rightarrow> (ALIAS_PROTECTED, db)))"

section \<open>Reversible turn-state aliases\<close>

record alias_receipt =
  rc_status :: alias_registration
  rc_session :: string
  rc_scope :: string
  rc_kind :: string
  rc_value :: string
  rc_instance :: string
  rc_epoch :: int
  rc_prev_session :: "string option"
  rc_prev_epoch :: "int option"
  rc_prev_account :: "string option"
  rc_prev_turn :: "string option"

definition exact_alias :: "(string \<Rightarrow> string) \<Rightarrow> string \<Rightarrow> string \<Rightarrow> string \<Rightarrow> bridge_alias \<Rightarrow> bool" where
  "exact_alias hash kind value scope a = (alias_ident a = (kind, hash value, scope) \<and> ba_value a = value)"

definition register_reversible_turn_state_alias ::
    "(string \<Rightarrow> string) \<Rightarrow> int \<Rightarrow> int \<Rightarrow> string \<Rightarrow> string \<Rightarrow> string \<Rightarrow> int \<Rightarrow> string \<Rightarrow> real \<Rightarrow> bridge_db
     \<Rightarrow> alias_receipt \<times> bridge_db" where
  "register_reversible_turn_state_alias hash now now2 sid scope instance_id epoch turn_state ttl db =
     (let kind = ''turn_state'';
          owned = owned_in_scope sid scope instance_id epoch;
          receipt = (\<lambda>status prev_sid prev_epoch prev_account prev_turn.
            \<lparr>rc_status = status, rc_session = sid, rc_scope = scope, rc_kind = kind, rc_value = turn_state,
             rc_instance = instance_id, rc_epoch = epoch, rc_prev_session = prev_sid,
             rc_prev_epoch = prev_epoch, rc_prev_account = prev_account, rc_prev_turn = prev_turn\<rparr>)
      in case find owned (db_sessions db) of
           None \<Rightarrow> (receipt OWNER_FENCED None None None None, db)
         | Some target \<Rightarrow>
             (let db1 = update_sessions owned (\<lambda>r. r\<lparr>bs_lease := Some (lease_until now ttl), bs_last_seen := now\<rparr>) db;
                  prev_sid = map_option ba_session (find (exact_alias hash kind turn_state scope) (db_aliases db1));
                  prev = Option.bind prev_sid (\<lambda>p. session_by_id p db1);
                  r = (\<lambda>status. receipt status prev_sid (map_option bs_epoch prev) (Option.bind prev bs_account)
                                  (bs_turn target));
                  db2 = update_sessions (has_id sid) (\<lambda>r. r\<lparr>bs_turn := Some turn_state\<rparr>) db1
              in case alias_upsert hash now2 (Some (is_neutral_session target)) sid kind turn_state scope db2 of
                   (True, db3) \<Rightarrow> (r REGISTERED, db3)
                 | (False, db3) \<Rightarrow> (r ALIAS_PROTECTED, db)))"

text \<open>
  The undo. PostgreSQL reads the previous owner of the alias under a lock before the fenced
  update and SQLite after it; the transaction sees the same row either way.
\<close>

definition previous_session_valid :: "alias_receipt \<Rightarrow> bridge_db \<Rightarrow> bool" where
  "previous_session_valid rc db =
     (case rc_prev_session rc of None \<Rightarrow> False
      | Some p \<Rightarrow>
          (case session_by_id p db of None \<Rightarrow> False
           | Some r \<Rightarrow> Some (bs_epoch r) = rc_prev_epoch rc \<and> bs_account r = rc_prev_account rc))"

definition rollback_reversible_turn_state_alias ::
    "(string \<Rightarrow> string) \<Rightarrow> alias_receipt \<Rightarrow> bridge_db \<Rightarrow> bool \<times> bridge_db" where
  "rollback_reversible_turn_state_alias hash rc db =
     (let owned = owned_in_scope (rc_session rc) (rc_scope rc) (rc_instance rc) (rc_epoch rc);
          mine = (\<lambda>a. ba_session a = rc_session rc \<and> exact_alias hash (rc_kind rc) (rc_value rc) (rc_scope rc) a)
      in if rc_status rc \<noteq> REGISTERED then (False, db)
         else if \<not> list_ex owned (db_sessions db) then (False, db)
         else
           let db1 = update_sessions owned
                 (\<lambda>r. if bs_turn r = Some (rc_value rc) then r\<lparr>bs_turn := rc_prev_turn rc\<rparr> else r) db;
               dropped = db1\<lparr>db_aliases := filter (\<lambda>a. \<not> mine a) (db_aliases db1)\<rparr>
           in (True,
               if \<not> list_ex mine (db_aliases db1) then db1
               else case rc_prev_session rc of
                 None \<Rightarrow> dropped
               | Some p \<Rightarrow>
                   (if p = rc_session rc then db1
                    else if \<not> previous_session_valid rc db1 then dropped
                    else db1\<lparr>db_aliases :=
                           map (\<lambda>a. if mine a then a\<lparr>ba_session := p\<rparr> else a) (db_aliases db1)\<rparr>)))"

section \<open>Draining and purging\<close>

text \<open>
  The rows are read without a lock and written later by their ids; a row that is gone by then
  makes the write fail.
\<close>

definition mark_owner_draining ::
    "(bridge_db \<Rightarrow> bridge_db) \<Rightarrow> int \<Rightarrow> string \<Rightarrow> bridge_db \<Rightarrow> (bridge_error + nat) \<times> bridge_db" where
  "mark_owner_draining others now instance_id db =
     (let ids = map bs_id (filter (\<lambda>r. bs_owner r = Some instance_id \<and> bs_state r = Bridge_active) (db_sessions db));
          db' = others db
      in if list_ex (\<lambda>i. session_by_id i db' = None) ids then (Inl StaleDataError, db')
         else (Inr (length ids),
               update_sessions (\<lambda>r. bs_id r \<in> set ids)
                 (\<lambda>r. r\<lparr>bs_state := Bridge_draining, bs_last_seen := now\<rparr>) db'))"

definition lease_lapsed :: "int \<Rightarrow> durable_session \<Rightarrow> bool" where
  "lease_lapsed now r = (case bs_lease r of None \<Rightarrow> True | Some t \<Rightarrow> t < now)"

definition startup_purge_filter :: "int \<Rightarrow> string \<Rightarrow> int option \<Rightarrow> durable_session \<Rightarrow> bool" where
  "startup_purge_filter now instance_id ownerless_cutoff r =
     (bs_owner r = Some instance_id
      \<or> (case ownerless_cutoff of None \<Rightarrow> False
         | Some cutoff \<Rightarrow>
             bs_owner r = None \<and> bs_state r \<in> {Bridge_active, Bridge_draining} \<and> lease_lapsed now r
             \<and> bs_last_seen r < cutoff))"

definition closed_filter :: "int \<Rightarrow> durable_session \<Rightarrow> bool" where
  "closed_filter cutoff r = (bs_state r = Bridge_closed \<and> bs_last_seen r < cutoff)"

definition abandoned_filter :: "int \<Rightarrow> int \<Rightarrow> durable_session \<Rightarrow> bool" where
  "abandoned_filter now cutoff r =
     (bs_state r \<in> {Bridge_active, Bridge_draining} \<and> lease_lapsed now r \<and> bs_last_seen r < cutoff)"

definition oldest_batch :: "nat \<Rightarrow> (durable_session \<Rightarrow> bool) \<Rightarrow> bridge_db \<Rightarrow> durable_session list" where
  "oldest_batch batch_size p db = take batch_size (sort_key bs_last_seen (filter p (db_sessions db)))"

definition retained_recovery :: "string \<Rightarrow> int option \<Rightarrow> durable_session \<Rightarrow> bool" where
  "retained_recovery instance_id ownerless_cutoff c =
     (bs_owner c = Some instance_id
      \<and> (case ownerless_cutoff of None \<Rightarrow> True | Some cutoff \<Rightarrow> cutoff \<le> bs_last_seen c)
      \<and> is_neutral_session c)"

text \<open>The write transaction of one round over the rows it selected.\<close>

definition startup_purge_write ::
    "int \<Rightarrow> string \<Rightarrow> int option \<Rightarrow> durable_session list \<Rightarrow> bridge_db \<Rightarrow> nat \<times> bridge_db" where
  "startup_purge_write now instance_id ownerless_cutoff candidates db =
     (let retained = map bs_id (filter (retained_recovery instance_id ownerless_cutoff) candidates);
          deletable = filter (\<lambda>i. i \<notin> set retained) (map bs_id candidates);
          db1 = update_sessions (\<lambda>r. bs_id r \<in> set retained \<and> bs_owner r = Some instance_id)
            (\<lambda>r. r\<lparr>bs_owner := None, bs_lease := Some now, bs_state := Bridge_draining, bs_closed_at := None\<rparr>) db;
          doomed = (\<lambda>r. bs_id r \<in> set deletable \<and> startup_purge_filter now instance_id ownerless_cutoff r)
      in (length (filter doomed (db_sessions db1)), delete_sessions doomed db1))"

text \<open>
  The loops run over a list of rounds, each with its clock and what other replicas do between
  its select and its delete; \<open>None\<close> while the loop is still running.
\<close>

type_synonym purge_rounds = "(int \<times> (bridge_db \<Rightarrow> bridge_db)) list"

fun purge_owned_sessions_on_startup ::
    "string \<Rightarrow> int option \<Rightarrow> nat \<Rightarrow> nat \<Rightarrow> purge_rounds \<Rightarrow> bridge_db \<Rightarrow> nat option \<times> bridge_db" where
  "purge_owned_sessions_on_startup instance_id cutoff batch_size deleted [] db = (None, db)"
| "purge_owned_sessions_on_startup instance_id cutoff batch_size deleted ((now, others) # rounds) db =
     (let candidates = oldest_batch batch_size (startup_purge_filter now instance_id cutoff) db
      in if candidates = [] then (Some deleted, db)
         else
           let (n, db') = startup_purge_write now instance_id cutoff candidates (others db)
           in purge_owned_sessions_on_startup instance_id cutoff batch_size (deleted + n) rounds db')"

definition purge_write :: "(durable_session \<Rightarrow> bool) \<Rightarrow> durable_session list \<Rightarrow> bridge_db \<Rightarrow> nat \<times> bridge_db" where
  "purge_write p candidates db =
     (let doomed = (\<lambda>r. bs_id r \<in> set (map bs_id candidates) \<and> p r)
      in (length (filter doomed (db_sessions db)), delete_sessions doomed db))"

fun purge_loop ::
    "(int \<Rightarrow> durable_session \<Rightarrow> bool) \<Rightarrow> nat \<Rightarrow> nat \<Rightarrow> purge_rounds \<Rightarrow> bridge_db \<Rightarrow> nat option \<times> bridge_db" where
  "purge_loop p batch_size deleted [] db = (None, db)"
| "purge_loop p batch_size deleted ((now, others) # rounds) db =
     (let candidates = oldest_batch batch_size (p now) db
      in if candidates = [] then (Some deleted, db)
         else
           let (n, db') = purge_write (p now) candidates (others db)
           in purge_loop p batch_size (deleted + n) rounds db')"

definition PURGE_CLOSED_BATCH_SIZE :: nat where
  "PURGE_CLOSED_BATCH_SIZE = 500"

definition purge_closed_before :: "int \<Rightarrow> nat \<Rightarrow> purge_rounds \<Rightarrow> bridge_db \<Rightarrow> nat option \<times> bridge_db" where
  "purge_closed_before cutoff batch_size rounds db = purge_loop (\<lambda>now. closed_filter cutoff) batch_size 0 rounds db"

definition purge_abandoned_before :: "int \<Rightarrow> nat \<Rightarrow> purge_rounds \<Rightarrow> bridge_db \<Rightarrow> nat option \<times> bridge_db" where
  "purge_abandoned_before cutoff batch_size rounds db =
     purge_loop (\<lambda>now. abandoned_filter now cutoff) batch_size 0 rounds db"

end
