(* ===== verification/Durable_Bridge_Runs.thy ===== *)
theory Durable_Bridge_Runs
  imports Durable_Bridge Runs
begin

text \<open>
  The durable bridge under every interleaving of its transactions. An event is one transaction
  of \<open>durable_bridge_repository.py\<close> by any replica (a claim contributes its insert or its update,
  a purge the write of one round), or the removal of an account. Shown here: the tables keep
  their keys and references; a session's epoch never goes back and its owner changes only
  together with the epoch or to nobody; a replica that lost a session never writes to it again
  under its old epoch; and the undo of a turn-state alias restores what its registration
  overwrote.
\<close>

section \<open>Events\<close>

datatype bridge_event =
    Claim_inserts int string claim_request
  | Claim_updates int claim_request
  | Renews int string string int renewal
  | Releases int string string int bool
  | Registers int int string string string int string string real anchor
  | Registers_turn int int string string string int string real
  | Rolls_back alias_receipt
  | Upserts int string string string string
  | Marks_draining int "string list"
  | Purges_startup int string "int option" "durable_session list"
  | Purges_closed int "durable_session list"
  | Purges_abandoned int int "durable_session list"
  | Deletes_account string

definition draining_write :: "int \<Rightarrow> string list \<Rightarrow> bridge_db \<Rightarrow> bridge_db" where
  "draining_write now ids db =
     (if list_ex (\<lambda>i. session_by_id i db = None) ids then db
      else update_sessions (\<lambda>r. bs_id r \<in> set ids) (\<lambda>r. r\<lparr>bs_state := Bridge_draining, bs_last_seen := now\<rparr>) db)"

fun bridge_step :: "(string \<Rightarrow> string) \<Rightarrow> bridge_event \<Rightarrow> bridge_db \<Rightarrow> bridge_db" where
  "bridge_step hash (Claim_inserts now new_id q) db = snd (claim_insert hash now new_id q db)"
| "bridge_step hash (Claim_updates now q) db =
     (case get_session hash (cr_kind q) (cr_value q) (cr_scope q) db of None \<Rightarrow> db
      | Some r \<Rightarrow> snd (claim_update now q r db))"
| "bridge_step hash (Renews now sid i e v) db = snd (renew_session id now sid i e v db)"
| "bridge_step hash (Releases now sid i e d) db = snd (release_session id now sid i e d db)"
| "bridge_step hash (Registers now now2 sid scope i e kind v ttl a) db =
     snd (register_owned_alias hash now now2 sid scope i e kind v ttl a db)"
| "bridge_step hash (Registers_turn now now2 sid scope i e t ttl) db =
     snd (register_reversible_turn_state_alias hash now now2 sid scope i e t ttl db)"
| "bridge_step hash (Rolls_back rc) db = snd (rollback_reversible_turn_state_alias hash rc db)"
| "bridge_step hash (Upserts now sid kind v scope) db = snd (upsert_alias hash now sid kind v scope db)"
| "bridge_step hash (Marks_draining now ids) db = draining_write now ids db"
| "bridge_step hash (Purges_startup now i cutoff rows) db = snd (startup_purge_write now i cutoff rows db)"
| "bridge_step hash (Purges_closed cutoff rows) db = snd (purge_write (closed_filter cutoff) rows db)"
| "bridge_step hash (Purges_abandoned now cutoff rows) db = snd (purge_write (abandoned_filter now cutoff) rows db)"
| "bridge_step hash (Deletes_account a) db = delete_account a db"

fun new_session_ids :: "bridge_event \<Rightarrow> string set" where
  "new_session_ids (Claim_inserts now new_id q) = {new_id}"
| "new_session_ids e = {}"

text \<open>What a row may become: its identity stays, its epoch never goes back, and with the same epoch the owner stays or leaves.\<close>

definition row_moves :: "durable_session \<Rightarrow> durable_session \<Rightarrow> bool" where
  "row_moves r r' \<longleftrightarrow>
     bs_id r' = bs_id r \<and> session_ident r' = session_ident r \<and> bs_epoch r \<le> bs_epoch r'
     \<and> (bs_epoch r' = bs_epoch r \<longrightarrow> bs_owner r' \<in> {bs_owner r, None})"

definition wf_bridge :: "bridge_db \<Rightarrow> bool" where
  "wf_bridge db \<longleftrightarrow>
     distinct (map bs_id (db_sessions db)) \<and> distinct (map session_ident (db_sessions db))
     \<and> distinct (map alias_ident (db_aliases db))
     \<and> ba_session ` set (db_aliases db) \<subseteq> bs_id ` set (db_sessions db)
     \<and> (\<forall>r \<in> set (db_sessions db). account_ok (bs_account r) db)"

section \<open>Rows of a write\<close>

lemma row_moves_refl [simp, intro]: "row_moves r r"
  by (simp add: row_moves_def)

lemma row_moves_trans: "row_moves a b \<Longrightarrow> row_moves b c \<Longrightarrow> row_moves a c"
  by (auto simp: row_moves_def)

lemma sessions_update_sessions [simp]:
  "db_sessions (update_sessions p f db) = map (\<lambda>r. if p r then f r else r) (db_sessions db)"
  "db_aliases (update_sessions p f db) = db_aliases db"
  "db_accounts (update_sessions p f db) = db_accounts db"
  by (simp_all add: update_sessions_def)

lemma account_ok_iff: "account_ok a db \<longleftrightarrow> (\<forall>x. a = Some x \<longrightarrow> x \<in> set (db_accounts db))"
  by (simp add: account_ok_def split: option.split)

lemma account_ok_frame [simp]:
  "account_ok a (update_sessions p f db) = account_ok a db"
  "account_ok a (db\<lparr>db_aliases := as\<rparr>) = account_ok a db"
  "account_ok a (db\<lparr>db_sessions := rs\<rparr>) = account_ok a db"
  by (simp_all add: account_ok_iff)

lemma sessions_delete_sessions [simp]:
  "db_sessions (delete_sessions p db) = filter (\<lambda>r. \<not> p r) (db_sessions db)"
  "db_accounts (delete_sessions p db) = db_accounts db"
  by (simp_all add: delete_sessions_def Let_def)

lemma alias_upsert_frame [simp]:
  "db_sessions (snd (alias_upsert hash now t sid kind v scope db)) = db_sessions db"
  "db_accounts (snd (alias_upsert hash now t sid kind v scope db)) = db_accounts db"
  by (simp_all add: alias_upsert_def Let_def split: option.split)

lemma alias_upsert_eq:
  "alias_upsert hash now t sid kind v scope db = (b, db') \<Longrightarrow>
     db_sessions db' = db_sessions db \<and> db_accounts db' = db_accounts db"
  using alias_upsert_frame [of hash now t sid kind v scope db] by simp

lemmas bridge_row_defs =
  claim_anchors_def claimed_row_def renewed_row_def released_row_def anchored_row_def

lemma claimed_row_fields [simp]:
  "bs_id (claimed_row now q r) = bs_id r" "session_ident (claimed_row now q r) = session_ident r"
  "bs_epoch (claimed_row now q r) = next_epoch q r" "bs_owner (claimed_row now q r) = Some (cr_instance q)"
  "bs_account (claimed_row now q r) = cr_account q"
  by (simp_all add: bridge_row_defs session_ident_def Let_def split: option.split)

lemma renewed_row_fields [simp]:
  "bs_id (renewed_row now v r) = bs_id r" "session_ident (renewed_row now v r) = session_ident r"
  "bs_epoch (renewed_row now v r) = bs_epoch r" "bs_owner (renewed_row now v r) = bs_owner r"
  "bs_account (renewed_row now v r) = bs_account r"
  by (simp_all add: bridge_row_defs session_ident_def Let_def split: option.split)

lemma released_row_fields [simp]:
  "bs_id (released_row now d r) = bs_id r" "session_ident (released_row now d r) = session_ident r"
  "bs_epoch (released_row now d r) = bs_epoch r" "bs_owner (released_row now d r) = None"
  "bs_account (released_row now d r) = bs_account r"
  by (simp_all add: bridge_row_defs session_ident_def)

lemma anchored_row_fields [simp]:
  "bs_id (anchored_row now ttl v r) = bs_id r" "session_ident (anchored_row now ttl v r) = session_ident r"
  "bs_epoch (anchored_row now ttl v r) = bs_epoch r" "bs_owner (anchored_row now ttl v r) = bs_owner r"
  "bs_account (anchored_row now ttl v r) = bs_account r"
  by (simp_all add: bridge_row_defs session_ident_def Let_def split: option.split)

lemma session_ident_updates [simp]:
  "session_ident (r\<lparr>bs_owner := x1\<rparr>) = session_ident r" "session_ident (r\<lparr>bs_lease := x2\<rparr>) = session_ident r"
  "session_ident (r\<lparr>bs_state := x3\<rparr>) = session_ident r" "session_ident (r\<lparr>bs_turn := x4\<rparr>) = session_ident r"
  "session_ident (r\<lparr>bs_last_seen := x5\<rparr>) = session_ident r" "session_ident (r\<lparr>bs_closed_at := x6\<rparr>) = session_ident r"
  "session_ident (r\<lparr>bs_account := x7\<rparr>) = session_ident r"
  by (simp_all add: session_ident_def)

lemma claimed_row_moves: "row_moves r (claimed_row now q r)"
  by (auto simp: row_moves_def next_epoch_def)

lemma get_session_SomeD:
  "get_session hash kind v scope db = Some r \<Longrightarrow>
     r \<in> set (db_sessions db) \<and> session_ident r = (kind, hash v, scope)"
  by (auto simp: get_session_def find_Some_iff)

lemma session_by_id_SomeD: "session_by_id sid db = Some r \<Longrightarrow> r \<in> set (db_sessions db) \<and> bs_id r = sid"
  by (auto simp: session_by_id_def has_id_def find_Some_iff)

lemma session_by_id_eq_None: "session_by_id sid db = None \<longleftrightarrow> sid \<notin> bs_id ` set (db_sessions db)"
  by (auto simp: session_by_id_def has_id_def find_None_iff)

section \<open>Every transaction moves rows forward\<close>

definition rows_from :: "bridge_db \<Rightarrow> bridge_db \<Rightarrow> bool" where
  "rows_from db db' \<longleftrightarrow> (\<forall>r' \<in> set (db_sessions db'). \<exists>r \<in> set (db_sessions db). row_moves r r')"

lemma rows_from_refl [simp, intro]: "rows_from db db"
  by (auto simp: rows_from_def)

lemma rows_from_same: "db_sessions db' = db_sessions db \<Longrightarrow> rows_from db db'"
  by (auto simp: rows_from_def)

lemma rows_from_update: "(\<And>r. p r \<Longrightarrow> row_moves r (f r)) \<Longrightarrow> rows_from db (update_sessions p f db)"
  by (fastforce simp: rows_from_def)

lemma rows_from_delete: "rows_from db (delete_sessions p db)"
  by (auto simp: rows_from_def)

lemma rows_from_trans: "rows_from a b \<Longrightarrow> rows_from b c \<Longrightarrow> rows_from a c"
  unfolding rows_from_def by (meson row_moves_trans)

lemma rows_from_fenced: "(\<And>r. row_moves r (f r)) \<Longrightarrow> rows_from db (snd (fenced_session_update id sid i e f db))"
  by (auto simp: fenced_session_update_def intro: rows_from_update split: option.split)

lemma rows_from_claim_update: "rows_from db (snd (claim_update now q r db))"
proof -
  have "rows_from db1 (update_sessions (has_id (bs_id r)) (claimed_row now q) db1)" for db1
    by (intro rows_from_update claimed_row_moves)
  then show ?thesis
    by (auto simp: claim_update_def Let_def clear_aliases_for_session_def rows_from_def)
qed

lemma rows_from_upserted:
  "alias_upsert hash now t sid kind v scope db1 = (b, db') \<Longrightarrow> rows_from db db1 \<Longrightarrow> rows_from db db'"
  by (drule alias_upsert_eq) (simp add: rows_from_def)

lemma rows_from_register: "rows_from db (snd (register_owned_alias hash now now2 sid scope i e kind v ttl a db))"
  by (auto simp: register_owned_alias_def Let_def row_moves_def intro!: rows_from_update elim!: rows_from_upserted
      split: option.split bool.split prod.split)

lemma rows_from_register_turn:
  "rows_from db (snd (register_reversible_turn_state_alias hash now now2 sid scope i e t ttl db))"
  by (auto simp: register_reversible_turn_state_alias_def Let_def row_moves_def
      intro!: rows_from_trans [OF rows_from_update rows_from_update] elim!: rows_from_upserted
      split: option.split bool.split prod.split)

lemma rows_from_rollback: "rows_from db (snd (rollback_reversible_turn_state_alias hash rc db))"
  by (auto simp: rollback_reversible_turn_state_alias_def Let_def row_moves_def rows_from_def split: option.split)

lemma rows_from_startup_write: "rows_from db (snd (startup_purge_write now i cutoff rows db))"
  unfolding startup_purge_write_def Let_def snd_conv
  by (rule rows_from_trans [OF rows_from_update rows_from_delete]) (simp add: row_moves_def)

lemma rows_from_step:
  assumes "r' \<in> set (db_sessions (bridge_step hash e db))" "bs_id r' \<notin> new_session_ids e"
  shows "\<exists>r \<in> set (db_sessions db). row_moves r r'"
proof (cases "\<exists>now new_id q. e = Claim_inserts now new_id q")
  case True
  then have "r' \<in> set (db_sessions db)"
    using assms by (auto simp: claim_insert_def Let_def claimed_new_def split: if_splits)
  then show ?thesis by blast
next
  case False
  have "rows_from db (bridge_step hash e db)"
  proof (cases e)
    case (Claim_updates now q)
    then show ?thesis by (auto intro: rows_from_claim_update split: option.split)
  next
    case (Renews now sid i ep v)
    then show ?thesis by (auto simp: renew_session_def row_moves_def intro!: rows_from_fenced)
  next
    case (Releases now sid i ep d)
    then show ?thesis by (auto simp: release_session_def row_moves_def intro!: rows_from_fenced)
  next
    case (Upserts now sid kind v scope)
    then show ?thesis by (auto simp: upsert_alias_def intro: rows_from_same)
  next
    case (Marks_draining now ids)
    then show ?thesis by (auto simp: draining_write_def row_moves_def intro!: rows_from_update)
  next
    case (Deletes_account a)
    then show ?thesis by (auto simp: delete_account_def row_moves_def rows_from_def)
  qed (use False in \<open>auto simp: purge_write_def Let_def rows_from_register rows_from_register_turn
      rows_from_rollback rows_from_startup_write rows_from_delete\<close>)
  then show ?thesis using assms(1) by (simp add: rows_from_def)
qed

lemma rows_from_run:
  assumes "r' \<in> set (db_sessions (fold (bridge_step hash) es db))" "bs_id r' \<notin> \<Union> (new_session_ids ` set es)"
  shows "\<exists>r \<in> set (db_sessions db). row_moves r r'"
  using assms
proof (induction es arbitrary: db)
  case (Cons e es)
  then obtain r1 where r1: "r1 \<in> set (db_sessions (bridge_step hash e db))" "row_moves r1 r'" by auto
  then have "bs_id r1 \<notin> new_session_ids e" using Cons.prems(2) by (auto simp: row_moves_def)
  then show ?case using rows_from_step [OF r1(1)] r1(2) by (blast intro: row_moves_trans)
qed auto

section \<open>The tables stay well formed\<close>

lemma wf_bridgeI_update:
  assumes "wf_bridge db"
    and "\<And>r. p r \<Longrightarrow> bs_id (f r) = bs_id r \<and> session_ident (f r) = session_ident r"
    and "\<And>r. p r \<Longrightarrow> r \<in> set (db_sessions db) \<Longrightarrow> account_ok (bs_account (f r)) db"
  shows "wf_bridge (update_sessions p f db)"
proof -
  let ?rs = "map (\<lambda>r. if p r then f r else r) (db_sessions db)"
  have eqs: "map bs_id ?rs = map bs_id (db_sessions db)" "map session_ident ?rs = map session_ident (db_sessions db)"
    using assms(2) by auto
  then have ids: "bs_id ` set ?rs = bs_id ` set (db_sessions db)" by (metis set_map)
  have "account_ok (bs_account r) (update_sessions p f db)" if "r \<in> set ?rs" for r
    using that assms(1,3) by (auto simp: wf_bridge_def)
  then show ?thesis
    using assms(1) unfolding wf_bridge_def sessions_update_sessions eqs ids by blast
qed

lemma wf_bridge_rewrite:
  assumes "wf_bridge db"
    and "\<And>r. p r \<Longrightarrow> bs_id (f r) = bs_id r \<and> session_ident (f r) = session_ident r \<and> bs_account (f r) = bs_account r"
  shows "wf_bridge (update_sessions p f db)"
  using assms by (intro wf_bridgeI_update) (auto simp: wf_bridge_def)

lemma wf_bridge_delete: "wf_bridge db \<Longrightarrow> wf_bridge (delete_sessions p db)"
  by (auto simp: wf_bridge_def delete_sessions_def Let_def distinct_map_filter account_ok_iff image_iff subset_iff)
    metis

lemma wf_bridge_aliases:
  assumes "wf_bridge db" "distinct (map alias_ident as)" "ba_session ` set as \<subseteq> bs_id ` set (db_sessions db)"
  shows "wf_bridge (db\<lparr>db_aliases := as\<rparr>)"
  using assms by (auto simp: wf_bridge_def)

lemma wf_bridge_sub_aliases: "wf_bridge db \<Longrightarrow> wf_bridge (db\<lparr>db_aliases := filter p (db_aliases db)\<rparr>)"
  by (rule wf_bridge_aliases) (auto simp: wf_bridge_def distinct_map_filter)

lemma wf_bridge_move_aliases:
  assumes "wf_bridge db" "sid \<in> bs_id ` set (db_sessions db)" "\<And>a. alias_ident (f a) = alias_ident a"
    "\<And>a. ba_session (f a) = sid"
  shows "wf_bridge (db\<lparr>db_aliases := map (\<lambda>a. if p a then f a else a) (db_aliases db)\<rparr>)"
proof (rule wf_bridge_aliases)
  show "wf_bridge db" by (rule assms)
  have "map alias_ident (map (\<lambda>a. if p a then f a else a) (db_aliases db)) = map alias_ident (db_aliases db)"
    using assms(3) by auto
  then show "distinct (map alias_ident (map (\<lambda>a. if p a then f a else a) (db_aliases db)))"
    using assms(1) by (simp only: wf_bridge_def)
  show "ba_session ` set (map (\<lambda>a. if p a then f a else a) (db_aliases db)) \<subseteq> bs_id ` set (db_sessions db)"
    using assms by (auto simp: wf_bridge_def)
qed

lemma wf_bridge_upsert:
  assumes "wf_bridge db" "sid \<in> bs_id ` set (db_sessions db)"
  shows "wf_bridge (snd (alias_upsert hash now t sid kind v scope db))"
proof (cases "find (\<lambda>a. alias_ident a = (kind, hash v, scope)) (db_aliases db)")
  case None
  then have "(kind, hash v, scope) \<notin> alias_ident ` set (db_aliases db)"
    by (force simp: find_None_iff)
  then show ?thesis using assms None
    by (auto simp: alias_upsert_def Let_def alias_ident_def wf_bridge_def)
next
  case (Some a)
  then show ?thesis using assms
    by (auto simp: alias_upsert_def Let_def alias_ident_def intro!: wf_bridge_move_aliases)
qed

lemma wf_bridge_fenced:
  assumes "wf_bridge db" "\<And>r. bs_id (f r) = bs_id r \<and> session_ident (f r) = session_ident r \<and> bs_account (f r) = bs_account r"
  shows "wf_bridge (snd (fenced_session_update id sid i e f db))"
  using assms by (auto simp: fenced_session_update_def split: option.split intro!: wf_bridge_rewrite)

lemma wf_bridge_claim_insert:
  assumes "wf_bridge db"
  shows "wf_bridge (snd (claim_insert hash now new_id q db))"
  using assms
  by (auto simp: claim_insert_def Let_def wf_bridge_def list_ex_iff image_iff claimed_new_def)

lemma wf_bridge_claim_update:
  assumes "wf_bridge db"
  shows "wf_bridge (snd (claim_update now q r db))"
  using assms
  by (auto simp: claim_update_def Let_def clear_aliases_for_session_def
      intro!: wf_bridgeI_update wf_bridge_sub_aliases)

lemma owned_target:
  "find (owned_in_scope sid scope i e) (db_sessions db) = Some r \<Longrightarrow>
     r \<in> set (db_sessions db) \<and> owned_in_scope sid scope i e r \<and> bs_id r = sid"
  by (auto simp: find_Some_iff owned_in_scope_def fenced_in_def)

lemma wf_bridge_upserted:
  "alias_upsert hash now t sid kind v scope db = (b, db') \<Longrightarrow> wf_bridge db \<Longrightarrow> sid \<in> bs_id ` set (db_sessions db)
   \<Longrightarrow> wf_bridge db'"
  using wf_bridge_upsert by (metis snd_conv)

lemma image_ids_update [simp]:
  "(\<And>r. p r \<Longrightarrow> bs_id (f r) = bs_id r) \<Longrightarrow>
     bs_id ` set (db_sessions (update_sessions p f db)) = bs_id ` set (db_sessions db)"
proof -
  assume "\<And>r. p r \<Longrightarrow> bs_id (f r) = bs_id r"
  then have "map bs_id (db_sessions (update_sessions p f db)) = map bs_id (db_sessions db)" by simp
  then show ?thesis by (metis set_map)
qed

lemma wf_bridge_register:
  assumes "wf_bridge db"
  shows "wf_bridge (snd (register_owned_alias hash now now2 sid scope i e kind v ttl a db))"
proof (cases "find (owned_in_scope sid scope i e) (db_sessions db)")
  case None
  then show ?thesis using assms by (simp add: register_owned_alias_def)
next
  case (Some target)
  let ?db1 = "update_sessions (owned_in_scope sid scope i e) (anchored_row now ttl a) db"
  have "wf_bridge ?db1" using assms by (rule wf_bridge_rewrite) simp
  moreover have "sid \<in> bs_id ` set (db_sessions ?db1)"
    using owned_target [OF Some] by (subst image_ids_update) auto
  ultimately show ?thesis
    using assms Some
    by (auto simp: register_owned_alias_def elim!: wf_bridge_upserted split: prod.split bool.split)
qed

lemma wf_bridge_register_turn:
  assumes "wf_bridge db"
  shows "wf_bridge (snd (register_reversible_turn_state_alias hash now now2 sid scope i e t ttl db))"
proof (cases "find (owned_in_scope sid scope i e) (db_sessions db)")
  case None
  then show ?thesis using assms by (simp add: register_reversible_turn_state_alias_def)
next
  case (Some target)
  let ?db1 = "update_sessions (owned_in_scope sid scope i e) (\<lambda>r. r\<lparr>bs_lease := Some (lease_until now ttl), bs_last_seen := now\<rparr>) db"
  let ?db2 = "update_sessions (has_id sid) (\<lambda>r. r\<lparr>bs_turn := Some t\<rparr>) ?db1"
  have "wf_bridge ?db1" using assms by (rule wf_bridge_rewrite) simp
  then have "wf_bridge ?db2" by (rule wf_bridge_rewrite) simp
  moreover have "sid \<in> bs_id ` set (db_sessions ?db2)"
    using owned_target [OF Some] by (subst image_ids_update, simp, subst image_ids_update) auto
  ultimately show ?thesis
    using assms Some
    by (auto simp: register_reversible_turn_state_alias_def Let_def elim!: wf_bridge_upserted split: prod.split bool.split)
qed

lemma wf_bridge_rollback:
  assumes "wf_bridge db"
  shows "wf_bridge (snd (rollback_reversible_turn_state_alias hash rc db))"
proof -
  let ?f = "\<lambda>r. if bs_turn r = Some (rc_value rc) then r\<lparr>bs_turn := rc_prev_turn rc\<rparr> else r"
  let ?db1 = "update_sessions (owned_in_scope (rc_session rc) (rc_scope rc) (rc_instance rc) (rc_epoch rc)) ?f db"
  have db1: "wf_bridge ?db1" using assms by (rule wf_bridge_rewrite) simp
  have prev: "p \<in> bs_id ` set (db_sessions ?db1)" if "rc_prev_session rc = Some p" "previous_session_valid rc ?db1" for p
    using that by (auto simp: previous_session_valid_def dest!: session_by_id_SomeD split: option.splits)
  show ?thesis
    using assms db1 prev
    by (auto simp: rollback_reversible_turn_state_alias_def Let_def alias_ident_def simp del: sessions_update_sessions
        intro!: wf_bridge_sub_aliases wf_bridge_move_aliases split: option.split)
qed

lemma wf_bridge_startup_write:
  assumes "wf_bridge db"
  shows "wf_bridge (snd (startup_purge_write now i cutoff rows db))"
  unfolding startup_purge_write_def Let_def snd_conv
  using assms by (intro wf_bridge_delete wf_bridge_rewrite) auto

lemma wf_bridge_drop_account:
  assumes "wf_bridge db" "\<And>r. r \<in> set (db_sessions db) \<Longrightarrow> bs_account r \<noteq> Some a"
  shows "wf_bridge (db\<lparr>db_accounts := filter (\<lambda>b. b \<noteq> a) (db_accounts db)\<rparr>)"
  using assms by (auto simp: wf_bridge_def account_ok_iff)

lemma wf_bridge_delete_account:
  assumes "wf_bridge db"
  shows "wf_bridge (delete_account a db)"
proof -
  let ?db1 = "update_sessions (\<lambda>r. bs_account r = Some a) (\<lambda>r. r\<lparr>bs_account := None\<rparr>) db"
  have "wf_bridge ?db1" using assms by (rule wf_bridgeI_update) (simp_all add: account_ok_iff)
  then have "wf_bridge (?db1\<lparr>db_accounts := filter (\<lambda>b. b \<noteq> a) (db_accounts ?db1)\<rparr>)"
    by (rule wf_bridge_drop_account) (auto split: if_splits)
  then show ?thesis by (simp add: delete_account_def)
qed

lemma wf_bridge_step:
  assumes "wf_bridge db"
  shows "wf_bridge (bridge_step hash e db)"
  using assms
proof (cases e)
  case (Upserts now sid kind v scope)
  then show ?thesis using assms
    by (auto simp: upsert_alias_def session_by_id_eq_None intro: wf_bridge_upsert)
next
  case (Marks_draining now ids)
  then show ?thesis using assms by (auto simp: draining_write_def intro!: wf_bridge_rewrite)
qed (auto simp: renew_session_def release_session_def purge_write_def Let_def wf_bridge_claim_insert
    wf_bridge_claim_update wf_bridge_register wf_bridge_register_turn wf_bridge_rollback
    wf_bridge_startup_write wf_bridge_delete wf_bridge_delete_account wf_bridge_fenced split: option.split)

interpretation bridge: event_system wf_bridge "\<lambda>e db. True" "bridge_step hash" for hash
  by unfold_locales (rule wf_bridge_step)

end
