(* ===== verification/Durable_Bridge_Fencing.thy ===== *)
theory Durable_Bridge_Fencing
  imports Durable_Bridge_Runs
begin

text \<open>
  What the epoch of a durable session is for. A replica holds a session under the epoch its
  claim returned and writes only where owner and epoch still match. A claim that moves the
  session shuts the previous holder out for good; one epoch never names two replicas; a live
  lease is not taken over silently; draining and purging leave the sessions of others alone,
  up to the unlocked read of \<open>mark_owner_draining\<close>; purging ends; and the undo of a turn-state alias
  restores what its registration overwrote.
\<close>

section \<open>Dead tokens\<close>

definition token_dead :: "string \<Rightarrow> string \<Rightarrow> int \<Rightarrow> bridge_db \<Rightarrow> bool" where
  "token_dead sid i e db \<longleftrightarrow>
     (\<forall>r \<in> set (db_sessions db). bs_id r = sid \<longrightarrow> e < bs_epoch r \<or> bs_epoch r = e \<and> bs_owner r \<noteq> Some i)"

lemma token_dead_run:
  assumes "token_dead sid i e db" "sid \<notin> \<Union> (new_session_ids ` set es)"
  shows "token_dead sid i e (fold (bridge_step hash) es db)"
  unfolding token_dead_def
proof (intro ballI impI)
  fix r' assume r': "r' \<in> set (db_sessions (fold (bridge_step hash) es db))" "bs_id r' = sid"
  then obtain r where "r \<in> set (db_sessions db)" "row_moves r r'" using rows_from_run [of r' hash es db] assms(2) by auto
  then show "e < bs_epoch r' \<or> bs_epoch r' = e \<and> bs_owner r' \<noteq> Some i"
    using assms(1) r'(2) by (auto simp: token_dead_def row_moves_def)
qed

lemma token_dead_not_fenced: "token_dead sid i e db \<Longrightarrow> r \<in> set (db_sessions db) \<Longrightarrow> \<not> fenced_in sid i e r"
  by (auto simp: token_dead_def fenced_in_def)

lemma token_dead_find:
  assumes "token_dead sid i e db"
  shows "find (fenced_in sid i e) (db_sessions db) = None"
    and "find (owned_in_scope sid scope i e) (db_sessions db) = None"
    and "\<not> list_ex (owned_in_scope sid scope i e) (db_sessions db)"
  using token_dead_not_fenced [OF assms] by (auto simp: find_None_iff list_ex_iff owned_in_scope_def)

lemma dead_token_writes:
  assumes "token_dead sid i e db"
  shows "renew_session id now sid i e v db = (session_by_id sid db, db)"
    and "release_session id now sid i e draining db = (session_by_id sid db, db)"
    and "register_owned_alias hash now now2 sid scope i e kind t ttl a db = (OWNER_FENCED, db)"
    and "snd (register_reversible_turn_state_alias hash now now2 sid scope i e t ttl db) = db"
  using token_dead_find [OF assms]
  by (simp_all add: renew_session_def release_session_def fenced_session_update_def register_owned_alias_def
      register_reversible_turn_state_alias_def)

lemma dead_token_rollback:
  "token_dead (rc_session rc) (rc_instance rc) (rc_epoch rc) db \<Longrightarrow>
     rollback_reversible_turn_state_alias hash rc db = (False, db)"
  using token_dead_find(3) by (simp add: rollback_reversible_turn_state_alias_def Let_def)

section \<open>Claims\<close>

lemma wf_bridge_same_id:
  "wf_bridge db \<Longrightarrow> r \<in> set (db_sessions db) \<Longrightarrow> s \<in> set (db_sessions db) \<Longrightarrow> bs_id r = bs_id s \<Longrightarrow> r = s"
  by (auto simp: wf_bridge_def distinct_map inj_on_def)

text \<open>A claim that answers with a row it does not insert is an update of the row it found.\<close>

lemma claim_attempt_updated:
  assumes "claim_attempt hash env q db = (Inr r', db')" "bs_id r' \<noteq> ce_new_id env"
    "bs_owner r' = Some (cr_instance q)"
  shows "\<exists>r. r \<in> set (db_sessions db) \<and> r' = claimed_row (ce_now env) q r \<and>
     db_sessions db' = map (\<lambda>s. if has_id (bs_id r) s then claimed_row (ce_now env) q s else s) (db_sessions db)"
  using assms
  by (auto simp: claim_attempt_def claim_insert_def claimed_new_def claim_update_def claim_refused_def Let_def
      clear_aliases_for_session_def split: option.splits if_splits dest!: get_session_SomeD)

lemma claim_attempt_row:
  assumes "claim_attempt hash env q db = (Inr r', db')" "bs_owner r' = Some (cr_instance q)"
  shows "r' \<in> set (db_sessions db')"
  using assms
  by (auto simp: claim_attempt_def claim_insert_def claim_update_def claim_refused_def Let_def has_id_def
      clear_aliases_for_session_def split: option.splits if_splits dest!: get_session_SomeD)

lemma claim_kills_token:
  assumes "claim_attempt hash env q db = (Inr r', db')" "bs_owner r' = Some (cr_instance q)" "wf_bridge db"
    "r \<in> set (db_sessions db)" "fenced_in sid i e r" "bs_id r' = sid" "ce_new_id env \<noteq> sid"
    "cr_instance q \<noteq> i \<or> cr_account q \<noteq> bs_account r \<or> cr_force q"
  shows "token_dead sid i e db'"
proof -
  obtain s where s: "s \<in> set (db_sessions db)" "r' = claimed_row (ce_now env) q s"
    "db_sessions db' = map (\<lambda>x. if has_id (bs_id s) x then claimed_row (ce_now env) q x else x) (db_sessions db)"
    using claim_attempt_updated [OF assms(1)] assms(2,6,7) by auto
  have only: "x = r" if "x \<in> set (db_sessions db)" "bs_id x = sid" for x
    using wf_bridge_same_id [OF assms(3) that(1) assms(4)] that(2) assms(5) by (simp add: fenced_in_def)
  have "bs_id s = sid" using s(2) assms(6) by simp
  then show ?thesis
    using s(3) only assms(5,8) by (auto simp: token_dead_def has_id_def fenced_in_def next_epoch_def split: if_splits)
qed


text \<open>
  C17. When a replica is granted a session that another replica was granted before, with
  whatever transactions of all replicas in between, its epoch is strictly larger. So an epoch of
  a session names one replica.
\<close>

theorem later_owner_has_later_epoch:
  assumes "claim_attempt hash env1 q1 db = (Inr r1, db1)" "bs_owner r1 = Some (cr_instance q1)"
    and "claim_attempt hash env2 q2 (fold (bridge_step hash) es db1) = (Inr r2, db3)" "bs_owner r2 = Some (cr_instance q2)"
    and "wf_bridge db1" "bs_id r2 = bs_id r1" "cr_instance q1 \<noteq> cr_instance q2"
    and "bs_id r1 \<notin> \<Union> (new_session_ids ` set es)" "ce_new_id env2 \<noteq> bs_id r1"
  shows "bs_epoch r1 < bs_epoch r2"
proof -
  obtain s where s: "s \<in> set (db_sessions (fold (bridge_step hash) es db1))" "r2 = claimed_row (ce_now env2) q2 s"
    using claim_attempt_updated [OF assms(3)] assms(4,6,9) by auto
  then obtain r where r: "r \<in> set (db_sessions db1)" "row_moves r s"
    using rows_from_run [OF s(1)] assms(6,8) by auto
  have "r = r1"
    using wf_bridge_same_id [OF assms(5) r(1) claim_attempt_row [OF assms(1,2)]] r(2) s(2) assms(6)
    by (simp add: row_moves_def)
  then show ?thesis
    using r(2) s(2) assms(2,7) by (auto simp: row_moves_def next_epoch_def split: if_splits)
qed

section \<open>Live leases\<close>

lemma live_lease_refuses_claim:
  assumes "get_session hash (cr_kind q) (cr_value q) (cr_scope q) db = Some r"
    and "bs_owner r \<noteq> Some (cr_instance q)" "bs_state r = Bridge_active" "bs_lease r = Some t" "ce_now env < t"
    and "\<not> cr_takeover q"
  shows "claim_session hash env env' q db = (Inr r, db)"
  using assms by (simp add: claim_session_def claim_update_def claim_refused_def lease_expired_def)

text \<open>A claim that changes the account leaves no alias of the session behind.\<close>

lemma account_change_drops_aliases:
  assumes "get_session hash (cr_kind q) (cr_value q) (cr_scope q) db = Some r" "wf_bridge db"
    and "claim_update now q r db = (Inr r', db')" "bs_account r \<noteq> cr_account q" "r' \<noteq> r"
  shows "bs_id r \<notin> ba_session ` set (db_aliases db')"
  using assms by (auto simp: claim_update_def Let_def clear_aliases_for_session_def split: if_splits)

section \<open>Purging\<close>

definition live_elsewhere :: "int \<Rightarrow> string \<Rightarrow> durable_session \<Rightarrow> bool" where
  "live_elsewhere now instance_id r \<longleftrightarrow>
     bs_owner r \<noteq> None \<and> bs_owner r \<noteq> Some instance_id \<and> \<not> lease_lapsed now r \<and> bs_state r \<noteq> Bridge_closed"

lemma purges_spare_live_sessions:
  assumes "live_elsewhere now i r" "r \<in> set (db_sessions db)"
  shows "r \<in> set (db_sessions (snd (startup_purge_write now i cutoff rows db)))"
    and "r \<in> set (db_sessions (snd (purge_write (abandoned_filter now c) rows db)))"
    and "r \<in> set (db_sessions (snd (purge_write (closed_filter c) rows db)))"
proof -
  have "r \<in> set (db_sessions (update_sessions (\<lambda>s. p s \<and> bs_owner s = Some i) f db))" for p f
    using assms by (force simp: live_elsewhere_def)
  moreover have "\<not> startup_purge_filter now i cutoff r"
    using assms(1) by (auto simp: startup_purge_filter_def live_elsewhere_def split: option.split)
  ultimately show "r \<in> set (db_sessions (snd (startup_purge_write now i cutoff rows db)))"
    by (simp add: startup_purge_write_def Let_def del: sessions_update_sessions)
  show "r \<in> set (db_sessions (snd (purge_write (abandoned_filter now c) rows db)))"
    "r \<in> set (db_sessions (snd (purge_write (closed_filter c) rows db)))"
    using assms by (simp_all add: purge_write_def Let_def abandoned_filter_def closed_filter_def live_elsewhere_def)
qed

lemma oldest_batch_set: "set (oldest_batch n p db) \<subseteq> {r \<in> set (db_sessions db). p r}"
  using set_take_subset [of n "sort_key bs_last_seen (filter p (db_sessions db))"] by (auto simp: oldest_batch_def)

lemma oldest_batch_Nil: "0 < n \<Longrightarrow> oldest_batch n p db = [] \<longleftrightarrow> (\<forall>r \<in> set (db_sessions db). \<not> p r)"
proof -
  assume "0 < n"
  then have "oldest_batch n p db = [] \<longleftrightarrow> sort_key bs_last_seen (filter p (db_sessions db)) = []"
    by (simp add: oldest_batch_def)
  also have "\<dots> \<longleftrightarrow> set (filter p (db_sessions db)) = {}" by (metis set_empty set_sort)
  finally show ?thesis by auto
qed

text \<open>A round with candidates deletes every one of them, so an undisturbed purge ends.\<close>

lemma purge_write_deletes:
  assumes "oldest_batch n p db \<noteq> []" "purge_write p (oldest_batch n p db) db = (k, db')"
  shows "length (db_sessions db') < length (db_sessions db)"
proof -
  obtain r where r: "r \<in> set (oldest_batch n p db)" using assms(1) by (cases "oldest_batch n p db") auto
  then have "r \<in> set (db_sessions db)" "p r" using oldest_batch_set [of n p db] by auto
  then show ?thesis
    using assms(2) r by (auto simp: purge_write_def Let_def intro!: length_filter_less)
qed

lemma purge_loop_ends:
  assumes "length (db_sessions db) < length rounds" "\<And>round. round \<in> set rounds \<Longrightarrow> snd round = id"
  shows "\<exists>k db'. purge_loop p n d rounds db = (Some k, db')"
  using assms
proof (induction rounds arbitrary: db d)
  case (Cons round rounds)
  obtain now others where round: "round = (now, others)" by (cases round)
  then have others: "others db = db" using Cons.prems(2) [of round] by simp
  show ?case
  proof (cases "oldest_batch n (p now) db = []")
    case False
    obtain k db' where w: "purge_write (p now) (oldest_batch n (p now) db) db = (k, db')" by fastforce
    then have "length (db_sessions db') < length rounds" using purge_write_deletes [OF False w] Cons.prems(1) by simp
    then show ?thesis using Cons.IH Cons.prems(2) False round others w by simp
  qed (simp add: round)
qed simp

text \<open>
  The startup purge also gives up rows it keeps: each round deletes a row or makes one of the
  instance's rows ownerless.
\<close>

definition startup_weight :: "string \<Rightarrow> durable_session \<Rightarrow> nat" where
  "startup_weight i r = (if bs_owner r = Some i then 2 else 1)"

definition startup_left :: "string \<Rightarrow> bridge_db \<Rightarrow> nat" where
  "startup_left i db = sum_list (map (startup_weight i) (db_sessions db))"

lemma sum_list_filter_le: "sum_list (map w (filter q xs)) \<le> sum_list (map w xs)" for w :: "'a \<Rightarrow> nat"
  by (induction xs) auto

lemma sum_list_filter_less:
  "x \<in> set xs \<Longrightarrow> \<not> q x \<Longrightarrow> 0 < w x \<Longrightarrow> sum_list (map w (filter q xs)) < sum_list (map w xs)" for w :: "'a \<Rightarrow> nat"
proof (induction xs)
  case (Cons y ys)
  then show ?case using sum_list_filter_le [of w q ys] by (cases "x = y") auto
qed simp

lemma sum_list_map_le: "(\<And>x. w (g x) \<le> w x) \<Longrightarrow> sum_list (map w (map g xs)) \<le> sum_list (map w xs)" for w :: "'a \<Rightarrow> nat"
  by (induction xs) (auto intro: add_mono)

lemma sum_list_map_less:
  fixes w :: "'a \<Rightarrow> nat"
  assumes "\<And>x. w (g x) \<le> w x" "x \<in> set xs" "w (g x) < w x"
  shows "sum_list (map w (map g xs)) < sum_list (map w xs)"
  using assms(2)
proof (induction xs)
  case (Cons y ys)
  show ?case
  proof (cases "x = y")
    case True
    then show ?thesis using assms(3) sum_list_map_le [of w g ys] assms(1) by simp
  next
    case False
    then show ?thesis using Cons assms(1) [of y] by (simp add: add_le_less_mono)
  qed
qed simp

lemma startup_left_delete: "startup_left i (delete_sessions p db) \<le> startup_left i db"
  by (simp add: startup_left_def sum_list_filter_le)

lemma startup_write_progress:
  assumes "oldest_batch n (startup_purge_filter now i cutoff) db \<noteq> []"
    and "startup_purge_write now i cutoff (oldest_batch n (startup_purge_filter now i cutoff) db) db = (k, db')"
  shows "startup_left i db' < startup_left i db"
proof -
  let ?cs = "oldest_batch n (startup_purge_filter now i cutoff) db"
  have sub: "set ?cs \<subseteq> {r \<in> set (db_sessions db). startup_purge_filter now i cutoff r}" by (rule oldest_batch_set)
  show ?thesis
  proof (cases "\<exists>c \<in> set ?cs. retained_recovery i cutoff c")
    case True
    let ?p = "\<lambda>r. bs_id r \<in> set (map bs_id (filter (retained_recovery i cutoff) ?cs)) \<and> bs_owner r = Some i"
    let ?f = "\<lambda>r. r\<lparr>bs_owner := None, bs_lease := Some now, bs_state := Bridge_draining, bs_closed_at := None\<rparr>"
    obtain c where c: "c \<in> set ?cs" "retained_recovery i cutoff c" using True by blast
    have "startup_left i (update_sessions ?p ?f db) < startup_left i db"
      unfolding startup_left_def sessions_update_sessions
      by (rule sum_list_map_less [of _ _ c])
        (use c sub in \<open>auto simp: startup_weight_def retained_recovery_def\<close>)
    moreover have "startup_left i db' \<le> startup_left i (update_sessions ?p ?f db)"
      using assms(2) startup_left_delete by (auto simp: startup_purge_write_def Let_def)
    ultimately show ?thesis by simp
  next
    case False
    obtain c where c: "c \<in> set ?cs" using assms(1) by (cases ?cs) auto
    let ?d = "\<lambda>r. bs_id r \<in> bs_id ` set ?cs \<and> startup_purge_filter now i cutoff r"
    have "filter (retained_recovery i cutoff) ?cs = []" using False by (simp add: filter_empty_conv)
    then have "db' = delete_sessions ?d (update_sessions (\<lambda>r. False) (\<lambda>r. r) db)"
      using assms(2) by (auto simp: startup_purge_write_def Let_def update_sessions_def)
    then have "db' = delete_sessions ?d db" by (simp add: update_sessions_def)
    then show ?thesis
      using c sub by (auto simp: startup_left_def startup_weight_def intro!: sum_list_filter_less [of c])
  qed
qed

lemma startup_purge_ends:
  assumes "startup_left i db < length rounds" "\<And>round. round \<in> set rounds \<Longrightarrow> snd round = id"
  shows "\<exists>k db'. purge_owned_sessions_on_startup i cutoff n d rounds db = (Some k, db')"
  using assms
proof (induction rounds arbitrary: db d)
  case (Cons round rounds)
  obtain now others where round: "round = (now, others)" by (cases round)
  then have others: "others db = db" using Cons.prems(2) [of round] by simp
  show ?case
  proof (cases "oldest_batch n (startup_purge_filter now i cutoff) db = []")
    case False
    obtain k db' where w: "startup_purge_write now i cutoff
        (oldest_batch n (startup_purge_filter now i cutoff) db) db = (k, db')" by fastforce
    then have "startup_left i db' < length rounds" using startup_write_progress [OF False w] Cons.prems(1) by simp
    then show ?thesis using Cons.IH Cons.prems(2) False round others w by simp
  qed (simp add: round)
qed simp

lemma startup_purge_spares:
  assumes "purge_owned_sessions_on_startup i cutoff n d rounds db = (k, db')"
    and "r \<in> set (db_sessions db)" "\<And>round. round \<in> set rounds \<Longrightarrow> live_elsewhere (fst round) i r"
    and "\<And>round. round \<in> set rounds \<Longrightarrow> snd round = id"
  shows "r \<in> set (db_sessions db')"
  using assms
proof (induction rounds arbitrary: db d)
  case (Cons round rounds)
  obtain now others where round: "round = (now, others)" by (cases round)
  then have others: "others db = db" "live_elsewhere now i r"
    using Cons.prems(3,4) [of round] by simp_all
  show ?case
  proof (cases "oldest_batch n (startup_purge_filter now i cutoff) db = []")
    case False
    obtain m db1 where w: "startup_purge_write now i cutoff
        (oldest_batch n (startup_purge_filter now i cutoff) db) db = (m, db1)" by fastforce
    have "r \<in> set (db_sessions db1)"
      using purges_spare_live_sessions(1) [OF others(2) Cons.prems(2), of cutoff] w by (metis snd_conv)
    moreover have "purge_owned_sessions_on_startup i cutoff n (d + m) rounds db1 = (k, db')"
      using Cons.prems(1) False round others(1) w by simp
    ultimately show ?thesis using Cons.IH Cons.prems(3,4) by (meson list.set_intros(2))
  qed (use Cons.prems round in simp)
qed simp

lemma startup_purge_done:
  "purge_owned_sessions_on_startup i cutoff n d rounds db = (Some k, db') \<Longrightarrow> 0 < n \<Longrightarrow> r \<in> set (db_sessions db')
   \<Longrightarrow> bs_owner r \<noteq> Some i"
proof (induction i cutoff n d rounds db rule: purge_owned_sessions_on_startup.induct)
  case (2 i cutoff n d now others rounds db)
  show ?case
  proof (cases "oldest_batch n (startup_purge_filter now i cutoff) db = []")
    case True
    then show ?thesis using 2 by (auto simp: oldest_batch_Nil startup_purge_filter_def)
  next
    case False
    then show ?thesis using 2 by (auto simp: Let_def split: prod.splits)
  qed
qed simp


section \<open>Undoing a turn-state alias\<close>

definition untimed :: "durable_session \<Rightarrow> durable_session" where
  "untimed r = r\<lparr>bs_lease := None, bs_last_seen := 0\<rparr>"

lemma wf_bridge_same_alias:
  "wf_bridge db \<Longrightarrow> a \<in> set (db_aliases db) \<Longrightarrow> b \<in> set (db_aliases db) \<Longrightarrow> alias_ident a = alias_ident b \<Longrightarrow> a = b"
  by (auto simp: wf_bridge_def distinct_map inj_on_def)

lemma find_map_same: "(\<And>x. p (g x) = p x) \<Longrightarrow> find p (map g xs) = map_option g (find p xs)"
  by (induction xs) auto

lemma session_by_id_update:
  assumes "\<And>r. q r \<Longrightarrow> bs_id (f r) = bs_id r"
  shows "session_by_id sid (update_sessions q f db) = map_option (\<lambda>r. if q r then f r else r) (session_by_id sid db)"
  unfolding session_by_id_def sessions_update_sessions
  by (rule find_map_same) (simp add: has_id_def assms)

lemma session_by_id_row:
  assumes "wf_bridge db" "r \<in> set (db_sessions db)"
  shows "session_by_id (bs_id r) db = Some r"
proof (cases "session_by_id (bs_id r) db")
  case None
  then show ?thesis using assms(2) by (simp add: session_by_id_eq_None)
next
  case (Some s)
  then have "s = r" using session_by_id_SomeD [OF Some] by (intro wf_bridge_same_id [OF assms(1) _ assms(2)]) simp_all
  then show ?thesis using Some by simp
qed

lemma wf_bridge_alias_session:
  "wf_bridge db \<Longrightarrow> a \<in> set (db_aliases db) \<Longrightarrow> \<exists>r. session_by_id (ba_session a) db = Some r"
  by (cases "session_by_id (ba_session a) db") (auto simp: wf_bridge_def session_by_id_eq_None)

text \<open>Rewriting the one alias row at a key.\<close>

lemma alias_row_moved:
  assumes "wf_bridge db" "find (\<lambda>a. alias_ident a = k) (db_aliases db) = Some a" "ba_value a = t"
  shows "map (\<lambda>b. if alias_ident b = k then b\<lparr>ba_session := sid, ba_value := t\<rparr> else b) (db_aliases db)
     = map (\<lambda>b. if b = a then b\<lparr>ba_session := sid\<rparr> else b) (db_aliases db)"
proof -
  have a: "a \<in> set (db_aliases db)" "alias_ident a = k" using assms(2) by (auto simp: find_Some_iff)
  have "alias_ident b = k \<longleftrightarrow> b = a" if "b \<in> set (db_aliases db)" for b
    using wf_bridge_same_alias [OF assms(1) that a(1)] a(2) by auto
  moreover have "a\<lparr>ba_session := sid, ba_value := t\<rparr> = a\<lparr>ba_session := sid\<rparr>" using assms(3) by simp
  ultimately show ?thesis by auto
qed

text \<open>The row of the registration: rows other than the owned one are as before.\<close>

lemma registered_turn_sessions:
  assumes "register_reversible_turn_state_alias hash now now2 sid scope i e t ttl db = (rc, db1)"
    and "rc_status rc = REGISTERED" "wf_bridge db"
  shows "\<exists>target. target \<in> set (db_sessions db) \<and> owned_in_scope sid scope i e target \<and> rc_prev_turn rc = bs_turn target
     \<and> db_sessions db1 = map (\<lambda>r. if r = target
          then r\<lparr>bs_lease := Some (lease_until now ttl), bs_last_seen := now, bs_turn := Some t\<rparr> else r) (db_sessions db)"
proof -
  obtain target where f: "find (owned_in_scope sid scope i e) (db_sessions db) = Some target"
    using assms(1,2) by (cases "find (owned_in_scope sid scope i e) (db_sessions db)")
      (auto simp: register_reversible_turn_state_alias_def)
  note target = owned_target [OF f]
  have iff: "owned_in_scope sid scope i e r \<longleftrightarrow> r = target" "has_id sid r \<longleftrightarrow> r = target" if "r \<in> set (db_sessions db)" for r
    using wf_bridge_same_id [OF assms(3) that, of target] target
    by (auto simp: owned_in_scope_def fenced_in_def has_id_def)
  let ?g = "\<lambda>r. r\<lparr>bs_lease := Some (lease_until now ttl), bs_last_seen := now\<rparr>"
  have "db_sessions db1 = map (\<lambda>r. if has_id sid r then r\<lparr>bs_turn := Some t\<rparr> else r)
          (map (\<lambda>r. if owned_in_scope sid scope i e r then ?g r else r) (db_sessions db))
      \<and> rc_prev_turn rc = bs_turn target"
    using assms(1,2) f
    by (auto simp: register_reversible_turn_state_alias_def Let_def dest!: alias_upsert_eq split: prod.splits bool.splits)
  moreover have "has_id sid (?g r) = has_id sid r" for r by (simp add: has_id_def)
  ultimately show ?thesis using target iff by (intro exI [of _ target]) auto
qed

lemma registered_turn_aliases:
  assumes "register_reversible_turn_state_alias hash now now2 sid scope i e t ttl db = (rc, db1)"
    and "rc_status rc = REGISTERED" "wf_bridge db"
    and "\<forall>a \<in> set (db_aliases db). ba_hash a = hash t \<longrightarrow> ba_value a = t"
  shows "rc_session rc = sid \<and> rc_scope rc = scope \<and> rc_kind rc = ''turn_state'' \<and> rc_value rc = t \<and> rc_instance rc = i
     \<and> rc_epoch rc = e
     \<and> (case find (exact_alias hash ''turn_state'' t scope) (db_aliases db) of
          None \<Rightarrow> rc_prev_session rc = None
            \<and> db_aliases db1 = db_aliases db
                @ [\<lparr>ba_session = sid, ba_kind = ''turn_state'', ba_value = t, ba_hash = hash t, ba_scope = scope\<rparr>]
        | Some a \<Rightarrow> rc_prev_session rc = Some (ba_session a)
            \<and> db_aliases db1 = map (\<lambda>b. if b = a then b\<lparr>ba_session := sid\<rparr> else b) (db_aliases db)
            \<and> (\<forall>r \<in> set (db_sessions db). bs_id r = ba_session a \<longrightarrow>
                 rc_prev_epoch rc = Some (bs_epoch r) \<and> rc_prev_account rc = bs_account r))"
proof -
  let ?here = "\<lambda>a. alias_ident a = (''turn_state'', hash t, scope)"
  have exact: "exact_alias hash ''turn_state'' t scope a \<longleftrightarrow> ?here a" if "a \<in> set (db_aliases db)" for a
    using assms(4) that by (auto simp: exact_alias_def alias_ident_def)
  have find_eq: "find (exact_alias hash ''turn_state'' t scope) (db_aliases db) = find ?here (db_aliases db)"
    by (rule find_cong) (simp_all add: exact)
  obtain target where f: "find (owned_in_scope sid scope i e) (db_sessions db) = Some target"
    using assms(1,2) by (cases "find (owned_in_scope sid scope i e) (db_sessions db)")
      (auto simp: register_reversible_turn_state_alias_def)
  show ?thesis
  proof (cases "find ?here (db_aliases db)")
    case None
    then show ?thesis
      using assms(1,2) f
      by (auto simp: register_reversible_turn_state_alias_def Let_def find_eq alias_upsert_def)
  next
    case (Some a)
    then have a: "a \<in> set (db_aliases db)" "?here a" by (auto simp: find_Some_iff)
    note moved = alias_row_moved [OF assms(3) Some, of t sid]
    have "ba_value a = t" using a assms(4) by (simp add: alias_ident_def)
    obtain r0 where r0: "session_by_id (ba_session a) db = Some r0"
      using wf_bridge_alias_session [OF assms(3) a(1)] by blast
    have same: "r = r0" if "r \<in> set (db_sessions db)" "bs_id r = ba_session a" for r
      using session_by_id_row [OF assms(3) that(1)] that(2) r0 by simp
    have "rc_session rc = sid \<and> rc_scope rc = scope \<and> rc_kind rc = ''turn_state'' \<and> rc_value rc = t \<and> rc_instance rc = i
       \<and> rc_epoch rc = e \<and> rc_prev_session rc = Some (ba_session a) \<and> rc_prev_epoch rc = Some (bs_epoch r0)
       \<and> rc_prev_account rc = bs_account r0
       \<and> db_aliases db1 = map (\<lambda>b. if ?here b then b\<lparr>ba_session := sid, ba_value := t\<rparr> else b) (db_aliases db)"
      using assms(1,2) f Some r0
      by (auto simp: register_reversible_turn_state_alias_def Let_def find_eq alias_upsert_def session_by_id_update
          split: if_splits)
    then show ?thesis unfolding find_eq Some moved [OF \<open>ba_value a = t\<close>] using same by simp
  qed
qed

definition turn_restored :: "alias_receipt \<Rightarrow> bridge_db \<Rightarrow> bridge_db" where
  "turn_restored rc db =
     update_sessions (owned_in_scope (rc_session rc) (rc_scope rc) (rc_instance rc) (rc_epoch rc))
       (\<lambda>r. if bs_turn r = Some (rc_value rc) then r\<lparr>bs_turn := rc_prev_turn rc\<rparr> else r) db"

lemma restored_sessions:
  assumes "register_reversible_turn_state_alias hash now now2 sid scope i e t ttl db = (rc, db1)"
    and "rc_status rc = REGISTERED" "wf_bridge db"
    and "\<forall>a \<in> set (db_aliases db). ba_hash a = hash t \<longrightarrow> ba_value a = t"
  shows "list_ex (owned_in_scope (rc_session rc) (rc_scope rc) (rc_instance rc) (rc_epoch rc)) (db_sessions db1)"
    and "map untimed (db_sessions (turn_restored rc db1)) = map untimed (db_sessions db)"
proof -
  obtain target where target: "target \<in> set (db_sessions db)" "owned_in_scope sid scope i e target"
    "rc_prev_turn rc = bs_turn target" and rows: "db_sessions db1 = map (\<lambda>r. if r = target
          then r\<lparr>bs_lease := Some (lease_until now ttl), bs_last_seen := now, bs_turn := Some t\<rparr> else r) (db_sessions db)"
    using registered_turn_sessions [OF assms(1-3)] by blast
  have rc: "rc_session rc = sid" "rc_scope rc = scope" "rc_value rc = t" "rc_instance rc = i" "rc_epoch rc = e"
    using registered_turn_aliases [OF assms] by simp_all
  let ?claimed = "target\<lparr>bs_lease := Some (lease_until now ttl), bs_last_seen := now, bs_turn := Some t\<rparr>"
  have "owned_in_scope sid scope i e ?claimed" using target(2) by (simp add: owned_in_scope_def fenced_in_def)
  then show "list_ex (owned_in_scope (rc_session rc) (rc_scope rc) (rc_instance rc) (rc_epoch rc)) (db_sessions db1)"
    using target(1) rows rc by (auto simp: list_ex_iff)
  have other: "\<not> owned_in_scope sid scope i e r" if "r \<in> set (db_sessions db)" "r \<noteq> target" for r
    using wf_bridge_same_id [OF assms(3) that(1) target(1)] that(2) target(2)
    by (auto simp: owned_in_scope_def fenced_in_def)
  have again: "untimed (?claimed\<lparr>bs_turn := bs_turn target\<rparr>) = untimed target" by (simp add: untimed_def)
  show "map untimed (db_sessions (turn_restored rc db1)) = map untimed (db_sessions db)"
    using other again \<open>owned_in_scope sid scope i e ?claimed\<close>
    by (auto simp: turn_restored_def rows rc target(3))
qed

lemma untimed_eqD: "untimed r = untimed s \<Longrightarrow> bs_id r = bs_id s \<and> bs_epoch r = bs_epoch s \<and> bs_account r = bs_account s"
  unfolding untimed_def by (metis durable_session.select_convs(1,7,10) durable_session.surjective durable_session.update_convs(8,17))

lemma session_by_id_untimed:
  assumes "map untimed rs = map untimed rs'"
  shows "map_option untimed (find (has_id sid) rs) = map_option untimed (find (has_id sid) rs')"
  using assms
proof (induction rs arbitrary: rs')
  case (Cons r rs)
  then obtain r' rs'' where "rs' = r' # rs''" "untimed r = untimed r'" "map untimed rs = map untimed rs''" by auto
  then show ?case using Cons.IH [of rs''] untimed_eqD [of r r'] by (simp add: has_id_def)
qed simp

lemma turn_restored_aliases [simp]: "db_aliases (turn_restored rc db) = db_aliases db"
  by (simp add: turn_restored_def)

lemma previous_still_valid:
  assumes "rc_prev_session rc = Some p" "map untimed (db_sessions db') = map untimed (db_sessions db)"
    and "session_by_id p db = Some r" "rc_prev_epoch rc = Some (bs_epoch r)" "rc_prev_account rc = bs_account r"
  shows "previous_session_valid rc db'"
proof -
  have "map_option untimed (session_by_id p db') = Some (untimed r)"
    using session_by_id_untimed [OF assms(2), of p] assms(3) by (simp add: session_by_id_def)
  then obtain r' where "session_by_id p db' = Some r'" "untimed r' = untimed r" by auto
  then show ?thesis using assms(1,4,5) untimed_eqD [of r' r] by (simp add: previous_session_valid_def)
qed

lemma rollback_restored:
  assumes "rc_status rc = REGISTERED"
    and "list_ex (owned_in_scope (rc_session rc) (rc_scope rc) (rc_instance rc) (rc_epoch rc)) (db_sessions db)"
    and "mine = (\<lambda>a. ba_session a = rc_session rc \<and> exact_alias hash (rc_kind rc) (rc_value rc) (rc_scope rc) a)"
  shows "rollback_reversible_turn_state_alias hash rc db =
     (True,
      if \<not> list_ex mine (db_aliases db) then turn_restored rc db
      else case rc_prev_session rc of
        None \<Rightarrow> (turn_restored rc db)\<lparr>db_aliases := filter (\<lambda>a. \<not> mine a) (db_aliases db)\<rparr>
      | Some p \<Rightarrow>
          (if p = rc_session rc then turn_restored rc db
           else if \<not> previous_session_valid rc (turn_restored rc db)
           then (turn_restored rc db)\<lparr>db_aliases := filter (\<lambda>a. \<not> mine a) (db_aliases db)\<rparr>
           else (turn_restored rc db)\<lparr>db_aliases :=
                  map (\<lambda>a. if mine a then a\<lparr>ba_session := p\<rparr> else a) (db_aliases db)\<rparr>))"
  using assms by (simp add: rollback_reversible_turn_state_alias_def turn_restored_def Let_def split: option.split)

lemma rollback_registered_eq:
  assumes "register_reversible_turn_state_alias hash now now2 sid scope i e t ttl db = (rc, db1)"
    and "rc_status rc = REGISTERED" "wf_bridge db"
    and "\<forall>a \<in> set (db_aliases db). ba_hash a = hash t \<longrightarrow> ba_value a = t"
    and "mine = (\<lambda>b. ba_session b = sid \<and> exact_alias hash ''turn_state'' t scope b)"
  shows "rollback_reversible_turn_state_alias hash rc db1 =
     (True,
      if \<not> list_ex mine (db_aliases db1) then turn_restored rc db1
      else case rc_prev_session rc of
        None \<Rightarrow> (turn_restored rc db1)\<lparr>db_aliases := filter (\<lambda>a. \<not> mine a) (db_aliases db1)\<rparr>
      | Some p \<Rightarrow>
          (if p = sid then turn_restored rc db1
           else if \<not> previous_session_valid rc (turn_restored rc db1)
           then (turn_restored rc db1)\<lparr>db_aliases := filter (\<lambda>a. \<not> mine a) (db_aliases db1)\<rparr>
           else (turn_restored rc db1)\<lparr>db_aliases :=
                  map (\<lambda>a. if mine a then a\<lparr>ba_session := p\<rparr> else a) (db_aliases db1)\<rparr>))"
proof -
  note rc = registered_turn_aliases [OF assms(1-4)]
  have sess: "rc_session rc = sid" using rc by simp
  have "mine = (\<lambda>a. ba_session a = rc_session rc \<and> exact_alias hash (rc_kind rc) (rc_value rc) (rc_scope rc) a)"
    using rc assms(5) by simp
  from rollback_restored [OF assms(2) restored_sessions(1) [OF assms(1-4)] this] show ?thesis
    unfolding sess .
qed

lemma rollback_new_alias:
  assumes "register_reversible_turn_state_alias hash now now2 sid scope i e t ttl db = (rc, db1)"
    and "rc_status rc = REGISTERED" "wf_bridge db"
    and "\<forall>a \<in> set (db_aliases db). ba_hash a = hash t \<longrightarrow> ba_value a = t"
    and "find (exact_alias hash ''turn_state'' t scope) (db_aliases db) = None"
  shows "rollback_reversible_turn_state_alias hash rc db1 = (True, (turn_restored rc db1)\<lparr>db_aliases := db_aliases db\<rparr>)"
proof -
  let ?ex = "exact_alias hash ''turn_state'' t scope"
  have "\<not> ?ex a" if "a \<in> set (db_aliases db)" for a using that assms(5) by (simp add: find_None_iff)
  then have "filter (\<lambda>a. ba_session a = sid \<longrightarrow> \<not> ?ex a) (db_aliases db) = db_aliases db" by (simp add: filter_id_conv)
  moreover have "?ex \<lparr>ba_session = sid, ba_kind = ''turn_state'', ba_value = t, ba_hash = hash t, ba_scope = scope\<rparr>"
    by (simp add: exact_alias_def alias_ident_def)
  ultimately show ?thesis
    using registered_turn_aliases [OF assms(1-4)] assms(5) by (simp add: rollback_registered_eq [OF assms(1-4) refl])
qed

lemma rollback_moved_alias:
  assumes "register_reversible_turn_state_alias hash now now2 sid scope i e t ttl db = (rc, db1)"
    and "rc_status rc = REGISTERED" "wf_bridge db"
    and "\<forall>a \<in> set (db_aliases db). ba_hash a = hash t \<longrightarrow> ba_value a = t"
    and f: "find (exact_alias hash ''turn_state'' t scope) (db_aliases db) = Some a"
  shows "rollback_reversible_turn_state_alias hash rc db1 = (True, (turn_restored rc db1)\<lparr>db_aliases := db_aliases db\<rparr>)"
proof -
  let ?ex = "exact_alias hash ''turn_state'' t scope"
  note rc = registered_turn_aliases [OF assms(1-4)] and rolled = rollback_registered_eq [OF assms(1-4) refl]
  have a: "a \<in> set (db_aliases db)" "?ex a" using f by (auto simp: find_Some_iff)
  have mine: "ba_session b = sid \<and> ?ex b \<longleftrightarrow> b = a \<and> ba_session a = sid" if "b \<in> set (db_aliases db)" for b
    using wf_bridge_same_alias [OF assms(3) that a(1)] a(2) by (auto simp: exact_alias_def)
  obtain r0 where r0: "session_by_id (ba_session a) db = Some r0"
    using wf_bridge_alias_session [OF assms(3) a(1)] by blast
  have ex: "?ex (a\<lparr>ba_session := sid\<rparr>)" using a(2) by (simp add: exact_alias_def alias_ident_def)
  have moved: "db_aliases db1 = map (\<lambda>b. if b = a then b\<lparr>ba_session := sid\<rparr> else b) (db_aliases db)"
    and prev: "rc_prev_session rc = Some (ba_session a)" "rc_prev_epoch rc = Some (bs_epoch r0)"
      "rc_prev_account rc = bs_account r0"
    using rc f session_by_id_SomeD [OF r0] by simp_all
  have listed: "list_ex (\<lambda>b. ba_session b = sid \<and> ?ex b) (db_aliases db1)"
    using a(1) ex moved by (auto simp: list_ex_iff)
  show ?thesis
  proof (cases "ba_session a = sid")
    case True
    then have same: "db_aliases db1 = db_aliases db" using moved by (auto intro: map_idI)
    then have "(turn_restored rc db1)\<lparr>db_aliases := db_aliases db\<rparr> = turn_restored rc db1"
      by (intro bridge_db.equality) simp_all
    then show ?thesis using True listed prev by (simp add: rolled)
  next
    case False
    have "previous_session_valid rc (turn_restored rc db1)"
      by (rule previous_still_valid [OF prev(1) restored_sessions(2) [OF assms(1-4)] r0 prev(2,3)])
    moreover have "map (\<lambda>b. if ba_session b = sid \<and> ?ex b then b\<lparr>ba_session := ba_session a\<rparr> else b) (db_aliases db1)
        = db_aliases db"
      using mine ex False unfolding moved by (auto intro!: map_idI)
    ultimately show ?thesis using False listed prev by (simp add: rolled)
  qed
qed

text \<open>
  C19. Undoing a registered turn-state alias restores exactly what its registration
  overwrote: the alias table is the one before, and every session row is the one before up to
  the lease and last-seen times that the registration renewed.
\<close>

theorem rollback_undoes_registration:
  assumes "wf_bridge db" "\<forall>a \<in> set (db_aliases db). ba_hash a = hash t \<longrightarrow> ba_value a = t"
    and "register_reversible_turn_state_alias hash now now2 sid scope i e t ttl db = (rc, db1)"
    and "rc_status rc = REGISTERED"
  shows "\<exists>db2. rollback_reversible_turn_state_alias hash rc db1 = (True, db2) \<and> db_aliases db2 = db_aliases db
     \<and> map untimed (db_sessions db2) = map untimed (db_sessions db)"
  using rollback_new_alias [OF assms(3,4,1,2)] rollback_moved_alias [OF assms(3,4,1,2)] restored_sessions(2) [OF assms(3,4,1,2)]
  by (cases "find (exact_alias hash ''turn_state'' t scope) (db_aliases db)") auto

section \<open>Keys and aliases\<close>

lemma like_prefix: "list_all (\<lambda>c. c \<noteq> CHR ''%'' \<and> c \<noteq> CHR ''_'') p \<Longrightarrow> like_match (p @ ''%'') s = starts_with s p"
proof (induction p arbitrary: s)
  case Nil
  have "like_match ''%'' s" by (induction s) simp_all
  then show ?case by (simp add: starts_with_def)
next
  case (Cons c p)
  then show ?case by (cases s) (auto simp: starts_with_def)
qed

lemma starts_with_append: "starts_with s q \<longleftrightarrow> (\<exists>u. s = q @ u)"
  unfolding starts_with_def by (metis append_eq_conv_conj append_take_drop_id)

text \<open>The SQL test for recovery rows is the test the code makes on a row it has read.\<close>

lemma neutral_rows_agree: "neutral_replay_rows r = is_neutral_session r"
proof -
  let ?p = HTTP_BRIDGE_ACCOUNT_NEUTRAL_REPLAY_KEY_PREFIX
  have "like_match (?p @ ''%'') s = starts_with s ?p" for s
    by (rule like_prefix) (simp add: HTTP_BRIDGE_ACCOUNT_NEUTRAL_REPLAY_KEY_PREFIX_def)
  moreover have "(s \<noteq> q) = (length q < length s)" if "starts_with s q" for s q
  proof -
    from that obtain u where "s = q @ u" by (auto simp: starts_with_append)
    then show ?thesis by simp
  qed
  ultimately show ?thesis
    by (auto simp: neutral_replay_rows_def is_neutral_session_def is_http_bridge_account_neutral_replay_def)
qed

lemma neutral_key_recognised:
  "make_http_bridge_account_neutral_replay_key nonce = Inr (kind, key) \<Longrightarrow> is_http_bridge_account_neutral_replay kind key"
  by (auto simp: make_http_bridge_account_neutral_replay_key_def is_http_bridge_account_neutral_replay_def
      starts_with_def split: if_splits)

text \<open>An ordinary session never takes over the alias of a recovery session.\<close>

lemma recovery_alias_protected:
  assumes "alias_at hash kind v scope db = Some a" "ba_session a \<noteq> sid"
    and "r \<in> set (db_sessions db)" "bs_id r = ba_session a" "is_neutral_session r"
    and "find (owned_in_scope sid scope i e) (db_sessions db) = Some target" "\<not> is_neutral_session target"
  shows "register_owned_alias hash now now2 sid scope i e kind v ttl an db = (ALIAS_PROTECTED, db)"
proof -
  let ?db1 = "update_sessions (owned_in_scope sid scope i e) (anchored_row now ttl an) db"
  have "\<not> owned_in_scope sid scope i e r" using assms(2,4) by (auto simp: owned_in_scope_def fenced_in_def)
  then have "refers_to neutral_replay_rows ?db1 a"
    using assms(3,4,5) by (auto simp: refers_to_def list_ex_iff neutral_rows_agree)
  then show ?thesis
    using assms(1,2,6,7)
    by (simp add: register_owned_alias_def alias_upsert_def alias_at_def conflict_where_def Let_def)
qed

section \<open>The unlocked read of the drain\<close>

text \<open>
  A row that another replica takes over between the read and the write of \<open>mark_owner_draining\<close> is
  marked as draining in its new owner's hands, which lets a third replica claim it under a live
  lease.
\<close>

definition w_bridge_session :: durable_session where
  "w_bridge_session =
     \<lparr>bs_id = ''s1'', bs_kind = ''session_header'', bs_value = ''k'', bs_hash = ''k'', bs_scope = ''__anonymous__'',
      bs_owner = Some ''A'', bs_epoch = 1, bs_lease = Some 100, bs_state = Bridge_active, bs_account = None,
      bs_model = None, bs_tier = None, bs_turn = Some ''t0'', bs_response = None, bs_item_count = None,
      bs_fingerprint = None, bs_last_seen = 50, bs_closed_at = None\<rparr>"

definition w_other_session :: durable_session where
  "w_other_session = w_bridge_session\<lparr>bs_id := ''s2'', bs_value := ''k2'', bs_hash := ''k2'', bs_owner := Some ''C'', bs_lease := Some 900\<rparr>"

definition w_bridge :: bridge_db where
  "w_bridge =
     \<lparr>db_sessions = [w_bridge_session, w_other_session],
      db_aliases = [\<lparr>ba_session = ''s2'', ba_kind = ''turn_state'', ba_value = ''t1'', ba_hash = ''t1'', ba_scope = ''__anonymous__''\<rparr>],
      db_accounts = []\<rparr>"

definition w_claim :: "string \<Rightarrow> claim_request" where
  "w_claim i =
     \<lparr>cr_kind = ''session_header'', cr_value = ''k'', cr_scope = ''__anonymous__'', cr_instance = i, cr_ttl = 60,
      cr_account = None, cr_model = None, cr_tier = None, cr_turn = None, cr_response = None,
      cr_takeover = False, cr_force = False\<rparr>"

definition w_claim_env :: claim_env where
  "w_claim_env = \<lparr>ce_now = 200, ce_new_id = ''s9'', ce_others = id\<rparr>"

lemmas w_bridge_defs = w_bridge_session_def w_other_session_def w_bridge_def w_claim_def w_claim_env_def

lemma w_bridge_wf: "wf_bridge w_bridge"
  by (simp add: wf_bridge_def w_bridge_defs session_ident_def alias_ident_def account_ok_def)

lemma w_claim_taken:
  "claim_attempt (\<lambda>x. x) w_claim_env (w_claim ''B'') w_bridge =
     (Inr (claimed_row 200 (w_claim ''B'') w_bridge_session),
      update_sessions (has_id ''s1'') (claimed_row 200 (w_claim ''B'')) w_bridge)"
  by (simp add: claim_attempt_def get_session_def claim_update_def claim_refused_def lease_expired_def
      account_ok_def session_ident_def w_bridge_defs)

lemma drain_marks_new_owner:
  defines "taken \<equiv> snd (claim_attempt (\<lambda>x. x) w_claim_env (w_claim ''B'') w_bridge)"
  shows "\<exists>db' r. mark_owner_draining (\<lambda>db. taken) 210 ''A'' w_bridge = (Inr 1, db')
     \<and> session_by_id ''s1'' db' = Some r \<and> bs_owner r = Some ''B'' \<and> bs_state r = Bridge_draining"
  unfolding taken_def w_claim_taken
  by (simp add: mark_owner_draining_def session_by_id_def has_id_def w_bridge_def w_bridge_session_def w_other_session_def
      claimed_row_def claim_anchors_def w_claim_def)


theorem later_owner_has_later_epoch_witness:
  "bs_epoch (claimed_row 200 (w_claim ''B'') w_bridge_session)
     < bs_epoch (claimed_row 200 ((w_claim ''D'')\<lparr>cr_takeover := True\<rparr>) (claimed_row 200 (w_claim ''B'') w_bridge_session))"
proof -
  let ?db1 = "update_sessions (has_id ''s1'') (claimed_row 200 (w_claim ''B'')) w_bridge"
  have wf: "wf_bridge ?db1"
    using w_bridge_wf by (rule wf_bridgeI_update) (simp_all add: w_claim_def account_ok_def)
  have second: "claim_attempt (\<lambda>x. x) w_claim_env ((w_claim ''D'')\<lparr>cr_takeover := True\<rparr>) (fold (bridge_step (\<lambda>x. x)) [] ?db1) =
      (Inr (claimed_row 200 ((w_claim ''D'')\<lparr>cr_takeover := True\<rparr>) (claimed_row 200 (w_claim ''B'') w_bridge_session)),
       update_sessions (has_id ''s1'') (claimed_row 200 ((w_claim ''D'')\<lparr>cr_takeover := True\<rparr>)) ?db1)"
    by (simp add: claim_attempt_def get_session_def claim_update_def claim_refused_def has_id_def
        account_ok_def session_ident_def claimed_row_def claim_anchors_def w_bridge_defs)
  show ?thesis
    by (rule later_owner_has_later_epoch [OF w_claim_taken _ second _ wf]) (simp_all add: w_claim_def w_bridge_session_def w_claim_env_def)
qed


theorem rollback_undoes_registration_witness:
  "\<exists>rc db1 db2. register_reversible_turn_state_alias (\<lambda>x. x) 60 61 ''s1'' ''__anonymous__'' ''A'' 1 ''t1'' 60 w_bridge = (rc, db1)
     \<and> rollback_reversible_turn_state_alias (\<lambda>x. x) rc db1 = (True, db2) \<and> db_aliases db2 = db_aliases w_bridge
     \<and> db_aliases db1 \<noteq> db_aliases w_bridge"
proof -
  obtain rc db1 where reg:
    "register_reversible_turn_state_alias (\<lambda>x. x) 60 61 ''s1'' ''__anonymous__'' ''A'' 1 ''t1'' 60 w_bridge = (rc, db1)"
    by fastforce
  have st: "rc_status rc = REGISTERED \<and> db_aliases db1 \<noteq> db_aliases w_bridge"
    using reg
    by (auto simp: register_reversible_turn_state_alias_def owned_in_scope_def fenced_in_def w_bridge_def w_bridge_session_def
        w_other_session_def alias_upsert_def alias_ident_def conflict_where_def refers_to_def neutral_rows_agree
        is_neutral_session_def is_http_bridge_account_neutral_replay_def HTTP_BRIDGE_ACCOUNT_NEUTRAL_REPLAY_KIND_def Let_def
        split: if_splits)
  show ?thesis
    using rollback_undoes_registration [OF w_bridge_wf _ reg] st reg by (auto simp: w_bridge_def)
qed

end
