(* ===== verification/Durable_Bridge_Lookup.thy ===== *)
theory Durable_Bridge_Lookup
  imports Durable_Bridge_Fencing
begin

text \<open>
  \<open>app/modules/proxy/durable_bridge_coordinator.py\<close>: which durable session a request continues.
  A request names sessions by up to three aliases and by its own key. Each query of a lookup is a
  statement of its own, so it sees the database of its moment: \<open>views n\<close> is the database when the
  \<open>n\<close>-th query runs. The other methods of the coordinator open a session, scope the API key and
  call the repository; they are given here on top of it.
\<close>

section \<open>Lookups\<close>

definition DURABLE_TURN_STATE_ALIAS :: string where "DURABLE_TURN_STATE_ALIAS = ''turn_state''"
definition DURABLE_PREVIOUS_RESPONSE_ALIAS :: string where "DURABLE_PREVIOUS_RESPONSE_ALIAS = ''previous_response_id''"
definition DURABLE_SESSION_HEADER_ALIAS :: string where "DURABLE_SESSION_HEADER_ALIAS = ''session_header''"

lemmas alias_kinds =
  DURABLE_TURN_STATE_ALIAS_def DURABLE_PREVIOUS_RESPONSE_ALIAS_def DURABLE_SESSION_HEADER_ALIAS_def

record bridge_lookup =
  bl_session :: string
  bl_canonical_kind :: string
  bl_canonical_key :: string
  bl_scope :: string
  bl_account :: "string option"
  bl_owner :: "string option"
  bl_epoch :: int
  bl_lease :: "int option"
  bl_state :: bridge_state
  bl_turn :: "string option"
  bl_response :: "string option"
  bl_item_count :: "int option"
  bl_fingerprint :: "string option"
  bl_model :: "string option"

definition to_lookup :: "durable_session \<Rightarrow> bridge_lookup" where
  "to_lookup r =
     \<lparr>bl_session = bs_id r, bl_canonical_kind = bs_kind r, bl_canonical_key = bs_value r, bl_scope = bs_scope r,
      bl_account = bs_account r, bl_owner = bs_owner r, bl_epoch = bs_epoch r, bl_lease = bs_lease r,
      bl_state = bs_state r, bl_turn = bs_turn r, bl_response = bs_response r, bl_item_count = bs_item_count r,
      bl_fingerprint = bs_fingerprint r, bl_model = bs_model r\<rparr>"

definition lease_is_active :: "int \<Rightarrow> bridge_lookup \<Rightarrow> bool" where
  "lease_is_active now l =
     (case bl_owner l of None \<Rightarrow> False | Some i \<Rightarrow> (case bl_lease l of None \<Rightarrow> False | Some t \<Rightarrow> now < t))"

record lookup_request =
  lq_kind :: string
  lq_value :: string
  lq_api_key :: "string option"
  lq_turn_state :: "string option"
  lq_session_header :: "string option"
  lq_previous_response :: "string option"

text \<open>The aliases a request gives, in the order the code queries them, and those that resolve.\<close>

definition requested_aliases :: "lookup_request \<Rightarrow> (string \<times> string) list" where
  "requested_aliases q =
     List.map_filter (\<lambda>(kind, v). map_option (\<lambda>x. (kind, x)) v)
       [(DURABLE_TURN_STATE_ALIAS, lq_turn_state q),
        (DURABLE_PREVIOUS_RESPONSE_ALIAS, lq_previous_response q),
        (DURABLE_SESSION_HEADER_ALIAS, lq_session_header q)]"

definition resolved_aliases ::
    "(string \<Rightarrow> string) \<Rightarrow> (nat \<Rightarrow> bridge_db) \<Rightarrow> lookup_request \<Rightarrow> (string \<times> durable_session) list" where
  "resolved_aliases hash views q =
     List.map_filter
       (\<lambda>(n, kind, v). map_option (\<lambda>r. (kind, r))
          (resolve_alias hash kind v (durable_bridge_api_key_scope (lq_api_key q)) (views n)))
       (enumerate 0 (requested_aliases q))"

definition bridge_identity :: "durable_session \<Rightarrow> string \<times> string option" where
  "bridge_identity r = (bs_id r, bs_account r)"

text \<open>Two different sessions of one account: the requested response wins, else the newest one with a response.\<close>

definition handoff_rank :: "durable_session \<Rightarrow> bool \<times> int" where
  "handoff_rank r = (bs_response r \<noteq> None, bs_last_seen r)"

definition same_account_snapshot :: "string option \<Rightarrow> (string \<times> durable_session) list \<Rightarrow> durable_session option" where
  "same_account_snapshot account resolved =
     (case find (\<lambda>(kind, r). kind = DURABLE_PREVIOUS_RESPONSE_ALIAS \<and> bs_account r = account) resolved of
        Some (kind, r) \<Rightarrow> Some r
      | None \<Rightarrow>
          (case filter (\<lambda>r. bs_account r = account) (map snd resolved) of
             [] \<Rightarrow> None | r # rest \<Rightarrow> Some (max_from handoff_rank r rest)))"

definition alias_conflict :: "(string \<times> durable_session) list \<Rightarrow> bridge_error + bridge_lookup" where
  "alias_conflict resolved =
     (let specific = filter (\<lambda>(kind, r). kind \<noteq> DURABLE_SESSION_HEADER_ALIAS) resolved
      in case specific of
           [] \<Rightarrow> Inl Owner_conflict
         | (kind, s) # rest \<Rightarrow>
             (let others = filter (\<lambda>(kind, r). bridge_identity r \<noteq> bridge_identity s) resolved
              in if length (remdups (map (bridge_identity \<circ> snd) specific)) = 1
                    \<and> is_neutral_session s
                    \<and> set (map fst others) = {DURABLE_SESSION_HEADER_ALIAS}
                 then Inr (to_lookup s) else Inl Owner_conflict))"

definition resolve_from_aliases :: "(string \<times> durable_session) list \<Rightarrow> bridge_error + bridge_lookup option" where
  "resolve_from_aliases resolved =
     (let accounts = remdups (List.map_filter (bs_account \<circ> snd) resolved);
          ownerless = list_ex (\<lambda>(kind, r). bs_account r = None) resolved
      in if 1 < length (remdups (map (bridge_identity \<circ> snd) resolved))
         then (if length accounts = 1 \<and> \<not> ownerless
               then Inr (map_option to_lookup (same_account_snapshot (Some (hd accounts)) resolved))
               else map_sum id Some (alias_conflict resolved))
         else case resolved of [] \<Rightarrow> Inr None | (kind, r) # rest \<Rightarrow> Inr (Some (to_lookup r)))"

definition lookup_by_key ::
    "(string \<Rightarrow> string) \<Rightarrow> (string \<Rightarrow> int) \<Rightarrow> (nat \<Rightarrow> bridge_db) \<Rightarrow> lookup_request \<Rightarrow> durable_session option" where
  "lookup_by_key hash updated views q =
     (let scope = durable_bridge_api_key_scope (lq_api_key q)
      in case get_session hash (lq_kind q) (lq_value q) scope (views 3) of
           Some r \<Rightarrow> Some r
         | None \<Rightarrow>
             (case Option.bind (lq_turn_state q) (\<lambda>t. find_session_by_latest_turn_state updated t scope (views 4)) of
                Some r \<Rightarrow> Some r
              | None \<Rightarrow>
                  Option.bind (lq_previous_response q)
                    (\<lambda>p. find_session_by_latest_response_id updated p scope (views 5))))"

definition lookup_request_targets ::
    "(string \<Rightarrow> string) \<Rightarrow> (string \<Rightarrow> int) \<Rightarrow> (nat \<Rightarrow> bridge_db) \<Rightarrow> lookup_request
     \<Rightarrow> bridge_error + bridge_lookup option" where
  "lookup_request_targets hash updated views q =
     (case resolve_from_aliases (resolved_aliases hash views q) of
        Inl e \<Rightarrow> Inl e
      | Inr (Some l) \<Rightarrow> Inr (Some l)
      | Inr None \<Rightarrow> Inr (map_option to_lookup (lookup_by_key hash updated views q)))"

definition lookup_turn_state_target ::
    "(string \<Rightarrow> string) \<Rightarrow> string \<Rightarrow> string option \<Rightarrow> bridge_db \<Rightarrow> bridge_lookup option" where
  "lookup_turn_state_target hash turn_state api_key_id db =
     map_option to_lookup
       (resolve_alias hash DURABLE_TURN_STATE_ALIAS turn_state (durable_bridge_api_key_scope api_key_id) db)"

definition lookup_sessions :: "(nat \<Rightarrow> bridge_db) \<Rightarrow> string list \<Rightarrow> bridge_lookup list" where
  "lookup_sessions views session_ids =
     (if session_ids = [] then []
      else map to_lookup (get_sessions_by_ids SESSION_ID_LOOKUP_CHUNK_SIZE views session_ids))"

section \<open>Claims and registrations\<close>

definition claim_live_session ::
    "(string \<Rightarrow> string) \<Rightarrow> claim_env \<Rightarrow> claim_env \<Rightarrow> string option \<Rightarrow> claim_request \<Rightarrow> bridge_db
     \<Rightarrow> (bridge_error + bridge_lookup) \<times> bridge_db" where
  "claim_live_session hash env0 env1 api_key_id q db =
     apfst (map_sum id to_lookup)
       (claim_session hash env0 env1 (q\<lparr>cr_scope := durable_bridge_api_key_scope api_key_id\<rparr>) db)"

definition renew_live_session ::
    "(bridge_db \<Rightarrow> bridge_db) \<Rightarrow> int \<Rightarrow> string \<Rightarrow> string \<Rightarrow> int \<Rightarrow> renewal \<Rightarrow> bridge_db \<Rightarrow> bridge_lookup option \<times> bridge_db" where
  "renew_live_session others now sid instance_id epoch v db =
     apfst (map_option to_lookup) (renew_session others now sid instance_id epoch v db)"

definition release_live_session ::
    "(bridge_db \<Rightarrow> bridge_db) \<Rightarrow> int \<Rightarrow> string \<Rightarrow> string \<Rightarrow> int \<Rightarrow> bool \<Rightarrow> bridge_db \<Rightarrow> bridge_lookup option \<times> bridge_db" where
  "release_live_session others now sid instance_id epoch draining db =
     apfst (map_option to_lookup) (release_session others now sid instance_id epoch draining db)"

definition register_turn_state ::
    "(string \<Rightarrow> string) \<Rightarrow> int \<Rightarrow> int \<Rightarrow> string \<Rightarrow> string option \<Rightarrow> string \<Rightarrow> int \<Rightarrow> string \<Rightarrow> real \<Rightarrow> bridge_db
     \<Rightarrow> alias_registration \<times> bridge_db" where
  "register_turn_state hash now now2 sid api_key_id instance_id epoch turn_state ttl db =
     register_owned_alias hash now now2 sid (durable_bridge_api_key_scope api_key_id) instance_id epoch
       DURABLE_TURN_STATE_ALIAS turn_state ttl
       \<lparr>an_turn = Some turn_state, an_response = None, an_item_count = None, an_fingerprint = None\<rparr> db"

definition register_recovery_turn_state ::
    "(string \<Rightarrow> string) \<Rightarrow> int \<Rightarrow> int \<Rightarrow> string \<Rightarrow> string option \<Rightarrow> string \<Rightarrow> int \<Rightarrow> string \<Rightarrow> real \<Rightarrow> bridge_db
     \<Rightarrow> alias_receipt \<times> bridge_db" where
  "register_recovery_turn_state hash now now2 sid api_key_id instance_id epoch turn_state ttl db =
     register_reversible_turn_state_alias hash now now2 sid (durable_bridge_api_key_scope api_key_id) instance_id epoch
       turn_state ttl db"

definition register_previous_response_id ::
    "(string \<Rightarrow> string) \<Rightarrow> int \<Rightarrow> int \<Rightarrow> string \<Rightarrow> string option \<Rightarrow> string \<Rightarrow> int \<Rightarrow> string \<Rightarrow> real \<Rightarrow> int option \<Rightarrow> string option
     \<Rightarrow> bridge_db \<Rightarrow> alias_registration \<times> bridge_db" where
  "register_previous_response_id hash now now2 sid api_key_id instance_id epoch response_id ttl item_count fingerprint db =
     register_owned_alias hash now now2 sid (durable_bridge_api_key_scope api_key_id) instance_id epoch
       DURABLE_PREVIOUS_RESPONSE_ALIAS response_id ttl
       \<lparr>an_turn = None, an_response = Some response_id, an_item_count = item_count, an_fingerprint = fingerprint\<rparr> db"

definition register_session_header ::
    "(string \<Rightarrow> string) \<Rightarrow> int \<Rightarrow> string \<Rightarrow> string option \<Rightarrow> string \<Rightarrow> bridge_db \<Rightarrow> (bridge_error + unit) \<times> bridge_db" where
  "register_session_header hash now sid api_key_id session_header db =
     upsert_alias hash now sid DURABLE_SESSION_HEADER_ALIAS session_header (durable_bridge_api_key_scope api_key_id) db"

section \<open>What a lookup may return\<close>

lemma max_from_mem: "max_from k x xs \<in> set (x # xs)"
  by (induction xs arbitrary: x) auto

lemma same_account_snapshot_account:
  "same_account_snapshot account resolved = Some r \<Longrightarrow> bs_account r = account"
proof (cases "filter (\<lambda>r. bs_account r = account) (map snd resolved)")
  case (Cons s rest)
  then have "set (s # rest) \<subseteq> {r. bs_account r = account}" by (auto simp flip: Cons)
  then have "bs_account (max_from handoff_rank s rest) = account" using max_from_mem [of handoff_rank s rest] by blast
  moreover assume "same_account_snapshot account resolved = Some r"
  ultimately show ?thesis using Cons by (auto simp: same_account_snapshot_def find_Some_iff split: option.splits)
qed (auto simp: same_account_snapshot_def find_Some_iff split: option.splits)

lemma same_account_snapshot_None:
  "same_account_snapshot account resolved = None \<Longrightarrow> (kind, r) \<in> set resolved \<Longrightarrow> bs_account r \<noteq> account"
  by (force simp: same_account_snapshot_def filter_empty_conv split: option.splits list.splits)

lemma one_value: "length (remdups xs) = 1 \<Longrightarrow> x \<in> set xs \<Longrightarrow> y \<in> set xs \<Longrightarrow> x = y"
  by (metis One_nat_def length_Suc_conv length_0_conv set_remdups list.set_intros(1) set_ConsD empty_iff list.set(1))

lemma alias_conflict_Inr:
  assumes "alias_conflict resolved = Inr l" "(kind, r) \<in> set resolved"
  shows "bl_account l = bs_account r
     \<or> kind = DURABLE_SESSION_HEADER_ALIAS \<and> is_http_bridge_account_neutral_replay (bl_canonical_kind l) (bl_canonical_key l)"
proof -
  obtain k s rest where spec: "filter (\<lambda>(kind, r). kind \<noteq> DURABLE_SESSION_HEADER_ALIAS) resolved = (k, s) # rest"
    using assms(1) by (auto simp: alias_conflict_def Let_def split: list.splits)
  then have l: "l = to_lookup s" "is_neutral_session s"
    and kinds: "set (map fst (filter (\<lambda>(kind, r). bridge_identity r \<noteq> bridge_identity s) resolved)) = {DURABLE_SESSION_HEADER_ALIAS}"
    using assms(1) by (auto simp: alias_conflict_def Let_def split: if_splits)
  show ?thesis
  proof (cases "bridge_identity r = bridge_identity s")
    case False
    then have "kind \<in> set (map fst (filter (\<lambda>(kind, r). bridge_identity r \<noteq> bridge_identity s) resolved))"
      using assms(2) by force
    then show ?thesis using kinds l by (simp add: to_lookup_def is_neutral_session_def)
  qed (simp add: l to_lookup_def bridge_identity_def)
qed

lemma resolve_from_aliases_sound:
  assumes "resolve_from_aliases resolved = Inr found" "(kind, r) \<in> set resolved"
  shows "\<exists>l. found = Some l \<and> (bl_account l = bs_account r
     \<or> kind = DURABLE_SESSION_HEADER_ALIAS \<and> is_http_bridge_account_neutral_replay (bl_canonical_kind l) (bl_canonical_key l))"
proof (cases "1 < length (remdups (map (bridge_identity \<circ> snd) resolved))")
  case False
  moreover obtain k s rest where "resolved = (k, s) # rest" using assms(2) by (cases resolved) auto
  moreover have "length (remdups (map (bridge_identity \<circ> snd) resolved)) = 1"
    using False assms(2) by (cases "remdups (map (bridge_identity \<circ> snd) resolved)") auto
  moreover have "bridge_identity r \<in> set (map (bridge_identity \<circ> snd) resolved)" using assms(2) by force
  ultimately have "found = Some (to_lookup s)" "bridge_identity r = bridge_identity s"
    using assms(1) one_value [of "map (bridge_identity \<circ> snd) resolved" "bridge_identity r" "bridge_identity s"]
    by (simp_all add: resolve_from_aliases_def Let_def)
  then show ?thesis by (simp add: to_lookup_def bridge_identity_def)
next
  case many: True
  let ?accounts = "remdups (List.map_filter (bs_account \<circ> snd) resolved)"
  show ?thesis
  proof (cases "length ?accounts = 1 \<and> \<not> list_ex (\<lambda>(kind, r). bs_account r = None) resolved")
    case True
    then obtain a where a: "bs_account r = Some a" using assms(2) by (cases "bs_account r") (auto simp: list_ex_iff)
    then have "a \<in> set ?accounts" using assms(2) by (force simp: List.map_filter_def)
    then have hd: "hd ?accounts = a" using True by (cases ?accounts) auto
    then have "found = map_option to_lookup (same_account_snapshot (Some a) resolved)"
      using assms(1) many True by (simp add: resolve_from_aliases_def Let_def)
    then show ?thesis
      using same_account_snapshot_account [of "Some a" resolved] same_account_snapshot_None [of "Some a" resolved kind r]
        assms(2) a by (cases "same_account_snapshot (Some a) resolved") (auto simp: to_lookup_def)
  next
    case False
    then have "map_sum id Some (alias_conflict resolved) = Inr found"
      using assms(1) many by (auto simp: resolve_from_aliases_def Let_def split: if_splits)
    then obtain l where "alias_conflict resolved = Inr l" "found = Some l" by (cases "alias_conflict resolved") auto
    then show ?thesis using alias_conflict_Inr assms(2) by blast
  qed
qed

text \<open>
  C18. A lookup never leaves an alias behind silently: whatever it returns continues on the
  account of every alias of the request that resolves, except that a recovery session may override
  the session header. When aliases disagree in any other way the lookup raises, and it never falls
  through to the request's own key.
\<close>

theorem lookup_keeps_continuity:
  assumes "lookup_request_targets hash updated views q = Inr found"
    and "(kind, r) \<in> set (resolved_aliases hash views q)"
  shows "\<exists>l. found = Some l \<and> (bl_account l = bs_account r
     \<or> kind = DURABLE_SESSION_HEADER_ALIAS
        \<and> is_http_bridge_account_neutral_replay (bl_canonical_kind l) (bl_canonical_key l))"
proof -
  obtain l where "resolve_from_aliases (resolved_aliases hash views q) = Inr (Some l)" "found = Some l"
    using assms resolve_from_aliases_sound [of "resolved_aliases hash views q" None kind r]
    by (auto simp: lookup_request_targets_def split: sum.splits option.splits)
  then show ?thesis using resolve_from_aliases_sound [OF _ assms(2), of "Some l"] by simp
qed

section \<open>Published aliases resolve\<close>

lemma find_append_new: "find p xs = None \<Longrightarrow> p y \<Longrightarrow> find p (xs @ [y]) = Some y"
  by (induction xs) (auto split: if_splits)

lemma upserted_alias_at:
  assumes "alias_upsert hash now t sid kind v scope db = (True, db')"
  shows "\<exists>a. alias_at hash kind v scope db' = Some a \<and> ba_session a = sid"
proof (cases "find (\<lambda>a. alias_ident a = (kind, hash v, scope)) (db_aliases db)")
  case None
  then show ?thesis using assms
    by (auto simp: alias_upsert_def alias_at_def Let_def alias_ident_def find_append_new)
next
  case (Some a)
  let ?here = "\<lambda>a. alias_ident a = (kind, hash v, scope)"
  let ?g = "\<lambda>b. if ?here b then b\<lparr>ba_session := sid, ba_value := v\<rparr> else b"
  have "find ?here (map ?g (db_aliases db)) = map_option ?g (find ?here (db_aliases db))"
    by (rule find_map_same) (simp add: alias_ident_def)
  moreover have "?here a" using Some by (auto simp: find_Some_iff)
  ultimately show ?thesis using assms Some
    by (auto simp: alias_upsert_def alias_at_def Let_def split: if_splits)
qed

text \<open>
  C32. A turn state that was registered resolves, under the same API key, to the session that
  registered it, with that owner and epoch and the turn state as its latest one.
\<close>

theorem registered_turn_state_resolves:
  assumes "register_turn_state hash now now2 sid api_key_id instance_id epoch turn_state ttl db = (REGISTERED, db')"
    and "wf_bridge db"
  shows "\<exists>l. lookup_turn_state_target hash turn_state api_key_id db' = Some l \<and> bl_session l = sid
     \<and> bl_owner l = Some instance_id \<and> bl_epoch l = epoch \<and> bl_turn l = Some turn_state"
proof -
  let ?scope = "durable_bridge_api_key_scope api_key_id"
  let ?an = "\<lparr>an_turn = Some turn_state, an_response = None, an_item_count = None, an_fingerprint = None\<rparr>"
  let ?owned = "owned_in_scope sid ?scope instance_id epoch"
  let ?db1 = "update_sessions ?owned (anchored_row now ttl ?an) db"
  obtain target where f: "find ?owned (db_sessions db) = Some target"
    and up: "alias_upsert hash now2 (Some (is_neutral_session target)) sid DURABLE_TURN_STATE_ALIAS turn_state ?scope ?db1 = (True, db')"
    using assms(1) by (auto simp: register_turn_state_def register_owned_alias_def Let_def split: option.splits prod.splits bool.splits)
  note target = owned_target [OF f]
  have "session_by_id sid db' = session_by_id sid ?db1" using alias_upsert_eq [OF up] by (simp add: session_by_id_def)
  also have "\<dots> = Some (anchored_row now ttl ?an target)"
    using session_by_id_row [OF assms(2)] target by (auto simp: session_by_id_update)
  finally have row: "session_by_id sid db' = Some (anchored_row now ttl ?an target)" .
  have "bs_turn (anchored_row now ttl ?an target) = Some turn_state" by (simp add: anchored_row_def)
  then show ?thesis
    using upserted_alias_at [OF up] row target
    by (auto simp: lookup_turn_state_target_def resolve_alias_def to_lookup_def owned_in_scope_def fenced_in_def)
qed

section \<open>Witnesses\<close>

definition w_lookup :: lookup_request where
  "w_lookup =
     \<lparr>lq_kind = ''session_header'', lq_value = ''k'', lq_api_key = None, lq_turn_state = Some ''t1'',
      lq_session_header = None, lq_previous_response = None\<rparr>"

theorem lookup_keeps_continuity_witness:
  "(DURABLE_TURN_STATE_ALIAS, w_other_session) \<in> set (resolved_aliases (\<lambda>x. x) (\<lambda>n. w_bridge) w_lookup)
   \<and> (\<exists>l. lookup_request_targets (\<lambda>x. x) (\<lambda>i. 0) (\<lambda>n. w_bridge) w_lookup = Inr (Some l) \<and> bl_account l = None)"
proof -
  have resolved: "resolved_aliases (\<lambda>x. x) (\<lambda>n. w_bridge) w_lookup = [(DURABLE_TURN_STATE_ALIAS, w_other_session)]"
    by (simp add: resolved_aliases_def requested_aliases_def w_lookup_def w_bridge_def w_bridge_session_def w_other_session_def
        alias_kinds resolve_alias_def alias_at_def alias_ident_def session_by_id_def has_id_def
        durable_bridge_api_key_scope_def ANONYMOUS_API_KEY_SCOPE_def List.map_filter_def)
  then have found: "lookup_request_targets (\<lambda>x. x) (\<lambda>i. 0) (\<lambda>n. w_bridge) w_lookup = Inr (Some (to_lookup w_other_session))"
    by (simp add: lookup_request_targets_def resolve_from_aliases_def)
  show ?thesis
    using lookup_keeps_continuity [OF found, of DURABLE_TURN_STATE_ALIAS w_other_session] found resolved
    by (auto simp: w_other_session_def w_bridge_session_def alias_kinds)
qed

theorem registered_turn_state_resolves_witness:
  "\<exists>db' l. register_turn_state (\<lambda>x. x) 60 61 ''s1'' None ''A'' 1 ''t5'' 60 w_bridge = (REGISTERED, db')
     \<and> lookup_turn_state_target (\<lambda>x. x) ''t5'' None db' = Some l \<and> bl_session l = ''s1''"
proof -
  obtain st db' where reg: "register_turn_state (\<lambda>x. x) 60 61 ''s1'' None ''A'' 1 ''t5'' 60 w_bridge = (st, db')" by fastforce
  have "st = REGISTERED"
    using reg by (simp add: register_turn_state_def register_owned_alias_def owned_in_scope_def fenced_in_def w_bridge_def
        w_bridge_session_def w_other_session_def alias_upsert_def alias_ident_def durable_bridge_api_key_scope_def
        ANONYMOUS_API_KEY_SCOPE_def alias_kinds Let_def)
  then show ?thesis using registered_turn_state_resolves [OF _ w_bridge_wf] reg by blast
qed

end
