(* ===== verification/Spec2Isabelle.thy ===== *)
theory Spec2Isabelle
  imports
    Balancer_Select_More
    Retry
    Balancer_Failures
    Cap_Partition
    Leases
    Circuit_Breaker
    TTL_Caches
    Admission
    Usage_Windows
    Usage_Quota
    Account_Cache
    Account_Recovery
    Leader_Election
    Api_Key_Ledger
    Budget_Selection
    Rate_Limiter
    Quota_Planner
    Select_Account
    Durable_Bridge_Lookup
begin

text \<open>
  OpenHUB routes API traffic to a pool of upstream accounts. This development models the code
  that decides: which account serves a request, when an account is taken out of the pool and
  put back, how many requests it may carry, and how replicas and caches stay consistent. All
  paths are under \<open>src/app\<close>.

  \<^bold>\<open>The parts and how they interact.\<close> A request passes the admission middlewares
  (\<open>core/resilience\<close>), its key and address are checked through TTL caches, and the load balancer
  (\<open>modules/proxy/load_balancer.py\<close>) selects an account: it loads the accounts that the registry of
  models and the registry of additional quotas admit for the model, builds one state per account from
  the database row, the usage history and its in-memory runtime entry, drops the accounts at
  their concurrency cap, calls the pure selector of \<open>core/balancer/logic.py\<close> on one part of the
  pool after another with the costs of the quota planner, and records a lease. The
  upstream answer comes back as a success, an error or a permanent failure; the handlers of the
  same module change the state, which is mirrored into the runtime entry and persisted. Replicas
  share the database and split the concurrency caps by ring membership. Before the upstream call
  the request reserves a budget on the limits of its API key and settles the actual, priced use
  afterwards; sweeps run by the replica that holds the leader lease reset expired windows and
  give back what crashed requests left reserved. A client that continues a conversation is led back to
  the replica and the account that hold it through the rows of the durable bridge, which replicas claim
  under an epoch and look up by aliases.

  \<^bold>\<open>Theories.\<close>
  \<^item> \<open>Prelude\<close>: the Python built-ins used by the code and generic lemmas.
  \<^item> \<open>Plans\<close>: \<open>core/plan_types.py\<close>.
  \<^item> \<open>Balancer_State\<close>, \<open>Balancer_Opportunistic\<close>, \<open>Balancer_Strategies\<close>, \<open>Balancer_Select\<close>:
    \<open>core/balancer/logic.py\<close> in the order of the code, ending with \<open>select_account\<close>. The selector
    mutates the states it is given; the model returns them in \<open>out_states\<close>. Randomness and the
    clock are in \<open>selection_env\<close>.
  \<^item> \<open>Balancer_Select_Props\<close>, \<open>Balancer_Select_More\<close>: what the selector returns, what it leaves
    alone, that it finds an account whenever one is usable, and the bounds of its refusals.
  \<^item> \<open>Retry\<close>: \<open>core/utils/retry.py\<close>, with the round trip from the selector's refusal message to
    the parsed delay.
  \<^item> \<open>Balancer_Failures\<close>: the failure handlers and the health-tier machine, the latter refined
    to an inductive transition relation.
  \<^item> \<open>Cap_Partition\<close>: \<open>modules/proxy/cap_partitioning.py\<close>.
  \<^item> \<open>Runs\<close>: interfaces shared by the stateful components: event systems with an invariant,
    bounded resources, monotone measures and change tokens.
  \<^item> \<open>Leases\<close>: the lease bookkeeping of the load balancer, exact counters and caps over every
    interleaving of acquire, release and reclaim.
  \<^item> \<open>Circuit_Breaker\<close>: \<open>core/resilience/circuit_breaker.py\<close>.
  \<^item> \<open>TTL_Caches\<close>: the API-key, firewall and route caches as instances of one contract, a
    versioned cache whose hits are never older than an invalidation.
  \<^item> \<open>Admission\<close>: overload lanes, bulkhead, backpressure, work-admission gates, retry budget.
  \<^item> \<open>Usage_Windows\<close>, \<open>Usage_Quota\<close>: \<open>core/usage\<close>, window arithmetic, weekly-row
    normalisation, the status derived from usage, the depletion forecast.
  \<^item> \<open>Account_Cache\<close>: \<open>modules/proxy/account_cache.py\<close>.
  \<^item> \<open>Runtime_Sync\<close>: runtime entries, status writes, marking and recording, probe reservations.
  \<^item> \<open>Account_Recovery\<close>: the state of an account from its row, its usage rows and its runtime
    entry, when a block is lifted, and the settlement of probes.
  \<^item> \<open>Budget_Selection\<close>: the selection stages of \<open>_load_balancer/sticky_selection.py\<close>: recovery
    probe, burn-first, budget-safe, whole pool; that the stages keep the selector's guarantees,
    prefer budget-safe accounts and lose no availability, and that the cap filter agrees with the
    lease check.
  \<^item> \<open>Sticky_Sessions\<close>: \<open>modules/proxy/sticky_repository.py\<close>, the rows that bind a session key
    to an account, their statements and expiry.
  \<^item> \<open>Sticky_Selection\<close>: what a binding decides before a lease is taken: the pinned account, the
    fallbacks and the grace of \<open>_load_balancer/sticky_selection.py\<close>.
  \<^item> \<open>Selection_Inputs\<close>: the planner costs, the requested scope and the pool a selection sees; a
    scope is never widened.
  \<^item> \<open>Selection_Unbound\<close>, \<open>Selection_Sticky\<close>: the two asynchronous selection drivers as they are
    written, attempt by attempt: snapshot, selection, lease, database writes, recheck, retry. Each
    ends with exactly the lease it returns and no other.
  \<^item> \<open>Selection_Paths\<close>: the account a driver returns is one it was offered, a hard session keeps its
    owner, and a provisional binding is undone when its lease is not kept.
  \<^item> \<open>Selection_Caps\<close>: an account a driver returns was under its caps when its lease was taken.
  \<^item> \<open>Quota_Registry\<close>: \<open>modules/usage/additional_quota_keys.py\<close> and
    \<open>modules/proxy/additional_model_limits.py\<close>; a registry that loads gives stable keys.
  \<^item> \<open>Model_Registry\<close>, \<open>Model_Refresh\<close>: \<open>core/openai/model_registry.py\<close>, the catalog with its queries and
    the refresh; what every snapshot keeps, where the support of an account comes from, that a
    withdrawn model is served by nobody and that merging keeps the fast tier.
  \<^item> \<open>Selection_Load\<close>: \<open>_load_selection_inputs\<close> through its cache, with the filters by model, tier,
    catalog evidence and additional quota, and what they admit.
  \<^item> \<open>Select_Account\<close>: \<open>LoadBalancer.select_account\<close> around the two drivers,
    \<open>check_opportunistic_admission\<close> and \<open>core/resilience/degradation.py\<close>; what a request gets end to
    end, and that the failure of a request bound to its owner leaves the degradation flag alone.
  \<^item> \<open>Durable_Bridge\<close>: \<open>modules/proxy/durable_bridge_repository.py\<close> and \<open>modules/proxy/continuity.py\<close>,
    the rows and aliases of bridge sessions with their keys, references and every statement.
  \<^item> \<open>Durable_Bridge_Runs\<close>, \<open>Durable_Bridge_Fencing\<close>: replicas interleaving on those rows; a claim by
    another owner fences off the old one, epochs only grow, the purge on startup ends and removes what
    it should, and a registration is undone exactly.
  \<^item> \<open>Durable_Bridge_Lookup\<close>: \<open>modules/proxy/durable_bridge_coordinator.py\<close>; a lookup never answers with
    the session of another owner, and a registered turn state resolves.
  \<^item> \<open>Quota_Planner\<close>: \<open>modules/quota_planner/logic.py\<close>, costs, forecast, simulation, plan.
  \<^item> \<open>Rate_Limiter\<close>: \<open>core/rate_limiter/db_rate_limiter.py\<close>, the sliding window over every run.
  \<^item> \<open>Leader_Election\<close>: \<open>core/scheduling/leader_election.py\<close>, the lease row and its statements, the
    heartbeat, and replicas interleaving on the row.
  \<^item> \<open>Pricing\<close>: \<open>core/usage/pricing.py\<close> with its tables.
  \<^item> \<open>Api_Key_Limits\<close>: \<open>modules/api_keys\<close>, limit windows, reservations and sweeps.
  \<^item> \<open>Api_Key_Ledger\<close>: the ledger invariant over every interleaving of those operations, exact
    settlement, release as the inverse of reservation, admission.

  \<^bold>\<open>State and steps.\<close> A class is a record and a method a function on it. Asynchronous methods
  that hold a lock for their whole body are one step; a method that awaits without a lock is
  split at the await. Interleavings are lists of events, folded over the state; a guard says
  which events can happen where. The selection drivers run over a list of attempt environments: what
  one attempt reads, what other requests do to the leases between its steps, and which of its
  writes fail. A driver whose list is used up is still \<open>Running\<close>, so no bound on the number of
  attempts is built in beyond the one of the code. A statement of the durable bridge is one step on the
  database, with \<open>others\<close> what other replicas commit before it when the code reads without a lock, and a
  lookup gets one \<open>view\<close> of the database per query; the purges run round by round over a list of such
  steps. No loop needs fuel: every recursion of the model is structural or has a measure. What the
  repositories answer during a load is data of the load (\<open>load_reads\<close>).

  \<^bold>\<open>Interfaces.\<close> The contracts are locales, interpreted on the model's own definitions: the
  bounded-resource contract by leases, breakers, bulkheads, backpressure and gates; the versioned
  cache by the four caches; the change token by the runtime entry's health version; event systems
  by the leader cluster, the usage ledger, the rate limiter, the durable bridge (\<open>bridge\<close>) and the model
  registry (\<open>registry\<close>). The drivers rely on the lease
  store through \<open>lease_store\<close>, which the runtime entries provide; \<open>lease_tracking\<close> says what is to
  be known of the leases a caller holds, \<open>unbound_tracking\<close> and \<open>sticky_tracking\<close> carry it through
  a driver, and they are interpreted twice: for ownership (\<open>owned\<close>) and for the caps (\<open>capped\<close>).

  \<^bold>\<open>Not modelled.\<close> Floating-point rounding, logging and metrics; HTTP, websocket and SSE
  plumbing; the upstream clients; SQL beyond the rows the modelled statements touch; the dashboard
  and its services; task cancellation around the leader's gated body. Of the load
  balancer, the SQL behind the repositories of accounts and usage is not modelled; of the model registry,
  the fetch of the catalogs and the store of the persisted snapshot; of the planner, its storage and its warm-up traffic; of the API keys, their
  administration; of the proxy, the endpoints and the streaming services.
\<close>

end
